(* ===== verification/Prelude.thy ===== *)
theory Prelude
  imports Complex_Main "HOL-Library.Word"
begin

section \<open>Prelude: machine integers, clocks, text and bounded logs\<close>

text \<open>
  What every component shares: the names of the machine types (the code is modelled for a
  64-bit target, so \<open>usize\<close> is a 64-bit word and \<open>+\<close> wraps, as it does in the release
  profile, which leaves overflow checks off), the saturating integer operations of
  the standard library, monotonic clock readings, decimal and hexadecimal rendering, and
  the interface of a capped log with the lemmas its clients use.
\<close>

subsection \<open>Machine integers\<close>

type_synonym u8 = "8 word"
type_synonym u32 = "32 word"
type_synonym u64 = "64 word"
type_synonym usize = "64 word"

named_theorems sat_defs \<open>definitions of the saturating word operations\<close>

definition sat_sub :: "'a::len word \<Rightarrow> 'a word \<Rightarrow> 'a word" where
  [sat_defs]: "sat_sub a b = (if b \<le> a then a - b else 0)"

definition sat_add :: "'a::len word \<Rightarrow> 'a word \<Rightarrow> 'a word" where
  [sat_defs]: "sat_add a b = (if unat a + unat b < 2 ^ LENGTH('a) then a + b else - 1)"

definition sat_mul :: "'a::len word \<Rightarrow> 'a word \<Rightarrow> 'a word" where
  [sat_defs]: "sat_mul a b = (if unat a * unat b < 2 ^ LENGTH('a) then a * b else - 1)"

lemma unat_max_word: "unat (- 1 :: 'a::len word) = 2 ^ LENGTH('a) - 1"
  by (simp add: unsigned_minus_1_eq_mask mask_eq_exp_minus_1)

lemma unat_sat_sub [simp]: "unat (sat_sub a b) = unat a - unat b"
  by (auto simp: sat_sub_def unat_sub word_le_nat_alt)

lemma unat_sat_add [simp]:
  "unat (sat_add a b) = min (unat a + unat b) (2 ^ LENGTH('a) - 1)" for a b :: "'a::len word"
proof (cases "unat a + unat b < 2 ^ LENGTH('a)")
  case True
  then show ?thesis by (simp add: sat_add_def unat_word_ariths)
next
  case False
  then show ?thesis by (simp add: sat_add_def unat_max_word)
qed

lemma unat_sat_mul [simp]:
  "unat (sat_mul a b) = min (unat a * unat b) (2 ^ LENGTH('a) - 1)" for a b :: "'a::len word"
proof (cases "unat a * unat b < 2 ^ LENGTH('a)")
  case True
  then show ?thesis by (simp add: sat_mul_def unat_word_ariths)
next
  case False
  then show ?thesis by (simp add: sat_mul_def unat_max_word)
qed

lemma unat_Suc_below: "a < b \<Longrightarrow> unat (a + 1) = Suc (unat a)" for a b :: "'a::len word"
proof -
  assume "a < b"
  then have "Suc (unat a) \<le> unat b" by (simp add: word_less_nat_alt)
  also have "unat b < 2 ^ LENGTH('a)" by (rule unsigned_less)
  finally have "Suc (unat a) < 2 ^ LENGTH('a)" .
  then show ?thesis by (simp add: unat_word_ariths)
qed

lemma word_Suc_le_below: "a < b \<Longrightarrow> a + 1 \<le> b" for a b :: "'a::len word"
  by (simp add: word_le_nat_alt word_less_nat_alt unat_Suc_below)

lemma unat_of_nat_small: "n < 2 ^ LENGTH('a) \<Longrightarrow> unat (of_nat n :: 'a::len word) = n"
  by (simp add: unat_of_nat)

subsection \<open>The monotonic clock\<close>

text \<open>
  \<open>std::time::Instant\<close> is a number of nanoseconds since an origin no code sees, and a
  \<open>Duration\<close> a number of nanoseconds. \<open>Instant::elapsed\<close> and \<open>duration_since\<close> saturate at
  zero when the earlier instant is the later one, which is subtraction on \<open>nat\<close>.
\<close>

type_synonym instant = nat
type_synonym duration = nat

definition secs :: "nat \<Rightarrow> duration" where
  "secs n = n * 1000000000"

definition millis :: "nat \<Rightarrow> duration" where
  "millis n = n * 1000000"

definition elapsed :: "instant \<Rightarrow> instant \<Rightarrow> duration" where
  "elapsed now t = now - t"

definition as_secs :: "duration \<Rightarrow> nat" where
  "as_secs d = d div 1000000000"

lemma secs_mono [simp]: "secs a \<le> secs b \<longleftrightarrow> a \<le> b"
  by (simp add: secs_def)

lemma elapsed_self [simp]: "elapsed t t = 0"
  by (simp add: elapsed_def)

lemma elapsed_mono: "n \<le> m \<Longrightarrow> elapsed n t \<le> elapsed m t"
  by (simp add: elapsed_def)

subsection \<open>Text\<close>

text \<open>Numbers as the formatting macros print them: decimal, padded decimal, hexadecimal.\<close>

fun digits_base :: "nat \<Rightarrow> nat \<Rightarrow> nat list" where
  "digits_base b n = (if b < 2 \<or> n < b then [n] else digits_base b (n div b) @ [n mod b])"

declare digits_base.simps [simp del]

definition digit_char :: "nat \<Rightarrow> char" where
  "digit_char d = (if d < 10 then char_of (48 + d) else char_of (87 + d))"

definition show_nat :: "nat \<Rightarrow> string" where
  "show_nat n = map digit_char (digits_base 10 n)"

definition show_hex :: "nat \<Rightarrow> string" where
  "show_hex n = map digit_char (digits_base 16 n)"

definition pad_left :: "nat \<Rightarrow> char \<Rightarrow> string \<Rightarrow> string" where
  "pad_left w c s = replicate (w - length s) c @ s"

definition value_base :: "nat \<Rightarrow> nat list \<Rightarrow> nat" where
  "value_base b ds = foldl (\<lambda>acc d. acc * b + d) 0 ds"

lemma value_base_snoc [simp]: "value_base b (ds @ [d]) = value_base b ds * b + d"
  by (simp add: value_base_def)

lemma value_digits_base: "value_base b (digits_base b n) = n"
proof (induction b n rule: digits_base.induct)
  case (1 b n)
  show ?case
  proof (cases "b < 2 \<or> n < b")
    case True
    then show ?thesis by (subst digits_base.simps) (simp add: value_base_def)
  next
    case False
    with "1.IH" have "value_base b (digits_base b (n div b)) = n div b" by blast
    with False show ?thesis by (subst digits_base.simps) simp
  qed
qed

lemma digits_base_bound: "2 \<le> b \<Longrightarrow> d \<in> set (digits_base b n) \<Longrightarrow> d < b"
proof (induction b n rule: digits_base.induct)
  case (1 b n)
  show ?case
  proof (cases "n < b")
    case True
    with "1.prems" show ?thesis by (simp add: digits_base.simps [of b n])
  next
    case False
    with "1.prems" have "d \<in> set (digits_base b (n div b)) \<or> d = n mod b"
      by (auto simp: digits_base.simps [of b n])
    with 1 False show ?thesis by auto
  qed
qed

definition char_digit :: "char \<Rightarrow> nat" where
  "char_digit c = (if of_char c < (58::nat) then of_char c - 48 else of_char c - 87)"

lemma char_digit_digit_char: "d < 16 \<Longrightarrow> char_digit (digit_char d) = d"
  by (auto simp: char_digit_def digit_char_def take_bit_eq_mod)

lemma digit_char_inj: "a < 16 \<Longrightarrow> b < 16 \<Longrightarrow> digit_char a = digit_char b \<longleftrightarrow> a = b"
  by (metis char_digit_digit_char)

lemma digits_base_inj: "digits_base b m = digits_base b n \<longleftrightarrow> m = n"
  by (metis value_digits_base)

lemma map_digit_char_inj:
  "\<forall>d \<in> set xs. d < 16 \<Longrightarrow> \<forall>d \<in> set ys. d < 16 \<Longrightarrow>
     map digit_char xs = map digit_char ys \<longleftrightarrow> xs = ys"
proof (induction xs arbitrary: ys)
  case Nil
  then show ?case by auto
next
  case (Cons x xs)
  then show ?case by (cases ys) (auto simp: digit_char_inj)
qed

lemma show_nat_inj [simp]: "show_nat m = show_nat n \<longleftrightarrow> m = n"
proof -
  have "\<forall>d \<in> set (digits_base 10 k). d < 16" for k
    using digits_base_bound [of 10 _ k] by fastforce
  then show ?thesis
    by (simp add: show_nat_def map_digit_char_inj digits_base_inj)
qed

text \<open>Reading a decimal number the way \<open>str::parse\<close> does for unsigned integers: an optional plus
  sign, at least one digit, nothing else; the caller bounds the value.\<close>

definition is_digit :: "char \<Rightarrow> bool" where
  "is_digit c = (48 \<le> (of_char c :: nat) \<and> (of_char c :: nat) \<le> 57)"

definition parse_digits :: "string \<Rightarrow> nat option" where
  "parse_digits s = (if s \<noteq> [] \<and> list_all is_digit s then Some (value_base 10 (map char_digit s)) else None)"

definition parse_unsigned :: "string \<Rightarrow> nat option" where
  "parse_unsigned s = (case s of [] \<Rightarrow> None
     | c # r \<Rightarrow> if c = CHR ''+'' \<and> r \<noteq> [] then parse_digits r else parse_digits s)"

definition parse_word :: "string \<Rightarrow> 'a::len word option" where
  "parse_word s = (case parse_unsigned s of None \<Rightarrow> None
     | Some n \<Rightarrow> if n < 2 ^ LENGTH('a) then Some (of_nat n) else None)"

lemma digit_char_is_digit: "d < 10 \<Longrightarrow> is_digit (digit_char d)"
  by (simp add: is_digit_def digit_char_def take_bit_eq_mod)

lemma digits_base_not_Nil [simp]: "digits_base b n \<noteq> []"
  by (subst digits_base.simps) simp

lemma value_base_zeros: "value_base b (replicate n 0 @ ds) = value_base b ds"
  by (induction n) (simp_all add: value_base_def)

lemma char_digit_zero [simp]: "char_digit (CHR ''0'') = 0" "is_digit (CHR ''0'')"
  by (simp_all add: char_digit_def is_digit_def)

lemma show_nat_digits: "map char_digit (show_nat n) = digits_base 10 n"
proof -
  have "d < 16" if "d \<in> set (digits_base 10 n)" for d
    using digits_base_bound [OF _ that] by simp
  then show ?thesis unfolding show_nat_def map_map
    by (intro map_idI) (simp add: char_digit_digit_char)
qed

lemma parse_digits_padded: "parse_digits (pad_left w (CHR ''0'') (show_nat n)) = Some n"
proof -
  have "list_all is_digit (show_nat n)"
    by (auto simp: show_nat_def list_all_iff intro!: digit_char_is_digit digits_base_bound [where b = 10])
  moreover have "show_nat n \<noteq> []" by (simp add: show_nat_def)
  ultimately show ?thesis
    by (auto simp: parse_digits_def pad_left_def show_nat_digits value_base_zeros value_digits_base list_all_iff)
qed

lemma parse_digits_not_sign: "parse_digits (c # r) = Some n \<Longrightarrow> c \<noteq> CHR ''+''"
  by (auto simp: parse_digits_def is_digit_def split: if_splits)

lemma parse_word_padded:
  "parse_word (pad_left w (CHR ''0'') (show_nat (unat x))) = Some x" for x :: "'a::len word"
proof -
  let ?s = "pad_left w (CHR ''0'') (show_nat (unat x))"
  have p: "parse_digits ?s = Some (unat x)" by (rule parse_digits_padded)
  then have "parse_unsigned ?s = Some (unat x)"
    using parse_digits_not_sign by (cases ?s) (auto simp: parse_unsigned_def parse_digits_def)
  then show ?thesis by (simp add: parse_word_def unsigned_less)
qed

subsection \<open>Capped logs\<close>

text \<open>
  Several components keep a list of bounded length and push at its end: the policy
  engine's transition log, the guard's rolling window, the prediction scorecard.
  The interface: what a push keeps (the cap, the new entry at the end) and where the
  rest comes from (a suffix of the old entries). \<open>push_all\<close> is a whole run of pushes.
\<close>

locale capped_log =
  fixes push :: "'a \<Rightarrow> 'a list \<Rightarrow> 'a list"
    and cap :: nat
  assumes push_length: "length xs \<le> cap \<Longrightarrow> length (push x xs) \<le> cap"
    and push_last: "\<exists>ys zs. xs = zs @ ys \<and> push x xs = ys @ [x]"
begin

definition push_all :: "'a list \<Rightarrow> 'a list \<Rightarrow> 'a list" where
  "push_all xs es = fold push es xs"

lemma push_ends: "last (push x xs) = x"
  using push_last [of xs x] by auto

lemma push_set: "set (push x xs) \<subseteq> insert x (set xs)"
  using push_last [of xs x] by auto

lemma push_all_length: "length xs \<le> cap \<Longrightarrow> length (push_all xs es) \<le> cap"
  by (induction es arbitrary: xs) (simp_all add: push_all_def push_length)

lemma push_all_set: "set (push_all xs es) \<subseteq> set xs \<union> set es"
proof (induction es arbitrary: xs)
  case Nil
  then show ?case by (simp add: push_all_def)
next
  case (Cons e es)
  have "set (push_all (push e xs) es) \<subseteq> set (push e xs) \<union> set es" by (rule Cons.IH)
  then show ?case using push_set [of e xs] by (auto simp: push_all_def)
qed

lemma push_all_suffix: "\<exists>zs ys. xs @ es = zs @ ys \<and> push_all xs es = ys"
proof (induction es arbitrary: xs)
  case Nil
  then show ?case by (simp add: push_all_def)
next
  case (Cons e es)
  obtain ys zs where p: "xs = zs @ ys" "push e xs = ys @ [e]"
    using push_last by blast
  obtain us vs where q: "push e xs @ es = us @ vs" "push_all (push e xs) es = vs"
    using Cons.IH by blast
  then have "xs @ e # es = (zs @ us) @ vs" using p by simp
  with q(2) show ?case by (auto simp: push_all_def)
qed

end

text \<open>\<open>push_back\<close> followed by \<open>while len > cap: pop_front\<close>.\<close>

definition window_push :: "nat \<Rightarrow> 'a \<Rightarrow> 'a list \<Rightarrow> 'a list" where
  "window_push cap x xs = (let ys = xs @ [x] in drop (length ys - cap) ys)"

lemma window_push_length [simp]: "length (window_push cap x xs) = min (Suc (length xs)) cap"
  by (simp add: window_push_def Let_def)

lemma window_push_set: "set (window_push cap x xs) \<subseteq> insert x (set xs)"
  using set_drop_subset [of "Suc (length xs) - cap" "xs @ [x]"] by (auto simp: window_push_def Let_def)

interpretation window: capped_log "window_push (Suc c)" "Suc c" for c
proof
  fix xs :: "'a list" and x
  show "length (window_push (Suc c) x xs) \<le> Suc c" by simp
  show "\<exists>ys zs. xs = zs @ ys \<and> window_push (Suc c) x xs = ys @ [x]"
    by (intro exI [of _ "drop (length xs - c) xs"] exI [of _ "take (length xs - c) xs"])
       (simp add: window_push_def Let_def)
qed

end
