(* ===== verification/F64.thy ===== *)
theory F64
  imports Prelude
begin

section \<open>Binary64 floating point\<close>

text \<open>
  Rust's \<open>f64\<close>: NaN, the two infinities (\<open>FInf True\<close> is the negative one) and finite values
  carried as rationals. Every arithmetic operation computes the exact result and rounds it
  once to the nearest multiple of the unit in the last place, ties to even, with gradual
  underflow and overflow to infinity: \<open>rnd\<close> is IEEE 754 rounding with 53 significant bits.
  The two zeros are one value here: nothing modelled divides by a zero that a negative
  operation could have produced, or reads the sign bit. Comparisons with NaN are false,
  \<open>min\<close>, \<open>max\<close> and \<open>clamp\<close> treat NaN as the standard library does, a decimal literal is
  its value rounded (\<open>lit\<close>), and casts to integers truncate and saturate.
\<close>

subsection \<open>Rounding\<close>

datatype f64 = FNaN | FInf bool | Fin rat

fun bit_len :: "int \<Rightarrow> int" where
  "bit_len n = (if n \<le> 0 then 0 else 1 + bit_len (n div 2))"

declare bit_len.simps [simp del]

definition floor_log2 :: "rat \<Rightarrow> int" where
  "floor_log2 q = (let (n, d) = quotient_of q; k = bit_len n - bit_len d
     in if 2 powi k \<le> q then k else k - 1)"

definition round_half_even :: "rat \<Rightarrow> int" where
  "round_half_even q = (let f = \<lfloor>q\<rfloor>; r = q - of_int f
     in if r < 1 / 2 \<or> (r = 1 / 2 \<and> even f) then f else f + 1)"

definition ulp_exp :: "rat \<Rightarrow> int" where
  "ulp_exp q = max (floor_log2 q - 52) (- 1074)"

definition rnd_pos :: "rat \<Rightarrow> rat" where
  "rnd_pos q = (let u = 2 powi ulp_exp q in of_int (round_half_even (q / u)) * u)"

definition rnd :: "rat \<Rightarrow> f64" where
  "rnd q = (if q = 0 then Fin 0
     else let m = rnd_pos \<bar>q\<bar>
       in if 2 ^ 1024 \<le> m then FInf (q < 0) else Fin (if q < 0 then - m else m))"

abbreviation lit :: "rat \<Rightarrow> f64" where
  "lit q \<equiv> rnd q"

subsection \<open>Facts of the rounding grid\<close>

lemma bit_len_bounds:
  "0 < n \<Longrightarrow> 0 < bit_len n \<and> 2 ^ nat (bit_len n - 1) \<le> n \<and> n < 2 ^ nat (bit_len n)"
proof (induction n rule: bit_len.induct)
  case (1 n)
  show ?case
  proof (cases "n = 1")
    case True
    then show ?thesis by (simp add: bit_len.simps [of 1] bit_len.simps [of 0])
  next
    case False
    with "1.prems" have n: "\<not> n \<le> 0" "0 < n div 2" by auto
    define m b where "m = n div 2" and "b = bit_len m"
    from "1.IH" [OF n] have IH: "0 < b" "2 ^ nat (b - 1) \<le> m" "m < 2 ^ nat b"
      by (auto simp: m_def b_def)
    have pow: "(2::int) ^ nat (1 + b) = 2 * 2 ^ nat b" "(2::int) ^ nat b = 2 * 2 ^ nat (b - 1)"
      using IH(1) by (simp_all add: nat_add_distrib flip: power_Suc)
    have "bit_len n = 1 + b" using n(1) by (simp add: bit_len.simps [of n] m_def b_def)
    moreover have "2 * m \<le> n" "n < 2 * (m + 1)" by (auto simp: m_def)
    ultimately show ?thesis using IH pow by auto
  qed
qed

lemma powi_nat: "0 \<le> k \<Longrightarrow> (2::rat) powi k = of_int (2 ^ nat k)"
  by (simp add: power_int_def)

lemma bit_len_powi:
  "0 < n \<Longrightarrow> 2 powi (bit_len n - 1) \<le> (of_int n :: rat) \<and> (of_int n :: rat) < 2 powi bit_len n"
  using bit_len_bounds [of n] by (simp add: powi_nat del: of_int_power)

lemma powi_pos [simp]: "0 < (2::rat) powi k"
  by (simp add: zero_less_power_int)

lemma powi_less_iff [simp]: "(2::rat) powi j < 2 powi k \<longleftrightarrow> j < k"
proof (cases "j < k")
  case True
  then show ?thesis by (simp add: power_int_strict_increasing)
next
  case False
  then have "(2::rat) powi k \<le> 2 powi j" by (intro power_int_increasing) auto
  with False show ?thesis by auto
qed

lemma powi_le_iff [simp]: "(2::rat) powi j \<le> 2 powi k \<longleftrightarrow> j \<le> k"
  by (simp flip: not_less)

lemma floor_log2_bounds:
  assumes "0 < q"
  shows "2 powi floor_log2 q \<le> q \<and> q < 2 powi (floor_log2 q + 1)"
proof -
  obtain n d where nd: "quotient_of q = (n, d)" by (cases "quotient_of q")
  have d: "0 < d" using nd by (rule quotient_of_denom_pos)
  have q: "q = of_int n / of_int d" using nd by (rule quotient_of_div)
  have n: "0 < n" using assms d by (simp add: q zero_less_divide_iff)
  define k where "k = bit_len n - bit_len d"
  have bn: "2 powi (bit_len n - 1) \<le> (of_int n :: rat)" "(of_int n :: rat) < 2 powi bit_len n"
    and bd: "2 powi (bit_len d - 1) \<le> (of_int d :: rat)" "(of_int d :: rat) < 2 powi bit_len d"
    using bit_len_powi n d by auto
  have "2 powi (k - 1) * (of_int d :: rat) \<le> 2 powi (k - 1) * 2 powi bit_len d"
    using bd(2) by (intro mult_left_mono) auto
  also have "\<dots> = 2 powi (bit_len n - 1)"
    by (simp add: k_def flip: power_int_add)
  finally have lo: "2 powi (k - 1) \<le> q" using bn(1) d by (simp add: q pos_le_divide_eq)
  have "(of_int n :: rat) < 2 powi (k + 1) * 2 powi (bit_len d - 1)"
    using bn(2) by (simp add: k_def flip: power_int_add)
  also have "\<dots> \<le> 2 powi (k + 1) * of_int d"
    using bd(1) by (intro mult_left_mono) auto
  finally have hi: "q < 2 powi (k + 1)" using d by (simp add: q pos_divide_less_eq)
  have "floor_log2 q = (if 2 powi k \<le> q then k else k - 1)"
    by (simp add: floor_log2_def nd k_def)
  with lo hi show ?thesis by (auto simp: not_le)
qed

lemma floor_log2_less: "0 < q \<Longrightarrow> q < 2 powi k \<Longrightarrow> floor_log2 q < k"
  using floor_log2_bounds [of q] by (meson le_less_trans powi_less_iff)

lemma floor_log2_mono: "0 < p \<Longrightarrow> p \<le> q \<Longrightarrow> floor_log2 p \<le> floor_log2 q"
proof -
  assume "0 < p" "p \<le> q"
  then have "2 powi floor_log2 p \<le> q" "q < 2 powi (floor_log2 q + 1)"
    using floor_log2_bounds [of p] floor_log2_bounds [of q] by auto
  then have "(2::rat) powi floor_log2 p < 2 powi (floor_log2 q + 1)" by (rule le_less_trans)
  then show ?thesis by simp
qed

lemma round_half_even_near:
  "round_half_even q = \<lfloor>q\<rfloor> \<or> round_half_even q = \<lfloor>q\<rfloor> + 1"
  by (simp add: round_half_even_def Let_def)

lemma round_half_even_of_int [simp]: "round_half_even (of_int n) = n"
  by (simp add: round_half_even_def)

lemma round_half_even_mono: "p \<le> q \<Longrightarrow> round_half_even p \<le> round_half_even q"
proof -
  assume pq: "p \<le> q"
  then have f: "\<lfloor>p\<rfloor> \<le> \<lfloor>q\<rfloor>" by (rule floor_mono)
  show ?thesis
  proof (cases "\<lfloor>p\<rfloor> = \<lfloor>q\<rfloor>")
    case True
    with pq show ?thesis by (auto simp: round_half_even_def Let_def)
  next
    case False
    with f have "\<lfloor>p\<rfloor> + 1 \<le> \<lfloor>q\<rfloor>" by simp
    then show ?thesis using round_half_even_near [of p] round_half_even_near [of q] by auto
  qed
qed

text \<open>A value between grid points rounds between them; a grid point is its own rounding.\<close>

lemma rnd_pos_grid_le:
  assumes "q \<le> of_int m * 2 powi ulp_exp q"
  shows "rnd_pos q \<le> of_int m * 2 powi ulp_exp q"
proof -
  have "q / 2 powi ulp_exp q \<le> of_int m" using assms by (simp add: pos_divide_le_eq)
  then have "round_half_even (q / 2 powi ulp_exp q) \<le> m"
    using round_half_even_mono by fastforce
  then show ?thesis by (simp add: rnd_pos_def Let_def mult_right_mono)
qed

lemma rnd_pos_grid_ge:
  assumes "of_int m * 2 powi ulp_exp q \<le> q"
  shows "of_int m * 2 powi ulp_exp q \<le> rnd_pos q"
proof -
  have "of_int m \<le> q / 2 powi ulp_exp q" using assms by (simp add: pos_le_divide_eq)
  then have "m \<le> round_half_even (q / 2 powi ulp_exp q)"
    using round_half_even_mono by fastforce
  then show ?thesis by (simp add: rnd_pos_def Let_def mult_right_mono)
qed

lemma rnd_pos_exact:
  "q = of_int m * 2 powi ulp_exp q \<Longrightarrow> rnd_pos q = q"
  using rnd_pos_grid_le [of q m] rnd_pos_grid_ge [of m q] by simp

lemma powi_grid:
  "e \<le> k \<Longrightarrow> (2::rat) powi k = of_int (2 ^ nat (k - e)) * 2 powi e"
  by (simp add: powi_nat [symmetric] flip: power_int_add del: of_int_power)

lemma rnd_pos_mono:
  assumes "0 < p" "p \<le> q"
  shows "rnd_pos p \<le> rnd_pos q"
proof (cases "ulp_exp p = ulp_exp q")
  case True
  have "p / 2 powi ulp_exp q \<le> q / 2 powi ulp_exp q"
    using assms(2) by (simp add: divide_right_mono less_imp_le)
  then have "round_half_even (p / 2 powi ulp_exp q) \<le> round_half_even (q / 2 powi ulp_exp q)"
    by (rule round_half_even_mono)
  then show ?thesis by (simp add: rnd_pos_def Let_def True mult_right_mono)
next
  case False
  define E where "E = floor_log2 q"
  have "floor_log2 p \<le> E" using assms floor_log2_mono by (simp add: E_def)
  with False have lt: "floor_log2 p < E" and uq: "ulp_exp q = E - 52"
    and up: "ulp_exp p < ulp_exp q"
    by (auto simp: ulp_exp_def E_def)
  have "p < 2 powi (floor_log2 p + 1)" using floor_log2_bounds assms(1) by blast
  also have "\<dots> \<le> 2 powi E" using lt by simp
  finally have "p \<le> 2 powi E" by simp
  then have 1: "rnd_pos p \<le> 2 powi E"
    using rnd_pos_grid_le [of p "2 ^ nat (E - ulp_exp p)"] powi_grid [of "ulp_exp p" E] up uq
    by simp
  have "0 < q" using assms by linarith
  then have "2 powi E \<le> q" using floor_log2_bounds [of q] by (simp add: E_def)
  then have "2 powi E \<le> rnd_pos q"
    using rnd_pos_grid_ge [of "2 ^ nat (E - ulp_exp q)" q] powi_grid [of "ulp_exp q" E] uq
    by simp
  with 1 show ?thesis by linarith
qed

lemma rnd_pos_nonneg: "0 < q \<Longrightarrow> 0 \<le> rnd_pos q"
  using rnd_pos_grid_ge [of 0 q] by simp

lemma rnd_pos_dyadic:
  assumes "0 < m" "m < 2 ^ 53" "- 1074 \<le> e"
  shows "rnd_pos (of_int m * 2 powi e) = of_int m * 2 powi e"
proof -
  define q :: rat where "q = of_int m * 2 powi e"
  have q0: "0 < q" using assms(1) by (simp add: q_def)
  have "(of_int m :: rat) < 2 powi 53"
    using assms(2) by (simp add: powi_nat del: of_int_power) 
  then have "q < 2 powi 53 * 2 powi e" unfolding q_def by (intro mult_strict_right_mono) auto
  also have "\<dots> = 2 powi (53 + e)" by (simp add: power_int_add)
  finally have "floor_log2 q < 53 + e" using q0 by (intro floor_log2_less)
  then have le: "ulp_exp q \<le> e" using assms(3) by (auto simp: ulp_exp_def)
  have "q = of_int (m * 2 ^ nat (e - ulp_exp q)) * 2 powi ulp_exp q"
    unfolding of_int_mult mult.assoc powi_grid [OF le, symmetric] by (fact q_def)
  then have "rnd_pos q = q" by (rule rnd_pos_exact)
  then show ?thesis by (simp add: q_def)
qed

subsection \<open>Order\<close>

fun f_less :: "f64 \<Rightarrow> f64 \<Rightarrow> bool" where
  "f_less FNaN _ = False"
| "f_less _ FNaN = False"
| "f_less (FInf s) (FInf t) = (s \<and> \<not> t)"
| "f_less (FInf s) (Fin _) = s"
| "f_less (Fin _) (FInf t) = (\<not> t)"
| "f_less (Fin a) (Fin b) = (a < b)"

instantiation f64 :: ord
begin

definition less_f64 :: "f64 \<Rightarrow> f64 \<Rightarrow> bool" where
  "less_f64 x y = f_less x y"

definition less_eq_f64 :: "f64 \<Rightarrow> f64 \<Rightarrow> bool" where
  "less_eq_f64 x y = (f_less x y \<or> (x = y \<and> x \<noteq> FNaN))"

instance ..

end

text \<open>\<open>==\<close> on floats: false on NaN.\<close>

definition f_eq :: "f64 \<Rightarrow> f64 \<Rightarrow> bool" where
  "f_eq x y = (x = y \<and> x \<noteq> FNaN)"

lemma f_less_simps [simp]:
  "\<not> FNaN < y" "\<not> x < FNaN" "Fin a < Fin b \<longleftrightarrow> a < b"
  "FInf s < FInf t \<longleftrightarrow> s \<and> \<not> t" "FInf s < Fin a \<longleftrightarrow> s" "Fin a < FInf s \<longleftrightarrow> \<not> s"
  by (simp_all add: less_f64_def, cases x, simp_all)

lemma f_le_simps [simp]:
  "\<not> FNaN \<le> y" "\<not> x \<le> FNaN" "Fin a \<le> Fin b \<longleftrightarrow> a \<le> b"
  "FInf s \<le> FInf t \<longleftrightarrow> (t \<longrightarrow> s)" "FInf s \<le> Fin a \<longleftrightarrow> s" "Fin a \<le> FInf s \<longleftrightarrow> \<not> s"
  by (auto simp: less_eq_f64_def) (cases x, simp_all)+

lemma f_le_iff: "(x::f64) \<le> y \<longleftrightarrow> x < y \<or> (x = y \<and> x \<noteq> FNaN)"
  by (simp add: less_eq_f64_def less_f64_def)

lemma f_le_refl [simp]: "x \<noteq> FNaN \<Longrightarrow> x \<le> x"
  by (simp add: f_le_iff)

lemma f_less_le: "(x::f64) < y \<Longrightarrow> x \<le> y"
  by (simp add: f_le_iff)

lemma f_le_trans [trans]: "(x::f64) \<le> y \<Longrightarrow> y \<le> z \<Longrightarrow> x \<le> z"
  by (cases x; cases y; cases z) auto

lemma f_less_trans [trans]: "(x::f64) < y \<Longrightarrow> y < z \<Longrightarrow> x < z"
  by (cases x; cases y; cases z) auto

lemma f_le_less_trans [trans]: "(x::f64) \<le> y \<Longrightarrow> y < z \<Longrightarrow> x < z"
  by (cases x; cases y; cases z) auto

lemma f_less_le_trans [trans]: "(x::f64) < y \<Longrightarrow> y \<le> z \<Longrightarrow> x < z"
  by (cases x; cases y; cases z) auto

lemma f_antisym: "(x::f64) \<le> y \<Longrightarrow> y \<le> x \<Longrightarrow> x = y"
  by (cases x; cases y) auto

lemma f_not_less: "x \<noteq> FNaN \<Longrightarrow> y \<noteq> FNaN \<Longrightarrow> \<not> x < y \<longleftrightarrow> y \<le> (x::f64)"
  by (cases x; cases y) auto

lemma f_not_le: "x \<noteq> FNaN \<Longrightarrow> y \<noteq> FNaN \<Longrightarrow> \<not> x \<le> y \<longleftrightarrow> y < (x::f64)"
  by (cases x; cases y) auto

lemma f_less_asym: "(x::f64) < y \<Longrightarrow> \<not> y < x" "(x::f64) < y \<Longrightarrow> \<not> y \<le> x"
  by (cases x; cases y; auto)+

lemma f_less_irrefl [simp]: "\<not> (x::f64) < x"
  by (cases x) auto

lemma f_le_not_nan: "(x::f64) \<le> y \<Longrightarrow> x \<noteq> FNaN \<and> y \<noteq> FNaN"
  by auto

lemma f_less_not_nan: "(x::f64) < y \<Longrightarrow> x \<noteq> FNaN \<and> y \<noteq> FNaN"
  by auto

subsection \<open>Rounding is monotone and fixes the values it can represent\<close>

lemma rnd_0 [simp]: "rnd 0 = Fin 0"
  by (simp add: rnd_def)

lemma rnd_not_nan [simp]: "rnd q \<noteq> FNaN"
  by (simp add: rnd_def Let_def)

lemma rnd_pos_cases:
  "0 < q \<Longrightarrow> rnd q = (if 2 ^ 1024 \<le> rnd_pos q then FInf False else Fin (rnd_pos q))"
  by (simp add: rnd_def Let_def)

lemma rnd_neg_cases:
  "q < 0 \<Longrightarrow> rnd q = (if 2 ^ 1024 \<le> rnd_pos (- q) then FInf True else Fin (- rnd_pos (- q)))"
  by (simp add: rnd_def Let_def)

lemma rnd_nonneg: "0 \<le> q \<Longrightarrow> Fin 0 \<le> rnd q"
  by (cases "q = 0") (auto simp: rnd_pos_cases rnd_pos_nonneg)

lemma rnd_nonpos: "q \<le> 0 \<Longrightarrow> rnd q \<le> Fin 0"
  by (cases "q = 0") (auto simp: rnd_neg_cases rnd_pos_nonneg)

lemma rnd_mono: "p \<le> q \<Longrightarrow> rnd p \<le> rnd q"
proof -
  assume pq: "p \<le> q"
  consider "0 < p" | "p \<le> 0" "0 \<le> q" | "q < 0" by linarith
  then show ?thesis
  proof cases
    case 1
    then show ?thesis using rnd_pos_mono [OF 1 pq] pq by (auto simp: rnd_pos_cases)
  next
    case 2
    then show ?thesis using rnd_nonpos rnd_nonneg f_le_trans by blast
  next
    case 3
    then show ?thesis using rnd_pos_mono [of "- q" "- p"] pq by (auto simp: rnd_neg_cases)
  qed
qed

lemma rnd_dyadic:
  assumes "\<bar>m\<bar> < 2 ^ 53" "- 1074 \<le> e" "e \<le> 900"
  shows "rnd (of_int m * 2 powi e) = Fin (of_int m * 2 powi e)"
proof (cases "m = 0")
  case True
  then show ?thesis by simp
next
  case False
  define a where "a = \<bar>m\<bar>"
  have a: "0 < a" "a < 2 ^ 53" using False assms(1) by (auto simp: a_def)
  have exact: "rnd_pos (of_int a * 2 powi e) = of_int a * 2 powi e"
    using rnd_pos_dyadic a assms(2) by blast
  have "(of_int a :: rat) < 2 powi 53"
    using a(2) by (simp add: powi_nat del: of_int_power)
  then have "(of_int a :: rat) * 2 powi e < 2 powi 53 * 2 powi e"
    by (intro mult_strict_right_mono) auto
  also have "\<dots> = 2 powi (53 + e)" by (simp add: power_int_add)
  also have "\<dots> \<le> 2 powi 1024" using assms(3) by (subst powi_le_iff) simp
  also have "\<dots> = 2 ^ 1024" by (simp add: power_int_def)
  finally have small: "\<not> 2 ^ 1024 \<le> (of_int a :: rat) * 2 powi e" by simp
  show ?thesis
  proof (cases "0 < m")
    case True
    then show ?thesis using exact small by (simp add: rnd_pos_cases a_def)
  next
    case neg: False
    with False have "m < 0" by simp
    then have "(of_int m :: rat) * 2 powi e < 0" by (simp add: mult_neg_pos)
    then show ?thesis using exact small \<open>m < 0\<close> by (simp add: rnd_neg_cases a_def)
  qed
qed

lemma rnd_of_int: "\<bar>m\<bar> < 2 ^ 53 \<Longrightarrow> rnd (of_int m) = Fin (of_int m)"
  using rnd_dyadic [of m 0] by simp

lemma rnd_numeral [simp]: "(numeral k :: int) < 2 ^ 53 \<Longrightarrow> rnd (numeral k) = Fin (numeral k)"
  using rnd_of_int [of "numeral k"] by simp

lemma rnd_neg_numeral [simp]:
  "(numeral k :: int) < 2 ^ 53 \<Longrightarrow> rnd (- numeral k) = Fin (- numeral k)"
  using rnd_of_int [of "- numeral k"] by simp

lemma rnd_1 [simp]: "rnd 1 = Fin 1" "rnd (- 1) = Fin (- 1)"
  using rnd_of_int [of 1] rnd_of_int [of "- 1"] by simp_all

lemma rnd_half [simp]: "rnd (1 / 2) = Fin (1 / 2)"
  using rnd_dyadic [of 1 "- 1"] by (simp add: power_int_minus)

text \<open>A value between two representable ones rounds between them.\<close>

lemma rnd_between: "rnd a = Fin a \<Longrightarrow> rnd b = Fin b \<Longrightarrow> a \<le> q \<Longrightarrow> q \<le> b \<Longrightarrow>
    Fin a \<le> rnd q \<and> rnd q \<le> Fin b"
  by (metis rnd_mono)

lemma rnd_ge: "rnd a = Fin a \<Longrightarrow> a \<le> q \<Longrightarrow> Fin a \<le> rnd q"
  by (metis rnd_mono)

lemma rnd_le: "rnd b = Fin b \<Longrightarrow> q \<le> b \<Longrightarrow> rnd q \<le> Fin b"
  by (metis rnd_mono)

subsection \<open>Arithmetic\<close>

fun f_neg :: "f64 \<Rightarrow> f64" where
  "f_neg FNaN = FNaN"
| "f_neg (FInf s) = FInf (\<not> s)"
| "f_neg (Fin a) = Fin (- a)"

fun add_exact :: "f64 \<Rightarrow> f64 \<Rightarrow> f64" where
  "add_exact (Fin a) (Fin b) = Fin (a + b)"
| "add_exact (FInf s) (FInf t) = (if s = t then FInf s else FNaN)"
| "add_exact (FInf s) (Fin _) = FInf s"
| "add_exact (Fin _) (FInf t) = FInf t"
| "add_exact _ _ = FNaN"

fun mul_exact :: "f64 \<Rightarrow> f64 \<Rightarrow> f64" where
  "mul_exact (Fin a) (Fin b) = Fin (a * b)"
| "mul_exact (FInf s) (FInf t) = FInf (s \<noteq> t)"
| "mul_exact (FInf s) (Fin b) = (if b = 0 then FNaN else FInf (s \<noteq> (b < 0)))"
| "mul_exact (Fin a) (FInf t) = (if a = 0 then FNaN else FInf ((a < 0) \<noteq> t))"
| "mul_exact _ _ = FNaN"

fun div_exact :: "f64 \<Rightarrow> f64 \<Rightarrow> f64" where
  "div_exact (Fin a) (Fin b) =
     (if b = 0 then (if a = 0 then FNaN else FInf (a < 0)) else Fin (a / b))"
| "div_exact (FInf s) (Fin b) = FInf (s \<noteq> (b < 0))"
| "div_exact (Fin _) (FInf _) = Fin 0"
| "div_exact _ _ = FNaN"

fun f_round :: "f64 \<Rightarrow> f64" where
  "f_round (Fin q) = rnd q"
| "f_round x = x"

instantiation f64 :: "{zero, one, plus, uminus, minus, times, inverse}"
begin

definition zero_f64 :: f64 where "zero_f64 = Fin 0"
definition one_f64 :: f64 where "one_f64 = Fin 1"
definition plus_f64 :: "f64 \<Rightarrow> f64 \<Rightarrow> f64" where "plus_f64 x y = f_round (add_exact x y)"
definition uminus_f64 :: "f64 \<Rightarrow> f64" where "uminus_f64 x = f_neg x"
definition minus_f64 :: "f64 \<Rightarrow> f64 \<Rightarrow> f64" where
  "minus_f64 x y = f_round (add_exact x (f_neg y))"
definition times_f64 :: "f64 \<Rightarrow> f64 \<Rightarrow> f64" where "times_f64 x y = f_round (mul_exact x y)"
definition divide_f64 :: "f64 \<Rightarrow> f64 \<Rightarrow> f64" where "divide_f64 x y = f_round (div_exact x y)"
definition inverse_f64 :: "f64 \<Rightarrow> f64" where "inverse_f64 x = f_round (div_exact (Fin 1) x)"

instance ..

end

text \<open>\<open>mul_add\<close> rounds once; \<open>abs\<close>, \<open>min\<close>, \<open>max\<close> and \<open>clamp\<close> of the standard library.
  \<open>clamp_checked\<close> writes out its panic (\<open>None\<close>) on unordered or NaN bounds; \<open>f_clamp\<close> is
  the same function at bounds that are ordered literals.\<close>

definition f_mul_add :: "f64 \<Rightarrow> f64 \<Rightarrow> f64 \<Rightarrow> f64" where
  "f_mul_add a b c = f_round (add_exact (mul_exact a b) c)"

fun f_abs :: "f64 \<Rightarrow> f64" where
  "f_abs FNaN = FNaN"
| "f_abs (FInf _) = FInf False"
| "f_abs (Fin a) = Fin \<bar>a\<bar>"

definition f_max :: "f64 \<Rightarrow> f64 \<Rightarrow> f64" where
  "f_max x y = (if x = FNaN then y else if y = FNaN then x else if x < y then y else x)"

definition f_min :: "f64 \<Rightarrow> f64 \<Rightarrow> f64" where
  "f_min x y = (if x = FNaN then y else if y = FNaN then x else if y < x then y else x)"

definition f_clamp :: "f64 \<Rightarrow> f64 \<Rightarrow> f64 \<Rightarrow> f64" where
  "f_clamp x lo hi = (if x < lo then lo else if hi < x then hi else x)"

definition clamp_checked :: "f64 \<Rightarrow> f64 \<Rightarrow> f64 \<Rightarrow> f64 option" where
  "clamp_checked x lo hi = (if lo \<le> hi then Some (f_clamp x lo hi) else None)"

definition f_is_finite :: "f64 \<Rightarrow> bool" where
  "f_is_finite x = (case x of Fin _ \<Rightarrow> True | _ \<Rightarrow> False)"

text \<open>\<open>f64::sqrt\<close>: the integer root of the operand scaled to at least 120 bits, with a sticky
  half below the last bit when it is not exact, rounded once.\<close>

primrec isqrt_bits :: "nat \<Rightarrow> int \<Rightarrow> int \<Rightarrow> int" where
  "isqrt_bits 0 n r = r"
| "isqrt_bits (Suc k) n r = isqrt_bits k n (if (r + 2 ^ k) * (r + 2 ^ k) \<le> n then r + 2 ^ k else r)"

definition isqrt :: "int \<Rightarrow> int" where
  "isqrt n = isqrt_bits (nat (bit_len n)) n 0"

definition sqrt_scaled :: "rat \<Rightarrow> nat \<Rightarrow> rat" where
  "sqrt_scaled q k = (let m = isqrt \<lfloor>q * 4 ^ k\<rfloor>
     in if of_int (m * m) = q * 4 ^ k then of_int m / 2 ^ k else (2 * of_int m + 1) / 2 ^ Suc k)"

fun f_sqrt :: "f64 \<Rightarrow> f64" where
  "f_sqrt FNaN = FNaN"
| "f_sqrt (FInf s) = (if s then FNaN else FInf False)"
| "f_sqrt (Fin q) = (if q < 0 then FNaN else if q = 0 then Fin 0
     else rnd (sqrt_scaled q (nat (60 - floor_log2 q div 2))))"

text \<open>\<open>f64::ceil\<close>, exact on doubles.\<close>

fun f_ceil :: "f64 \<Rightarrow> f64" where
  "f_ceil (Fin q) = Fin (of_int \<lceil>q\<rceil>)"
| "f_ceil x = x"

text \<open>\<open>f64::midpoint\<close> on the values its callers reach (both below half the maximum).\<close>

definition f_midpoint :: "f64 \<Rightarrow> f64 \<Rightarrow> f64" where
  "f_midpoint a b = (a + b) / lit 2"

definition f64_max :: f64 where
  "f64_max = Fin ((2 ^ 53 - 1) * 2 ^ 971)"

definition f64_epsilon :: f64 where
  "f64_epsilon = Fin (1 / 2 ^ 52)"

subsection \<open>Conversions\<close>

definition f_of_nat :: "nat \<Rightarrow> f64" where
  "f_of_nat n = rnd (of_nat n)"

definition f_of_word :: "'a::len word \<Rightarrow> f64" where
  "f_of_word w = f_of_nat (unat w)"

fun f_to_nat_sat :: "nat \<Rightarrow> f64 \<Rightarrow> nat" where
  "f_to_nat_sat w FNaN = 0"
| "f_to_nat_sat w (FInf s) = (if s then 0 else 2 ^ w - 1)"
| "f_to_nat_sat w (Fin q) = min (nat \<lfloor>q\<rfloor>) (2 ^ w - 1)"

definition f_to_usize :: "f64 \<Rightarrow> usize" where
  "f_to_usize x = of_nat (f_to_nat_sat 64 x)"

text \<open>\<open>Duration::as_secs_f64\<close>: whole seconds plus the nanosecond part over \<open>1e9\<close>.\<close>

definition as_secs_f64 :: "duration \<Rightarrow> f64" where
  "as_secs_f64 d = f_of_nat (d div 1000000000) + f_of_nat (d mod 1000000000) / lit 1000000000"

text \<open>\<open>{:.n}\<close>: the exact value rounded half to even at the n-th decimal.\<close>

definition fmt_fixed :: "nat \<Rightarrow> f64 \<Rightarrow> string" where
  "fmt_fixed n x = (case x of FNaN \<Rightarrow> ''NaN''
     | FInf s \<Rightarrow> (if s then ''-inf'' else ''inf'')
     | Fin q \<Rightarrow>
        (let m = nat (round_half_even (\<bar>q\<bar> * 10 ^ n));
             whole = show_nat (m div 10 ^ n);
             frac = pad_left n (CHR ''0'') (show_nat (m mod 10 ^ n))
         in (if q < 0 then ''-'' else []) @ whole @ (if n = 0 then [] else ''.'' @ frac)))"

subsection \<open>Laws of the operations\<close>

named_theorems f_defs \<open>definitions of the float operations\<close>
lemmas [f_defs] = zero_f64_def one_f64_def plus_f64_def minus_f64_def uminus_f64_def
  times_f64_def divide_f64_def f_mul_add_def

lemma f_zero_one [simp]: "(0::f64) = Fin 0" "(1::f64) = Fin 1"
  by (simp_all add: f_defs)

lemma fin_ops:
  "Fin a + Fin b = rnd (a + b)" "Fin a - Fin b = rnd (a - b)" "Fin a * Fin b = rnd (a * b)"
  "b \<noteq> 0 \<Longrightarrow> Fin a / Fin b = rnd (a / b)" "- Fin a = Fin (- a)"
  "f_mul_add (Fin a) (Fin b) (Fin c) = rnd (a * b + c)"
  by (simp_all add: f_defs)

lemma f_neg_fin [simp]: "- Fin a = Fin (- a)"
  by (simp add: f_defs)

lemma nan_ops [simp]:
  "FNaN + y = FNaN" "x + FNaN = FNaN" "FNaN - y = FNaN" "x - FNaN = FNaN"
  "FNaN * y = FNaN" "x * FNaN = FNaN" "FNaN / y = FNaN" "x / FNaN = FNaN" "- FNaN = FNaN"
  by (cases x; cases y; simp add: f_defs)+

lemma f_max_ge: "x \<noteq> FNaN \<Longrightarrow> x \<le> f_max x y" "y \<noteq> FNaN \<Longrightarrow> y \<le> f_max x y"
  by (auto simp: f_max_def f_not_less f_less_le split: if_splits)

lemma f_max_lub: "x \<le> z \<Longrightarrow> y \<le> z \<Longrightarrow> f_max x y \<le> z"
  by (auto simp: f_max_def)

lemma f_max_not_nan: "y \<noteq> FNaN \<Longrightarrow> f_max x y \<noteq> FNaN"
  by (auto simp: f_max_def)

lemma f_min_le: "x \<noteq> FNaN \<Longrightarrow> f_min x y \<le> x" "y \<noteq> FNaN \<Longrightarrow> f_min x y \<le> y"
  by (auto simp: f_min_def f_not_less f_less_le split: if_splits)

lemma f_clamp_bounds:
  "x \<noteq> FNaN \<Longrightarrow> lo \<le> hi \<Longrightarrow> lo \<le> f_clamp x lo hi \<and> f_clamp x lo hi \<le> hi"
  by (cases x; cases lo; cases hi) (auto simp: f_clamp_def)

lemma f_clamp_nan [simp]: "f_clamp FNaN lo hi = FNaN"
  by (simp add: f_clamp_def)

lemma f_clamp_not_nan: "x \<noteq> FNaN \<Longrightarrow> lo \<noteq> FNaN \<Longrightarrow> hi \<noteq> FNaN \<Longrightarrow> f_clamp x lo hi \<noteq> FNaN"
  by (simp add: f_clamp_def)

lemma f_of_nat_nonneg: "Fin 0 \<le> f_of_nat n"
  by (simp add: f_of_nat_def rnd_nonneg)

lemma f_of_nat_mono: "m \<le> n \<Longrightarrow> f_of_nat m \<le> f_of_nat n"
  by (simp add: f_of_nat_def rnd_mono)

lemma f_of_nat_small: "n < 2 ^ 53 \<Longrightarrow> f_of_nat n = Fin (of_nat n)"
  using rnd_of_int [of "int n"] by (simp add: f_of_nat_def)

lemma f_inf_bounds [simp]: "FInf True \<le> x \<longleftrightarrow> x \<noteq> FNaN" "x \<le> FInf False \<longleftrightarrow> x \<noteq> FNaN"
  by (cases x; simp)+

lemma f_add_mono: "x \<le> y \<Longrightarrow> x + Fin c \<le> y + Fin c"
  by (cases x; cases y) (auto simp: plus_f64_def intro: rnd_mono)

text \<open>The values a program can hold: finite values are representable.\<close>

definition is_f64 :: "f64 \<Rightarrow> bool" where
  "is_f64 x = (case x of Fin q \<Rightarrow> rnd q = Fin q | _ \<Rightarrow> True)"

lemma f_add_nonneg_ge: "is_f64 x \<Longrightarrow> x \<noteq> FNaN \<Longrightarrow> Fin 0 \<le> Fin c \<Longrightarrow> x \<le> x + Fin c"
  by (cases x) (auto simp: plus_f64_def is_f64_def intro: rnd_ge)

lemma rnd_finite_bounds:
  "Fin a \<le> x \<Longrightarrow> x \<le> Fin b \<Longrightarrow> \<exists>q. x = Fin q \<and> a \<le> q \<and> q \<le> b"
  by (cases x) auto

lemma rnd_in: "rnd a = Fin a \<Longrightarrow> rnd b = Fin b \<Longrightarrow> a \<le> q \<Longrightarrow> q \<le> b \<Longrightarrow>
    \<exists>x. rnd q = Fin x \<and> a \<le> x \<and> x \<le> b"
  using rnd_between rnd_finite_bounds by blast

lemma rnd_pow2: "0 \<le> k \<Longrightarrow> k \<le> 900 \<Longrightarrow> rnd (2 powi k) = Fin (2 powi k)"
  using rnd_dyadic [of 1 k] by simp

lemma rnd_finite: "\<bar>q\<bar> \<le> 2 powi 900 \<Longrightarrow> \<exists>r. rnd q = Fin r"
proof -
  assume "\<bar>q\<bar> \<le> 2 powi 900"
  then have q: "- (2 powi 900) \<le> q" "q \<le> 2 powi 900" by linarith+
  have b: "rnd (- (2 powi 900)) = Fin (- (2 powi 900))"
    using rnd_dyadic [of "- 1" 900] by simp
  show ?thesis
    using rnd_finite_bounds [of "- (2 powi 900)" "rnd q" "2 powi 900"]
      rnd_between [OF b rnd_pow2 [of 900] q] by auto
qed

lemma f_of_nat_bounds: "n \<le> 2 ^ k \<Longrightarrow> k \<le> 900 \<Longrightarrow>
    \<exists>q. f_of_nat n = Fin q \<and> 0 \<le> q \<and> q \<le> 2 ^ k"
proof -
  assume n: "n \<le> 2 ^ k" and k: "k \<le> 900"
  have e: "rnd (2 ^ k) = Fin (2 ^ k)" using rnd_pow2 [of "int k"] k by (simp add: power_int_def)
  have "(of_nat n :: rat) \<le> 2 ^ k" using n by (metis of_nat_le_iff of_nat_numeral of_nat_power)
  then have "rnd (of_nat n) \<le> Fin (2 ^ k)" using e rnd_le by blast
  moreover have "Fin 0 \<le> rnd (of_nat n)" by (simp add: rnd_nonneg)
  ultimately show ?thesis using rnd_finite_bounds by (fastforce simp: f_of_nat_def)
qed

lemma f_of_nat_ge_1: "1 \<le> n \<Longrightarrow> Fin 1 \<le> f_of_nat n"
  using rnd_ge [of 1 "of_nat n"] by (simp add: f_of_nat_def)

lemma f_of_word_bounds: "\<exists>q. f_of_word (w::u64) = Fin q \<and> 0 \<le> q \<and> q \<le> 2 ^ 64"
proof -
  have "unat w < 2 ^ LENGTH(64)" by (rule unsigned_less)
  then show ?thesis using f_of_nat_bounds [of "unat w" 64] by (simp add: f_of_word_def)
qed

lemma f_of_word_pos: "w \<noteq> 0 \<Longrightarrow> Fin 1 \<le> f_of_word (w::u64)"
  using f_of_nat_ge_1 [of "unat w"] by (simp add: f_of_word_def Suc_leI unat_gt_0)

lemma pow2_bound: "k \<le> 900 \<Longrightarrow> (2::rat) ^ k \<le> 2 powi 900"
  using powi_le_iff [of "int k" 900] by simp

lemma as_secs_f64_finite: "d < 2 ^ 94 \<Longrightarrow> \<exists>q. as_secs_f64 d = Fin q \<and> 0 \<le> q"
proof -
  assume d: "d < 2 ^ 94"
  then have "d div 1000000000 \<le> 2 ^ 94" by linarith
  then obtain a where a: "f_of_nat (d div 1000000000) = Fin a" "0 \<le> a" "a \<le> 2 ^ 94"
    using f_of_nat_bounds [of "d div 1000000000" 94] by auto
  have "d mod 1000000000 \<le> 2 ^ 30" by (simp add: less_imp_le trans_le_add2 le_less_trans)
  then obtain b where b: "f_of_nat (d mod 1000000000) = Fin b" "0 \<le> b" "b \<le> 2 ^ 30"
    using f_of_nat_bounds [of "d mod 1000000000" 30] by auto
  have "Fin 0 \<le> rnd (b / 1000000000)" "rnd (b / 1000000000) \<le> Fin 2"
    using b by (auto intro: rnd_nonneg rnd_le)
  then obtain c where c: "rnd (b / 1000000000) = Fin c" "0 \<le> c" "c \<le> 2"
    using rnd_finite_bounds by blast
  have "\<bar>a + c\<bar> \<le> 2 ^ 95" using a c by simp
  then obtain e where e: "rnd (a + c) = Fin e" using rnd_finite pow2_bound [of 95] by fastforce
  moreover have "Fin 0 \<le> rnd (a + c)" using a c by (auto intro: rnd_nonneg)
  ultimately show ?thesis by (auto simp: as_secs_f64_def a b c fin_ops)
qed

lemma f_clamp_finite:
  "x \<noteq> FNaN \<Longrightarrow> a \<le> b \<Longrightarrow> \<exists>q. f_clamp x (Fin a) (Fin b) = Fin q \<and> a \<le> q \<and> q \<le> b"
  using f_clamp_bounds [of x "Fin a" "Fin b"] rnd_finite_bounds by auto

lemma rnd_pow2_inv: "k \<le> 1000 \<Longrightarrow> rnd (1 / 2 ^ k) = Fin (1 / 2 ^ k)"
  using rnd_dyadic [of 1 "- int k"] by (simp add: power_int_minus divide_inverse)

text \<open>Positive literals stay positive and finite.\<close>

lemma lit_pos: "1 / 2 ^ 100 \<le> q \<Longrightarrow> q \<le> 2 ^ 100 \<Longrightarrow> \<exists>l. lit q = Fin l \<and> 0 < l"
proof -
  assume q: "1 / 2 ^ 100 \<le> q" "q \<le> 2 ^ 100"
  have "Fin (1 / 2 ^ 100) \<le> lit q" "lit q \<le> Fin (2 ^ 100)"
    using q rnd_pow2_inv [of 100] rnd_pow2 [of 100]
    by (intro rnd_ge rnd_le; simp add: power_int_def)+
  then obtain l where "lit q = Fin l" "1 / 2 ^ 100 \<le> l" using rnd_finite_bounds by blast
  moreover have "(0::rat) < 1 / 2 ^ 100" by simp
  ultimately show ?thesis by (metis less_le_trans)
qed

lemma tiny_le_one: "(2::rat) powi (- 1000) \<le> 1"
proof -
  have "(2::rat) powi (- 1000) \<le> 2 powi 0" by (subst powi_le_iff) simp
  then show ?thesis by (simp only: power_int_0_right)
qed

text \<open>Rounding at most doubles a positive value that is not tiny.\<close>

lemma rnd_pos_double:
  assumes "2 powi (- 1000) \<le> q"
  shows "rnd_pos q \<le> 2 * q"
proof -
  have q0: "0 < q" using powi_pos assms by (rule less_le_trans)
  define E where "E = floor_log2 q"
  have E: "2 powi E \<le> q" "q < 2 powi (E + 1)" using floor_log2_bounds [OF q0] by (auto simp: E_def)
  have "(2::rat) powi (- 1000) < 2 powi (E + 1)" using assms E(2) by (rule le_less_trans)
  then have "- 1000 < E + 1" by (subst (asm) powi_less_iff)
  then have le: "ulp_exp q \<le> E + 1" by (simp add: ulp_exp_def E_def)
  have "rnd_pos q \<le> 2 powi (E + 1)"
    using rnd_pos_grid_le [of q "2 ^ nat (E + 1 - ulp_exp q)"] powi_grid [OF le] E(2) by simp
  also have "\<dots> = 2 * 2 powi E" by (simp add: power_int_add)
  finally show ?thesis using E(1) by simp
qed

lemma rnd_double: "0 < q \<Longrightarrow> rnd q = Fin u \<Longrightarrow> u \<le> max 1 (2 * q)"
proof (cases "2 powi (- 1000) \<le> q")
  case True
  assume "0 < q" "rnd q = Fin u"
  then have "u = rnd_pos q" by (simp only: rnd_pos_cases f64.inject split: if_splits) blast+
  then show ?thesis using rnd_pos_double [OF True] by (simp only: le_max_iff_disj simp_thms)
next
  case False
  assume u: "rnd q = Fin u"
  have "q \<le> 1" using False tiny_le_one by (meson not_le less_imp_le order_trans)
  then have "rnd q \<le> Fin 1" by (intro rnd_le) simp_all
  then show ?thesis by (simp only: u f_le_simps le_max_iff_disj simp_thms)
qed

text \<open>Rounding is idempotent: a rounded value is representable.\<close>

lemma rnd_pos_idem:
  assumes "0 < q" "0 < rnd_pos q"
  shows "rnd_pos (rnd_pos q) = rnd_pos q"
proof -
  define u where "u = ulp_exp q"
  define m where "m = round_half_even (q / 2 powi u)"
  have r: "rnd_pos q = of_int m * 2 powi u" by (simp add: rnd_pos_def m_def u_def Let_def)
  have u: "- 1074 \<le> u" "floor_log2 q + 1 \<le> u + 53" by (auto simp: u_def ulp_exp_def)
  have "q < 2 powi (floor_log2 q + 1)" using floor_log2_bounds [OF assms(1)] by blast
  also have "\<dots> \<le> 2 powi (u + 53)" using u(2) by (subst powi_le_iff)
  finally have "q / 2 powi u \<le> of_int (2 ^ 53)"
    by (simp add: power_int_add pos_divide_le_eq mult.commute)
  then have "round_half_even (q / 2 powi u) \<le> round_half_even (of_int (2 ^ 53))"
    by (rule round_half_even_mono)
  then have "m \<le> 2 ^ 53" by (simp only: m_def round_half_even_of_int)
  moreover have "0 < m" using assms(2) powi_pos [of u] by (simp only: r zero_less_mult_iff of_int_0_less_iff) linarith
  ultimately consider "m = 2 ^ 53" | "0 < m" "m < 2 ^ 53" by linarith
  then show ?thesis
  proof cases
    case 1
    have "rnd_pos q = of_int 1 * 2 powi (u + 53)" by (simp add: r 1 power_int_add)
    then show ?thesis using rnd_pos_dyadic [of 1 "u + 53"] u(1) by simp
  next
    case 2
    then show ?thesis using rnd_pos_dyadic [of m u] u(1) by (simp only: r)
  qed
qed

lemma rnd_idem: "rnd q = Fin v \<Longrightarrow> rnd v = Fin v"
proof -
  assume v: "rnd q = Fin v"
  have pos: "rnd w = Fin w" if "rnd p = Fin w" "0 < p" for p w
  proof (cases "w = 0")
    case False
    have w: "w = rnd_pos p" "\<not> 2 ^ 1024 \<le> w"
      using that by (auto simp only: rnd_pos_cases f64.simps split: if_splits)
    moreover have "0 < w" using rnd_pos_nonneg [OF that(2)] w(1) False by (simp only: less_le) auto
    ultimately show ?thesis using rnd_pos_idem [OF that(2)] by (simp only: rnd_pos_cases if_False)
  qed simp
  have neg: "rnd (- p) = - rnd p" for p
    by (cases "p = 0") (simp_all add: rnd_def Let_def f_defs)
  consider "q = 0" | "0 < q" | "0 < - q" by linarith
  then show ?thesis
  proof cases
    case 3
    then have "rnd (- v) = Fin (- v)" using pos [of "- q" "- v"] neg [of q] v by simp
    then show ?thesis using neg [of "- v"] by simp
  qed (use v pos in auto)
qed

text \<open>Literals of the unit interval.\<close>

lemma lit_below_one: "0 \<le> q \<Longrightarrow> q \<le> 1 \<Longrightarrow> Fin 0 \<le> lit q \<and> lit q \<le> Fin 1"
  by (auto intro: rnd_nonneg rnd_le)

lemma lit_unit: "0 \<le> q \<Longrightarrow> q \<le> 1 \<Longrightarrow> \<exists>a. lit q = Fin a \<and> 0 \<le> a \<and> a \<le> 1"
  using lit_below_one rnd_finite_bounds by blast

subsection \<open>The square root\<close>

lemma isqrt_bits_correct:
  "0 \<le> r \<Longrightarrow> r * r \<le> n \<Longrightarrow> n < (r + 2 ^ k) * (r + 2 ^ k) \<Longrightarrow>
   r \<le> isqrt_bits k n r \<and> isqrt_bits k n r * isqrt_bits k n r \<le> n \<and>
   n < (isqrt_bits k n r + 1) * (isqrt_bits k n r + 1)"
proof (induction k arbitrary: r)
  case (Suc k)
  show ?case
  proof (cases "(r + 2 ^ k) * (r + 2 ^ k) \<le> n")
    case True
    have "r + 2 ^ k \<le> isqrt_bits k n (r + 2 ^ k) \<and> isqrt_bits k n (r + 2 ^ k) * isqrt_bits k n (r + 2 ^ k) \<le> n \<and>
        n < (isqrt_bits k n (r + 2 ^ k) + 1) * (isqrt_bits k n (r + 2 ^ k) + 1)"
      using Suc.prems True by (intro Suc.IH) (simp_all add: algebra_simps)
    moreover have "(0::int) \<le> 2 ^ k" by simp
    ultimately have "r \<le> isqrt_bits k n (r + 2 ^ k) \<and> isqrt_bits k n (r + 2 ^ k) * isqrt_bits k n (r + 2 ^ k) \<le> n \<and>
        n < (isqrt_bits k n (r + 2 ^ k) + 1) * (isqrt_bits k n (r + 2 ^ k) + 1)" by linarith
    then show ?thesis using True by simp
  next
    case False
    then show ?thesis using Suc by simp
  qed
qed simp

lemma isqrt_correct:
  assumes "0 \<le> n"
  shows "0 \<le> isqrt n \<and> isqrt n * isqrt n \<le> n \<and> n < (isqrt n + 1) * (isqrt n + 1)"
proof -
  have b: "n < 2 ^ nat (bit_len n)"
  proof (cases "n = 0")
    case True
    then show ?thesis by (simp add: bit_len.simps [of 0])
  next
    case False
    then have "0 < n" using assms by simp
    then show ?thesis using bit_len_bounds [of n] by blast
  qed
  also have "(2::int) ^ nat (bit_len n) \<le> (0 + 2 ^ nat (bit_len n)) * (0 + 2 ^ nat (bit_len n))"
    using one_le_power [of "2::int" "nat (bit_len n)"] by (simp add: mult_le_cancel_left1)
  finally show ?thesis using isqrt_bits_correct [of 0 n "nat (bit_len n)"] assms by (simp add: isqrt_def)
qed

text \<open>Rounding at a known binary exponent, for evaluating literals.\<close>

lemma rnd_at:
  assumes "2 powi k \<le> q" "q < 2 powi (k + 1)" "- 1022 \<le> k" "k < 900"
  shows "rnd q = Fin (of_int (round_half_even (q / 2 powi (k - 52))) * 2 powi (k - 52))"
proof -
  have q: "0 < q" using assms(1) powi_pos less_le_trans by blast
  have "(2::rat) powi floor_log2 q < 2 powi (k + 1)" "(2::rat) powi k < 2 powi (floor_log2 q + 1)"
    using floor_log2_bounds [OF q] assms(1,2) by (meson le_less_trans)+
  then have "floor_log2 q = k" by simp
  then have "rnd_pos q = of_int (round_half_even (q / 2 powi (k - 52))) * 2 powi (k - 52)"
    using assms(3) by (simp add: rnd_pos_def ulp_exp_def Let_def)
  moreover have "q \<le> 2 powi 900"
  proof -
    have "(2::rat) powi (k + 1) \<le> 2 powi 900" using assms(4) by (subst powi_le_iff) simp
    with assms(2) show ?thesis by linarith
  qed
  then obtain r where "rnd q = Fin r" using rnd_finite [of q] q by auto
  ultimately show ?thesis using q by (auto simp: rnd_pos_cases split: if_splits)
qed

lemma rnd_minus: "rnd (- q) = - rnd q"
  by (cases "q = 0") (simp_all add: rnd_def Let_def f_defs)

end
