(* ===== verification/Pid.thy ===== *)
theory Pid
  imports F64
begin

section \<open>The pressure controller (src/src/monitor/pid.rs)\<close>

text \<open>
  Disk pressure levels, their classification with hysteresis, the PID controller's state
  and its update, and the response policy. The controller's \<open>exp\<close> is the platform's math
  library, whose precision Rust leaves open: it is the argument \<open>fexp\<close>.
  \<open>pid_update\<close> returns \<open>None\<close> where \<open>f64::clamp\<close> panics on the integral's bounds.
\<close>

subsection \<open>Levels\<close>

datatype pressure_level = Green | Yellow | Orange | Red | Critical

fun rank :: "pressure_level \<Rightarrow> nat" where
  "rank Green = 0"
| "rank Yellow = 1"
| "rank Orange = 2"
| "rank Red = 3"
| "rank Critical = 4"

lemma rank_inj [simp]: "rank a = rank b \<longleftrightarrow> a = b"
  by (cases a; cases b) auto

lemma rank_le4: "rank l \<le> 4"
  by (cases l) auto

instantiation pressure_level :: linorder
begin

definition less_eq_pressure_level :: "pressure_level \<Rightarrow> pressure_level \<Rightarrow> bool" where
  "less_eq_pressure_level a b = (rank a \<le> rank b)"

definition less_pressure_level :: "pressure_level \<Rightarrow> pressure_level \<Rightarrow> bool" where
  "less_pressure_level a b = (rank a < rank b)"

instance
  by standard (auto simp: less_eq_pressure_level_def less_pressure_level_def)

end

lemmas level_order = less_eq_pressure_level_def less_pressure_level_def

subsection \<open>Readings\<close>

record pressure_reading =
  free_bytes :: u64
  total_bytes :: u64
  reading_mount :: string

definition free_pct :: "pressure_reading \<Rightarrow> f64" where
  "free_pct r = (if total_bytes r = 0 then 0
     else (f_of_word (free_bytes r) * lit 100) / f_of_word (total_bytes r))"

record pressure_response =
  resp_level :: pressure_level
  urgency :: f64
  scan_interval :: duration
  release_ballast_files :: usize
  max_delete_batch :: usize
  resp_fallback_active :: bool
  causing_mount :: string
  resp_free_pct :: f64
  predicted_seconds :: "f64 option"

subsection \<open>Controller state and setters\<close>

record pid =
  kp :: f64
  ki :: f64
  kd :: f64
  integral :: f64
  integral_cap :: f64
  hysteresis_pct :: f64
  target_free_pct :: f64
  prev_target_free_pct :: f64
  green_min_free_pct :: f64
  yellow_min_free_pct :: f64
  orange_min_free_pct :: f64
  red_min_free_pct :: f64
  base_poll_interval :: duration
  urgency_thresholds :: "f64 \<times> f64 \<times> f64"
  last_error :: f64
  last_derivative :: f64
  last_update :: "instant option"
  pid_level :: pressure_level

definition pid_new ::
  "f64 \<Rightarrow> f64 \<Rightarrow> f64 \<Rightarrow> f64 \<Rightarrow> f64 \<Rightarrow> f64 \<Rightarrow> f64 \<Rightarrow> f64 \<Rightarrow> f64 \<Rightarrow> f64 \<Rightarrow> duration \<Rightarrow> pid" where
  "pid_new p i d cap target hyst green yellow orange red poll =
     \<lparr>kp = p, ki = i, kd = d, integral = 0, integral_cap = cap, hysteresis_pct = hyst,
      target_free_pct = target, prev_target_free_pct = target,
      green_min_free_pct = green, yellow_min_free_pct = yellow,
      orange_min_free_pct = orange, red_min_free_pct = red,
      base_poll_interval = poll, urgency_thresholds = (lit 60, lit 300, lit 900),
      last_error = 0, last_derivative = 0, last_update = None, pid_level = Green\<rparr>"

definition set_action_horizon_minutes :: "f64 \<Rightarrow> pid \<Rightarrow> pid" where
  "set_action_horizon_minutes m c =
     (let horizon_secs = m * lit 60
      in c\<lparr>urgency_thresholds :=
           (f_max (horizon_secs / lit 30) (lit 30),
            f_max (horizon_secs / lit 6) (lit 60),
            f_max (horizon_secs / lit 2) (lit 120))\<rparr>)"

definition set_target_free_pct :: "f64 \<Rightarrow> pid \<Rightarrow> pid" where
  "set_target_free_pct target c =
     (let c1 = (if f_abs (target - prev_target_free_pct c) > f64_epsilon
                then c\<lparr>last_error := 0, integral := 0, last_update := None,
                       prev_target_free_pct := target\<rparr>
                else c)
      in c1\<lparr>target_free_pct := target\<rparr>)"

definition disable_urgency_boost :: "pid \<Rightarrow> pid" where
  "disable_urgency_boost c = c\<lparr>urgency_thresholds := (f64_max, f64_max, f64_max)\<rparr>"

definition set_base_poll_interval :: "duration \<Rightarrow> pid \<Rightarrow> pid" where
  "set_base_poll_interval d c = c\<lparr>base_poll_interval := d\<rparr>"

definition set_pressure_thresholds :: "f64 \<Rightarrow> f64 \<Rightarrow> f64 \<Rightarrow> f64 \<Rightarrow> pid \<Rightarrow> pid" where
  "set_pressure_thresholds green yellow orange red c =
     c\<lparr>green_min_free_pct := green, yellow_min_free_pct := yellow,
       orange_min_free_pct := orange, red_min_free_pct := red\<rparr>"

definition pid_reset :: "pid \<Rightarrow> pid" where
  "pid_reset c = c\<lparr>integral := 0, last_error := 0, last_update := None\<rparr>"

subsection \<open>Classification\<close>

definition raw_classify :: "f64 \<Rightarrow> f64 \<Rightarrow> f64 \<Rightarrow> f64 \<Rightarrow> f64 \<Rightarrow> pressure_level" where
  "raw_classify pct green_min yellow_min orange_min red_min =
     (if pct < red_min then Critical
      else if pct < orange_min then Red
      else if pct < yellow_min then Orange
      else if pct < green_min then Yellow
      else Green)"

definition classify_with_hysteresis ::
  "pressure_level \<Rightarrow> f64 \<Rightarrow> f64 \<Rightarrow> f64 \<Rightarrow> f64 \<Rightarrow> f64 \<Rightarrow> f64 \<Rightarrow> pressure_level" where
  "classify_with_hysteresis current pct hysteresis green_min yellow_min orange_min red_min =
     (let raw = raw_classify pct green_min yellow_min orange_min red_min
      in if raw > current then raw
         else case current of
           Critical \<Rightarrow> if pct \<ge> red_min + hysteresis then Red else Critical
         | Red \<Rightarrow> if pct \<ge> orange_min + hysteresis then Orange else Red
         | Orange \<Rightarrow> if pct \<ge> yellow_min + hysteresis then Yellow else Orange
         | Yellow \<Rightarrow> if pct \<ge> green_min + hysteresis then Green else Yellow
         | Green \<Rightarrow> Green)"

subsection \<open>Response policy\<close>

definition base_millis :: "duration \<Rightarrow> nat" where
  "base_millis d = min (d div 1000000) (2 ^ 64 - 1)"

definition response_policy ::
  "duration \<Rightarrow> pressure_level \<Rightarrow> f64 \<Rightarrow> duration \<times> usize \<times> usize" where
  "response_policy base_poll lvl u =
     (let base_ms = base_millis base_poll
      in case lvl of
        Green \<Rightarrow> (millis (max base_ms 1), 0,
                   if u > lit (4/5) then 10 else if u > lit (1/2) then 5 else 2)
      | Yellow \<Rightarrow> (millis (max (base_ms div 2) 500), if u > lit (11/20) then 1 else 0, 5)
      | Orange \<Rightarrow> (millis (max (base_ms div 4) 250), if u > lit (3/4) then 3 else 1, 10)
      | Red \<Rightarrow> (millis (max (base_ms div 8) 125), if u > lit (17/20) then 5 else 3,
                 20 + f_to_usize (f_max (u - lit (1/2)) 0 * lit 60))
      | Critical \<Rightarrow> (millis 100, 10,
                 40 + f_to_usize (f_max (u - lit (1/2)) 0 * lit 120)))"

subsection \<open>One controller update\<close>

definition pid_dt :: "pid \<Rightarrow> instant \<Rightarrow> f64" where
  "pid_dt c now =
     (let fallback = f_max (as_secs_f64 (base_poll_interval c)) (lit (1/10))
      in case last_update c of
           None \<Rightarrow> fallback
         | Some prev \<Rightarrow>
             if now < prev then fallback
             else (let d = as_secs_f64 (now - prev) in if d > lit (1/10000) then d else fallback))"

definition boost_urgency :: "f64 \<times> f64 \<times> f64 \<Rightarrow> f64 option \<Rightarrow> f64 \<Rightarrow> f64" where
  "boost_urgency thresholds predicted u =
     (case predicted of None \<Rightarrow> u
      | Some seconds \<Rightarrow>
          (case thresholds of (critical, high, moderate) \<Rightarrow>
             if seconds \<le> critical then f_max u 1
             else if seconds \<le> high then f_max u (lit (9/10))
             else if seconds \<le> moderate then f_max u (lit (7/10))
             else u))"

definition pid_classify :: "pid \<Rightarrow> f64 \<Rightarrow> pressure_level" where
  "pid_classify c pct = classify_with_hysteresis (pid_level c) pct (hysteresis_pct c)
     (green_min_free_pct c) (yellow_min_free_pct c) (orange_min_free_pct c) (red_min_free_pct c)"

definition pid_update ::
  "(f64 \<Rightarrow> f64) \<Rightarrow> pid \<Rightarrow> pressure_reading \<Rightarrow> f64 option \<Rightarrow> instant \<Rightarrow>
     (pid \<times> pressure_response) option" where
  "pid_update fexp c reading predicted now =
     (let pct = free_pct reading;
          dt = pid_dt c now;
          err = target_free_pct c - pct
      in case clamp_checked (f_mul_add err dt (integral c)) (- integral_cap c) (integral_cap c) of
           None \<Rightarrow> None
         | Some integ \<Rightarrow>
             let raw_derivative = (err - last_error c) / dt;
                 derivative = f_mul_add (lit (3/10)) raw_derivative (lit (7/10) * last_derivative c);
                 raw = f_mul_add (kd c) derivative (f_mul_add (kp c) err (ki c * integ));
                 urg = f_clamp (1 - fexp (- f_max raw 0)) 0 1;
                 urg' = boost_urgency (urgency_thresholds c) predicted urg;
                 new_level = pid_classify c pct;
                 c' = c\<lparr>integral := (if new_level \<noteq> pid_level c then 0 else integ),
                        last_derivative := derivative, last_error := err,
                        last_update := Some now, pid_level := new_level\<rparr>;
                 (interval, release_files, batch) =
                    response_policy (base_poll_interval c) new_level urg'
             in Some (c',
                 \<lparr>resp_level = new_level, urgency = urg', scan_interval = interval,
                  release_ballast_files = release_files, max_delete_batch = batch,
                  resp_fallback_active = False, causing_mount = reading_mount reading,
                  resp_free_pct = pct, predicted_seconds = predicted\<rparr>))"

subsection \<open>Fast attack, slow decay\<close>

text \<open>
  The contract of a classifier with hysteresis, over any readings: a worse raw level is
  taken at once, otherwise the level stays or improves by one. Its client lemmas are
  about whole runs of readings.
\<close>

locale hysteresis_classifier =
  fixes classify :: "pressure_level \<Rightarrow> 'r \<Rightarrow> pressure_level"
    and raw_level :: "'r \<Rightarrow> pressure_level"
  assumes attack: "raw_level r > cur \<Longrightarrow> classify cur r = raw_level r"
    and decay: "\<not> raw_level r > cur \<Longrightarrow>
      classify cur r = cur \<or> rank cur = Suc (rank (classify cur r))"
begin

definition run :: "pressure_level \<Rightarrow> 'r list \<Rightarrow> pressure_level" where
  "run cur rs = foldl classify cur rs"

lemma run_Nil [simp]: "run cur [] = cur"
  by (simp add: run_def)

lemma run_Cons [simp]: "run cur (r # rs) = run (classify cur r) rs"
  by (simp add: run_def)

lemma one_level_per_tick: "rank cur \<le> Suc (rank (classify cur r))"
  using attack [of cur r] decay [of cur r] by (cases "raw_level r > cur") (auto simp: level_order)

lemma run_at_most_one_per_tick: "rank cur \<le> rank (run cur rs) + length rs"
proof (induction rs arbitrary: cur)
  case Nil
  then show ?case by simp
next
  case (Cons r rs)
  show ?case using Cons [of "classify cur r"] one_level_per_tick [of cur r] by simp
qed

lemma run_worst_case: "cur \<le> b \<Longrightarrow> \<forall>r \<in> set rs. raw_level r \<le> b \<Longrightarrow> run cur rs \<le> b"
proof (induction rs arbitrary: cur)
  case Nil
  then show ?case by simp
next
  case (Cons r rs)
  have "classify cur r \<le> b"
    using attack [of cur r] decay [of cur r] Cons.prems
    by (cases "raw_level r > cur") (auto simp: level_order)
  then show ?case using Cons by simp
qed

end

lemma classify_attack:
  "raw_classify f g y o' r > cur \<Longrightarrow> classify_with_hysteresis cur f h g y o' r = raw_classify f g y o' r"
  by (simp add: classify_with_hysteresis_def)

lemma classify_decay:
  "\<not> raw_classify f g y o' r > cur \<Longrightarrow>
     classify_with_hysteresis cur f h g y o' r = cur \<or>
     rank cur = Suc (rank (classify_with_hysteresis cur f h g y o' r))"
  by (cases cur) (simp_all add: classify_with_hysteresis_def)

interpretation cls: hysteresis_classifier
  "\<lambda>cur f. classify_with_hysteresis cur f h g y o' r" "\<lambda>f. raw_classify f g y o' r"
  for h g y o' r
  by unfold_locales (fact classify_attack classify_decay)+

text \<open>With ordered thresholds and a hysteresis that is not negative the classified level is
  never milder than the raw one.\<close>

lemma raw_classify_ge_iff:
  assumes "r \<le> o'" "o' \<le> y" "y \<le> g" "f \<noteq> FNaN"
  shows "raw_classify f g y o' r < Critical \<longleftrightarrow> r \<le> f"
    and "raw_classify f g y o' r < Red \<longleftrightarrow> o' \<le> f"
    and "raw_classify f g y o' r < Orange \<longleftrightarrow> y \<le> f"
    and "raw_classify f g y o' r < Yellow \<longleftrightarrow> g \<le> f"
proof -
  have nn: "r \<noteq> FNaN" "o' \<noteq> FNaN" "y \<noteq> FNaN" "g \<noteq> FNaN" using assms by auto
  have dn: "f < r \<Longrightarrow> f < o'" "f < o' \<Longrightarrow> f < y" "f < y \<Longrightarrow> f < g"
    using assms(1-3) f_less_le_trans by blast+
  show "raw_classify f g y o' r < Critical \<longleftrightarrow> r \<le> f"
    and "raw_classify f g y o' r < Red \<longleftrightarrow> o' \<le> f"
    and "raw_classify f g y o' r < Orange \<longleftrightarrow> y \<le> f"
    and "raw_classify f g y o' r < Yellow \<longleftrightarrow> g \<le> f"
    using nn assms(4) dn
    by (auto simp: raw_classify_def level_order f_not_less [symmetric])
qed

lemma level_below:
  "l < Critical \<longleftrightarrow> l \<le> Red" "l < Red \<longleftrightarrow> l \<le> Orange"
  "l < Orange \<longleftrightarrow> l \<le> Yellow" "l < Yellow \<longleftrightarrow> l \<le> Green"
  by (cases l; simp add: level_order)+

lemma classify_decay_steps:
  "\<not> raw_classify f g y o' r > Green \<Longrightarrow> classify_with_hysteresis Green f h g y o' r = Green"
  "\<not> raw_classify f g y o' r > Yellow \<Longrightarrow>
     classify_with_hysteresis Yellow f h g y o' r = (if g + h \<le> f then Green else Yellow)"
  "\<not> raw_classify f g y o' r > Orange \<Longrightarrow>
     classify_with_hysteresis Orange f h g y o' r = (if y + h \<le> f then Yellow else Orange)"
  "\<not> raw_classify f g y o' r > Red \<Longrightarrow>
     classify_with_hysteresis Red f h g y o' r = (if o' + h \<le> f then Orange else Red)"
  "classify_with_hysteresis Critical f h g y o' r = (if r + h \<le> f then Red else Critical)"
  using rank_le4 [of "raw_classify f g y o' r"]
  by (simp_all add: classify_with_hysteresis_def level_order)

lemma classify_never_milder:
  assumes "r \<le> o'" "o' \<le> y" "y \<le> g" "f \<noteq> FNaN"
    and "\<forall>t \<in> {r, o', y, g}. t \<le> t + h"
  shows "raw_classify f g y o' r \<le> classify_with_hysteresis cur f h g y o' r"
proof (cases "raw_classify f g y o' r > cur")
  case True
  then show ?thesis by (simp add: classify_attack)
next
  case False
  have up: "\<And>t. t \<in> {r, o', y, g} \<Longrightarrow> t + h \<le> f \<Longrightarrow> t \<le> f"
    using assms(5) f_le_trans by blast
  note bands = raw_classify_ge_iff [OF assms(1-4), unfolded level_below]
  have le: "raw_classify f g y o' r \<le> cur" using False by simp
  show ?thesis
    using False le up bands by (cases cur) (simp_all add: classify_decay_steps)
qed

lemma free_pct_finite: "\<exists>q. free_pct r = Fin q \<and> 0 \<le> q"
proof (cases "total_bytes r = 0")
  case True
  then show ?thesis by (simp add: free_pct_def)
next
  case False
  obtain a where a: "f_of_word (free_bytes r) = Fin a" "0 \<le> a" "a \<le> 2 ^ 64"
    using f_of_word_bounds by blast
  obtain t where t: "f_of_word (total_bytes r) = Fin t" "1 \<le> t"
    using f_of_word_bounds [of "total_bytes r"] f_of_word_pos [OF False] by auto
  have e: "rnd (2 ^ 71) = Fin (2 ^ 71)" using rnd_pow2 [of 71] by (simp add: power_int_def)
  have "a * 100 \<le> 2 ^ 71" using a(3) by simp
  then have "Fin 0 \<le> rnd (a * 100)" "rnd (a * 100) \<le> Fin (2 ^ 71)"
    using a(2) e by (auto intro: rnd_nonneg rnd_le)
  then obtain p where p: "rnd (a * 100) = Fin p" "0 \<le> p" "p \<le> 2 ^ 71"
    using rnd_finite_bounds by blast
  have pt: "p / t \<le> p / 1" using p t by (intro divide_left_mono) auto
  then have "\<bar>p / t\<bar> \<le> 2 ^ 71" using p t by simp
  then obtain q where q: "rnd (p / t) = Fin q" using rnd_finite pow2_bound [of 71] by fastforce
  moreover have "Fin 0 \<le> rnd (p / t)" using p t by (auto intro: rnd_nonneg)
  moreover have "t \<noteq> 0" using t by auto
  ultimately show ?thesis using False by (simp add: free_pct_def a t fin_ops p)
qed

lemma free_pct_not_nan [simp]: "free_pct r \<noteq> FNaN"
  using free_pct_finite [of r] by auto

lemma pid_update_frame:
  assumes "pid_update fexp c r pr now = Some (c', resp)"
  shows "pid_level c' = pid_classify c (free_pct r)" "resp_level resp = pid_level c'"
    "last_update c' = Some now" "integral_cap c' = integral_cap c"
    "hysteresis_pct c' = hysteresis_pct c" "green_min_free_pct c' = green_min_free_pct c"
    "yellow_min_free_pct c' = yellow_min_free_pct c"
    "orange_min_free_pct c' = orange_min_free_pct c" "red_min_free_pct c' = red_min_free_pct c"
    "target_free_pct c' = target_free_pct c" "base_poll_interval c' = base_poll_interval c"
  using assms by (auto simp: pid_update_def Let_def split: option.splits prod.splits)

text \<open>Runs of the controller over the ticks of the monitor loop.\<close>

type_synonym pid_tick = "pressure_reading \<times> f64 option \<times> instant"

fun pid_run :: "(f64 \<Rightarrow> f64) \<Rightarrow> pid \<Rightarrow> pid_tick list \<Rightarrow> pid option" where
  "pid_run fexp c [] = Some c"
| "pid_run fexp c ((r, pr, now) # ts) =
     (case pid_update fexp c r pr now of None \<Rightarrow> None | Some (c', _) \<Rightarrow> pid_run fexp c' ts)"

lemma pid_run_level:
  "pid_run fexp c ts = Some c' \<Longrightarrow>
     pid_level c' = cls.run (hysteresis_pct c) (green_min_free_pct c) (yellow_min_free_pct c)
       (orange_min_free_pct c) (red_min_free_pct c) (pid_level c) (map (free_pct \<circ> fst) ts)"
proof (induction ts arbitrary: c)
  case Nil
  then show ?case by simp
next
  case (Cons t ts)
  obtain r pr now where t: "t = (r, pr, now)" by (cases t)
  from Cons.prems obtain d resp where d: "pid_update fexp c r pr now = Some (d, resp)"
    and run: "pid_run fexp d ts = Some c'"
    by (auto simp: t split: option.splits)
  show ?case using Cons.IH [OF run] pid_update_frame [OF d]
    by (simp add: t pid_classify_def)
qed

subsection \<open>Properties of an update\<close>

lemma f_one_minus: "x \<noteq> FNaN \<Longrightarrow> Fin 1 - x \<noteq> FNaN"
  by (cases x) (auto simp: minus_f64_def)

lemma f_neg_not_nan: "x \<noteq> FNaN \<Longrightarrow> - x \<noteq> FNaN" for x :: f64
  by (cases x) (auto simp: uminus_f64_def)

lemma boost_urgency_bounds:
  "Fin 0 \<le> u \<Longrightarrow> u \<le> Fin 1 \<Longrightarrow>
     u \<le> boost_urgency th pr u \<and> boost_urgency th pr u \<le> Fin 1"
  using lit_below_one [of "9/10"] lit_below_one [of "7/10"] f_le_not_nan [of u "Fin 1"]
  by (auto simp: boost_urgency_def split: option.splits prod.splits
      intro!: f_max_ge f_max_lub)

lemma urgency_value:
  assumes "pid_update fexp c r pr now = Some (c', resp)"
  obtains raw where "urgency resp = boost_urgency (urgency_thresholds c) pr
    (f_clamp (Fin 1 - fexp (- f_max raw (Fin 0))) (Fin 0) (Fin 1))"
  using assms by (auto simp: pid_update_def Let_def split: option.splits prod.splits)

lemma neg_le_self: "- x \<le> x \<longleftrightarrow> Fin 0 \<le> x" for x :: f64
  by (cases x) (auto simp: uminus_f64_def)

text \<open>An update is total on well-formed states: the state below is what \<open>pid_new\<close> and every
  update give, and keeps the integral inside its cap (anti-windup).\<close>

definition pid_wf :: "pid \<Rightarrow> bool" where
  "pid_wf c = (case (integral c, integral_cap c, target_free_pct c) of
       (Fin i, Fin cap, Fin t) \<Rightarrow> - cap \<le> i \<and> i \<le> cap
     | _ \<Rightarrow> False)"

lemma pid_wf_iff: "pid_wf c \<longleftrightarrow> (\<exists>i cap t. integral c = Fin i \<and> integral_cap c = Fin cap \<and>
    target_free_pct c = Fin t \<and> - cap \<le> i \<and> i \<le> cap)"
  by (cases "integral c"; cases "integral_cap c"; cases "target_free_pct c")
     (auto simp: pid_wf_def)

lemma f_mul_add_not_nan: "f_mul_add x (Fin b) (Fin c) \<noteq> FNaN" if "x \<noteq> FNaN" "b \<noteq> 0"
  using that by (cases x) (auto simp: f_mul_add_def)

lemma pid_dt_finite:
  assumes "now < 2 ^ 94" "base_poll_interval c < 2 ^ 94"
  shows "\<exists>q. pid_dt c now = Fin q \<and> 0 < q"
proof -
  obtain b where b: "as_secs_f64 (base_poll_interval c) = Fin b" "0 \<le> b"
    using as_secs_f64_finite assms(2) by blast
  obtain l where l: "lit (1/10) = Fin l" "0 < l" using lit_pos [of "1/10"] by auto
  have fb: "\<exists>q. f_max (Fin b) (lit (1/10)) = Fin q \<and> 0 < q"
    using l by (auto simp: f_max_def)
  obtain s where s: "lit (1/10000) = Fin s" "0 < s" using lit_pos [of "1/10000"] by auto
  show ?thesis
  proof (cases "last_update c")
    case None
    then show ?thesis using fb by (simp add: pid_dt_def Let_def b)
  next
    case (Some prev)
    obtain d where d: "as_secs_f64 (now - prev) = Fin d"
      using as_secs_f64_finite [of "now - prev"] assms(1) by (meson diff_le_self le_less_trans)
    show ?thesis using fb Some s by (auto simp: pid_dt_def Let_def b d)
  qed
qed

lemma fin_minus_not_nan: "Fin a - Fin b \<noteq> FNaN"
  by (simp add: fin_ops)

lemma pid_integral_step:
  assumes wf: "pid_wf c" and clk: "now < 2 ^ 94" "base_poll_interval c < 2 ^ 94"
    and cap: "integral_cap c = Fin cap"
  shows "\<exists>i. clamp_checked (f_mul_add (target_free_pct c - free_pct r) (pid_dt c now) (integral c))
      (- integral_cap c) (integral_cap c) = Some (Fin i) \<and> - cap \<le> i \<and> i \<le> cap"
proof -
  obtain j t where st: "integral c = Fin j" "target_free_pct c = Fin t" "- cap \<le> j" "j \<le> cap"
    using wf cap by (auto simp: pid_wf_iff)
  obtain dt where dt: "pid_dt c now = Fin dt" "0 < dt" using pid_dt_finite clk by blast
  obtain p where p: "free_pct r = Fin p" using free_pct_finite by blast
  have "f_mul_add (Fin t - Fin p) (Fin dt) (Fin j) \<noteq> FNaN"
    using dt by (intro f_mul_add_not_nan fin_minus_not_nan) simp
  then show ?thesis
    using f_clamp_finite [of _ "- cap" cap] st by (auto simp: clamp_checked_def cap dt p fin_ops)
qed

text \<open>From a well-formed state (the integral inside a cap that is not
  negative, a finite target) and clock values of a real clock, an update never panics, and the
  state it leaves is well formed again: the integral term cannot wind up past its cap however
  long a disk stays above or below target.\<close>

lemma pid_update_total:
  assumes wf: "pid_wf c" and "now < 2 ^ 94" "base_poll_interval c < 2 ^ 94"
  shows "\<exists>c' resp. pid_update fexp c r pr now = Some (c', resp) \<and> pid_wf c' \<and>
    base_poll_interval c' = base_poll_interval c"
proof -
  obtain cap where cap: "integral_cap c = Fin cap" and "- cap \<le> cap"
    using wf by (auto simp: pid_wf_iff)
  obtain t where t: "target_free_pct c = Fin t" using wf by (auto simp: pid_wf_iff)
  obtain i where "clamp_checked (f_mul_add (target_free_pct c - free_pct r) (pid_dt c now) (integral c))
      (- integral_cap c) (integral_cap c) = Some (Fin i)" "- cap \<le> i" "i \<le> cap"
    using pid_integral_step [OF assms cap] by blast
  then show ?thesis using cap t \<open>- cap \<le> cap\<close>
    by (auto simp: pid_update_def pid_wf_iff Let_def split: prod.splits)
qed

text \<open>The urgency handed to the scanner and the ballast controller always
  lies in [0, 1], whatever the gains, the readings and the prediction (NaN included), as long as
  the platform's \<open>exp\<close> yields NaN on NaN only.\<close>

lemma pid_update_urgency:
  assumes exp_total: "\<forall>x. x \<noteq> FNaN \<longrightarrow> fexp x \<noteq> FNaN"
    and upd: "pid_update fexp c r pr now = Some (c', resp)"
  shows "Fin 0 \<le> urgency resp \<and> urgency resp \<le> Fin 1"
proof -
  obtain raw where u: "urgency resp = boost_urgency (urgency_thresholds c) pr
      (f_clamp (Fin 1 - fexp (- f_max raw (Fin 0))) (Fin 0) (Fin 1))"
    using upd by (rule urgency_value)
  have "fexp (- f_max raw (Fin 0)) \<noteq> FNaN"
    using exp_total f_max_not_nan f_neg_not_nan by blast
  then have "Fin 1 - fexp (- f_max raw (Fin 0)) \<noteq> FNaN" by (rule f_one_minus)
  then have "Fin 0 \<le> f_clamp (Fin 1 - fexp (- f_max raw (Fin 0))) (Fin 0) (Fin 1)"
    "f_clamp (Fin 1 - fexp (- f_max raw (Fin 0))) (Fin 0) (Fin 1) \<le> Fin 1"
    using f_clamp_bounds [of _ "Fin 0" "Fin 1"] by simp_all
  then show ?thesis using boost_urgency_bounds u f_le_trans by metis
qed

text \<open>What configuration validation and the daemon's constants give the controller: ordered
  thresholds that floats represent, and a finite hysteresis that is not negative.\<close>

definition pid_bands_ok :: "pid \<Rightarrow> bool" where
  "pid_bands_ok c = (red_min_free_pct c \<le> orange_min_free_pct c \<and>
     orange_min_free_pct c \<le> yellow_min_free_pct c \<and>
     yellow_min_free_pct c \<le> green_min_free_pct c \<and>
     is_f64 (red_min_free_pct c) \<and> is_f64 (orange_min_free_pct c) \<and>
     is_f64 (yellow_min_free_pct c) \<and> is_f64 (green_min_free_pct c) \<and>
     (case hysteresis_pct c of Fin h \<Rightarrow> 0 \<le> h | _ \<Rightarrow> False))"

definition pid_raw :: "pid \<Rightarrow> f64 \<Rightarrow> pressure_level" where
  "pid_raw c pct = raw_classify pct (green_min_free_pct c) (yellow_min_free_pct c)
     (orange_min_free_pct c) (red_min_free_pct c)"

lemma pid_bands_okD:
  assumes "pid_bands_ok c"
  obtains h where "hysteresis_pct c = Fin h" "0 \<le> h"
    "red_min_free_pct c \<le> orange_min_free_pct c"
    "orange_min_free_pct c \<le> yellow_min_free_pct c"
    "yellow_min_free_pct c \<le> green_min_free_pct c"
    "\<forall>t \<in> {red_min_free_pct c, orange_min_free_pct c, yellow_min_free_pct c,
      green_min_free_pct c}. t \<le> t + hysteresis_pct c"
proof -
  obtain h where h: "hysteresis_pct c = Fin h" "0 \<le> h"
    using assms by (auto simp: pid_bands_ok_def split: f64.splits)
  have "\<forall>t \<in> {red_min_free_pct c, orange_min_free_pct c, yellow_min_free_pct c,
      green_min_free_pct c}. t \<le> t + hysteresis_pct c"
    using assms h f_le_not_nan by (auto simp: pid_bands_ok_def intro!: f_add_nonneg_ge)
  then show ?thesis using that h assms by (auto simp: pid_bands_ok_def)
qed

lemma pid_classify_never_milder: "pid_bands_ok c \<Longrightarrow> pid_raw c (free_pct r) \<le> pid_classify c (free_pct r)"
  unfolding pid_raw_def pid_classify_def
  by (elim pid_bands_okD) (rule classify_never_milder, auto)


lemma pid_run_frame:
  "pid_run fexp c ts = Some c' \<Longrightarrow> green_min_free_pct c' = green_min_free_pct c \<and>
     hysteresis_pct c' = hysteresis_pct c"
proof (induction ts arbitrary: c)
  case Nil
  then show ?case by simp
next
  case (Cons t ts)
  then show ?case using pid_update_frame(5,6)
    by (cases t) (fastforce split: option.splits)
qed

lemma cls_run_recovers:
  assumes "r + h \<le> o' + h" "o' + h \<le> y + h" "y + h \<le> g + h" "g \<le> g + h" "r \<le> o'" "o' \<le> y" "y \<le> g"
  shows "\<forall>f \<in> set fs. g + h \<le> f \<Longrightarrow>
    rank (cls.run h g y o' r l fs) = rank l - length fs"
proof (induction fs arbitrary: l)
  case Nil
  then show ?case by simp
next
  case (Cons f fs)
  then have f: "g + h \<le> f" by simp
  have "g \<le> f" using assms(4) f f_le_trans by blast
  then have "raw_classify f g y o' r < Yellow"
    using raw_classify_ge_iff(4) [OF assms(5-7), of f] f_le_not_nan by blast
  then have nr: "\<not> raw_classify f g y o' r > l" by (cases l) (auto simp: level_order)
  have "r + h \<le> f" "o' + h \<le> f" "y + h \<le> f" using assms(1-3) f f_le_trans by blast+
  then have "rank (classify_with_hysteresis l f h g y o' r) = rank l - 1"
    using nr f by (cases l) (simp_all add: classify_decay_steps)
  then show ?case using Cons by simp
qed

text \<open>Once every reading clears the green threshold plus hysteresis, the level
  falls by exactly one per tick until Green: four clear ticks undo any emergency, fewer never
  skip a level.\<close>

lemma pid_recovery:
  assumes "pid_run fexp c ticks = Some c'" and "pid_bands_ok c"
    and "\<forall>t \<in> set ticks. green_min_free_pct c + hysteresis_pct c \<le> free_pct (fst t)"
  shows "rank (pid_level c') = rank (pid_level c) - length ticks"
proof -
  obtain h where h: "hysteresis_pct c = Fin h"
    and ord: "red_min_free_pct c \<le> orange_min_free_pct c"
      "orange_min_free_pct c \<le> yellow_min_free_pct c"
      "yellow_min_free_pct c \<le> green_min_free_pct c"
    and up: "green_min_free_pct c \<le> green_min_free_pct c + hysteresis_pct c"
    using assms(2) by (elim pid_bands_okD) auto
  show ?thesis
    using cls_run_recovers [OF _ _ _ up ord, of "map (free_pct \<circ> fst) ticks"] assms(3)
      ord [THEN f_add_mono, of h]
    by (simp add: pid_run_level [OF assms(1)] h)
qed

text \<open>The only panic of an update is \<open>f64::clamp\<close> on the integral, and
  it happens exactly when the configured cap is NaN or negative.\<close>

lemma pid_update_panics:
  "pid_update fexp c r pr now = None \<longleftrightarrow> \<not> Fin 0 \<le> integral_cap c"
  by (auto simp: pid_update_def clamp_checked_def neg_le_self Let_def split: prod.splits)

subsection \<open>The response policy\<close>

lemma half_excess_bounds:
  assumes "\<not> Fin 1 < u" "0 \<le> k" "k \<le> 2 ^ 52"
  shows "\<exists>n \<le> k div 2. f_to_usize (f_max (u - Fin (1/2)) (Fin 0) * Fin (of_nat k)) = of_nat n"
proof -
  have u: "u = FNaN \<or> u = FInf True \<or> (\<exists>q. u = Fin q \<and> q \<le> 1)"
    using assms(1) by (cases u) auto
  have half: "rnd (1 / 2) = Fin (1 / 2)" by simp
  have "\<exists>x. f_max (u - Fin (1/2)) (Fin 0) = Fin x \<and> 0 \<le> x \<and> x \<le> 1 / 2"
  proof (cases "u - Fin (1/2) \<le> Fin (1/2)")
    case True
    then have "Fin 0 \<le> f_max (u - Fin (1/2)) (Fin 0)" "f_max (u - Fin (1/2)) (Fin 0) \<le> Fin (1/2)"
      by (auto intro: f_max_ge f_max_lub)
    then show ?thesis using rnd_finite_bounds by blast
  next
    case False
    with u have "u = FNaN" using rnd_le [OF half] by (auto simp: fin_ops minus_f64_def uminus_f64_def)
    then show ?thesis by (simp add: f_max_def)
  qed
  then obtain x where x: "f_max (u - Fin (1/2)) (Fin 0) = Fin x" "0 \<le> x" "x \<le> 1 / 2" by blast
  have ex: "rnd (of_nat k / 2) = Fin (of_nat k / 2)"
    using rnd_dyadic [of "int k" "- 1"] assms(3) by (simp add: power_int_minus)
  have "x * of_nat k \<le> of_nat k / 2" using mult_right_mono [OF x(3), of "of_nat k"] by simp
  then have "Fin 0 \<le> rnd (x * of_nat k)" "rnd (x * of_nat k) \<le> Fin (of_nat k / 2)"
    using x(2) ex by (auto intro: rnd_nonneg rnd_le)
  then obtain z where z: "rnd (x * of_nat k) = Fin z" "0 \<le> z" "z \<le> of_nat k / 2"
    using rnd_finite_bounds by blast
  have "\<lfloor>z\<rfloor> \<le> int k div 2"
  proof -
    have "2 * \<lfloor>z\<rfloor> \<le> int k" using z(3) by linarith
    then show ?thesis by linarith
  qed
  then have "nat \<lfloor>z\<rfloor> \<le> k div 2" by linarith
  then show ?thesis
    by (intro exI [of _ "min (nat \<lfloor>z\<rfloor>) (2 ^ 64 - 1)"]) (simp add: x(1) fin_ops z f_to_usize_def)
qed

lemma batch_bounds:
  assumes "\<not> Fin 1 < u"
  shows "\<exists>n \<le> 30. f_to_usize (f_max (u - Fin (1/2)) (Fin 0) * Fin 60) = of_nat n"
    and "\<exists>n \<le> 60. f_to_usize (f_max (u - Fin (1/2)) (Fin 0) * Fin 120) = of_nat n"
  using half_excess_bounds [OF assms, of 60] half_excess_bounds [OF assms, of 120] by simp_all

definition policy_files :: "duration \<Rightarrow> pressure_level \<Rightarrow> f64 \<Rightarrow> nat" where
  "policy_files d l u = unat (fst (snd (response_policy d l u)))"

definition policy_batch :: "duration \<Rightarrow> pressure_level \<Rightarrow> f64 \<Rightarrow> nat" where
  "policy_batch d l u = unat (snd (snd (response_policy d l u)))"

definition policy_interval :: "duration \<Rightarrow> pressure_level \<Rightarrow> f64 \<Rightarrow> nat" where
  "policy_interval d l u = fst (response_policy d l u)"

lemma unat_add_small: "n \<le> 1000 \<Longrightarrow> m \<le> 1000 \<Longrightarrow> unat (of_nat m + of_nat n :: u64) = m + n"
  by (simp add: unat_of_nat_small flip: of_nat_add)

lemma policy_files_by_level:
  "policy_files d Green u = 0" "policy_files d Yellow u \<in> {0, 1}" "policy_files d Orange u \<in> {1, 3}"
  "policy_files d Red u \<in> {3, 5}" "policy_files d Critical u = 10"
  by (simp_all add: policy_files_def response_policy_def Let_def)

lemma policy_batch_by_level:
  assumes "\<not> Fin 1 < u"
  shows "policy_batch d Green u \<le> 10" "policy_batch d Yellow u = 5"
    "policy_batch d Orange u = 10" "20 \<le> policy_batch d Red u \<and> policy_batch d Red u \<le> 50"
    "40 \<le> policy_batch d Critical u \<and> policy_batch d Critical u \<le> 100"
proof -
  show "policy_batch d Green u \<le> 10" "policy_batch d Yellow u = 5" "policy_batch d Orange u = 10"
    by (simp_all add: policy_batch_def response_policy_def Let_def)
  obtain n where n: "n \<le> 30" "f_to_usize (f_max (u - Fin (1/2)) (Fin 0) * Fin 60) = of_nat n"
    using batch_bounds(1) [OF assms] by blast
  have "policy_batch d Red u = 20 + n"
    using unat_add_small [of n 20] n(1) by (simp add: policy_batch_def response_policy_def Let_def n(2))
  then show "20 \<le> policy_batch d Red u \<and> policy_batch d Red u \<le> 50" using n(1) by simp
  obtain m where m: "m \<le> 60" "f_to_usize (f_max (u - Fin (1/2)) (Fin 0) * Fin 120) = of_nat m"
    using batch_bounds(2) [OF assms] by blast
  have "policy_batch d Critical u = 40 + m"
    using unat_add_small [of m 40] m(1) by (simp add: policy_batch_def response_policy_def Let_def m(2))
  then show "40 \<le> policy_batch d Critical u \<and> policy_batch d Critical u \<le> 100" using m(1) by simp
qed

fun batch_lo :: "pressure_level \<Rightarrow> nat" where
  "batch_lo Green = 0"
| "batch_lo Yellow = 5"
| "batch_lo Orange = 10"
| "batch_lo Red = 20"
| "batch_lo Critical = 40"

fun batch_hi :: "pressure_level \<Rightarrow> nat" where
  "batch_hi Green = 10"
| "batch_hi Yellow = 5"
| "batch_hi Orange = 10"
| "batch_hi Red = 50"
| "batch_hi Critical = 100"

lemma policy_batch_band: "\<not> Fin 1 < u \<Longrightarrow> policy_batch d l u \<in> {batch_lo l..batch_hi l}"
  by (cases l) (simp_all add: policy_batch_by_level)

lemma policy_files_mono:
  "l < l' \<Longrightarrow> policy_files d l u \<le> policy_files d l' u' \<and> policy_files d l' u' \<le> 10"
  by (cases l; cases l')
     (simp_all add: level_order policy_files_def response_policy_def Let_def)

lemma policy_interval_antimono:
  assumes "l \<le> l'" "500 \<le> base_millis d"
  shows "policy_interval d l' u' \<le> policy_interval d l u"
proof -
  have "base_millis d div 8 \<le> base_millis d div 4" "base_millis d div 4 \<le> base_millis d div 2"
    by (simp_all add: div_le_mono2)
  then show ?thesis
    using assms by (cases l; cases l')
      (auto simp: policy_interval_def response_policy_def millis_def level_order Let_def)
qed

text \<open>A more severe level never asks for fewer ballast files and never
  scans less often (for a base interval of at least 500 ms), whatever the urgencies; from
  Yellow on it never shrinks the delete batch below the bands 5, 10, 20--50, 40--100.\<close>

lemma response_escalates:
  assumes "l < l'" and "\<not> Fin 1 < u" and "\<not> Fin 1 < u'" and "500 \<le> base_millis d"
  shows "policy_files d l u \<le> policy_files d l' u' \<and> policy_files d l' u' \<le> 10 \<and>
    policy_interval d l' u' \<le> policy_interval d l u \<and>
    (Yellow \<le> l \<and> l' \<le> Red \<longrightarrow> policy_batch d l u \<le> policy_batch d l' u') \<and>
    policy_batch d l' u' \<le> 100 \<and> (l' = Critical \<longrightarrow> 40 \<le> policy_batch d l' u')"
proof -
  have f: "policy_files d l u \<le> policy_files d l' u' \<and> policy_files d l' u' \<le> 10"
    using assms(1) by (rule policy_files_mono)
  have b: "policy_batch d l u \<in> {batch_lo l..batch_hi l}" "policy_batch d l' u' \<in> {batch_lo l'..batch_hi l'}"
    using policy_batch_band assms(2,3) by blast+
  have m: "Yellow \<le> l \<Longrightarrow> l' \<le> Red \<Longrightarrow> batch_hi l \<le> batch_lo l'"
    using assms(1) by (cases l; cases l'; simp add: level_order)
  have h: "batch_hi l' \<le> 100" "l' = Critical \<Longrightarrow> 40 \<le> batch_lo l'" by (cases l'; simp)+
  show ?thesis using f b m h policy_interval_antimono [of l l' d u' u] assms by auto
qed

subsection \<open>The daemon's controller and the witnesses\<close>

text \<open>The controller the daemon builds from the default configuration.\<close>

definition daemon_pid :: pid where
  "daemon_pid = pid_new (lit (1/4)) (lit (2/25)) (lit (1/50)) (lit 100) (lit 20) (lit 1)
     (lit 20) (lit 14) (lit 10) (lit 6) (millis 5000)"

definition demo_reading :: pressure_reading where
  "demo_reading = \<lparr>free_bytes = 3, total_bytes = 100, reading_mount = ''/data''\<rparr>"

lemma daemon_pid_wf: "pid_wf daemon_pid" "pid_bands_ok daemon_pid" "base_poll_interval daemon_pid < 2 ^ 94"
  by (simp_all add: daemon_pid_def pid_new_def pid_wf_def pid_bands_ok_def is_f64_def millis_def)

lemma pid_update_some:
  "Fin 0 \<le> integral_cap c \<Longrightarrow> \<exists>c' resp. pid_update fexp c r pr now = Some (c', resp)"
  by (auto simp: pid_update_def clamp_checked_def neg_le_self Let_def split: prod.splits)

lemma pid_run_some: "Fin 0 \<le> integral_cap c \<Longrightarrow> \<exists>c'. pid_run fexp c ts = Some c'"
proof (induction ts arbitrary: c)
  case Nil
  then show ?case by simp
next
  case (Cons t ts)
  obtain r pr now where t: "t = (r, pr, now)" by (cases t)
  obtain d resp where "pid_update fexp c r pr now = Some (d, resp)"
    using pid_update_some Cons.prems by blast
  then show ?case using Cons pid_update_frame(4) by (simp add: t)
qed

lemma daemon_pid_cap: "integral_cap daemon_pid = Fin 100"
  by (simp add: daemon_pid_def pid_new_def)

lemma demo_update:
  obtains c' resp where "pid_update (\<lambda>_. Fin (1/2)) daemon_pid demo_reading pr 7 = Some (c', resp)"
  using pid_update_some [of daemon_pid "\<lambda>_. Fin (1/2)" demo_reading pr 7] that
  by (auto simp: daemon_pid_cap)


definition clear_reading :: pressure_reading where
  "clear_reading = \<lparr>free_bytes = 90, total_bytes = 100, reading_mount = ''/data''\<rparr>"

lemma clear_reading_pct: "free_pct clear_reading = Fin 90"
  by (simp add: clear_reading_def free_pct_def f_of_word_def f_of_nat_small fin_ops)

end
