(* ===== verification/Ranking.thy ===== *)
theory Ranking
  imports Prelude "HOL-Library.Multiset"
begin

section \<open>Stable sorting with a comparator\<close>

text \<open>
  \<open>slice::sort_by\<close> with a comparator. The comparators of the code are chains of comparisons of
  floats and paths, so they are strict weak orders only on elements whose floats are numbers; the locale
  names that carrier, and each ranking interprets it on its own comparator.
\<close>

fun insert_by :: "('a \<Rightarrow> 'a \<Rightarrow> bool) \<Rightarrow> 'a \<Rightarrow> 'a list \<Rightarrow> 'a list" where
  "insert_by before x [] = [x]"
| "insert_by before x (y # ys) = (if before y x then y # insert_by before x ys else x # y # ys)"

definition sort_by :: "('a \<Rightarrow> 'a \<Rightarrow> bool) \<Rightarrow> 'a list \<Rightarrow> 'a list" where
  "sort_by before xs = foldr (insert_by before) xs []"

lemma sort_by_simps [simp]:
  "sort_by before [] = []" "sort_by before (x # xs) = insert_by before x (sort_by before xs)"
  by (simp_all add: sort_by_def)

lemma insert_by_mset [simp]: "mset (insert_by before x ys) = add_mset x (mset ys)"
  by (induction ys) auto

lemma sort_by_mset [simp]: "mset (sort_by before xs) = mset xs"
  by (induction xs) simp_all

lemma sort_by_set [simp]: "set (sort_by before xs) = set xs"
  using sort_by_mset [of before xs] by (metis set_mset_mset)

lemma sort_by_length [simp]: "length (sort_by before xs) = length xs"
  using sort_by_mset [of before xs] by (metis size_mset)

lemma sort_by_distinct [simp]: "distinct (sort_by before xs) = distinct xs"
  using sort_by_mset [of before xs] by (metis distinct_count_atmost_1 set_mset_mset)

lemma insert_by_set [simp]: "set (insert_by before x ys) = insert x (set ys)"
  using insert_by_mset [of before x ys] by (metis set_mset_add_mset_insert set_mset_mset)

lemma sort_by_left_behind:
  "x \<in> set xs \<Longrightarrow> x \<notin> set (take n (sort_by before xs)) \<Longrightarrow> x \<in> set (drop n (sort_by before xs))"
  by (metis Un_iff append_take_drop_id set_append sort_by_set)

locale ranking =
  fixes before :: "'a \<Rightarrow> 'a \<Rightarrow> bool" and ok :: "'a \<Rightarrow> bool"
  assumes asym: "before x y \<Longrightarrow> \<not> before y x"
    and neg_trans: "ok x \<Longrightarrow> ok y \<Longrightarrow> ok z \<Longrightarrow> \<not> before y x \<Longrightarrow> \<not> before z y \<Longrightarrow> \<not> before z x"
begin

lemma insert_sorted:
  "sorted_wrt (\<lambda>a b. \<not> before b a) ys \<Longrightarrow> ok x \<Longrightarrow> \<forall>y \<in> set ys. ok y \<Longrightarrow>
   sorted_wrt (\<lambda>a b. \<not> before b a) (insert_by before x ys)"
proof (induction ys)
  case (Cons y ys)
  show ?case
  proof (cases "before y x")
    case True
    then show ?thesis using Cons asym by auto
  next
    case False
    have "\<not> before z x" if "z \<in> set ys" for z
      using neg_trans [of x y z] that Cons.prems False by simp
    then show ?thesis using Cons.prems False by simp
  qed
qed simp

lemma sort_sorted: "\<forall>x \<in> set xs. ok x \<Longrightarrow> sorted_wrt (\<lambda>a b. \<not> before b a) (sort_by before xs)"
  by (induction xs) (simp_all add: insert_sorted)

text \<open>Whatever is taken from the front is not ranked after anything left behind.\<close>

lemma take_first:
  assumes "\<forall>x \<in> set xs. ok x" "a \<in> set (take n (sort_by before xs))" "b \<in> set (drop n (sort_by before xs))"
  shows "\<not> before b a"
proof -
  have "sorted_wrt (\<lambda>a b. \<not> before b a) (take n (sort_by before xs) @ drop n (sort_by before xs))"
    using sort_sorted [OF assms(1)] by simp
  then show ?thesis using assms(2,3) unfolding sorted_wrt_append by blast
qed

end

end
