(* ===== verification/Guardrails.thy ===== *)
theory Guardrails
  imports Pid Ranking
begin

section \<open>Statistical guardrails (src/src/monitor/guardrails.rs)\<close>

text \<open>
  The calibration guard: observations of forecast against reality, a rolling window of them,
  the e-process evidence (a clamped log likelihood), the guard's status machine, the gate for
  adaptive actions, and the scorecard of predictions. \<open>exp\<close> and \<open>ln\<close> are the platform's math
  library, the arguments \<open>fexp\<close> and \<open>fln\<close>. The median sorts with \<open>partial_cmp\<close>; on a list
  with a NaN the standard library leaves the order open, so nothing is claimed there.
\<close>

subsection \<open>Status and observations\<close>

datatype guard_status = Pass | Unknown | Fail

definition status_adaptive_allowed :: "guard_status \<Rightarrow> bool" where
  "status_adaptive_allowed s = (s = Pass)"

fun show_guard_status :: "guard_status \<Rightarrow> string" where
  "show_guard_status Pass = ''PASS''"
| "show_guard_status Unknown = ''UNKNOWN''"
| "show_guard_status Fail = ''FAIL''"

record calibration_observation =
  predicted_rate :: f64
  actual_rate :: f64
  predicted_tte :: f64
  actual_tte :: f64
  burst_outlier :: bool

definition rate_danger_ratio :: "calibration_observation \<Rightarrow> f64" where
  "rate_danger_ratio obs =
     (if f_abs (actual_rate obs) < lit 10 \<and> f_abs (predicted_rate obs) < lit 10 then 0
      else let underestimation = actual_rate obs - predicted_rate obs
           in if underestimation \<le> 0 then 0
              else underestimation /
                f_max (f_max (f_abs (actual_rate obs)) (f_abs (predicted_rate obs))) (lit 1))"

definition tte_conservative :: "calibration_observation \<Rightarrow> bool" where
  "tte_conservative obs = (predicted_tte obs \<le> actual_tte obs)"

record guardrail_config =
  min_observations :: usize
  window_size :: usize
  max_rate_error :: f64
  min_conservative_fraction :: f64
  e_process_threshold :: f64
  e_process_penalty :: f64
  e_process_reward :: f64
  guard_recovery_windows :: usize

definition guardrail_config_default :: guardrail_config where
  "guardrail_config_default =
     \<lparr>min_observations = 60, window_size = 500, max_rate_error = lit (3/10),
      min_conservative_fraction = lit (7/10), e_process_threshold = lit 20,
      e_process_penalty = lit (3/2), e_process_reward = lit 2 / lit 3,
      guard_recovery_windows = 3\<rparr>"

record guard_diagnostics =
  diag_status :: guard_status
  observation_count :: usize
  median_rate_error :: f64
  conservative_fraction :: f64
  e_process_value :: f64
  e_process_alarm :: bool
  diag_consecutive_clean :: usize
  diag_reason :: string

record adaptive_guard =
  guard_config :: guardrail_config
  observations :: "calibration_observation list"
  e_process_log :: f64
  guard_status :: guard_status
  consecutive_clean :: usize

definition guard_new :: "guardrail_config \<Rightarrow> adaptive_guard" where
  "guard_new cfg = \<lparr>guard_config = cfg, observations = [], e_process_log = 0,
     guard_status = Unknown, consecutive_clean = 0\<rparr>"

definition guard_with_defaults :: adaptive_guard where
  "guard_with_defaults = guard_new guardrail_config_default"

definition guard_reset :: "adaptive_guard \<Rightarrow> adaptive_guard" where
  "guard_reset g = g\<lparr>observations := [], e_process_log := 0, guard_status := Unknown,
     consecutive_clean := 0\<rparr>"

definition guard_observation_count :: "adaptive_guard \<Rightarrow> nat" where
  "guard_observation_count g = length (observations g)"

definition guard_adaptive_allowed :: "adaptive_guard \<Rightarrow> bool" where
  "guard_adaptive_allowed g = status_adaptive_allowed (guard_status g)"

subsection \<open>Calibration metrics\<close>

definition f_sort :: "f64 list \<Rightarrow> f64 list" where
  "f_sort xs = sort_by (<) xs"

definition median :: "f64 list \<Rightarrow> f64" where
  "median xs = (let errors = f_sort xs; mid = length errors div 2
     in if even (length errors) then f_midpoint (errors ! (mid - 1)) (errors ! mid)
        else errors ! mid)"

definition calibration_metrics :: "adaptive_guard \<Rightarrow> f64 \<times> f64" where
  "calibration_metrics g =
     (let non_burst = filter (\<lambda>obs. \<not> burst_outlier obs) (observations g)
      in if non_burst = [] then (0, 1)
         else (median (map rate_danger_ratio non_burst),
               f_of_nat (length (filter tte_conservative non_burst)) / f_of_nat (length non_burst)))"

subsection \<open>Observing\<close>

definition obs_good :: "guardrail_config \<Rightarrow> calibration_observation \<Rightarrow> bool" where
  "obs_good cfg obs = (burst_outlier obs \<or>
     (rate_danger_ratio obs \<le> max_rate_error cfg \<and> tte_conservative obs))"

definition log_ratio ::
  "(f64 \<Rightarrow> f64) \<Rightarrow> guardrail_config \<Rightarrow> calibration_observation \<Rightarrow> f64" where
  "log_ratio fln cfg obs =
     (if obs_good cfg obs then fln (e_process_reward cfg)
      else let ratio = rate_danger_ratio obs;
               severity = f_clamp ((ratio - max_rate_error cfg) / (1 - max_rate_error cfg)) 0 1;
               scale = f_mul_add (lit (7/10)) severity (lit (3/10))
           in fln (e_process_penalty cfg) * scale)"

definition guard_alarm :: "(f64 \<Rightarrow> f64) \<Rightarrow> adaptive_guard \<Rightarrow> bool" where
  "guard_alarm fexp g = (fexp (e_process_log g) \<ge> e_process_threshold (guard_config g))"

definition recompute_status :: "(f64 \<Rightarrow> f64) \<Rightarrow> bool \<Rightarrow> adaptive_guard \<Rightarrow> adaptive_guard" where
  "recompute_status fexp latest_good g =
     (if length (observations g) < unat (min_observations (guard_config g))
      then g\<lparr>guard_status := Unknown, consecutive_clean := 0\<rparr>
      else let (median_error, conservative_frac) = calibration_metrics g;
               alarm = guard_alarm fexp g;
               calibrated = (median_error \<le> max_rate_error (guard_config g) \<and>
                 conservative_frac \<ge> min_conservative_fraction (guard_config g) \<and> \<not> alarm)
           in case guard_status g of
                Pass \<Rightarrow> if \<not> calibrated then g\<lparr>guard_status := Fail, consecutive_clean := 0\<rparr> else g
              | Unknown \<Rightarrow>
                  if calibrated
                  then g\<lparr>guard_status := Pass,
                         consecutive_clean := guard_recovery_windows (guard_config g)\<rparr>
                  else g\<lparr>guard_status := Fail, consecutive_clean := 0\<rparr>
              | Fail \<Rightarrow>
                  if latest_good \<and> \<not> alarm
                  then let cc = consecutive_clean g + 1
                       in if cc \<ge> guard_recovery_windows (guard_config g)
                          then g\<lparr>consecutive_clean := cc, guard_status := Pass, e_process_log := 0\<rparr>
                          else g\<lparr>consecutive_clean := cc\<rparr>
                  else g\<lparr>consecutive_clean := 0\<rparr>)"

definition guard_observe ::
  "(f64 \<Rightarrow> f64) \<Rightarrow> (f64 \<Rightarrow> f64) \<Rightarrow> calibration_observation \<Rightarrow> adaptive_guard \<Rightarrow> adaptive_guard" where
  "guard_observe fexp fln obs g =
     (let good = obs_good (guard_config g) obs;
          g1 = g\<lparr>observations := window_push (unat (window_size (guard_config g))) obs (observations g)\<rparr>;
          g2 = g1\<lparr>e_process_log :=
                 f_clamp (e_process_log g1 + log_ratio fln (guard_config g) obs) (- lit 5) (lit (7/2))\<rparr>
      in recompute_status fexp good g2)"

definition guard_diagnose :: "(f64 \<Rightarrow> f64) \<Rightarrow> adaptive_guard \<Rightarrow> guard_diagnostics" where
  "guard_diagnose fexp g =
     (let (median_error, conservative_frac) = calibration_metrics g;
          e_val = fexp (e_process_log g);
          alarm = (e_val \<ge> e_process_threshold (guard_config g))
      in \<lparr>diag_status = guard_status g,
          observation_count = of_nat (length (observations g)),
          median_rate_error = median_error,
          conservative_fraction = conservative_frac,
          e_process_value = e_val,
          e_process_alarm = alarm,
          diag_consecutive_clean = consecutive_clean g,
          diag_reason = (case guard_status g of
              Pass \<Rightarrow> ''Calibration verified; adaptive actions allowed''
            | Unknown \<Rightarrow> ''Insufficient observations ('' @ show_nat (length (observations g)) @
                ''/'' @ show_nat (unat (min_observations (guard_config g))) @ '')''
            | Fail \<Rightarrow>
                if alarm then ''E-process drift alarm (evidence='' @ fmt_fixed 1 e_val @ '')''
                else if median_error > max_rate_error (guard_config g)
                then ''Rate calibration failed (median error='' @ fmt_fixed 2 median_error @ '')''
                else ''TTE coverage low ('' @ fmt_fixed 1 (conservative_frac * lit 100) @ ''%)'')\<rparr>)"

subsection \<open>The action gate\<close>

datatype action_decision = Allow string | Fallback string | Block string

text \<open>The em dash of the source's messages, in UTF-8.\<close>

definition em_dash :: string where
  "em_dash = [char_of (226::nat), char_of (128::nat), char_of (148::nat)]"

definition gate_action :: "adaptive_guard \<Rightarrow> bool \<Rightarrow> action_decision" where
  "gate_action g is_high_impact =
     (if \<not> is_high_impact
      then Allow (''low-impact action '' @ em_dash @ '' no guard check needed'')
      else case guard_status g of
        Pass \<Rightarrow> Allow (''guard PASS '' @ em_dash @ '' adaptive action allowed'')
      | Unknown \<Rightarrow> Fallback (''guard UNKNOWN '' @ em_dash @
          '' insufficient calibration data, using conservative fallback'')
      | Fail \<Rightarrow> Block (''guard FAIL '' @ em_dash @
          '' drift or miscalibration detected, action blocked''))"

fun should_proceed :: "action_decision \<Rightarrow> bool" where
  "should_proceed (Block _) = False"
| "should_proceed _ = True"

fun adaptive_ok :: "action_decision \<Rightarrow> bool" where
  "adaptive_ok (Allow _) = True"
| "adaptive_ok _ = False"

fun decision_reason :: "action_decision \<Rightarrow> string" where
  "decision_reason (Allow r) = r"
| "decision_reason (Fallback r) = r"
| "decision_reason (Block r) = r"

subsection \<open>The prediction scorecard\<close>

datatype prediction_outcome = Inactive | Realized | Intervened | FalseAlarm

record prediction_scorecard =
  outcomes :: "prediction_outcome list"
  max_outcomes :: usize

definition scorecard_new :: "usize \<Rightarrow> prediction_scorecard" where
  "scorecard_new n = \<lparr>outcomes = [], max_outcomes = max n 1\<rparr>"

definition scorecard_record ::
  "bool \<Rightarrow> bool \<Rightarrow> bool \<Rightarrow> prediction_scorecard \<Rightarrow> prediction_scorecard" where
  "scorecard_record was_actionable was_realized cleanup_ran sc =
     (let outcome = (if \<not> was_actionable then Inactive
                     else if was_realized then Realized
                     else if cleanup_ran then Intervened
                     else FalseAlarm)
      in sc\<lparr>outcomes := window_push (unat (max_outcomes sc)) outcome (outcomes sc)\<rparr>)"

fun tally_outcomes :: "prediction_outcome list \<Rightarrow> nat \<times> nat \<Rightarrow> nat \<times> nat" where
  "tally_outcomes [] acc = acc"
| "tally_outcomes (x # xs) (tot, alarms) =
     tally_outcomes xs (case x of
         Realized \<Rightarrow> (tot + 1, alarms)
       | Intervened \<Rightarrow> (tot + 1, alarms)
       | FalseAlarm \<Rightarrow> (tot + 1, alarms + 1)
       | Inactive \<Rightarrow> (tot, alarms))"

definition false_alarm_rate :: "prediction_scorecard \<Rightarrow> f64" where
  "false_alarm_rate sc =
     (let (total_actionable, false_alarms) = tally_outcomes (outcomes sc) (0, 0)
      in if total_actionable = 0 then 0
         else f_of_nat false_alarms / f_of_nat total_actionable)"

definition dynamic_min_confidence :: "prediction_scorecard \<Rightarrow> f64 \<Rightarrow> f64" where
  "dynamic_min_confidence sc base_confidence =
     (let far = false_alarm_rate sc
      in if far \<le> lit (3/10) then base_confidence
         else let penalty = ((far - lit (3/10)) / lit (7/10)) * lit (1/5)
              in f_min (base_confidence + penalty) (lit (19/20)))"

subsection \<open>The danger ratio\<close>

lemma f_max_fin [simp]: "f_max (Fin a) (Fin b) = Fin (max a b)"
  by (simp add: f_max_def max_def)

lemma danger_ratio_finite:
  assumes "actual_rate obs = Fin a" "predicted_rate obs = Fin p" "\<bar>a\<bar> \<le> 2 ^ 100" "\<bar>p\<bar> \<le> 2 ^ 100"
  shows "\<exists>r. rate_danger_ratio obs = Fin r \<and> 0 \<le> r \<and> r \<le> 4 \<and>
    (a \<le> p \<or> \<bar>a\<bar> < 10 \<and> \<bar>p\<bar> < 10 \<longrightarrow> r = 0)"
proof -
  define M where "M = max (max \<bar>a\<bar> \<bar>p\<bar>) 1"
  have M: "1 \<le> M" "\<bar>a - p\<bar> \<le> 2 * M" "M \<le> 2 ^ 100" using assms(3,4) by (auto simp: M_def)
  have "\<bar>a - p\<bar> \<le> 2 ^ 101" using M by simp
  then obtain u where u: "rnd (a - p) = Fin u" using rnd_finite pow2_bound [of 101] by fastforce
  have neg: "a \<le> p \<Longrightarrow> u \<le> 0" using rnd_nonpos [of "a - p"] u by simp
  show ?thesis
  proof (cases "(\<bar>a\<bar> < 10 \<and> \<bar>p\<bar> < 10) \<or> u \<le> 0")
    case True
    then have "rate_danger_ratio obs = Fin 0"
      by (auto simp: rate_danger_ratio_def Let_def assms(1,2) fin_ops u)
    then show ?thesis by simp
  next
    case False
    then have "0 < u" by simp
    then have pos: "0 < u" "p < a" using neg by (auto simp flip: not_le)
    have "u \<le> max 1 (2 * (a - p))" using rnd_double [of "a - p" u] u pos(2) by simp
    then have "u \<le> 4 * M" using M(1,2) by (auto simp: max_def abs_if split: if_splits)
    then have "u / M \<le> 4" using M by (simp add: divide_le_eq)
    then have b: "Fin 0 \<le> rnd (u / M)" "rnd (u / M) \<le> Fin 4"
      using pos M by (auto intro: rnd_nonneg rnd_le)
    then obtain r where r: "rnd (u / M) = Fin r" "0 \<le> r" "r \<le> 4" using rnd_finite_bounds by blast
    have "rate_danger_ratio obs = Fin r"
      using False M(1) r(1) by (auto simp: rate_danger_ratio_def Let_def assms(1,2) fin_ops u M_def)
    moreover have "\<not> (a \<le> p \<or> \<bar>a\<bar> < 10 \<and> \<bar>p\<bar> < 10)" using False pos(2) by linarith
    ultimately show ?thesis using r by blast
  qed
qed

text \<open>For finite rates the danger ratio is a finite number between
  0 and 4 (it never turns infinite however small the actual rate is), and it is 0 whenever the
  forecast overestimates consumption or both rates are noise below 10 bytes/s.\<close>

lemma rate_danger_ratio_bounds:
  assumes "actual_rate obs = Fin a" "predicted_rate obs = Fin p" "\<bar>a\<bar> \<le> 2 ^ 100" "\<bar>p\<bar> \<le> 2 ^ 100"
  shows "\<exists>r. rate_danger_ratio obs = Fin r \<and> 0 \<le> r \<and> r \<le> 4 \<and>
    (a \<le> p \<or> \<bar>a\<bar> < 10 \<and> \<bar>p\<bar> < 10 \<longrightarrow> r = 0)"
  by (rule danger_ratio_finite [OF assms])

subsection \<open>The guard's invariant\<close>

lemma recompute_status_frame:
  "observations (recompute_status fexp lg g) = observations g"
  "guard_config (recompute_status fexp lg g) = guard_config g"
  "e_process_log (recompute_status fexp lg g) \<in> {e_process_log g, Fin 0}"
  by (auto simp: recompute_status_def Let_def split: prod.splits guard_status.splits)

lemma recompute_status_wf:
  "guard_status (recompute_status fexp lg g) \<noteq> Unknown \<Longrightarrow>
     unat (min_observations (guard_config g)) \<le> length (observations g)"
  "guard_status (recompute_status fexp lg g) = Fail \<Longrightarrow>
     consecutive_clean (recompute_status fexp lg g) = 0 \<or>
     consecutive_clean (recompute_status fexp lg g) < guard_recovery_windows (guard_config g)"
  by (auto simp: recompute_status_def Let_def not_le split: prod.splits guard_status.splits if_splits)

definition guard_wf :: "adaptive_guard \<Rightarrow> bool" where
  "guard_wf g = (length (observations g) \<le> unat (window_size (guard_config g)) \<and>
     - lit 5 \<le> e_process_log g \<and> e_process_log g \<le> lit (7/2) \<and>
     (guard_status g = Unknown \<or>
        unat (min_observations (guard_config g)) \<le> length (observations g)) \<and>
     (guard_status g = Fail \<longrightarrow> consecutive_clean g = 0 \<or>
        consecutive_clean g < guard_recovery_windows (guard_config g)))"

text \<open>Configurations and observations that keep the evidence a number: logarithms of the two
  likelihood ratios are finite, the error threshold is below 1, and rates are finite.\<close>

definition guard_cfg_ok :: "(f64 \<Rightarrow> f64) \<Rightarrow> guardrail_config \<Rightarrow> bool" where
  "guard_cfg_ok fln cfg = (case (fln (e_process_reward cfg), fln (e_process_penalty cfg), max_rate_error cfg) of
       (Fin _, Fin _, Fin m) \<Rightarrow> 0 \<le> m \<and> m \<le> 1 - 1 / 2 ^ 60
     | _ \<Rightarrow> False)"

definition obs_ok :: "calibration_observation \<Rightarrow> bool" where
  "obs_ok obs = (case (actual_rate obs, predicted_rate obs) of
       (Fin a, Fin p) \<Rightarrow> \<bar>a\<bar> \<le> 2 ^ 100 \<and> \<bar>p\<bar> \<le> 2 ^ 100
     | _ \<Rightarrow> False)"

lemma lit_seven_halves: "lit (7/2) = Fin (7/2)"
  using rnd_dyadic [of 7 "- 1"] by (simp add: power_int_minus)

lemma obs_ok_ratio: "obs_ok obs \<Longrightarrow> \<exists>r. rate_danger_ratio obs = Fin r \<and> 0 \<le> r"
proof -
  assume "obs_ok obs"
  then obtain a p where ap: "actual_rate obs = Fin a" "predicted_rate obs = Fin p"
    "\<bar>a\<bar> \<le> 2 ^ 100" "\<bar>p\<bar> \<le> 2 ^ 100"
    by (auto simp: obs_ok_def split: f64.splits)
  show ?thesis using danger_ratio_finite [OF ap] by blast
qed

lemma severity_scale:
  assumes "0 \<le> m" "m \<le> 1 - 1 / 2 ^ 60"
  shows "\<exists>s. f_mul_add (lit (7/10)) (f_clamp ((Fin r - Fin m) / (Fin 1 - Fin m)) (Fin 0) (Fin 1)) (lit (3/10)) = Fin s"
proof -
  obtain d where d: "rnd (1 - m) = Fin d" "0 < d"
    using lit_pos [of "1 - m"] assms by (auto simp: field_simps)
  have "rnd (r - m) / Fin d \<noteq> FNaN"
    using d(2) by (cases "rnd (r - m)") (auto simp: fin_ops divide_f64_def)
  then obtain v where v: "f_clamp (rnd (r - m) / Fin d) (Fin 0) (Fin 1) = Fin v" "0 \<le> v" "v \<le> 1"
    using f_clamp_finite [of _ 0 1] by fastforce
  obtain a where a: "lit (7/10) = Fin a" "0 \<le> a" "a \<le> 1"
    using lit_unit [of "7/10"] by auto
  obtain b where b: "lit (3/10) = Fin b" "0 \<le> b" "b \<le> 1"
    using lit_unit [of "3/10"] by auto
  have "a * v \<le> 1" using a v by (simp add: mult_le_one)
  then have "\<bar>a * v + b\<bar> \<le> 2 ^ 1" using a v b by simp
  then have "\<exists>s. rnd (a * v + b) = Fin s" using rnd_finite pow2_bound [of 1] by fastforce
  then show ?thesis by (simp add: fin_ops d v a b)
qed

lemma log_ratio_not_nan: "guard_cfg_ok fln cfg \<Longrightarrow> obs_ok obs \<Longrightarrow> log_ratio fln cfg obs \<noteq> FNaN"
proof -
  assume cfg: "guard_cfg_ok fln cfg" and obs: "obs_ok obs"
  obtain r where r: "rate_danger_ratio obs = Fin r" using obs_ok_ratio [OF obs] by blast
  obtain w p m where c: "fln (e_process_reward cfg) = Fin w" "fln (e_process_penalty cfg) = Fin p"
    "max_rate_error cfg = Fin m" "0 \<le> m" "m \<le> 1 - 1 / 2 ^ 60"
    using cfg by (auto simp: guard_cfg_ok_def split: f64.splits)
  obtain s where "f_mul_add (lit (7/10)) (f_clamp ((Fin r - Fin m) / (Fin 1 - Fin m)) (Fin 0) (Fin 1)) (lit (3/10)) = Fin s"
    using severity_scale c by blast
  then show ?thesis by (simp add: log_ratio_def c r fin_ops Let_def)
qed

lemma f_add_not_nan: "x \<noteq> FNaN \<Longrightarrow> Fin a + x \<noteq> FNaN"
  by (cases x) (auto simp: plus_f64_def)

lemma evidence_step:
  assumes "guard_cfg_ok fln cfg" "obs_ok obs" "e = Fin q"
  shows "- lit 5 \<le> f_clamp (e + log_ratio fln cfg obs) (- lit 5) (lit (7/2)) \<and>
    f_clamp (e + log_ratio fln cfg obs) (- lit 5) (lit (7/2)) \<le> lit (7/2)"
  using f_clamp_bounds [OF f_add_not_nan [OF log_ratio_not_nan [OF assms(1,2)], of q],
      of "Fin (- 5)" "Fin (7/2)"] assms(3)
  by (simp add: lit_seven_halves)

text \<open>The guard's invariant is kept by every observation: the window
  never exceeds its configured size, the evidence stays inside [-5, 3.5] (so drift is detected
  and forgotten within a bounded number of observations), no verdict is given on fewer than the
  minimum of observations, and a failing guard has not yet earned its recovery.\<close>

lemma guard_observe_invariant:
  assumes "guard_wf g" and "guard_cfg_ok fln (guard_config g)" and "obs_ok obs"
  shows "guard_wf (guard_observe fexp fln obs g)"
proof -
  obtain q where q: "e_process_log g = Fin q"
    using assms(1) rnd_finite_bounds [of "- 5" "e_process_log g" "7/2"]
    by (auto simp: guard_wf_def lit_seven_halves)
  define h where "h = g\<lparr>observations := window_push (unat (window_size (guard_config g))) obs (observations g),
    e_process_log := f_clamp (e_process_log g + log_ratio fln (guard_config g) obs) (- lit 5) (lit (7/2))\<rparr>"
  have obs: "guard_observe fexp fln obs g = recompute_status fexp (obs_good (guard_config g) obs) h"
    by (simp add: guard_observe_def h_def Let_def)
  have "- lit 5 \<le> e_process_log h \<and> e_process_log h \<le> lit (7/2)"
    using evidence_step [OF assms(2,3) q] by (simp add: h_def q)
  moreover have "length (observations h) \<le> unat (window_size (guard_config g))"
    by (simp add: h_def)
  moreover have "guard_config h = guard_config g" by (simp add: h_def)
  ultimately show ?thesis
    using recompute_status_frame [of fexp "obs_good (guard_config g) obs" h]
      recompute_status_wf [of fexp "obs_good (guard_config g) obs" h]
    by (auto simp: guard_wf_def obs lit_seven_halves)
qed

subsection \<open>Passing and recovering\<close>

text \<open>The guard after an observation has been absorbed and before its verdict.\<close>

definition absorb :: "(f64 \<Rightarrow> f64) \<Rightarrow> calibration_observation \<Rightarrow> adaptive_guard \<Rightarrow> adaptive_guard" where
  "absorb fln obs g = g\<lparr>
     observations := window_push (unat (window_size (guard_config g))) obs (observations g),
     e_process_log := f_clamp (e_process_log g + log_ratio fln (guard_config g) obs) (- lit 5) (lit (7/2))\<rparr>"

lemma obs_step:
  "guard_observe fexp fln obs g = recompute_status fexp (obs_good (guard_config g) obs) (absorb fln obs g)"
  by (simp add: guard_observe_def absorb_def Let_def)

lemma absorb_frame [simp]:
  "guard_config (absorb fln obs g) = guard_config g"
  "guard_status (absorb fln obs g) = guard_status g"
  "consecutive_clean (absorb fln obs g) = consecutive_clean g"
  "length (observations (absorb fln obs g)) = min (Suc (length (observations g))) (unat (window_size (guard_config g)))"
  by (simp_all add: absorb_def)

lemma metrics_frame [simp]:
  "calibration_metrics (g\<lparr>guard_status := s\<rparr>) = calibration_metrics g"
  "calibration_metrics (g\<lparr>consecutive_clean := n\<rparr>) = calibration_metrics g"
  by (simp_all add: calibration_metrics_def)

lemma recompute_pass:
  assumes "guard_status (recompute_status fexp lg h) = Pass"
  shows "unat (min_observations (guard_config h)) \<le> length (observations h)"
    and "guard_status h \<noteq> Fail \<Longrightarrow> recompute_status fexp lg h \<in>
      {h, h\<lparr>guard_status := Pass, consecutive_clean := guard_recovery_windows (guard_config h)\<rparr>} \<and>
      \<not> guard_alarm fexp h \<and> fst (calibration_metrics h) \<le> max_rate_error (guard_config h) \<and>
       min_conservative_fraction (guard_config h) \<le> snd (calibration_metrics h)"
    and "guard_status h = Fail \<Longrightarrow> lg \<and> \<not> guard_alarm fexp h \<and>
      guard_recovery_windows (guard_config h) \<le> consecutive_clean h + 1 \<and>
      recompute_status fexp lg h = h\<lparr>consecutive_clean := consecutive_clean h + 1,
        guard_status := Pass, e_process_log := 0\<rparr>"
  using assms
  by (cases "guard_status h"; auto simp: recompute_status_def Let_def not_less
      split: prod.splits if_splits)+

text \<open>A high-impact action passes the gate as adaptive after an observation
  only on evidence: the window holds the minimum of observations, there is no drift alarm, and
  either the metrics of that window are within their limits, or the guard was already failing,
  the latest observation was good and the required number of clean ones in a row is complete.\<close>

lemma guard_pass_sound:
  assumes "g' = guard_observe fexp fln obs g" and "adaptive_ok (gate_action g' True)"
  shows "unat (min_observations (guard_config g)) \<le> length (observations g') \<and>
    (guard_status g \<noteq> Fail \<longrightarrow> \<not> guard_alarm fexp g' \<and>
       fst (calibration_metrics g') \<le> max_rate_error (guard_config g) \<and>
       min_conservative_fraction (guard_config g) \<le> snd (calibration_metrics g')) \<and>
    (guard_status g = Fail \<longrightarrow> obs_good (guard_config g) obs \<and>
       guard_recovery_windows (guard_config g) \<le> consecutive_clean g' \<and>
       consecutive_clean g' = consecutive_clean g + 1 \<and> e_process_log g' = 0)"
proof -
  let ?h = "absorb fln obs g"
  have "guard_status g' = Pass"
    using assms(2) by (auto simp: gate_action_def split: guard_status.splits)
  then have pass: "guard_status (recompute_status fexp (obs_good (guard_config g) obs) ?h) = Pass"
    by (simp only: assms(1) obs_step)
  show ?thesis
  proof (cases "guard_status g = Fail")
    case True
    then have "guard_status ?h = Fail" by simp
    note f = recompute_pass(3) [OF pass this]
    from f have r: "g' = ?h\<lparr>consecutive_clean := consecutive_clean ?h + 1, guard_status := Pass,
        e_process_log := 0\<rparr>"
      unfolding assms(1) obs_step by blast
    show ?thesis using True f recompute_pass(1) [OF pass] unfolding r by simp
  next
    case False
    then have ne: "guard_status ?h \<noteq> Fail" by simp
    show ?thesis using False recompute_pass(1) [OF pass] recompute_pass(2) [OF pass ne]
      by (auto simp: assms(1) obs_step guard_alarm_def)
  qed
qed

definition sample_good_obs :: calibration_observation where
  "sample_good_obs = \<lparr>predicted_rate = Fin 0, actual_rate = Fin 0,
     predicted_tte = Fin 0, actual_tte = Fin 0, burst_outlier = True\<rparr>"

definition sample_fail_guard :: adaptive_guard where
  "sample_fail_guard = \<lparr>guard_config = guardrail_config_default\<lparr>min_observations := 1,
       guard_recovery_windows := 1, e_process_threshold := Fin 20\<rparr>,
     observations = [sample_good_obs], e_process_log = Fin 0,
     guard_status = Fail, consecutive_clean = 0\<rparr>"

lemma sample_recovers:
  "guard_status (guard_observe (\<lambda>x. x) (\<lambda>x. Fin 0) sample_good_obs sample_fail_guard) = Pass"
  by (simp add: obs_step recompute_status_def sample_fail_guard_def guardrail_config_default_def
      sample_good_obs_def absorb_def obs_good_def log_ratio_def guard_alarm_def window_push_def f_clamp_def
      lit_seven_halves fin_ops Let_def split: prod.splits)

text \<open>A good observation never raises the evidence, so a silent alarm stays silent.\<close>

lemma good_evidence_down:
  assumes "fln (e_process_reward cfg) = Fin w" "w \<le> 0" "obs_good cfg obs"
    and "e = Fin q" "rnd q = Fin q" "- 5 \<le> q" "q \<le> 7/2"
  shows "\<exists>r. f_clamp (e + log_ratio fln cfg obs) (- lit 5) (lit (7/2)) = Fin r \<and> r \<le> q \<and>
    rnd r = Fin r \<and> - 5 \<le> r"
proof -
  have "rnd (q + w) \<le> Fin q" using assms(2,5) rnd_mono [of "q + w" q] by simp
  moreover have "rnd (q + w) = Fin v \<Longrightarrow> rnd v = Fin v" for v by (rule rnd_idem)
  ultimately show ?thesis using assms rnd_not_nan [of "q + w"]
    by (cases "rnd (q + w)") (auto simp: log_ratio_def f_clamp_def lit_seven_halves fin_ops)
qed

definition guard_recovering :: "(f64 \<Rightarrow> f64) \<Rightarrow> adaptive_guard \<Rightarrow> bool" where
  "guard_recovering fexp g = (guard_status g = Fail \<and> \<not> guard_alarm fexp g \<and>
     consecutive_clean g < guard_recovery_windows (guard_config g) \<and>
     unat (min_observations (guard_config g)) \<le> length (observations g) \<and>
     min_observations (guard_config g) \<le> window_size (guard_config g) \<and>
     (case e_process_log g of Fin q \<Rightarrow> rnd q = Fin q \<and> - 5 \<le> q \<and> q \<le> 7/2 | _ \<Rightarrow> False))"

lemma recovering_step:
  assumes g: "guard_recovering fexp g" and mono: "\<And>x y. x \<le> y \<Longrightarrow> fexp x \<le> fexp y"
    and ln: "fln (e_process_reward (guard_config g)) = Fin w" "w \<le> 0"
    and obs: "obs_good (guard_config g) obs"
  defines "g' \<equiv> guard_observe fexp fln obs g"
  shows "if guard_recovery_windows (guard_config g) \<le> consecutive_clean g + 1 then guard_status g' = Pass
    else guard_recovering fexp g' \<and> consecutive_clean g' = consecutive_clean g + 1 \<and>
      guard_config g' = guard_config g"
proof -
  obtain q where q: "e_process_log g = Fin q" "rnd q = Fin q" "- 5 \<le> q" "q \<le> 7/2"
    using g by (auto simp: guard_recovering_def split: f64.splits)
  obtain r where r: "e_process_log (absorb fln obs g) = Fin r" "r \<le> q" "rnd r = Fin r" "- 5 \<le> r"
    using good_evidence_down [of fln "guard_config g" w obs "e_process_log g" q] ln obs q by (auto simp: absorb_def)
  have al: "\<not> guard_alarm fexp (absorb fln obs g)"
    using g mono [of "Fin r" "Fin q"] r(1,2) q(1) f_le_trans
    by (auto simp: guard_recovering_def guard_alarm_def)
  have len: "unat (min_observations (guard_config g)) \<le> length (observations (absorb fln obs g))"
    using g by (auto simp: guard_recovering_def word_le_nat_alt)
  have "g' = (let cc = consecutive_clean g + 1 in
      if guard_recovery_windows (guard_config g) \<le> cc
      then absorb fln obs g\<lparr>consecutive_clean := cc, guard_status := Pass, e_process_log := 0\<rparr>
      else absorb fln obs g\<lparr>consecutive_clean := cc\<rparr>)"
    using g len al obs
    by (simp add: g'_def obs_step recompute_status_def guard_recovering_def Let_def not_less
        del: absorb_frame(4) split: prod.splits)
  then show ?thesis
    using g q r al len by (auto simp: guard_recovering_def Let_def guard_alarm_def not_le simp del: absorb_frame(4))
qed

text \<open>A failing guard without a drift alarm recovers: exactly as many good
  observations in a row as the configured recovery count still asks for bring it to Pass. The
  exponential is monotone and the logarithm of the reward is not positive.\<close>

lemma guard_recovers:
  assumes "guard_recovering fexp g" and "\<And>x y. x \<le> y \<Longrightarrow> fexp x \<le> fexp y"
    and "fln (e_process_reward (guard_config g)) = Fin w" "w \<le> 0"
    and "\<forall>obs \<in> set os. obs_good (guard_config g) obs"
    and "unat (consecutive_clean g) + length os = unat (guard_recovery_windows (guard_config g))"
  shows "guard_status (fold (guard_observe fexp fln) os g) = Pass"
  using assms
proof (induction os arbitrary: g)
  case Nil
  then show ?case by (simp add: guard_recovering_def word_less_nat_alt)
next
  case (Cons obs os)
  let ?g = "guard_observe fexp fln obs g"
  let ?n = "guard_recovery_windows (guard_config g)"
  note step = recovering_step [of fexp g fln w obs, OF Cons.prems(1,2,3,4)]
  have cc: "unat (consecutive_clean g + 1) = Suc (unat (consecutive_clean g))"
    using Cons.prems(1) unat_Suc_below by (auto simp: guard_recovering_def)
  show ?case
  proof (cases "?n \<le> consecutive_clean g + 1")
    case True
    then have "unat ?n \<le> unat (consecutive_clean g) + 1" using cc by (simp add: word_le_nat_alt)
    moreover have "unat (consecutive_clean g) + 1 + length os = unat ?n" using Cons.prems(6) by simp
    ultimately have "length os = 0" by linarith
    then have "os = []" by simp
    then show ?thesis using step True Cons.prems(5) by simp
  next
    case False
    then have r: "guard_recovering fexp ?g" "consecutive_clean ?g = consecutive_clean g + 1"
      "guard_config ?g = guard_config g"
      using step Cons.prems(5) by auto
    show ?thesis
      using Cons.IH [OF r(1) Cons.prems(2)] Cons.prems(3-6) r cc by simp
  qed
qed

subsection \<open>The scorecard\<close>

lemma tally_bounds:
  "tally_outcomes xs (t, a) = (t', a') \<Longrightarrow> a \<le> t \<Longrightarrow> a' \<le> t' \<and> t' \<le> t + length xs"
proof (induction xs arbitrary: t a)
  case (Cons x xs)
  show ?case using Cons.prems Cons.IH [of t a] Cons.IH [of "t + 1" a] Cons.IH [of "t + 1" "a + 1"]
    by (cases x) simp_all
qed simp

lemma false_alarm_rate_unit:
  assumes "length (outcomes sc) \<le> unat (max_outcomes sc)"
  shows "\<exists>q. false_alarm_rate sc = Fin q \<and> 0 \<le> q \<and> q \<le> 1"
proof -
  obtain t a where ta: "tally_outcomes (outcomes sc) (0, 0) = (t, a)" by fastforce
  have "unat (max_outcomes sc) < 2 ^ LENGTH(64)" by (rule unsigned_less)
  then have b: "a \<le> t" "t \<le> 2 ^ 64" using tally_bounds [OF ta] assms by auto
  show ?thesis
  proof (cases "t = 0")
    case True
    then show ?thesis by (simp add: false_alarm_rate_def ta)
  next
    case False
    obtain u where u: "f_of_nat t = Fin u" using f_of_nat_bounds [OF b(2)] by auto
    have u1: "1 \<le> u" using f_of_nat_ge_1 [of t] False u by simp
    obtain v where v: "f_of_nat a = Fin v" "0 \<le> v"
      using f_of_nat_bounds [of a 64] b by auto
    have "v \<le> u" using f_of_nat_mono [OF b(1)] u v by simp
    then have "Fin 0 \<le> rnd (v / u)" "rnd (v / u) \<le> Fin 1"
      using u1 v by (auto intro: rnd_nonneg rnd_le)
    then obtain w where "rnd (v / u) = Fin w" "0 \<le> w" "w \<le> 1" using rnd_finite_bounds by blast
    then show ?thesis using False u1 by (simp add: false_alarm_rate_def ta u v fin_ops)
  qed
qed

text \<open>Whatever the window of outcomes holds, the confidence the
  scorecard asks for is never below the configured base and never above the larger of the base
  and 0.95, and it is the base itself while at most 30 percent of the actionable predictions
  were false alarms.\<close>

lemma dynamic_confidence_bounds:
  assumes "length (outcomes sc) \<le> unat (max_outcomes sc)"
    and "rnd b = Fin b" "0 \<le> b"
  shows "dynamic_min_confidence sc (Fin b) \<le> f_max (Fin b) (lit (19/20)) \<and>
    (Fin b \<le> lit (19/20) \<longrightarrow> Fin b \<le> dynamic_min_confidence sc (Fin b)) \<and>
    (false_alarm_rate sc \<le> lit (3/10) \<longrightarrow> dynamic_min_confidence sc (Fin b) = Fin b)"
proof -
  obtain far where far: "false_alarm_rate sc = Fin far" "0 \<le> far" "far \<le> 1"
    using false_alarm_rate_unit [OF assms(1)] by blast
  obtain l3 where l3: "lit (3/10) = Fin l3" "0 \<le> l3" using lit_unit [of "3/10"] by auto
  obtain l7 where l7: "lit (7/10) = Fin l7" "1/2 \<le> l7"
    using rnd_between [OF rnd_half rnd_1(1), of "7/10"] rnd_finite_bounds [of "1/2" _ 1] by auto
  obtain l2 where l2: "lit (1/5) = Fin l2" "0 \<le> l2" "l2 \<le> 1" using lit_unit [of "1/5"] by auto
  obtain c where c: "lit (19/20) = Fin c" using lit_unit [of "19/20"] by auto
  show ?thesis
  proof (cases "far \<le> l3")
    case True
    then show ?thesis by (simp add: dynamic_min_confidence_def far l3 c f_max_def)
  next
    case False
    obtain x where x: "rnd (far - l3) = Fin x" "0 \<le> x" "x \<le> 1"
      using rnd_in [OF rnd_0 rnd_1(1), of "far - l3"] False far l3 by auto
    have "x / l7 \<le> 2" "0 \<le> x / l7" using x l7 by (simp_all add: pos_divide_le_eq)
    then obtain y where y: "rnd (x / l7) = Fin y" "0 \<le> y" "y \<le> 2"
      using rnd_in [OF rnd_0 rnd_numeral [of "Num.Bit0 Num.One"], of "x / l7"] by auto
    have "y * l2 \<le> 2" "0 \<le> y * l2" using y l2 mult_mono [of y 2 l2 1] by auto
    then obtain z where z: "rnd (y * l2) = Fin z" "0 \<le> z" "z \<le> 2"
      using rnd_in [OF rnd_0 rnd_numeral [of "Num.Bit0 Num.One"], of "y * l2"] by auto
    have d: "dynamic_min_confidence sc (Fin b) = f_min (rnd (b + z)) (Fin c)"
      using False l7 by (simp add: dynamic_min_confidence_def far l3 x l7 y l2 z c fin_ops Let_def)
    have "Fin b \<le> rnd (b + z)" using rnd_ge [OF assms(2)] z by simp
    moreover have "f_min (rnd (b + z)) (Fin c) \<le> Fin c" by (rule f_min_le) simp
    moreover have "Fin c \<le> f_max (Fin b) (Fin c)" by (rule f_max_ge) simp
    moreover have "Fin b \<le> f_min (rnd (b + z)) (Fin c)" if "b \<le> c"
      using that \<open>Fin b \<le> rnd (b + z)\<close> by (simp add: f_min_def)
    ultimately show ?thesis using False f_le_trans by (auto simp: d c far l3)
  qed
qed

end
