(* ===== verification/Paths.thy ===== *)
theory Paths
  imports Prelude "HOL-Library.Char_ord" "HOL-Library.List_Lexorder" "HOL-Library.Product_Lexorder"
    "HOL-Library.Sublist"
begin

section \<open>Strings and paths of the standard library\<close>

text \<open>
  The string operations the scanner uses (prefix and suffix tests, substring search, ASCII case
  folding, splitting) on lists of bytes, and \<open>std::path::Path\<close> on Unix: a path is its text, its
  \<open>components\<close> drop empty and inner \<open>.\<close> segments, and \<open>starts_with\<close>, equality, ordering,
  \<open>file_name\<close>, \<open>extension\<close> and \<open>ancestors\<close> are defined on components. \<open>to_string_lossy\<close> is
  the identity on the UTF-8 texts modelled.
\<close>

subsection \<open>Strings\<close>

definition starts_with :: "string \<Rightarrow> string \<Rightarrow> bool" where
  "starts_with s p = (take (length p) s = p)"

definition ends_with :: "string \<Rightarrow> string \<Rightarrow> bool" where
  "ends_with s p = (length p \<le> length s \<and> drop (length s - length p) s = p)"

definition strip_prefix :: "string \<Rightarrow> string \<Rightarrow> string option" where
  "strip_prefix s p = (if starts_with s p then Some (drop (length p) s) else None)"

definition strip_suffix :: "string \<Rightarrow> string \<Rightarrow> string option" where
  "strip_suffix s p = (if ends_with s p then Some (take (length s - length p) s) else None)"

fun str_contains :: "string \<Rightarrow> string \<Rightarrow> bool" where
  "str_contains [] p = (p = [])"
| "str_contains (c # s) p = (starts_with (c # s) p \<or> str_contains s p)"

definition ascii_lower :: "char \<Rightarrow> char" where
  "ascii_lower c = (let n = (of_char c :: nat) in if 65 \<le> n \<and> n \<le> 90 then char_of (n + 32) else c)"

definition to_lower :: "string \<Rightarrow> string" where
  "to_lower s = map ascii_lower s"

definition eq_ignore_ascii_case :: "string \<Rightarrow> string \<Rightarrow> bool" where
  "eq_ignore_ascii_case s t = (to_lower s = to_lower t)"

fun split_on :: "char \<Rightarrow> string \<Rightarrow> string list" where
  "split_on d [] = [[]]"
| "split_on d (c # s) = (if c = d then [] # split_on d s
     else case split_on d s of [] \<Rightarrow> [[c]] | w # ws \<Rightarrow> (c # w) # ws)"

fun split_once :: "char \<Rightarrow> string \<Rightarrow> (string \<times> string) option" where
  "split_once d [] = None"
| "split_once d (c # s) = (if c = d then Some ([], s)
     else map_option (\<lambda>(a, b). (c # a, b)) (split_once d s))"

definition rsplit_once :: "char \<Rightarrow> string \<Rightarrow> (string \<times> string) option" where
  "rsplit_once d s = map_option (\<lambda>(a, b). (rev b, rev a)) (split_once d (rev s))"

fun join :: "string \<Rightarrow> string list \<Rightarrow> string" where
  "join sep [] = []"
| "join sep [w] = w"
| "join sep (w # ws) = w @ sep @ join sep ws"

lemma starts_with_iff: "starts_with s p \<longleftrightarrow> (\<exists>r. s = p @ r)"
  by (metis append_eq_conv_conj append_take_drop_id starts_with_def)

lemma starts_with_simps [simp]:
  "starts_with s []" "starts_with [] (d # p) \<longleftrightarrow> False"
  "starts_with (c # s) (d # p) \<longleftrightarrow> c = d \<and> starts_with s p"
  by (simp_all add: starts_with_def)

lemma strip_prefix_Some: "strip_prefix s p = Some r \<longleftrightarrow> s = p @ r"
  by (auto simp: strip_prefix_def starts_with_iff)

lemma ends_with_iff: "ends_with s p \<longleftrightarrow> (\<exists>r. s = r @ p)"
  by (auto simp: ends_with_def) (metis append_take_drop_id)

lemma strip_suffix_Some: "strip_suffix s p = Some r \<longleftrightarrow> s = r @ p"
  by (auto simp: strip_suffix_def ends_with_iff)

lemma str_contains_iff: "str_contains s p \<longleftrightarrow> (\<exists>a b. s = a @ p @ b)"
proof (induction s)
  case (Cons c s)
  have "(\<exists>a b. c # s = a @ p @ b) \<longleftrightarrow> (\<exists>b. c # s = p @ b) \<or> (\<exists>a b. s = a @ p @ b)"
    by (metis append_Cons append_Nil list.exhaust list.inject)
  then show ?case using Cons by (simp add: starts_with_iff)
qed auto

lemma split_on_not_Nil [simp]: "split_on d s \<noteq> []"
  by (induction s) (auto split: list.splits)

lemma split_on_append: "d \<notin> set w \<Longrightarrow> split_on d (w @ d # s) = w # split_on d s"
  by (induction w) (auto split: list.splits)

lemma split_on_id: "d \<notin> set w \<Longrightarrow> split_on d w = [w]"
  by (induction w) (auto split: list.splits)

subsection \<open>Paths\<close>

type_synonym path = string

datatype component = RootDir | CurDir | ParentDir | Normal string

fun comp_key :: "component \<Rightarrow> nat \<times> string" where
  "comp_key RootDir = (0, [])"
| "comp_key CurDir = (1, [])"
| "comp_key ParentDir = (2, [])"
| "comp_key (Normal s) = (3, s)"

lemma comp_key_inj: "comp_key c = comp_key d \<longleftrightarrow> c = d"
  by (cases c; cases d) auto

instantiation component :: linorder
begin

definition less_eq_component :: "component \<Rightarrow> component \<Rightarrow> bool" where
  "less_eq_component c d = (comp_key c \<le> comp_key d)"

definition less_component :: "component \<Rightarrow> component \<Rightarrow> bool" where
  "less_component c d = (comp_key c < comp_key d)"

instance
proof
  fix x y z :: component
  show "(x < y) = (x \<le> y \<and> \<not> y \<le> x)"
    by (simp only: less_eq_component_def less_component_def less_le_not_le)
  show "x \<le> x" by (simp only: less_eq_component_def order.refl)
  show "x \<le> y \<Longrightarrow> y \<le> z \<Longrightarrow> x \<le> z" unfolding less_eq_component_def by (rule order.trans)
  show "x \<le> y \<Longrightarrow> y \<le> x \<Longrightarrow> x = y"
    unfolding less_eq_component_def comp_key_inj [symmetric] by (rule order.antisym)
  show "x \<le> y \<or> y \<le> x" unfolding less_eq_component_def by (rule linear)
qed

end

definition parse_segment :: "string \<Rightarrow> component option" where
  "parse_segment w = (if w = [] \<or> w = ''.'' then None
     else if w = ''..'' then Some ParentDir else Some (Normal w))"

definition components :: "path \<Rightarrow> component list" where
  "components p =
     (let segs = split_on (CHR ''/'') p; body = List.map_filter parse_segment segs
      in if starts_with p ''/'' then RootDir # body
         else if hd segs = ''.'' then CurDir # body else body)"

definition path_eq :: "path \<Rightarrow> path \<Rightarrow> bool" where
  "path_eq p q = (components p = components q)"

definition path_starts_with :: "path \<Rightarrow> path \<Rightarrow> bool" where
  "path_starts_with p q = prefix (components q) (components p)"

definition path_join :: "path \<Rightarrow> string \<Rightarrow> path" where
  "path_join p q = (if starts_with q ''/'' \<or> p = [] then q
     else if last p = CHR ''/'' then p @ q else p @ ''/'' @ q)"

definition comps_file_name :: "component list \<Rightarrow> string option" where
  "comps_file_name cs = (if cs = [] then None
     else case last cs of Normal s \<Rightarrow> Some s | _ \<Rightarrow> None)"

definition file_name :: "path \<Rightarrow> string option" where
  "file_name p = comps_file_name (components p)"

definition name_extension :: "string \<Rightarrow> string option" where
  "name_extension name = (case rsplit_once (CHR ''.'') name of None \<Rightarrow> None
     | Some (before, after) \<Rightarrow> if before = [] then None else Some after)"

definition ancestors :: "path \<Rightarrow> component list list" where
  "ancestors p = (let cs = components p; k = (if cs \<noteq> [] \<and> hd cs = RootDir then 1 else 0)
     in map (\<lambda>n. take n cs) (rev [k..<Suc (length cs)]))"

lemma path_starts_with_refl [simp]: "path_starts_with p p"
  by (simp add: path_starts_with_def)

lemma path_starts_with_trans: "path_starts_with p q \<Longrightarrow> path_starts_with q r \<Longrightarrow> path_starts_with p r"
  unfolding path_starts_with_def by (rule prefix_order.trans)

lemma path_eq_starts_with: "path_eq p q \<Longrightarrow> path_starts_with p q"
  by (simp add: path_eq_def path_starts_with_def)

end
