(* ===== verification/Errors.thy ===== *)
theory Errors
  imports Paths
begin

section \<open>Errors\<close>

text \<open>
  The crate's error type (\<open>core/errors.rs\<close>), with the platform layer's error it wraps
  (\<open>platform/types.rs\<close>) and the part of \<open>std::io::Error\<close> the code inspects: its kind, the raw
  operating-system code and its text. The conversions from the JSON, TOML and SQL libraries keep
  only the text of the foreign error, which is therefore a string here.
\<close>

datatype io_kind = NotFound | StorageFull | PermissionDeniedKind | OtherKind

record io_error =
  io_kind :: io_kind
  raw_os_error :: "int option"
  io_text :: string

datatype pal_error =
    NotImplemented string string "string option"
  | MethodFailed string string string

definition squote :: string where
  "squote = [CHR 0x27]"

fun show_pal_error :: "pal_error \<Rightarrow> string" where
  "show_pal_error (NotImplemented os_name method_name bead) =
     ''PAL method '' @ squote @ method_name @ squote @ '' is not yet implemented on '' @ os_name @
     (case bead of None \<Rightarrow> [] | Some b \<Rightarrow> ''. See bead '' @ b @ '' for tracking'')"
| "show_pal_error (MethodFailed os_name method_name details) =
     ''PAL method '' @ squote @ method_name @ squote @ '' failed on '' @ os_name @ '': '' @ details"

datatype sbh_error =
    InvalidConfig string
  | MissingConfig path
  | ConfigParse string string
  | UnsupportedPlatform string
  | Pal pal_error
  | FsStatsError path string
  | MountParse string
  | SafetyVeto path string
  | Serialization string string
  | Sql string string
  | PermissionDenied path
  | Io path io_error
  | ChannelClosed string
  | RuntimeError string

fun error_code :: "sbh_error \<Rightarrow> string" where
  "error_code (InvalidConfig _) = ''SBH-1001''"
| "error_code (MissingConfig _) = ''SBH-1002''"
| "error_code (ConfigParse _ _) = ''SBH-1003''"
| "error_code (UnsupportedPlatform _) = ''SBH-1101''"
| "error_code (Pal _) = ''SBH-1102''"
| "error_code (FsStatsError _ _) = ''SBH-2001''"
| "error_code (MountParse _) = ''SBH-2002''"
| "error_code (SafetyVeto _ _) = ''SBH-2003''"
| "error_code (Serialization _ _) = ''SBH-2101''"
| "error_code (Sql _ _) = ''SBH-2102''"
| "error_code (PermissionDenied _) = ''SBH-3001''"
| "error_code (Io _ _) = ''SBH-3002''"
| "error_code (ChannelClosed _) = ''SBH-3003''"
| "error_code (RuntimeError _) = ''SBH-3900''"

fun is_retryable :: "sbh_error \<Rightarrow> bool" where
  "is_retryable (Io _ _) = True"
| "is_retryable (ChannelClosed _) = True"
| "is_retryable (FsStatsError _ _) = True"
| "is_retryable (Sql _ _) = True"
| "is_retryable (RuntimeError _) = True"
| "is_retryable _ = False"

text \<open>The message after the code, from the \<open>#[error]\<close> attributes of the variants.\<close>

fun error_message :: "sbh_error \<Rightarrow> string" where
  "error_message (InvalidConfig d) = ''invalid configuration: '' @ d"
| "error_message (MissingConfig p) = ''missing configuration file: '' @ p"
| "error_message (ConfigParse c d) = ''configuration parse failure in '' @ c @ '': '' @ d"
| "error_message (UnsupportedPlatform d) = ''unsupported platform: '' @ d"
| "error_message (Pal e) = ''platform abstraction failure: '' @ show_pal_error e"
| "error_message (FsStatsError p d) = ''filesystem stats failure for '' @ p @ '': '' @ d"
| "error_message (MountParse d) = ''mount table parse failure: '' @ d"
| "error_message (SafetyVeto p r) = ''safety veto for '' @ p @ '': '' @ r"
| "error_message (Serialization c d) = ''serialization failure in '' @ c @ '': '' @ d"
| "error_message (Sql c d) = ''SQL failure in '' @ c @ '': '' @ d"
| "error_message (PermissionDenied p) = ''permission denied for '' @ p"
| "error_message (Io p e) = ''IO failure at '' @ p @ '': '' @ io_text e"
| "error_message (ChannelClosed c) = ''channel closed in component '' @ c"
| "error_message (RuntimeError d) = ''runtime failure: '' @ d"

definition show_error :: "sbh_error \<Rightarrow> string" where
  "show_error e = ''['' @ error_code e @ ''] '' @ error_message e"

text \<open>The code of an error can be read back from its text, which is what operators grep for.\<close>

lemma error_code_length: "length (error_code e) = 8"
  by (cases e) simp_all

lemma show_error_code: "take 8 (drop 1 (show_error e)) = error_code e"
  by (simp add: show_error_def error_code_length)

end
