(* ===== verification/Ballast.thy ===== *)
theory Ballast
  imports F64 Errors "HOL-Library.AList"
begin

section \<open>The ballast pool manager\<close>

text \<open>
  \<open>ballast/manager.rs\<close>: one directory of pre-allocated sacrificial files, their headers, and the
  operations provision, release, verify, replenish and the pruning of orphans.

  A ballast directory is a \<open>world\<close>: its entries in listing order, and a counter of the system calls
  that change it. What the operating system and the platform layer answer is the \<open>storage\<close>
  environment, an argument of every operation: each fallible call may fail or not at every moment (the
  counter indexes the answers), a failed write leaves anything behind, and nothing is assumed of it in
  the definitions. Between two operations the directory may be changed by anyone. The JSON codec of the
  header (\<open>serde_json\<close>) is a parameter as well. Journal messages and file modes are left out.
\<close>

subsection \<open>Configuration\<close>

record volume_override =
  vo_enabled :: bool
  vo_file_count :: "usize option"
  vo_file_size_bytes :: "u64 option"

definition volume_override_default :: volume_override where
  "volume_override_default = \<lparr>vo_enabled = True, vo_file_count = None, vo_file_size_bytes = None\<rparr>"

record ballast_config =
  file_count :: usize
  file_size_bytes :: u64
  replenish_cooldown_minutes :: u64
  auto_provision :: bool
  overrides :: "(string \<times> volume_override) list"

definition strip_trailing_separator :: "string \<Rightarrow> string" where
  "strip_trailing_separator s = (case strip_suffix s ''/'' of Some r \<Rightarrow> r
     | None \<Rightarrow> (case strip_suffix s [CHR 0x5C] of Some r \<Rightarrow> r | None \<Rightarrow> s))"

definition volume_override_of :: "ballast_config \<Rightarrow> string \<Rightarrow> volume_override option" where
  "volume_override_of c mount_path = map_of (overrides c) (strip_trailing_separator mount_path)"

definition effective_file_count :: "ballast_config \<Rightarrow> string \<Rightarrow> usize" where
  "effective_file_count c mount_path =
     (case Option.bind (volume_override_of c mount_path) vo_file_count of Some n \<Rightarrow> n | None \<Rightarrow> file_count c)"

definition effective_file_size_bytes :: "ballast_config \<Rightarrow> string \<Rightarrow> u64" where
  "effective_file_size_bytes c mount_path =
     (case Option.bind (volume_override_of c mount_path) vo_file_size_bytes of Some n \<Rightarrow> n | None \<Rightarrow> file_size_bytes c)"

definition is_volume_enabled :: "ballast_config \<Rightarrow> string \<Rightarrow> bool" where
  "is_volume_enabled c mount_path =
     (case volume_override_of c mount_path of None \<Rightarrow> True | Some ov \<Rightarrow> vo_enabled ov)"

subsection \<open>Headers and reports\<close>

definition header_size :: nat where "header_size = 4096"
definition chunk_size :: u64 where "chunk_size = 4 * 1024 * 1024"
definition fsync_every_bytes :: u64 where "fsync_every_bytes = 64 * 1024 * 1024"
definition min_free_pct :: f64 where "min_free_pct = Fin 20"
definition ballast_magic :: string where "ballast_magic = ''SBH_BALLAST_v1''"

record ballast_header =
  bh_magic :: string
  bh_file_index :: u32
  bh_created_at :: string
  bh_file_size :: u64
  bh_purpose :: string

definition header_new :: "string \<Rightarrow> u32 \<Rightarrow> u64 \<Rightarrow> ballast_header" where
  "header_new now index sz = \<lparr>bh_magic = ballast_magic, bh_file_index = index, bh_created_at = now,
     bh_file_size = sz, bh_purpose = ''Storage ballast for emergency space recovery''\<rparr>"

definition header_valid :: "ballast_header \<Rightarrow> bool" where
  "header_valid h = (bh_magic h = ballast_magic)"

record ballast_file =
  bf_path :: path
  bf_index :: u32
  bf_size :: u64
  bf_created_at :: string
  integrity_ok :: bool

record provision_report =
  files_created :: usize
  files_skipped :: usize
  total_bytes :: u64
  prov_errors :: "string list"

record verify_report =
  files_checked :: usize
  files_ok :: usize
  files_corrupted :: usize
  files_missing :: usize
  details :: "string list"

record release_report =
  files_released :: usize
  bytes_freed :: u64
  warnings :: "string list"
  rel_errors :: "string list"

definition empty_provision_report :: provision_report where
  "empty_provision_report = \<lparr>files_created = 0, files_skipped = 0, total_bytes = 0, prov_errors = []\<rparr>"

subsection \<open>The directory and its environment\<close>

text \<open>\<open>std::str::from_utf8\<close> on bytes: well-formed UTF-8 without surrogates and overlong forms.\<close>

definition cont_byte :: "nat \<Rightarrow> bool" where
  "cont_byte b = (128 \<le> b \<and> b \<le> 191)"

fun valid_utf8 :: "nat list \<Rightarrow> bool" where
  "valid_utf8 [] = True"
| "valid_utf8 (a # bs) =
     (if a < 128 then valid_utf8 bs
      else if 194 \<le> a \<and> a \<le> 223 then
        (case bs of b # r \<Rightarrow> cont_byte b \<and> valid_utf8 r | _ \<Rightarrow> False)
      else if 224 \<le> a \<and> a \<le> 239 then
        (case bs of b # c # r \<Rightarrow> cont_byte b \<and> cont_byte c \<and> (a = 224 \<longrightarrow> 160 \<le> b) \<and>
           (a = 237 \<longrightarrow> b \<le> 159) \<and> valid_utf8 r | _ \<Rightarrow> False)
      else if 240 \<le> a \<and> a \<le> 244 then
        (case bs of b # c # d # r \<Rightarrow> cont_byte b \<and> cont_byte c \<and> cont_byte d \<and>
           (a = 240 \<longrightarrow> 144 \<le> b) \<and> (a = 244 \<longrightarrow> b \<le> 143) \<and> valid_utf8 r | _ \<Rightarrow> False)
      else False)"

text \<open>What \<open>stat\<close> and a read of the first 4096 bytes show of a file. An entry that cannot be
  inspected (permissions, input/output errors) is \<open>NoStat\<close>.\<close>

record node =
  nd_is_file :: bool
  nd_len :: u64
  nd_open_error :: "io_error option"
  nd_head :: string
  nd_blocks :: "sbh_error + u64"
  nd_birth :: "string option"

datatype entry = NoStat io_error | Node node

record world =
  w_dir :: "(string \<times> entry) list"
  w_calls :: nat

record local_snapshot =
  snap_name :: string
  snap_date :: "string option"
  retained_bytes_estimate :: "u64 option"
  snap_mount_path :: path

record storage =
  utc_now :: "nat \<Rightarrow> string"
  lock_error :: "nat \<Rightarrow> sbh_error option"
  create_dir_error :: "nat \<Rightarrow> io_error option"
  read_dir_error :: "nat \<Rightarrow> io_error option"
  unreadable_entry :: "nat \<Rightarrow> string \<Rightarrow> bool"
  remove_error :: "nat \<Rightarrow> string \<Rightarrow> io_error option"
  prealloc_error :: "nat \<Rightarrow> string \<Rightarrow> u64 \<Rightarrow> sbh_error option"
  header_write_error :: "nat \<Rightarrow> string \<Rightarrow> io_error option"
  data_write_error :: "nat \<Rightarrow> string \<Rightarrow> io_error option"
  left_behind :: "nat \<Rightarrow> string \<Rightarrow> entry option"
  block_count :: "nat \<Rightarrow> string \<Rightarrow> u64 \<Rightarrow> sbh_error + u64"
  birth_time :: "nat \<Rightarrow> string option"
  capacity_mount :: "path \<Rightarrow> sbh_error + path"
  snapshots :: "path \<Rightarrow> sbh_error + local_snapshot list"

record codec =
  header_json :: "ballast_header \<Rightarrow> sbh_error + string"
  parse_header :: "string \<Rightarrow> string + ballast_header"
  utf8_text :: "string \<Rightarrow> string"

definition not_found :: io_error where
  "not_found = \<lparr>io_kind = NotFound, raw_os_error = Some 2, io_text = ''No such file or directory (os error 2)''\<rparr>"

definition unexpected_eof :: io_error where
  "unexpected_eof = \<lparr>io_kind = OtherKind, raw_os_error = None, io_text = ''failed to fill whole buffer''\<rparr>"

definition metadata :: "world \<Rightarrow> string \<Rightarrow> io_error + node" where
  "metadata w name = (case map_of (w_dir w) name of None \<Rightarrow> Inl not_found
     | Some (NoStat e) \<Rightarrow> Inl e | Some (Node n) \<Rightarrow> Inr n)"

definition node_at :: "world \<Rightarrow> string \<Rightarrow> node option" where
  "node_at w name = (case map_of (w_dir w) name of Some (Node n) \<Rightarrow> Some n | _ \<Rightarrow> None)"

text \<open>\<open>Path::exists\<close> is false when the metadata cannot be read.\<close>

definition path_exists :: "world \<Rightarrow> string \<Rightarrow> bool" where
  "path_exists w name = (node_at w name \<noteq> None)"

definition set_entry :: "string \<Rightarrow> entry option \<Rightarrow> world \<Rightarrow> world" where
  "set_entry name eo w = \<lparr>w_dir = (case eo of None \<Rightarrow> AList.delete name (w_dir w)
     | Some e \<Rightarrow> AList.update name e (w_dir w)), w_calls = Suc (w_calls w)\<rparr>"

definition tick :: "world \<Rightarrow> world" where
  "tick w = w\<lparr>w_calls := Suc (w_calls w)\<rparr>"

definition remove_file :: "storage \<Rightarrow> string \<Rightarrow> world \<Rightarrow> io_error option \<times> world" where
  "remove_file os name w = (if map_of (w_dir w) name = None then (Some not_found, tick w)
     else case remove_error os (w_calls w) name of Some e \<Rightarrow> (Some e, tick w)
       | None \<Rightarrow> (None, set_entry name None w))"

subsection \<open>Health and availability\<close>

datatype ballast_health = Unconfigured | HealthOk | Degraded | Empty | Indeterminate

definition health_evaluate :: "u64 \<Rightarrow> u64 \<Rightarrow> ballast_health" where
  "health_evaluate configured releasable =
     (if configured = 0 then Unconfigured else if releasable = 0 then Empty
      else if releasable < configured then Degraded else HealthOk)"

fun health_str :: "ballast_health \<Rightarrow> string" where
  "health_str Unconfigured = ''unconfigured''"
| "health_str HealthOk = ''ok''"
| "health_str Degraded = ''degraded''"
| "health_str Empty = ''empty''"
| "health_str Indeterminate = ''indeterminate''"

definition ballast_file_name :: "u32 \<Rightarrow> string" where
  "ballast_file_name index = ''SBH_BALLAST_FILE_'' @ pad_left 5 (CHR ''0'') (show_nat (unat index)) @ ''.dat''"

text \<open>The loop \<open>for i in 1..=file_count\<close> with its truncating cast \<open>i as u32\<close>.\<close>

definition slots :: "usize \<Rightarrow> u32 list" where
  "slots n = map of_nat [1..<Suc (unat n)]"

record availability =
  configured_count :: usize
  configured_file_size :: u64
  configured_pool :: u64
  av_available :: usize
  av_missing :: usize
  av_unreadable :: usize
  av_releasable :: u64
  av_health :: ballast_health

definition observe_slot :: "world \<Rightarrow> u32 \<Rightarrow> availability \<Rightarrow> availability" where
  "observe_slot w index a = (case metadata w (ballast_file_name index) of
       Inr n \<Rightarrow> if nd_is_file n
         then a\<lparr>av_available := av_available a + 1, av_releasable := sat_add (av_releasable a) (nd_len n)\<rparr>
         else a\<lparr>av_missing := av_missing a + 1\<rparr>
     | Inl e \<Rightarrow> if io_kind e = NotFound then a\<lparr>av_missing := av_missing a + 1\<rparr>
         else a\<lparr>av_unreadable := av_unreadable a + 1\<rparr>)"

definition observe_pool :: "world \<Rightarrow> ballast_config \<Rightarrow> availability" where
  "observe_pool w c =
     (let pool = sat_mul (file_count c) (file_size_bytes c);
          a = fold (observe_slot w) (slots (file_count c))
            \<lparr>configured_count = file_count c, configured_file_size = file_size_bytes c,
              configured_pool = pool, av_available = 0, av_missing = 0, av_unreadable = 0,
              av_releasable = 0, av_health = Unconfigured\<rparr>
      in a\<lparr>av_health := (if pool = 0 then Unconfigured else if av_unreadable a > 0 then Indeterminate
             else health_evaluate pool (av_releasable a))\<rparr>)"

definition is_authoritative :: "availability \<Rightarrow> bool" where
  "is_authoritative a = (av_unreadable a = 0)"

subsection \<open>The manager\<close>

record manager =
  ballast_dir :: path
  bm_config :: ballast_config
  bm_inventory :: "ballast_file list"
  skip_fallocate :: bool

definition releasable_bytes :: "manager \<Rightarrow> u64" where
  "releasable_bytes m = sum_list (map bf_size (bm_inventory m))"

definition available_count :: "manager \<Rightarrow> usize" where
  "available_count m = of_nat (length (bm_inventory m))"

definition configured_pool_bytes :: "manager \<Rightarrow> u64" where
  "configured_pool_bytes m = sat_mul (file_count (bm_config m)) (file_size_bytes (bm_config m))"

definition pool_health :: "manager \<Rightarrow> ballast_health" where
  "pool_health m = health_evaluate (configured_pool_bytes m) (releasable_bytes m)"

definition set_skip_fallocate :: "bool \<Rightarrow> manager \<Rightarrow> manager" where
  "set_skip_fallocate b m = m\<lparr>skip_fallocate := b\<rparr>"

definition file_path :: "manager \<Rightarrow> u32 \<Rightarrow> path" where
  "file_path m index = path_join (ballast_dir m) (ballast_file_name index)"

subsection \<open>Orphans\<close>

definition orphan_number :: "string \<Rightarrow> u32 option" where
  "orphan_number name =
     (if starts_with name ''SBH_BALLAST_FILE_'' \<and>
         (case name_extension name of None \<Rightarrow> False | Some ext \<Rightarrow> eq_ignore_ascii_case ext ''dat'') \<and>
         length name > 17 + 4
      then parse_word (take (length name - 4 - 17) (drop 17 name)) else None)"

definition is_orphan :: "usize \<Rightarrow> string \<Rightarrow> bool" where
  "is_orphan count name = (case orphan_number name of None \<Rightarrow> False
     | Some index \<Rightarrow> (ucast count :: u32) < index \<or> index = 0)"

definition prune_entry :: "storage \<Rightarrow> usize \<Rightarrow> string \<Rightarrow> world \<Rightarrow> world" where
  "prune_entry os count name w =
     (if unreadable_entry os (w_calls w) name then w
      else if (case node_at w name of None \<Rightarrow> False | Some n \<Rightarrow> nd_is_file n) \<and>
              valid_utf8 (map of_char name) \<and> is_orphan count name
      then snd (remove_file os name w) else w)"

definition prune_orphans :: "storage \<Rightarrow> manager \<Rightarrow> world \<Rightarrow> sbh_error option \<times> world" where
  "prune_orphans os m w = (case read_dir_error os (w_calls w) of
       Some e \<Rightarrow> if io_kind e = NotFound then (None, w) else (Some (Io (ballast_dir m) e), w)
     | None \<Rightarrow> (None, fold (prune_entry os (file_count (bm_config m))) (map fst (w_dir w)) w))"

subsection \<open>Verification and inventory\<close>

text \<open>\<open>verify_single_file\<close>: \<open>None\<close> is \<open>Ok(())\<close>. The first 4096 bytes up to the first zero byte are
  the header; the file must have the configured length and blocks for all of it.\<close>

definition verify_header :: "codec \<Rightarrow> u64 \<Rightarrow> u32 \<Rightarrow> string \<Rightarrow> string option" where
  "verify_header cd sz expected head =
     (let txt = takeWhile (\<lambda>b. b \<noteq> CHR 0x00) (take header_size head) in
      if \<not> valid_utf8 (map of_char txt) then Some (''header not UTF-8: '' @ utf8_text cd txt) else
      (case parse_header cd txt of Inl e \<Rightarrow> Some (''header parse: '' @ e)
       | Inr h \<Rightarrow>
          if \<not> header_valid h then Some (''bad magic: '' @ bh_magic h)
          else if bh_file_index h \<noteq> expected then
            Some (''index mismatch: expected '' @ show_nat (unat expected) @ '' got '' @ show_nat (unat (bh_file_index h)))
          else if bh_file_size h \<noteq> sz then
            Some (''header size mismatch: '' @ show_nat (unat (bh_file_size h)) @ '' vs '' @ show_nat (unat sz))
          else None))"

definition verify_blocks :: "u64 \<Rightarrow> node \<Rightarrow> string option" where
  "verify_blocks sz n = (case nd_blocks n of Inl e \<Rightarrow> Some (''block count: '' @ show_error e)
     | Inr blocks \<Rightarrow>
         if unat blocks * 512 \<ge> 2 ^ 64 then Some ''allocated block count overflow''
         else if blocks * 512 < sz then
           Some (''allocated bytes mismatch: expected at least '' @ show_nat (unat sz) @
             '' got '' @ show_nat (unat (blocks * 512)))
         else None)"

definition verify_single_file :: "codec \<Rightarrow> manager \<Rightarrow> world \<Rightarrow> u32 \<Rightarrow> string option" where
  "verify_single_file cd m w expected =
     (let sz = file_size_bytes (bm_config m) in
      case metadata w (ballast_file_name expected) of Inl e \<Rightarrow> Some (''metadata: '' @ io_text e)
      | Inr n \<Rightarrow>
         if nd_len n \<noteq> sz then
           Some (''size mismatch: expected '' @ show_nat (unat sz) @ '' got '' @ show_nat (unat (nd_len n)))
         else case nd_open_error n of Some e \<Rightarrow> Some (''open: '' @ io_text e) | None \<Rightarrow>
         if length (nd_head n) < header_size then Some (''read header: '' @ io_text unexpected_eof)
         else case verify_header cd sz expected (nd_head n) of Some e \<Rightarrow> Some e
           | None \<Rightarrow> verify_blocks sz n)"

definition scan_slot :: "codec \<Rightarrow> manager \<Rightarrow> world \<Rightarrow> u32 \<Rightarrow> ballast_file option" where
  "scan_slot cd m w index = (case node_at w (ballast_file_name index) of None \<Rightarrow> None
     | Some n \<Rightarrow> Some \<lparr>bf_path = file_path m index, bf_index = index, bf_size = nd_len n,
         bf_created_at = (case nd_birth n of Some t \<Rightarrow> t | None \<Rightarrow> []),
         integrity_ok = (verify_single_file cd m w index = None)\<rparr>)"

definition scan_existing :: "codec \<Rightarrow> world \<Rightarrow> manager \<Rightarrow> manager" where
  "scan_existing cd w m =
     m\<lparr>bm_inventory := List.map_filter (scan_slot cd m w) (slots (file_count (bm_config m)))\<rparr>"

definition with_platform ::
  "storage \<Rightarrow> codec \<Rightarrow> path \<Rightarrow> ballast_config \<Rightarrow> world \<Rightarrow> (sbh_error + manager) \<times> world" where
  "with_platform os cd dir cfg w = (case create_dir_error os (w_calls w) of
       Some e \<Rightarrow> (Inl (Io dir e), tick w)
     | None \<Rightarrow>
        let m = \<lparr>ballast_dir = dir, bm_config = cfg, bm_inventory = [], skip_fallocate = False\<rparr>;
            w1 = snd (prune_orphans os m (tick w))
        in (Inr (scan_existing cd w1 m), w1))"

definition ballast_update_config :: "storage \<Rightarrow> codec \<Rightarrow> ballast_config \<Rightarrow> manager \<times> world \<Rightarrow> manager \<times> world" where
  "ballast_update_config os cd cfg mw =
     (let (m, w) = mw; m1 = m\<lparr>bm_config := cfg\<rparr>; w1 = snd (prune_orphans os m1 w)
      in (scan_existing cd w1 m1, w1))"

fun verify_slots :: "codec \<Rightarrow> manager \<Rightarrow> world \<Rightarrow> u32 list \<Rightarrow> verify_report \<Rightarrow> verify_report" where
  "verify_slots cd m w [] r = r"
| "verify_slots cd m w (index # is) r =
     (let r1 = r\<lparr>files_checked := files_checked r + 1\<rparr>; tag = ''file '' @ show_nat (unat index) @ '': '' in
      verify_slots cd m w is
        (if \<not> path_exists w (ballast_file_name index)
         then r1\<lparr>files_missing := files_missing r1 + 1, details := details r1 @ [tag @ ''missing'']\<rparr>
         else case verify_single_file cd m w index of
             None \<Rightarrow> r1\<lparr>files_ok := files_ok r1 + 1\<rparr>
           | Some e \<Rightarrow> r1\<lparr>files_corrupted := files_corrupted r1 + 1, details := details r1 @ [tag @ e]\<rparr>))"

definition verify_pool :: "codec \<Rightarrow> manager \<Rightarrow> world \<Rightarrow> verify_report" where
  "verify_pool cd m w = verify_slots cd m w (slots (file_count (bm_config m)))
     \<lparr>files_checked = 0, files_ok = 0, files_corrupted = 0, files_missing = 0, details = []\<rparr>"

subsection \<open>Creating a file\<close>

definition storage_full_message :: "string \<Rightarrow> bool" where
  "storage_full_message text = (let t = to_lower text in
     str_contains t ''no space left on device'' \<or> str_contains t ''enospc'' \<or>
     str_contains t ''storage full'' \<or> str_contains t ''disk full'' \<or> str_contains t ''not enough space'')"

definition io_storage_full :: "io_error \<Rightarrow> bool" where
  "io_storage_full e = (io_kind e = StorageFull \<or> raw_os_error e = Some 28)"

fun is_storage_exhausted :: "sbh_error \<Rightarrow> bool" where
  "is_storage_exhausted (Io _ e) = io_storage_full e"
| "is_storage_exhausted (Pal (MethodFailed _ method_name d)) =
     (method_name = ''preallocate_file'' \<and> storage_full_message d)"
| "is_storage_exhausted (RuntimeError d) = storage_full_message d"
| "is_storage_exhausted _ = False"

definition header_buffer :: "codec \<Rightarrow> string \<Rightarrow> u32 \<Rightarrow> u64 \<Rightarrow> sbh_error + string" where
  "header_buffer cd now index sz = (case header_json cd (header_new now index sz) of
       Inl e \<Rightarrow> Inl e
     | Inr json \<Rightarrow> if length json > header_size
         then Inl (RuntimeError (''ballast header JSON ('' @ show_nat (length json) @
           '' bytes) exceeds HEADER_SIZE ('' @ show_nat header_size @ '')''))
         else Inr (json @ replicate (header_size - length json) (CHR 0x00)))"

text \<open>The writes of \<open>write_random_data\<close>: chunks of at most 4 MB and a sync after 64 MB.\<close>

datatype disk_op = WriteBytes u64 | SyncAll

lemma chunk_step:
  assumes "written < (data_size :: u64)"
    and "t = (if data_size - written > chunk_size then chunk_size else data_size - written)"
  shows "unat (written + t) = unat written + unat t" "0 < unat t" "unat (written + t) \<le> unat data_size"
    "unat t \<le> unat chunk_size"
proof -
  have d: "unat (data_size - written) = unat data_size - unat written"
    using assms(1) by (simp add: unat_sub word_less_nat_alt word_le_nat_alt less_imp_le)
  have t: "unat t \<le> unat data_size - unat written" "0 < unat t"
    using assms d by (auto simp: word_less_nat_alt chunk_size_def split: if_splits)
  have "unat data_size < 2 ^ 64" using unsigned_less [of data_size] by simp
  with t have "unat written + unat t < 2 ^ 64" using assms(1) by (simp add: word_less_nat_alt)
  then show a: "unat (written + t) = unat written + unat t" by (simp add: unat_word_ariths)
  show "0 < unat t" by (rule t)
  show "unat (written + t) \<le> unat data_size" using a t assms(1) by (simp add: word_less_nat_alt)
  show "unat t \<le> unat chunk_size" using assms(2) by (auto simp: word_less_nat_alt not_less)
qed

function chunk_plan :: "u64 \<Rightarrow> u64 \<Rightarrow> u64 \<Rightarrow> disk_op list" where
  "chunk_plan data_size written since =
     (if written < data_size then
        let remaining = data_size - written;
            to_write = (if remaining > chunk_size then chunk_size else remaining);
            since1 = since + to_write
        in WriteBytes to_write #
           (if since1 \<ge> fsync_every_bytes then SyncAll # chunk_plan data_size (written + to_write) 0
            else chunk_plan data_size (written + to_write) since1)
      else [])"
  by pat_completeness auto

termination
proof (relation "measure (\<lambda>(d, w, s). unat d - unat w)")
  show "wf (measure (\<lambda>(d :: u64, w :: u64, s :: u64). unat d - unat w))" by simp
qed (use chunk_step in \<open>fastforce simp: word_less_nat_alt\<close>)+

declare chunk_plan.simps [simp del]

definition written_node :: "storage \<Rightarrow> nat \<Rightarrow> string \<Rightarrow> u64 \<Rightarrow> string \<Rightarrow> node" where
  "written_node os k name len head = \<lparr>nd_is_file = True, nd_len = len, nd_open_error = None,
     nd_head = head, nd_blocks = block_count os k name len, nd_birth = birth_time os k\<rparr>"

definition op_bytes :: "disk_op \<Rightarrow> u64" where
  "op_bytes x = (case x of WriteBytes b \<Rightarrow> b | SyncAll \<Rightarrow> 0)"

definition write_header_to_preallocated ::
  "storage \<Rightarrow> path \<Rightarrow> string \<Rightarrow> u64 \<Rightarrow> string \<Rightarrow> world \<Rightarrow> sbh_error option \<times> world" where
  "write_header_to_preallocated os path name sz buf w =
     (let k = w_calls w in case header_write_error os k name of
       Some e \<Rightarrow> (Some (Io path e), set_entry name (left_behind os k name) w)
     | None \<Rightarrow> (None, set_entry name (Some (Node (written_node os k name sz buf))) w))"

definition write_random_file ::
  "storage \<Rightarrow> path \<Rightarrow> string \<Rightarrow> u64 \<Rightarrow> string \<Rightarrow> world \<Rightarrow> sbh_error option \<times> world" where
  "write_random_file os path name data_size buf w =
     (let k = w_calls w; len = of_nat (length buf) + sum_list (map op_bytes (chunk_plan data_size 0 0)) in
      case data_write_error os k name of
       Some e \<Rightarrow> (Some (Io path e), set_entry name (left_behind os k name) w)
     | None \<Rightarrow> (None, set_entry name (Some (Node (written_node os k name len buf))) w))"

definition write_ballast_file_inner ::
  "storage \<Rightarrow> codec \<Rightarrow> manager \<Rightarrow> u32 \<Rightarrow> u64 \<Rightarrow> world \<Rightarrow> sbh_error option \<times> world" where
  "write_ballast_file_inner os cd m index sz w =
     (let name = ballast_file_name index; path = file_path m index; k = w_calls w;
          random = write_random_file os path name (sz - of_nat header_size) in
      case header_buffer cd (utc_now os k) index sz of Inl e \<Rightarrow> (Some e, w)
      | Inr buf \<Rightarrow>
         if skip_fallocate m then random buf w
         else case prealloc_error os k name sz of
             None \<Rightarrow> write_header_to_preallocated os path name sz buf (tick w)
           | Some e \<Rightarrow>
               let w1 = set_entry name (left_behind os k name) w in
               if is_storage_exhausted e then (Some e, w1) else random buf w1)"

definition create_ballast_file ::
  "storage \<Rightarrow> codec \<Rightarrow> manager \<Rightarrow> u32 \<Rightarrow> world \<Rightarrow> sbh_error option \<times> world" where
  "create_ballast_file os cd m index w =
     (let sz = file_size_bytes (bm_config m) in
      if sz < of_nat header_size then
        (Some (InvalidConfig (''file_size_bytes ('' @ show_nat (unat sz) @ '') must be >= HEADER_SIZE ('' @
           show_nat header_size @ '')'')), w)
      else case write_ballast_file_inner os cd m index sz w of
          (None, w1) \<Rightarrow> (None, w1)
        | (Some e, w1) \<Rightarrow> (Some e, snd (remove_file os (ballast_file_name index) w1)))"

subsection \<open>Provisioning and replenishment\<close>

text \<open>One round of the loops of \<open>provision\<close> and \<open>replenish_one\<close>; how it ended decides
  whether the loop goes on. The free-space closure may answer differently at every call.\<close>

datatype slot_result = SlotSkipped | SlotAborted | SlotCreated | SlotFailed | SlotExhausted

definition record_create_error ::
  "u32 \<Rightarrow> path \<Rightarrow> sbh_error \<Rightarrow> provision_report \<Rightarrow> slot_result \<times> provision_report" where
  "record_create_error index path e r =
     (let tag = ''file '' @ show_nat (unat index) @ '': '' in
      if is_storage_exhausted e
      then (SlotExhausted, r\<lparr>prov_errors := prov_errors r @ [tag @
        ''storage exhausted while creating ballast at '' @ path @
        ''; skipping remaining ballast provisioning so scanner and cleanup defenses can continue. Reduce ballast.file_count or ballast.file_size_bytes, free space, or run `sbh ballast replenish` after pressure clears: '' @
        show_error e]\<rparr>)
      else (SlotFailed, r\<lparr>prov_errors := prov_errors r @ [tag @ show_error e]\<rparr>))"

definition fill_slot ::
  "storage \<Rightarrow> codec \<Rightarrow> manager \<Rightarrow> (nat \<Rightarrow> f64) option \<Rightarrow> u32 \<Rightarrow> provision_report \<times> world \<Rightarrow>
     slot_result \<times> provision_report \<times> world" where
  "fill_slot os cd m check index st =
     (let (r, w) = st; name = ballast_file_name index in
      if path_exists w name \<and> verify_single_file cd m w index = None
      then (SlotSkipped, r\<lparr>files_skipped := files_skipped r + 1\<rparr>, w)
      else
        let w1 = (if path_exists w name then snd (remove_file os name w) else w) in
        case Option.bind check (\<lambda>free. if free (w_calls w1) < min_free_pct then Some (free (w_calls w1)) else None) of
          Some free \<Rightarrow> (SlotAborted, r\<lparr>prov_errors := prov_errors r @ [''aborted at file '' @
              show_nat (unat index) @ '': free space '' @ fmt_fixed 1 free @ ''% < 20%'']\<rparr>, w1)
        | None \<Rightarrow> (case create_ballast_file os cd m index w1 of
                (None, w2) \<Rightarrow> (SlotCreated, r\<lparr>files_created := files_created r + 1,
                   total_bytes := total_bytes r + (case metadata w2 name of Inr n \<Rightarrow> nd_len n
                     | Inl _ \<Rightarrow> file_size_bytes (bm_config m))\<rparr>, w2)
              | (Some e, w2) \<Rightarrow> (let (s, r1) = record_create_error index (file_path m index) e r in (s, r1, w2))))"

fun provision_slots ::
  "storage \<Rightarrow> codec \<Rightarrow> manager \<Rightarrow> (nat \<Rightarrow> f64) option \<Rightarrow> u32 list \<Rightarrow>
     provision_report \<times> world \<Rightarrow> provision_report \<times> world" where
  "provision_slots os cd m check [] st = st"
| "provision_slots os cd m check (i # is) st = (case fill_slot os cd m check i st of
     (s, st1) \<Rightarrow> if s = SlotAborted \<or> s = SlotExhausted then st1
       else provision_slots os cd m check is st1)"

definition provision ::
  "storage \<Rightarrow> codec \<Rightarrow> (nat \<Rightarrow> f64) option \<Rightarrow> manager \<times> world \<Rightarrow>
     (sbh_error + provision_report) \<times> manager \<times> world" where
  "provision os cd check mw = (let (m, w) = mw in case lock_error os (w_calls w) of
       Some e \<Rightarrow> (Inl e, m, w)
     | None \<Rightarrow>
        let w1 = snd (prune_orphans os m w);
            (r, w2) = provision_slots os cd m check (slots (file_count (bm_config m))) (empty_provision_report, w1)
        in (Inr r, scan_existing cd w2 m, w2))"

definition replenish ::
  "storage \<Rightarrow> codec \<Rightarrow> (nat \<Rightarrow> f64) option \<Rightarrow> manager \<times> world \<Rightarrow>
     (sbh_error + provision_report) \<times> manager \<times> world" where
  "replenish os cd check mw = provision os cd check mw"

fun replenish_slots ::
  "storage \<Rightarrow> codec \<Rightarrow> manager \<Rightarrow> (nat \<Rightarrow> f64) option \<Rightarrow> u32 list \<Rightarrow>
     provision_report \<times> world \<Rightarrow> provision_report \<times> world" where
  "replenish_slots os cd m check [] st = st"
| "replenish_slots os cd m check (i # is) st = (case fill_slot os cd m check i st of
     (s, st1) \<Rightarrow> if s = SlotAborted \<or> s = SlotExhausted \<or> s = SlotCreated then st1
       else replenish_slots os cd m check is st1)"

definition replenish_one ::
  "storage \<Rightarrow> codec \<Rightarrow> (nat \<Rightarrow> f64) option \<Rightarrow> manager \<times> world \<Rightarrow>
     (sbh_error + provision_report) \<times> manager \<times> world" where
  "replenish_one os cd check mw = (let (m, w) = mw in case lock_error os (w_calls w) of
       Some e \<Rightarrow> (Inl e, m, w)
     | None \<Rightarrow>
        let w1 = snd (prune_orphans os m w);
            (r, w2) = replenish_slots os cd m check (slots (file_count (bm_config m))) (empty_provision_report, w1)
        in (Inr r, scan_existing cd w2 m, w2))"

subsection \<open>Release\<close>

definition shell_safe_char :: "char \<Rightarrow> bool" where
  "shell_safe_char c = (let n = (of_char c :: nat) in
     (48 \<le> n \<and> n \<le> 57) \<or> (65 \<le> n \<and> n \<le> 90) \<or> (97 \<le> n \<and> n \<le> 122) \<or> c \<in> set ''/._-:@%+'')"

definition shell_quote_for_warning :: "string \<Rightarrow> string" where
  "shell_quote_for_warning v = (if v = [] then squote @ squote
     else if list_all shell_safe_char v then v
     else squote @ concat (map (\<lambda>c. if [c] = squote then squote @ [CHR 0x5C] @ squote @ squote else [c]) v) @ squote)"

definition time_machine_thin_command :: "path \<Rightarrow> string" where
  "time_machine_thin_command mount =
     ''sudo tmutil thinlocalsnapshots '' @ shell_quote_for_warning mount @ '' 9999999999999999 4''"

definition snapshot_release_warning :: "path \<Rightarrow> local_snapshot list \<Rightarrow> string" where
  "snapshot_release_warning mount snaps =
     (let retained = fold (\<lambda>b acc. sat_add acc b) (List.map_filter retained_bytes_estimate snaps) 0 in
      show_nat (length snaps) @ '' Time Machine local '' @
      (if length snaps = 1 then ''snapshot is'' else ''snapshots are'') @ '' present on '' @ mount @
      ''. macOS may retain released ballast bytes until snapshots expire or are thinned.'' @
      (if retained = 0 then [] else '' Estimated retained bytes: '' @ show_nat (unat retained) @ ''.'') @
      '' Thin manually with: '' @ time_machine_thin_command mount)"

definition snapshot_warnings :: "storage \<Rightarrow> manager \<Rightarrow> string list" where
  "snapshot_warnings os m = (case capacity_mount os (ballast_dir m) of Inl _ \<Rightarrow> []
     | Inr mount \<Rightarrow> (case snapshots os mount of Inl _ \<Rightarrow> []
       | Inr snaps \<Rightarrow> if snaps = [] then [] else [snapshot_release_warning mount snaps]))"

fun release_slots :: "storage \<Rightarrow> u32 list \<Rightarrow> release_report \<times> world \<Rightarrow> release_report \<times> world" where
  "release_slots os [] st = st"
| "release_slots os (index # is) st =
     (let (r, w) = st; name = ballast_file_name index;
          actual = (case metadata w name of Inr n \<Rightarrow> nd_len n | Inl _ \<Rightarrow> 0)
      in release_slots os is (case remove_file os name w of
           (None, w1) \<Rightarrow> (r\<lparr>files_released := files_released r + 1, bytes_freed := bytes_freed r + actual\<rparr>, w1)
         | (Some e, w1) \<Rightarrow> (r\<lparr>rel_errors := rel_errors r @
             [''failed to release file '' @ show_nat (unat index) @ '': '' @ io_text e]\<rparr>, w1)))"

definition release ::
  "storage \<Rightarrow> codec \<Rightarrow> usize \<Rightarrow> manager \<times> world \<Rightarrow> (sbh_error + release_report) \<times> manager \<times> world" where
  "release os cd count mw = (let (m, w) = mw in case lock_error os (w_calls w) of
       Some e \<Rightarrow> (Inl e, m, w)
     | None \<Rightarrow>
        let available = rev (sort (map bf_index (bm_inventory m)));
            (r, w1) = release_slots os (take (unat count) available)
              (\<lparr>files_released = 0, bytes_freed = 0, warnings = [], rel_errors = []\<rparr>, w);
            r1 = (if files_released r > 0 then r\<lparr>warnings := warnings r @ snapshot_warnings os m\<rparr> else r)
        in (Inr r1, scan_existing cd w1 m, w1))"

end
