(* ===== verification/Ballast_Run.thy ===== *)
theory Ballast_Run
  imports Ballast
begin

section \<open>What the ballast manager guarantees\<close>

text \<open>
  Names and slots, what each operation changes in the directory, the inventory, the refinement of
  \<open>release\<close> to an abstract pool of slot numbers, and provisioning on healthy storage. The
  locale \<open>ballast_pool\<close> is the contract the release controller and the coordinator rely on;
  it is interpreted here on the manager.
\<close>

subsection \<open>Names\<close>

definition ballast_prefix :: string where
  "ballast_prefix = ''SBH_BALLAST_FILE_''"

lemma ballast_name_split:
  "ballast_file_name i = ballast_prefix @ pad_left 5 (CHR ''0'') (show_nat (unat i)) @ ''.dat''"
  by (simp add: ballast_file_name_def ballast_prefix_def)

lemma ballast_name_extension: "name_extension (ballast_file_name i) = Some ''dat''"
  by (simp add: name_extension_def rsplit_once_def ballast_file_name_def)

lemma orphan_number_name [simp]: "orphan_number (ballast_file_name i) = Some i"
proof -
  let ?d = "pad_left 5 (CHR ''0'') (show_nat (unat i))"
  have n: "ballast_file_name i = ballast_prefix @ ?d @ ''.dat''" by (rule ballast_name_split)
  have "?d \<noteq> []" by (auto simp: pad_left_def show_nat_def)
  then have l: "17 + 4 < length (ballast_file_name i)" by (simp add: n ballast_prefix_def)
  have t: "take (length (ballast_file_name i) - 4 - 17) (drop 17 (ballast_file_name i)) = ?d"
    by (simp add: n ballast_prefix_def)
  have s: "starts_with (ballast_file_name i) ''SBH_BALLAST_FILE_''"
    by (simp add: ballast_file_name_def)
  show ?thesis
    unfolding orphan_number_def ballast_name_extension t using s l
    by (simp add: eq_ignore_ascii_case_def parse_word_padded)
qed

lemma ballast_name_inj [simp]: "ballast_file_name i = ballast_file_name j \<longleftrightarrow> i = j"
  by (metis option.inject orphan_number_name)

lemma starts_ballast_name: "starts_with (ballast_file_name i) ballast_prefix"
  by (simp add: ballast_file_name_def ballast_prefix_def)

lemma orphan_number_starts: "orphan_number name = Some k \<Longrightarrow> starts_with name ballast_prefix"
  by (auto simp: orphan_number_def ballast_prefix_def split: if_splits option.splits)

subsection \<open>Slots\<close>

lemma length_slots [simp]: "length (slots n) = unat n"
  by (simp add: slots_def)

lemma slots_small:
  assumes "unat n < 2 ^ 32"
  shows "sorted_wrt (<) (slots n)" "i \<in> set (slots n) \<longleftrightarrow> 1 \<le> i \<and> i \<le> ucast n"
proof -
  have u: "unat (of_nat k :: u32) = k" if "k \<le> unat n" for k
    using assms that by (intro unat_of_nat_small) simp
  have un: "unat (ucast n :: u32) = unat n" using assms by (simp add: unsigned_ucast_eq take_bit_nat_eq_self)
  show "sorted_wrt (<) (slots n)"
    unfolding slots_def sorted_wrt_map
    by (rule sorted_wrt_mono_rel [OF _ sorted_wrt_upt]) (auto simp: word_less_nat_alt u un less_imp_le)
  show "i \<in> set (slots n) \<longleftrightarrow> 1 \<le> i \<and> i \<le> ucast n"
  proof
    assume "i \<in> set (slots n)"
    then obtain k where "i = of_nat k" "1 \<le> k" "k \<le> unat n" by (auto simp: slots_def)
    then show "1 \<le> i \<and> i \<le> ucast n" by (simp add: word_le_nat_alt u un)
  next
    assume "1 \<le> i \<and> i \<le> ucast n"
    then have "unat i \<in> {1..<Suc (unat n)}" by (simp add: word_le_nat_alt un)
    then show "i \<in> set (slots n)" unfolding slots_def set_map set_upt
      by (intro image_eqI [of _ _ "unat i"]) simp_all
  qed
qed

lemma slot_not_orphan: "unat n < 2 ^ 32 \<Longrightarrow> i \<in> set (slots n) \<Longrightarrow> \<not> is_orphan n (ballast_file_name i)"
  by (auto simp: is_orphan_def slots_small not_less)

subsection \<open>What changes in the directory\<close>

definition dir_of :: "world \<Rightarrow> string \<Rightarrow> entry option" where
  "dir_of w = map_of (w_dir w)"

named_theorems dir_simps \<open>the effect of the primitive operations on the directory\<close>

lemma dir_of_set_entry [dir_simps]: "dir_of (set_entry name eo w) = (dir_of w)(name := eo)"
  by (auto simp: dir_of_def set_entry_def AList.delete_conv' update_conv' split: option.splits)

lemma dir_of_tick [dir_simps]: "dir_of (tick w) = dir_of w"
  by (simp add: dir_of_def tick_def)

lemma node_at_dir: "node_at w name = (case dir_of w name of Some (Node n) \<Rightarrow> Some n | _ \<Rightarrow> None)"
  by (simp add: node_at_def dir_of_def)

lemma metadata_dir: "metadata w name = (case dir_of w name of None \<Rightarrow> Inl not_found
     | Some (NoStat e) \<Rightarrow> Inl e | Some (Node n) \<Rightarrow> Inr n)"
  by (simp add: metadata_def dir_of_def)

lemma node_at_metadata: "node_at w name = (case metadata w name of Inl _ \<Rightarrow> None | Inr n \<Rightarrow> Some n)"
  by (simp add: node_at_dir metadata_dir split: option.splits entry.splits)

lemma remove_file_dir:
  "remove_file os name w = (r, w') \<Longrightarrow> dir_of w' = (if r = None then (dir_of w)(name := None) else dir_of w)"
  by (auto simp: remove_file_def dir_simps split: if_splits option.splits)

text \<open>Two directories agree outside a set of names.\<close>

definition same_outside :: "string set \<Rightarrow> world \<Rightarrow> world \<Rightarrow> bool" where
  "same_outside N w w' = (\<forall>n. n \<notin> N \<longrightarrow> dir_of w' n = dir_of w n)"

lemma same_outside_refl [simp]: "same_outside N w w"
  by (simp add: same_outside_def)

lemma same_outside_trans [trans]: "same_outside N u v \<Longrightarrow> same_outside N v w \<Longrightarrow> same_outside N u w"
  by (simp add: same_outside_def)

lemma same_outside_mono: "same_outside M u v \<Longrightarrow> M \<subseteq> N \<Longrightarrow> same_outside N u v"
  by (auto simp: same_outside_def)

lemma remove_file_outside: "same_outside {name} w (snd (remove_file os name w))"
  using remove_file_dir [of os name w] by (cases "remove_file os name w") (auto simp: same_outside_def)

lemma prune_entry_outside: "same_outside {n. is_orphan c n} w (prune_entry os c name w)"
  using remove_file_outside [of name w os]
  by (auto simp: prune_entry_def intro: same_outside_mono)

lemma prune_fold_outside: "same_outside {n. is_orphan c n} w (fold (prune_entry os c) names w)"
  by (induction names arbitrary: w) (auto intro: same_outside_trans prune_entry_outside)

lemma prune_orphans_outside:
  "same_outside {n. is_orphan (file_count (bm_config m)) n} w (snd (prune_orphans os m w))"
  by (auto simp: prune_orphans_def prune_fold_outside split: option.splits)

lemma write_outside:
  "same_outside {name} w (snd (write_header_to_preallocated os path name sz buf w))"
  "same_outside {name} w (snd (write_random_file os path name sz buf w))"
  by (auto simp: write_header_to_preallocated_def write_random_file_def Let_def same_outside_def dir_simps
      split: option.splits)

lemma write_inner_outside:
  "same_outside {ballast_file_name i} w (snd (write_ballast_file_inner os cd m i sz w))"
proof -
  have "same_outside {ballast_file_name i} w (tick w)"
    "same_outside {ballast_file_name i} w (set_entry (ballast_file_name i) e w)" for e
    by (simp_all add: same_outside_def dir_simps)
  then show ?thesis
    by (auto simp: write_ballast_file_inner_def Let_def write_outside split: sum.splits option.splits
        intro: same_outside_trans write_outside)
qed

lemma create_outside: "same_outside {ballast_file_name i} w (snd (create_ballast_file os cd m i w))"
  using write_inner_outside [of i w os cd m "file_size_bytes (bm_config m)"]
  by (auto simp: create_ballast_file_def Let_def split: prod.splits option.splits
      intro: same_outside_trans remove_file_outside)

lemma fill_slot_outside: "same_outside {ballast_file_name i} w (snd (snd (fill_slot os cd m check i (r, w))))"
proof -
  have rem: "same_outside {ballast_file_name i} w
      (if path_exists w (ballast_file_name i) then snd (remove_file os (ballast_file_name i) w) else w)"
    by (simp add: remove_file_outside)
  let ?w1 = "if path_exists w (ballast_file_name i) then snd (remove_file os (ballast_file_name i) w) else w"
  have cr: "same_outside {ballast_file_name i} w w2" if "create_ballast_file os cd m i ?w1 = (e, w2)" for e w2
    using same_outside_trans [OF rem create_outside [of i ?w1 os cd m]] that by simp
  show ?thesis
    unfolding fill_slot_def Let_def prod.case
    using rem cr by (auto simp: Let_def record_create_error_def split: option.splits prod.splits if_splits)
qed

lemma fill_slot_in:
  "i \<in> set S \<Longrightarrow> fill_slot os cd m check i (r, w) = (s, r1, w1) \<Longrightarrow> same_outside (ballast_file_name ` set S) w w1"
  using fill_slot_outside [of i w os cd m check r] by (auto intro: same_outside_mono)

lemma provision_slots_outside:
  "set is \<subseteq> set S \<Longrightarrow> same_outside (ballast_file_name ` set S) w (snd (provision_slots os cd m check is (r, w)))"
proof (induction "is" arbitrary: r w)
  case (Cons i "is")
  obtain s r1 w1 where f: "fill_slot os cd m check i (r, w) = (s, r1, w1)" by (metis prod.exhaust)
  then have "same_outside (ballast_file_name ` set S) w w1" using Cons.prems by (auto intro: fill_slot_in)
  then show ?case using Cons by (auto simp: f intro: same_outside_trans)
qed simp

lemma replenish_slots_outside:
  "set is \<subseteq> set S \<Longrightarrow> same_outside (ballast_file_name ` set S) w (snd (replenish_slots os cd m check is (r, w)))"
proof (induction "is" arbitrary: r w)
  case (Cons i "is")
  obtain s r1 w1 where f: "fill_slot os cd m check i (r, w) = (s, r1, w1)" by (metis prod.exhaust)
  then have "same_outside (ballast_file_name ` set S) w w1" using Cons.prems by (auto intro: fill_slot_in)
  then show ?case using Cons by (auto simp: f intro: same_outside_trans)
qed simp

lemma release_slots_outside:
  "set is \<subseteq> set S \<Longrightarrow> same_outside (ballast_file_name ` set S) w (snd (release_slots os is (r, w)))"
proof (induction "is" arbitrary: r w)
  case (Cons i "is")
  obtain e w1 where f: "remove_file os (ballast_file_name i) w = (e, w1)" by (metis prod.exhaust)
  have w1: "same_outside (ballast_file_name ` set S) w w1"
    using remove_file_outside [of "ballast_file_name i" w os] f Cons.prems by (auto intro: same_outside_mono)
  then show ?case using Cons
    by (cases e) (auto simp: f Let_def intro: same_outside_trans [OF w1])
qed simp

subsection \<open>The inventory\<close>

lemma subseq_subset: "subseq xs ys \<Longrightarrow> set xs \<subseteq> set ys"
  by (metis subseq_order.trans subseq_singleton_left subsetI)

definition present :: "manager \<Rightarrow> world \<Rightarrow> u32 list" where
  "present m w = filter (\<lambda>i. path_exists w (ballast_file_name i)) (slots (file_count (bm_config m)))"

definition inventory_ok :: "manager \<Rightarrow> bool" where
  "inventory_ok m = (subseq (map bf_index (bm_inventory m)) (slots (file_count (bm_config m))) \<and>
     (\<forall>f \<in> set (bm_inventory m). bf_path f = file_path m (bf_index f)))"

lemma scan_keeps [simp]: "bm_config (scan_existing cd w m) = bm_config m"
  "ballast_dir (scan_existing cd w m) = ballast_dir m" "present (scan_existing cd w m) w = present m w"
  by (simp_all add: scan_existing_def present_def)

lemma scan_slot_simps: "scan_slot cd m w i = None \<longleftrightarrow> \<not> path_exists w (ballast_file_name i)"
  "scan_slot cd m w i = Some f \<Longrightarrow> bf_index f = i \<and> bf_path f = file_path m i \<and>
     integrity_ok f = (verify_single_file cd m w i = None) \<and> path_exists w (ballast_file_name i)"
  by (auto simp: scan_slot_def path_exists_def split: option.splits)

lemma scan_indices: "map bf_index (bm_inventory (scan_existing cd w m)) = present m w"
proof -
  have "map bf_index (List.map_filter (scan_slot cd m w) is) =
      filter (\<lambda>i. path_exists w (ballast_file_name i)) is" for "is"
    by (induction "is") (auto simp: scan_slot_simps(1) dest: scan_slot_simps(2) split: option.splits)
  then show ?thesis by (simp add: scan_existing_def present_def)
qed

lemma file_path_scan: "file_path (scan_existing cd w m) i = file_path m i"
  by (simp add: file_path_def)

lemma scan_slot_inventory [simp]: "scan_slot cd (m\<lparr>bm_inventory := x\<rparr>) w = scan_slot cd m w"
proof (rule ext)
  have "file_path (m\<lparr>bm_inventory := x\<rparr>) i = file_path m i"
    "verify_single_file cd (m\<lparr>bm_inventory := x\<rparr>) w i = verify_single_file cd m w i" for i
    by (simp_all add: file_path_def verify_single_file_def)
  then show "scan_slot cd (m\<lparr>bm_inventory := x\<rparr>) w i = scan_slot cd m w i" for i by (simp add: scan_slot_def split: option.split)
qed

lemma scan_idem [simp]: "scan_existing cd w (scan_existing cd w m) = scan_existing cd w m"
  by (simp add: scan_existing_def)

lemma scan_inventory_ok: "inventory_ok (scan_existing cd w m)"
proof -
  have "\<forall>f \<in> set (List.map_filter (scan_slot cd m w) is). bf_path f = file_path m (bf_index f)" for "is"
    by (induction "is") (auto dest: scan_slot_simps(2) split: option.splits)
  then show ?thesis
    unfolding inventory_ok_def scan_indices file_path_scan
    by (simp add: present_def subseq_filter_left) (simp add: scan_existing_def)
qed

subsection \<open>Operations and outside changes\<close>

datatype pool_op = Provision "(nat \<Rightarrow> f64) option" | ReplenishOne "(nat \<Rightarrow> f64) option"
  | ReleaseFiles usize | Reconfigure ballast_config

fun pool_step :: "storage \<Rightarrow> codec \<Rightarrow> pool_op \<Rightarrow> manager \<times> world \<Rightarrow> manager \<times> world" where
  "pool_step os cd (Provision check) mw = snd (provision os cd check mw)"
| "pool_step os cd (ReplenishOne check) mw = snd (replenish_one os cd check mw)"
| "pool_step os cd (ReleaseFiles n) mw = snd (release os cd n mw)"
| "pool_step os cd (Reconfigure cfg) mw = ballast_update_config os cd cfg mw"

inductive pool_reach :: "storage \<Rightarrow> codec \<Rightarrow> manager \<times> world \<Rightarrow> bool" for os cd where
  start: "with_platform os cd dir cfg w = (Inr m, w') \<Longrightarrow> pool_reach os cd (m, w')"
| operation: "pool_reach os cd mw \<Longrightarrow> pool_reach os cd (pool_step os cd op mw)"
| outside: "pool_reach os cd (m, w) \<Longrightarrow> pool_reach os cd (m, w')"

lemma pool_step_inventory: "inventory_ok (fst mw) \<Longrightarrow> inventory_ok (fst (pool_step os cd op mw))"
  by (cases op) (auto simp: provision_def replenish_one_def release_def ballast_update_config_def Let_def
      scan_inventory_ok split: prod.splits option.splits)

lemma pool_reach_inventory: "pool_reach os cd mw \<Longrightarrow> inventory_ok (fst mw)"
proof (induction rule: pool_reach.induct)
  case (start dir cfg w m w')
  then show ?case by (auto simp: with_platform_def Let_def scan_inventory_ok split: option.splits)
qed (auto intro: pool_step_inventory)

text \<open>The names an operation may touch: the slots and the orphans of the configuration in force.\<close>

definition own_names :: "usize \<Rightarrow> string set" where
  "own_names count = ballast_file_name ` set (slots count) \<union>
     {n. \<exists>k. orphan_number n = Some k \<and> \<not> (1 \<le> k \<and> k \<le> ucast count)}"

lemma orphan_own: "is_orphan c n \<Longrightarrow> n \<in> own_names c"
  by (auto simp: own_names_def is_orphan_def split: option.splits)

lemma own_names_prefix: "n \<in> own_names c \<Longrightarrow> starts_with n ballast_prefix"
  by (auto simp: own_names_def orphan_number_starts starts_ballast_name)

lemma prune_own: "same_outside (own_names (file_count (bm_config m))) w (snd (prune_orphans os m w))"
  by (rule same_outside_mono [OF prune_orphans_outside]) (auto intro: orphan_own)

lemma pool_step_confined:
  assumes "inventory_ok m" and "pool_step os cd op (m, w) = (m', w')"
  shows "same_outside (own_names (file_count (bm_config m'))) w w'"
proof (cases op)
  case (ReleaseFiles n)
  let ?is = "take (unat n) (rev (sort (map bf_index (bm_inventory m))))"
  have "set (map bf_index (bm_inventory m)) \<subseteq> set (slots (file_count (bm_config m)))"
    using assms(1) by (intro subseq_subset) (simp only: inventory_ok_def)
  moreover have "set ?is \<subseteq> set (map bf_index (bm_inventory m))"
    using set_take_subset [of "unat n" "rev (sort (map bf_index (bm_inventory m)))"] by simp
  ultimately have "set ?is \<subseteq> set (slots (file_count (bm_config m)))" by simp
  then have out: "same_outside (own_names (file_count (bm_config m))) w w1"
    if "release_slots os ?is (r, w) = (r1, w1)" for r r1 w1
    using release_slots_outside [of ?is "slots (file_count (bm_config m))" w os r] that
    by (auto simp: own_names_def intro: same_outside_mono)
  show ?thesis using assms(2) ReleaseFiles
    by (auto simp: release_def Let_def out split: option.splits prod.splits)
next
  case (Provision check)
  show ?thesis
  proof (cases "lock_error os (w_calls w)")
    case None
    let ?w1 = "snd (prune_orphans os m w)"
    have "same_outside (own_names (file_count (bm_config m))) ?w1
        (snd (provision_slots os cd m check (slots (file_count (bm_config m))) (empty_provision_report, ?w1)))"
      by (rule same_outside_mono [OF provision_slots_outside]) (auto simp: own_names_def)
    then show ?thesis using None assms(2) Provision same_outside_trans [OF prune_own]
      by (auto simp: provision_def Let_def split: prod.splits)
  qed (use assms(2) Provision in \<open>auto simp: provision_def\<close>)
next
  case (ReplenishOne check)
  show ?thesis
  proof (cases "lock_error os (w_calls w)")
    case None
    let ?w1 = "snd (prune_orphans os m w)"
    have "same_outside (own_names (file_count (bm_config m))) ?w1
        (snd (replenish_slots os cd m check (slots (file_count (bm_config m))) (empty_provision_report, ?w1)))"
      by (rule same_outside_mono [OF replenish_slots_outside]) (auto simp: own_names_def)
    then show ?thesis using None assms(2) ReplenishOne same_outside_trans [OF prune_own]
      by (auto simp: replenish_one_def Let_def split: prod.splits)
  qed (use assms(2) ReplenishOne in \<open>auto simp: replenish_one_def\<close>)
next
  case (Reconfigure cfg)
  then show ?thesis using assms(2) prune_own [of "m\<lparr>bm_config := cfg\<rparr>" w os]
    by (auto simp: ballast_update_config_def Let_def)
qed


subsection \<open>Release refines dropping the highest slots\<close>

definition slot_len :: "world \<Rightarrow> u32 \<Rightarrow> u64" where
  "slot_len w i = (case metadata w (ballast_file_name i) of Inr n \<Rightarrow> nd_len n | Inl _ \<Rightarrow> 0)"

lemma path_exists_dir: "path_exists w n \<longleftrightarrow> (\<exists>nd. dir_of w n = Some (Node nd))"
  by (auto simp: path_exists_def node_at_dir split: option.splits entry.splits)

lemma slot_len_cong: "dir_of w' (ballast_file_name i) = dir_of w (ballast_file_name i) \<Longrightarrow> slot_len w' i = slot_len w i"
  by (simp add: slot_len_def metadata_dir)

text \<open>Which files go is a set of the slots asked for, and the report counts it exactly.\<close>

lemma release_slots_effect:
  assumes "release_slots os is (r, w) = (r', w')" "distinct is"
    "\<forall>i \<in> set is. path_exists w (ballast_file_name i)"
  shows "\<exists>R \<subseteq> set is. (\<forall>n. dir_of w' n = (if n \<in> ballast_file_name ` R then None else dir_of w n)) \<and>
    files_released r' = files_released r + of_nat (card R) \<and>
    bytes_freed r' = bytes_freed r + (\<Sum>i\<in>R. slot_len w i) \<and>
    length (rel_errors r') = length (rel_errors r) + (length is - card R) \<and>
    ((\<forall>k n. remove_error os k n = None) \<longrightarrow> R = set is)"
  using assms
proof (induction "is" arbitrary: r w)
  case (Cons i "is")
  let ?n = "ballast_file_name i"
  obtain e w1 where f: "remove_file os ?n w = (e, w1)" by (metis prod.exhaust)
  have ex: "map_of (w_dir w) ?n \<noteq> None" using Cons.prems(3) by (auto simp: path_exists_dir dir_of_def)
  have d1: "dir_of w1 = (if e = None then (dir_of w)(?n := None) else dir_of w)" by (rule remove_file_dir [OF f])
  have ne: "e = None" if "\<forall>k n. remove_error os k n = None"
    using f ex that by (auto simp: remove_file_def split: if_splits)
  have len: "slot_len w1 j = slot_len w j" if "j \<in> set is" for j
    using Cons.prems(2) that by (intro slot_len_cong) (auto simp: d1)
  have pe: "\<forall>j \<in> set is. path_exists w1 (ballast_file_name j)"
    using Cons.prems(2,3) by (auto simp: path_exists_dir d1)
  obtain r1 where rec: "release_slots os is (r1, w1) = (r', w')" and
    r1: "files_released r1 = files_released r + of_bool (e = None)"
      "bytes_freed r1 = bytes_freed r + (if e = None then slot_len w i else 0)"
      "length (rel_errors r1) = length (rel_errors r) + of_bool (e \<noteq> None)"
  proof (cases e)
    case None
    then show ?thesis using Cons.prems(1)
      by (intro that [of "r\<lparr>files_released := files_released r + 1, bytes_freed := bytes_freed r + slot_len w i\<rparr>"])
         (auto simp: f Let_def slot_len_def)
  next
    case (Some x)
    then show ?thesis using Cons.prems(1)
      by (intro that [of "r\<lparr>rel_errors := rel_errors r @ [''failed to release file '' @ show_nat (unat i) @ '': '' @ io_text x]\<rparr>"])
         (auto simp: f Let_def)
  qed
  obtain R where R: "R \<subseteq> set is" "\<forall>n. dir_of w' n = (if n \<in> ballast_file_name ` R then None else dir_of w1 n)"
    "files_released r' = files_released r1 + of_nat (card R)"
    "bytes_freed r' = bytes_freed r1 + (\<Sum>j\<in>R. slot_len w1 j)"
    "length (rel_errors r') = length (rel_errors r1) + (length is - card R)"
    "(\<forall>k n. remove_error os k n = None) \<longrightarrow> R = set is"
    using Cons.IH [OF rec _ pe] Cons.prems(2) by (auto simp del: path_exists_def)
  have fin: "finite R" "i \<notin> R" "card R \<le> length is"
    using R(1) Cons.prems(2) finite_subset [OF R(1)] card_mono [OF _ R(1)] card_length [of "is"] by auto
  have sum: "(\<Sum>j\<in>R. slot_len w1 j) = (\<Sum>j\<in>R. slot_len w j)" using R(1) len by (intro sum.cong) auto
  show ?case
  proof (cases "e = None")
    case True
    then show ?thesis using R r1 fin sum by (intro exI [of _ "insert i R"]) (auto simp: d1)
  next
    case False
    then show ?thesis using R r1 fin sum ne by (intro exI [of _ R]) (auto simp: d1 Suc_diff_le)
  qed
qed (auto intro!: exI [of _ "{}"])

definition fresh :: "codec \<Rightarrow> manager \<times> world \<Rightarrow> bool" where
  "fresh cd mw = (fst mw = scan_existing cd (snd mw) (fst mw) \<and> unat (file_count (bm_config (fst mw))) < 2 ^ 32)"

lemma present_props:
  assumes "unat (file_count (bm_config m)) < 2 ^ 32"
  shows "sorted (present m w)" "distinct (present m w)" "length (present m w) < 2 ^ 32"
proof -
  have s: "sorted_wrt (<) (slots (file_count (bm_config m)))" by (rule slots_small [OF assms])
  show "sorted (present m w)" "distinct (present m w)"
    using s by (auto simp: present_def strict_sorted_iff sorted_wrt_filter)
  have "length (present m w) \<le> length (slots (file_count (bm_config m)))"
    unfolding present_def by (rule length_filter_le)
  then show "length (present m w) < 2 ^ 32" using assms by simp
qed

lemma fresh_indices: "fresh cd (m, w) \<Longrightarrow> map bf_index (bm_inventory m) = present m w"
  using scan_indices [of cd w m] by (simp add: fresh_def)

text \<open>The abstract pool is the list of the slots whose files exist, in order.\<close>

definition drop_highest :: "nat \<Rightarrow> u32 list \<Rightarrow> u32 list" where
  "drop_highest n is = take (length is - n) is"

lemma release_slots_refine:
  assumes "fresh cd (m, w)" and "release os cd n (m, w) = (Inr r, m', w')"
  shows "fresh cd (m', w') \<and> (\<exists>R. R \<subseteq> set (drop (length (present m w) - unat n) (present m w)) \<and>
    present m' w' = filter (\<lambda>i. i \<notin> R) (present m w) \<and> unat (files_released r) = card R \<and>
    bytes_freed r = (\<Sum>i\<in>R. slot_len w i) \<and>
    ((\<forall>k f. remove_error os k f = None) \<longrightarrow> present m' w' = drop_highest (unat n) (present m w) \<and>
       unat (files_released r) = min (unat n) (length (present m w)) \<and> rel_errors r = []))"
proof -
  let ?p = "present m w"
  have small: "unat (file_count (bm_config m)) < 2 ^ 32" using assms(1) by (simp add: fresh_def)
  note pp = present_props [OF small, of w]
  have is_eq: "take (unat n) (rev (sort (map bf_index (bm_inventory m)))) = rev (drop (length ?p - unat n) ?p)"
    using pp(1) by (simp add: fresh_indices [OF assms(1)] sorted_sort_id take_rev)
  obtain r1 where loop: "release_slots os (rev (drop (length ?p - unat n) ?p))
      (\<lparr>files_released = 0, bytes_freed = 0, warnings = [], rel_errors = []\<rparr>, w) = (r1, w')"
    and r: "files_released r = files_released r1" "bytes_freed r = bytes_freed r1" "rel_errors r = rel_errors r1"
    and m': "m' = scan_existing cd w' m"
    using assms(2) unfolding release_def Let_def is_eq prod.case
    by (auto split: option.splits prod.splits if_splits)
  have ex: "\<forall>i \<in> set (rev (drop (length ?p - unat n) ?p)). path_exists w (ballast_file_name i)"
    by (auto dest!: in_set_dropD simp: present_def)
  obtain R where R: "R \<subseteq> set (drop (length ?p - unat n) ?p)"
    "\<forall>nm. dir_of w' nm = (if nm \<in> ballast_file_name ` R then None else dir_of w nm)"
    "files_released r1 = of_nat (card R)" "bytes_freed r1 = (\<Sum>i\<in>R. slot_len w i)"
    "length (rel_errors r1) = length (drop (length ?p - unat n) ?p) - card R"
    "(\<forall>k n. remove_error os k n = None) \<longrightarrow> R = set (drop (length ?p - unat n) ?p)"
    using release_slots_effect [OF loop _ ex] pp(2) by auto
  have pres: "present m' w' = filter (\<lambda>i. i \<notin> R) ?p"
    using R(2) by (auto simp: m' present_def path_exists_dir image_iff intro!: filter_cong)
  have card: "card R \<le> length (drop (length ?p - unat n) ?p)"
    using card_mono [OF _ R(1)] card_length [of "drop (length ?p - unat n) ?p"] by simp
  then have u: "unat (files_released r) = card R"
    using pp(3) unfolding r R(3) by (intro unat_of_nat_small) simp
  have full: "present m' w' = drop_highest (unat n) ?p \<and> unat (files_released r) = min (unat n) (length ?p) \<and>
      rel_errors r = []" if "\<forall>k f. remove_error os k f = None"
  proof -
    have Rd: "R = set (drop (length ?p - unat n) ?p)" using R(6) that by blast
    have dj: "set (take (length ?p - unat n) ?p) \<inter> set (drop (length ?p - unat n) ?p) = {}"
      using pp(2) by (simp add: set_take_disj_set_drop_if_distinct)
    have "filter (\<lambda>i. i \<notin> R) (take (length ?p - unat n) ?p @ drop (length ?p - unat n) ?p) =
        take (length ?p - unat n) ?p"
      using dj unfolding Rd filter_append by (auto simp: filter_empty_conv intro!: filter_True)
    moreover have "card R = min (unat n) (length ?p)"
      using pp(2) by (simp add: Rd distinct_card min_def)
    ultimately show ?thesis using pres u R(5) r(3) by (auto simp: drop_highest_def)
  qed
  have "fresh cd (m', w')" using small by (simp add: fresh_def m')
  moreover have "bytes_freed r = (\<Sum>i\<in>R. slot_len w i)" using R(4) r(2) by simp
  ultimately show ?thesis using R(1) pres u full by (intro conjI exI [of _ R] impI) simp_all
qed

text \<open>C19: releasing refines the abstract pool operation. Whatever removals fail, the
  files that disappear are exactly those the report counts, they are among the highest-numbered
  slots asked for, every other file stays, the bytes reported are the sum of their
  lengths, and the new inventory is what is left on disk; when no removal fails,
  the pool is left without exactly its highest slots.\<close>

theorem release_refines:
  assumes "fresh cd (m, w)" and "release os cd n (m, w) = (Inr r, m', w')"
  shows "fresh cd (m', w') \<and> (\<exists>R. R \<subseteq> set (drop (length (present m w) - unat n) (present m w)) \<and>
    present m' w' = filter (\<lambda>i. i \<notin> R) (present m w) \<and> unat (files_released r) = card R \<and>
    bytes_freed r = (\<Sum>i\<in>R. slot_len w i) \<and>
    ((\<forall>k f. remove_error os k f = None) \<longrightarrow> present m' w' = drop_highest (unat n) (present m w) \<and>
       unat (files_released r) = min (unat n) (length (present m w)) \<and> rel_errors r = []))"
  using assms by (rule release_slots_refine)

subsection \<open>The contract of a pool\<close>

text \<open>
  What the release controller and the coordinator use of a pool: how many files it holds and a
  release operation that says how many went. \<open>reach_target\<close> is the controller's rule: release
  what is missing to a cumulative target, counting files already gone.
\<close>

locale ballast_pool =
  fixes ok :: "'m \<Rightarrow> bool"
    and avail :: "'m \<Rightarrow> nat"
    and rel :: "nat \<Rightarrow> 'm \<Rightarrow> nat \<times> 'm"
  assumes rel_ok: "ok m \<Longrightarrow> ok (snd (rel n m))"
    and rel_count: "ok m \<Longrightarrow> avail (snd (rel n m)) + fst (rel n m) = avail m"
    and rel_le: "ok m \<Longrightarrow> fst (rel n m) \<le> n"
begin

definition reach_target :: "nat \<Rightarrow> nat \<Rightarrow> 'm \<Rightarrow> 'm" where
  "reach_target whole target m = snd (rel (min (target - (whole - avail m)) (avail m)) m)"

lemma reach_ok: "ok m \<Longrightarrow> ok (reach_target whole target m)"
  by (simp add: reach_target_def rel_ok)

lemma reach_antimono: "ok m \<Longrightarrow> avail (reach_target whole target m) \<le> avail m"
  using rel_count [of m "min (target - (whole - avail m)) (avail m)"] by (simp add: reach_target_def)

lemma reach_no_overshoot:
  assumes "ok m" "avail m \<le> whole"
  shows "whole - avail (reach_target whole target m) \<le> max target (whole - avail m)"
proof -
  let ?r = "rel (min (target - (whole - avail m)) (avail m)) m"
  have "avail (snd ?r) + fst ?r = avail m" by (rule rel_count [OF assms(1)])
  moreover have "fst ?r \<le> target - (whole - avail m)" using rel_le [OF assms(1)] by (rule order.trans) simp
  ultimately show ?thesis using assms(2) unfolding reach_target_def by linarith
qed

lemma reach_fold_no_overshoot:
  assumes "ok m" "avail m \<le> whole" "\<forall>t \<in> set ts. t \<le> bound" "whole - avail m \<le> bound"
  shows "ok (fold (reach_target whole) ts m) \<and> avail (fold (reach_target whole) ts m) \<le> avail m \<and>
    whole - avail (fold (reach_target whole) ts m) \<le> bound"
  using assms
proof (induction ts arbitrary: m)
  case (Cons t ts)
  have "whole - avail (reach_target whole t m) \<le> bound"
    using reach_no_overshoot [of m whole t] Cons.prems by fastforce
  moreover have "avail (reach_target whole t m) \<le> avail m" "ok (reach_target whole t m)"
    using reach_antimono reach_ok Cons.prems(1) by blast+
  ultimately show ?case using Cons.IH [of "reach_target whole t m"] Cons.prems by fastforce
qed simp

end

definition pool_release :: "storage \<Rightarrow> codec \<Rightarrow> nat \<Rightarrow> manager \<times> world \<Rightarrow> nat \<times> manager \<times> world" where
  "pool_release os cd n mw = (case release os cd (of_nat n) mw of
     (Inr r, mw') \<Rightarrow> (unat (files_released r), mw') | (Inl _, mw') \<Rightarrow> (0, mw'))"

lemma release_error: "release os cd n (m, w) = (Inl e, mw') \<Longrightarrow> mw' = (m, w)"
  by (auto simp: release_def Let_def split: option.splits prod.splits)

lemma release_counts:
  assumes "fresh cd (m, w)" "release os cd n (m, w) = (Inr r, m', w')"
  shows "length (bm_inventory m') + unat (files_released r) = length (bm_inventory m)"
    "unat (files_released r) \<le> unat n" "fresh cd (m', w')"
proof -
  obtain R where R: "R \<subseteq> set (drop (length (present m w) - unat n) (present m w))"
    "present m' w' = filter (\<lambda>i. i \<notin> R) (present m w)" "unat (files_released r) = card R"
    and f: "fresh cd (m', w')"
    using release_slots_refine [OF assms] by blast
  have len: "length (bm_inventory m) = length (present m w)" "length (bm_inventory m') = length (present m' w')"
    using fresh_indices [OF assms(1)] fresh_indices [OF f] by (metis length_map)+
  have d: "distinct (present m w)" using assms(1) present_props(2) by (auto simp: fresh_def)
  have sub: "R \<subseteq> set (present m w)" using R(1) set_drop_subset by fastforce
  have "{x \<in> set (present m w). x \<in> R} = R" using sub by auto
  then have "length (filter (\<lambda>i. i \<in> R) (present m w)) = card R"
    using distinct_card [OF distinct_filter [OF d, of "\<lambda>i. i \<in> R"]] by simp
  then show "length (bm_inventory m') + unat (files_released r) = length (bm_inventory m)"
    using sum_length_filter_compl [of "\<lambda>i. i \<in> R" "present m w"] by (simp add: len R)
  show "unat (files_released r) \<le> unat n"
    using card_mono [OF _ R(1)] card_length [of "drop (length (present m w) - unat n) (present m w)"] R(3) by simp
  show "fresh cd (m', w')" by (rule f)
qed

interpretation pool: ballast_pool "fresh cd" "\<lambda>mw. length (bm_inventory (fst mw))" "pool_release os cd" for os cd
proof
  fix mw :: "manager \<times> world" and n :: nat
  assume "fresh cd mw"
  moreover obtain m w where mw: "mw = (m, w)" by fastforce
  moreover obtain x m' w' where r: "release os cd (of_nat n) (m, w) = (x, m', w')" by (metis prod.exhaust)
  moreover have "unat (of_nat n :: usize) \<le> n" by (simp add: unat_of_nat)
  ultimately show "fresh cd (snd (pool_release os cd n mw))"
    "length (bm_inventory (fst (snd (pool_release os cd n mw)))) + fst (pool_release os cd n mw) =
       length (bm_inventory (fst mw))"
    "fst (pool_release os cd n mw) \<le> n"
    using release_counts [of cd m w os "of_nat n" _ m' w'] release_error [of os cd "of_nat n" m w]
    by (cases x; fastforce simp: pool_release_def)+
qed

subsection \<open>Provisioning\<close>

text \<open>The write plan: it covers the file exactly, in chunks of at most 4 MB.\<close>

lemma chunk_plan_sum: "written \<le> d \<Longrightarrow> sum_list (map op_bytes (chunk_plan d written since)) = d - written"
proof (induction d written since rule: chunk_plan.induct)
  case (1 d written since)
  show ?case
  proof (cases "written < d")
    case True
    let ?t = "if d - written > chunk_size then chunk_size else d - written"
    note st = chunk_step [OF True refl]
    have le: "written + ?t \<le> d" using st(3) by (simp add: word_le_nat_alt)
    have "sum_list (map op_bytes (chunk_plan d written since)) = ?t + (d - (written + ?t))"
    proof (cases "since + ?t \<ge> fsync_every_bytes")
      case True
      have "sum_list (map op_bytes (chunk_plan d (written + ?t) 0)) = d - (written + ?t)"
        using "1.IH"(1) [OF \<open>written < d\<close> refl refl refl True] le by simp
      then show ?thesis using \<open>written < d\<close> True
        by (subst chunk_plan.simps) (simp add: Let_def op_bytes_def)
    next
      case False
      have "sum_list (map op_bytes (chunk_plan d (written + ?t) (since + ?t))) = d - (written + ?t)"
        using "1.IH"(2) [OF \<open>written < d\<close> refl refl refl False] le by simp
      then show ?thesis using \<open>written < d\<close> False
        by (subst chunk_plan.simps) (simp add: Let_def op_bytes_def)
    qed
    then show ?thesis by simp
  next
    case False
    then show ?thesis using "1.prems" by (subst chunk_plan.simps) auto
  qed
qed

text \<open>
  What provisioning relies on, as named hypotheses: no call fails for good (a preallocation may be
  refused for other reasons than a full disk), written files get blocks for their length, and the
  codec reads back the headers it writes, which fit the header block and hold no zero byte.
\<close>

definition healthy :: "storage \<Rightarrow> codec \<Rightarrow> bool" where
  "healthy os cd = ((\<forall>k. lock_error os k = None) \<and> (\<forall>k n. remove_error os k n = None) \<and>
     (\<forall>k n. header_write_error os k n = None \<and> data_write_error os k n = None) \<and>
     (\<forall>k n s e. prealloc_error os k n s = Some e \<longrightarrow> \<not> is_storage_exhausted e) \<and>
     (\<forall>k n s. s \<le> 2 ^ 62 \<longrightarrow> (\<exists>b. block_count os k n s = Inr b \<and> unat b * 512 < 2 ^ 64 \<and> s \<le> b * 512)) \<and>
     (\<forall>k i s. \<exists>j. header_json cd (header_new (utc_now os k) i s) = Inr j \<and> length j \<le> header_size \<and>
        CHR 0x00 \<notin> set j \<and> valid_utf8 (map of_char j) \<and>
        parse_header cd j = Inr (header_new (utc_now os k) i s)))"

lemma healthy_buffer:
  assumes "healthy os cd"
  obtains buf where "header_buffer cd (utc_now os k) i s = Inr buf" "length buf = header_size"
    "verify_header cd s i buf = None"
proof -
  obtain j where j: "header_json cd (header_new (utc_now os k) i s) = Inr j" "length j \<le> header_size"
    "CHR 0x00 \<notin> set j" "valid_utf8 (map of_char j)" "parse_header cd j = Inr (header_new (utc_now os k) i s)"
    using assms unfolding healthy_def by metis
  let ?b = "j @ replicate (header_size - length j) (CHR 0x00)"
  have "takeWhile (\<lambda>b. b \<noteq> CHR 0x00) ?b = j"
    using j(3) by (subst takeWhile_append2) (auto simp: takeWhile_replicate)
  moreover have "length ?b = header_size" using j(2) by simp
  ultimately have "verify_header cd s i ?b = None"
    using j(4,5) by (simp add: verify_header_def Let_def header_valid_def header_new_def)
  then show ?thesis using j(1,2) that [of ?b] by (simp add: header_buffer_def)
qed

lemma verify_cong:
  "dir_of w' (ballast_file_name i) = dir_of w (ballast_file_name i) \<Longrightarrow>
     verify_single_file cd m w' i = verify_single_file cd m w i"
  by (simp add: verify_single_file_def metadata_dir)

lemma verify_exists: "verify_single_file cd m w i = None \<Longrightarrow> path_exists w (ballast_file_name i)"
  by (auto simp: verify_single_file_def Let_def path_exists_dir metadata_dir split: option.splits entry.splits)

lemma create_healthy:
  assumes "healthy os cd" "of_nat header_size \<le> file_size_bytes (bm_config m)" "file_size_bytes (bm_config m) \<le> 2 ^ 62"
  shows "\<exists>w'. create_ballast_file os cd m i w = (None, w') \<and> verify_single_file cd m w' i = None"
proof -
  let ?s = "file_size_bytes (bm_config m)" and ?n = "ballast_file_name i"
  obtain buf where buf: "header_buffer cd (utc_now os (w_calls w)) i ?s = Inr buf" "length buf = header_size"
    "verify_header cd ?s i buf = None" by (rule healthy_buffer [OF assms(1)])
  have len: "of_nat header_size + sum_list (map op_bytes (chunk_plan (?s - of_nat header_size) 0 0)) = ?s"
    by (simp add: chunk_plan_sum)
  have blocks: "\<exists>b. block_count os k ?n ?s = Inr b \<and> unat b * 512 < 2 ^ 64 \<and> ?s \<le> b * 512" for k
    using assms(1,3) by (simp add: healthy_def)
  have ver: "verify_single_file cd m (set_entry ?n (Some (Node (written_node os k ?n ?s buf))) v) i = None" for k v
    using blocks [of k] buf(2,3)
    by (auto simp: verify_single_file_def metadata_dir dir_simps written_node_def verify_blocks_def Let_def)
  have noerr: "header_write_error os k x = None" "data_write_error os k x = None"
    "prealloc_error os k x z = Some e \<Longrightarrow> \<not> is_storage_exhausted e" for k x z e
    using assms(1) by (auto simp: healthy_def)
  have hdr: "write_header_to_preallocated os p ?n ?s buf v =
      (None, set_entry ?n (Some (Node (written_node os (w_calls v) ?n ?s buf))) v)" for p v
    by (simp add: write_header_to_preallocated_def noerr Let_def)
  have rnd: "write_random_file os p ?n (?s - of_nat header_size) buf v =
      (None, set_entry ?n (Some (Node (written_node os (w_calls v) ?n ?s buf))) v)" for p v
    using len buf(2) by (simp add: write_random_file_def noerr Let_def)
  have "\<exists>w'. write_ballast_file_inner os cd m i ?s w = (None, w') \<and> verify_single_file cd m w' i = None"
    using ver noerr(3)
    by (auto simp: write_ballast_file_inner_def buf(1) hdr rnd Let_def split: option.splits)
  then show ?thesis using assms(2) by (auto simp: create_ballast_file_def Let_def not_less)
qed

definition space_ok :: "(nat \<Rightarrow> f64) option \<Rightarrow> bool" where
  "space_ok check = (\<forall>free. check = Some free \<longrightarrow> (\<forall>k. \<not> free k < min_free_pct))"

lemma fill_slot_healthy:
  assumes "healthy os cd" "of_nat header_size \<le> file_size_bytes (bm_config m)"
    "file_size_bytes (bm_config m) \<le> 2 ^ 62" "space_ok check"
  shows "\<exists>s r' w'. fill_slot os cd m check i (r, w) = (s, r', w') \<and> verify_single_file cd m w' i = None \<and>
    prov_errors r' = prov_errors r \<and> files_created r' + files_skipped r' = files_created r + files_skipped r + 1 \<and>
    (s = SlotCreated \<or> s = SlotSkipped) \<and> (verify_single_file cd m w i = None \<longrightarrow> s = SlotSkipped \<and> files_created r' = files_created r)"
proof (cases "verify_single_file cd m w i = None")
  case True
  then show ?thesis using verify_exists [OF True] by (auto simp: fill_slot_def Let_def)
next
  case False
  let ?w1 = "if path_exists w (ballast_file_name i) then snd (remove_file os (ballast_file_name i) w) else w"
  obtain w' where "create_ballast_file os cd m i ?w1 = (None, w')" "verify_single_file cd m w' i = None"
    using create_healthy [OF assms(1-3), of i ?w1] by blast
  moreover have "Option.bind check (\<lambda>free. if free (w_calls ?w1) < min_free_pct then Some (free (w_calls ?w1)) else None) = None"
    using assms(4) by (cases check) (auto simp: space_ok_def)
  ultimately show ?thesis using False unfolding fill_slot_def Let_def prod.case by auto
qed

lemma provision_slots_healthy:
  assumes "healthy os cd" "of_nat header_size \<le> file_size_bytes (bm_config m)"
    "file_size_bytes (bm_config m) \<le> 2 ^ 62" "space_ok check"
  shows "\<exists>r' w'. provision_slots os cd m check is (r, w) = (r', w') \<and>
    (\<forall>i. i \<in> set is \<or> verify_single_file cd m w i = None \<longrightarrow> verify_single_file cd m w' i = None) \<and>
    prov_errors r' = prov_errors r \<and>
    files_created r' + files_skipped r' = files_created r + files_skipped r + of_nat (length is) \<and>
    ((\<forall>i \<in> set is. verify_single_file cd m w i = None) \<longrightarrow> files_created r' = files_created r)"
proof (induction "is" arbitrary: r w)
  case (Cons i "is")
  obtain s r1 w1 where f: "fill_slot os cd m check i (r, w) = (s, r1, w1)" "verify_single_file cd m w1 i = None"
    "prov_errors r1 = prov_errors r" "files_created r1 + files_skipped r1 = files_created r + files_skipped r + 1"
    "s = SlotCreated \<or> s = SlotSkipped"
    "verify_single_file cd m w i = None \<longrightarrow> s = SlotSkipped \<and> files_created r1 = files_created r"
    using fill_slot_healthy [OF assms, of i r w] by (elim exE conjE) (rule that)
  have keep: "verify_single_file cd m w1 j = None" if "verify_single_file cd m w j = None" for j
  proof (cases "j = i")
    case False
    then have "dir_of w1 (ballast_file_name j) = dir_of w (ballast_file_name j)"
      using fill_slot_outside [of i w os cd m check r] f(1) by (simp add: same_outside_def)
    then show ?thesis using that by (simp add: verify_cong [of w1 j w])
  qed (use f(2) in simp)
  obtain r2 w2 where g: "provision_slots os cd m check is (r1, w1) = (r2, w2)"
    "\<forall>j. j \<in> set is \<or> verify_single_file cd m w1 j = None \<longrightarrow> verify_single_file cd m w2 j = None"
    "prov_errors r2 = prov_errors r1"
    "files_created r2 + files_skipped r2 = files_created r1 + files_skipped r1 + of_nat (length is)"
    "(\<forall>j \<in> set is. verify_single_file cd m w1 j = None) \<longrightarrow> files_created r2 = files_created r1"
    using Cons.IH [of r1 w1] by (elim exE conjE) (rule that)
  have st: "provision_slots os cd m check (i # is) (r, w) = (r2, w2)" using f(1,5) g(1) by auto
  show ?case
  proof (intro exI conjI, rule st)
    show "\<forall>j. j \<in> set (i # is) \<or> verify_single_file cd m w j = None \<longrightarrow> verify_single_file cd m w2 j = None"
      using f(2) g(2) keep by auto
    show "prov_errors r2 = prov_errors r" by (simp only: g(3) f(3))
    show "files_created r2 + files_skipped r2 = files_created r + files_skipped r + of_nat (length (i # is))"
      unfolding g(4) f(4) by simp
    show "(\<forall>j \<in> set (i # is). verify_single_file cd m w j = None) \<longrightarrow> files_created r2 = files_created r"
      using f(6) g(5) keep by auto
  qed
qed simp

lemma provision_split:
  assumes "lock_error os (w_calls w) = None"
  shows "provision os cd check (m, w) =
    (let (r, w2) = provision_slots os cd m check (slots (file_count (bm_config m)))
           (empty_provision_report, snd (prune_orphans os m w))
     in (Inr r, scan_existing cd w2 m, w2))"
  by (simp add: provision_def assms)

lemma verify_scan [simp]: "verify_single_file cd (scan_existing cd v m) w i = verify_single_file cd m w i"
  by (simp add: verify_single_file_def)

text \<open>On healthy storage with enough space, provisioning leaves every configured
  slot with a file that verifies, whatever was in the directory before (missing, truncated or
  corrupted files, foreign headers), reports no error, and accounts for each slot as created or
  skipped; the inventory then lists the full pool as intact. Provisioning again creates nothing.\<close>

lemma provision_heals:
  assumes "healthy os cd" and "of_nat header_size \<le> file_size_bytes (bm_config m)"
    and "file_size_bytes (bm_config m) \<le> 2 ^ 62" and "space_ok check"
  shows "\<exists>r m' w'. provision os cd check (m, w) = (Inr r, m', w') \<and> prov_errors r = [] \<and>
    files_created r + files_skipped r = file_count (bm_config m) \<and>
    map bf_index (bm_inventory m') = slots (file_count (bm_config m)) \<and>
    (\<forall>f \<in> set (bm_inventory m'). integrity_ok f) \<and>
    (unat (file_count (bm_config m)) < 2 ^ 32 \<longrightarrow>
      (\<exists>r2 m2 w2. provision os cd check (m', w') = (Inr r2, m2, w2) \<and> files_created r2 = 0 \<and>
        files_skipped r2 = file_count (bm_config m) \<and> prov_errors r2 = []))"
proof -
  let ?S = "slots (file_count (bm_config m))"
  have lock: "lock_error os k = None" for k using assms(1) by (simp add: healthy_def)
  obtain r w' where g: "provision_slots os cd m check ?S (empty_provision_report, snd (prune_orphans os m w)) = (r, w')"
    "\<forall>i \<in> set ?S. verify_single_file cd m w' i = None" "prov_errors r = []"
    "files_created r + files_skipped r = file_count (bm_config m)"
    using provision_slots_healthy [OF assms, of ?S empty_provision_report "snd (prune_orphans os m w)"]
    by (auto simp: empty_provision_report_def)
  let ?m' = "scan_existing cd w' m"
  have run: "provision os cd check (m, w) = (Inr r, ?m', w')" by (simp add: provision_split [OF lock] g(1))
  have pres: "map bf_index (bm_inventory ?m') = ?S"
    using g(2) by (auto simp: scan_indices present_def intro!: filter_True dest: verify_exists)
  have ok: "\<forall>f \<in> set (bm_inventory ?m'). integrity_ok f"
  proof
    fix f assume f: "f \<in> set (bm_inventory ?m')"
    then obtain i where "scan_slot cd m w' i = Some f"
      by (auto simp: scan_existing_def List.map_filter_def)
    moreover have "bf_index f \<in> set ?S" using f pres by (metis imageI list.set_map)
    ultimately show "integrity_ok f" using g(2) scan_slot_simps(2) by fastforce
  qed
  have again: "\<exists>r2 m2 w2. provision os cd check (?m', w') = (Inr r2, m2, w2) \<and> files_created r2 = 0 \<and>
      files_skipped r2 = file_count (bm_config m) \<and> prov_errors r2 = []"
    if small: "unat (file_count (bm_config m)) < 2 ^ 32"
  proof -
    let ?w1 = "snd (prune_orphans os ?m' w')"
    have keep: "\<forall>i \<in> set ?S. verify_single_file cd ?m' ?w1 i = None"
    proof
      fix i assume i: "i \<in> set ?S"
      then have "dir_of ?w1 (ballast_file_name i) = dir_of w' (ballast_file_name i)"
        using prune_orphans_outside [of ?m' w' os] slot_not_orphan [OF small i] by (simp add: same_outside_def)
      then show "verify_single_file cd ?m' ?w1 i = None" using g(2) i by (simp add: verify_cong [of ?w1 i w'])
    qed
    obtain r2 w2 where h: "provision_slots os cd ?m' check ?S (empty_provision_report, ?w1) = (r2, w2)"
      "prov_errors r2 = []" "files_created r2 + files_skipped r2 = file_count (bm_config m)" "files_created r2 = 0"
      using provision_slots_healthy [of os cd ?m' check ?S empty_provision_report ?w1] assms keep
      by (auto simp: empty_provision_report_def)
    then show ?thesis by (simp add: provision_split [OF lock])
  qed
  show ?thesis using run g(3,4) pres ok again by blast
qed

subsection \<open>A concrete pool\<close>

text \<open>Storage on which every call succeeds and a codec that writes the index and the size in binary.\<close>

definition word_bits :: "'a::len word \<Rightarrow> string" where
  "word_bits x = map (\<lambda>k. if bit x k then CHR ''1'' else CHR ''0'') [0..<LENGTH('a)]"

definition bits_word :: "string \<Rightarrow> 'a::len word" where
  "bits_word s = horner_sum of_bool 2 (map (\<lambda>c. c = CHR ''1'') s)"

lemma bits_word_bits: "bits_word (word_bits x) = x"
proof -
  have "map (\<lambda>c. c = CHR ''1'') (word_bits x) = map (bit x) [0..<LENGTH('a)]" for x :: "'a::len word"
    by (simp add: word_bits_def)
  then show ?thesis by (simp add: bits_word_def horner_sum_bit_eq_take_bit)
qed

definition demo_codec :: codec where
  "demo_codec = \<lparr>header_json = (\<lambda>h. Inr (word_bits (bh_file_index h) @ word_bits (bh_file_size h))),
     parse_header = (\<lambda>t. Inr (header_new ''t'' (bits_word (take 32 t)) (bits_word (drop 32 t)))),
     utf8_text = (\<lambda>t. [])\<rparr>"

definition demo_storage :: storage where
  "demo_storage = \<lparr>utc_now = (\<lambda>k. ''t''), lock_error = (\<lambda>k. None), create_dir_error = (\<lambda>k. None),
     read_dir_error = (\<lambda>k. None), unreadable_entry = (\<lambda>k n. False), remove_error = (\<lambda>k n. None),
     prealloc_error = (\<lambda>k n s. None), header_write_error = (\<lambda>k n. None), data_write_error = (\<lambda>k n. None),
     left_behind = (\<lambda>k n. None), block_count = (\<lambda>k n s. Inr (of_nat (unat s div 512 + 1))),
     birth_time = (\<lambda>k. None), capacity_mount = (\<lambda>p. Inr p), snapshots = (\<lambda>p. Inr [])\<rparr>"

lemma valid_utf8_ascii: "\<forall>b \<in> set bs. b < 128 \<Longrightarrow> valid_utf8 bs"
  by (induction bs) auto

lemma word_bits_ascii: "c \<in> set (word_bits x) \<Longrightarrow> c = CHR ''1'' \<or> c = CHR ''0''"
  by (auto simp: word_bits_def)

lemma demo_healthy: "healthy demo_storage demo_codec"
proof -
  have len: "length (word_bits (i :: u32)) = 32" "length (word_bits (z :: u64)) = 64" for i z
    by (simp_all add: word_bits_def)
  have utf: "valid_utf8 (map of_char (word_bits (i :: u32) @ word_bits (z :: u64)))"
    "CHR 0x00 \<notin> set (word_bits i @ word_bits z)" for i z
    by (auto intro!: valid_utf8_ascii dest!: word_bits_ascii)
  have blocks: "\<exists>b. (of_nat (unat z div 512 + 1) :: u64) = b \<and> unat b * 512 < 2 ^ 64 \<and> z \<le> b * 512"
    if "z \<le> 2 ^ 62" for z :: u64
  proof -
    have z: "unat z \<le> 2 ^ 62" using that by (simp add: word_le_nat_alt)
    have u: "unat (of_nat (unat z div 512 + 1) :: u64) = unat z div 512 + 1"
      using z by (intro unat_of_nat_small) simp
    have b: "(unat z div 512 + 1) * 512 < 2 ^ 64" "unat z \<le> (unat z div 512 + 1) * 512" using z by auto
    then have "unat (of_nat (unat z div 512 + 1) * 512 :: u64) = (unat z div 512 + 1) * 512"
      using u by (simp only: unat_word_ariths) (simp add: u)
    then show ?thesis using b u by (simp only: word_le_nat_alt) simp
  qed
  show ?thesis
    using len utf blocks
    by (auto simp: healthy_def demo_storage_def demo_codec_def header_new_def header_size_def bits_word_bits)
qed

definition demo_config :: ballast_config where
  "demo_config = \<lparr>file_count = 3, file_size_bytes = 8192, replenish_cooldown_minutes = 30,
     auto_provision = True, overrides = []\<rparr>"

definition demo_pool :: "manager \<times> world" where
  "demo_pool = (\<lparr>ballast_dir = ''/d'', bm_config = demo_config, bm_inventory = [], skip_fallocate = False\<rparr>,
     \<lparr>w_dir = [], w_calls = 1\<rparr>)"

lemma demo_start: "with_platform demo_storage demo_codec ''/d'' demo_config \<lparr>w_dir = [], w_calls = 0\<rparr> =
    (Inr (fst demo_pool), snd demo_pool)"
proof -
  have "List.map_filter (scan_slot demo_codec m w) is = []" if "w_dir w = []" for m w "is"
    using that by (induction "is") (auto simp: scan_slot_def node_at_def)
  then show ?thesis
    by (simp add: with_platform_def Let_def prune_orphans_def demo_storage_def tick_def scan_existing_def demo_pool_def)
qed


lemma demo_fits: "of_nat header_size \<le> file_size_bytes (bm_config (fst demo_pool))"
  "file_size_bytes (bm_config (fst demo_pool)) \<le> 2 ^ 62" "space_ok (Some (\<lambda>k. Fin 50))"
  "unat (file_count (bm_config (fst demo_pool))) < 2 ^ 32"
  by (simp_all add: demo_pool_def demo_config_def header_size_def space_ok_def min_free_pct_def word_le_nat_alt)

lemma release_ok: "lock_error os (w_calls w) = None \<Longrightarrow> \<exists>r m' w'. release os cd n (m, w) = (Inr r, m', w')"
  by (auto simp: release_def Let_def split: prod.splits)

definition full_world :: world where
  "full_world = \<lparr>w_dir = map (\<lambda>i. (ballast_file_name i, Node (written_node demo_storage 0 (ballast_file_name i) 8192 [])))
     [1, 2, 3], w_calls = 3\<rparr>"

lemma slots_3: "slots 3 = [1, 2, 3]"
  by (simp add: slots_def upt_rec)

lemma full_present: "present (scan_existing demo_codec full_world (fst demo_pool)) full_world = [1, 2, 3]"
  by (simp add: present_def demo_pool_def demo_config_def slots_3 path_exists_def node_at_def full_world_def
      scan_existing_def)

theorem release_refines_witness:
  "\<exists>r m' w'. release demo_storage demo_codec 1 (scan_existing demo_codec full_world (fst demo_pool), full_world) =
     (Inr r, m', w') \<and> present m' w' = [1, 2] \<and> unat (files_released r) = 1"
proof -
  let ?m = "scan_existing demo_codec full_world (fst demo_pool)"
  have f: "fresh demo_codec (?m, full_world)" using demo_fits(4) by (simp add: fresh_def)
  obtain r m' w' where r: "release demo_storage demo_codec 1 (?m, full_world) = (Inr r, m', w')"
    using release_ok [of demo_storage full_world demo_codec 1 ?m] demo_healthy by (auto simp: healthy_def)
  have "remove_error demo_storage k g = None" for k g by (simp add: demo_storage_def)
  then show ?thesis using release_refines [OF f r] r unfolding full_present
    by (auto simp: drop_highest_def)
qed

end
