(* ===== verification/Platform.thy ===== *)
theory Platform
  imports F64 Errors
begin

section \<open>Mounts and file-system statistics\<close>

text \<open>
  The mount and statistics records of \<open>platform/pal.rs\<close> and the longest-prefix search for the mount of a
  path, which the ballast coordinator, the statistics collector and the scanner share. Mount tables and
  statistics themselves come from the operating system and are arguments.
\<close>

record fs_stats =
  total_bytes_of :: u64
  free_bytes :: u64
  available_bytes :: u64
  fs_stat_type :: string
  fs_mount_point :: path
  is_readonly :: bool

definition stats_free_pct :: "fs_stats \<Rightarrow> f64" where
  "stats_free_pct s = (if total_bytes_of s = 0 then 0
     else (f_of_word (available_bytes s) * Fin 100) / f_of_word (total_bytes_of s))"

record mount_point =
  mp_path :: path
  mp_device :: string
  mp_fs_type :: string
  is_ram_backed :: bool

text \<open>\<open>max_by_key\<close> on the length of the path: the last of the longest.\<close>

definition longer_mount :: "mount_point option \<Rightarrow> mount_point \<Rightarrow> mount_point option" where
  "longer_mount best m = (case best of None \<Rightarrow> Some m
     | Some b \<Rightarrow> if length (mp_path b) \<le> length (mp_path m) then Some m else Some b)"

definition find_mount :: "path \<Rightarrow> mount_point list \<Rightarrow> mount_point option" where
  "find_mount p mounts = foldl longer_mount None (filter (\<lambda>m. path_starts_with p (mp_path m)) mounts)"

lemma longer_mount_fold:
  "foldl longer_mount b ms = Some m \<Longrightarrow> (m \<in> set ms \<or> b = Some m) \<and>
     (\<forall>x \<in> set ms. length (mp_path x) \<le> length (mp_path m)) \<and>
     (\<forall>x. b = Some x \<longrightarrow> length (mp_path x) \<le> length (mp_path m))"
proof (induction ms arbitrary: b)
  case (Cons y ms)
  from Cons.IH [of "longer_mount b y"] Cons.prems show ?case
    by (auto simp: longer_mount_def split: option.splits if_splits)
qed simp

lemma longer_mount_None: "foldl longer_mount b ms = None \<longleftrightarrow> b = None \<and> ms = []"
  by (induction ms arbitrary: b) (auto simp: longer_mount_def split: option.splits)

lemma find_mount_Some:
  assumes "find_mount p mounts = Some m"
  shows "m \<in> set mounts" "path_starts_with p (mp_path m)"
    "\<And>x. x \<in> set mounts \<Longrightarrow> path_starts_with p (mp_path x) \<Longrightarrow> length (mp_path x) \<le> length (mp_path m)"
  using longer_mount_fold [OF assms [unfolded find_mount_def]] by auto

lemma find_mount_None: "find_mount p mounts = None \<longleftrightarrow> (\<forall>m \<in> set mounts. \<not> path_starts_with p (mp_path m))"
  by (auto simp: find_mount_def longer_mount_None filter_empty_conv)

subsection \<open>Absolute paths in normal form\<close>

text \<open>Mount tables list paths in the form \<open>/a/b\<close>: the rendering of a list of names.\<close>

definition plain_name :: "string \<Rightarrow> bool" where
  "plain_name s = (s \<noteq> [] \<and> s \<noteq> ''.'' \<and> s \<noteq> ''..'' \<and> CHR ''/'' \<notin> set s)"

definition render :: "string list \<Rightarrow> path" where
  "render ss = (if ss = [] then ''/'' else concat (map (\<lambda>s. CHR ''/'' # s) ss))"

definition canonical :: "path \<Rightarrow> bool" where
  "canonical p = (\<exists>ss. list_all plain_name ss \<and> p = render ss)"

lemma split_render: "list_all plain_name ss \<Longrightarrow> ss \<noteq> [] \<Longrightarrow>
  split_on (CHR ''/'') (concat (map (\<lambda>s. CHR ''/'' # s) ss)) = [] # ss"
proof (induction ss)
  case (Cons s ss)
  then have s: "CHR ''/'' \<notin> set s" by (simp add: plain_name_def)
  show ?case
  proof (cases ss)
    case Nil
    then show ?thesis using s by (simp add: split_on_id)
  next
    case (Cons t ts)
    then have "split_on (CHR ''/'') (concat (map (\<lambda>s. CHR ''/'' # s) ss)) = [] # ss"
      using Cons.IH Cons.prems \<open>list_all plain_name (s # ss)\<close> by simp
    then have "split_on (CHR ''/'') (t @ concat (map (\<lambda>s. CHR ''/'' # s) ts)) = ss"
      using Cons by simp
    then show ?thesis using Cons s by (simp add: split_on_append)
  qed
qed simp

lemma parse_plain: "list_all plain_name ss \<Longrightarrow> List.map_filter parse_segment ss = map Normal ss"
  by (induction ss) (auto simp: parse_segment_def plain_name_def)

lemma components_render: "list_all plain_name ss \<Longrightarrow> components (render ss) = RootDir # map Normal ss"
proof (cases "ss = []")
  case True
  then show ?thesis by (simp add: components_def render_def parse_segment_def)
next
  case False
  assume p: "list_all plain_name ss"
  have "starts_with (render ss) ''/''" using False by (cases ss) (auto simp: render_def)
  moreover have "split_on (CHR ''/'') (render ss) = [] # ss" using split_render [OF p False] False by (simp add: render_def)
  ultimately show ?thesis using parse_plain [OF p] by (simp add: components_def parse_segment_def)
qed

lemma render_length: "ss \<noteq> [] \<Longrightarrow> length (render ss) = length (concat ss) + length ss"
proof -
  have "length (concat (map (\<lambda>s. CHR ''/'' # s) ss)) = length (concat ss) + length ss" by (induction ss) auto
  then show "ss \<noteq> [] \<Longrightarrow> ?thesis" by (simp add: render_def)
qed

lemma render_prefix_length:
  assumes "list_all plain_name (rs @ ts)" "ts \<noteq> []"
  shows "length (render rs) < length (render (rs @ ts))"
proof -
  obtain t us where t: "ts = t # us" "0 < length t" using assms by (cases ts) (auto simp: plain_name_def)
  then show ?thesis by (cases "rs = []") (simp_all add: render_length, simp add: render_def)
qed

lemma prefix_map_Normal: "prefix (map Normal rs) (map Normal ss) \<Longrightarrow> prefix rs ss"
proof (induction rs arbitrary: ss)
  case (Cons r rs)
  then show ?case by (cases ss) auto
qed simp

lemma canonical_starts:
  assumes "canonical p" "canonical q" "path_starts_with p q"
  shows "length q \<le> length p" "length q = length p \<Longrightarrow> q = p"
proof -
  obtain ss rs where p: "list_all plain_name ss" "p = render ss" and q: "list_all plain_name rs" "q = render rs"
    using assms(1,2) by (auto simp: canonical_def)
  have "prefix (map Normal rs) (map Normal ss)"
    using assms(3) p q by (simp add: path_starts_with_def components_render)
  from prefix_map_Normal [OF this] obtain ts where ss: "ss = rs @ ts" by (rule prefixE)
  show "length q \<le> length p" "length q = length p \<Longrightarrow> q = p"
    using render_prefix_length [of rs ts] p q by (cases "ts = []"; simp add: ss)+
qed

end
