(* ===== verification/Ballast_Coordinator.thy ===== *)
theory Ballast_Coordinator
  imports Ballast_Run Platform
begin

section \<open>The ballast pool coordinator\<close>

text \<open>
  \<open>ballast/coordinator.rs\<close>: one pool per mounted volume. The pools and skipped volumes are association
  lists keyed by mount path up to equality of components, the hash maps of the source; the order in
  which the source visits a hash map is not specified, so \<open>discover\<close> takes it as an argument. The file system
  is one \<open>world\<close> per directory, and the environment of a directory (\<open>storage\<close>) is an argument.
\<close>

definition ballast_subdir :: string where "ballast_subdir = ''.sbh/ballast''"
definition fallocate_friendly :: "string list" where "fallocate_friendly = [''ext4'', ''xfs'', ''ext3'', ''ext2'']"
definition cow_filesystems :: "string list" where "cow_filesystems = [''btrfs'', ''zfs'', ''bcachefs'']"
definition ram_filesystems :: "string list" where "ram_filesystems = [''tmpfs'', ''ramfs'', ''devtmpfs'']"
definition network_filesystems :: "string list" where
  "network_filesystems = [''nfs'', ''nfs4'', ''cifs'', ''smbfs'', ''fuse.sshfs'']"

datatype provision_strategy = Fallocate | RandomData | SkipVolume

record ballast_pool_info =
  bp_mount_point :: path
  bp_dir :: path
  bp_fs_type :: string
  bp_strategy :: provision_strategy
  bp_manager :: manager

record pool_inventory =
  pi_mount_point :: path
  pi_ballast_dir :: path
  pi_fs_type :: string
  pi_strategy :: provision_strategy
  files_available :: usize
  files_total :: usize
  pi_releasable_bytes :: u64
  skipped :: bool
  skip_reason :: "string option"

record skipped_pool_info =
  sp_ballast_dir :: path
  sp_fs_type :: string
  sp_strategy :: provision_strategy
  sp_reason :: string

record multi_provision_report =
  per_volume :: "(path \<times> provision_report) list"
  skipped_volumes :: "(path \<times> string) list"

definition total_files_created :: "multi_provision_report \<Rightarrow> usize" where
  "total_files_created r = sum_list (map (files_created \<circ> snd) (per_volume r))"

definition multi_total_bytes :: "multi_provision_report \<Rightarrow> u64" where
  "multi_total_bytes r = sum_list (map (total_bytes \<circ> snd) (per_volume r))"

definition has_errors :: "multi_provision_report \<Rightarrow> bool" where
  "has_errors r = list_ex (\<lambda>x. prov_errors (snd x) \<noteq> []) (per_volume r)"

record coordinator =
  pools :: "(path \<times> ballast_pool_info) list"
  skipped_pools :: "(path \<times> skipped_pool_info) list"

type_synonym disk = "component list \<Rightarrow> world"

subsection \<open>Helpers\<close>

definition per_volume_config :: "ballast_config \<Rightarrow> string \<Rightarrow> ballast_config" where
  "per_volume_config c mount_str = \<lparr>file_count = effective_file_count c mount_str,
     file_size_bytes = effective_file_size_bytes c mount_str,
     replenish_cooldown_minutes = replenish_cooldown_minutes c, auto_provision = auto_provision c, overrides = []\<rparr>"

definition volume_strategy :: "string \<Rightarrow> provision_strategy" where
  "volume_strategy fs = (if fs \<in> set ram_filesystems \<or> fs \<in> set network_filesystems then SkipVolume
     else if fs \<in> set cow_filesystems then RandomData
     else if fs \<in> set fallocate_friendly then Fallocate else RandomData)"

definition resolve_ballast_dir :: "path \<Rightarrow> path option \<Rightarrow> path" where
  "resolve_ballast_dir mount_path configured = (case configured of
       Some d \<Rightarrow> if path_starts_with d mount_path then d else path_join mount_path ballast_subdir
     | None \<Rightarrow> path_join mount_path ballast_subdir)"

definition path_lookup :: "path \<Rightarrow> (path \<times> 'a) list \<Rightarrow> 'a option" where
  "path_lookup p kvs = map_option snd (List.find (\<lambda>kv. path_eq p (fst kv)) kvs)"

definition add_seen :: "mount_point list \<Rightarrow> path \<Rightarrow> mount_point list \<Rightarrow> mount_point list" where
  "add_seen mounts p seen = (case find_mount p mounts of None \<Rightarrow> seen
     | Some m \<Rightarrow> if list_ex (\<lambda>x. path_eq (mp_path x) (mp_path m)) seen then seen else seen @ [m])"

definition seen_mounts :: "mount_point list \<Rightarrow> path list \<Rightarrow> mount_point list" where
  "seen_mounts mounts watched = fold (add_seen mounts) watched []"

definition configured_owner_mount :: "path option \<Rightarrow> mount_point list \<Rightarrow> mount_point list \<Rightarrow> path option" where
  "configured_owner_mount configured mounts seen = (case configured of None \<Rightarrow> None
     | Some d \<Rightarrow> (case find_mount d mounts of None \<Rightarrow> None
       | Some m \<Rightarrow> if list_ex (\<lambda>x. path_eq (mp_path x) (mp_path m)) seen then Some (mp_path m) else None))"

subsection \<open>Discovery\<close>

text \<open>Why a volume gets no pool, in the order of the checks; \<open>None\<close> lets it through.\<close>

definition skip_reason_for ::
  "ballast_config \<Rightarrow> (path \<Rightarrow> sbh_error + fs_stats) \<Rightarrow> mount_point \<Rightarrow> string option" where
  "skip_reason_for cfg stats m =
     (if \<not> is_volume_enabled cfg (mp_path m) then Some ''disabled via ballast volume override''
      else if is_ram_backed m \<or> mp_fs_type m \<in> set ram_filesystems then
        Some ''ram-backed filesystem (ballast disabled)''
      else if mp_fs_type m \<in> set network_filesystems then Some ''network filesystem (ballast disabled)''
      else case stats (mp_path m) of
          Inl e \<Rightarrow> Some (''failed to stat filesystem: '' @ show_error e)
        | Inr s \<Rightarrow> if is_readonly s then Some ''read-only filesystem''
            else if volume_strategy (mp_fs_type m) = SkipVolume then Some ''filesystem strategy marked as skip''
            else None)"

definition volume_dir :: "path option \<Rightarrow> path option \<Rightarrow> path \<Rightarrow> path" where
  "volume_dir configured owner mount_path = resolve_ballast_dir mount_path
     (case owner of Some ow \<Rightarrow> if path_eq ow mount_path then configured else None | None \<Rightarrow> None)"

definition discover_volume ::
  "(path \<Rightarrow> storage) \<Rightarrow> codec \<Rightarrow> ballast_config \<Rightarrow> (path \<Rightarrow> sbh_error + fs_stats) \<Rightarrow> path option \<Rightarrow> path option \<Rightarrow>
     mount_point \<Rightarrow> coordinator \<times> disk \<Rightarrow> coordinator \<times> disk" where
  "discover_volume os cd cfg stats configured owner m st =
     (let (co, d) = st; mp = mp_path m; dir = volume_dir configured owner mp;
          strategy = volume_strategy (mp_fs_type m);
          skip = (\<lambda>reason. co\<lparr>skipped_pools := skipped_pools co @ [(mp, \<lparr>sp_ballast_dir = dir,
            sp_fs_type = mp_fs_type m, sp_strategy = strategy, sp_reason = reason\<rparr>)]\<rparr>)
      in case skip_reason_for cfg stats m of Some reason \<Rightarrow> (skip reason, d)
         | None \<Rightarrow>
            (case with_platform (os dir) cd dir (per_volume_config cfg mp) (d (components dir)) of
               (Inl e, w) \<Rightarrow> (skip (''failed to initialize ballast manager: '' @ show_error e), d(components dir := w))
             | (Inr mgr, w) \<Rightarrow>
                 let mgr1 = (if strategy = RandomData then set_skip_fallocate True mgr else mgr)
                 in (co\<lparr>pools := pools co @ [(mp, \<lparr>bp_mount_point = mp, bp_dir = dir, bp_fs_type = mp_fs_type m,
                       bp_strategy = strategy, bp_manager = mgr1\<rparr>)]\<rparr>, d(components dir := w))))"

definition discover_inner ::
  "(path \<Rightarrow> storage) \<Rightarrow> codec \<Rightarrow> (mount_point list \<Rightarrow> mount_point list) \<Rightarrow> ballast_config \<Rightarrow> path list \<Rightarrow>
     sbh_error + mount_point list \<Rightarrow> (path \<Rightarrow> sbh_error + fs_stats) \<Rightarrow> path option \<Rightarrow> disk \<Rightarrow>
     (sbh_error + coordinator) \<times> disk" where
  "discover_inner os cd visit cfg watched mount_table stats configured d = (case mount_table of
       Inl e \<Rightarrow> (Inl e, d)
     | Inr mounts \<Rightarrow>
        let seen = seen_mounts mounts watched;
            owner = configured_owner_mount configured mounts seen;
            (co, d1) = fold (discover_volume os cd cfg stats configured owner) (visit seen)
              (\<lparr>pools = [], skipped_pools = []\<rparr>, d)
        in (Inr co, d1))"

subsection \<open>Operations on the pools\<close>

definition provision_volume ::
  "(path \<Rightarrow> storage) \<Rightarrow> codec \<Rightarrow> (nat \<Rightarrow> path \<Rightarrow> sbh_error + fs_stats) \<Rightarrow> path \<times> ballast_pool_info \<Rightarrow>
     (path \<times> ballast_pool_info) list \<times> multi_provision_report \<times> disk \<Rightarrow>
     (path \<times> ballast_pool_info) list \<times> multi_provision_report \<times> disk" where
  "provision_volume os cd stats kv st =
     (let (done, r, d) = st; (mp, pool) = kv; dir = bp_dir pool;
          skip = (\<lambda>t. r\<lparr>skipped_volumes := skipped_volumes r @ [(mp, t)]\<rparr>)
      in case stats 0 mp of
          Inl e \<Rightarrow> (done @ [kv], skip (''failed to get fs stats: '' @ show_error e), d)
        | Inr s \<Rightarrow>
            if stats_free_pct s < Fin 20 then
              (done @ [kv], skip (''free space too low ('' @ fmt_fixed 1 (stats_free_pct s) @ ''% < 20%)''), d)
            else
              let check = (\<lambda>k. case stats (Suc k) mp of Inl _ \<Rightarrow> 0 | Inr s1 \<Rightarrow> stats_free_pct s1);
                  (res, mgr, w) = provision (os dir) cd (Some check) (bp_manager pool, d (components dir));
                  done1 = done @ [(mp, pool\<lparr>bp_manager := mgr\<rparr>)]; d1 = d(components dir := w)
              in case res of Inr rep \<Rightarrow> (done1, r\<lparr>per_volume := per_volume r @ [(mp, rep)]\<rparr>, d1)
                 | Inl e \<Rightarrow> (done1, skip (''provision failed: '' @ show_error e), d1))"

definition provision_all ::
  "(path \<Rightarrow> storage) \<Rightarrow> codec \<Rightarrow> (nat \<Rightarrow> path \<Rightarrow> sbh_error + fs_stats) \<Rightarrow> coordinator \<times> disk \<Rightarrow>
     multi_provision_report \<times> coordinator \<times> disk" where
  "provision_all os cd stats st =
     (let (co, d) = st; (ps, r, d1) = fold (provision_volume os cd stats) (pools co)
            ([], \<lparr>per_volume = [], skipped_volumes = []\<rparr>, d)
      in (r, co\<lparr>pools := ps\<rparr>, d1))"

definition set_pool :: "path \<Rightarrow> ballast_pool_info \<Rightarrow> coordinator \<Rightarrow> coordinator" where
  "set_pool mp p co = co\<lparr>pools := map (\<lambda>kv. if path_eq mp (fst kv) then (fst kv, p) else kv) (pools co)\<rparr>"

definition release_for_mount ::
  "(path \<Rightarrow> storage) \<Rightarrow> codec \<Rightarrow> path \<Rightarrow> usize \<Rightarrow> coordinator \<times> disk \<Rightarrow>
     (sbh_error + release_report option) \<times> coordinator \<times> disk" where
  "release_for_mount os cd mp count st =
     (let (co, d) = st in case path_lookup mp (pools co) of None \<Rightarrow> (Inr None, co, d)
      | Some pool \<Rightarrow>
          if available_count (bp_manager pool) = 0 then (Inr None, co, d)
          else let dir = bp_dir pool;
                   (res, mgr, w) = release (os dir) cd count (bp_manager pool, d (components dir));
                   st1 = (set_pool mp (pool\<lparr>bp_manager := mgr\<rparr>) co, d(components dir := w))
               in case res of Inl e \<Rightarrow> (Inl e, st1) | Inr r \<Rightarrow> (Inr (Some r), st1))"

definition replenish_for_mount ::
  "(path \<Rightarrow> storage) \<Rightarrow> codec \<Rightarrow> path \<Rightarrow> (nat \<Rightarrow> f64) option \<Rightarrow> coordinator \<times> disk \<Rightarrow>
     (sbh_error + provision_report option) \<times> coordinator \<times> disk" where
  "replenish_for_mount os cd mp check st =
     (let (co, d) = st in case path_lookup mp (pools co) of None \<Rightarrow> (Inr None, co, d)
      | Some pool \<Rightarrow>
          let dir = bp_dir pool;
              (res, mgr, w) = replenish_one (os dir) cd check (bp_manager pool, d (components dir));
              st1 = (set_pool mp (pool\<lparr>bp_manager := mgr\<rparr>) co, d(components dir := w))
          in case res of Inl e \<Rightarrow> (Inl e, st1) | Inr r \<Rightarrow> (Inr (Some r), st1))"

text \<open>The manager's \<open>verify\<close> never fails, so the error branch of the source is unreachable.\<close>

definition verify_all :: "codec \<Rightarrow> coordinator \<times> disk \<Rightarrow> (path \<times> verify_report) list" where
  "verify_all cd st = map (\<lambda>(mp, pool). (mp, verify_pool cd (bp_manager pool) (snd st (components (bp_dir pool)))))
     (pools (fst st))"

definition coordinator_inventory :: "coordinator \<Rightarrow> pool_inventory list" where
  "coordinator_inventory co = sort_key (\<lambda>i. components (pi_mount_point i))
     (map (\<lambda>(_, p). \<lparr>pi_mount_point = bp_mount_point p, pi_ballast_dir = bp_dir p, pi_fs_type = bp_fs_type p,
        pi_strategy = bp_strategy p, files_available = available_count (bp_manager p),
        files_total = file_count (bm_config (bp_manager p)),
        pi_releasable_bytes = releasable_bytes (bp_manager p), skipped = False, skip_reason = None\<rparr>) (pools co) @
      map (\<lambda>(mp, s). \<lparr>pi_mount_point = mp, pi_ballast_dir = sp_ballast_dir s, pi_fs_type = sp_fs_type s,
        pi_strategy = sp_strategy s, files_available = 0, files_total = 0, pi_releasable_bytes = 0,
        skipped = True, skip_reason = Some (sp_reason s)\<rparr>) (skipped_pools co))"

definition total_releasable :: "coordinator \<Rightarrow> u64" where
  "total_releasable co = sum_list (map (\<lambda>(_, p). releasable_bytes (bp_manager p)) (pools co))"

definition pool_for_path ::
  "path \<Rightarrow> sbh_error + mount_point list \<Rightarrow> coordinator \<Rightarrow> sbh_error + ballast_pool_info option" where
  "pool_for_path p mount_table co = (case mount_table of Inl e \<Rightarrow> Inl e
     | Inr mounts \<Rightarrow> (case find_mount p mounts of None \<Rightarrow> Inr None
       | Some m \<Rightarrow> Inr (path_lookup (mp_path m) (pools co))))"

definition release_for_path ::
  "(path \<Rightarrow> storage) \<Rightarrow> codec \<Rightarrow> path \<Rightarrow> usize \<Rightarrow> sbh_error + mount_point list \<Rightarrow> coordinator \<times> disk \<Rightarrow>
     (sbh_error + release_report option) \<times> coordinator \<times> disk" where
  "release_for_path os cd p count mount_table st = (case mount_table of Inl e \<Rightarrow> (Inl e, st)
     | Inr mounts \<Rightarrow> (case find_mount p mounts of None \<Rightarrow> (Inr None, st)
       | Some m \<Rightarrow> release_for_mount os cd (mp_path m) count st))"

definition coordinator_update_config ::
  "(path \<Rightarrow> storage) \<Rightarrow> codec \<Rightarrow> ballast_config \<Rightarrow> coordinator \<times> disk \<Rightarrow> coordinator \<times> disk" where
  "coordinator_update_config os cd cfg st =
     (let (co, d) = st;
          (ps, d1) = fold (\<lambda>(mp, pool) (done, d). let (mgr, w) = ballast_update_config (os (bp_dir pool)) cd
               (per_volume_config cfg mp) (bp_manager pool, d (components (bp_dir pool)))
             in (done @ [(mp, pool\<lparr>bp_manager := mgr\<rparr>)], d(components (bp_dir pool) := w)))
            (pools co) ([], d)
      in (co\<lparr>pools := ps\<rparr>, d1))"

subsection \<open>What discovery establishes\<close>

lemma seen_fold:
  "m \<in> set (fold (add_seen mounts) ps seen) \<Longrightarrow> m \<in> set seen \<or> (\<exists>p \<in> set ps. find_mount p mounts = Some m)"
proof (induction ps arbitrary: seen)
  case (Cons p ps)
  have "m \<in> set (add_seen mounts p seen) \<Longrightarrow> m \<in> set seen \<or> find_mount p mounts = Some m"
    by (auto simp: add_seen_def split: option.splits if_splits)
  then show ?case using Cons.IH [of "add_seen mounts p seen"] Cons.prems by auto
qed simp

lemma seen_keeps: "m \<in> set seen \<Longrightarrow> m \<in> set (fold (add_seen mounts) ps seen)"
  by (induction ps arbitrary: seen) (auto simp: add_seen_def split: option.splits)

lemma seen_complete:
  "p \<in> set ps \<Longrightarrow> find_mount p mounts = Some m \<Longrightarrow>
     \<exists>x \<in> set (fold (add_seen mounts) ps seen). path_eq (mp_path x) (mp_path m)"
proof (induction ps arbitrary: seen)
  case (Cons q ps)
  show ?case
  proof (cases "p = q")
    case True
    have "\<exists>x \<in> set (add_seen mounts q seen). path_eq (mp_path x) (mp_path m)"
      using Cons.prems(2) True by (auto simp: add_seen_def list_ex_iff path_eq_def)
    then show ?thesis using seen_keeps by fastforce
  next
    case False
    then show ?thesis using Cons by simp
  qed
qed simp

text \<open>What holds of a pool made for a volume.\<close>

definition pool_made ::
  "ballast_config \<Rightarrow> (path \<Rightarrow> sbh_error + fs_stats) \<Rightarrow> path option \<Rightarrow> path option \<Rightarrow> mount_point \<Rightarrow> ballast_pool_info \<Rightarrow> bool" where
  "pool_made cfg stats configured owner m p =
     (bp_mount_point p = mp_path m \<and> bp_fs_type p = mp_fs_type m \<and>
      is_volume_enabled cfg (mp_path m) \<and> \<not> is_ram_backed m \<and>
      mp_fs_type m \<notin> set ram_filesystems \<and> mp_fs_type m \<notin> set network_filesystems \<and>
      (\<exists>s. stats (mp_path m) = Inr s \<and> \<not> is_readonly s) \<and>
      bp_strategy p = volume_strategy (mp_fs_type m) \<and> bp_strategy p \<noteq> SkipVolume \<and>
      (skip_fallocate (bp_manager p) \<longleftrightarrow> bp_strategy p = RandomData) \<and>
      bp_dir p = volume_dir configured owner (mp_path m) \<and> ballast_dir (bp_manager p) = bp_dir p \<and>
      bm_config (bp_manager p) = per_volume_config cfg (mp_path m))"

lemma with_platform_fields:
  "with_platform os cd dir cfg w = (Inr m, w') \<Longrightarrow> ballast_dir m = dir \<and> bm_config m = cfg \<and> \<not> skip_fallocate m"
  by (auto simp: with_platform_def Let_def scan_existing_def split: option.splits)

lemma discover_volume_cases:
  assumes "discover_volume os cd cfg stats configured owner m (co, d) = (co', d')"
  shows "(\<exists>p. pools co' = pools co @ [(mp_path m, p)] \<and> skipped_pools co' = skipped_pools co \<and>
      pool_made cfg stats configured owner m p) \<or>
    (\<exists>s. pools co' = pools co \<and> skipped_pools co' = skipped_pools co @ [(mp_path m, s)])"
proof (cases "skip_reason_for cfg stats m")
  case (Some reason)
  then show ?thesis using assms by (auto simp: discover_volume_def Let_def)
next
  case None
  let ?dir = "volume_dir configured owner (mp_path m)"
  have ok: "is_volume_enabled cfg (mp_path m)" "\<not> is_ram_backed m" "mp_fs_type m \<notin> set ram_filesystems"
    "mp_fs_type m \<notin> set network_filesystems" "\<exists>s. stats (mp_path m) = Inr s \<and> \<not> is_readonly s"
    "volume_strategy (mp_fs_type m) \<noteq> SkipVolume"
    using None by (auto simp: skip_reason_for_def split: if_splits sum.splits)
  obtain x w where w: "with_platform (os ?dir) cd ?dir (per_volume_config cfg (mp_path m)) (d (components ?dir)) = (x, w)"
    by (metis prod.exhaust)
  show ?thesis
  proof (cases x)
    case (Inl e)
    then show ?thesis using assms None w by (auto simp: discover_volume_def Let_def)
  next
    case (Inr mgr)
    note flds = with_platform_fields [OF w [unfolded Inr]]
    let ?mgr = "if volume_strategy (mp_fs_type m) = RandomData then set_skip_fallocate True mgr else mgr"
    let ?p = "\<lparr>bp_mount_point = mp_path m, bp_dir = ?dir, bp_fs_type = mp_fs_type m,
      bp_strategy = volume_strategy (mp_fs_type m), bp_manager = ?mgr\<rparr>"
    have "co' = co\<lparr>pools := pools co @ [(mp_path m, ?p)]\<rparr>"
      using assms None w Inr by (auto simp: discover_volume_def Let_def)
    moreover have "pool_made cfg stats configured owner m ?p"
      using ok flds by (auto simp: pool_made_def set_skip_fallocate_def)
    ultimately show ?thesis by auto
  qed
qed

lemma discover_fold:
  assumes "fold (discover_volume os cd cfg stats configured owner) ms (co, d) = (co', d')"
  shows "(\<forall>kv \<in> set (pools co'). kv \<in> set (pools co) \<or>
      (\<exists>m \<in> set ms. fst kv = mp_path m \<and> pool_made cfg stats configured owner m (snd kv))) \<and>
    (\<forall>m \<in> set ms. mp_path m \<in> fst ` (set (pools co')) \<union> fst ` (set (skipped_pools co'))) \<and>
    fst ` set (pools co) \<union> fst ` set (skipped_pools co) \<subseteq> fst ` set (pools co') \<union> fst ` set (skipped_pools co')"
  using assms
proof (induction ms arbitrary: co d)
  case (Cons m ms)
  obtain co1 d1 where st: "discover_volume os cd cfg stats configured owner m (co, d) = (co1, d1)" by fastforce
  from discover_volume_cases [OF st] Cons.IH [of co1 d1] Cons.prems show ?case
    by (elim disjE exE conjE) (auto simp: st)
qed simp

text \<open>A discovered pool belongs to the mount of a watched path, on a volume that is
  enabled, writable, statted, neither in memory nor on the network; copy-on-write and unknown
  file systems never get preallocated ballast; and the mount of every watched path gets
  a pool or a reason why not, in whatever order the volumes are visited.\<close>

lemma discover_sound:
  assumes "discover_inner os cd visit cfg watched (Inr mounts) stats configured d = (Inr co, d')"
    and "\<forall>xs. set (visit xs) = set xs"
  shows "(\<forall>(mp, p) \<in> set (pools co). \<exists>m w. w \<in> set watched \<and> find_mount w mounts = Some m \<and> mp = mp_path m \<and>
      pool_made cfg stats configured (configured_owner_mount configured mounts (seen_mounts mounts watched)) m p) \<and>
    (\<forall>w m. w \<in> set watched \<longrightarrow> find_mount w mounts = Some m \<longrightarrow>
      (\<exists>q \<in> fst ` set (pools co) \<union> fst ` set (skipped_pools co). path_eq q (mp_path m)))"
proof -
  let ?seen = "seen_mounts mounts watched"
  have run: "fold (discover_volume os cd cfg stats configured (configured_owner_mount configured mounts ?seen))
      (visit ?seen) (\<lparr>pools = [], skipped_pools = []\<rparr>, d) = (co, d')"
    using assms(1) by (auto simp: discover_inner_def Let_def split: prod.splits)
  have vis: "set (visit ?seen) = set ?seen" using assms(2) by (rule spec)
  note fin = discover_fold [OF run, unfolded vis]
  have a: "\<exists>m w. w \<in> set watched \<and> find_mount w mounts = Some m \<and> fst kv = mp_path m \<and>
      pool_made cfg stats configured (configured_owner_mount configured mounts ?seen) m (snd kv)"
    if kv: "kv \<in> set (pools co)" for kv
  proof -
    obtain m where m: "m \<in> set ?seen" "fst kv = mp_path m"
      "pool_made cfg stats configured (configured_owner_mount configured mounts ?seen) m (snd kv)"
      using bspec [OF conjunct1 [OF fin] kv] by auto
    obtain w where "w \<in> set watched" "find_mount w mounts = Some m"
      using seen_fold [of m mounts watched "[]"] m(1) by (auto simp: seen_mounts_def)
    then show ?thesis using m by blast
  qed
  have b: "\<exists>q \<in> fst ` set (pools co) \<union> fst ` set (skipped_pools co). path_eq q (mp_path m)"
    if w: "w \<in> set watched" "find_mount w mounts = Some m" for w m
  proof -
    obtain x where "x \<in> set ?seen" "path_eq (mp_path x) (mp_path m)"
      using seen_complete [OF w, of "[]"] by (auto simp: seen_mounts_def)
    then show ?thesis using bspec [OF conjunct1 [OF conjunct2 [OF fin]]] by (intro bexI [of _ "mp_path x"])
  qed
  show ?thesis
  proof (intro conjI allI impI ballI)
    fix kv assume "kv \<in> set (pools co)"
    from a [OF this] show "case kv of (mp, p) \<Rightarrow> \<exists>m w. w \<in> set watched \<and> find_mount w mounts = Some m \<and> mp = mp_path m \<and>
        pool_made cfg stats configured (configured_owner_mount configured mounts ?seen) m p"
      by (simp add: case_prod_beta)
  qed (use b in simp)
qed

subsection \<open>Releasing frees space on the right volume\<close>

text \<open>A mount table in normal form in which no volume is mounted over the ballast directory of another.\<close>

definition mounts_ok :: "mount_point list \<Rightarrow> bool" where
  "mounts_ok mounts = ((\<forall>m \<in> set mounts. canonical (mp_path m)) \<and>
     (\<forall>m \<in> set mounts. \<forall>x \<in> set mounts. mp_path x \<noteq> path_join (mp_path m) ''.sbh'' \<and>
        mp_path x \<noteq> path_join (mp_path m) ballast_subdir))"

lemma join_render: "list_all plain_name (ss @ [n]) \<Longrightarrow> path_join (render ss) n = render (ss @ [n])"
proof -
  assume p: "list_all plain_name (ss @ [n])"
  then have n: "\<not> starts_with n ''/''" by (cases n) (auto simp: plain_name_def)
  show ?thesis
  proof (cases "ss = []")
    case True
    then show ?thesis using n by (simp add: path_join_def render_def)
  next
    case False
    then obtain rs r where ss: "ss = rs @ [r]" by (cases ss rule: rev_cases) auto
    then have "r \<noteq> []" "CHR ''/'' \<notin> set r" using p by (auto simp: plain_name_def)
    then have "last (render ss) \<noteq> CHR ''/''" "render ss \<noteq> []"
      unfolding ss render_def by (auto dest: last_in_set)
    then show ?thesis using n False by (simp add: path_join_def render_def)
  qed
qed

lemma sbh_plain: "plain_name ''.sbh''" "plain_name ''ballast''"
  by (simp_all add: plain_name_def)

lemma join_subdir:
  assumes "list_all plain_name ss"
  shows "path_join (render ss) ballast_subdir = render (ss @ [''.sbh'', ''ballast''])"
proof -
  have "path_join (render ss) ballast_subdir = path_join (render ss) ''.sbh'' @ ''/ballast''"
    by (simp add: path_join_def ballast_subdir_def)
  also have "path_join (render ss) ''.sbh'' = render (ss @ [''.sbh''])"
    using assms sbh_plain by (intro join_render) simp
  finally show ?thesis by (simp add: render_def)
qed

lemma prefix_two: "prefix rs (ss @ [a, b]) \<Longrightarrow> prefix rs ss \<or> rs = ss @ [a] \<or> rs = ss @ [a, b]"
  by (metis append_Cons append_Nil append_assoc prefix_snoc)

lemma default_dir_volume:
  assumes "mounts_ok mounts" "m \<in> set mounts"
  shows "\<exists>x. find_mount (path_join (mp_path m) ballast_subdir) mounts = Some x \<and> mp_path x = mp_path m"
proof -
  obtain ss where ss: "list_all plain_name ss" "mp_path m = render ss"
    using assms by (auto simp: mounts_ok_def canonical_def)
  let ?d = "path_join (mp_path m) ballast_subdir"
  have d: "?d = render (ss @ [''.sbh'', ''ballast''])" by (simp add: ss join_subdir)
  have pd: "list_all plain_name (ss @ [''.sbh'', ''ballast''])" using ss sbh_plain by simp
  have md: "path_starts_with ?d (mp_path m)"
    using components_render [OF pd] components_render [OF ss(1)] unfolding path_starts_with_def d by (simp add: ss(2))
  then obtain x where x: "find_mount ?d mounts = Some x" using assms(2) find_mount_None by (metis not_None_eq)
  note xs = find_mount_Some [OF x]
  obtain rs where rs: "list_all plain_name rs" "mp_path x = render rs"
    using assms(1) xs(1) by (auto simp: mounts_ok_def canonical_def)
  have "prefix (map Normal rs) (map Normal (ss @ [''.sbh'', ''ballast'']))"
    using xs(2) components_render [OF pd] components_render [OF rs(1)] unfolding path_starts_with_def d rs(2) by simp
  from prefix_two [OF prefix_map_Normal [OF this]]
  have "prefix rs ss"
  proof (elim disjE)
    assume "rs = ss @ [''.sbh'']"
    then have "mp_path x = path_join (mp_path m) ''.sbh''" using rs ss sbh_plain by (simp add: join_render)
    then show ?thesis using assms xs(1) by (auto simp: mounts_ok_def)
  next
    assume "rs = ss @ [''.sbh'', ''ballast'']"
    then have "mp_path x = ?d" using rs d by simp
    then show ?thesis using assms xs(1) by (auto simp: mounts_ok_def)
  qed
  then have "path_starts_with (mp_path m) (mp_path x)"
    by (simp add: path_starts_with_def ss rs components_render map_mono_prefix)
  then have "length (mp_path x) \<le> length (mp_path m) \<and> (length (mp_path x) = length (mp_path m) \<longrightarrow> mp_path x = mp_path m)"
    using canonical_starts [of "mp_path m" "mp_path x"] ss rs by (auto simp: canonical_def)
  moreover have "length (mp_path m) \<le> length (mp_path x)" by (rule xs(3) [OF assms(2) md])
  ultimately show ?thesis using x by auto
qed

definition on_volume :: "mount_point list \<Rightarrow> path \<times> ballast_pool_info \<Rightarrow> bool" where
  "on_volume mounts kv = (\<exists>x. find_mount (bp_dir (snd kv)) mounts = Some x \<and> path_eq (mp_path x) (fst kv))"

lemma discovered_on_volume:
  assumes "mounts_ok mounts" "m \<in> set mounts"
    and "pool_made cfg stats configured (configured_owner_mount configured mounts seen) m p"
  shows "on_volume mounts (mp_path m, p)"
proof -
  let ?ow = "configured_owner_mount configured mounts seen"
  have dir: "bp_dir p = volume_dir configured ?ow (mp_path m)" using assms(3) by (simp add: pool_made_def)
  show ?thesis
  proof (cases "\<exists>d. configured = Some d \<and> path_starts_with d (mp_path m) \<and> (\<exists>ow. ?ow = Some ow \<and> path_eq ow (mp_path m))")
    case True
    then obtain d ow where d: "configured = Some d" "path_starts_with d (mp_path m)" "?ow = Some ow" "path_eq ow (mp_path m)"
      by blast
    have "bp_dir p = d" using dir d by (simp add: volume_dir_def resolve_ballast_dir_def)
    moreover obtain x where "find_mount d mounts = Some x" "ow = mp_path x"
      using d(1,3) by (auto simp: configured_owner_mount_def split: option.splits if_splits)
    ultimately show ?thesis using d(4) by (simp add: on_volume_def)
  next
    case False
    then have "bp_dir p = path_join (mp_path m) ballast_subdir"
      using dir by (auto simp: volume_dir_def resolve_ballast_dir_def split: option.splits if_splits)
    then show ?thesis using default_dir_volume [OF assms(1,2)] by (auto simp: on_volume_def path_eq_def)
  qed
qed

datatype coord_op = ProvisionAll "nat \<Rightarrow> path \<Rightarrow> sbh_error + fs_stats" | ReleaseMount path usize
  | ReplenishMount path "(nat \<Rightarrow> f64) option" | ReconfigureAll ballast_config

fun coord_step :: "(path \<Rightarrow> storage) \<Rightarrow> codec \<Rightarrow> coord_op \<Rightarrow> coordinator \<times> disk \<Rightarrow> coordinator \<times> disk" where
  "coord_step os cd (ProvisionAll stats) st = snd (provision_all os cd stats st)"
| "coord_step os cd (ReleaseMount mp n) st = snd (release_for_mount os cd mp n st)"
| "coord_step os cd (ReplenishMount mp check) st = snd (replenish_for_mount os cd mp check st)"
| "coord_step os cd (ReconfigureAll cfg) st = coordinator_update_config os cd cfg st"

text \<open>No operation moves a pool to another directory or volume.\<close>

lemma path_lookup_Some: "path_lookup p kvs = Some v \<Longrightarrow> \<exists>q. (q, v) \<in> set kvs \<and> path_eq p q"
  by (auto simp: path_lookup_def find_Some_iff) (metis fst_conv nth_mem)

definition all_on_volume :: "mount_point list \<Rightarrow> coordinator \<Rightarrow> bool" where
  "all_on_volume mounts co = (\<forall>kv \<in> set (pools co). on_volume mounts kv)"

lemma on_volume_dir: "on_volume mounts (q, p) \<Longrightarrow> path_eq q r \<Longrightarrow> bp_dir p' = bp_dir p \<Longrightarrow> on_volume mounts (r, p')"
  by (auto simp: on_volume_def path_eq_def)

lemma set_pool_on_volume:
  assumes "all_on_volume mounts co" "path_lookup mp (pools co) = Some p"
  shows "all_on_volume mounts (set_pool mp (p\<lparr>bp_manager := mgr\<rparr>) co)"
proof -
  obtain q where q: "(q, p) \<in> set (pools co)" "path_eq mp q" using path_lookup_Some [OF assms(2)] by blast
  have "on_volume mounts (r, p\<lparr>bp_manager := mgr\<rparr>)" if "path_eq mp r" for r
    using assms(1) q that by (auto simp: all_on_volume_def path_eq_def intro: on_volume_dir [of mounts q p])
  then show ?thesis using assms(1) by (auto simp: all_on_volume_def set_pool_def)
qed

lemma provision_fold_on_volume:
  assumes "fold (provision_volume os cd stats) kvs (done, r, d) = (done', r', d')"
    "\<forall>kv \<in> set kvs. on_volume mounts kv" "\<forall>kv \<in> set done. on_volume mounts kv"
  shows "\<forall>kv \<in> set done'. on_volume mounts kv"
  using assms
proof (induction kvs arbitrary: "done" r d)
  case (Cons kv kvs)
  obtain d1 r1 e1 where st: "provision_volume os cd stats kv (done, r, d) = (d1, r1, e1)" by (metis prod.exhaust)
  obtain mp p where kv: "kv = (mp, p)" by fastforce
  have "on_volume mounts (mp, p\<lparr>bp_manager := mgr\<rparr>)" for mgr
    using Cons.prems(2) by (auto simp: kv on_volume_def)
  then have "\<forall>kv \<in> set d1. on_volume mounts kv"
    using st Cons.prems(2,3) by (auto simp: provision_volume_def kv Let_def split: sum.splits prod.splits if_splits)
  then show ?case using Cons.IH [of d1 r1 e1] Cons.prems by (simp add: st)
qed simp

lemma update_fold_on_volume:
  assumes "fold (\<lambda>(mp, pool) (done, d). let (mgr, w) = ballast_update_config (os (bp_dir pool)) cd
      (per_volume_config cfg mp) (bp_manager pool, d (components (bp_dir pool)))
      in (done @ [(mp, pool\<lparr>bp_manager := mgr\<rparr>)], d(components (bp_dir pool) := w))) kvs (done, d) = (done', d')"
    "\<forall>kv \<in> set kvs. on_volume mounts kv" "\<forall>kv \<in> set done. on_volume mounts kv"
  shows "\<forall>kv \<in> set done'. on_volume mounts kv"
  using assms
proof (induction kvs arbitrary: "done" d)
  case (Cons kv kvs)
  obtain mp p where kv: "kv = (mp, p)" by fastforce
  obtain mgr w where st: "ballast_update_config (os (bp_dir p)) cd (per_volume_config cfg mp)
      (bp_manager p, d (components (bp_dir p))) = (mgr, w)" by fastforce
  have "on_volume mounts (mp, p\<lparr>bp_manager := mgr\<rparr>)" using Cons.prems(2) by (auto simp: kv on_volume_def)
  then show ?case using Cons.IH [of "done @ [(mp, p\<lparr>bp_manager := mgr\<rparr>)]" "d(components (bp_dir p) := w)"] Cons.prems
    by (simp add: kv st)
qed simp

lemma coord_step_on_volume:
  assumes "all_on_volume mounts (fst st)"
  shows "all_on_volume mounts (fst (coord_step os cd op st))"
proof (cases op)
  case (ProvisionAll stats)
  obtain ps r d where f: "fold (provision_volume os cd stats) (pools (fst st))
      ([], \<lparr>per_volume = [], skipped_volumes = []\<rparr>, snd st) = (ps, r, d)" by (metis prod.exhaust)
  then show ?thesis using provision_fold_on_volume [OF f, of mounts] assms ProvisionAll
    by (simp add: provision_all_def all_on_volume_def case_prod_beta Let_def)
next
  case (ReleaseMount mp n)
  then show ?thesis using assms set_pool_on_volume [of mounts "fst st" mp]
    by (auto simp: release_for_mount_def Let_def split: prod.splits option.splits sum.splits)
next
  case (ReplenishMount mp check)
  then show ?thesis using assms set_pool_on_volume [of mounts "fst st" mp]
    by (auto simp: replenish_for_mount_def Let_def split: prod.splits option.splits sum.splits)
next
  case (ReconfigureAll cfg)
  obtain co d where st: "st = (co, d)" by fastforce
  show ?thesis
    using update_fold_on_volume [of os cd cfg "pools co" "[]" d _ _ mounts] assms ReconfigureAll
    by (auto simp: st coordinator_update_config_def all_on_volume_def split: prod.splits)
qed

lemma release_for_mount_local:
  assumes "release_for_mount os cd mp n (co, d) = (res, co', d')" "d' k \<noteq> d k"
  shows "\<exists>p. path_lookup mp (pools co) = Some p \<and> k = components (bp_dir p)"
  using assms by (auto simp: release_for_mount_def Let_def split: option.splits prod.splits sum.splits if_splits)


subsection \<open>A concrete volume\<close>

definition demo_mount :: mount_point where
  "demo_mount = \<lparr>mp_path = ''/'', mp_device = ''/dev/sda1'', mp_fs_type = ''ext4'', is_ram_backed = False\<rparr>"

definition demo_stats :: "path \<Rightarrow> sbh_error + fs_stats" where
  "demo_stats p = Inr \<lparr>total_bytes_of = 1000, free_bytes = 500, available_bytes = 500, fs_stat_type = ''ext4'',
     fs_mount_point = ''/'', is_readonly = False\<rparr>"

definition demo_discovery :: "(sbh_error + coordinator) \<times> disk" where
  "demo_discovery = discover_inner (\<lambda>_. demo_storage) demo_codec (\<lambda>xs. xs) demo_config [''/x''] (Inr [demo_mount])
     demo_stats None (\<lambda>_. \<lparr>w_dir = [], w_calls = 0\<rparr>)"

lemma demo_discovered: "\<exists>co d. demo_discovery = (Inr co, d)"
  by (auto simp: demo_discovery_def discover_inner_def Let_def split: prod.splits)

lemma demo_find: "find_mount ''/x'' [demo_mount] = Some demo_mount"
  by (simp add: find_mount_def demo_mount_def path_starts_with_def components_def parse_segment_def longer_mount_def
      List.map_filter_def)

lemma demo_mounts_ok: "mounts_ok [demo_mount]"
proof -
  have "canonical ''/''" unfolding canonical_def by (intro exI [of _ "[]"]) (simp add: render_def)
  then show ?thesis by (simp add: mounts_ok_def demo_mount_def path_join_def ballast_subdir_def)
qed


end
