(* ===== verification/Scan_Types.thy ===== *)
theory Scan_Types
  imports F64 Paths
begin

section \<open>What the scanner knows of a candidate\<close>

text \<open>
  The types shared by the classifier, the scorer and the policy engine: artifact categories,
  structural signals and the classification of a path (src/src/scanner/patterns.rs), the
  basenames that are disposable build artifacts, file identities (src/src/scanner/walker.rs),
  sacred-path overlaps (src/src/scanner/protection.rs), and the summary of processes that
  still use a candidate (src/src/scanner/scoring.rs).
\<close>

subsection \<open>Classification\<close>

datatype artifact_category = RustTarget | NodeModules | PythonCache | BuildOutput | CacheDir
  | GoCache | TempDir | AgentWorkspace | UnknownCategory

record structural_signals =
  has_incremental :: bool
  has_deps :: bool
  has_build :: bool
  has_fingerprint :: bool
  has_git :: bool
  has_cargo_toml :: bool
  mostly_object_files :: bool

definition rust_markers :: "structural_signals \<Rightarrow> nat" where
  "rust_markers s = of_bool (has_incremental s) + of_bool (has_deps s) + of_bool (has_fingerprint s)"

definition has_strong_signal :: "structural_signals \<Rightarrow> bool" where
  "has_strong_signal s = (rust_markers s \<ge> 2 \<or> mostly_object_files s \<or> (has_build s \<and> has_deps s))"

record artifact_classification =
  pattern_name :: string
  category :: artifact_category
  name_confidence :: f64
  structural_confidence :: f64
  combined_confidence :: f64

definition classification_unknown :: artifact_classification where
  "classification_unknown = \<lparr>pattern_name = ''unknown'', category = UnknownCategory,
     name_confidence = 0, structural_confidence = 0, combined_confidence = 0\<rparr>"

definition has_descriptive_target_suffix :: "string \<Rightarrow> bool" where
  "has_descriptive_target_suffix name =
     (case (case strip_suffix name ''-target'' of Some p \<Rightarrow> Some p
            | None \<Rightarrow> strip_suffix name ''_target'') of
        Some p \<Rightarrow> p \<noteq> [] | None \<Rightarrow> False)"

definition exact_artifacts :: "string list" where
  "exact_artifacts = [''.cargo-target'', ''.next'', ''.nuxt'', ''.parcel-cache'', ''.pytest_cache'',
     ''.rch-target'', ''.rch_target'', ''.target'', ''.tox'', ''.turbo'', ''.venv'', ''__pycache__'',
     ''build'', ''dist'', ''node_modules'', ''rch-target'', ''rch_target'', ''target'', ''venv'']"

definition is_obvious_build_artifact_basename :: "path \<Rightarrow> bool" where
  "is_obvious_build_artifact_basename p = (case file_name p of None \<Rightarrow> False
     | Some name \<Rightarrow>
        if name \<in> set exact_artifacts then True
        else if starts_with name ''target-'' \<or> starts_with name ''target_'' \<or>
          starts_with name ''.rch-target-'' \<or> starts_with name ''.rch_target_'' \<or>
          starts_with name ''rch-target-'' \<or> starts_with name ''rch_target_'' \<or>
          starts_with name ''.cargo-target-'' then True
        else has_descriptive_target_suffix name)"

subsection \<open>Identities and sacred overlaps\<close>

datatype fs_entry_kind = KFile | KDirectory | KSymlink | KOther

record fs_identity =
  device_id :: u64
  inode :: u64
  id_kind :: fs_entry_kind

datatype sacred_path_source = Builtin | UserConfig | Marker

datatype sacred_overlap_kind = ExactMatch | GlobMatch | ChildOfSacred | ParentOfSacred | ContainsSacred

fun sacred_overlap_kind_label :: "sacred_overlap_kind \<Rightarrow> string" where
  "sacred_overlap_kind_label ExactMatch = ''exact sacred path''"
| "sacred_overlap_kind_label GlobMatch = ''sacred glob match''"
| "sacred_overlap_kind_label ChildOfSacred = ''inside sacred path''"
| "sacred_overlap_kind_label ParentOfSacred = ''contains sacred path''"
| "sacred_overlap_kind_label ContainsSacred = ''contains sacred marker''"

record sacred_overlap =
  so_candidate_path :: path
  so_matched_path :: path
  so_pattern :: string
  so_kind :: sacred_overlap_kind
  so_source :: sacred_path_source
  so_reason :: string

definition sacred_summary :: "sacred_overlap \<Rightarrow> string" where
  "sacred_summary ov = sacred_overlap_kind_label (so_kind ov) @ '': pattern '' @ so_pattern ov @
     '' matched '' @ so_matched_path ov @ '' ('' @ so_reason ov @ '')''"

subsection \<open>Processes that use a candidate\<close>

record active_process =
  proc_pid :: int
  proc_name :: "string option"
  open_file_descriptors :: usize
  running_executable :: bool
  mmap_regions :: usize

record active_references =
  processes :: "active_process list"
  incomplete_reason :: "string option"

definition no_references :: active_references where
  "no_references = \<lparr>processes = [], incomplete_reason = None\<rparr>"

definition process_is_empty :: "active_process \<Rightarrow> bool" where
  "process_is_empty p = (open_file_descriptors p = 0 \<and> \<not> running_executable p \<and> mmap_regions p = 0)"

definition references_is_empty :: "active_references \<Rightarrow> bool" where
  "references_is_empty a = (incomplete_reason a = None \<and> list_all process_is_empty (processes a))"

definition fresh_process :: "int \<Rightarrow> active_process" where
  "fresh_process pid = \<lparr>proc_pid = pid, proc_name = None, open_file_descriptors = 0,
     running_executable = False, mmap_regions = 0\<rparr>"

definition name_process :: "string option \<Rightarrow> active_process \<Rightarrow> active_process" where
  "name_process name p = (if proc_name p = None then
     (case name of Some n \<Rightarrow> if n \<noteq> [] then p\<lparr>proc_name := Some n\<rparr> else p | None \<Rightarrow> p) else p)"

text \<open>\<open>process_mut\<close>: find or insert the process (sorting by pid after an insertion), name it
  if it has no name yet, and apply the caller's update to it.\<close>

fun update_first :: "('a \<Rightarrow> bool) \<Rightarrow> ('a \<Rightarrow> 'a) \<Rightarrow> 'a list \<Rightarrow> 'a list" where
  "update_first P f [] = []"
| "update_first P f (x # xs) = (if P x then f x # xs else x # update_first P f xs)"

definition process_mut ::
  "int \<Rightarrow> string option \<Rightarrow> (active_process \<Rightarrow> active_process) \<Rightarrow> active_references \<Rightarrow> active_references" where
  "process_mut pid name f a =
     (let ps = (if list_ex (\<lambda>p. proc_pid p = pid) (processes a) then processes a
                else sort_key proc_pid (processes a @ [fresh_process pid]))
      in a\<lparr>processes := update_first (\<lambda>p. proc_pid p = pid) (f \<circ> name_process name) ps\<rparr>)"

definition add_open_file_descriptor :: "int \<Rightarrow> string option \<Rightarrow> active_references \<Rightarrow> active_references" where
  "add_open_file_descriptor pid name =
     process_mut pid name (\<lambda>p. p\<lparr>open_file_descriptors := open_file_descriptors p + 1\<rparr>)"

definition add_running_executable :: "int \<Rightarrow> string option \<Rightarrow> active_references \<Rightarrow> active_references" where
  "add_running_executable pid name = process_mut pid name (\<lambda>p. p\<lparr>running_executable := True\<rparr>)"

definition add_mmap_region :: "int \<Rightarrow> string option \<Rightarrow> active_references \<Rightarrow> active_references" where
  "add_mmap_region pid name = process_mut pid name (\<lambda>p. p\<lparr>mmap_regions := mmap_regions p + 1\<rparr>)"

definition mark_incomplete :: "string \<Rightarrow> active_references \<Rightarrow> active_references" where
  "mark_incomplete reason a = a\<lparr>incomplete_reason := Some reason\<rparr>"

definition pluralize :: "usize \<Rightarrow> string \<Rightarrow> string \<Rightarrow> string" where
  "pluralize count singular plural =
     show_nat (unat count) @ '' '' @ (if count = 1 then singular else plural)"

definition show_int :: "int \<Rightarrow> string" where
  "show_int i = (if i < 0 then ''-'' @ show_nat (nat (- i)) else show_nat (nat i))"

definition process_reason :: "active_process \<Rightarrow> string" where
  "process_reason p =
     (let label = (case proc_name p of
            Some n \<Rightarrow> if n \<noteq> [] then ''pid '' @ show_int (proc_pid p) @ '' ('' @ n @ '')''
                      else ''pid '' @ show_int (proc_pid p)
          | None \<Rightarrow> ''pid '' @ show_int (proc_pid p));
          evidence =
            (if open_file_descriptors p > 0
             then [pluralize (open_file_descriptors p) ''open file descriptor'' ''open file descriptors'']
             else []) @
            (if running_executable p then [''1 running executable''] else []) @
            (if mmap_regions p > 0 then [pluralize (mmap_regions p) ''mmap region'' ''mmap regions''] else [])
      in label @ '' has '' @ join '', '' evidence)"

definition safe_reclaim_reason :: "active_references \<Rightarrow> string option" where
  "safe_reclaim_reason a =
     (let active = filter (\<lambda>p. \<not> process_is_empty p) (processes a)
      in if active = [] \<and> incomplete_reason a = None then None
         else let shown = map process_reason (take 3 active);
                  remaining = length active - length shown;
                  reasons = shown @
                    (if remaining > 0 then [''and '' @ show_nat remaining @ '' more processes''] else []) @
                    (case incomplete_reason a of Some r \<Rightarrow> [r] | None \<Rightarrow> [])
              in if active = [] then incomplete_reason a
                 else Some (''Cannot reclaim safely: '' @ join ''; '' reasons))"

lemma safe_reclaim_reason_None: "safe_reclaim_reason a = None \<longleftrightarrow> references_is_empty a"
  by (auto simp: safe_reclaim_reason_def references_is_empty_def Let_def list_all_iff filter_empty_conv)

subsection \<open>The tally of references\<close>

text \<open>What a process scan reports, one item at a time.\<close>

datatype reference_event = OpenFd int "string option" | RunsExe int "string option"
  | MapsRegion int "string option" | ScanGap string

fun apply_reference :: "reference_event \<Rightarrow> active_references \<Rightarrow> active_references" where
  "apply_reference (OpenFd pid n) = add_open_file_descriptor pid n"
| "apply_reference (RunsExe pid n) = add_running_executable pid n"
| "apply_reference (MapsRegion pid n) = add_mmap_region pid n"
| "apply_reference (ScanGap r) = mark_incomplete r"

fun fd_of :: "int \<Rightarrow> reference_event \<Rightarrow> bool" where
  "fd_of pid (OpenFd q _) = (q = pid)" | "fd_of pid _ = False"
fun exe_of :: "int \<Rightarrow> reference_event \<Rightarrow> bool" where
  "exe_of pid (RunsExe q _) = (q = pid)" | "exe_of pid _ = False"
fun map_of_pid :: "int \<Rightarrow> reference_event \<Rightarrow> bool" where
  "map_of_pid pid (MapsRegion q _) = (q = pid)" | "map_of_pid pid _ = False"
fun gap_of :: "reference_event \<Rightarrow> bool" where
  "gap_of (ScanGap _) = True" | "gap_of _ = False"

definition tallied :: "reference_event list \<Rightarrow> active_process \<Rightarrow> bool" where
  "tallied evs p = (open_file_descriptors p = of_nat (length (filter (fd_of (proc_pid p)) evs)) \<and>
     running_executable p = list_ex (exe_of (proc_pid p)) evs \<and>
     mmap_regions p = of_nat (length (filter (map_of_pid (proc_pid p)) evs)))"

definition tally_inv :: "reference_event list \<Rightarrow> active_references \<Rightarrow> bool" where
  "tally_inv evs a = (sorted_wrt (<) (map proc_pid (processes a)) \<and>
     (\<forall>p \<in> set (processes a). tallied evs p) \<and>
     (\<forall>pid. pid \<notin> proc_pid ` set (processes a) \<longrightarrow>
        \<not> list_ex (\<lambda>e. fd_of pid e \<or> exe_of pid e \<or> map_of_pid pid e) evs) \<and>
     (incomplete_reason a \<noteq> None) = list_ex gap_of evs)"

lemma update_first_distinct:
  "distinct (map k xs) \<Longrightarrow> update_first (\<lambda>x. k x = v) f xs = map (\<lambda>x. if k x = v then f x else x) xs"
proof (induction xs)
  case (Cons x xs)
  have "map (\<lambda>y. if k y = v then f y else y) xs = xs" if "k x = v"
    using Cons.prems that by (intro map_idI) (auto simp: image_iff)
  then show ?case using Cons by auto
qed simp

lemma name_process_pid [simp]:
  "proc_pid (name_process n p) = proc_pid p"
  "open_file_descriptors (name_process n p) = open_file_descriptors p"
  "running_executable (name_process n p) = running_executable p"
  "mmap_regions (name_process n p) = mmap_regions p"
  by (auto simp: name_process_def split: option.splits)

lemma process_mut_spec:
  fixes pid :: int and name :: "string option"
  assumes sorted: "sorted_wrt (<) (map proc_pid (processes a))" and f: "\<And>p. proc_pid (f p) = proc_pid p"
  defines "b \<equiv> process_mut pid name f a"
  defines "old \<equiv> (if pid \<in> proc_pid ` set (processes a) then set (processes a)
    else insert (fresh_process pid) (set (processes a)))"
  shows "sorted_wrt (<) (map proc_pid (processes b))"
    and "set (processes b) = (\<lambda>p. if proc_pid p = pid then f (name_process name p) else p) ` old"
    and "incomplete_reason b = incomplete_reason a"
proof -
  define ps where "ps = (if list_ex (\<lambda>p. proc_pid p = pid) (processes a) then processes a
                else sort_key proc_pid (processes a @ [fresh_process pid]))"
  have dist: "distinct (map proc_pid (processes a))" "sorted (map proc_pid (processes a))"
    using sorted by (simp_all add: strict_sorted_iff)
  have "distinct (map proc_pid (processes a @ [fresh_process pid]))"
    if "\<not> list_ex (\<lambda>p. proc_pid p = pid) (processes a)"
    using that dist by (auto simp: fresh_process_def list_ex_iff)
  then have ds: "distinct (map proc_pid ps)" "sorted (map proc_pid ps)"
    using dist by (auto simp: ps_def distinct_map)
  from ds have pb: "processes b = map (\<lambda>p. if proc_pid p = pid then f (name_process name p) else p) ps"
    by (simp add: b_def process_mut_def update_first_distinct ps_def [symmetric] o_def)
  have po: "set ps = old" by (auto simp: ps_def old_def list_ex_iff)
  have "proc_pid (if proc_pid p = pid then f (name_process name p) else p) = proc_pid p" for p
    by (simp add: f)
  then have "map proc_pid (processes b) = map proc_pid ps" unfolding pb by simp
  then show "sorted_wrt (<) (map proc_pid (processes b))"
    using ds by (simp only: strict_sorted_iff)
  show "set (processes b) = (\<lambda>p. if proc_pid p = pid then f (name_process name p) else p) ` old"
    by (simp only: pb po set_map)
  show "incomplete_reason b = incomplete_reason a" by (simp add: b_def process_mut_def Let_def)
qed

lemma tally_mut:
  assumes inv: "tally_inv evs a" and f: "\<And>p. proc_pid (f p) = proc_pid p"
    and own: "\<And>p. proc_pid p = pid \<Longrightarrow> tallied evs p \<Longrightarrow> tallied (evs @ [e]) (f (name_process n p))"
    and other: "\<And>q. q \<noteq> pid \<Longrightarrow> \<not> fd_of q e \<and> \<not> exe_of q e \<and> \<not> map_of_pid q e" and gap: "\<not> gap_of e"
  shows "tally_inv (evs @ [e]) (process_mut pid n f a)"
proof -
  have srt: "sorted_wrt (<) (map proc_pid (processes a))" using inv by (simp add: tally_inv_def)
  note sp = process_mut_spec [OF srt f, of pid n]
  have fresh: "tallied evs (fresh_process pid)" if "pid \<notin> proc_pid ` set (processes a)"
  proof -
    have "\<forall>e \<in> set evs. \<not> fd_of pid e \<and> \<not> exe_of pid e \<and> \<not> map_of_pid pid e"
      using inv that by (auto simp: tally_inv_def list_ex_iff)
    then show ?thesis by (auto simp: tallied_def fresh_process_def list_ex_iff)
  qed
  define old where "old = (if pid \<in> proc_pid ` set (processes a) then set (processes a)
    else insert (fresh_process pid) (set (processes a)))"
  have old: "\<forall>p \<in> old. tallied evs p" using inv fresh by (auto simp: old_def tally_inv_def)
  have step: "tallied (evs @ [e]) p" if "proc_pid p \<noteq> pid" "tallied evs p" for p
    using other [OF that(1)] that(2) by (simp add: tallied_def)
  have new: "set (processes (process_mut pid n f a)) =
      (\<lambda>p. if proc_pid p = pid then f (name_process n p) else p) ` old"
    using sp(2) by (simp only: old_def)
  have "\<forall>p \<in> set (processes (process_mut pid n f a)). tallied (evs @ [e]) p"
    unfolding new using old own step by auto
  moreover have "proc_pid ` set (processes (process_mut pid n f a)) = insert pid (proc_pid ` set (processes a))"
  proof -
    have "proc_pid (if proc_pid p = pid then f (name_process n p) else p) = proc_pid p" for p
      by (simp add: f)
    then have "proc_pid ` set (processes (process_mut pid n f a)) = proc_pid ` old"
      unfolding new image_image by simp
    then show ?thesis by (auto simp: old_def fresh_process_def)
  qed
  ultimately show ?thesis using inv sp(1,3) other gap by (auto simp: tally_inv_def)
qed

lemma tally_step: "tally_inv evs a \<Longrightarrow> tally_inv (evs @ [e]) (apply_reference e a)"
proof (cases e)
  case (ScanGap r)
  assume "tally_inv evs a"
  then show ?thesis by (auto simp: ScanGap tally_inv_def tallied_def mark_incomplete_def)
next
  case (OpenFd pid n)
  assume "tally_inv evs a"
  then show ?thesis unfolding OpenFd apply_reference.simps add_open_file_descriptor_def
    by (rule tally_mut) (simp_all add: tallied_def)
next
  case (RunsExe pid n)
  assume "tally_inv evs a"
  then show ?thesis unfolding RunsExe apply_reference.simps add_running_executable_def
    by (rule tally_mut) (simp_all add: tallied_def)
next
  case (MapsRegion pid n)
  assume "tally_inv evs a"
  then show ?thesis unfolding MapsRegion apply_reference.simps add_mmap_region_def
    by (rule tally_mut) (simp_all add: tallied_def)
qed

lemma tally_all: "tally_inv evs (fold apply_reference evs no_references)"
proof (induction evs rule: rev_induct)
  case Nil
  show ?case by (simp add: tally_inv_def no_references_def)
next
  case (snoc e evs)
  then show ?case using tally_step by simp
qed

lemma word_of_nat_0: "n < 2 ^ 64 \<Longrightarrow> (of_nat n :: usize) = 0 \<longleftrightarrow> n = 0"
proof -
  assume n: "n < 2 ^ 64"
  then have u: "unat (of_nat n :: usize) = n" by (intro unat_of_nat_small) simp
  show ?thesis
  proof
    assume "(of_nat n :: usize) = 0"
    then have "unat (of_nat n :: usize) = 0" by (simp only: unsigned_0)
    then show "n = 0" by (simp only: u)
  qed simp
qed

text \<open>Whatever a process scan reports, in any order, the summary keeps
  one entry per process in strictly increasing pid order, and it blocks reclaiming as soon as a
  single open descriptor, running executable, mapping or scan gap was reported, and only then.\<close>

lemma any_reference_blocks:
  assumes "length evs < 2 ^ 64"
  shows "sorted_wrt (<) (map proc_pid (processes (fold apply_reference evs no_references))) \<and>
    (safe_reclaim_reason (fold apply_reference evs no_references) = None) = (evs = [])"
proof -
  define a where "a = fold apply_reference evs no_references"
  have inv: "tally_inv evs a" using tally_all by (simp add: a_def)
  have "\<not> references_is_empty a" if "e \<in> set evs" for e
  proof (cases "gap_of e")
    case True
    then show ?thesis using inv that by (auto simp: tally_inv_def references_is_empty_def list_ex_iff)
  next
    case False
    then obtain pid where pid: "fd_of pid e \<or> exe_of pid e \<or> map_of_pid pid e" by (cases e) auto
    then have "pid \<in> proc_pid ` set (processes a)" using inv that by (auto simp: tally_inv_def list_ex_iff)
    then obtain p where p: "p \<in> set (processes a)" "proc_pid p = pid" by auto
    then have t: "tallied evs p" using inv by (simp add: tally_inv_def)
    have "filter P evs \<noteq> [] \<Longrightarrow> (of_nat (length (filter P evs)) :: usize) \<noteq> 0" for P
      using word_of_nat_0 [of "length (filter P evs)"] le_less_trans [OF length_filter_le assms] by simp
    then have "\<not> process_is_empty p"
      using t pid p(2) that by (auto simp: tallied_def process_is_empty_def list_ex_iff filter_empty_conv)
    then show ?thesis using p(1) by (auto simp: references_is_empty_def list_all_iff)
  qed
  moreover have "references_is_empty a" if "evs = []"
    using that by (simp add: a_def no_references_def references_is_empty_def)
  ultimately have "references_is_empty a = (evs = [])" by (cases evs) auto
  then show ?thesis using inv by (simp add: a_def tally_inv_def safe_reclaim_reason_None)
qed

end
