(* ===== verification/Cleanup_Catalog.thy ===== *)
theory Cleanup_Catalog
  imports Paths
begin

section \<open>The cleanup catalog (src/src/platform/cleanup_catalog.rs and the two tables)\<close>

text \<open>
  The rule model and its path-matching engine (text normalisation, the \<open>/tmp\<close> alias, home
  globs, the segment-wise glob matcher), and the static Linux and macOS rule tables. The
  environment variable \<open>HOME\<close> is the argument \<open>env\<close>. Durations are nanoseconds.
\<close>

subsection \<open>Rules\<close>

datatype cleanup_confidence = Definite | Likely | Unclear | ReportOnlyConf | Sacred
datatype check_requirement = Required | NotRequired
datatype reclaim_command = RemoveTree | RemoveMatchingFiles | ThinLocalSnapshots
  | PromptBeforeRemove | ReportOnly | Refuse

definition age_none :: duration where
  "age_none = 0"

definition age_from_hours :: "nat \<Rightarrow> duration" where
  "age_from_hours h = secs (h * 60 * 60)"

definition age_from_days :: "nat \<Rightarrow> duration" where
  "age_from_days d = age_from_hours (d * 24)"

record cleanup_rule =
  rule_name :: string
  path_glob :: string
  age_threshold :: duration
  fd_check :: check_requirement
  parent_check :: check_requirement
  sacred_overlaps_check :: check_requirement
  reclaim_command :: reclaim_command
  rule_confidence :: cleanup_confidence

definition is_destructive :: "cleanup_rule \<Rightarrow> bool" where
  "is_destructive r = (reclaim_command r \<in>
     {RemoveTree, RemoveMatchingFiles, ThinLocalSnapshots, PromptBeforeRemove})"

definition is_path_scanner_candidate :: "cleanup_rule \<Rightarrow> bool" where
  "is_path_scanner_candidate r = (reclaim_command r \<in> {RemoveTree, RemoveMatchingFiles, PromptBeforeRemove})"

definition is_report_only :: "cleanup_rule \<Rightarrow> bool" where
  "is_report_only r = (reclaim_command r = ReportOnly)"

definition is_scan_visible_candidate :: "cleanup_rule \<Rightarrow> bool" where
  "is_scan_visible_candidate r = (is_path_scanner_candidate r \<or> is_report_only r)"

definition scanner_label :: "cleanup_rule \<Rightarrow> string" where
  "scanner_label r = (let n = rule_name r in
     if starts_with n ''user-named-trash'' then ''user-named-trash''
     else if starts_with n ''electron-cache-root'' then ''electron-cache''
     else if starts_with n ''electron-code-cache-root'' then ''electron-code-cache''
     else if starts_with n ''electron-gpu-cache-root'' then ''electron-gpu-cache''
     else if starts_with n ''electron-indexed-db-root'' then ''electron-indexed-db''
     else if starts_with n ''electron-vm-bundles-root'' then ''electron-vm-bundles''
     else if starts_with n ''electron-service-worker-cache-root'' then ''electron-service-worker-cache''
     else n)"

definition find_rule :: "cleanup_rule list \<Rightarrow> string \<Rightarrow> cleanup_rule option" where
  "find_rule rules name = List.find (\<lambda>r. rule_name r = name \<or> scanner_label r = name) rules"

subsection \<open>Text normalisation\<close>

fun replace_double_slash :: "string \<Rightarrow> string" where
  "replace_double_slash (CHR ''/'' # CHR ''/'' # s) = CHR ''/'' # replace_double_slash s"
| "replace_double_slash (c # s) = c # replace_double_slash s"
| "replace_double_slash [] = []"

lemma replace_double_slash_length: "length (replace_double_slash s) \<le> length s"
  by (induction s rule: replace_double_slash.induct) auto

lemma starts_with_two: "starts_with s [a, b] \<longleftrightarrow> (\<exists>r. s = a # b # r)"
  by (auto simp: starts_with_iff)

lemma replace_double_slash_shrinks:
  "str_contains s ''//'' \<Longrightarrow> length (replace_double_slash s) < length s"
proof (induction s rule: replace_double_slash.induct)
  case (1 s)
  then show ?case using replace_double_slash_length [of s] by simp
qed (auto simp: starts_with_two)

function collapse_slashes :: "string \<Rightarrow> string" where
  "collapse_slashes s = (if str_contains s ''//'' then collapse_slashes (replace_double_slash s) else s)"
  by auto
termination
  by (relation "measure length") (auto intro: replace_double_slash_shrinks)

declare collapse_slashes.simps [simp del]

definition normalize_text :: "string \<Rightarrow> string" where
  "normalize_text raw =
     to_lower (collapse_slashes (map (\<lambda>c. if c = CHR 0x5C then CHR ''/'' else c) raw))"

definition path_aliases :: "string \<Rightarrow> string list" where
  "path_aliases text =
     text # (if text = ''/tmp'' then [''/private/tmp'']
             else case strip_prefix text ''/tmp/'' of
                    Some tail \<Rightarrow> [''/private/tmp/'' @ tail] | None \<Rightarrow> [])"

definition strip_home_prefix :: "string \<Rightarrow> string \<Rightarrow> string option" where
  "strip_home_prefix text home =
     (if text = home then Some [] else strip_prefix text (home @ ''/''))"

definition env_home_text :: "string \<Rightarrow> string" where
  "env_home_text home = to_lower (map (\<lambda>c. if c = CHR 0x5C then CHR ''/'' else c) home)"

definition home_relative_path :: "string option \<Rightarrow> string \<Rightarrow> string option \<Rightarrow> string option" where
  "home_relative_path env text explicit_home =
     (case Option.bind explicit_home (strip_home_prefix text) of Some r \<Rightarrow> Some r
      | None \<Rightarrow>
     (case Option.bind env (\<lambda>h. strip_home_prefix text (env_home_text h)) of Some r \<Rightarrow> Some r
      | None \<Rightarrow>
     (case (case strip_prefix text ''/users/'' of Some r \<Rightarrow> Some r
            | None \<Rightarrow> strip_prefix text ''/home/'') of
        None \<Rightarrow> None
      | Some relative \<Rightarrow> map_option snd (split_once (CHR ''/'') relative))))"

subsection \<open>The glob matcher\<close>

definition find_index :: "('a \<Rightarrow> bool) \<Rightarrow> 'a list \<Rightarrow> nat option" where
  "find_index P xs = (let n = length (takeWhile (\<lambda>x. \<not> P x) xs) in
     if n < length xs then Some n else None)"

function glob_match :: "string \<Rightarrow> string \<Rightarrow> bool" where
  "glob_match [] text = (text = [])"
| "glob_match (c # ps) text =
     (if c = CHR ''*'' then
        let rest = dropWhile (\<lambda>x. x = CHR ''*'') ps;
            slash_offset = length (takeWhile (\<lambda>x. x \<noteq> CHR ''/'') text)
        in list_ex (\<lambda>offset. glob_match rest (drop offset text)) [0..<Suc slash_offset]
      else if c = CHR ''?'' then
        (case text of [] \<Rightarrow> False | x # ts \<Rightarrow> x \<noteq> CHR ''/'' \<and> glob_match ps ts)
      else if c = CHR ''['' then
        (case find_index (\<lambda>x. x = CHR '']'') ps of
           None \<Rightarrow> (case text of [] \<Rightarrow> False | x # ts \<Rightarrow> x = CHR ''['' \<and> glob_match ps ts)
         | Some class_end \<Rightarrow>
             (case text of [] \<Rightarrow> False
              | x # ts \<Rightarrow> x \<noteq> CHR ''/'' \<and> x \<in> set (take class_end ps) \<and>
                  glob_match (drop (Suc class_end) ps) ts))
      else (case text of [] \<Rightarrow> False | x # ts \<Rightarrow> x = c \<and> glob_match ps ts))"
  by pat_completeness auto
termination
  by (relation "measure (length \<circ> fst)")
     (auto simp: less_Suc_eq_le length_dropWhile_le)

declare glob_match.simps(2) [simp del]

definition path_matches_glob_inner ::
  "string option \<Rightarrow> path \<Rightarrow> string \<Rightarrow> path option \<Rightarrow> bool" where
  "path_matches_glob_inner env p glob home =
     (let cands = path_aliases (normalize_text p);
          explicit_home = map_option normalize_text home
      in case strip_prefix glob ''~/'' of
           Some home_glob \<Rightarrow>
             list_ex (\<lambda>relative. glob_match (normalize_text home_glob) relative)
               (List.map_filter (\<lambda>c. home_relative_path env c explicit_home) cands)
         | None \<Rightarrow> list_ex (\<lambda>c. glob_match (normalize_text glob) c) cands)"

definition path_matches_glob :: "string option \<Rightarrow> path \<Rightarrow> string \<Rightarrow> bool" where
  "path_matches_glob env p glob = path_matches_glob_inner env p glob None"

definition path_matches_glob_with_home :: "string option \<Rightarrow> path \<Rightarrow> string \<Rightarrow> path \<Rightarrow> bool" where
  "path_matches_glob_with_home env p glob home = path_matches_glob_inner env p glob (Some home)"

definition match_rule :: "string option \<Rightarrow> path \<Rightarrow> cleanup_rule list \<Rightarrow> cleanup_rule option" where
  "match_rule env p rules = List.find (\<lambda>r. path_matches_glob env p (path_glob r)) rules"

definition match_rule_with_home ::
  "string option \<Rightarrow> path \<Rightarrow> cleanup_rule list \<Rightarrow> path \<Rightarrow> cleanup_rule option" where
  "match_rule_with_home env p rules home =
     List.find (\<lambda>r. path_matches_glob_with_home env p (path_glob r) home) rules"

definition match_path_scanner_rule ::
  "string option \<Rightarrow> path \<Rightarrow> cleanup_rule list \<Rightarrow> cleanup_rule option" where
  "match_path_scanner_rule env p rules =
     List.find (\<lambda>r. is_path_scanner_candidate r \<and> path_matches_glob env p (path_glob r)) rules"

definition match_path_scanner_rule_with_home ::
  "string option \<Rightarrow> path \<Rightarrow> cleanup_rule list \<Rightarrow> path \<Rightarrow> cleanup_rule option" where
  "match_path_scanner_rule_with_home env p rules home =
     List.find (\<lambda>r. is_path_scanner_candidate r \<and>
       path_matches_glob_with_home env p (path_glob r) home) rules"

definition match_scan_visible_rule ::
  "string option \<Rightarrow> path \<Rightarrow> cleanup_rule list \<Rightarrow> cleanup_rule option" where
  "match_scan_visible_rule env p rules =
     List.find (\<lambda>r. is_scan_visible_candidate r \<and> path_matches_glob env p (path_glob r)) rules"

definition match_scan_visible_rule_with_home ::
  "string option \<Rightarrow> path \<Rightarrow> cleanup_rule list \<Rightarrow> path \<Rightarrow> cleanup_rule option" where
  "match_scan_visible_rule_with_home env p rules home =
     List.find (\<lambda>r. is_scan_visible_candidate r \<and>
       path_matches_glob_with_home env p (path_glob r) home) rules"

subsection \<open>What a glob means\<close>

text \<open>The language of a glob, independent of the matcher's backtracking: a pattern is a list of
  tokens, a star stands for any text without a separator, \<open>?\<close> and a class for one character
  that is not a separator, anything else for itself.\<close>

datatype glob_token = Star | AnyChar | OneOf string | Lit char

function parse_glob :: "string \<Rightarrow> glob_token list" where
  "parse_glob [] = []"
| "parse_glob (c # ps) =
     (if c = CHR ''*'' then Star # parse_glob ps
      else if c = CHR ''?'' then AnyChar # parse_glob ps
      else if c = CHR ''['' then
        (case find_index (\<lambda>x. x = CHR '']'') ps of
           None \<Rightarrow> Lit c # parse_glob ps
         | Some e \<Rightarrow> OneOf (take e ps) # parse_glob (drop (Suc e) ps))
      else Lit c # parse_glob ps)"
  by pat_completeness auto
termination
  by (relation "measure length") auto

declare parse_glob.simps(2) [simp del]

inductive glob_den :: "glob_token list \<Rightarrow> string \<Rightarrow> bool" where
  den_nil: "glob_den [] []"
| den_star: "CHR ''/'' \<notin> set u \<Longrightarrow> glob_den ts v \<Longrightarrow> glob_den (Star # ts) (u @ v)"
| den_any: "x \<noteq> CHR ''/'' \<Longrightarrow> glob_den ts v \<Longrightarrow> glob_den (AnyChar # ts) (x # v)"
| den_class: "x \<noteq> CHR ''/'' \<Longrightarrow> x \<in> set cs \<Longrightarrow> glob_den ts v \<Longrightarrow> glob_den (OneOf cs # ts) (x # v)"
| den_lit: "glob_den ts v \<Longrightarrow> glob_den (Lit x # ts) (x # v)"

inductive_simps den_nil_iff [simp]: "glob_den [] t"
inductive_simps den_star_iff: "glob_den (Star # ts) t"
inductive_simps den_any_iff [simp]: "glob_den (AnyChar # ts) t"
inductive_simps den_class_iff [simp]: "glob_den (OneOf cs # ts) t"
inductive_simps den_lit_iff [simp]: "glob_den (Lit x # ts) t"

lemma den_star_drop:
  "glob_den (Star # ts) t \<longleftrightarrow>
     (\<exists>k \<le> length (takeWhile (\<lambda>x. x \<noteq> CHR ''/'') t). glob_den ts (drop k t))"
proof
  assume "glob_den (Star # ts) t"
  then obtain u v where uv: "t = u @ v" "CHR ''/'' \<notin> set u" "glob_den ts v"
    by (auto simp: den_star_iff)
  have "takeWhile (\<lambda>x. x \<noteq> CHR ''/'') t = u @ takeWhile (\<lambda>x. x \<noteq> CHR ''/'') v"
    unfolding uv(1) using uv(2) by (intro takeWhile_append2) auto
  then show "\<exists>k \<le> length (takeWhile (\<lambda>x. x \<noteq> CHR ''/'') t). glob_den ts (drop k t)"
    using uv by (intro exI [of _ "length u"]) simp
next
  assume "\<exists>k \<le> length (takeWhile (\<lambda>x. x \<noteq> CHR ''/'') t). glob_den ts (drop k t)"
  then obtain k where k: "k \<le> length (takeWhile (\<lambda>x. x \<noteq> CHR ''/'') t)" "glob_den ts (drop k t)"
    by blast
  have "take k t = take k (takeWhile (\<lambda>x. x \<noteq> CHR ''/'') t)"
    using k(1) by (metis append_take_drop_id min.absorb1 take_append take_take takeWhile_dropWhile_id
        append.right_neutral diff_is_0_eq take0)
  then have "CHR ''/'' \<notin> set (take k t)" by (metis in_set_takeD set_takeWhileD)
  then show "glob_den (Star # ts) t" using den_star [of "take k t" ts "drop k t"] k(2) by simp
qed

text \<open>Runs of stars mean one star.\<close>

lemma den_star_star: "glob_den (Star # Star # ts) t \<longleftrightarrow> glob_den (Star # ts) t"
proof
  assume "glob_den (Star # Star # ts) t"
  then obtain u v w where "t = u @ v @ w" "CHR ''/'' \<notin> set u" "CHR ''/'' \<notin> set v" "glob_den ts w"
    by (auto simp: den_star_iff)
  then show "glob_den (Star # ts) t" using den_star [of "u @ v" ts w] by simp
next
  assume "glob_den (Star # ts) t"
  then show "glob_den (Star # Star # ts) t" using den_star [of "[]" "Star # ts" t] by simp
qed

lemma den_star_run:
  "glob_den (Star # parse_glob ps) t \<longleftrightarrow>
   glob_den (Star # parse_glob (dropWhile (\<lambda>x. x = CHR ''*'') ps)) t"
  by (induction ps) (auto simp: parse_glob.simps den_star_star)

lemma glob_match_den: "glob_match p t \<longleftrightarrow> glob_den (parse_glob p) t"
proof (induction p t rule: glob_match.induct)
  case (2 c ps t)
  consider (star) "c = CHR ''*''" | (any) "c = CHR ''?''" | (cls) "c = CHR ''[''"
    | (lit) "c \<noteq> CHR ''*''" "c \<noteq> CHR ''?''" "c \<noteq> CHR ''[''" by blast
  then show ?case
  proof cases
    case star
    let ?rest = "dropWhile (\<lambda>x. x = CHR ''*'') ps"
    let ?n = "length (takeWhile (\<lambda>x. x \<noteq> CHR ''/'') t)"
    have "glob_match (c # ps) t \<longleftrightarrow> (\<exists>k \<le> ?n. glob_match ?rest (drop k t))"
      unfolding glob_match.simps(2) star Let_def by (auto simp: list_ex_iff less_Suc_eq_le simp del: upt_Suc)
    also have "\<dots> \<longleftrightarrow> (\<exists>k \<le> ?n. glob_den (parse_glob ?rest) (drop k t))"
      by (intro ex_cong1 conj_cong refl "2.IH"(1) [OF star refl refl]) (simp add: less_Suc_eq_le del: upt_Suc)
    also have "\<dots> \<longleftrightarrow> glob_den (Star # parse_glob ps) t"
      unfolding den_star_drop [symmetric] by (rule den_star_run [symmetric])
    finally show ?thesis by (simp add: parse_glob.simps(2) star)
  next
    case any
    then show ?thesis using "2.IH"(2) by (auto simp: glob_match.simps(2) parse_glob.simps(2) split: list.splits)
  next
    case cls
    show ?thesis
    proof (cases "find_index (\<lambda>x. x = CHR '']'') ps")
      case None
      then show ?thesis using "2.IH"(3) cls
        by (auto simp: glob_match.simps(2) parse_glob.simps(2) split: list.splits)
    next
      case (Some e)
      then show ?thesis using "2.IH"(4) cls
        by (auto simp: glob_match.simps(2) parse_glob.simps(2) split: list.splits)
    qed
  next
    case lit
    then show ?thesis using "2.IH"(5)
      by (auto simp: glob_match.simps(2) parse_glob.simps(2) split: list.splits)
  qed
qed simp

text \<open>The backtracking matcher decides exactly the language of the glob,
  for every pattern and text, nested stars, unclosed brackets and runs of stars included.\<close>

lemma glob_match_meaning: "glob_match p t = glob_den (parse_glob p) t"
  by (rule glob_match_den)

lemma den_separators: "glob_den ts t \<Longrightarrow> count_list t (CHR ''/'') = count_list ts (Lit (CHR ''/''))"
  by (induction rule: glob_den.induct) auto

subsection \<open>Normalised text\<close>

lemma ascii_lower_cases:
  "ascii_lower c = c \<or> 97 \<le> (of_char (ascii_lower c) :: nat) \<and> (of_char (ascii_lower c) :: nat) \<le> 122"
  by (auto simp: ascii_lower_def Let_def)

lemma ascii_lower_slash [simp]: "ascii_lower c = CHR ''/'' \<longleftrightarrow> c = CHR ''/''"
proof
  assume e: "ascii_lower c = CHR ''/''"
  then have "of_char (ascii_lower c) = (47::nat)" by simp
  then show "c = CHR ''/''" using ascii_lower_cases [of c] e by auto
qed (simp add: ascii_lower_def)

lemma ascii_lower_idem [simp]: "ascii_lower (ascii_lower c) = ascii_lower c"
proof (cases "ascii_lower c = c")
  case False
  then show ?thesis
    using ascii_lower_cases [of c] by (auto simp: ascii_lower_def [of "ascii_lower c"] Let_def)
qed simp

lemma ascii_lower_backslash: "c \<noteq> CHR 0x5C \<Longrightarrow> ascii_lower c \<noteq> CHR 0x5C"
proof
  assume c: "c \<noteq> CHR 0x5C" and e: "ascii_lower c = CHR 0x5C"
  then have "of_char (ascii_lower c) = (92::nat)" by simp
  then show False using ascii_lower_cases [of c] e c by auto
qed

lemma replace_double_slash_set: "set (replace_double_slash s) \<subseteq> set s"
  by (induction s rule: replace_double_slash.induct) auto

lemma collapse_set: "set (collapse_slashes s) \<subseteq> set s"
proof (induction s rule: collapse_slashes.induct)
  case (1 s)
  then show ?case using replace_double_slash_set [of s]
    by (subst collapse_slashes.simps) (auto split: if_splits)
qed

lemma collapse_clean: "\<not> str_contains (collapse_slashes s) ''//''"
proof (induction s rule: collapse_slashes.induct)
  case (1 s)
  show ?case
  proof (cases "str_contains s ''//''")
    case True
    then show ?thesis using 1 by (simp only: collapse_slashes.simps [of s] if_True not_False_eq_True)
  qed (simp only: collapse_slashes.simps [of s] if_False not_False_eq_True)
qed

lemma lower_starts: "starts_with (map ascii_lower s) ''//'' = starts_with s ''//''"
  by (auto simp: starts_with_two map_eq_Cons_conv)

lemma lower_contains: "str_contains (to_lower s) ''//'' = str_contains s ''//''"
  unfolding to_lower_def
proof (induction s)
  case (Cons c s)
  then show ?case using lower_starts [of "c # s"] by simp
qed simp

lemma normal_no_backslash: "CHR 0x5C \<notin> set (normalize_text raw)"
proof
  let ?m = "map (\<lambda>c. if c = CHR 0x5C then CHR ''/'' else c) raw"
  assume "CHR 0x5C \<in> set (normalize_text raw)"
  then obtain c where c: "c \<in> set (collapse_slashes ?m)" "ascii_lower c = CHR 0x5C"
    by (auto simp only: normalize_text_def to_lower_def set_map image_iff)
  then have "c \<in> set ?m" using collapse_set by blast
  then have "c \<noteq> CHR 0x5C" by auto
  then show False using ascii_lower_backslash c(2) by blast
qed

lemma normal_no_double: "\<not> str_contains (normalize_text raw) ''//''"
  by (simp add: normalize_text_def lower_contains collapse_clean)

lemma normalize_fixed: "\<not> str_contains s ''//'' \<Longrightarrow> CHR 0x5C \<notin> set s \<Longrightarrow> normalize_text s = to_lower s"
proof -
  assume s: "\<not> str_contains s ''//''" "CHR 0x5C \<notin> set s"
  have "map (\<lambda>c. if c = CHR 0x5C then CHR ''/'' else c) s = s"
    using s(2) by (intro map_idI) auto
  then show ?thesis using s(1) by (simp add: normalize_text_def collapse_slashes.simps)
qed

text \<open>Normalising a path always ends, leaves no doubled separator and no
  backslash, and doing it twice changes nothing, so a path and its normal form match the same
  rules.\<close>

lemma normalize_text_normal:
  "\<not> str_contains (normalize_text raw) ''//'' \<and> CHR 0x5C \<notin> set (normalize_text raw) \<and>
   normalize_text (normalize_text raw) = normalize_text raw \<and>
   path_matches_glob env (normalize_text raw) glob = path_matches_glob env raw glob"
proof -
  have "normalize_text (normalize_text raw) = to_lower (normalize_text raw)"
    using normalize_fixed [OF normal_no_double normal_no_backslash] .
  also have "\<dots> = normalize_text raw" by (simp add: normalize_text_def to_lower_def)
  finally show ?thesis
    by (simp add: normal_no_double normal_no_backslash path_matches_glob_def path_matches_glob_inner_def)
qed

subsection \<open>Matching a path\<close>

text \<open>A text lies \<open>rel\<close> below the directory \<open>h\<close>.\<close>

definition below_home :: "string \<Rightarrow> string \<Rightarrow> string \<Rightarrow> bool" where
  "below_home h rel text = (text = h \<and> rel = [] \<or> text = h @ ''/'' @ rel)"

lemma strip_home_below: "strip_home_prefix text h = Some rel \<Longrightarrow> below_home h rel text"
  by (auto simp: strip_home_prefix_def below_home_def strip_prefix_Some split: if_splits)

lemma split_once_Some: "split_once d s = Some (a, b) \<Longrightarrow> s = a @ d # b \<and> d \<notin> set a"
  by (induction s arbitrary: a) (auto split: if_splits)

text \<open>The directories taken for homes: the environment's, and each user's.\<close>

definition is_home :: "string option \<Rightarrow> string \<Rightarrow> bool" where
  "is_home env h = (env \<noteq> None \<and> h = env_home_text (the env) \<or>
     (\<exists>u. CHR ''/'' \<notin> set u \<and> (h = ''/users/'' @ u \<or> h = ''/home/'' @ u)))"

lemma home_relative_below:
  assumes "home_relative_path env text None = Some rel"
  shows "\<exists>h. below_home h rel text \<and> is_home env h"
proof (cases "Option.bind env (\<lambda>h. strip_home_prefix text (env_home_text h))")
  case (Some r)
  then obtain h where h: "env = Some h" "strip_home_prefix text (env_home_text h) = Some r"
    by (auto simp: bind_eq_Some_conv)
  have "r = rel" using assms Some by (simp add: home_relative_path_def)
  then show ?thesis using strip_home_below [OF h(2)] h(1) by (auto simp: is_home_def)
next
  case None
  then obtain tl where "strip_prefix text ''/users/'' = Some tl \<or> strip_prefix text ''/home/'' = Some tl"
    and sp: "map_option snd (split_once (CHR ''/'') tl) = Some rel"
    using assms by (auto simp: home_relative_path_def split: option.splits)
  then obtain u where "split_once (CHR ''/'') tl = Some (u, rel)" by auto
  from split_once_Some [OF this] obtain "tl = u @ CHR ''/'' # rel" "CHR ''/'' \<notin> set u" by blast
  moreover have "text = ''/users/'' @ tl \<or> text = ''/home/'' @ tl"
    using \<open>_ \<or> strip_prefix text ''/home/'' = Some tl\<close> unfolding strip_prefix_Some .
  ultimately have "below_home (''/users/'' @ u) rel text \<or> below_home (''/home/'' @ u) rel text"
    unfolding below_home_def by (metis append.assoc append_Cons append_Nil)
  then show ?thesis using \<open>CHR ''/'' \<notin> set u\<close> unfolding is_home_def by blast
qed

text \<open>A rule written for the home directory only ever matches a path that
  lies below a home directory (the environment's, or one user's under \<open>/users\<close> or \<open>/home\<close>)
  at exactly the depth the pattern spells out: as many separators as the pattern has outside its
  wildcards, so a trailing star never reaches into a subdirectory.\<close>

lemma home_glob_confined:
  assumes "path_matches_glob env p (''~/'' @ g)"
  shows "\<exists>h rel text. text \<in> set (path_aliases (normalize_text p)) \<and> below_home h rel text \<and> is_home env h \<and>
    glob_den (parse_glob (normalize_text g)) rel \<and>
    count_list rel (CHR ''/'') = count_list (parse_glob (normalize_text g)) (Lit (CHR ''/''))"
proof -
  have "strip_prefix (''~/'' @ g) ''~/'' = Some g" by (subst strip_prefix_Some) simp
  then obtain tx rel where t: "tx \<in> set (path_aliases (normalize_text p))"
    "home_relative_path env tx None = Some rel" "glob_match (normalize_text g) rel"
    using assms
    by (auto simp: path_matches_glob_def path_matches_glob_inner_def list_ex_iff List.map_filter_def
        simp del: append.simps)
  have "glob_den (parse_glob (normalize_text g)) rel" using t(3) by (simp add: glob_match_den)
  then show ?thesis using home_relative_below [OF t(2)] t(1) den_separators by blast
qed

end
