(* ===== verification/Cleanup_Tables.thy ===== *)
theory Cleanup_Tables
  imports Cleanup_Catalog
begin

section \<open>The Linux and macOS cleanup tables\<close>

text \<open>
  The static tables of src/src/platform/linux/cleanup_catalog.rs and
  src/src/platform/macos/cleanup_catalog.rs, rule by rule and in the source's order (the first
  match wins), and the lookups bound to them. A rule is built by the tables' two constructors.
\<close>

definition catalog_rule ::
  "string \<Rightarrow> string \<Rightarrow> duration \<Rightarrow> check_requirement \<Rightarrow> reclaim_command \<Rightarrow> cleanup_confidence \<Rightarrow> cleanup_rule" where
  "catalog_rule n g age fd cmd conf =
     \<lparr>rule_name = n, path_glob = g, age_threshold = age, fd_check = fd, parent_check = Required,
      sacred_overlaps_check = Required, reclaim_command = cmd, rule_confidence = conf\<rparr>"

definition sacred_rule :: "string \<Rightarrow> string \<Rightarrow> cleanup_rule" where
  "sacred_rule n g =
     \<lparr>rule_name = n, path_glob = g, age_threshold = age_none, fd_check = NotRequired,
      parent_check = NotRequired, sacred_overlaps_check = Required, reclaim_command = Refuse,
      rule_confidence = Sacred\<rparr>"

subsection \<open>Linux\<close>

definition linux_tmp_dash_target :: cleanup_rule where
  "linux_tmp_dash_target = catalog_rule ''linux-tmp-dash-target''
     ''/tmp/*-target''
     (age_from_hours 24) Required RemoveTree Likely"

definition linux_tmp_underscore_target :: cleanup_rule where
  "linux_tmp_underscore_target = catalog_rule ''linux-tmp-underscore-target''
     ''/tmp/*_target''
     (age_from_hours 24) Required RemoveTree Likely"

definition linux_data_tmp_dash_target :: cleanup_rule where
  "linux_data_tmp_dash_target = catalog_rule ''linux-data-tmp-dash-target''
     ''/data/tmp/*-target''
     (age_from_hours 24) Required RemoveTree Likely"

definition linux_data_tmp_underscore_target :: cleanup_rule where
  "linux_data_tmp_underscore_target = catalog_rule ''linux-data-tmp-underscore-target''
     ''/data/tmp/*_target''
     (age_from_hours 24) Required RemoveTree Likely"

definition linux_var_tmp_dash_target :: cleanup_rule where
  "linux_var_tmp_dash_target = catalog_rule ''linux-var-tmp-dash-target''
     ''/var/tmp/*-target''
     (age_from_hours 24) Required RemoveTree Likely"

definition linux_var_tmp_underscore_target :: cleanup_rule where
  "linux_var_tmp_underscore_target = catalog_rule ''linux-var-tmp-underscore-target''
     ''/var/tmp/*_target''
     (age_from_hours 24) Required RemoveTree Likely"

definition linux_cleanup_rules :: "cleanup_rule list" where
  "linux_cleanup_rules =
     [linux_tmp_dash_target, linux_tmp_underscore_target, linux_data_tmp_dash_target,
      linux_data_tmp_underscore_target, linux_var_tmp_dash_target,
      linux_var_tmp_underscore_target]"

definition linux_find_rule :: "string \<Rightarrow> cleanup_rule option" where
  "linux_find_rule name = find_rule linux_cleanup_rules name"

definition linux_match_rule :: "string option \<Rightarrow> path \<Rightarrow> cleanup_rule option" where
  "linux_match_rule env p = match_rule env p linux_cleanup_rules"

definition linux_match_path_scanner_rule :: "string option \<Rightarrow> path \<Rightarrow> cleanup_rule option" where
  "linux_match_path_scanner_rule env p = match_path_scanner_rule env p linux_cleanup_rules"

subsection \<open>macOS\<close>

definition mac_xcode_derived_data :: cleanup_rule where
  "mac_xcode_derived_data = catalog_rule ''xcode-derived-data''
     ''~/Library/Developer/Xcode/DerivedData/*''
     (age_from_hours 24) Required RemoveTree Definite"

definition mac_core_simulator_caches :: cleanup_rule where
  "mac_core_simulator_caches = catalog_rule ''core-simulator-caches''
     ''~/Library/Developer/CoreSimulator/Caches/*''
     (age_from_hours 24) Required RemoveTree Definite"

definition mac_electron_cache :: cleanup_rule where
  "mac_electron_cache = catalog_rule ''electron-cache''
     ''~/Library/Application Support/*/Cache/*''
     (age_from_hours 1) Required RemoveTree Likely"

definition mac_electron_cache_root :: cleanup_rule where
  "mac_electron_cache_root = catalog_rule ''electron-cache-root''
     ''~/Library/Application Support/*/Cache''
     (age_from_hours 1) Required RemoveTree Likely"

definition mac_electron_service_worker_cache :: cleanup_rule where
  "mac_electron_service_worker_cache = catalog_rule ''electron-service-worker-cache''
     ''~/Library/Application Support/*/Service Worker/CacheStorage/*''
     (age_from_hours 1) Required RemoveTree Likely"

definition mac_electron_service_worker_cache_root :: cleanup_rule where
  "mac_electron_service_worker_cache_root = catalog_rule ''electron-service-worker-cache-root''
     ''~/Library/Application Support/*/Service Worker/CacheStorage''
     (age_from_hours 1) Required RemoveTree Likely"

definition mac_electron_code_cache :: cleanup_rule where
  "mac_electron_code_cache = catalog_rule ''electron-code-cache''
     ''~/Library/Application Support/*/Code Cache/*''
     (age_from_hours 1) Required RemoveTree Likely"

definition mac_electron_code_cache_root :: cleanup_rule where
  "mac_electron_code_cache_root = catalog_rule ''electron-code-cache-root''
     ''~/Library/Application Support/*/Code Cache''
     (age_from_hours 1) Required RemoveTree Likely"

definition mac_electron_gpu_cache :: cleanup_rule where
  "mac_electron_gpu_cache = catalog_rule ''electron-gpu-cache''
     ''~/Library/Application Support/*/GPUCache/*''
     (age_from_hours 1) Required RemoveTree Likely"

definition mac_electron_gpu_cache_root :: cleanup_rule where
  "mac_electron_gpu_cache_root = catalog_rule ''electron-gpu-cache-root''
     ''~/Library/Application Support/*/GPUCache''
     (age_from_hours 1) Required RemoveTree Likely"

definition mac_electron_indexed_db :: cleanup_rule where
  "mac_electron_indexed_db = catalog_rule ''electron-indexed-db''
     ''~/Library/Application Support/*/IndexedDB/*''
     (age_from_hours 1) Required RemoveTree Likely"

definition mac_electron_indexed_db_root :: cleanup_rule where
  "mac_electron_indexed_db_root = catalog_rule ''electron-indexed-db-root''
     ''~/Library/Application Support/*/IndexedDB''
     (age_from_hours 1) Required RemoveTree Likely"

definition mac_electron_vm_bundles :: cleanup_rule where
  "mac_electron_vm_bundles = catalog_rule ''electron-vm-bundles''
     ''~/Library/Application Support/*/vm_bundles/*''
     (age_from_hours 24) Required RemoveTree Likely"

definition mac_electron_vm_bundles_root :: cleanup_rule where
  "mac_electron_vm_bundles_root = catalog_rule ''electron-vm-bundles-root''
     ''~/Library/Application Support/*/vm_bundles''
     (age_from_hours 24) Required RemoveTree Likely"

definition mac_tmp_dash_target :: cleanup_rule where
  "mac_tmp_dash_target = catalog_rule ''tmp-dash-target''
     ''/private/tmp/*-target''
     (age_from_hours 24) Required RemoveTree Likely"

definition mac_tmp_underscore_target :: cleanup_rule where
  "mac_tmp_underscore_target = catalog_rule ''tmp-underscore-target''
     ''/private/tmp/*_target''
     (age_from_hours 24) Required RemoveTree Likely"

definition mac_tmp_target_underscore_prefix :: cleanup_rule where
  "mac_tmp_target_underscore_prefix = catalog_rule ''tmp-target-underscore-prefix''
     ''/private/tmp/target_*''
     (age_from_hours 24) Required RemoveTree Likely"

definition mac_user_named_trash_exact :: cleanup_rule where
  "mac_user_named_trash_exact = catalog_rule ''user-named-trash-exact''
     ''/private/tmp/trash''
     age_none Required PromptBeforeRemove Unclear"

definition mac_user_named_trashed_exact :: cleanup_rule where
  "mac_user_named_trashed_exact = catalog_rule ''user-named-trashed-exact''
     ''/private/tmp/trashed''
     age_none Required PromptBeforeRemove Unclear"

definition mac_user_named_trash :: cleanup_rule where
  "mac_user_named_trash = catalog_rule ''user-named-trash''
     ''/private/tmp/*-trash-*''
     age_none Required PromptBeforeRemove Unclear"

definition mac_release_work_buildroot :: cleanup_rule where
  "mac_release_work_buildroot = catalog_rule ''release-work-buildroot''
     ''~/release-work/*[-_]buildroot''
     (age_from_days 7) Required RemoveTree Likely"

definition mac_user_logs :: cleanup_rule where
  "mac_user_logs = catalog_rule ''user-logs''
     ''~/Library/Logs/*''
     (age_from_days 7) Required RemoveMatchingFiles Likely"

definition mac_ipsw_software_updates :: cleanup_rule where
  "mac_ipsw_software_updates = catalog_rule ''ipsw-software-updates''
     ''~/Library/iTunes/iPhone Software Updates/*.ipsw''
     (age_from_days 30) NotRequired RemoveMatchingFiles Definite"

definition mac_home_trash_report :: cleanup_rule where
  "mac_home_trash_report = catalog_rule ''home-trash-report''
     ''~/.Trash/*''
     age_none NotRequired ReportOnly ReportOnlyConf"

definition mac_icloud_trash_report :: cleanup_rule where
  "mac_icloud_trash_report = catalog_rule ''icloud-trash-report''
     ''~/Library/Mobile Documents/com~apple~CloudDocs/.Trash/*''
     age_none NotRequired ReportOnly ReportOnlyConf"

definition mac_time_machine_local_snapshots :: cleanup_rule where
  "mac_time_machine_local_snapshots = catalog_rule ''time-machine-local-snapshots''
     ''/''
     age_none NotRequired ThinLocalSnapshots Likely"

definition mac_spotlight_index_report :: cleanup_rule where
  "mac_spotlight_index_report = catalog_rule ''spotlight-index-report''
     ''/.Spotlight-V100''
     age_none NotRequired ReportOnly ReportOnlyConf"

definition mac_photos_library_sacred :: cleanup_rule where
  "mac_photos_library_sacred = sacred_rule ''photos-library-sacred'' ''~/Pictures/Photos Library.photoslibrary''"

definition mac_mail_library_sacred :: cleanup_rule where
  "mac_mail_library_sacred = sacred_rule ''mail-library-sacred'' ''~/Library/Mail/*''"

definition mac_messages_library_sacred :: cleanup_rule where
  "mac_messages_library_sacred = sacred_rule ''messages-library-sacred'' ''~/Library/Messages/*''"

definition mac_final_cut_library_sacred :: cleanup_rule where
  "mac_final_cut_library_sacred = sacred_rule ''final-cut-library-sacred'' ''~/Movies/*.fcpbundle''"

definition mac_cleanup_rules :: "cleanup_rule list" where
  "mac_cleanup_rules =
     [mac_xcode_derived_data, mac_core_simulator_caches, mac_electron_cache,
      mac_electron_cache_root, mac_electron_service_worker_cache,
      mac_electron_service_worker_cache_root, mac_electron_code_cache,
      mac_electron_code_cache_root, mac_electron_gpu_cache,
      mac_electron_gpu_cache_root, mac_electron_indexed_db,
      mac_electron_indexed_db_root, mac_electron_vm_bundles,
      mac_electron_vm_bundles_root, mac_tmp_dash_target, mac_tmp_underscore_target,
      mac_tmp_target_underscore_prefix, mac_user_named_trash_exact,
      mac_user_named_trashed_exact, mac_user_named_trash, mac_release_work_buildroot,
      mac_user_logs, mac_ipsw_software_updates, mac_home_trash_report,
      mac_icloud_trash_report, mac_time_machine_local_snapshots,
      mac_spotlight_index_report, mac_photos_library_sacred, mac_mail_library_sacred,
      mac_messages_library_sacred, mac_final_cut_library_sacred]"

definition mac_find_rule :: "string \<Rightarrow> cleanup_rule option" where
  "mac_find_rule name = find_rule mac_cleanup_rules name"

definition mac_match_rule :: "string option \<Rightarrow> path \<Rightarrow> cleanup_rule option" where
  "mac_match_rule env p = match_rule env p mac_cleanup_rules"

definition mac_match_path_scanner_rule :: "string option \<Rightarrow> path \<Rightarrow> cleanup_rule option" where
  "mac_match_path_scanner_rule env p = match_path_scanner_rule env p mac_cleanup_rules"

subsection \<open>What the tables promise\<close>

definition rule_checked :: "cleanup_rule \<Rightarrow> bool" where
  "rule_checked r = (parent_check r = Required \<and> sacred_overlaps_check r = Required \<and>
     (reclaim_command r = RemoveTree \<longrightarrow> fd_check r = Required) \<and>
     is_destructive r \<and> \<not> is_report_only r \<and> rule_confidence r \<notin> {Sacred, ReportOnlyConf})"

definition same_handling :: "cleanup_rule \<Rightarrow> cleanup_rule \<Rightarrow> bool" where
  "same_handling r s = (reclaim_command r = reclaim_command s \<and> age_threshold r = age_threshold s \<and>
     fd_check r = fd_check s \<and> parent_check r = parent_check s \<and>
     sacred_overlaps_check r = sacred_overlaps_check s \<and> rule_confidence r = rule_confidence s)"

lemmas rule_defs = catalog_rule_def sacred_rule_def
  linux_tmp_dash_target_def linux_tmp_underscore_target_def linux_data_tmp_dash_target_def
  linux_data_tmp_underscore_target_def linux_var_tmp_dash_target_def
  linux_var_tmp_underscore_target_def mac_xcode_derived_data_def mac_core_simulator_caches_def
  mac_electron_cache_def mac_electron_cache_root_def mac_electron_service_worker_cache_def
  mac_electron_service_worker_cache_root_def mac_electron_code_cache_def
  mac_electron_code_cache_root_def mac_electron_gpu_cache_def mac_electron_gpu_cache_root_def
  mac_electron_indexed_db_def mac_electron_indexed_db_root_def mac_electron_vm_bundles_def
  mac_electron_vm_bundles_root_def mac_tmp_dash_target_def mac_tmp_underscore_target_def
  mac_tmp_target_underscore_prefix_def mac_user_named_trash_exact_def
  mac_user_named_trashed_exact_def mac_user_named_trash_def mac_release_work_buildroot_def
  mac_user_logs_def mac_ipsw_software_updates_def mac_home_trash_report_def
  mac_icloud_trash_report_def mac_time_machine_local_snapshots_def
  mac_spotlight_index_report_def mac_photos_library_sacred_def mac_mail_library_sacred_def
  mac_messages_library_sacred_def mac_final_cut_library_sacred_def

lemma scanner_rules_checked:
  "list_all (\<lambda>r. is_path_scanner_candidate r \<longrightarrow> rule_checked r) (mac_cleanup_rules @ linux_cleanup_rules)"
  by (simp add: mac_cleanup_rules_def linux_cleanup_rules_def rule_defs rule_checked_def
      is_path_scanner_candidate_def is_destructive_def is_report_only_def)

lemma rule_names:
  "rule_name linux_tmp_dash_target = ''linux-tmp-dash-target''"
  "rule_name linux_tmp_underscore_target = ''linux-tmp-underscore-target''"
  "rule_name linux_data_tmp_dash_target = ''linux-data-tmp-dash-target''"
  "rule_name linux_data_tmp_underscore_target = ''linux-data-tmp-underscore-target''"
  "rule_name linux_var_tmp_dash_target = ''linux-var-tmp-dash-target''"
  "rule_name linux_var_tmp_underscore_target = ''linux-var-tmp-underscore-target''"
  "rule_name mac_xcode_derived_data = ''xcode-derived-data''"
  "rule_name mac_core_simulator_caches = ''core-simulator-caches''"
  "rule_name mac_electron_cache = ''electron-cache''"
  "rule_name mac_electron_cache_root = ''electron-cache-root''"
  "rule_name mac_electron_service_worker_cache = ''electron-service-worker-cache''"
  "rule_name mac_electron_service_worker_cache_root = ''electron-service-worker-cache-root''"
  "rule_name mac_electron_code_cache = ''electron-code-cache''"
  "rule_name mac_electron_code_cache_root = ''electron-code-cache-root''"
  "rule_name mac_electron_gpu_cache = ''electron-gpu-cache''"
  "rule_name mac_electron_gpu_cache_root = ''electron-gpu-cache-root''"
  "rule_name mac_electron_indexed_db = ''electron-indexed-db''"
  "rule_name mac_electron_indexed_db_root = ''electron-indexed-db-root''"
  "rule_name mac_electron_vm_bundles = ''electron-vm-bundles''"
  "rule_name mac_electron_vm_bundles_root = ''electron-vm-bundles-root''"
  "rule_name mac_tmp_dash_target = ''tmp-dash-target''"
  "rule_name mac_tmp_underscore_target = ''tmp-underscore-target''"
  "rule_name mac_tmp_target_underscore_prefix = ''tmp-target-underscore-prefix''"
  "rule_name mac_user_named_trash_exact = ''user-named-trash-exact''"
  "rule_name mac_user_named_trashed_exact = ''user-named-trashed-exact''"
  "rule_name mac_user_named_trash = ''user-named-trash''"
  "rule_name mac_release_work_buildroot = ''release-work-buildroot''"
  "rule_name mac_user_logs = ''user-logs''"
  "rule_name mac_ipsw_software_updates = ''ipsw-software-updates''"
  "rule_name mac_home_trash_report = ''home-trash-report''"
  "rule_name mac_icloud_trash_report = ''icloud-trash-report''"
  "rule_name mac_time_machine_local_snapshots = ''time-machine-local-snapshots''"
  "rule_name mac_spotlight_index_report = ''spotlight-index-report''"
  "rule_name mac_photos_library_sacred = ''photos-library-sacred''"
  "rule_name mac_mail_library_sacred = ''mail-library-sacred''"
  "rule_name mac_messages_library_sacred = ''messages-library-sacred''"
  "rule_name mac_final_cut_library_sacred = ''final-cut-library-sacred''"
  by (simp_all add: rule_defs)

lemma rule_labels:
  "scanner_label linux_tmp_dash_target = ''linux-tmp-dash-target''"
  "scanner_label linux_tmp_underscore_target = ''linux-tmp-underscore-target''"
  "scanner_label linux_data_tmp_dash_target = ''linux-data-tmp-dash-target''"
  "scanner_label linux_data_tmp_underscore_target = ''linux-data-tmp-underscore-target''"
  "scanner_label linux_var_tmp_dash_target = ''linux-var-tmp-dash-target''"
  "scanner_label linux_var_tmp_underscore_target = ''linux-var-tmp-underscore-target''"
  "scanner_label mac_xcode_derived_data = ''xcode-derived-data''"
  "scanner_label mac_core_simulator_caches = ''core-simulator-caches''"
  "scanner_label mac_electron_cache = ''electron-cache''"
  "scanner_label mac_electron_cache_root = ''electron-cache''"
  "scanner_label mac_electron_service_worker_cache = ''electron-service-worker-cache''"
  "scanner_label mac_electron_service_worker_cache_root = ''electron-service-worker-cache''"
  "scanner_label mac_electron_code_cache = ''electron-code-cache''"
  "scanner_label mac_electron_code_cache_root = ''electron-code-cache''"
  "scanner_label mac_electron_gpu_cache = ''electron-gpu-cache''"
  "scanner_label mac_electron_gpu_cache_root = ''electron-gpu-cache''"
  "scanner_label mac_electron_indexed_db = ''electron-indexed-db''"
  "scanner_label mac_electron_indexed_db_root = ''electron-indexed-db''"
  "scanner_label mac_electron_vm_bundles = ''electron-vm-bundles''"
  "scanner_label mac_electron_vm_bundles_root = ''electron-vm-bundles''"
  "scanner_label mac_tmp_dash_target = ''tmp-dash-target''"
  "scanner_label mac_tmp_underscore_target = ''tmp-underscore-target''"
  "scanner_label mac_tmp_target_underscore_prefix = ''tmp-target-underscore-prefix''"
  "scanner_label mac_user_named_trash_exact = ''user-named-trash''"
  "scanner_label mac_user_named_trashed_exact = ''user-named-trash''"
  "scanner_label mac_user_named_trash = ''user-named-trash''"
  "scanner_label mac_release_work_buildroot = ''release-work-buildroot''"
  "scanner_label mac_user_logs = ''user-logs''"
  "scanner_label mac_ipsw_software_updates = ''ipsw-software-updates''"
  "scanner_label mac_home_trash_report = ''home-trash-report''"
  "scanner_label mac_icloud_trash_report = ''icloud-trash-report''"
  "scanner_label mac_time_machine_local_snapshots = ''time-machine-local-snapshots''"
  "scanner_label mac_spotlight_index_report = ''spotlight-index-report''"
  "scanner_label mac_photos_library_sacred = ''photos-library-sacred''"
  "scanner_label mac_mail_library_sacred = ''mail-library-sacred''"
  "scanner_label mac_messages_library_sacred = ''messages-library-sacred''"
  "scanner_label mac_final_cut_library_sacred = ''final-cut-library-sacred''"
  by (simp_all add: scanner_label_def rule_names)

lemma shared_labels:
  "same_handling r r"
  "same_handling mac_electron_cache mac_electron_cache_root"
  "same_handling mac_electron_service_worker_cache mac_electron_service_worker_cache_root"
  "same_handling mac_electron_code_cache mac_electron_code_cache_root"
  "same_handling mac_electron_gpu_cache mac_electron_gpu_cache_root"
  "same_handling mac_electron_indexed_db mac_electron_indexed_db_root"
  "same_handling mac_electron_vm_bundles mac_electron_vm_bundles_root"
  "same_handling mac_user_named_trash_exact mac_user_named_trashed_exact"
  "same_handling mac_user_named_trash_exact mac_user_named_trash"
  by (simp_all add: same_handling_def rule_defs)

lemma labels_find:
  "list_all (\<lambda>r. case mac_find_rule (scanner_label r) of Some s \<Rightarrow> same_handling s r | None \<Rightarrow> False)
     mac_cleanup_rules"
  "list_all (\<lambda>r. mac_find_rule (scanner_label r) = None \<and> linux_find_rule (scanner_label r) = Some r)
     linux_cleanup_rules"
  by (simp_all add: mac_cleanup_rules_def linux_cleanup_rules_def mac_find_rule_def linux_find_rule_def
      find_rule_def rule_names rule_labels shared_labels)

lemma find_Some_member: "List.find P xs = Some x \<Longrightarrow> x \<in> set xs \<and> P x"
  by (auto simp: find_Some_iff)

text \<open>Whichever rule of either table the path scanner matches, it is one
  that may remove files, its glob does match the path, it demands the parent and sacred-path
  checks (and the open-file check before a tree is removed), and it is never one of the
  report-only or sacred entries.\<close>

lemma scanner_match_safe:
  assumes "mac_match_path_scanner_rule env p = Some r \<or> linux_match_path_scanner_rule env p = Some r"
  shows "path_matches_glob env p (path_glob r) \<and> parent_check r = Required \<and>
    sacred_overlaps_check r = Required \<and> (reclaim_command r = RemoveTree \<longrightarrow> fd_check r = Required) \<and>
    is_destructive r \<and> \<not> is_report_only r \<and> rule_confidence r \<noteq> Sacred"
proof -
  from assms have r: "r \<in> set (mac_cleanup_rules @ linux_cleanup_rules)"
    "is_path_scanner_candidate r" "path_matches_glob env p (path_glob r)"
    using find_Some_member
    by (force simp: mac_match_path_scanner_rule_def linux_match_path_scanner_rule_def
        match_path_scanner_rule_def)+
  then have "rule_checked r" using scanner_rules_checked unfolding list_all_iff by blast
  then show ?thesis using r(3) by (simp add: rule_checked_def)
qed

text \<open>The scanner reports a rule under its label, which several rules
  share, and later looks the rule up by that label: the lookup finds a rule that is handled in the
  same way (command, age threshold and checks) as the one that matched, and no label of the
  Linux table is captured by a macOS rule.\<close>

lemma label_lookup_faithful:
  "(\<forall>r \<in> set mac_cleanup_rules. \<exists>s. mac_find_rule (scanner_label r) = Some s \<and> same_handling s r) \<and>
   (\<forall>r \<in> set linux_cleanup_rules. mac_find_rule (scanner_label r) = None \<and>
      linux_find_rule (scanner_label r) = Some r)"
  using labels_find unfolding list_all_iff by (auto split: option.splits)

lemma demo_texts:
  "normalize_text ''/tmp/a-target'' = ''/tmp/a-target''" "normalize_text ''/tmp/*-target'' = ''/tmp/*-target''"
  "normalize_text ''/home/u/a'' = ''/home/u/a''" "normalize_text ''a'' = ''a''"
  by (simp_all add: normalize_text_def to_lower_def ascii_lower_def collapse_slashes.simps)

lemma demo_match: "linux_match_path_scanner_rule None ''/tmp/a-target'' = Some linux_tmp_dash_target"
proof -
  have "path_matches_glob None ''/tmp/a-target'' ''/tmp/*-target''"
    by (simp add: path_matches_glob_def path_matches_glob_inner_def strip_prefix_def demo_texts
        path_aliases_def glob_match.simps(2))
  then show ?thesis
    by (simp add: linux_match_path_scanner_rule_def match_path_scanner_rule_def linux_cleanup_rules_def
        is_path_scanner_candidate_def linux_tmp_dash_target_def catalog_rule_def)
qed

lemma demo_home: "path_matches_glob None ''/home/u/a'' (''~/'' @ ''a'')"
  by (simp add: path_matches_glob_def path_matches_glob_inner_def strip_prefix_def demo_texts
      path_aliases_def home_relative_path_def List.map_filter_def glob_match.simps(2))

theorem home_glob_confined_witness:
  "\<exists>rel. count_list rel (CHR ''/'') = count_list (parse_glob (normalize_text ''a'')) (Lit (CHR ''/''))"
  using home_glob_confined [OF demo_home] by blast

end
