(* ===== verification/Scoring.thy ===== *)
theory Scoring
  imports Scan_Types Cleanup_Tables Ranking
begin

section \<open>The candidacy scorer (src/src/scanner/scoring.rs)\<close>

text \<open>
  Hard vetoes, the five factors and the pressure multiplier, the posterior and the
  expected-loss decision with its review band, the evidence ledger, and the ranking of a batch.
  \<open>exp\<close> and \<open>ln\<close> are the platform's math library, the arguments \<open>fexp\<close> and \<open>fln\<close>. The
  separator translation for Windows is not modelled (the paths are Unix paths).
\<close>

subsection \<open>Types\<close>

record scoring_weights =
  w_location :: f64
  w_name :: f64
  w_age :: f64
  w_size :: f64
  w_structure :: f64

record score_factors =
  f_location :: f64
  f_name :: f64
  f_age :: f64
  f_size :: f64
  f_structure :: f64
  f_pressure :: f64

datatype decision_action = Keep | Delete | Review

fun show_action :: "decision_action \<Rightarrow> string" where
  "show_action Keep = ''Keep''"
| "show_action Delete = ''Delete''"
| "show_action Review = ''Review''"

record evidence_term =
  term_name :: string
  term_weight :: f64
  term_value :: f64
  term_contribution :: f64

record evidence_ledger =
  ledger_terms :: "evidence_term list"
  ledger_summary :: string

record decision_outcome =
  out_action :: decision_action
  posterior_abandoned :: f64
  expected_loss_keep :: f64
  expected_loss_delete :: f64
  out_calibration :: f64
  fallback_active :: bool

record candidacy_score =
  cs_path :: path
  cs_identity :: "fs_identity option"
  total_score :: f64
  factors :: score_factors
  vetoed :: bool
  veto_text :: "string option"
  cs_classification :: artifact_classification
  cs_size_bytes :: u64
  cs_age :: duration
  decision :: decision_outcome
  ledger :: evidence_ledger

record candidate_input =
  in_path :: path
  in_size_bytes :: u64
  in_age :: duration
  in_classification :: artifact_classification
  signals :: structural_signals
  active_refs :: active_references
  is_open :: bool
  excluded :: bool

definition hard_refuse_bundle_extensions :: "string list" where
  "hard_refuse_bundle_extensions = [''photoslibrary'', ''fcpbundle'', ''imovielibrary'', ''app'',
     ''framework'', ''bundle'', ''plugin'', ''kext'', ''lrcat'', ''lrlibrary'', ''aplibrary'']"

record scoring_config =
  sc_min_score :: f64
  location_weight :: f64
  name_weight :: f64
  age_weight :: f64
  size_weight :: f64
  structure_weight :: f64
  sc_false_positive_loss :: f64
  sc_false_negative_loss :: f64
  sc_calibration_floor :: f64

definition scoring_config_default :: scoring_config where
  "scoring_config_default = \<lparr>sc_min_score = lit (35/100), location_weight = lit (25/100),
     name_weight = lit (25/100), age_weight = lit (20/100), size_weight = lit (15/100),
     structure_weight = lit (15/100), sc_false_positive_loss = lit 50,
     sc_false_negative_loss = lit 30, sc_calibration_floor = lit (40/100)\<rparr>"

record scoring_engine =
  weights :: scoring_weights
  min_file_age :: duration
  min_score :: f64
  false_positive_loss :: f64
  false_negative_loss :: f64
  calibration_floor :: f64

definition engine_from_config :: "scoring_config \<Rightarrow> u64 \<Rightarrow> scoring_engine" where
  "engine_from_config sc min_file_age_minutes =
     \<lparr>weights = \<lparr>w_location = f_max (location_weight sc) 0, w_name = f_max (name_weight sc) 0,
        w_age = f_max (age_weight sc) 0, w_size = f_max (size_weight sc) 0,
        w_structure = f_max (structure_weight sc) 0\<rparr>,
      min_file_age = secs (unat (sat_mul min_file_age_minutes 60)),
      min_score = sc_min_score sc, false_positive_loss = sc_false_positive_loss sc,
      false_negative_loss = sc_false_negative_loss sc, calibration_floor = sc_calibration_floor sc\<rparr>"

subsection \<open>Paths that are never candidates\<close>

definition has_git_component :: "path \<Rightarrow> bool" where
  "has_git_component p = list_ex (\<lambda>c. c = Normal ''.git'') (components p)"

definition system_roots :: "string list" where
  "system_roots = [''/bin'', ''/boot'', ''/dev'', ''/etc'', ''/lib'', ''/lib64'', ''/opt'', ''/proc'',
     ''/root'', ''/run'', ''/sbin'', ''/snap'', ''/sys'', ''/usr'', ''/var'']"

definition is_system_path :: "path \<Rightarrow> bool" where
  "is_system_path p =
     (if path_eq p ''/'' then True
      else if (path_starts_with p ''/var/tmp'' \<and> \<not> path_eq p ''/var/tmp'') \<or>
              (path_starts_with p ''/var/folders'' \<and> \<not> path_eq p ''/var/folders'') \<or>
              (path_starts_with p ''/dev/shm'' \<and> \<not> path_eq p ''/dev/shm'') then False
      else if path_starts_with p ''/root'' \<and> \<not> path_eq p ''/root'' \<and>
              is_obvious_build_artifact_basename p then False
      else list_ex (\<lambda>root. path_eq p root \<or> path_starts_with p root) system_roots)"

definition path_bundle_extension :: "component list \<Rightarrow> string option" where
  "path_bundle_extension cs =
     (case Option.bind (comps_file_name cs) name_extension of None \<Rightarrow> None
      | Some ext \<Rightarrow> List.find (\<lambda>x. eq_ignore_ascii_case ext x) hard_refuse_bundle_extensions)"

fun find_map :: "('a \<Rightarrow> 'b option) \<Rightarrow> 'a list \<Rightarrow> 'b option" where
  "find_map f [] = None"
| "find_map f (x # xs) = (case f x of Some y \<Rightarrow> Some y | None \<Rightarrow> find_map f xs)"

definition hard_refuse_bundle_extension :: "path \<Rightarrow> string option" where
  "hard_refuse_bundle_extension p = find_map path_bundle_extension (ancestors p)"

definition is_volatile_temp_path :: "path \<Rightarrow> bool" where
  "is_volatile_temp_path p = (path_starts_with p ''/tmp'' \<or> path_starts_with p ''/private/tmp'' \<or>
     path_starts_with p ''/var/tmp'' \<or> path_starts_with p ''/data/tmp'' \<or> path_starts_with p ''/dev/shm'')"

definition is_generic_target_pattern :: "string \<Rightarrow> bool" where
  "is_generic_target_pattern n = (n \<in> {''target-prefix'', ''target-underscore-prefix'',
     ''target-suffix'', ''underscore-target-suffix''})"

definition is_ambiguous_target_name :: "candidate_input \<Rightarrow> bool" where
  "is_ambiguous_target_name i =
     (category (in_classification i) = RustTarget \<and>
      is_generic_target_pattern (pattern_name (in_classification i)) \<and>
      \<not> has_strong_signal (signals i) \<and> \<not> is_volatile_temp_path (in_path i))"

subsection \<open>Catalog rules behind a classification\<close>

definition cleanup_rule_for_classification :: "artifact_classification \<Rightarrow> cleanup_rule option" where
  "cleanup_rule_for_classification c =
     (case mac_find_rule (pattern_name c) of Some r \<Rightarrow> Some r
      | None \<Rightarrow> linux_find_rule (pattern_name c))"

definition report_only_reason :: "cleanup_rule \<Rightarrow> string" where
  "report_only_reason r =
     (if rule_name r = ''spotlight-index-report''
      then rule_name r @ '' cleanup rule is report-only; deleting the Spotlight index triggers a 1-4 hour rebuild and can cripple the machine''
      else rule_name r @ '' cleanup rule is report-only'')"

definition report_only_veto :: "candidate_input \<Rightarrow> string option" where
  "report_only_veto i = (case cleanup_rule_for_classification (in_classification i) of None \<Rightarrow> None
     | Some r \<Rightarrow> if reclaim_command r = ReportOnly then Some (report_only_reason r) else None)"

definition cleanup_rule_veto :: "candidate_input \<Rightarrow> string option" where
  "cleanup_rule_veto i = (case cleanup_rule_for_classification (in_classification i) of None \<Rightarrow> None
     | Some r \<Rightarrow>
        let aged = (if in_age i < age_threshold r
              then Some (rule_name r @ '' age '' @ show_nat (as_secs (in_age i)) @ ''s below '' @
                show_nat (as_secs (age_threshold r)) @ ''s'')
              else None)
        in case reclaim_command r of
             ReportOnly \<Rightarrow> Some (report_only_reason r)
           | Refuse \<Rightarrow> Some (rule_name r @ '' cleanup rule refuses reclaim'')
           | ThinLocalSnapshots \<Rightarrow>
               Some (rule_name r @ '' requires platform snapshot tooling, not path deletion'')
           | RemoveTree \<Rightarrow> aged | RemoveMatchingFiles \<Rightarrow> aged | PromptBeforeRemove \<Rightarrow> aged)"

definition allows_embedded_manifest :: "artifact_classification \<Rightarrow> bool" where
  "allows_embedded_manifest c = (case cleanup_rule_for_classification c of
     Some r \<Rightarrow> rule_name r = ''release-work-buildroot'' | None \<Rightarrow> False)"

definition sacred_overlap_veto :: "sacred_overlap list \<Rightarrow> string option" where
  "sacred_overlap_veto ovs = (case ovs of [] \<Rightarrow> None
     | first # rest \<Rightarrow> Some (''sacred path overlap: '' @ sacred_summary first @
         (if length rest > 0 then ''; and '' @ show_nat (length rest) @ '' more sacred overlap(s)'' else [])))"

subsection \<open>Vetoes\<close>

definition veto_reason :: "scoring_engine \<Rightarrow> candidate_input \<Rightarrow> sacred_overlap list \<Rightarrow> string option" where
  "veto_reason e i ovs =
     (if has_git_component (in_path i) \<or> has_git (signals i) then Some ''path contains .git''
      else case report_only_veto i of Some r \<Rightarrow> Some r | None \<Rightarrow>
      if is_system_path (in_path i) then Some ''system path is never deletable''
      else if has_cargo_toml (signals i) \<and> \<not> has_strong_signal (signals i) \<and>
         \<not> allows_embedded_manifest (in_classification i)
      then Some ''contains Cargo.toml without build-artifact markers''
      else if is_ambiguous_target_name i
      then Some ''target-like name lacks Cargo build markers outside temporary storage''
      else case sacred_overlap_veto ovs of Some r \<Rightarrow> Some r | None \<Rightarrow>
      case cleanup_rule_veto i of Some r \<Rightarrow> Some r | None \<Rightarrow>
      if excluded i then Some ''matched user exclusion''
      else case hard_refuse_bundle_extension (in_path i) of
        Some ext \<Rightarrow> Some (''protected bundle/project extension .'' @ ext) | None \<Rightarrow>
      if in_age i < min_file_age e
      then Some (''age '' @ show_nat (as_secs (in_age i)) @ ''s below minimum '' @
        show_nat (as_secs (min_file_age e)) @ ''s'')
      else case safe_reclaim_reason (active_refs i) of Some r \<Rightarrow> Some r | None \<Rightarrow>
      if is_open i then Some ''currently open by another process'' else None)"

definition vetoed_score :: "scoring_engine \<Rightarrow> candidate_input \<Rightarrow> string \<Rightarrow> candidacy_score" where
  "vetoed_score e i reason =
     \<lparr>cs_path = in_path i, cs_identity = None, total_score = 0,
      factors = \<lparr>f_location = 0, f_name = 0, f_age = 0, f_size = 0, f_structure = 0, f_pressure = 1\<rparr>,
      vetoed = True, veto_text = Some reason, cs_classification = in_classification i,
      cs_size_bytes = in_size_bytes i, cs_age = in_age i,
      decision = \<lparr>out_action = Keep, posterior_abandoned = 0, expected_loss_keep = 0,
        expected_loss_delete = false_positive_loss e, out_calibration = 0, fallback_active = True\<rparr>,
      ledger = \<lparr>ledger_terms = [], ledger_summary = ''hard veto applied''\<rparr>\<rparr>"

definition hard_veto :: "scoring_engine \<Rightarrow> candidate_input \<Rightarrow> string \<Rightarrow> candidacy_score" where
  "hard_veto e i reason = vetoed_score e i reason"

subsection \<open>Factors\<close>

definition contains_ci :: "string \<Rightarrow> string \<Rightarrow> bool" where
  "contains_ci haystack needle =
     list_ex (\<lambda>k. eq_ignore_ascii_case (take (length needle) (drop k haystack)) needle)
       [0..<Suc (length haystack) - length needle]"

definition is_macos_application_support_cache_path :: "string \<Rightarrow> bool" where
  "is_macos_application_support_cache_path t =
     (contains_ci t ''/Library/Application Support/'' \<and>
      (contains_ci t ''/Cache'' \<or> contains_ci t ''/Code Cache'' \<or> contains_ci t ''/GPUCache'' \<or>
       contains_ci t ''/IndexedDB'' \<or> contains_ci t ''/vm_bundles'' \<or>
       (contains_ci t ''/Service Worker/'' \<and> contains_ci t ''/CacheStorage'')))"

definition factor_location :: "path \<Rightarrow> f64" where
  "factor_location p =
     (if starts_with p ''/tmp'' \<or> starts_with p ''/private/tmp'' \<or> starts_with p ''/var/tmp'' \<or>
         starts_with p ''/data/tmp'' \<or> starts_with p ''/dev/shm'' then lit (95/100)
      else if str_contains p ''/data/projects/'' \<and> str_contains p ''/.tmp_'' then lit (90/100)
      else if str_contains p ''/data/projects/'' \<and> str_contains p ''/.target'' then lit (85/100)
      else if str_contains p ''/data/projects/'' \<and> str_contains p ''/target'' then lit (80/100)
      else if str_contains p ''/Library/Developer/Xcode/DerivedData/'' then lit (90/100)
      else if is_macos_application_support_cache_path p then lit (82/100)
      else if str_contains p ''/.cache/'' then lit (60/100)
      else if str_contains p ''/projects/'' then lit (40/100)
      else if contains_ci p ''/documents/'' then lit (10/100)
      else if is_system_path p then 0
      else lit (30/100))"

definition factor_name :: "path \<Rightarrow> artifact_classification \<Rightarrow> f64" where
  "factor_name p c =
     (let name = (case file_name p of Some n \<Rightarrow> n | None \<Rightarrow> []);
          s0 = combined_confidence c;
          s1 = (if str_contains name ''tmp'' \<or> str_contains name ''temp'' \<or> str_contains name ''cache''
                then s0 + lit (10/100) else s0);
          s2 = (if category c = RustTarget then s1 + lit (15/100) else s1);
          s3 = (if contains_ci name ''backup'' \<or> contains_ci name ''save'' \<or> contains_ci name ''important''
                then s2 - lit (30/100) else s2)
      in f_clamp s3 0 1)"

definition factor_age :: "duration \<Rightarrow> f64" where
  "factor_age age =
     (let hours = as_secs_f64 age / lit 3600 in
      if hours < lit (1/2) then 0 else if hours < lit 2 then lit (20/100)
      else if hours < lit 4 then lit (70/100) else 1)"

definition factor_size :: "u64 \<Rightarrow> f64" where
  "factor_size size_bytes =
     (let mib = 1048576; gib = 1073741824 in
      if size_bytes < mib then lit (5/100)
      else if size_bytes < 10 * mib then lit (20/100)
      else if size_bytes < 100 * mib then lit (40/100)
      else if size_bytes < gib then lit (70/100)
      else if size_bytes < 10 * gib then 1
      else if size_bytes < 50 * gib then lit (90/100)
      else lit (75/100))"

definition factor_structure :: "structural_signals \<Rightarrow> f64" where
  "factor_structure s =
     (if has_git s then 0
      else if has_fingerprint s \<or> has_incremental s then lit (95/100)
      else if has_deps s \<and> has_build s then lit (85/100)
      else if has_cargo_toml s then lit (5/100)
      else if mostly_object_files s then lit (90/100)
      else lit (40/100))"

definition pressure_multiplier :: "f64 \<Rightarrow> f64" where
  "pressure_multiplier urgency =
     (let u = f_clamp urgency 0 1 in
      if u \<le> lit (3/10) then 1 + u
      else if u \<le> lit (1/2) then f_mul_add (u - lit (3/10)) 1 (lit (13/10))
      else if u \<le> lit (8/10) then f_mul_add (u - lit (1/2)) (lit (1/2) / lit (3/10)) (lit (3/2))
      else f_mul_add (u - lit (8/10)) (lit 5) (lit 2))"

subsection \<open>Posterior, losses and the decision\<close>

definition posterior_from_score :: "(f64 \<Rightarrow> f64) \<Rightarrow> f64 \<Rightarrow> f64 \<Rightarrow> f64" where
  "posterior_from_score fexp tot confidence =
     (let scaled = f_clamp (tot / lit (3/2)) 0 1;
          logit = f_mul_add (lit (7/2)) (scaled - lit (1/2)) (lit 2 * (confidence - lit (1/2)))
      in 1 / (1 + fexp (- logit)))"

definition calibration_score :: "f64 \<Rightarrow> score_factors \<Rightarrow> f64" where
  "calibration_score confidence fs =
     (let spread = f_abs (f_location fs - f_structure fs)
      in f_clamp (f_mul_add (lit (3/4)) confidence (lit (1/4) * (1 - spread))) 0 1)"

definition ln_2 :: f64 where
  "ln_2 = Fin (6243314768165359 / 2 ^ 53)"

definition epistemic_uncertainty :: "(f64 \<Rightarrow> f64) \<Rightarrow> f64 \<Rightarrow> f64 \<Rightarrow> f64" where
  "epistemic_uncertainty fln posterior calibration =
     (let p = f_clamp posterior (lit (1/1000000)) (1 - lit (1/1000000));
          entropy = (- f_mul_add (1 - p) (fln (1 - p)) (p * fln p)) / ln_2;
          calibration_penalty = 1 - f_clamp calibration 0 1
      in f_clamp (f_mul_add (lit (65/100)) entropy (lit (35/100) * calibration_penalty)) 0 1)"

definition uncertainty_adjusted_losses :: "f64 \<Rightarrow> f64 \<Rightarrow> f64 \<Rightarrow> f64 \<Rightarrow> f64 \<Rightarrow> f64 \<times> f64" where
  "uncertainty_adjusted_losses base_keep base_delete posterior0 calibration uncertainty0 =
     (let posterior = f_clamp posterior0 0 1;
          calibration_penalty = 1 - f_clamp calibration 0 1;
          uncertainty = f_clamp uncertainty0 0 1;
          uncertainty_discount = f_mul_add (lit (1/2)) (- uncertainty) 1;
          keep_multiplier = f_mul_add (posterior * uncertainty_discount) (lit (80/100)) 1;
          delete_slope = f_max (f_mul_add (lit (90/100)) calibration_penalty (lit (90/100))) (lit (90/100));
          delete_multiplier = f_mul_add uncertainty delete_slope 1
      in (base_keep * keep_multiplier, base_delete * delete_multiplier))"

definition delete_advantage_ratio :: "f64 \<Rightarrow> f64 \<Rightarrow> f64" where
  "delete_advantage_ratio keep_loss delete_loss =
     (let safe_keep = f_max keep_loss 0; safe_delete = f_max delete_loss 0
      in if safe_delete \<le> f64_epsilon then lit 1000000 else safe_keep / safe_delete)"

definition min_delete_advantage :: "f64 \<Rightarrow> f64 \<Rightarrow> f64" where
  "min_delete_advantage calibration uncertainty =
     (let calibration_penalty = 1 - f_clamp calibration 0 1
      in f_clamp (f_mul_add uncertainty (lit (16/10)) (f_mul_add calibration_penalty (lit (9/10)) (lit (12/10))))
           (lit (12/10)) (lit 4))"

definition decide_action ::
  "f64 \<Rightarrow> f64 \<Rightarrow> f64 \<Rightarrow> f64 \<Rightarrow> f64 \<Rightarrow> f64 \<Rightarrow> bool \<Rightarrow> f64 \<Rightarrow> decision_action" where
  "decide_action tot min_sc keep_loss delete_loss posterior calibration fallback uncertainty =
     (if tot < min_sc \<or> fallback then Keep
      else let decision_margin = f_abs (keep_loss - delete_loss);
               review_band = f_mul_add (1 - calibration) (lit 2) (f_mul_add (lit 5) uncertainty 1)
           in if decision_margin \<le> review_band then Review
              else if delete_loss < keep_loss then
                (let min_delete_posterior = f_mul_add (1 - f_clamp calibration 0 1) (lit (20/100))
                       (f_mul_add (lit (20/100)) uncertainty (lit (60/100)));
                     delete_advantage = delete_advantage_ratio keep_loss delete_loss;
                     required_advantage = min_delete_advantage calibration uncertainty
                 in if posterior \<ge> f_clamp min_delete_posterior (lit (60/100)) (lit (95/100)) \<and>
                       delete_advantage \<ge> required_advantage
                    then Delete else Review)
              else Keep)"

definition manual_review_override :: "artifact_classification \<Rightarrow> decision_action \<Rightarrow> decision_action" where
  "manual_review_override c action =
     (if action = Delete \<and> (case cleanup_rule_for_classification c of
           Some r \<Rightarrow> reclaim_command r = PromptBeforeRemove | None \<Rightarrow> False)
      then Review else action)"

definition plain_term :: "string \<Rightarrow> f64 \<Rightarrow> evidence_term" where
  "plain_term n v = \<lparr>term_name = n, term_weight = 1, term_value = v, term_contribution = v\<rparr>"

definition weighted_term :: "string \<Rightarrow> f64 \<Rightarrow> f64 \<Rightarrow> evidence_term" where
  "weighted_term n w v = \<lparr>term_name = n, term_weight = w, term_value = v, term_contribution = w * v\<rparr>"

definition build_ledger ::
  "score_factors \<Rightarrow> scoring_weights \<Rightarrow> f64 \<Rightarrow> f64 \<Rightarrow> f64 \<Rightarrow> f64 \<Rightarrow> f64 \<Rightarrow> f64 \<Rightarrow> f64 \<Rightarrow> decision_action \<Rightarrow>
     evidence_ledger" where
  "build_ledger fs w posterior base_keep base_delete keep delete calibration uncertainty action =
     (let ratio = delete_advantage_ratio keep delete;
          required = min_delete_advantage calibration uncertainty
      in \<lparr>ledger_terms =
            [weighted_term ''location'' (w_location w) (f_location fs),
             weighted_term ''name'' (w_name w) (f_name fs),
             weighted_term ''age'' (w_age w) (f_age fs),
             weighted_term ''size'' (w_size w) (f_size fs),
             weighted_term ''structure'' (w_structure w) (f_structure fs),
             plain_term ''pressure_multiplier'' (f_pressure fs),
             plain_term ''calibration'' calibration,
             plain_term ''uncertainty'' uncertainty,
             plain_term ''delete_advantage_ratio'' ratio,
             plain_term ''required_delete_advantage'' required],
          ledger_summary =
            ''posterior_abandoned='' @ fmt_fixed 3 posterior @ ''; keep_loss='' @ fmt_fixed 2 keep @
            ''; delete_loss='' @ fmt_fixed 2 delete @ ''; base_keep_loss='' @ fmt_fixed 2 base_keep @
            ''; base_delete_loss='' @ fmt_fixed 2 base_delete @ ''; loss_margin='' @ fmt_fixed 2 (keep - delete) @
            ''; uncertainty='' @ fmt_fixed 3 uncertainty @ ''; calibration='' @ fmt_fixed 3 calibration @
            ''; delete_advantage='' @ fmt_fixed 2 ratio @
            ''; required_delete_advantage='' @ fmt_fixed 2 required @ ''; action='' @ show_action action\<rparr>)"

subsection \<open>Scoring one candidate\<close>

definition candidate_factors :: "candidate_input \<Rightarrow> f64 \<Rightarrow> score_factors" where
  "candidate_factors i urgency =
     \<lparr>f_location = factor_location (in_path i), f_name = factor_name (in_path i) (in_classification i),
      f_age = factor_age (in_age i), f_size = factor_size (in_size_bytes i),
      f_structure = factor_structure (signals i), f_pressure = pressure_multiplier urgency\<rparr>"

definition base_score :: "scoring_weights \<Rightarrow> score_factors \<Rightarrow> f64" where
  "base_score w fs =
     f_mul_add (w_structure w) (f_structure fs)
       (f_mul_add (w_size w) (f_size fs)
         (f_mul_add (w_age w) (f_age fs)
           (f_mul_add (w_location w) (f_location fs) (w_name w * f_name fs))))"

definition score_inner ::
  "(f64 \<Rightarrow> f64) \<Rightarrow> (f64 \<Rightarrow> f64) \<Rightarrow> scoring_engine \<Rightarrow> candidate_input \<Rightarrow> f64 \<Rightarrow> sacred_overlap list \<Rightarrow>
     candidacy_score" where
  "score_inner fexp fln e i urgency ovs =
     (case veto_reason e i ovs of Some reason \<Rightarrow> vetoed_score e i reason
      | None \<Rightarrow>
        let fs = candidate_factors i urgency;
            confidence = combined_confidence (in_classification i);
            base = base_score (weights e) fs;
            tot = f_clamp (base * f_pressure fs) 0 (lit 3);
            posterior = posterior_from_score fexp tot confidence;
            base_keep = posterior * false_negative_loss e;
            base_delete = (1 - posterior) * false_positive_loss e;
            calibration = calibration_score confidence fs;
            fallback = calibration < calibration_floor e;
            uncertainty = epistemic_uncertainty fln posterior calibration;
            losses = uncertainty_adjusted_losses base_keep base_delete posterior calibration uncertainty;
            keep = fst losses; delete = snd losses;
            action = manual_review_override (in_classification i)
              (decide_action tot (min_score e) keep delete posterior calibration fallback uncertainty)
        in \<lparr>cs_path = in_path i, cs_identity = None, total_score = tot, factors = fs,
            vetoed = False, veto_text = None, cs_classification = in_classification i,
            cs_size_bytes = in_size_bytes i, cs_age = in_age i,
            decision = \<lparr>out_action = action, posterior_abandoned = posterior,
              expected_loss_keep = keep, expected_loss_delete = delete,
              out_calibration = calibration, fallback_active = fallback\<rparr>,
            ledger = build_ledger fs (weights e) posterior base_keep base_delete keep delete
              calibration uncertainty action\<rparr>)"

definition score_candidate ::
  "(f64 \<Rightarrow> f64) \<Rightarrow> (f64 \<Rightarrow> f64) \<Rightarrow> scoring_engine \<Rightarrow> candidate_input \<Rightarrow> f64 \<Rightarrow> candidacy_score" where
  "score_candidate fexp fln e i urgency = score_inner fexp fln e i urgency []"

definition score_candidate_with_sacred_overlaps ::
  "(f64 \<Rightarrow> f64) \<Rightarrow> (f64 \<Rightarrow> f64) \<Rightarrow> scoring_engine \<Rightarrow> candidate_input \<Rightarrow> f64 \<Rightarrow> sacred_overlap list \<Rightarrow>
     candidacy_score" where
  "score_candidate_with_sacred_overlaps fexp fln e i urgency ovs = score_inner fexp fln e i urgency ovs"

subsection \<open>Ranking a batch\<close>

text \<open>The comparator: higher score first, then the path. Candidates it calls equal have equal
  paths; the unstable sort leaves their order open and the model keeps the input's.\<close>

definition ranks_before :: "candidacy_score \<Rightarrow> candidacy_score \<Rightarrow> bool" where
  "ranks_before l r =
     (if total_score r < total_score l then True
      else if total_score l < total_score r then False
      else components (cs_path l) < components (cs_path r))"

definition rank_sort :: "candidacy_score list \<Rightarrow> candidacy_score list" where
  "rank_sort xs = sort_by ranks_before xs"

definition score_batch ::
  "(f64 \<Rightarrow> f64) \<Rightarrow> (f64 \<Rightarrow> f64) \<Rightarrow> scoring_engine \<Rightarrow> candidate_input list \<Rightarrow> f64 \<Rightarrow> candidacy_score list" where
  "score_batch fexp fln e candidates urgency =
     rank_sort (map (\<lambda>c. score_candidate fexp fln e c urgency) candidates)"

subsection \<open>What a deletion is based on\<close>

lemma sacred_overlap_veto_None [simp]:
  "sacred_overlap_veto ovs = None \<longleftrightarrow> ovs = []" "sacred_overlap_veto [] = None"
  by (simp_all add: sacred_overlap_veto_def split: list.splits)

lemma no_veto:
  "veto_reason e i ovs = None \<longleftrightarrow>
     \<not> has_git_component (in_path i) \<and> \<not> has_git (signals i) \<and> report_only_veto i = None \<and>
     \<not> is_system_path (in_path i) \<and>
     (has_cargo_toml (signals i) \<longrightarrow> has_strong_signal (signals i) \<or> allows_embedded_manifest (in_classification i)) \<and>
     \<not> is_ambiguous_target_name i \<and> ovs = [] \<and> cleanup_rule_veto i = None \<and> \<not> excluded i \<and>
     hard_refuse_bundle_extension (in_path i) = None \<and> min_file_age e \<le> in_age i \<and>
     references_is_empty (active_refs i) \<and> \<not> is_open i"
  by (auto simp: veto_reason_def safe_reclaim_reason_None [symmetric] not_less split: option.splits)

lemma score_inner_vetoed: "vetoed (score_inner fexp fln e i u ovs) \<longleftrightarrow> veto_reason e i ovs \<noteq> None"
  by (auto simp: score_inner_def Let_def vetoed_score_def split: option.splits)

text \<open>The scorer vetoes a candidate exactly when one of the protections applies
  (git, report-only or refused catalog rules, system paths, bare manifests, ambiguous target
  names, sacred overlaps, user exclusions, protected bundles, youth, active references, open
  files), and a vetoed candidate is kept with score 0 whatever the urgency.\<close>

lemma veto_is_final:
  "(vetoed (score_inner fexp fln e i u ovs) =
      (has_git_component (in_path i) \<or> has_git (signals i) \<or> report_only_veto i \<noteq> None \<or>
       is_system_path (in_path i) \<or>
       (has_cargo_toml (signals i) \<and> \<not> has_strong_signal (signals i) \<and>
          \<not> allows_embedded_manifest (in_classification i)) \<or>
       is_ambiguous_target_name i \<or> ovs \<noteq> [] \<or> cleanup_rule_veto i \<noteq> None \<or> excluded i \<or>
       hard_refuse_bundle_extension (in_path i) \<noteq> None \<or> in_age i < min_file_age e \<or>
       \<not> references_is_empty (active_refs i) \<or> is_open i)) \<and>
   (vetoed (score_inner fexp fln e i u ovs) \<longrightarrow>
      out_action (decision (score_inner fexp fln e i u ovs)) = Keep \<and>
      total_score (score_inner fexp fln e i u ovs) = 0)"
proof -
  have "out_action (decision (score_inner fexp fln e i u ovs)) = Keep \<and>
      total_score (score_inner fexp fln e i u ovs) = 0" if "veto_reason e i ovs = Some r" for r
    using that by (simp add: score_inner_def vetoed_score_def)
  then show ?thesis unfolding score_inner_vetoed using no_veto [of e i ovs]
    by (auto simp: not_le [symmetric])
qed

definition demo_input :: candidate_input where
  "demo_input = \<lparr>in_path = ''/x/.git'', in_size_bytes = 0, in_age = 0,
     in_classification = classification_unknown,
     signals = \<lparr>has_incremental = False, has_deps = False, has_build = False, has_fingerprint = False,
       has_git = True, has_cargo_toml = False, mostly_object_files = False\<rparr>,
     active_refs = no_references, is_open = False, excluded = False\<rparr>"

text \<open>A comparison with a clamped value is one with its lower bound.\<close>

lemma clamp_le_lower: "f_clamp y lo hi \<le> x \<Longrightarrow> lo \<le> hi \<Longrightarrow> lo \<le> x"
  by (cases y; cases lo; cases hi; cases x) (auto simp: f_clamp_def split: if_splits)

lemma sixty_le: "lit (60/100) \<le> lit (95/100)" by (rule rnd_mono) simp

lemma twelve_le: "lit (12/10) \<le> lit 4" by (rule rnd_mono) simp

lemma decide_delete:
  assumes "decide_action tot min_sc kl dl po cal fb u = Delete"
  shows "\<not> tot < min_sc \<and> \<not> fb \<and> dl < kl \<and> lit (60/100) \<le> po \<and>
    lit (12/10) \<le> delete_advantage_ratio kl dl \<and>
    \<not> f_abs (kl - dl) \<le> f_mul_add (1 - cal) (lit 2) (f_mul_add (lit 5) u 1)"
proof -
  define c1 where "c1 = f_mul_add (1 - f_clamp cal 0 1) (lit (20/100)) (f_mul_add (lit (20/100)) u (lit (60/100)))"
  have raw: "\<not> tot < min_sc \<and> \<not> fb \<and> dl < kl \<and> f_clamp c1 (lit (60/100)) (lit (95/100)) \<le> po \<and>
      min_delete_advantage cal u \<le> delete_advantage_ratio kl dl \<and>
      \<not> f_abs (kl - dl) \<le> f_mul_add (1 - cal) (lit 2) (f_mul_add (lit 5) u 1)"
    using assms unfolding decide_action_def Let_def c1_def by (simp only: simp_thms de_Morgan_disj decision_action.distinct split: if_splits)
  then have "lit (60/100) \<le> po" using clamp_le_lower [OF _ sixty_le] by blast
  moreover have "lit (12/10) \<le> delete_advantage_ratio kl dl"
    using raw clamp_le_lower [OF _ twelve_le] unfolding min_delete_advantage_def Let_def by blast
  ultimately show ?thesis using raw by blast
qed

lemma delete_needs:
  assumes "out_action (decision s) = Delete" and "s = score_inner fexp fln e i u ovs"
  shows "\<not> has_git_component (in_path i) \<and> \<not> has_git (signals i) \<and> \<not> is_system_path (in_path i) \<and>
    ovs = [] \<and> \<not> excluded i \<and> min_file_age e \<le> in_age i \<and> references_is_empty (active_refs i) \<and>
    \<not> is_open i \<and> hard_refuse_bundle_extension (in_path i) = None \<and>
    (\<forall>r. cleanup_rule_for_classification (in_classification i) = Some r \<longrightarrow>
       reclaim_command r \<in> {RemoveTree, RemoveMatchingFiles} \<and> age_threshold r \<le> in_age i) \<and>
    \<not> total_score s < min_score e \<and> \<not> out_calibration (decision s) < calibration_floor e \<and>
    lit (60/100) \<le> posterior_abandoned (decision s) \<and>
    expected_loss_delete (decision s) < expected_loss_keep (decision s) \<and>
    lit (12/10) \<le> delete_advantage_ratio (expected_loss_keep (decision s)) (expected_loss_delete (decision s))"
proof -
  have nv: "veto_reason e i ovs = None"
  proof (rule ccontr)
    assume "veto_reason e i ovs \<noteq> None"
    then obtain r where "veto_reason e i ovs = Some r" by blast
    then show False using assms by (simp add: score_inner_def vetoed_score_def)
  qed
  define u' where "u' = epistemic_uncertainty fln (posterior_abandoned (decision s)) (out_calibration (decision s))"
  have act: "out_action (decision s) = manual_review_override (in_classification i)
      (decide_action (total_score s) (min_score e) (expected_loss_keep (decision s))
        (expected_loss_delete (decision s)) (posterior_abandoned (decision s))
        (out_calibration (decision s)) (out_calibration (decision s) < calibration_floor e) u')"
    unfolding u'_def assms(2) score_inner_def nv option.case Let_def
    by (simp only: candidacy_score.select_convs decision_outcome.select_convs)
  then have "decide_action (total_score s) (min_score e) (expected_loss_keep (decision s))
        (expected_loss_delete (decision s)) (posterior_abandoned (decision s))
        (out_calibration (decision s)) (out_calibration (decision s) < calibration_floor e) u' = Delete"
    and rule: "case cleanup_rule_for_classification (in_classification i) of
        Some r \<Rightarrow> reclaim_command r \<noteq> PromptBeforeRemove | None \<Rightarrow> True"
    using assms(1) by (auto simp: manual_review_override_def split: if_splits option.splits)
  note d = decide_delete [OF this(1)]
  have cr: "reclaim_command r \<in> {RemoveTree, RemoveMatchingFiles} \<and> age_threshold r \<le> in_age i"
    if "cleanup_rule_for_classification (in_classification i) = Some r" for r
  proof -
    have "cleanup_rule_veto i = None" using nv no_veto by blast
    then show ?thesis using that rule
      by (cases "reclaim_command r") (auto simp: cleanup_rule_veto_def Let_def split: if_splits)
  qed
  show ?thesis using nv d cr unfolding no_veto by blast
qed


subsection \<open>A deletion\<close>

definition demo_engine :: scoring_engine where
  "demo_engine = \<lparr>weights = \<lparr>w_location = 0, w_name = 0, w_age = 0, w_size = 0, w_structure = 0\<rparr>,
     min_file_age = 0, min_score = 0, false_positive_loss = lit 50, false_negative_loss = lit 30,
     calibration_floor = 0\<rparr>"

definition demo_target :: candidate_input where
  "demo_target = \<lparr>in_path = ''/tmp/a'', in_size_bytes = 0, in_age = 0,
     in_classification = \<lparr>pattern_name = ''x'', category = TempDir, name_confidence = Fin 2,
       structural_confidence = lit (40/100), combined_confidence = 1\<rparr>,
     signals = \<lparr>has_incremental = True, has_deps = True, has_build = True, has_fingerprint = True,
       has_git = False, has_cargo_toml = False, mostly_object_files = False\<rparr>,
     active_refs = no_references, is_open = False, excluded = False\<rparr>"

lemma demo_no_rule: "cleanup_rule_for_classification (in_classification demo_target) = None"
  by (simp add: cleanup_rule_for_classification_def demo_target_def mac_find_rule_def linux_find_rule_def
      find_rule_def mac_cleanup_rules_def linux_cleanup_rules_def rule_names rule_labels)

lemma demo_components: "components ''/tmp/a'' = [RootDir, Normal ''tmp'', Normal ''a'']"
  by (simp add: components_def parse_segment_def List.map_filter_def)

lemma demo_no_veto: "veto_reason demo_engine demo_target [] = None"
proof -
  have sys: "\<not> is_system_path ''/tmp/a''"
    unfolding is_system_path_def path_eq_def path_starts_with_def demo_components
    by (simp add: components_def parse_segment_def List.map_filter_def system_roots_def)
  have anc: "hard_refuse_bundle_extension ''/tmp/a'' = None"
    by (simp add: hard_refuse_bundle_extension_def ancestors_def demo_components path_bundle_extension_def
        comps_file_name_def name_extension_def rsplit_once_def upt_rec)
  show ?thesis unfolding no_veto
    using demo_no_rule
    by (simp add: demo_target_def demo_engine_def sys anc has_git_component_def demo_components
        report_only_veto_def cleanup_rule_veto_def is_ambiguous_target_name_def no_references_def
        references_is_empty_def)
qed

lemma demo_deletes:
  "out_action (decision (score_inner (\<lambda>x. 0) (\<lambda>x. 0) demo_engine demo_target 0 [])) = Delete"
proof -
  obtain a where a: "lit (19/20) = Fin a" "0 \<le> a" "a \<le> 1" using lit_unit [of "19/20"] by auto
  obtain b where b: "lit (1/20) = Fin b" using lit_unit [of "1/20"] by auto
  obtain c where c: "lit (3/10) = Fin c" "0 \<le> c" using lit_unit [of "3/10"] by auto
  let ?fs = "candidate_factors demo_target (Fin 0)"
  have fs: "f_location ?fs = Fin a" "f_structure ?fs = Fin a" "f_name ?fs = Fin 1" "f_age ?fs = Fin 0"
    "f_size ?fs = Fin b" "f_pressure ?fs = Fin 1"
    using c by (simp_all add: candidate_factors_def demo_target_def factor_location_def factor_structure_def
        factor_name_def factor_age_def factor_size_def pressure_multiplier_def a b file_name_def
        demo_components comps_file_name_def contains_ci_def f_clamp_def as_secs_f64_def f_of_nat_def fin_ops)
  have base: "base_score (weights demo_engine) ?fs = Fin 0"
    by (simp add: base_score_def demo_engine_def fs fin_ops)
  have tot: "f_clamp (Fin 0 * f_pressure ?fs) (Fin 0) (Fin 3) = Fin 0"
    by (simp add: fs fin_ops f_clamp_def)
  have post: "posterior_from_score (\<lambda>x. Fin 0) (Fin 0) (Fin 1) = Fin 1"
    by (simp add: posterior_from_score_def Let_def fin_ops)
  obtain q3 where q3: "lit (3/4) = Fin (3/4)" "lit (1/4) = Fin (1/4)" "lit (7/2) = Fin (7/2)"
    using rnd_dyadic [of 3 "- 2"] rnd_dyadic [of 1 "- 2"] rnd_dyadic [of 7 "- 1"]
    by (simp add: power_int_minus)
  have cal: "calibration_score (Fin 1) ?fs = Fin 1"
    by (simp add: calibration_score_def fs fin_ops q3 f_clamp_def)
  obtain d where d: "lit (1/1000000) = Fin d" "0 \<le> d" "d \<le> 1" using lit_unit [of "1/1000000"] by auto
  obtain g where g: "lit (13/20) = Fin g" using lit_unit [of "13/20"] by auto
  obtain h where h: "lit (7/20) = Fin h" using lit_unit [of "7/20"] by auto
  obtain w where w: "rnd (1 - d) = Fin w" "0 \<le> w" "w \<le> 1"
    using rnd_in [OF rnd_0 rnd_1(1), of "1 - d"] d by auto
  obtain v where v: "rnd (1 - w) = Fin v" using rnd_in [OF rnd_0 rnd_1(1), of "1 - w"] w by auto
  have clamp: "f_clamp (Fin 1) (Fin d) (Fin w) = Fin w" using d w by (simp add: f_clamp_def)
  have unc: "epistemic_uncertainty (\<lambda>x. Fin 0) (Fin 1) (Fin 1) = Fin 0"
    using d by (simp add: epistemic_uncertainty_def Let_def fin_ops w clamp v g h ln_2_def f_clamp_def)
  obtain m where m: "lit (4/5) = Fin m" "0 \<le> m" "m \<le> 1" using lit_unit [of "4/5"] by auto
  obtain n where n: "lit (9/10) = Fin n" "rnd n = Fin n" using lit_unit [of "9/10"] rnd_idem by auto
  obtain k where k: "rnd (m + 1) = Fin k" "1 \<le> k" "k \<le> 2"
    using rnd_in [OF rnd_1(1) rnd_numeral [of "Num.Bit0 Num.One"], of "m + 1"] m by auto
  obtain l where l: "rnd (30 * k) = Fin l" "30 \<le> l"
    using rnd_in [of 30 60 "30 * k"] k by auto
  have losses: "uncertainty_adjusted_losses (Fin 30) (Fin 0) (Fin 1) (Fin 1) (Fin 0) = (Fin l, Fin 0)"
    by (simp add: uncertainty_adjusted_losses_def Let_def f_clamp_def fin_ops m k l n f_max_def)
  obtain a1 where a1: "lit (6/5) = Fin a1" "1 \<le> a1" "a1 \<le> 2"
    using rnd_in [of 1 2 "6/5"] by auto
  obtain a2 where a2: "lit (8/5) = Fin a2" using rnd_in [of 1 2 "8/5"] by auto
  obtain a3 where a3: "lit (3/5) = Fin a3" "a3 \<le> 1" using lit_unit [of "3/5"] by auto
  obtain a4 where a4: "lit (1/5) = Fin a4" using lit_unit [of "1/5"] by auto
  have idem: "rnd a1 = Fin a1" "rnd a3 = Fin a3" "rnd l = Fin l"
    using rnd_idem a1(1) a3(1) l(1) by auto
  have adv: "min_delete_advantage (Fin 1) (Fin 0) = Fin a1"
    using a1 by (simp add: min_delete_advantage_def Let_def f_clamp_def fin_ops a2 n idem)
  have ratio: "delete_advantage_ratio (Fin l) (Fin 0) = Fin 1000000"
    by (simp add: delete_advantage_ratio_def f_max_def f64_epsilon_def)
  have act: "decide_action (Fin 0) (Fin 0) (Fin l) (Fin 0) (Fin 1) (Fin 1) False (Fin 0) = Delete"
    using l a1 a3 a(2,3) by (simp add: decide_action_def Let_def fin_ops f_clamp_def idem adv ratio a3 a4 a)
  have fields: "combined_confidence (in_classification demo_target) = Fin 1" "min_score demo_engine = Fin 0"
    "false_positive_loss demo_engine = Fin 50" "false_negative_loss demo_engine = Fin 30"
    "calibration_floor demo_engine = Fin 0"
    by (simp_all add: demo_target_def demo_engine_def)
  show ?thesis
    unfolding score_inner_def demo_no_veto option.case Let_def
    using act demo_no_rule
    by (simp add: base tot post cal unc losses fields fin_ops manual_review_override_def)
qed


end
