(* ===== verification/Score_Range.thy ===== *)
theory Score_Range
  imports Scoring
begin

section \<open>The range and monotonicity of scores\<close>

text \<open>
  The rounding of the literals that join the pieces of the pressure multiplier, its bounds and
  monotonicity, the range of the factors, and what follows for the total score and the ranking
  of a batch.
\<close>

subsection \<open>Rounding of given values\<close>

lemma floor_log2_unique:
  assumes "2 powi k \<le> q" "q < 2 powi (k + 1)"
  shows "floor_log2 q = k"
proof -
  have q: "0 < q" using powi_pos assms(1) by (rule less_le_trans)
  have "k < floor_log2 q + 1"
    using floor_log2_bounds [OF q] assms(1) by (meson le_less_trans powi_less_iff)
  moreover have "floor_log2 q < k + 1" using floor_log2_less [OF q assms(2)] .
  ultimately show ?thesis by linarith
qed

lemma round_half_even_close: "\<bar>q - of_int m\<bar> < 1 / 2 \<Longrightarrow> round_half_even q = m"
proof -
  assume q: "\<bar>q - of_int m\<bar> < 1 / 2"
  then consider "\<lfloor>q\<rfloor> = m" | "\<lfloor>q\<rfloor> = m - 1" "1 / 2 < q - of_int (m - 1)"
    by (cases "of_int m \<le> q") (simp_all add: floor_eq_iff abs_if)
  then show ?thesis using q by cases (auto simp: round_half_even_def Let_def abs_if split: if_splits)
qed

lemma rnd_near:
  assumes "2 powi k \<le> q" "q < 2 powi (k + 1)" "- 1000 \<le> k" "k \<le> 800"
    and "\<bar>q / 2 powi (k - 52) - of_int m\<bar> < 1 / 2"
  shows "rnd q = Fin (of_int m * 2 powi (k - 52))"
proof -
  have q: "0 < q" using powi_pos assms(1) by (rule less_le_trans)
  have "ulp_exp q = k - 52" using assms(3) floor_log2_unique [OF assms(1,2)] by (simp add: ulp_exp_def)
  then have r: "rnd_pos q = of_int m * 2 powi (k - 52)"
    by (simp only: rnd_pos_def Let_def round_half_even_close [OF assms(5)])
  have "(2::rat) powi (k + 1) \<le> 2 powi 900" using assms(4) by (subst powi_le_iff) simp
  then have "\<bar>q\<bar> \<le> 2 powi 900" using assms(2) q by linarith
  then obtain v where "rnd q = Fin v" using rnd_finite by blast
  then show ?thesis using q r by (simp only: rnd_pos_cases split: if_splits) simp
qed

lemma lit_03: "lit (3/10) = Fin (5404319552844595 / 2 ^ 54)"
  using rnd_near [of "- 2" "3/10" 5404319552844595] by (simp add: power_int_minus)

lemma lit_13: "lit (13/10) = Fin (5854679515581645 / 2 ^ 52)"
  using rnd_near [of 0 "13/10" 5854679515581645] by (simp add: power_int_minus)

lemma lit_08: "lit (4/5) = Fin (3602879701896397 / 2 ^ 52)"
  using rnd_near [of "- 1" "4/5" 7205759403792794] by (simp add: power_int_minus)

lemma lit_15: "lit (3/2) = Fin (3/2)"
  using rnd_dyadic [of 3 "- 1"] by (simp add: power_int_minus)

lemma pm_slope: "rnd (1/2 / (5404319552844595 / 2 ^ 54)) = Fin (7505999378950827 / 2 ^ 52)"
  using rnd_near [of 0 "1/2 / (5404319552844595 / 2 ^ 54)" 7505999378950827] by (simp add: power_int_minus)

subsection \<open>The pressure multiplier\<close>

abbreviation r03 :: rat where "r03 \<equiv> 5404319552844595 / 2 ^ 54"
abbreviation r13 :: rat where "r13 \<equiv> 5854679515581645 / 2 ^ 52"
abbreviation r08 :: rat where "r08 \<equiv> 3602879701896397 / 2 ^ 52"
abbreviation slope :: rat where "slope \<equiv> 7505999378950827 / 2 ^ 52"

text \<open>A piece above a threshold: rounded distance, scaled and shifted.\<close>

definition piece :: "rat \<Rightarrow> rat \<Rightarrow> rat \<Rightarrow> rat \<Rightarrow> f64" where
  "piece l b c u = f_mul_add (rnd (u - l)) (Fin b) (Fin c)"

lemma piece_dist: "l \<le> u \<Longrightarrow> 0 \<le> l \<Longrightarrow> u \<le> 1 \<Longrightarrow> \<exists>d. rnd (u - l) = Fin d \<and> 0 \<le> d"
  using rnd_in [OF rnd_0 rnd_1(1), of "u - l"] by auto

lemma piece_mono:
  assumes "l \<le> u" "u \<le> v" "0 \<le> l" "v \<le> 1" "0 \<le> b"
  shows "piece l b c u \<le> piece l b c v"
proof -
  obtain d where d: "rnd (u - l) = Fin d" using piece_dist [of l u] assms by auto
  obtain e where e: "rnd (v - l) = Fin e" using piece_dist [of l v] assms by auto
  have "d \<le> e" using rnd_mono [of "u - l" "v - l"] assms(2) d e by simp
  then have "d * b + c \<le> e * b + c" using assms(5) by (simp add: mult_right_mono)
  then show ?thesis by (simp add: piece_def d e fin_ops rnd_mono)
qed

lemma piece_ge:
  assumes "l \<le> u" "0 \<le> l" "u \<le> 1" "0 \<le> b" "rnd c = Fin c"
  shows "Fin c \<le> piece l b c u"
proof -
  obtain d where d: "rnd (u - l) = Fin d" "0 \<le> d" using piece_dist assms by blast
  then have "c \<le> d * b + c" using assms(4) by simp
  then show ?thesis using rnd_ge [OF assms(5)] by (simp add: piece_def d fin_ops)
qed

lemma piece_le:
  assumes "l \<le> u" "u \<le> h" "0 \<le> l" "h \<le> 1" "0 \<le> b" "piece l b c h \<le> t"
  shows "piece l b c u \<le> t"
  using piece_mono [of l u h b c] assms f_le_trans by blast

lemma piece1_top: "piece r03 1 r13 (1/2) = Fin (3/2)"
proof -
  have d: "rnd (1/2 - r03) = Fin (3602879701896397 / 2 ^ 54)"
    using rnd_dyadic [of 3602879701896397 "- 54"] by (simp add: power_int_minus)
  have "rnd (3602879701896397 / 2 ^ 54 * 1 + r13) = Fin (3/2)"
    using rnd_near [of 0 "3602879701896397 / 2 ^ 54 + r13" "6755399441055744"]
    by (simp add: power_int_minus)
  then show ?thesis by (simp only: piece_def d fin_ops)
qed

lemma piece2_top: "piece (1/2) slope (3/2) r08 = Fin 2"
proof -
  have d: "rnd (r08 - 1/2) = Fin (1351079888211149 / 2 ^ 52)"
    using rnd_dyadic [of 1351079888211149 "- 52"] by (simp add: power_int_minus)
  have "rnd (1351079888211149 / 2 ^ 52 * slope + 3/2) = Fin 2"
    using rnd_near [of 1 "1351079888211149 / 2 ^ 52 * slope + 3/2" "4503599627370496"]
    by (simp add: power_int_minus)
  then show ?thesis by (simp only: piece_def d fin_ops)
qed

lemma piece3_top: "piece r08 5 2 1 \<le> Fin 3"
proof -
  have d: "rnd (1 - r08) = Fin (900719925474099 / 2 ^ 52)"
    using rnd_dyadic [of 900719925474099 "- 52"] by (simp add: power_int_minus)
  have "rnd (900719925474099 / 2 ^ 52 * 5 + 2) \<le> Fin 3" by (rule rnd_le) simp_all
  then show ?thesis by (simp only: piece_def d fin_ops)
qed

lemma pm_pieces:
  "pressure_multiplier (Fin u) =
     (let v = max 0 (min u 1) in
      if v \<le> r03 then rnd (1 + v) else if v \<le> 1/2 then piece r03 1 r13 v
      else if v \<le> r08 then piece (1/2) slope (3/2) v else piece r08 5 2 v)"
proof -
  define v where "v = max 0 (min u 1)"
  have c: "f_clamp (Fin u) (Fin 0) (Fin 1) = Fin v"
    by (auto simp: f_clamp_def max_def min_def v_def)
  have s: "Fin (1/2) / Fin r03 = Fin slope" 
    using fin_ops(4) [of r03 "1/2"] pm_slope by simp
  have l: "lit (8/10) = Fin r08" using lit_08 by simp
  have n: "lit 5 = Fin 5" "lit 2 = Fin 2" by simp_all
  show ?thesis
    unfolding pressure_multiplier_def f_zero_one c lit_03 lit_13 l lit_15 rnd_half s n piece_def Let_def
      v_def [symmetric]
    by (simp only: f_le_simps fin_ops)
qed

lemma r13_rep: "rnd r13 = Fin r13" "rnd (3/2) = Fin (3/2)"
  using rnd_idem [OF lit_13] lit_15 by simp_all

lemma unit_pieces:
  assumes "0 \<le> v" "v \<le> 1"
  shows "v \<le> r03 \<Longrightarrow> Fin 1 \<le> rnd (1 + v) \<and> rnd (1 + v) \<le> Fin r13"
    and "r03 \<le> v \<Longrightarrow> v \<le> 1/2 \<Longrightarrow> Fin r13 \<le> piece r03 1 r13 v \<and> piece r03 1 r13 v \<le> Fin (3/2)"
    and "1/2 \<le> v \<Longrightarrow> v \<le> r08 \<Longrightarrow> Fin (3/2) \<le> piece (1/2) slope (3/2) v \<and> piece (1/2) slope (3/2) v \<le> Fin 2"
    and "r08 \<le> v \<Longrightarrow> Fin 2 \<le> piece r08 5 2 v \<and> piece r08 5 2 v \<le> Fin 3"
proof -
  have n: "(0::rat) \<le> r03" "(0::rat) \<le> r08" "(0::rat) \<le> 1/2" "(0::rat) \<le> slope" "(0::rat) \<le> 1"
    "(0::rat) \<le> 5" "r08 \<le> 1" "(1/2::rat) \<le> 1" "1 + r03 \<le> r13"
    by simp_all
  show "Fin 1 \<le> rnd (1 + v) \<and> rnd (1 + v) \<le> Fin r13" if "v \<le> r03"
  proof -
    have "1 \<le> 1 + v" "1 + v \<le> r13" using assms(1) that n(9) by linarith+
    then show ?thesis using rnd_ge [OF rnd_1(1)] rnd_le [OF r13_rep(1)] by blast
  qed
  show "Fin r13 \<le> piece r03 1 r13 v \<and> piece r03 1 r13 v \<le> Fin (3/2)" if "r03 \<le> v" "v \<le> 1/2"
    using piece_ge [OF that(1) n(1) assms(2) n(5) r13_rep(1)]
      piece_le [OF that n(1) n(8) n(5), of r13 "Fin (3/2)"] piece1_top f_le_refl by (metis f64.distinct(3))
  show "Fin (3/2) \<le> piece (1/2) slope (3/2) v \<and> piece (1/2) slope (3/2) v \<le> Fin 2" if "1/2 \<le> v" "v \<le> r08"
    using piece_ge [OF that(1) n(3) assms(2) n(4) r13_rep(2)]
      piece_le [OF that n(3) n(7) n(4), of "3/2" "Fin 2"] piece2_top f_le_refl by (metis f64.distinct(3))
  show "Fin 2 \<le> piece r08 5 2 v \<and> piece r08 5 2 v \<le> Fin 3" if "r08 \<le> v"
    using piece_ge [OF that n(2) assms(2) n(6), of 2]
      piece_le [OF that assms(2) n(2) order.refl n(6) piece3_top] by simp
qed

text \<open>The piece a point of the unit interval lies in.\<close>

lemma pm_unit:
  assumes "0 \<le> v" "v \<le> 1"
  shows "v \<le> r03 \<Longrightarrow> pressure_multiplier (Fin v) = rnd (1 + v)"
    and "\<not> v \<le> r03 \<Longrightarrow> v \<le> 1/2 \<Longrightarrow> pressure_multiplier (Fin v) = piece r03 1 r13 v"
    and "\<not> v \<le> 1/2 \<Longrightarrow> v \<le> r08 \<Longrightarrow> pressure_multiplier (Fin v) = piece (1/2) slope (3/2) v"
    and "\<not> v \<le> r08 \<Longrightarrow> pressure_multiplier (Fin v) = piece r08 5 2 v"
proof -
  have m: "max 0 (min v 1) = v" using assms by simp
  have lt: "r03 < (1/2::rat)" "(1/2::rat) < r08" by simp_all
  note p = pm_pieces [of v, unfolded m Let_def]
  show "v \<le> r03 \<Longrightarrow> pressure_multiplier (Fin v) = rnd (1 + v)" by (simp only: p if_True)
  show "\<not> v \<le> r03 \<Longrightarrow> v \<le> 1/2 \<Longrightarrow> pressure_multiplier (Fin v) = piece r03 1 r13 v"
    by (simp only: p if_False if_True)
  show "pressure_multiplier (Fin v) = piece (1/2) slope (3/2) v" if v: "\<not> v \<le> 1/2" "v \<le> r08"
  proof -
    have "\<not> v \<le> r03" using v(1) lt(1) by linarith
    then show ?thesis by (simp only: p v if_False if_True)
  qed
  show "pressure_multiplier (Fin v) = piece r08 5 2 v" if v: "\<not> v \<le> r08"
  proof -
    have "\<not> v \<le> 1/2" "\<not> v \<le> r03" using v lt by linarith+
    then show ?thesis by (simp only: p v if_False)
  qed
qed

text \<open>The bounds of each piece, as values of the multiplier.\<close>

lemma pm_bounds:
  assumes v: "0 \<le> v" "v \<le> 1"
  shows "v \<le> r03 \<Longrightarrow> Fin 1 \<le> pressure_multiplier (Fin v) \<and> pressure_multiplier (Fin v) \<le> Fin r13"
    and "\<not> v \<le> r03 \<Longrightarrow> v \<le> 1/2 \<Longrightarrow> Fin r13 \<le> pressure_multiplier (Fin v) \<and> pressure_multiplier (Fin v) \<le> Fin (3/2)"
    and "\<not> v \<le> 1/2 \<Longrightarrow> v \<le> r08 \<Longrightarrow> Fin (3/2) \<le> pressure_multiplier (Fin v) \<and> pressure_multiplier (Fin v) \<le> Fin 2"
    and "\<not> v \<le> r08 \<Longrightarrow> Fin 2 \<le> pressure_multiplier (Fin v) \<and> pressure_multiplier (Fin v) \<le> Fin 3"
  using unit_pieces [OF v] pm_unit [OF v] by (simp_all only: not_le less_imp_le simp_thms)

lemma pm_value:
  assumes v: "0 \<le> v" "v \<le> 1"
  obtains x where "pressure_multiplier (Fin v) = Fin x" "1 \<le> x" "x \<le> 3"
    "v \<le> r03 \<longrightarrow> x \<le> r13" "\<not> v \<le> r03 \<longrightarrow> r13 \<le> x" "v \<le> 1/2 \<longrightarrow> x \<le> 3/2" "\<not> v \<le> 1/2 \<longrightarrow> 3/2 \<le> x"
    "v \<le> r08 \<longrightarrow> x \<le> 2" "\<not> v \<le> r08 \<longrightarrow> 2 \<le> x"
proof -
  have ch: "(1::rat) \<le> r13" "r13 \<le> 3/2" "r03 < (1/2::rat)" "(1/2::rat) < r08" by simp_all
  note g = that
  consider (a) "v \<le> r03" | (b) "\<not> v \<le> r03" "v \<le> 1/2" | (c) "\<not> v \<le> 1/2" "v \<le> r08" | (d) "\<not> v \<le> r08"
    by blast
  then show ?thesis
  proof cases
    case a
    from pm_bounds(1) [OF v this] obtain x where x: "pressure_multiplier (Fin v) = Fin x" "1 \<le> x" "x \<le> r13"
      using rnd_finite_bounds by blast
    show ?thesis using a x(2,3) ch by (intro g [OF x(1)]) linarith+
  next
    case b
    from pm_bounds(2) [OF v this] obtain x where x: "pressure_multiplier (Fin v) = Fin x" "r13 \<le> x" "x \<le> 3/2"
      using rnd_finite_bounds by blast
    show ?thesis using b x(2,3) ch by (intro g [OF x(1)]) linarith+
  next
    case c
    from pm_bounds(3) [OF v this] obtain x where x: "pressure_multiplier (Fin v) = Fin x" "3/2 \<le> x" "x \<le> 2"
      using rnd_finite_bounds by blast
    show ?thesis using c x(2,3) ch by (intro g [OF x(1)]) linarith+
  next
    case d
    from pm_bounds(4) [OF v this] obtain x where x: "pressure_multiplier (Fin v) = Fin x" "2 \<le> x" "x \<le> 3"
      using rnd_finite_bounds by blast
    show ?thesis using d x(2,3) ch by (intro g [OF x(1)]) linarith+
  qed
qed

lemma pm_mono_unit:
  assumes "0 \<le> v" "v \<le> w" "w \<le> 1"
  shows "pressure_multiplier (Fin v) \<le> pressure_multiplier (Fin w)"
proof -
  have v: "0 \<le> v" "v \<le> 1" and w: "0 \<le> w" "w \<le> 1" using assms by linarith+
  obtain x where x: "pressure_multiplier (Fin v) = Fin x" "v \<le> r03 \<longrightarrow> x \<le> r13"
    "v \<le> 1/2 \<longrightarrow> x \<le> 3/2" "v \<le> r08 \<longrightarrow> x \<le> 2"
    using v by (rule pm_value)
  obtain y where y: "pressure_multiplier (Fin w) = Fin y" "\<not> w \<le> r03 \<longrightarrow> r13 \<le> y"
    "\<not> w \<le> 1/2 \<longrightarrow> 3/2 \<le> y" "\<not> w \<le> r08 \<longrightarrow> 2 \<le> y"
    using w by (rule pm_value)
  have n: "(0::rat) \<le> r03" "(0::rat) \<le> r08" "(0::rat) \<le> 1/2" "(0::rat) \<le> slope" "(0::rat) \<le> 1" "(0::rat) \<le> 5"
    by simp_all
  consider "v \<le> r03" "\<not> w \<le> r03" | "v \<le> 1/2" "\<not> w \<le> 1/2" | "v \<le> r08" "\<not> w \<le> r08"
    | (a) "w \<le> r03" | (b) "\<not> v \<le> r03" "w \<le> 1/2" | (c) "\<not> v \<le> 1/2" "w \<le> r08" | (d) "\<not> v \<le> r08"
    by blast
  then show ?thesis
  proof cases
    case a
    then have "v \<le> r03" using assms(2) by linarith
    then show ?thesis unfolding pm_unit(1) [OF w a] pm_unit(1) [OF v \<open>v \<le> r03\<close>]
      using assms(2) by (intro rnd_mono) linarith
  next
    case b
    then have l: "r03 \<le> v" "v \<le> 1/2" "\<not> w \<le> r03" using assms(2) by linarith+
    show ?thesis unfolding pm_unit(2) [OF w l(3) b(2)] pm_unit(2) [OF v b(1) l(2)]
      by (rule piece_mono [OF l(1) assms(2) n(1) assms(3) n(5)])
  next
    case c
    then have l: "1/2 \<le> v" "v \<le> r08" "\<not> w \<le> 1/2" using assms(2) by linarith+
    show ?thesis unfolding pm_unit(3) [OF w l(3) c(2)] pm_unit(3) [OF v c(1) l(2)]
      by (rule piece_mono [OF l(1) assms(2) n(3) assms(3) n(4)])
  next
    case d
    then have l: "r08 \<le> v" "\<not> w \<le> r08" using assms(2) by linarith+
    show ?thesis unfolding pm_unit(4) [OF w l(2)] pm_unit(4) [OF v d]
      by (rule piece_mono [OF l(1) assms(2) n(2) assms(3) n(6)])
  next
    case 1
    then have "x \<le> y" using x(2) y(2) by linarith
    then show ?thesis by (simp only: x(1) y(1) f_le_simps)
  next
    case 2
    then have "x \<le> y" using x(3) y(3) by linarith
    then show ?thesis by (simp only: x(1) y(1) f_le_simps)
  next
    case 3
    then have "x \<le> y" using x(4) y(4) by linarith
    then show ?thesis by (simp only: x(1) y(1) f_le_simps)
  qed
qed

text \<open>The argument is clamped first, so every urgency that is a number is covered.\<close>

lemma pm_clamped: "pressure_multiplier x = pressure_multiplier (f_clamp x 0 1)"
proof -
  have "f_clamp (f_clamp x 0 1) 0 1 = f_clamp x 0 1"
    by (cases x) (auto simp: f_clamp_def)
  then show ?thesis by (simp only: pressure_multiplier_def)
qed

lemma clamp01_mono: "x \<le> y \<Longrightarrow> f_clamp x (Fin a) (Fin b) \<le> f_clamp y (Fin a) (Fin b)" if "a \<le> b"
  using that by (cases x; cases y) (auto simp: f_clamp_def)

lemma pm_all:
  assumes "x \<le> y"
  shows "pressure_multiplier x \<le> pressure_multiplier y \<and> Fin 1 \<le> pressure_multiplier x \<and>
    pressure_multiplier y \<le> Fin 3"
proof -
  have nn: "x \<noteq> FNaN" "y \<noteq> FNaN" using assms by auto
  obtain v where v: "f_clamp x 0 1 = Fin v" "0 \<le> v" "v \<le> 1" using f_clamp_finite [OF nn(1), of 0 1] by auto
  obtain w where w: "f_clamp y 0 1 = Fin w" "0 \<le> w" "w \<le> 1" using f_clamp_finite [OF nn(2), of 0 1] by auto
  have "v \<le> w" using clamp01_mono [of 0 1, OF _ assms] v w by simp
  obtain a where "pressure_multiplier (Fin v) = Fin a" "1 \<le> a" using v(2,3) by (rule pm_value)
  moreover obtain b where "pressure_multiplier (Fin w) = Fin b" "b \<le> 3" using w(2,3) by (rule pm_value)
  moreover have "pressure_multiplier (Fin v) \<le> pressure_multiplier (Fin w)"
    using pm_mono_unit v w \<open>v \<le> w\<close> by blast
  ultimately show ?thesis unfolding pm_clamped [of x] pm_clamped [of y] v(1) w(1) by simp
qed

text \<open>The pressure multiplier is between 1 and 3 and never falls as
  the urgency rises, across the joins of its four pieces too, as computed in double precision.\<close>

lemma pressure_multiplier_monotone:
  assumes "x \<le> y"
  shows "pressure_multiplier x \<le> pressure_multiplier y \<and> Fin 1 \<le> pressure_multiplier x \<and>
    pressure_multiplier y \<le> Fin 3"
  using assms by (rule pm_all)

subsection \<open>Factors and totals\<close>

text \<open>The operator's configuration and the classifier's confidence are numbers.\<close>

definition weight_ok :: "f64 \<Rightarrow> bool" where
  "weight_ok w = (case w of Fin q \<Rightarrow> 0 \<le> q | _ \<Rightarrow> False)"

definition weights_ok :: "scoring_weights \<Rightarrow> bool" where
  "weights_ok w = (weight_ok (w_location w) \<and> weight_ok (w_name w) \<and> weight_ok (w_age w) \<and>
     weight_ok (w_size w) \<and> weight_ok (w_structure w))"

lemma weight_ok_Fin: "weight_ok x \<longleftrightarrow> (\<exists>q. x = Fin q \<and> 0 \<le> q)"
  by (cases x) (auto simp: weight_ok_def)

lemma lit_ok: "0 \<le> q \<Longrightarrow> q \<le> 1 \<Longrightarrow> weight_ok (lit q)"
  using lit_unit weight_ok_Fin by blast

lemma ok_if: "weight_ok x \<Longrightarrow> weight_ok y \<Longrightarrow> weight_ok (if P then x else y)"
  by simp

lemma ok_01: "weight_ok 0" "weight_ok 1"
  by (simp_all add: weight_ok_def)

lemma factor_location_ok: "weight_ok (factor_location p)"
  unfolding factor_location_def by (intro ok_if ok_01 lit_ok) simp_all

lemma factor_size_ok: "weight_ok (factor_size n)"
  unfolding factor_size_def Let_def by (intro ok_if ok_01 lit_ok) simp_all

lemma factor_age_ok: "weight_ok (factor_age d)"
  unfolding factor_age_def Let_def by (intro ok_if ok_01 lit_ok) simp_all

lemma factor_structure_ok: "weight_ok (factor_structure sg)"
  unfolding factor_structure_def by (intro ok_if ok_01 lit_ok) simp_all

lemma add_lit_not_nan: "x \<noteq> FNaN \<Longrightarrow> 0 \<le> q \<Longrightarrow> q \<le> 1 \<Longrightarrow> x + lit q \<noteq> FNaN \<and> x - lit q \<noteq> FNaN"
  using lit_unit [of q] by (cases x) (auto simp: plus_f64_def minus_f64_def)

lemma factor_name_ok: "combined_confidence c \<noteq> FNaN \<Longrightarrow> weight_ok (factor_name p c)"
proof -
  assume c: "combined_confidence c \<noteq> FNaN"
  have step: "(if P then x + lit q else x) \<noteq> FNaN" "(if P then x - lit q else x) \<noteq> FNaN"
    if "x \<noteq> FNaN" "0 \<le> q" "q \<le> 1" for P x q
    using add_lit_not_nan that by auto
  have "\<exists>y. factor_name p c = f_clamp y 0 1 \<and> y \<noteq> FNaN"
    unfolding factor_name_def Let_def
    by (rule exI, rule conjI, rule refl, intro step c) simp_all
  then obtain y where y: "factor_name p c = f_clamp y 0 1" "y \<noteq> FNaN" by blast
  then show ?thesis using f_clamp_finite [OF y(2), of 0 1] by (auto simp: weight_ok_Fin)
qed

text \<open>A fused multiply-add of numbers that are not negative is one again, possibly infinite.\<close>

lemma fma_nonneg: "weight_ok a \<Longrightarrow> weight_ok b \<Longrightarrow> Fin 0 \<le> c \<Longrightarrow> Fin 0 \<le> f_mul_add a b c"
  by (cases c) (auto simp: weight_ok_Fin f_mul_add_def intro!: rnd_nonneg add_nonneg_nonneg mult_nonneg_nonneg)

lemma base_nonneg:
  assumes "weights_ok w" "combined_confidence (in_classification i) \<noteq> FNaN"
  shows "Fin 0 \<le> base_score w (candidate_factors i u)"
proof -
  have "Fin 0 \<le> w_name w * factor_name (in_path i) (in_classification i)"
    using assms(1) factor_name_ok [OF assms(2), of "in_path i"]
    by (auto simp: weights_ok_def weight_ok_Fin fin_ops intro!: rnd_nonneg mult_nonneg_nonneg)
  then show ?thesis using assms(1)
    unfolding base_score_def candidate_factors_def score_factors.select_convs weights_ok_def
    by (intro fma_nonneg factor_location_ok factor_size_ok factor_age_ok factor_structure_ok) simp_all
qed

lemma times_mono: "Fin 0 \<le> b \<Longrightarrow> Fin 1 \<le> x \<Longrightarrow> x \<le> y \<Longrightarrow> y \<le> Fin 3 \<Longrightarrow> b * x \<le> b * y"
  by (cases b; cases x; cases y) (auto simp: times_f64_def intro!: rnd_mono mult_left_mono)

lemma times_not_nan: "Fin 0 \<le> b \<Longrightarrow> Fin 1 \<le> x \<Longrightarrow> x \<le> Fin 3 \<Longrightarrow> b * x \<noteq> FNaN"
  using times_mono [of b x x] f_le_not_nan by (cases x) auto

lemma score_total:
  "veto_reason e i ovs = None \<Longrightarrow> total_score (score_inner fexp fln e i u ovs) =
     f_clamp (base_score (weights e) (candidate_factors i u) * pressure_multiplier u) 0 (lit 3)"
  unfolding score_inner_def option.case Let_def
  by (simp only: option.case candidacy_score.select_convs candidate_factors_def score_factors.select_convs)

lemma score_range_lemma:
  assumes "weights_ok (weights e)" and "combined_confidence (in_classification i) \<noteq> FNaN" and "u \<le> v"
  shows "Fin 0 \<le> total_score (score_inner fexp fln e i u ovs) \<and>
    total_score (score_inner fexp fln e i u ovs) \<le> total_score (score_inner fexp fln e i v ovs) \<and>
    total_score (score_inner fexp fln e i v ovs) \<le> Fin 3"
proof (cases "veto_reason e i ovs")
  case (Some r)
  then show ?thesis by (simp add: score_inner_def vetoed_score_def)
next
  case None
  define b where "b = base_score (weights e) (candidate_factors i u)"
  have b: "Fin 0 \<le> b" "base_score (weights e) (candidate_factors i v) = b"
    using base_nonneg [OF assms(1,2), of u] by (simp_all add: b_def base_score_def candidate_factors_def)
  have pm: "Fin 1 \<le> pressure_multiplier u" "pressure_multiplier u \<le> pressure_multiplier v"
    "pressure_multiplier v \<le> Fin 3"
    using pm_all [OF assms(3)] by blast+
  have le: "b * pressure_multiplier u \<le> b * pressure_multiplier v"
    using times_mono [OF b(1) pm] .
  then have "b * pressure_multiplier u \<noteq> FNaN" "b * pressure_multiplier v \<noteq> FNaN" using f_le_not_nan by blast+
  then show ?thesis
    unfolding score_total [OF None] b(2) b_def [symmetric]
    using clamp01_mono [of 0 3, OF _ le] f_clamp_bounds [of _ "Fin 0" "Fin 3"] by simp
qed

text \<open>With finite weights that are not negative and a confidence that is a
  number, every score is a number between 0 and 3, and a higher urgency never lowers it: under
  rising pressure a candidate can only move towards the deletion threshold.\<close>

lemma score_range_monotone:
  assumes "weights_ok (weights e)" and "combined_confidence (in_classification i) \<noteq> FNaN" and "u \<le> v"
  shows "Fin 0 \<le> total_score (score_inner fexp fln e i u ovs) \<and>
    total_score (score_inner fexp fln e i u ovs) \<le> total_score (score_inner fexp fln e i v ovs) \<and>
    total_score (score_inner fexp fln e i v ovs) \<le> Fin 3"
  using assms by (rule score_range_lemma)

subsection \<open>The ranking of a batch\<close>

lemma rank_sort_mset: "mset (rank_sort xs) = mset xs"
  by (simp add: rank_sort_def)

definition scored :: "candidacy_score \<Rightarrow> bool" where
  "scored s = (total_score s \<noteq> FNaN)"

lemma ranks_trans:
  assumes "scored x" "scored y" "scored z" "\<not> ranks_before y x" "\<not> ranks_before z y"
  shows "\<not> ranks_before z x"
proof -
  have le: "total_score y \<le> total_score x" "total_score z \<le> total_score y"
    using assms f_not_less by (auto simp: ranks_before_def scored_def split: if_splits)
  then have zx: "total_score z \<le> total_score x" using f_le_trans by blast
  show ?thesis
  proof (cases "total_score z < total_score x")
    case True
    then show ?thesis using f_less_asym by (simp add: ranks_before_def)
  next
    case False
    then have "total_score x \<le> total_score z" using assms(1,3) f_not_less by (auto simp: scored_def)
    then have "total_score x = total_score y" "total_score y = total_score z"
      using le f_le_trans f_antisym by blast+
    then show ?thesis using assms(4,5) by (auto simp: ranks_before_def)
  qed
qed

lemma ranks_asym: "ranks_before x y \<Longrightarrow> \<not> ranks_before y x"
  by (auto simp: ranks_before_def dest: f_less_asym split: if_splits)

interpretation rk: ranking ranks_before scored
  by unfold_locales (use ranks_asym ranks_trans in blast)+

lemma rank_sort_sorted:
  "\<forall>x \<in> set xs. scored x \<Longrightarrow> sorted_wrt (\<lambda>a b. \<not> ranks_before b a) (rank_sort xs)"
  unfolding rank_sort_def by (rule rk.sort_sorted)

text \<open>A batch is ranked completely: the result is a permutation of the
  candidates' scores, and no candidate stands after one with a lower score, nor after one with
  the same score and a path that comes later.\<close>

lemma score_batch_ranked:
  assumes "weights_ok (weights e)" and "\<forall>c \<in> set cs. combined_confidence (in_classification c) \<noteq> FNaN"
    and "u \<noteq> FNaN"
  shows "mset (score_batch fexp fln e cs u) = image_mset (\<lambda>c. score_candidate fexp fln e c u) (mset cs) \<and>
    sorted_wrt (\<lambda>a b. total_score b \<le> total_score a \<and>
      (total_score a = total_score b \<longrightarrow> components (cs_path a) \<le> components (cs_path b)))
      (score_batch fexp fln e cs u)"
proof -
  let ?ss = "map (\<lambda>c. score_candidate fexp fln e c u) cs"
  have sc: "\<forall>s \<in> set ?ss. scored s"
  proof
    fix s assume "s \<in> set ?ss"
    then obtain c where c: "c \<in> set cs" "s = score_candidate fexp fln e c u" by auto
    have "Fin 0 \<le> total_score (score_inner fexp fln e c u [])"
      using score_range_lemma [OF assms(1) _ f_le_refl [OF assms(3)]] assms(2) c(1) by blast
    then show "scored s" using f_le_not_nan by (simp add: scored_def c(2) score_candidate_def)
  qed
  have "sorted_wrt (\<lambda>a b. \<not> ranks_before b a) (rank_sort ?ss)" using rank_sort_sorted [OF sc] .
  moreover have "\<forall>s \<in> set (rank_sort ?ss). scored s"
    using sc rank_sort_mset [of ?ss] by (metis set_mset_mset)
  ultimately have "sorted_wrt (\<lambda>a b. total_score b \<le> total_score a \<and>
      (total_score a = total_score b \<longrightarrow> components (cs_path a) \<le> components (cs_path b))) (rank_sort ?ss)"
    by (elim sorted_wrt_mono_rel [rotated])
       (auto simp: ranks_before_def scored_def f_not_less not_less split: if_splits)
  then show ?thesis by (simp add: score_batch_def rank_sort_mset)
qed

end
