(* ===== verification/Decision_Record.thy ===== *)
theory Decision_Record
  imports Guardrails Scoring
begin

section \<open>Decision records (src/src/scanner/decision_record.rs)\<close>

text \<open>
  The evidence record of one decision, the builder that numbers records, and the rendering of
  its levels 0 to 2, the byte and duration formats and the summary line. The wall-clock stamp is
  an argument; JSON output (level 3 and the storage forms) belongs to the serialisation library
  and is the argument \<open>json\<close> of \<open>format_explain\<close>.
\<close>

subsection \<open>The record\<close>

datatype explain_level = L0 | L1 | L2 | L3

fun level_rank :: "explain_level \<Rightarrow> nat" where
  "level_rank L0 = 0" | "level_rank L1 = 1" | "level_rank L2 = 2" | "level_rank L3 = 3"

instantiation explain_level :: linorder
begin

definition less_eq_explain_level :: "explain_level \<Rightarrow> explain_level \<Rightarrow> bool" where
  "less_eq_explain_level a b = (level_rank a \<le> level_rank b)"

definition less_explain_level :: "explain_level \<Rightarrow> explain_level \<Rightarrow> bool" where
  "less_explain_level a b = (level_rank a < level_rank b)"

instance
proof
  fix a b :: explain_level
  assume "a \<le> b" "b \<le> a"
  then show "a = b" by (cases a; cases b) (simp_all add: less_eq_explain_level_def)
qed (auto simp: less_eq_explain_level_def less_explain_level_def)

end

definition level_from_int :: "u8 \<Rightarrow> explain_level" where
  "level_from_int n = (if n = 0 then L0 else if n = 1 then L1 else if n = 2 then L2 else L3)"

definition show_level :: "explain_level \<Rightarrow> string" where
  "show_level l = ''L'' @ show_nat (level_rank l)"

datatype policy_mode = Live | Shadow | CanaryRun | DryRun

fun show_policy_mode :: "policy_mode \<Rightarrow> string" where
  "show_policy_mode Live = ''live''"
| "show_policy_mode Shadow = ''shadow''"
| "show_policy_mode CanaryRun = ''canary''"
| "show_policy_mode DryRun = ''dry-run''"

record classification_record =
  cr_pattern_name :: string
  cr_category :: string
  cr_confidence :: f64

record factor_contribution =
  fc_name :: string
  fc_weight :: f64
  fc_value :: f64
  fc_contribution :: f64

datatype action_record = KeepRec | DeleteRec | ReviewRec

fun action_record_of :: "decision_action \<Rightarrow> action_record" where
  "action_record_of Keep = KeepRec"
| "action_record_of Delete = DeleteRec"
| "action_record_of Review = ReviewRec"

fun show_action_record :: "action_record \<Rightarrow> string" where
  "show_action_record KeepRec = ''KEEP''"
| "show_action_record DeleteRec = ''DELETE''"
| "show_action_record ReviewRec = ''REVIEW''"

record guard_status_record =
  gs_status :: string
  gs_observation_count :: usize
  gs_e_process_value :: f64
  gs_e_process_alarm :: bool

definition guard_record_of :: "guard_diagnostics \<Rightarrow> guard_status_record" where
  "guard_record_of d = \<lparr>gs_status = show_guard_status (diag_status d),
     gs_observation_count = observation_count d, gs_e_process_value = e_process_value d,
     gs_e_process_alarm = e_process_alarm d\<rparr>"

text \<open>The factor record of the source repeats the score factors field by field.\<close>

record decision_record =
  decision_id :: u64
  trace_id :: string
  timestamp :: string
  policy_mode :: policy_mode
  dr_path :: path
  dr_size_bytes :: u64
  dr_age_secs :: nat
  dr_classification :: classification_record
  dr_factors :: score_factors
  factor_contributions :: "factor_contribution list"
  dr_total_score :: f64
  dr_posterior :: f64
  dr_loss_keep :: f64
  dr_loss_delete :: f64
  dr_calibration :: f64
  dr_fallback_active :: bool
  dr_fallback_reason :: "string option"
  dr_vetoed :: bool
  dr_veto_reason :: "string option"
  dr_action :: action_record
  effective_action :: "action_record option"
  dr_guard_status :: "guard_status_record option"
  comparator_action :: "action_record option"
  dr_summary :: string

definition ledger_to_contributions :: "evidence_ledger \<Rightarrow> factor_contribution list" where
  "ledger_to_contributions l = map (\<lambda>t. \<lparr>fc_name = term_name t, fc_weight = term_weight t,
     fc_value = term_value t, fc_contribution = term_contribution t\<rparr>) (ledger_terms l)"

fun debug_category :: "artifact_category \<Rightarrow> string" where
  "debug_category RustTarget = ''RustTarget''"
| "debug_category NodeModules = ''NodeModules''"
| "debug_category PythonCache = ''PythonCache''"
| "debug_category BuildOutput = ''BuildOutput''"
| "debug_category CacheDir = ''CacheDir''"
| "debug_category GoCache = ''GoCache''"
| "debug_category TempDir = ''TempDir''"
| "debug_category AgentWorkspace = ''AgentWorkspace''"
| "debug_category UnknownCategory = ''Unknown''"

subsection \<open>The builder\<close>

text \<open>The builder's state is the next identifier.\<close>

definition builder_new :: u64 where
  "builder_new = 1"

definition trace_id_of :: "u64 \<Rightarrow> string" where
  "trace_id_of i = ''sbh-'' @ pad_left 8 (CHR ''0'') (show_hex (unat i))"

definition build_record ::
  "string \<Rightarrow> u64 \<Rightarrow> candidacy_score \<Rightarrow> policy_mode \<Rightarrow> guard_diagnostics option \<Rightarrow>
     decision_action option \<Rightarrow> decision_action option \<Rightarrow> u64 \<times> decision_record" where
  "build_record stamp next_id sc pmode guard comparator effective =
     (next_id + 1,
      \<lparr>decision_id = next_id, trace_id = trace_id_of next_id, timestamp = stamp, policy_mode = pmode,
       dr_path = cs_path sc, dr_size_bytes = cs_size_bytes sc, dr_age_secs = as_secs (cs_age sc),
       dr_classification =
         \<lparr>cr_pattern_name = pattern_name (cs_classification sc),
          cr_category = debug_category (category (cs_classification sc)),
          cr_confidence = combined_confidence (cs_classification sc)\<rparr>,
       dr_factors = factors sc, factor_contributions = ledger_to_contributions (ledger sc),
       dr_total_score = total_score sc, dr_posterior = posterior_abandoned (decision sc),
       dr_loss_keep = expected_loss_keep (decision sc),
       dr_loss_delete = expected_loss_delete (decision sc),
       dr_calibration = out_calibration (decision sc),
       dr_fallback_active = fallback_active (decision sc),
       dr_fallback_reason = (if fallback_active (decision sc)
         then Some (''calibration '' @ fmt_fixed 3 (out_calibration (decision sc)) @ '' below floor'')
         else None),
       dr_vetoed = vetoed sc, dr_veto_reason = veto_text sc,
       dr_action = action_record_of (out_action (decision sc)),
       effective_action = map_option action_record_of effective,
       dr_guard_status = map_option guard_record_of guard,
       comparator_action = map_option action_record_of comparator,
       dr_summary = ledger_summary (ledger sc)\<rparr>)"

subsection \<open>Formats\<close>

definition format_bytes :: "u64 \<Rightarrow> string" where
  "format_bytes b =
     (let kib = 1024; mib = 1024 * 1024; gib = 1024 * 1024 * 1024 in
      if b \<ge> gib then fmt_fixed 1 (f_of_word b / f_of_word (gib :: u64)) @ '' GiB''
      else if b \<ge> mib then fmt_fixed 1 (f_of_word b / f_of_word (mib :: u64)) @ '' MiB''
      else if b \<ge> kib then fmt_fixed 0 (f_of_word b / f_of_word (kib :: u64)) @ '' KiB''
      else show_nat (unat b) @ '' B'')"

definition format_duration :: "nat \<Rightarrow> string" where
  "format_duration s =
     (if s \<ge> 86400 then
        let days = s div 86400; hours = (s mod 86400) div 3600 in
        if hours > 0 then show_nat days @ ''d '' @ show_nat hours @ ''h'' else show_nat days @ ''d''
      else if s \<ge> 3600 then
        let hours = s div 3600; mins = (s mod 3600) div 60 in
        if mins > 0 then show_nat hours @ ''h '' @ show_nat mins @ ''m'' else show_nat hours @ ''h''
      else if s \<ge> 60 then show_nat (s div 60) @ ''m''
      else show_nat s @ ''s'')"

definition newline :: string where
  "newline = [char_of (10::nat)]"

text \<open>The horizontal rule character U+2500 of the tables, in UTF-8.\<close>

definition rule_char :: string where
  "rule_char = [char_of (226::nat), char_of (148::nat), char_of (128::nat)]"

definition rule_line :: "nat \<Rightarrow> string" where
  "rule_line n = concat (replicate n rule_char)"

definition pad_right :: "nat \<Rightarrow> string \<Rightarrow> string" where
  "pad_right w s = s @ replicate (w - length s) (CHR '' '')"

definition fmt_signed :: "nat \<Rightarrow> f64 \<Rightarrow> string" where
  "fmt_signed n x = (if x = FNaN \<or> x < 0 then fmt_fixed n x else ''+'' @ fmt_fixed n x)"

definition format_l0 :: "decision_record \<Rightarrow> string" where
  "format_l0 r =
     (let head = show_action_record (dr_action r) @ '' '' @ dr_path r @ '' ('' @
            format_bytes (dr_size_bytes r) @ '', '' @ format_duration (dr_age_secs r) @ '')''
      in if dr_vetoed r
         then head @ '' [vetoed: '' @ (case dr_veto_reason r of Some t \<Rightarrow> t | None \<Rightarrow> ''unknown'') @ '']''
         else head @ '' score='' @ fmt_fixed 3 (dr_total_score r))"

definition format_l1 :: "decision_record \<Rightarrow> string" where
  "format_l1 r =
     ''  Factor        Weight  Value   Contribution'' @ newline @
     ''  '' @ rule_line 42 @ newline @
     concat (map (\<lambda>fc. ''  '' @ pad_right 12 (fc_name fc) @ ''  '' @
         pad_left 5 (CHR '' '') (fmt_fixed 2 (fc_weight fc)) @ ''   '' @
         pad_left 5 (CHR '' '') (fmt_fixed 3 (fc_value fc)) @ ''   '' @
         pad_left 5 (CHR '' '') (fmt_fixed 3 (fc_contribution fc)) @ newline) (factor_contributions r)) @
     ''  pressure_mul  '' @ rule_line 5 @ ''   '' @ fmt_fixed 3 (f_pressure (dr_factors r)) @
     ''   (applied to base)'' @ newline @
     ''  Category: '' @ cr_category (dr_classification r) @ '' ('' @
     fmt_fixed 0 (cr_confidence (dr_classification r) * lit 100) @ ''% confidence)'' @ newline"

definition show_bool :: "bool \<Rightarrow> string" where
  "show_bool b = (if b then ''true'' else ''false'')"

definition format_l2 :: "decision_record \<Rightarrow> string" where
  "format_l2 r =
     ''  Posterior(abandoned): '' @ fmt_fixed 4 (dr_posterior r) @ newline @
     ''  Expected loss '' @ em_dash @ '' keep: '' @ fmt_fixed 3 (dr_loss_keep r) @ ''  delete: '' @
     fmt_fixed 3 (dr_loss_delete r) @ ''  delta: '' @ fmt_signed 3 (dr_loss_keep r - dr_loss_delete r) @ newline @
     (if dr_fallback_active r
      then ''  Calibration: '' @ fmt_fixed 4 (dr_calibration r) @ ''  (FALLBACK: '' @
        (case dr_fallback_reason r of Some t \<Rightarrow> t | None \<Rightarrow> ''active'') @ '')'' @ newline
      else ''  Calibration: '' @ fmt_fixed 4 (dr_calibration r) @ newline) @
     (case dr_guard_status r of None \<Rightarrow> []
      | Some g \<Rightarrow> ''  Guard: '' @ gs_status g @ '' (n='' @ show_nat (unat (gs_observation_count g)) @ '', e='' @
          fmt_fixed 2 (gs_e_process_value g) @ '', alarm='' @ show_bool (gs_e_process_alarm g) @ '')'' @ newline) @
     ''  Policy: '' @ show_policy_mode (policy_mode r) @ newline @
     (case comparator_action r of None \<Rightarrow> []
      | Some a \<Rightarrow> ''  Comparator: '' @ show_action_record a @ '' (shadow/canary diff)'' @ newline)"

definition format_explain :: "(decision_record \<Rightarrow> string) \<Rightarrow> decision_record \<Rightarrow> explain_level \<Rightarrow> string" where
  "format_explain json r level =
     format_l0 r @ (if L1 \<le> level then newline @ format_l1 r else []) @
     (if L2 \<le> level then newline @ format_l2 r else []) @
     (if L3 \<le> level then newline @ json r else [])"

definition decision_summary_line :: "decision_record \<Rightarrow> string" where
  "decision_summary_line r = ''['' @ trace_id r @ ''] '' @ show_action_record (dr_action r) @ '' '' @ dr_path r @
     '' score='' @ fmt_fixed 3 (dr_total_score r) @ '' ('' @ cr_category (dr_classification r) @ '')''"

subsection \<open>Trace identifiers\<close>

text \<open>Reading a trace identifier back: drop the prefix, take the rest as hexadecimal digits.\<close>

definition trace_number :: "string \<Rightarrow> nat" where
  "trace_number t = value_base 16 (map char_digit (drop 4 t))"

lemma hex_digits: "map char_digit (show_hex n) = digits_base 16 n"
  unfolding show_hex_def map_map
  by (rule map_idI) (simp add: digits_base_bound char_digit_digit_char)

lemma trace_number_of: "trace_number (trace_id_of i) = unat i"
proof -
  have "char_digit (CHR ''0'') = 0" by (simp add: char_digit_def)
  then have "map char_digit (drop 4 (trace_id_of i)) =
      replicate (8 - length (show_hex (unat i))) 0 @ digits_base 16 (unat i)"
    by (simp add: trace_id_of_def pad_left_def hex_digits)
  then show ?thesis by (simp only: trace_number_def value_base_zeros value_digits_base)
qed


end
