(* ===== verification/Policy.thy ===== *)
theory Policy
  imports Pid Decision_Record
begin

section \<open>The policy engine (src/src/daemon/policy.rs)\<close>

text \<open>
  The modes observe, canary, enforce and fallback-safe with their transitions, the per-candidate
  enforcement, the guard windows, the behaviour dispatch table and the transition log. Each
  operation takes the reading of the monotonic clock it makes; \<open>evaluate\<close> reads it once on
  entry and once per candidate (\<open>clk i\<close>). Counters wrap at 64 bits as in a release build.
  Messages to standard error are not modelled; the time of the last suppression message is.
\<close>

subsection \<open>Modes, reasons and configuration\<close>

datatype active_mode = Observe | Canary | Enforce | FallbackSafe

definition allows_deletion :: "active_mode \<Rightarrow> bool" where
  "allows_deletion m = (m = Canary \<or> m = Enforce)"

fun to_policy_mode :: "active_mode \<Rightarrow> policy_mode" where
  "to_policy_mode Observe = Shadow"
| "to_policy_mode FallbackSafe = Shadow"
| "to_policy_mode Canary = CanaryRun"
| "to_policy_mode Enforce = Live"

fun show_mode :: "active_mode \<Rightarrow> string" where
  "show_mode Observe = ''observe''"
| "show_mode Canary = ''canary''"
| "show_mode Enforce = ''enforce''"
| "show_mode FallbackSafe = ''fallback_safe''"

datatype fallback_reason = CalibrationBreach usize | GuardrailDrift | CanaryBudgetExhausted
  | PolicyError string | SerializationFailure | KillSwitch

fun is_calibration_breach :: "fallback_reason \<Rightarrow> bool" where
  "is_calibration_breach (CalibrationBreach _) = True"
| "is_calibration_breach _ = False"

fun show_reason :: "fallback_reason \<Rightarrow> string" where
  "show_reason (CalibrationBreach n) = ''calibration breach ('' @ show_nat (unat n) @ '' windows)''"
| "show_reason GuardrailDrift = ''guardrail drift alarm''"
| "show_reason CanaryBudgetExhausted = ''canary budget exhausted''"
| "show_reason (PolicyError d) = ''policy error: '' @ d"
| "show_reason SerializationFailure = ''evidence serialization failure''"
| "show_reason KillSwitch = ''kill-switch engaged''"

record policy_config =
  initial_mode :: active_mode
  max_candidates_per_loop :: usize
  max_hypothetical_deletes :: usize
  max_canary_deletes_per_hour :: usize
  recovery_clean_windows :: usize
  calibration_breach_windows :: usize
  guard_penalty :: f64
  loss_delete_useful :: f64
  loss_keep_abandoned :: f64
  loss_review :: f64
  min_fallback_secs :: u64
  kill_switch :: bool
  observe_min_interval_secs :: u64

definition policy_config_default :: policy_config where
  "policy_config_default = \<lparr>initial_mode = Enforce, max_candidates_per_loop = 100,
     max_hypothetical_deletes = 25, max_canary_deletes_per_hour = 10, recovery_clean_windows = 10,
     calibration_breach_windows = 25, guard_penalty = lit 50, loss_delete_useful = lit 100,
     loss_keep_abandoned = lit 30, loss_review = lit 5, min_fallback_secs = 300, kill_switch = False,
     observe_min_interval_secs = 10\<rparr>"

record policy_decision =
  pd_records :: "decision_record list"
  approved_for_deletion :: "candidacy_score list"
  hypothetical_deletes :: usize
  hypothetical_keeps :: usize
  hypothetical_reviews :: usize
  budget_exhausted :: bool
  pd_mode :: active_mode

subsection \<open>Behaviour dispatch\<close>

datatype memory_pressure_level = MemNormal | MemWarn | MemCritical | MemUnknown

datatype behavior_pressure_level = BNormal | BWarn | BCritical

fun from_memory_pressure :: "memory_pressure_level \<Rightarrow> behavior_pressure_level" where
  "from_memory_pressure MemNormal = BNormal"
| "from_memory_pressure MemWarn = BWarn"
| "from_memory_pressure MemUnknown = BWarn"
| "from_memory_pressure MemCritical = BCritical"

fun from_disk_pressure :: "pressure_level \<Rightarrow> behavior_pressure_level" where
  "from_disk_pressure Green = BNormal"
| "from_disk_pressure Yellow = BWarn"
| "from_disk_pressure Orange = BWarn"
| "from_disk_pressure Red = BCritical"
| "from_disk_pressure Critical = BCritical"

fun bp_index :: "behavior_pressure_level \<Rightarrow> nat" where
  "bp_index BNormal = 0" | "bp_index BWarn = 1" | "bp_index BCritical = 2"

datatype scan_aggressiveness = ScanNormal | ScanLight | ScanAggressive | ScanDefiniteOnly | ScanSkip

datatype cleanup_action = CleanNone | IdentifyOnly | HighConfidenceCandidates
  | MostPromisingCandidates | DefiniteCandidates | AnyDefiniteCandidate

datatype ballast_action = BallastNone | BallastRelease | BallastReleaseFirst

datatype notification_priority = NotifyNone | NotifyLow | NotifyNormal | NotifyHigh | NotifyEmergency

record behavior_mode =
  scan_aggressiveness :: scan_aggressiveness
  cleanup_action :: cleanup_action
  ballast_action :: ballast_action
  notification_priority :: notification_priority

definition bmode :: "scan_aggressiveness \<Rightarrow> cleanup_action \<Rightarrow> ballast_action \<Rightarrow> notification_priority \<Rightarrow> behavior_mode" where
  "bmode s c b n = \<lparr>scan_aggressiveness = s, cleanup_action = c, ballast_action = b, notification_priority = n\<rparr>"

definition default_behavior_cells :: "behavior_mode list list" where
  "default_behavior_cells =
     [[bmode ScanNormal CleanNone BallastNone NotifyNone,
       bmode ScanAggressive IdentifyOnly BallastNone NotifyLow,
       bmode ScanAggressive DefiniteCandidates BallastRelease NotifyHigh],
      [bmode ScanLight CleanNone BallastNone NotifyLow,
       bmode ScanLight HighConfidenceCandidates BallastRelease NotifyNormal,
       bmode ScanDefiniteOnly DefiniteCandidates BallastReleaseFirst NotifyHigh],
      [bmode ScanSkip CleanNone BallastNone NotifyNormal,
       bmode ScanDefiniteOnly MostPromisingCandidates BallastRelease NotifyHigh,
       bmode ScanDefiniteOnly AnyDefiniteCandidate BallastReleaseFirst NotifyEmergency]]"

text \<open>The table is a 3 by 3 array; an index out of it cannot be formed.\<close>

definition mode_for_levels ::
  "behavior_mode list list \<Rightarrow> behavior_pressure_level \<Rightarrow> behavior_pressure_level \<Rightarrow> behavior_mode" where
  "mode_for_levels cells mem disk = cells ! bp_index mem ! bp_index disk"

definition mode_for ::
  "behavior_mode list list \<Rightarrow> memory_pressure_level \<Rightarrow> pressure_level \<Rightarrow> behavior_mode" where
  "mode_for cells mem disk = mode_for_levels cells (from_memory_pressure mem) (from_disk_pressure disk)"

subsection \<open>The engine\<close>

record transition_entry =
  te_transition :: string
  te_from :: string
  te_to :: string
  te_at_decision :: u64
  te_reason :: "string option"

record policy_engine =
  pe_config :: policy_config
  pe_mode :: active_mode
  pre_fallback_mode :: active_mode
  fallback_reason :: "fallback_reason option"
  fallback_entered_at :: "instant option"
  emergency_escalated_at :: "instant option"
  started_at :: instant
  builder :: u64
  consecutive_clean_windows :: usize
  consecutive_breach_windows :: usize
  recalibration_count :: u32
  canary_deletes_this_hour :: usize
  canary_hour_start :: instant
  total_decisions :: u64
  total_fallback_entries :: u64
  transition_log :: "transition_entry list"
  pressure_level :: pressure_level
  last_suppression_log :: "instant option"
  last_observe_time :: "instant option"

definition transition_push :: "transition_entry \<Rightarrow> transition_entry list \<Rightarrow> transition_entry list" where
  "transition_push e es = (if length es \<ge> 1000 then drop 500 es else es) @ [e]"

definition log_transition ::
  "string \<Rightarrow> active_mode \<Rightarrow> active_mode \<Rightarrow> string option \<Rightarrow> policy_engine \<Rightarrow> policy_engine" where
  "log_transition kind from to reason p =
     p\<lparr>transition_log := transition_push \<lparr>te_transition = kind, te_from = show_mode from,
        te_to = show_mode to, te_at_decision = total_decisions p, te_reason = reason\<rparr> (transition_log p)\<rparr>"

text \<open>\<open>is_none_or(|t| t.elapsed() >= 5 min)\<close>, the rate limit of the suppression messages.\<close>

definition note_suppression :: "instant \<Rightarrow> policy_engine \<Rightarrow> policy_engine" where
  "note_suppression now p = (case last_suppression_log p of
       Some t \<Rightarrow> if elapsed now t \<ge> secs 300 then p\<lparr>last_suppression_log := Some now\<rparr> else p
     | None \<Rightarrow> p\<lparr>last_suppression_log := Some now\<rparr>)"

definition set_fallback :: "instant \<Rightarrow> fallback_reason \<Rightarrow> policy_engine \<Rightarrow> policy_engine" where
  "set_fallback now reason p =
     (let q = p\<lparr>pre_fallback_mode := pe_mode p, fallback_reason := Some reason,
            fallback_entered_at := Some now,
            total_fallback_entries := total_fallback_entries p + 1,
            consecutive_clean_windows := 0\<rparr>
      in (log_transition ''fallback'' (pe_mode p) FallbackSafe (Some (show_reason reason)) q)
           \<lparr>pe_mode := FallbackSafe\<rparr>)"

definition enter_fallback :: "instant \<Rightarrow> fallback_reason \<Rightarrow> policy_engine \<Rightarrow> policy_engine" where
  "enter_fallback now reason p =
     (if pe_mode p = FallbackSafe then p
      else if reason = KillSwitch then set_fallback now reason p
      else if (case emergency_escalated_at p of Some t \<Rightarrow> elapsed now t < secs (30 * 60) | None \<Rightarrow> False)
      then note_suppression now p
      else let q = p\<lparr>emergency_escalated_at := None\<rparr>
           in if is_calibration_breach reason \<and> elapsed now (started_at q) < secs (10 * 60)
              then (note_suppression now q)\<lparr>consecutive_breach_windows := 0\<rparr>
              else set_fallback now reason q)"

definition kill_in_fallback :: "policy_engine \<Rightarrow> policy_engine" where
  "kill_in_fallback p =
     log_transition ''fallback'' FallbackSafe FallbackSafe (Some (show_reason KillSwitch))
       (p\<lparr>fallback_reason := Some KillSwitch,
          total_fallback_entries := total_fallback_entries p + 1\<rparr>)"

definition policy_new :: "instant \<Rightarrow> policy_config \<Rightarrow> policy_engine" where
  "policy_new now cfg =
     (let p = \<lparr>pe_config = cfg, pe_mode = initial_mode cfg, pre_fallback_mode = initial_mode cfg,
            fallback_reason = None, fallback_entered_at = None, emergency_escalated_at = None,
            started_at = now, builder = builder_new, consecutive_clean_windows = 0,
            consecutive_breach_windows = 0, recalibration_count = 0, canary_deletes_this_hour = 0,
            canary_hour_start = now, total_decisions = 0, total_fallback_entries = 0,
            transition_log = [], pressure_level = Green, last_suppression_log = None,
            last_observe_time = None\<rparr>
      in if kill_switch cfg
         then if pe_mode p = FallbackSafe then kill_in_fallback p else enter_fallback now KillSwitch p
         else p)"

subsection \<open>Transitions\<close>

definition recover_from_fallback :: "policy_engine \<Rightarrow> policy_engine" where
  "recover_from_fallback p =
     (let target = (case pre_fallback_mode p of Enforce \<Rightarrow> Canary | m \<Rightarrow> m);
          q = p\<lparr>fallback_reason := None, fallback_entered_at := None\<rparr>
      in (log_transition ''recover'' (pe_mode p) target None q)\<lparr>pe_mode := target\<rparr>)"

definition apply_transition :: "active_mode \<Rightarrow> string \<Rightarrow> policy_engine \<Rightarrow> policy_engine" where
  "apply_transition to kind p = (log_transition kind (pe_mode p) to None p)\<lparr>pe_mode := to\<rparr>"

definition promote :: "policy_engine \<Rightarrow> policy_engine \<times> bool" where
  "promote p = (case pe_mode p of
       Observe \<Rightarrow> (apply_transition Canary ''promote'' p, True)
     | Canary \<Rightarrow> (apply_transition Enforce ''promote'' p, True)
     | _ \<Rightarrow> (p, False))"

definition demote :: "policy_engine \<Rightarrow> policy_engine \<times> bool" where
  "demote p = (case pe_mode p of
       Enforce \<Rightarrow> (apply_transition Canary ''demote'' p, True)
     | Canary \<Rightarrow> (apply_transition Observe ''demote'' p, True)
     | _ \<Rightarrow> (p, False))"

definition check_emergency_escalation :: "instant \<Rightarrow> bool \<Rightarrow> policy_engine \<Rightarrow> policy_engine \<times> bool" where
  "check_emergency_escalation now pressure_is_critical p =
     (if pe_mode p \<noteq> FallbackSafe \<or> \<not> pressure_is_critical then (p, False)
      else if fallback_reason p = Some KillSwitch then (p, False)
      else case fallback_entered_at p of None \<Rightarrow> (p, False)
        | Some entered_at \<Rightarrow>
            if elapsed now entered_at < secs (5 * 60) then (p, False)
            else let q = p\<lparr>fallback_reason := None, fallback_entered_at := None,
                       emergency_escalated_at := Some now, consecutive_breach_windows := 0,
                       consecutive_clean_windows := 0\<rparr>
                 in ((log_transition ''emergency_escalate'' (pe_mode p) Enforce
                        (Some ''fallback_safe deadlock: pressure sustained at Yellow+'') q)
                        \<lparr>pe_mode := Enforce\<rparr>, True))"

definition update_config :: "instant \<Rightarrow> policy_config \<Rightarrow> policy_engine \<Rightarrow> policy_engine" where
  "update_config now cfg p =
     (let old_kill = kill_switch (pe_config p); new_kill = kill_switch cfg;
          q = p\<lparr>pe_config := cfg\<rparr>;
          r = (if \<not> old_kill \<and> new_kill
               then if pe_mode q \<noteq> FallbackSafe then enter_fallback now KillSwitch q
                    else if fallback_reason q = None then kill_in_fallback q else q
               else q)
      in if old_kill \<and> \<not> new_kill \<and> pe_mode r = FallbackSafe \<and> fallback_reason r = Some KillSwitch
         then recover_from_fallback r else r)"

definition set_pressure_level :: "pressure_level \<Rightarrow> policy_engine \<Rightarrow> policy_engine" where
  "set_pressure_level l p = p\<lparr>pressure_level := l\<rparr>"

text \<open>\<open>checked_sub(...).unwrap()\<close> panics (\<open>None\<close>) before the clock reaches the grace period.\<close>

definition bypass_startup_grace :: "instant \<Rightarrow> policy_engine \<Rightarrow> policy_engine option" where
  "bypass_startup_grace now p =
     (if now < secs (10 * 60 + 1) then None else Some (p\<lparr>started_at := now - secs (10 * 60 + 1)\<rparr>))"

subsection \<open>Guard windows\<close>

definition window_is_clean :: "guard_diagnostics \<Rightarrow> policy_engine \<Rightarrow> bool" where
  "window_is_clean g p =
     ((diag_status g = Pass \<and> \<not> e_process_alarm g) \<or>
      (pressure_level p = Green \<and> diag_status g \<noteq> Fail))"

definition recovery_due :: "instant \<Rightarrow> policy_engine \<Rightarrow> bool" where
  "recovery_due now p =
     (pe_mode p = FallbackSafe \<and>
      consecutive_clean_windows p \<ge> recovery_clean_windows (pe_config p) \<and>
      (case fallback_entered_at p of None \<Rightarrow> True
       | Some entered \<Rightarrow> elapsed now entered \<ge> secs (unat (min_fallback_secs (pe_config p)))))"

definition process_window :: "instant \<Rightarrow> guard_diagnostics \<Rightarrow> policy_engine \<Rightarrow> policy_engine" where
  "process_window now g p =
     (if window_is_clean g p then
        let q = p\<lparr>consecutive_clean_windows := consecutive_clean_windows p + 1,
                  consecutive_breach_windows := 0\<rparr>
        in if recovery_due now q then recover_from_fallback q else q
      else
        let q = p\<lparr>consecutive_clean_windows := 0\<rparr>
        in if diag_status g = Fail \<and> pressure_level q \<noteq> Green then
             let r = q\<lparr>consecutive_breach_windows := consecutive_breach_windows q + 1\<rparr>
             in if consecutive_breach_windows r \<ge> 100
                then r\<lparr>recalibration_count := recalibration_count r + 1, consecutive_breach_windows := 0\<rparr>
                else r
           else q\<lparr>consecutive_breach_windows := sat_sub (consecutive_breach_windows q) 1\<rparr>)"

definition observe_window :: "instant \<Rightarrow> guard_diagnostics \<Rightarrow> policy_engine \<Rightarrow> policy_engine" where
  "observe_window now g p =
     (if observe_min_interval_secs (pe_config p) > 0 then
        (case last_observe_time p of
           Some prev \<Rightarrow>
             if elapsed now prev < secs (unat (observe_min_interval_secs (pe_config p))) then p
             else process_window now g (p\<lparr>last_observe_time := Some now\<rparr>)
         | None \<Rightarrow> process_window now g (p\<lparr>last_observe_time := Some now\<rparr>))
      else process_window now g p)"

subsection \<open>Enforcement and evaluation\<close>

definition rotate_canary_hour :: "instant \<Rightarrow> policy_engine \<Rightarrow> policy_engine" where
  "rotate_canary_hour now p =
     (if elapsed now (canary_hour_start p) \<ge> secs 3600
      then p\<lparr>canary_deletes_this_hour := 0, canary_hour_start := now\<rparr> else p)"

fun penalty_scale :: "pressure_level \<Rightarrow> f64" where
  "penalty_scale Green = 0"
| "penalty_scale Red = 0"
| "penalty_scale Critical = 0"
| "penalty_scale Yellow = lit (1/4)"
| "penalty_scale Orange = lit (1/10)"

definition guard_rejects :: "policy_engine \<Rightarrow> candidacy_score \<Rightarrow> guard_diagnostics option \<Rightarrow> bool" where
  "guard_rejects p c guard = (Yellow \<le> pressure_level p \<and>
     (case guard of None \<Rightarrow> False
      | Some d \<Rightarrow> \<not> status_adaptive_allowed (diag_status d) \<and>
          f_mul_add (guard_penalty (pe_config p)) (penalty_scale (pressure_level p))
            (expected_loss_delete (decision c)) \<ge> expected_loss_keep (decision c)))"

definition enforce_policy ::
  "instant \<Rightarrow> candidacy_score \<Rightarrow> guard_diagnostics option \<Rightarrow> policy_engine \<Rightarrow> policy_engine \<times> decision_action" where
  "enforce_policy now c guard p =
     (let proposed = out_action (decision c) in
      if proposed \<noteq> Delete then (p, proposed)
      else if \<not> allows_deletion (pe_mode p) then (p, Keep)
      else if guard_rejects p c guard then (p, Keep)
      else if pe_mode p = Canary then
        (let q = rotate_canary_hour now p
         in if canary_deletes_this_hour q \<ge> max_canary_deletes_per_hour (pe_config q) then (q, Keep)
            else (q\<lparr>canary_deletes_this_hour := canary_deletes_this_hour q + 1\<rparr>, Delete))
      else (p, Delete))"

definition check_guard_triggers :: "instant \<Rightarrow> guard_diagnostics \<Rightarrow> policy_engine \<Rightarrow> policy_engine" where
  "check_guard_triggers now d p =
     (if e_process_alarm d \<and> pe_mode p \<noteq> FallbackSafe \<and> Orange \<le> pressure_level p \<and>
         observation_count d \<ge> 30
      then enter_fallback now GuardrailDrift p else p)"

text \<open>The loop over the candidates: \<open>i\<close> is the index, \<open>d\<close> the decision built so far.\<close>

definition count_action :: "decision_action \<Rightarrow> policy_decision \<Rightarrow> policy_decision" where
  "count_action a d = (case a of
       Delete \<Rightarrow> d\<lparr>hypothetical_deletes := hypothetical_deletes d + 1\<rparr>
     | Keep \<Rightarrow> d\<lparr>hypothetical_keeps := hypothetical_keeps d + 1\<rparr>
     | Review \<Rightarrow> d\<lparr>hypothetical_reviews := hypothetical_reviews d + 1\<rparr>)"

definition eval_candidate ::
  "instant \<Rightarrow> string \<Rightarrow> policy_mode \<Rightarrow> guard_diagnostics option \<Rightarrow> candidacy_score \<Rightarrow>
     policy_engine \<times> policy_decision \<Rightarrow> policy_engine \<times> policy_decision" where
  "eval_candidate now stamp pmode guard c st =
     (let (p, d) = st;
          (q, effective) = enforce_policy now c guard p;
          comparator = (if pe_mode q = Observe then Some (out_action (decision c)) else None);
          (next_id, r) = build_record stamp (builder q) c pmode guard comparator (Some effective);
          q2 = q\<lparr>builder := next_id, total_decisions := total_decisions q + 1\<rparr>;
          d2 = count_action (out_action (decision c)) d;
          d3 = (if effective = Delete then d2\<lparr>approved_for_deletion := approved_for_deletion d2 @ [c]\<rparr> else d2)
      in (q2, d3\<lparr>pd_records := pd_records d3 @ [r]\<rparr>))"

fun eval_loop ::
  "(nat \<Rightarrow> instant) \<Rightarrow> (nat \<Rightarrow> string) \<Rightarrow> nat \<Rightarrow> policy_mode \<Rightarrow> guard_diagnostics option \<Rightarrow> nat \<Rightarrow>
     candidacy_score list \<Rightarrow> policy_engine \<times> policy_decision \<Rightarrow> policy_engine \<times> policy_decision" where
  "eval_loop clk stamp budget pmode guard i [] st = st"
| "eval_loop clk stamp budget pmode guard i (c # cs) st =
     (if i \<ge> budget then (fst st, (snd st)\<lparr>budget_exhausted := True\<rparr>)
      else let (p, d) = eval_candidate (clk i) (stamp i) pmode guard c st
           in if pe_mode p = Observe \<and> hypothetical_deletes d \<ge> max_hypothetical_deletes (pe_config p)
              then (p, d\<lparr>budget_exhausted := True\<rparr>)
              else eval_loop clk stamp budget pmode guard (Suc i) cs (p, d))"

definition eval_entry :: "instant \<Rightarrow> guard_diagnostics option \<Rightarrow> policy_engine \<Rightarrow> policy_engine" where
  "eval_entry now guard p =
     (let q = (if kill_switch (pe_config p) \<and> pe_mode p \<noteq> FallbackSafe
               then enter_fallback now KillSwitch p else p)
      in case guard of Some d \<Rightarrow> check_guard_triggers now d q | None \<Rightarrow> q)"

definition empty_decision :: policy_decision where
  "empty_decision = \<lparr>pd_records = [], approved_for_deletion = [], hypothetical_deletes = 0,
     hypothetical_keeps = 0, hypothetical_reviews = 0, budget_exhausted = False, pd_mode = Observe\<rparr>"

definition evaluate ::
  "instant \<Rightarrow> (nat \<Rightarrow> instant) \<Rightarrow> (nat \<Rightarrow> string) \<Rightarrow> candidacy_score list \<Rightarrow> guard_diagnostics option \<Rightarrow>
     policy_engine \<Rightarrow> policy_engine \<times> policy_decision" where
  "evaluate now clk stamp candidates guard p =
     (let q = eval_entry now guard p;
          budget = min (unat (max_candidates_per_loop (pe_config q))) (length candidates);
          (r, d) = eval_loop clk stamp budget (to_policy_mode (pe_mode q)) guard 0 candidates (q, empty_decision)
      in (r, d\<lparr>pd_mode := pe_mode r\<rparr>))"

record policy_diagnostics =
  pdg_mode :: active_mode
  pdg_pre_fallback_mode :: active_mode
  pdg_fallback_reason :: "string option"
  pdg_total_decisions :: u64
  pdg_total_fallback_entries :: u64
  pdg_clean_windows :: usize
  pdg_breach_windows :: usize
  pdg_canary_deletes :: usize
  pdg_transition_count :: nat

definition policy_diagnostics_of :: "policy_engine \<Rightarrow> policy_diagnostics" where
  "policy_diagnostics_of p = \<lparr>pdg_mode = pe_mode p, pdg_pre_fallback_mode = pre_fallback_mode p,
     pdg_fallback_reason = map_option show_reason (fallback_reason p),
     pdg_total_decisions = total_decisions p, pdg_total_fallback_entries = total_fallback_entries p,
     pdg_clean_windows = consecutive_clean_windows p, pdg_breach_windows = consecutive_breach_windows p,
     pdg_canary_deletes = canary_deletes_this_hour p, pdg_transition_count = length (transition_log p)\<rparr>"

end
