(* ===== verification/Policy_Run.thy ===== *)
theory Policy_Run
  imports Policy
begin

section \<open>Runs of the policy engine\<close>

text \<open>
  The engine as a state machine: the public operations as one step relation, the reachable
  states with their invariant, and what a batch evaluation guarantees (the audit trail, the
  canary budget, the kill switch).
\<close>

subsection \<open>The transition log\<close>

interpretation transitions: capped_log transition_push 1000
proof
  fix es :: "transition_entry list" and e
  show "length es \<le> 1000 \<Longrightarrow> length (transition_push e es) \<le> 1000"
    by (simp add: transition_push_def)
  show "\<exists>ys zs. es = zs @ ys \<and> transition_push e es = ys @ [e]"
  proof (cases "length es \<ge> 1000")
    case True
    then show ?thesis
      by (intro exI [of _ "drop 500 es"] exI [of _ "take 500 es"]) (simp add: transition_push_def)
  qed (auto simp: transition_push_def)
qed

subsection \<open>What the operations change\<close>

lemma log_frame [simp]:
  "pe_config (log_transition k a b r p) = pe_config p" "pe_mode (log_transition k a b r p) = pe_mode p"
  "pre_fallback_mode (log_transition k a b r p) = pre_fallback_mode p"
  "fallback_reason (log_transition k a b r p) = fallback_reason p"
  "fallback_entered_at (log_transition k a b r p) = fallback_entered_at p"
  "emergency_escalated_at (log_transition k a b r p) = emergency_escalated_at p"
  "started_at (log_transition k a b r p) = started_at p" "builder (log_transition k a b r p) = builder p"
  "consecutive_clean_windows (log_transition k a b r p) = consecutive_clean_windows p"
  "consecutive_breach_windows (log_transition k a b r p) = consecutive_breach_windows p"
  "canary_deletes_this_hour (log_transition k a b r p) = canary_deletes_this_hour p"
  "canary_hour_start (log_transition k a b r p) = canary_hour_start p"
  "total_decisions (log_transition k a b r p) = total_decisions p"
  "pressure_level (log_transition k a b r p) = pressure_level p"
  "last_suppression_log (log_transition k a b r p) = last_suppression_log p"
  "last_observe_time (log_transition k a b r p) = last_observe_time p"
  by (simp_all add: log_transition_def)

lemma log_length: "length (transition_log p) \<le> 1000 \<Longrightarrow> length (transition_log (log_transition k a b r p)) \<le> 1000"
  using transitions.push_length by (simp add: log_transition_def)

lemma note_frame [simp]:
  "pe_config (note_suppression now p) = pe_config p" "pe_mode (note_suppression now p) = pe_mode p"
  "pre_fallback_mode (note_suppression now p) = pre_fallback_mode p"
  "fallback_reason (note_suppression now p) = fallback_reason p"
  "fallback_entered_at (note_suppression now p) = fallback_entered_at p"
  "emergency_escalated_at (note_suppression now p) = emergency_escalated_at p"
  "builder (note_suppression now p) = builder p"
  "consecutive_clean_windows (note_suppression now p) = consecutive_clean_windows p"
  "consecutive_breach_windows (note_suppression now p) = consecutive_breach_windows p"
  "canary_deletes_this_hour (note_suppression now p) = canary_deletes_this_hour p"
  "canary_hour_start (note_suppression now p) = canary_hour_start p"
  "total_decisions (note_suppression now p) = total_decisions p"
  "transition_log (note_suppression now p) = transition_log p"
  "pressure_level (note_suppression now p) = pressure_level p"
  by (auto simp: note_suppression_def split: option.splits)

subsection \<open>The step relation\<close>

text \<open>Every public operation that changes the engine is a step.\<close>

inductive policy_step :: "policy_engine \<Rightarrow> policy_engine \<Rightarrow> bool" where
  step_evaluate: "policy_step p (fst (evaluate now clk stamp cs guard p))"
| step_observe: "policy_step p (observe_window now g p)"
| step_escalate: "policy_step p (fst (check_emergency_escalation now crit p))"
| step_promote: "policy_step p (fst (promote p))"
| step_demote: "policy_step p (fst (demote p))"
| step_fallback: "policy_step p (enter_fallback now reason p)"
| step_config: "policy_step p (update_config now cfg p)"
| step_pressure: "policy_step p (set_pressure_level l p)"
| step_bypass: "bypass_startup_grace now p = Some q \<Longrightarrow> policy_step p q"

inductive reachable :: "policy_engine \<Rightarrow> bool" where
  reach_new: "reachable (policy_new now cfg)"
| reach_step: "reachable p \<Longrightarrow> policy_step p q \<Longrightarrow> reachable q"

inductive_cases policy_stepE: "policy_step p q"

definition policy_wf :: "policy_engine \<Rightarrow> bool" where
  "policy_wf p = (length (transition_log p) \<le> 1000 \<and>
     consecutive_breach_windows p < 100 \<and>
     (pe_mode p \<noteq> FallbackSafe \<longrightarrow> fallback_reason p = None \<and> fallback_entered_at p = None \<and>
        pre_fallback_mode p \<noteq> FallbackSafe) \<and>
     (pre_fallback_mode p = FallbackSafe \<longrightarrow> fallback_entered_at p = None))"

lemma enter_fallback_mode: "pe_mode (enter_fallback now r p) = pe_mode p \<or> pe_mode (enter_fallback now r p) = FallbackSafe"
  by (simp add: enter_fallback_def set_fallback_def Let_def)

lemma set_fallback_wf: "policy_wf p \<Longrightarrow> pe_mode p \<noteq> FallbackSafe \<Longrightarrow> policy_wf (set_fallback now r p)"
  by (auto simp: policy_wf_def set_fallback_def Let_def log_length)

lemma enter_fallback_wf: "policy_wf p \<Longrightarrow> policy_wf (enter_fallback now r p)"
proof -
  assume wf: "policy_wf p"
  have "policy_wf (p\<lparr>emergency_escalated_at := None\<rparr>)" using wf by (simp add: policy_wf_def)
  then show ?thesis using wf set_fallback_wf [of p] set_fallback_wf [of "p\<lparr>emergency_escalated_at := None\<rparr>"]
    by (auto simp: enter_fallback_def Let_def) (auto simp: policy_wf_def)
qed

lemma kill_in_fallback_wf: "policy_wf p \<Longrightarrow> pe_mode p = FallbackSafe \<Longrightarrow> policy_wf (kill_in_fallback p)"
  by (auto simp: policy_wf_def kill_in_fallback_def log_length)

lemma policy_new_wf: "policy_wf (policy_new now cfg)"
proof -
  define p where "p = \<lparr>pe_config = cfg, pe_mode = initial_mode cfg, pre_fallback_mode = initial_mode cfg,
            fallback_reason = None, fallback_entered_at = None, emergency_escalated_at = None,
            started_at = now, builder = builder_new, consecutive_clean_windows = 0,
            consecutive_breach_windows = 0, recalibration_count = 0, canary_deletes_this_hour = 0,
            canary_hour_start = now, total_decisions = 0, total_fallback_entries = 0,
            transition_log = [], pressure_level = Green, last_suppression_log = None,
            last_observe_time = None\<rparr>"
  have "policy_wf p" by (simp add: p_def policy_wf_def)
  then show ?thesis using kill_in_fallback_wf enter_fallback_wf
    by (simp add: policy_new_def p_def [symmetric])
qed

lemma recover_wf: "policy_wf p \<Longrightarrow> pe_mode p = FallbackSafe \<Longrightarrow> policy_wf (recover_from_fallback p)"
  by (cases "pre_fallback_mode p") (auto simp: policy_wf_def recover_from_fallback_def Let_def log_length)

lemma apply_transition_wf: "policy_wf p \<Longrightarrow> pe_mode p \<noteq> FallbackSafe \<Longrightarrow> m \<noteq> FallbackSafe \<Longrightarrow> policy_wf (apply_transition m k p)"
  by (auto simp: policy_wf_def apply_transition_def log_length)

lemma promote_wf: "policy_wf p \<Longrightarrow> policy_wf (fst (promote p)) \<and> policy_wf (fst (demote p))"
  by (cases "pe_mode p") (simp_all add: promote_def demote_def apply_transition_wf)

lemma escalation_wf: "policy_wf p \<Longrightarrow> policy_wf (fst (check_emergency_escalation now crit p))"
  by (auto simp: check_emergency_escalation_def policy_wf_def Let_def log_length split: option.splits)

lemma update_config_wf: "policy_wf p \<Longrightarrow> policy_wf (update_config now cfg p)"
proof -
  assume wf: "policy_wf p"
  define q where "q = p\<lparr>pe_config := cfg\<rparr>"
  have q: "policy_wf q" using wf by (simp add: q_def policy_wf_def)
  define r where "r = (if \<not> kill_switch (pe_config p) \<and> kill_switch cfg
               then if pe_mode q \<noteq> FallbackSafe then enter_fallback now KillSwitch q
                    else if fallback_reason q = None then kill_in_fallback q else q
               else q)"
  have "policy_wf r" using q enter_fallback_wf kill_in_fallback_wf by (simp add: r_def)
  then show ?thesis using recover_wf unfolding update_config_def Let_def q_def [symmetric] r_def [symmetric]
    by simp
qed

lemma breach_bound: "(b::usize) < 100 \<Longrightarrow> sat_sub b 1 < 100"
  by (simp add: word_less_nat_alt)

lemma process_window_wf: "policy_wf p \<Longrightarrow> policy_wf (process_window now g p)"
proof -
  assume wf: "policy_wf p"
  have "policy_wf (p\<lparr>consecutive_clean_windows := consecutive_clean_windows p + 1,
                  consecutive_breach_windows := 0\<rparr>)"
    using wf by (simp add: policy_wf_def)
  then show ?thesis using wf recover_wf breach_bound
    by (auto simp: process_window_def recovery_due_def Let_def) (auto simp: policy_wf_def not_le)
qed

lemma observe_window_wf: "policy_wf p \<Longrightarrow> policy_wf (observe_window now g p)"
proof -
  assume wf: "policy_wf p"
  then have "policy_wf (p\<lparr>last_observe_time := Some now\<rparr>)" by (simp add: policy_wf_def)
  then show ?thesis using wf process_window_wf by (simp add: observe_window_def split: option.splits)
qed

subsection \<open>Enforcement and the evaluation loop\<close>

lemma enforce_frame:
  assumes "enforce_policy now c guard p = (q, a)"
  shows "pe_config q = pe_config p \<and> pe_mode q = pe_mode p \<and> pre_fallback_mode q = pre_fallback_mode p \<and>
    fallback_reason q = fallback_reason p \<and> fallback_entered_at q = fallback_entered_at p \<and>
    transition_log q = transition_log p \<and> consecutive_breach_windows q = consecutive_breach_windows p \<and>
    builder q = builder p \<and> total_decisions q = total_decisions p \<and> pressure_level q = pressure_level p"
  using assms by (auto simp: enforce_policy_def rotate_canary_hour_def Let_def split: if_splits)

lemma enforce_action:
  assumes "enforce_policy now c guard p = (q, a)"
  shows "(a = Delete \<longrightarrow> out_action (decision c) = Delete \<and> allows_deletion (pe_mode p) \<and> \<not> guard_rejects p c guard) \<and>
    (a \<noteq> Delete \<longrightarrow> a = out_action (decision c) \<or> a = Keep)"
  using assms by (auto simp: enforce_policy_def Let_def split: if_splits)

lemma count_action_frame [simp]:
  "approved_for_deletion (count_action a d) = approved_for_deletion d"
  "pd_records (count_action a d) = pd_records d"
  "budget_exhausted (count_action a d) = budget_exhausted d"
  by (simp_all add: count_action_def split: decision_action.splits)

text \<open>One candidate: the engine, the approval and the record it leaves.\<close>

lemma eval_candidate_step:
  assumes "eval_candidate now stamp pmode guard c (p, d) = (q, d')"
  obtains a r where "a = snd (enforce_policy now c guard p)"
    "pe_config q = pe_config p" "pe_mode q = pe_mode p" "pre_fallback_mode q = pre_fallback_mode p"
    "fallback_reason q = fallback_reason p" "fallback_entered_at q = fallback_entered_at p"
    "transition_log q = transition_log p" "consecutive_breach_windows q = consecutive_breach_windows p"
    "builder q = builder p + 1" "total_decisions q = total_decisions p + 1"
    "canary_deletes_this_hour q = canary_deletes_this_hour (fst (enforce_policy now c guard p))"
    "canary_hour_start q = canary_hour_start (fst (enforce_policy now c guard p))"
    "approved_for_deletion d' = approved_for_deletion d @ (if a = Delete then [c] else [])"
    "pd_records d' = pd_records d @ [r]" "decision_id r = builder p" "dr_path r = cs_path c"
    "effective_action r = Some (action_record_of a)"
proof -
  obtain e a where e: "enforce_policy now c guard p = (e, a)" by fastforce
  have "builder e = builder p" using enforce_frame [OF e] by simp
  then show ?thesis using assms enforce_frame [OF e] that
    by (auto simp: eval_candidate_def e build_record_def Let_def)
qed

lemma eval_candidate_wf:
  "eval_candidate now stamp pmode guard c (p, d) = (q, d') \<Longrightarrow> policy_wf p \<Longrightarrow> policy_wf q"
  by (erule eval_candidate_step) (simp add: policy_wf_def)

lemma eval_loop_wf:
  "policy_wf p \<Longrightarrow> policy_wf (fst (eval_loop clk stamp b pmode guard i cs (p, d)))"
proof (induction cs arbitrary: i p d)
  case (Cons c cs)
  obtain q e where q: "eval_candidate (clk i) (stamp i) pmode guard c (p, d) = (q, e)" by fastforce
  show ?case using Cons eval_candidate_wf [OF q] by (simp add: q)
qed simp

lemma eval_entry_wf: "policy_wf p \<Longrightarrow> policy_wf (eval_entry now guard p)"
  using enter_fallback_wf by (simp add: eval_entry_def check_guard_triggers_def Let_def split: option.splits)

lemma evaluate_wf: "policy_wf p \<Longrightarrow> policy_wf (fst (evaluate now clk stamp cs guard p))"
  using eval_loop_wf [OF eval_entry_wf] by (simp add: evaluate_def Let_def split_def)

lemma step_wf: "policy_step p q \<Longrightarrow> policy_wf p \<Longrightarrow> policy_wf q"
proof (induction rule: policy_step.induct)
  case (step_pressure p l)
  then show ?case by (simp add: set_pressure_level_def policy_wf_def)
next
  case (step_bypass now p q)
  then show ?case by (auto simp: bypass_startup_grace_def policy_wf_def split: if_splits)
qed (simp_all add: evaluate_wf observe_window_wf escalation_wf promote_wf enter_fallback_wf update_config_wf)

text \<open>C21: in every state the engine can reach, through any sequence of
  evaluations, guard windows, promotions, demotions, fallbacks, escalations and configuration
  reloads, the transition log holds at most 1000 entries, the breach counter is below 100, and an
  engine that is not in fallback carries no stale fallback reason or entry time and knows a mode
  outside fallback to recover to.\<close>

theorem policy_reachable_invariant:
  assumes "reachable p"
  shows "length (transition_log p) \<le> 1000 \<and> consecutive_breach_windows p < 100 \<and>
    (pe_mode p \<noteq> FallbackSafe \<longrightarrow> fallback_reason p = None \<and> fallback_entered_at p = None \<and>
       pre_fallback_mode p \<noteq> FallbackSafe)"
proof -
  have "policy_wf p" using assms by induction (auto intro: policy_new_wf step_wf)
  then show ?thesis by (simp add: policy_wf_def)
qed

theorem policy_reachable_invariant_witness:
  "length (transition_log (enter_fallback 5 GuardrailDrift (policy_new 0 policy_config_default))) \<le> 1000"
  using policy_reachable_invariant [OF reach_step [OF reach_new [of 0 policy_config_default]
      step_fallback [of _ 5 GuardrailDrift]]] by blast

subsection \<open>The audit trail\<close>

definition effective_delete :: "decision_record \<Rightarrow> bool" where
  "effective_delete r = (effective_action r = Some DeleteRec)"

lemma action_record_delete: "action_record_of a = DeleteRec \<longleftrightarrow> a = Delete"
  by (cases a) auto

text \<open>What the loop adds to a decision: records for a prefix of the candidates, in order and
  numbered on from the builder, and the approved candidates among them.\<close>

lemma eval_loop_trail:
  assumes "eval_loop clk stamp b pmode guard i cs (p, d) = (q, e)"
  shows "\<exists>n rs. n \<le> length cs \<and> length rs = n \<and> i + n \<le> max i b \<and> pd_records e = pd_records d @ rs \<and>
    map dr_path rs = map cs_path (take n cs) \<and>
    map decision_id rs = map (\<lambda>k. builder p + of_nat k) [0..<n] \<and>
    builder q = builder p + of_nat n \<and> total_decisions q = total_decisions p + of_nat n \<and>
    approved_for_deletion e = approved_for_deletion d @ map snd (filter (effective_delete \<circ> fst) (zip rs (take n cs))) \<and>
    pe_mode q = pe_mode p \<and> pe_config q = pe_config p \<and>
    (\<forall>c \<in> set (map snd (filter (effective_delete \<circ> fst) (zip rs (take n cs)))).
       out_action (decision c) = Delete \<and> allows_deletion (pe_mode p))"
  using assms
proof (induction cs arbitrary: i p d)
  case Nil
  then show ?case by (intro exI [of _ 0] exI [of _ "[]"]) simp
next
  case (Cons c cs)
  show ?case
  proof (cases "b \<le> i")
    case True
    then show ?thesis using Cons.prems by (intro exI [of _ 0] exI [of _ "[]"]) auto
  next
    case False
    obtain p1 d1 where step: "eval_candidate (clk i) (stamp i) pmode guard c (p, d) = (p1, d1)" by fastforce
    then obtain a r where st: "a = snd (enforce_policy (clk i) c guard p)" "pe_config p1 = pe_config p"
      "pe_mode p1 = pe_mode p" "builder p1 = builder p + 1" "total_decisions p1 = total_decisions p + 1"
      "approved_for_deletion d1 = approved_for_deletion d @ (if a = Delete then [c] else [])"
      "pd_records d1 = pd_records d @ [r]" "decision_id r = builder p" "dr_path r = cs_path c"
      "effective_action r = Some (action_record_of a)"
      by (rule eval_candidate_step)
    have ed: "effective_delete r \<longleftrightarrow> a = Delete" by (simp add: effective_delete_def st action_record_delete)
    have del: "a = Delete \<Longrightarrow> out_action (decision c) = Delete \<and> allows_deletion (pe_mode p)"
      using enforce_action [OF prod.collapse [symmetric], of "clk i" c guard p] st(1) by simp
    show ?thesis
    proof (cases "pe_mode p1 = Observe \<and> max_hypothetical_deletes (pe_config p1) \<le> hypothetical_deletes d1")
      case True
      then have "q = p1" "e = d1\<lparr>budget_exhausted := True\<rparr>" using Cons.prems False by (simp_all add: step)
      then show ?thesis using False st ed del by (intro exI [of _ 1] exI [of _ "[r]"]) auto
    next
      case stop: False
      then have rec: "eval_loop clk stamp b pmode guard (Suc i) cs (p1, d1) = (q, e)"
        using Cons.prems False stop by (auto simp: step split: if_splits)
      from Cons.IH [OF rec] obtain n rs where n: "n \<le> length cs" "length rs = n" "Suc i + n \<le> max (Suc i) b"
        "pd_records e = pd_records d1 @ rs" "map dr_path rs = map cs_path (take n cs)"
        "map decision_id rs = map (\<lambda>k. builder p1 + of_nat k) [0..<n]"
        "builder q = builder p1 + of_nat n" "total_decisions q = total_decisions p1 + of_nat n"
        "approved_for_deletion e = approved_for_deletion d1 @ map snd (filter (effective_delete \<circ> fst) (zip rs (take n cs)))"
        "pe_mode q = pe_mode p1" "pe_config q = pe_config p1"
        "\<forall>c \<in> set (map snd (filter (effective_delete \<circ> fst) (zip rs (take n cs)))).
           out_action (decision c) = Delete \<and> allows_deletion (pe_mode p1)"
        by blast
      have ids: "map decision_id (r # rs) = map (\<lambda>k. builder p + of_nat k) [0..<Suc n]"
        unfolding list.map n(6) st(4,8) upt_conv_Cons [OF zero_less_Suc] map_Suc_upt [symmetric]
        by (simp add: add.assoc)
      show ?thesis
        by (intro exI [of _ "Suc n"] exI [of _ "r # rs"])
           (use n st ed del ids False in \<open>auto simp: add.assoc o_def\<close>)
    qed
  qed
qed

lemma evaluate_split:
  assumes "evaluate now clk stamp cs guard p = (q, e)"
  obtains d where "eval_loop clk stamp
      (min (unat (max_candidates_per_loop (pe_config (eval_entry now guard p)))) (length cs))
      (to_policy_mode (pe_mode (eval_entry now guard p))) guard 0 cs (eval_entry now guard p, empty_decision) = (q, d)"
    "e = d\<lparr>pd_mode := pe_mode q\<rparr>"
  using assms by (auto simp: evaluate_def Let_def split: prod.splits)

text \<open>An evaluation examines a prefix of the candidates no longer than the
  per-loop budget, leaves exactly one record for each in order, numbered without gaps from the
  builder's next identifier, and approves exactly the candidates whose record says the effective
  action is a deletion.\<close>

lemma evaluate_audited:
  assumes "evaluate now clk stamp cs guard p = (q, e)"
  shows "\<exists>n. n \<le> length cs \<and> n \<le> unat (max_candidates_per_loop (pe_config q)) \<and>
    length (pd_records e) = n \<and> map dr_path (pd_records e) = map cs_path (take n cs) \<and>
    map decision_id (pd_records e) = map (\<lambda>k. builder (eval_entry now guard p) + of_nat k) [0..<n] \<and>
    builder q = builder (eval_entry now guard p) + of_nat n \<and>
    approved_for_deletion e = map snd (filter (effective_delete \<circ> fst) (zip (pd_records e) (take n cs)))"
proof -
  from assms obtain d where d: "eval_loop clk stamp
      (min (unat (max_candidates_per_loop (pe_config (eval_entry now guard p)))) (length cs))
      (to_policy_mode (pe_mode (eval_entry now guard p))) guard 0 cs (eval_entry now guard p, empty_decision) = (q, d)"
    "e = d\<lparr>pd_mode := pe_mode q\<rparr>" by (rule evaluate_split)
  from eval_loop_trail [OF d(1)] show ?thesis by (auto simp: d(2) empty_decision_def)
qed

text \<open>A score in the shape the witnesses below use.\<close>

definition demo_score :: candidacy_score where
  "demo_score = vetoed_score demo_engine demo_target ''x''"

definition demo_delete :: candidacy_score where
  "demo_delete = demo_score\<lparr>decision := (decision demo_score)\<lparr>out_action := Delete\<rparr>\<rparr>"

lemma kill_entry: "kill_switch (pe_config p) \<Longrightarrow> pe_mode (eval_entry now guard p) = FallbackSafe"
  using enter_fallback_mode
  by (auto simp: eval_entry_def Let_def check_guard_triggers_def enter_fallback_def set_fallback_def split: option.splits)

lemma evaluate_effects:
  assumes "evaluate now clk stamp cs guard p = (q, e)"
  shows "(\<forall>c \<in> set (approved_for_deletion e). c \<in> set cs \<and> out_action (decision c) = Delete) \<and>
    (approved_for_deletion e \<noteq> [] \<longrightarrow> pe_mode q \<in> {Canary, Enforce} \<and> \<not> kill_switch (pe_config p)) \<and>
    (kill_switch (pe_config p) \<longrightarrow> pe_mode q = FallbackSafe) \<and> pe_mode q = pe_mode (eval_entry now guard p)"
proof -
  from assms obtain d where d: "eval_loop clk stamp
      (min (unat (max_candidates_per_loop (pe_config (eval_entry now guard p)))) (length cs))
      (to_policy_mode (pe_mode (eval_entry now guard p))) guard 0 cs (eval_entry now guard p, empty_decision) = (q, d)"
    "e = d\<lparr>pd_mode := pe_mode q\<rparr>" by (rule evaluate_split)
  from eval_loop_trail [OF d(1)] obtain n rs where n:
    "approved_for_deletion e = map snd (filter (effective_delete \<circ> fst) (zip rs (take n cs)))"
    "pe_mode q = pe_mode (eval_entry now guard p)"
    "\<forall>c \<in> set (map snd (filter (effective_delete \<circ> fst) (zip rs (take n cs)))).
       out_action (decision c) = Delete \<and> allows_deletion (pe_mode (eval_entry now guard p))"
    by (auto simp: d(2) empty_decision_def)
  have sub: "set (approved_for_deletion e) \<subseteq> set cs"
    unfolding n(1) by (auto dest!: set_zip_rightD in_set_takeD)
  have "pe_mode q = Canary \<or> pe_mode q = Enforce" if "approved_for_deletion e \<noteq> []"
  proof -
    from that obtain c where "c \<in> set (approved_for_deletion e)" by (cases "approved_for_deletion e") auto
    then have "allows_deletion (pe_mode (eval_entry now guard p))" using n(3) unfolding n(1) by blast
    then show ?thesis by (auto simp: allows_deletion_def n(2))
  qed
  moreover have "\<forall>c \<in> set (approved_for_deletion e). out_action (decision c) = Delete" using n(3) unfolding n(1) by blast
  ultimately show ?thesis using n(2) sub kill_entry [of p now guard] by auto
qed

text \<open>C11: an evaluation approves only candidates the scorer marked for
  deletion, and none at all when the engine observes or is in fallback, in particular whenever the
  kill switch is on, whatever the mode it was called in; the mode does not change after the entry
  checks.\<close>

theorem evaluate_side_effects:
  assumes "evaluate now clk stamp cs guard p = (q, e)"
  shows "(\<forall>c \<in> set (approved_for_deletion e). c \<in> set cs \<and> out_action (decision c) = Delete) \<and>
    (approved_for_deletion e \<noteq> [] \<longrightarrow> pe_mode q \<in> {Canary, Enforce} \<and> \<not> kill_switch (pe_config p)) \<and>
    (kill_switch (pe_config p) \<longrightarrow> pe_mode q = FallbackSafe) \<and> pe_mode q = pe_mode (eval_entry now guard p)"
  using assms by (rule evaluate_effects)

theorem evaluate_side_effects_witness:
  "pe_mode (fst (evaluate 0 (\<lambda>i. 0) (\<lambda>i. []) [demo_delete] None
     (policy_new 0 policy_config_default\<lparr>pe_config := policy_config_default\<lparr>kill_switch := True\<rparr>\<rparr>))) = FallbackSafe"
  using evaluate_side_effects [of 0 "\<lambda>i. 0" "\<lambda>i. []" "[demo_delete]" None
      "policy_new 0 policy_config_default\<lparr>pe_config := policy_config_default\<lparr>kill_switch := True\<rparr>\<rparr>", OF prod.collapse [symmetric]] by simp

subsection \<open>The canary budget\<close>

definition in_hour :: "instant \<Rightarrow> policy_engine \<Rightarrow> bool" where
  "in_hour now p = (elapsed now (canary_hour_start p) < secs 3600)"

lemma enforce_canary:
  assumes "enforce_policy now c guard p = (q, a)" "pe_mode p = Canary" "in_hour now p"
    "canary_deletes_this_hour p \<le> max_canary_deletes_per_hour (pe_config p)"
  shows "unat (canary_deletes_this_hour q) = unat (canary_deletes_this_hour p) + of_bool (a = Delete) \<and>
    canary_deletes_this_hour q \<le> max_canary_deletes_per_hour (pe_config p) \<and>
    canary_hour_start q = canary_hour_start p"
  using assms unat_Suc_below [of "canary_deletes_this_hour p" "max_canary_deletes_per_hour (pe_config p)"]
    word_Suc_le_below [of "canary_deletes_this_hour p" "max_canary_deletes_per_hour (pe_config p)"]
  by (auto simp: enforce_policy_def rotate_canary_hour_def in_hour_def allows_deletion_def Let_def not_le split: if_splits)

lemma eval_loop_canary:
  assumes "eval_loop clk stamp b pmode guard i cs (p, d) = (q, e)" "pe_mode p = Canary"
    "\<forall>k. in_hour (clk k) p"
    "canary_deletes_this_hour p \<le> max_canary_deletes_per_hour (pe_config p)"
  shows "unat (canary_deletes_this_hour q) + length (approved_for_deletion d) =
      unat (canary_deletes_this_hour p) + length (approved_for_deletion e) \<and>
    canary_deletes_this_hour q \<le> max_canary_deletes_per_hour (pe_config p)"
  using assms
proof (induction cs arbitrary: i p d)
  case (Cons c cs)
  show ?case
  proof (cases "b \<le> i")
    case True
    then show ?thesis using Cons.prems by auto
  next
    case False
    obtain p1 d1 where step: "eval_candidate (clk i) (stamp i) pmode guard c (p, d) = (p1, d1)" by fastforce
    then obtain a where st: "a = snd (enforce_policy (clk i) c guard p)" "pe_config p1 = pe_config p"
      "pe_mode p1 = pe_mode p"
      "canary_deletes_this_hour p1 = canary_deletes_this_hour (fst (enforce_policy (clk i) c guard p))"
      "canary_hour_start p1 = canary_hour_start (fst (enforce_policy (clk i) c guard p))"
      "approved_for_deletion d1 = approved_for_deletion d @ (if a = Delete then [c] else [])"
      by (rule eval_candidate_step)
    have en: "unat (canary_deletes_this_hour p1) = unat (canary_deletes_this_hour p) + of_bool (a = Delete) \<and>
        canary_deletes_this_hour p1 \<le> max_canary_deletes_per_hour (pe_config p) \<and>
        canary_hour_start p1 = canary_hour_start p"
      unfolding st(1,4,5) using Cons.prems(2-4) by (intro enforce_canary [OF prod.collapse [symmetric]]) auto
    then have hour: "\<forall>k. in_hour (clk k) p1" using Cons.prems(3) by (simp add: in_hour_def)
    have rec: "eval_loop clk stamp b pmode guard (Suc i) cs (p1, d1) = (q, e)"
      using Cons.prems(1,2) False st(3) by (auto simp: step)
    show ?thesis using Cons.IH [OF rec _ hour] en st(2,3,6) Cons.prems(2) by (cases "a = Delete") simp_all
  qed
qed simp

text \<open>C26: in canary mode the deletions approved within one budget hour never exceed the
  hourly budget: the counter grows by exactly the number of approvals, which is therefore at most
  what the budget has left, and no run of evaluations inside the hour can overrun it.\<close>

theorem canary_budget:
  assumes "evaluate now clk stamp cs guard p = (q, e)" and "pe_mode q = Canary"
    and "\<forall>k. in_hour (clk k) (eval_entry now guard p)"
    and "canary_deletes_this_hour (eval_entry now guard p) \<le> max_canary_deletes_per_hour (pe_config (eval_entry now guard p))"
  shows "unat (canary_deletes_this_hour q) =
      unat (canary_deletes_this_hour (eval_entry now guard p)) + length (approved_for_deletion e) \<and>
    length (approved_for_deletion e) \<le> unat (max_canary_deletes_per_hour (pe_config (eval_entry now guard p))) -
      unat (canary_deletes_this_hour (eval_entry now guard p)) \<and>
    canary_deletes_this_hour q \<le> max_canary_deletes_per_hour (pe_config (eval_entry now guard p))"
proof -
  from assms(1) obtain d where d: "eval_loop clk stamp
      (min (unat (max_candidates_per_loop (pe_config (eval_entry now guard p)))) (length cs))
      (to_policy_mode (pe_mode (eval_entry now guard p))) guard 0 cs (eval_entry now guard p, empty_decision) = (q, d)"
    "e = d\<lparr>pd_mode := pe_mode q\<rparr>" by (rule evaluate_split)
  have "pe_mode (eval_entry now guard p) = Canary" using eval_loop_trail [OF d(1)] assms(2) by auto
  from eval_loop_canary [OF d(1) this assms(3,4)] show ?thesis
    by (auto simp: d(2) empty_decision_def word_le_nat_alt)
qed

definition demo_canary :: policy_engine where
  "demo_canary = policy_new 0 (policy_config_default\<lparr>initial_mode := Canary\<rparr>)"

lemma demo_canary_entry: "eval_entry 0 None demo_canary = demo_canary" "pe_mode demo_canary = Canary"
  "canary_deletes_this_hour demo_canary = 0" "in_hour 0 demo_canary"
  "max_canary_deletes_per_hour (pe_config demo_canary) = 10"
  by (simp_all add: demo_canary_def policy_new_def policy_config_default_def eval_entry_def in_hour_def secs_def)

theorem canary_budget_witness:
  "length (approved_for_deletion (snd (evaluate 0 (\<lambda>i. 0) (\<lambda>i. []) [demo_delete] None demo_canary))) \<le> 10"
proof -
  let ?r = "evaluate 0 (\<lambda>i. 0) (\<lambda>i. []) [demo_delete] None demo_canary"
  obtain d where "eval_loop (\<lambda>i. 0) (\<lambda>i. [])
      (min (unat (max_candidates_per_loop (pe_config (eval_entry 0 None demo_canary)))) (length [demo_delete]))
      (to_policy_mode (pe_mode (eval_entry 0 None demo_canary))) None 0 [demo_delete] (eval_entry 0 None demo_canary, empty_decision) = (fst ?r, d)"
    using evaluate_split [OF prod.collapse [symmetric]] by blast
  then have "pe_mode (fst ?r) = Canary" using eval_loop_trail demo_canary_entry by fastforce
  then show ?thesis
    using canary_budget [of 0 "\<lambda>i. 0" "\<lambda>i. []" "[demo_delete]" None demo_canary, OF prod.collapse [symmetric]]
    by (simp add: demo_canary_entry)
qed

end
