(* ===== verification/Policy_Modes.thy ===== *)
theory Policy_Modes
  imports Policy_Run
begin

section \<open>How the policy engine leaves the fallback\<close>

text \<open>
  The ways out of the fallback mode, and the promise that clean windows lead out of it. The
  engine recovers to the mode it had before, but never higher than Canary; only an emergency
  escalation goes straight to Enforce.
\<close>

definition recovery_target :: "active_mode \<Rightarrow> active_mode" where
  "recovery_target m = (case m of Enforce \<Rightarrow> Canary | m \<Rightarrow> m)"

lemma recover_mode [simp]: "pe_mode (recover_from_fallback p) = recovery_target (pre_fallback_mode p)"
  "pe_config (recover_from_fallback p) = pe_config p"
  by (simp_all add: recover_from_fallback_def recovery_target_def Let_def)

lemma recovery_target_not_enforce [simp]: "recovery_target m \<noteq> Enforce"
  by (cases m) (simp_all add: recovery_target_def)

lemma enter_fallback_id: "pe_mode p = FallbackSafe \<Longrightarrow> enter_fallback now r p = p"
  by (simp add: enter_fallback_def)

lemma evaluate_mode:
  assumes "pe_mode p = FallbackSafe"
  shows "pe_mode (fst (evaluate now clk stamp cs guard p)) = FallbackSafe"
proof -
  obtain q e where qe: "evaluate now clk stamp cs guard p = (q, e)" by fastforce
  then obtain d where "eval_loop clk stamp
      (min (unat (max_candidates_per_loop (pe_config (eval_entry now guard p)))) (length cs))
      (to_policy_mode (pe_mode (eval_entry now guard p))) guard 0 cs (eval_entry now guard p, empty_decision) = (q, d)"
    by (rule evaluate_split)
  from eval_loop_trail [OF this] have "pe_mode q = pe_mode (eval_entry now guard p)" by auto
  moreover have "eval_entry now guard p = p"
    using assms by (simp add: eval_entry_def check_guard_triggers_def Let_def split: option.splits)
  ultimately show ?thesis using assms by (simp add: qe)
qed

lemma eval_entry_mode:
  "pe_mode (eval_entry now guard p) = pe_mode p \<or> pe_mode (eval_entry now guard p) = FallbackSafe"
proof -
  let ?q = "if kill_switch (pe_config p) \<and> pe_mode p \<noteq> FallbackSafe then enter_fallback now KillSwitch p else p"
  have q: "pe_mode ?q = pe_mode p \<or> pe_mode ?q = FallbackSafe" using enter_fallback_mode by simp
  have "pe_mode (check_guard_triggers now d x) = pe_mode x \<or> pe_mode (check_guard_triggers now d x) = FallbackSafe" for d x
    using enter_fallback_mode [of now GuardrailDrift x] by (simp add: check_guard_triggers_def)
  with q show ?thesis unfolding eval_entry_def Let_def by (cases guard) (simp_all only: option.case, metis)
qed

text \<open>A window can end the fallback only when it is clean, late enough and not the first.\<close>

definition window_exit :: "policy_engine \<Rightarrow> policy_engine \<Rightarrow> bool" where
  "window_exit p q = (pe_mode q = recovery_target (pre_fallback_mode p) \<and>
     recovery_clean_windows (pe_config p) \<le> consecutive_clean_windows p + 1 \<and>
     (\<exists>now g. window_is_clean g p \<and> (\<forall>t. fallback_entered_at p = Some t \<longrightarrow>
        secs (unat (min_fallback_secs (pe_config p))) \<le> elapsed now t)))"

lemma process_window_exit:
  assumes "pe_mode p = FallbackSafe" "pe_mode (process_window now g p) \<noteq> FallbackSafe"
  shows "window_exit p (process_window now g p)"
proof -
  have c: "window_is_clean g p" and due: "recovery_due now (p\<lparr>consecutive_clean_windows := consecutive_clean_windows p + 1,
      consecutive_breach_windows := 0\<rparr>)"
    using assms by (auto simp: process_window_def Let_def split: if_splits)
  have "process_window now g p = recover_from_fallback (p\<lparr>consecutive_clean_windows := consecutive_clean_windows p + 1,
      consecutive_breach_windows := 0\<rparr>)" using c due by (simp add: process_window_def Let_def)
  then show ?thesis using c due unfolding window_exit_def
    by (auto simp: recovery_due_def intro!: exI [of _ now] exI [of _ g] split: option.splits)
qed

lemma observe_window_exit:
  assumes "pe_mode p = FallbackSafe" "pe_mode (observe_window now g p) \<noteq> FallbackSafe"
  shows "window_exit p (observe_window now g p)"
proof -
  have "window_exit p (process_window now g (p\<lparr>last_observe_time := t\<rparr>))"
    if "pe_mode (process_window now g (p\<lparr>last_observe_time := t\<rparr>)) \<noteq> FallbackSafe" for t
    using process_window_exit [of "p\<lparr>last_observe_time := t\<rparr>"] that assms(1)
    by (simp add: window_exit_def window_is_clean_def)
  then show ?thesis using assms process_window_exit [of p now g]
    by (auto simp: observe_window_def split: option.splits if_splits)
qed



subsection \<open>Clean windows end the fallback\<close>

text \<open>A run of guard windows, each at its time, far enough apart not to be dropped by the rate limit.\<close>

fun observe_all :: "(instant \<times> guard_diagnostics) list \<Rightarrow> policy_engine \<Rightarrow> policy_engine" where
  "observe_all [] p = p"
| "observe_all (x # ws) p = observe_all ws (observe_window (fst x) (snd x) p)"

fun spaced :: "duration \<Rightarrow> instant option \<Rightarrow> (instant \<times> guard_diagnostics) list \<Rightarrow> bool" where
  "spaced gap prev [] = True"
| "spaced gap prev (x # ws) = ((\<forall>t. prev = Some t \<longrightarrow> gap \<le> elapsed (fst x) t) \<and> spaced gap (Some (fst x)) ws)"

definition window_gap :: "policy_engine \<Rightarrow> duration" where
  "window_gap p = secs (unat (observe_min_interval_secs (pe_config p)))"

lemma observe_window_taken:
  assumes "\<forall>t. last_observe_time p = Some t \<longrightarrow> window_gap p \<le> elapsed now t"
  obtains x where "observe_window now g p = process_window now g (p\<lparr>last_observe_time := x\<rparr>)"
    "x = Some now \<or> (x = last_observe_time p \<and> window_gap p = 0)"
proof (cases "observe_min_interval_secs (pe_config p) = 0")
  case True
  have "p\<lparr>last_observe_time := last_observe_time p\<rparr> = p" by simp
  then show ?thesis using that [of "last_observe_time p"] True by (simp add: observe_window_def window_gap_def secs_def)
next
  case False
  then have "0 < observe_min_interval_secs (pe_config p)" by (simp add: word_neq_0_conv)
  then have "observe_window now g p = process_window now g (p\<lparr>last_observe_time := Some now\<rparr>)"
    using assms by (cases "last_observe_time p") (auto simp: observe_window_def window_gap_def)
  then show ?thesis using that [of "Some now"] by simp
qed

lemma spaced_zero: "spaced 0 x ws"
  by (induction ws arbitrary: x) auto

definition still_falling :: "policy_engine \<Rightarrow> policy_engine \<Rightarrow> usize \<Rightarrow> bool" where
  "still_falling p q k = (pe_mode q = FallbackSafe \<and> pre_fallback_mode q = pre_fallback_mode p \<and>
     fallback_entered_at q = fallback_entered_at p \<and> consecutive_clean_windows q = consecutive_clean_windows p + k \<and>
     pe_config q = pe_config p \<and> pressure_level q = pressure_level p)"

lemma clean_window_step:
  assumes "pe_mode p = FallbackSafe" "window_is_clean g p"
    "\<forall>t. last_observe_time p = Some t \<longrightarrow> window_gap p \<le> elapsed now t"
  shows "(if recovery_due now (p\<lparr>consecutive_clean_windows := consecutive_clean_windows p + 1\<rparr>)
      then pe_mode (observe_window now g p) = recovery_target (pre_fallback_mode p)
      else still_falling p (observe_window now g p) 1) \<and>
    (spaced (window_gap p) (Some now) ws \<longrightarrow> spaced (window_gap p) (last_observe_time (observe_window now g p)) ws)"
proof -
  obtain x where x: "observe_window now g p = process_window now g (p\<lparr>last_observe_time := x\<rparr>)"
    "x = Some now \<or> (x = last_observe_time p \<and> window_gap p = 0)" by (rule observe_window_taken [OF assms(3)])
  have "last_observe_time (process_window now g (p\<lparr>last_observe_time := x\<rparr>)) = x"
    by (simp add: process_window_def recover_from_fallback_def Let_def)
  then show ?thesis using assms(1,2) x spaced_zero
    by (auto simp: process_window_def window_is_clean_def recovery_due_def still_falling_def Let_def split: option.splits)
qed

lemma observe_keeps_mode: "pe_mode p \<noteq> FallbackSafe \<Longrightarrow> pe_mode (observe_all ws p) = pe_mode p"
proof (induction ws arbitrary: p)
  case (Cons x ws)
  have "pe_mode (observe_window (fst x) (snd x) p) = pe_mode p"
    using Cons.prems by (auto simp: observe_window_def process_window_def recovery_due_def Let_def split: option.splits)
  then show ?case using Cons by simp
qed simp

text \<open>C25: an engine in fallback that sees as many clean windows in a row as the
  configuration asks for, spaced by the observation interval and the last one past the minimum stay, ends
  outside the fallback in the mode it had before, with Enforce lowered to Canary.\<close>

theorem clean_windows_recover:
  assumes "pe_mode p = FallbackSafe" and "pre_fallback_mode p \<noteq> FallbackSafe"
    and "\<forall>x \<in> set ws. window_is_clean (snd x) p" and "spaced (window_gap p) (last_observe_time p) ws"
    and "unat (consecutive_clean_windows p) + length ws < 2 ^ 64"
    and "unat (recovery_clean_windows (pe_config p)) \<le> unat (consecutive_clean_windows p) + length ws"
    and "ws \<noteq> []"
    and "\<forall>t. fallback_entered_at p = Some t \<longrightarrow> secs (unat (min_fallback_secs (pe_config p))) \<le> elapsed (fst (last ws)) t"
  shows "pe_mode (observe_all ws p) = recovery_target (pre_fallback_mode p)"
  using assms
proof (induction ws arbitrary: p)
  case (Cons x ws)
  let ?q = "observe_window (fst x) (snd x) p"
  have u: "unat (consecutive_clean_windows p + 1) = unat (consecutive_clean_windows p) + 1"
    using Cons.prems(5) by (simp add: unat_word_ariths)
  have st: "(if recovery_due (fst x) (p\<lparr>consecutive_clean_windows := consecutive_clean_windows p + 1\<rparr>)
      then pe_mode ?q = recovery_target (pre_fallback_mode p) else still_falling p ?q 1)"
    "spaced (window_gap p) (last_observe_time ?q) ws"
    using clean_window_step [of p "snd x" "fst x" ws] Cons.prems(1,3,4) by auto
  show ?case
  proof (cases "recovery_due (fst x) (p\<lparr>consecutive_clean_windows := consecutive_clean_windows p + 1\<rparr>)")
    case True
    have "recovery_target (pre_fallback_mode p) \<noteq> FallbackSafe"
      using Cons.prems(2) by (cases "pre_fallback_mode p") (auto simp: recovery_target_def)
    then show ?thesis using True st(1) observe_keeps_mode [of ?q ws] by simp
  next
    case False
    then have q: "still_falling p ?q 1" using st(1) by simp
    show ?thesis
    proof (cases "ws = []")
      case True
      then have "recovery_due (fst x) (p\<lparr>consecutive_clean_windows := consecutive_clean_windows p + 1\<rparr>)"
        using Cons.prems(1,6,8) u by (auto simp: recovery_due_def word_le_nat_alt split: option.splits)
      with False show ?thesis by simp
    next
      case False
      have "pe_mode (observe_all ws ?q) = recovery_target (pre_fallback_mode ?q)"
        using q Cons.prems st(2) False u
        by (intro Cons.IH) (auto simp: still_falling_def window_gap_def window_is_clean_def)
      then show ?thesis using q by (simp add: still_falling_def)
    qed
  qed
qed simp

definition demo_fallen :: policy_engine where
  "demo_fallen = enter_fallback 0 GuardrailDrift (policy_new 0 (policy_config_default\<lparr>initial_mode := Enforce,
     recovery_clean_windows := 2, min_fallback_secs := 60, observe_min_interval_secs := 10\<rparr>))"

definition demo_window :: guard_diagnostics where
  "demo_window = \<lparr>diag_status = Pass, observation_count = 50, median_rate_error = 0, conservative_fraction = 1,
     e_process_value = 0, e_process_alarm = False, diag_consecutive_clean = 3, diag_reason = []\<rparr>"

theorem clean_windows_recover_witness:
  "pe_mode (observe_all [(secs 50, demo_window), (secs 70, demo_window)] demo_fallen) = Canary"
proof -
  have f: "pe_mode demo_fallen = FallbackSafe" "pre_fallback_mode demo_fallen = Enforce"
    "last_observe_time demo_fallen = None" "consecutive_clean_windows demo_fallen = 0"
    "recovery_clean_windows (pe_config demo_fallen) = 2" "fallback_entered_at demo_fallen = Some 0"
    "min_fallback_secs (pe_config demo_fallen) = 60" "observe_min_interval_secs (pe_config demo_fallen) = 10"
    by (simp_all add: demo_fallen_def enter_fallback_def policy_new_def policy_config_default_def set_fallback_def
        log_transition_def Let_def)
  show ?thesis
    using clean_windows_recover [of demo_fallen "[(secs 50, demo_window), (secs 70, demo_window)]"] f
    by (simp add: window_gap_def window_is_clean_def demo_window_def elapsed_def secs_def recovery_target_def)
qed

subsection \<open>A fallback that was configured is never left\<close>

definition stuck :: "policy_engine \<Rightarrow> bool" where
  "stuck p = (pe_mode p = FallbackSafe \<and> pre_fallback_mode p = FallbackSafe \<and> fallback_entered_at p = None)"

text \<open>An engine configured to start in the fallback has no mode to recover to and no entry time, so neither
  clean windows, nor the operator's kill switch, nor an emergency ever take it out.\<close>

lemma stuck_loop: "stuck p \<Longrightarrow> stuck (fst (eval_loop clk stamp b pmode guard i cs (p, d)))"
proof (induction cs arbitrary: i p d)
  case (Cons c cs)
  obtain q e where q: "eval_candidate (clk i) (stamp i) pmode guard c (p, d) = (q, e)" by fastforce
  then have "stuck q" using Cons.prems by (elim eval_candidate_step) (simp add: stuck_def)
  then show ?case using Cons by (simp add: q)
qed simp

lemma stuck_step:
  assumes "policy_step p q" "stuck p"
  shows "stuck q"
  using assms
proof cases
  case (step_evaluate now clk stamp cs guard)
  have "eval_entry now guard p = p"
    using assms(2) by (simp add: stuck_def eval_entry_def check_guard_triggers_def Let_def split: option.splits)
  then show ?thesis using stuck_loop [OF assms(2)] step_evaluate by (simp add: evaluate_def Let_def split_def)
next
  case (step_observe now g)
  have w: "stuck (process_window now g r)" if "stuck r" for r
    using that by (simp add: stuck_def process_window_def recover_from_fallback_def Let_def)
  have "stuck (p\<lparr>last_observe_time := x\<rparr>)" for x using assms(2) by (simp add: stuck_def)
  then show ?thesis using assms(2) w step_observe by (simp add: observe_window_def split: option.split)
next
  case (step_escalate now crit)
  then show ?thesis using assms(2) by (auto simp: stuck_def check_emergency_escalation_def)
next
  case (step_config now cfg)
  then show ?thesis using assms(2)
    by (auto simp: stuck_def update_config_def Let_def kill_in_fallback_def recover_from_fallback_def)
next
  case (step_bypass now)
  then show ?thesis using assms(2) by (auto simp: stuck_def bypass_startup_grace_def split: if_splits)
qed (auto simp: stuck_def promote_def demote_def enter_fallback_def set_pressure_level_def)

inductive reaches :: "policy_engine \<Rightarrow> policy_engine \<Rightarrow> bool" where
  reaches_refl: "reaches p p"
| reaches_step: "reaches p q \<Longrightarrow> policy_step q r \<Longrightarrow> reaches p r"

lemma configured_fallback_stuck:
  assumes "reaches (policy_new now cfg) p" "initial_mode cfg = FallbackSafe"
  shows "pe_mode p = FallbackSafe"
proof -
  have "stuck (policy_new now cfg)"
    using assms(2) by (simp add: stuck_def policy_new_def kill_in_fallback_def Let_def)
  with assms(1) have "stuck p" by (induction rule: reaches.induct) (auto intro: stuck_step)
  then show ?thesis by (simp add: stuck_def)
qed

end
