(* ===== verification/Ballast_Release.thy ===== *)
theory Ballast_Release
  imports Ballast_Run Pid
begin

section \<open>The ballast release controller\<close>

text \<open>
  \<open>ballast/release.rs\<close>: how many files to give up for a pressure response, and when to put one back.
  The per-mount states are a map from paths up to equality of components, as the \<open>HashMap\<close>
  of the source compares them. Clock readings are arguments.
\<close>

record mount_release_state =
  last_release_time :: "instant option"
  green_since :: "instant option"
  last_replenish_time :: "instant option"
  non_green_interruptions :: u32

definition mount_state_default :: mount_release_state where
  "mount_state_default = \<lparr>last_release_time = None, green_since = None, last_replenish_time = None,
     non_green_interruptions = 0\<rparr>"

record release_controller =
  rc_states :: "component list \<Rightarrow> mount_release_state option"
  replenish_cooldown :: duration
  replenish_interval :: duration

definition release_controller_new :: "u64 \<Rightarrow> release_controller" where
  "release_controller_new minutes = \<lparr>rc_states = (\<lambda>_. None), replenish_cooldown = secs (unat (minutes * 60)),
     replenish_interval = secs 300\<rparr>"

text \<open>\<open>entry(path).or_default()\<close> followed by a change of the entry.\<close>

definition mount_state :: "release_controller \<Rightarrow> path \<Rightarrow> mount_release_state" where
  "mount_state c p = (case rc_states c (components p) of Some s \<Rightarrow> s | None \<Rightarrow> mount_state_default)"

definition set_mount_state :: "path \<Rightarrow> mount_release_state \<Rightarrow> release_controller \<Rightarrow> release_controller" where
  "set_mount_state p s c = c\<lparr>rc_states := (rc_states c)(components p \<mapsto> s)\<rparr>"

subsection \<open>How many files to release\<close>

definition urgency_recommendation :: "f64 \<Rightarrow> usize \<Rightarrow> usize" where
  "urgency_recommendation u whole = (if u < lit (3/10) then 0 else if u < lit (6/10) then 1
     else if u < lit (9/10) then 3 else whole)"

fun level_floor :: "pressure_level \<Rightarrow> usize \<Rightarrow> usize" where
  "level_floor Critical whole = whole"
| "level_floor Red whole = 3"
| "level_floor Orange whole = 1"
| "level_floor _ whole = 0"

definition release_target :: "pressure_response \<Rightarrow> usize \<Rightarrow> usize" where
  "release_target r whole = max (max (release_ballast_files r) (urgency_recommendation (urgency r) whole))
     (level_floor (resp_level r) whole)"

definition files_to_release ::
  "path \<Rightarrow> pressure_response \<Rightarrow> usize \<Rightarrow> usize \<Rightarrow> release_controller \<Rightarrow> release_controller \<times> usize" where
  "files_to_release p r available configured c =
     (if available = 0 then (c, 0)
      else let already_released = sat_sub configured available;
               c1 = set_mount_state p (mount_state c p) c;
               needed = sat_sub (release_target r configured) already_released
           in (c1, min needed available))"

definition on_released :: "instant \<Rightarrow> path \<Rightarrow> release_controller \<Rightarrow> release_controller" where
  "on_released now p c = set_mount_state p
     ((mount_state c p)\<lparr>last_release_time := Some now, green_since := None\<rparr>) c"

definition maybe_release ::
  "storage \<Rightarrow> codec \<Rightarrow> instant \<Rightarrow> path \<Rightarrow> pressure_response \<Rightarrow> release_controller \<times> manager \<times> world \<Rightarrow>
     (sbh_error + release_report option) \<times> release_controller \<times> manager \<times> world" where
  "maybe_release os cd now p resp st =
     (let (c, m, w) = st;
          (c1, n) = files_to_release p resp (available_count m) (file_count (bm_config m)) c
      in if n = 0 then (Inr None, c1, m, w)
         else case release os cd n (m, w) of
             (Inl e, mw) \<Rightarrow> (Inl e, c1, mw)
           | (Inr r, mw) \<Rightarrow> (Inr (Some r), if files_released r > 0 then on_released now p c1 else c1, mw))"

subsection \<open>When to replenish\<close>

definition is_ready_for_replenish ::
  "instant \<Rightarrow> path \<Rightarrow> pressure_level \<Rightarrow> usize \<Rightarrow> usize \<Rightarrow> release_controller \<Rightarrow> release_controller \<times> bool" where
  "is_ready_for_replenish now p level current target c =
     (let s = mount_state c p in
      if level \<noteq> Green then
        (if green_since s \<noteq> None then
           let s1 = s\<lparr>non_green_interruptions := non_green_interruptions s + 1\<rparr>;
               s2 = (if non_green_interruptions s1 > 3
                     then s1\<lparr>green_since := None, non_green_interruptions := 0\<rparr> else s1)
           in (set_mount_state p s2 c, False)
         else (set_mount_state p s c, False))
      else
        let since = (case green_since s of Some t \<Rightarrow> t | None \<Rightarrow> now);
            c1 = set_mount_state p (s\<lparr>green_since := Some since\<rparr>) c
        in if elapsed now since < replenish_cooldown c then (c1, False)
           else if current \<ge> target then (c1, False)
           else case last_replenish_time s of
               Some prev \<Rightarrow> (c1, \<not> elapsed now prev < replenish_interval c)
             | None \<Rightarrow> (c1, True))"

definition on_replenished :: "instant \<Rightarrow> path \<Rightarrow> release_controller \<Rightarrow> release_controller" where
  "on_replenished now p c = set_mount_state p ((mount_state c p)\<lparr>last_replenish_time := Some now\<rparr>) c"

definition maybe_replenish ::
  "storage \<Rightarrow> codec \<Rightarrow> instant \<Rightarrow> instant \<Rightarrow> path \<Rightarrow> pressure_level \<Rightarrow> (nat \<Rightarrow> f64) \<Rightarrow>
     release_controller \<times> manager \<times> world \<Rightarrow>
     (sbh_error + bool) \<times> release_controller \<times> manager \<times> world" where
  "maybe_replenish os cd now later p level check st =
     (let (c, m, w) = st;
          (c1, ready) = is_ready_for_replenish now p level (available_count m) (file_count (bm_config m)) c
      in if \<not> ready then (Inr False, c1, m, w)
         else case replenish_one os cd (Some check) (m, w) of
             (Inl e, mw) \<Rightarrow> (Inl e, c1, mw)
           | (Inr r, mw) \<Rightarrow> if files_created r > 0 then (Inr True, on_replenished later p c1, mw)
               else (Inr False, c1, mw))"

definition controller_reset :: "release_controller \<Rightarrow> release_controller" where
  "controller_reset c = c\<lparr>rc_states := (\<lambda>_. None)\<rparr>"

subsection \<open>Bounds of a release\<close>

lemma f_not_less_mono: "x \<le> y \<Longrightarrow> \<not> x < c \<Longrightarrow> c \<noteq> FNaN \<Longrightarrow> \<not> y < (c :: f64)"
  using f_le_less_trans by blast

lemma urgency_recommendation_mono:
  assumes "u \<le> v"
  shows "urgency_recommendation u whole \<le> urgency_recommendation v whole \<or> whole \<le> urgency_recommendation v whole"
proof -
  have "\<not> u < c \<Longrightarrow> \<not> v < c" for c using assms f_le_less_trans by blast
  then show ?thesis by (auto simp: urgency_recommendation_def)
qed

lemma level_floor_mono: "a \<le> b \<Longrightarrow> level_floor a whole \<le> level_floor b whole \<or> whole \<le> level_floor b whole"
  by (cases a; cases b) (auto simp: less_eq_pressure_level_def)

lemma release_target_mono:
  assumes "resp_level r \<le> resp_level r2" "urgency r \<le> urgency r2" "release_ballast_files r \<le> release_ballast_files r2"
  shows "release_target r whole \<le> release_target r2 whole \<or> whole \<le> release_target r2 whole"
  using urgency_recommendation_mono [OF assms(2), of whole] level_floor_mono [OF assms(1), of whole] assms(3)
  unfolding release_target_def by (auto simp: max_def)

lemma files_to_release_unat:
  "unat (snd (files_to_release p r a t c)) = min (unat (release_target r t) - (unat t - unat a)) (unat a)"
  by (auto simp: files_to_release_def Let_def min_def word_le_nat_alt)

text \<open>Never more files are asked for than the pool holds; the number
  grows with the pressure level, the urgency and the controller's own recommendation; a
  critical response always takes every file left, and so does an urgency that is not a number.\<close>

lemma files_to_release_bounds:
  assumes "a \<le> t" and "resp_level r \<le> resp_level r2" and "urgency r \<le> urgency r2"
    and "release_ballast_files r \<le> release_ballast_files r2"
  shows "snd (files_to_release p r a t c) \<le> a \<and>
    snd (files_to_release p r a t c) \<le> snd (files_to_release p r2 a t c) \<and>
    (resp_level r = Critical \<longrightarrow> snd (files_to_release p r a t c) = a) \<and>
    snd (files_to_release p (r\<lparr>urgency := FNaN\<rparr>) a t c) = a"
proof -
  have all: "unat (snd (files_to_release p x a t c)) = unat a" if "t \<le> release_target x t" for x
    using that assms(1) by (auto simp: files_to_release_unat word_le_nat_alt)
  have "unat (snd (files_to_release p r a t c)) \<le> unat (snd (files_to_release p r2 a t c))"
    using release_target_mono [OF assms(2-4), of t] all [of r2]
    by (auto simp: files_to_release_unat word_le_nat_alt)
  moreover have "t \<le> release_target r t" if "resp_level r = Critical" using that by (simp add: release_target_def)
  moreover have "t \<le> release_target (r\<lparr>urgency := FNaN\<rparr>) t"
    by (simp add: release_target_def urgency_recommendation_def le_max_iff_disj)
  ultimately show ?thesis using all
    by (auto simp: word_le_nat_alt word_unat_eq_iff) (simp add: files_to_release_unat)
qed

definition demo_response :: pressure_response where
  "demo_response = \<lparr>resp_level = Critical, urgency = Fin 1, scan_interval = 0, release_ballast_files = 2,
     max_delete_batch = 5, resp_fallback_active = False, causing_mount = ''/'', resp_free_pct = Fin 1,
     predicted_seconds = None\<rparr>"

subsection \<open>A run of releases\<close>

lemma release_zero:
  assumes "fresh cd (m, w)"
  shows "snd (release os cd 0 (m, w)) = (m, w)"
proof -
  have "scan_existing cd w m = m" using assms unfolding fresh_def by simp
  then show ?thesis by (simp add: release_def Let_def split: option.splits)
qed

lemma release_keeps_config: "snd (release os cd n (m, w)) = (m', w') \<Longrightarrow> bm_config m' = bm_config m"
  by (auto simp: release_def Let_def split: option.splits prod.splits)

lemma fresh_avail:
  assumes "fresh cd (m, w)"
  shows "unat (available_count m) = length (bm_inventory m)"
    "length (bm_inventory m) \<le> unat (file_count (bm_config m))"
proof -
  have l: "length (bm_inventory m) = length (present m w)" using fresh_indices [OF assms] by (metis length_map)
  show "length (bm_inventory m) \<le> unat (file_count (bm_config m))"
    unfolding l present_def using length_filter_le [of _ "slots (file_count (bm_config m))"] by simp
  then show "unat (available_count m) = length (bm_inventory m)"
    using assms unfolding available_count_def fresh_def by (intro unat_of_nat_small) simp
qed

text \<open>One controller tick is \<open>reach_target\<close> of the pool contract.\<close>

lemma maybe_release_reach:
  assumes "fresh cd (m, w)"
  shows "snd (snd (maybe_release os cd now p resp (c, m, w))) =
    pool.reach_target os cd (unat (file_count (bm_config m))) (unat (release_target resp (file_count (bm_config m)))) (m, w)"
proof -
  let ?t = "file_count (bm_config m)"
  obtain c1 n where f: "files_to_release p resp (available_count m) ?t c = (c1, n)" by fastforce
  have n: "unat n = min (unat (release_target resp ?t) - (unat ?t - length (bm_inventory m))) (length (bm_inventory m))"
    using files_to_release_unat [of p resp "available_count m" ?t c] fresh_avail [OF assms] by (simp add: f)
  have reach: "pool.reach_target os cd (unat ?t) (unat (release_target resp ?t)) (m, w) = snd (release os cd n (m, w))"
    unfolding pool.reach_target_def pool_release_def fst_conv n [symmetric]
    by (simp split: prod.splits sum.splits)
  show ?thesis
  proof (cases "n = 0")
    case True
    then show ?thesis using release_zero [OF assms] unfolding reach by (simp add: maybe_release_def f)
  next
    case False
    then show ?thesis unfolding reach by (auto simp: maybe_release_def f split: prod.splits sum.splits)
  qed
qed

definition release_tick ::
  "storage \<Rightarrow> codec \<Rightarrow> path \<Rightarrow> instant \<times> pressure_response \<Rightarrow>
     release_controller \<times> manager \<times> world \<Rightarrow> release_controller \<times> manager \<times> world" where
  "release_tick os cd p x st = snd (maybe_release os cd (fst x) p (snd x) st)"

lemma release_tick_reach:
  assumes "fresh cd mw"
  shows "snd (release_tick os cd p x (c, mw)) = pool.reach_target os cd (unat (file_count (bm_config (fst mw))))
    (unat (release_target (snd x) (file_count (bm_config (fst mw))))) mw"
  using maybe_release_reach [of cd "fst mw" "snd mw"] assms by (simp add: release_tick_def)

lemma reach_keeps_config: "bm_config (fst (pool.reach_target os cd n k mw)) = bm_config (fst mw)"
proof -
  have "bm_config (fst (snd (pool_release os cd k mw))) = bm_config (fst mw)" for k
    using release_keeps_config [of os cd "of_nat k" "fst mw" "snd mw" "fst (snd (release os cd (of_nat k) mw))"
        "snd (snd (release os cd (of_nat k) mw))"]
    by (auto simp: pool_release_def split: prod.splits sum.splits)
  then show ?thesis by (simp add: pool.reach_target_def)
qed

lemma release_ticks_reach:
  assumes "fresh cd mw"
  shows "snd (fold (release_tick os cd p) xs (c, mw)) =
    fold (pool.reach_target os cd (unat (file_count (bm_config (fst mw)))))
      (map (\<lambda>x. unat (release_target (snd x) (file_count (bm_config (fst mw))))) xs) mw"
  using assms
proof (induction xs arbitrary: c mw)
  case (Cons x xs)
  obtain c1 mw1 where st: "release_tick os cd p x (c, mw) = (c1, mw1)" by (metis prod.exhaust)
  then have mw1: "mw1 = pool.reach_target os cd (unat (file_count (bm_config (fst mw))))
      (unat (release_target (snd x) (file_count (bm_config (fst mw))))) mw"
    using release_tick_reach [OF Cons.prems, of os p x c] by simp
  have "fresh cd mw1" unfolding mw1 by (rule pool.reach_ok [OF Cons.prems])
  from Cons.IH [OF this, of c1] show ?case by (simp add: st mw1 reach_keeps_config)
qed simp

text \<open>C27: over any run of monitoring ticks, with whatever removals fail on the
  way, the number of files given up never exceeds the largest target any response set (or what was
  already gone), the pool never grows during the run, and the inventory stays true to the disk.\<close>

theorem release_never_overshoots:
  assumes "fresh cd mw"
    and "\<forall>x \<in> set xs. unat (release_target (snd x) (file_count (bm_config (fst mw)))) \<le> bound"
    and "unat (file_count (bm_config (fst mw))) - length (bm_inventory (fst mw)) \<le> bound"
    and "fold (release_tick os cd p) xs (c, mw) = (c', mw')"
  shows "fresh cd mw' \<and> length (bm_inventory (fst mw')) \<le> length (bm_inventory (fst mw)) \<and>
    unat (file_count (bm_config (fst mw))) - length (bm_inventory (fst mw')) \<le> bound"
proof -
  have "length (bm_inventory (fst mw)) \<le> unat (file_count (bm_config (fst mw)))"
    using fresh_avail(2) [of cd "fst mw" "snd mw"] assms(1) by simp
  from pool.reach_fold_no_overshoot [OF assms(1) this, of "map (\<lambda>x. unat (release_target (snd x)
      (file_count (bm_config (fst mw))))) xs" bound os]
  show ?thesis using assms(2,3) release_ticks_reach [OF assms(1), of os p xs c] by (simp add: assms(4))
qed

theorem release_never_overshoots_witness:
  "\<exists>c' mw'. release_tick demo_storage demo_codec ''/d'' (5, demo_response\<lparr>resp_level := Red, urgency := Fin 0\<rparr>)
       (release_controller_new 30, scan_existing demo_codec full_world (fst demo_pool), full_world) = (c', mw') \<and>
     length (bm_inventory (fst mw')) \<le> 3"
proof -
  let ?mw = "(scan_existing demo_codec full_world (fst demo_pool), full_world)"
  let ?x = "(5, demo_response\<lparr>resp_level := Red, urgency := Fin 0\<rparr>)"
  obtain c' mw' where r: "release_tick demo_storage demo_codec ''/d'' ?x (release_controller_new 30, ?mw) = (c', mw')"
    by (metis prod.exhaust)
  have f: "fresh demo_codec ?mw" using demo_fits(4) by (simp add: fresh_def)
  have l: "length (bm_inventory (fst ?mw)) = 3"
    using arg_cong [OF fresh_indices [OF f], of length] full_present by simp
  have t: "unat (release_target (snd ?x) (file_count (bm_config (fst ?mw)))) \<le> 3"
    by (simp add: demo_response_def release_target_def urgency_recommendation_def demo_pool_def demo_config_def max_def)
  show ?thesis
    using release_never_overshoots [OF f, of "[?x]" 3 demo_storage "''/d''" "release_controller_new 30" c' mw'] r l t
    by (simp add: demo_pool_def demo_config_def)
qed

subsection \<open>The replenishment gate\<close>

datatype mount_event = Tick instant pressure_level usize usize | ReleasedAt instant | ReplenishedAt instant

fun controller_step :: "path \<times> mount_event \<Rightarrow> release_controller \<Rightarrow> release_controller" where
  "controller_step (p, Tick now level current target) c = fst (is_ready_for_replenish now p level current target c)"
| "controller_step (p, ReleasedAt now) c = on_released now p c"
| "controller_step (p, ReplenishedAt now) c = on_replenished now p c"

definition controller_run :: "u64 \<Rightarrow> (path \<times> mount_event) list \<Rightarrow> release_controller" where
  "controller_run minutes es = fold controller_step es (release_controller_new minutes)"

lemma mount_state_set [simp]:
  "mount_state (set_mount_state q s c) p = (if path_eq p q then s else mount_state c p)"
  by (simp add: mount_state_def set_mount_state_def path_eq_def)

lemma path_eq_refl [simp]: "path_eq p p"
  by (simp add: path_eq_def)

lemma mount_state_eq: "path_eq p q \<Longrightarrow> mount_state c q = mount_state c p"
  by (simp add: mount_state_def path_eq_def)

lemma mount_state_new [simp]: "mount_state (release_controller_new m) p = mount_state_default"
  by (simp add: mount_state_def release_controller_new_def)

lemma set_keeps [simp]: "replenish_cooldown (set_mount_state q s c) = replenish_cooldown c"
  "replenish_interval (set_mount_state q s c) = replenish_interval c"
  by (simp_all add: set_mount_state_def)

lemma step_keeps: "replenish_cooldown (controller_step e c) = replenish_cooldown c"
  "replenish_interval (controller_step e c) = replenish_interval c"
proof -
  obtain q x where e: "e = (q, x)" by fastforce
  show "replenish_cooldown (controller_step e c) = replenish_cooldown c"
    "replenish_interval (controller_step e c) = replenish_interval c"
    by (cases x; simp add: e is_ready_for_replenish_def on_released_def on_replenished_def Let_def split: option.splits)+
qed

lemma run_snoc: "controller_run m (es @ [e]) = controller_step e (controller_run m es)"
  by (simp add: controller_run_def)

lemma controller_run_Nil [simp]: "controller_run m [] = release_controller_new m"
  by (simp add: controller_run_def)

lemma run_keeps: "replenish_cooldown (controller_run m es) = secs (unat (m * 60))"
  "replenish_interval (controller_run m es) = secs 300"
  by (induction es rule: rev_induct) (auto simp: run_snoc step_keeps release_controller_new_def)

text \<open>What the history says: unquiet ticks of a mount, releases on it, its last replenishment.\<close>

definition unquiet :: "path \<Rightarrow> (path \<times> mount_event) list \<Rightarrow> nat" where
  "unquiet p es = length (filter (\<lambda>(q, e). path_eq p q \<and> (case e of Tick _ l _ _ \<Rightarrow> l \<noteq> Green | _ \<Rightarrow> False)) es)"

definition released_in :: "path \<Rightarrow> (path \<times> mount_event) list \<Rightarrow> bool" where
  "released_in p es = list_ex (\<lambda>(q, e). path_eq p q \<and> (case e of ReleasedAt _ \<Rightarrow> True | _ \<Rightarrow> False)) es"

definition quiet_since :: "path \<Rightarrow> instant \<Rightarrow> (path \<times> mount_event) list \<Rightarrow> nat \<Rightarrow> bool" where
  "quiet_since p g es n = (\<exists>pre q cur tgt suf. es = pre @ (q, Tick g Green cur tgt) # suf \<and> path_eq p q \<and>
     \<not> released_in p suf \<and> unquiet p suf \<le> n)"

lemma unquiet_snoc [simp]: "unquiet p (es @ [(q, e)]) =
    unquiet p es + of_bool (path_eq p q \<and> (case e of Tick _ l _ _ \<Rightarrow> l \<noteq> Green | _ \<Rightarrow> False))"
  by (simp add: unquiet_def)

lemma released_snoc [simp]: "released_in p (es @ [(q, e)]) \<longleftrightarrow>
    released_in p es \<or> (path_eq p q \<and> (case e of ReleasedAt _ \<Rightarrow> True | _ \<Rightarrow> False))"
  by (auto simp: released_in_def)

lemma quiet_since_snoc:
  assumes "quiet_since p g es n" "\<not> (path_eq p q \<and> (case e of ReleasedAt _ \<Rightarrow> True | _ \<Rightarrow> False))"
  shows "quiet_since p g (es @ [(q, e)]) (n + of_bool (path_eq p q \<and> (case e of Tick _ l _ _ \<Rightarrow> l \<noteq> Green | _ \<Rightarrow> False)))"
proof -
  obtain pre r cur tgt suf where "es = pre @ (r, Tick g Green cur tgt) # suf" "path_eq p r"
    "\<not> released_in p suf" "unquiet p suf \<le> n" using assms(1) unfolding quiet_since_def by blast
  then show ?thesis using assms(2) unfolding quiet_since_def
    by (intro exI [of _ pre] exI [of _ r] exI [of _ cur] exI [of _ tgt] exI [of _ "suf @ [(q, e)]"]) simp
qed

lemma quiet_since_start: "path_eq p q \<Longrightarrow> quiet_since p g (es @ [(q, Tick g Green cur tgt)]) n"
  unfolding quiet_since_def by (intro exI [of _ es] exI [of _ q] exI [of _ cur] exI [of _ tgt] exI [of _ "[]"])
    (simp add: released_in_def unquiet_def)

lemma quiet_since_mono: "quiet_since p g es n \<Longrightarrow> n \<le> k \<Longrightarrow> quiet_since p g es k"
  unfolding quiet_since_def by (elim exE conjE, intro exI conjI) auto

fun last_replenish :: "path \<Rightarrow> (path \<times> mount_event) list \<Rightarrow> instant option" where
  "last_replenish p [] = None"
| "last_replenish p ((q, e) # es) = (case last_replenish p es of Some t \<Rightarrow> Some t
     | None \<Rightarrow> (case e of ReplenishedAt t \<Rightarrow> if path_eq p q then Some t else None | _ \<Rightarrow> None))"

lemma last_replenish_snoc [simp]: "last_replenish p (es @ [(q, e)]) =
    (case e of ReplenishedAt t \<Rightarrow> if path_eq p q then Some t else last_replenish p es | _ \<Rightarrow> last_replenish p es)"
  by (induction es) (auto split: mount_event.splits option.splits)

text \<open>What the state of a mount knows of the history: the green timer is the time of a green tick
  with no release after it, and the interruption counter bounds the unquiet ticks since.\<close>

definition gate_ok :: "path \<Rightarrow> (path \<times> mount_event) list \<Rightarrow> mount_release_state \<Rightarrow> bool" where
  "gate_ok p es s = (non_green_interruptions s \<le> 3 \<and> last_replenish_time s = last_replenish p es \<and>
     (case green_since s of None \<Rightarrow> True | Some g \<Rightarrow> quiet_since p g es (unat (non_green_interruptions s))))"

lemma gate_tick:
  assumes "gate_ok p es (mount_state c p)"
  shows "gate_ok p (es @ [(q, Tick now l cur tgt)]) (mount_state (fst (is_ready_for_replenish now q l cur tgt c)) p)"
proof (cases "path_eq p q")
  case False
  then show ?thesis using assms quiet_since_snoc [of p _ es _ q "Tick now l cur tgt"]
    by (auto simp: is_ready_for_replenish_def Let_def gate_ok_def split: option.splits)
next
  case True
  let ?s = "mount_state c p"
  have q: "mount_state c q = ?s" by (rule mount_state_eq [OF True])
  show ?thesis
  proof (cases "l = Green")
    case green: True
    have keep: "quiet_since p g (es @ [(q, Tick now Green cur tgt)]) n" if "quiet_since p g es n" for g n
      using quiet_since_snoc [OF that, of q "Tick now Green cur tgt"] by simp
    show ?thesis using assms keep quiet_since_start [OF True, of now es cur tgt] green True
      by (auto simp: is_ready_for_replenish_def Let_def gate_ok_def q split: option.splits)
  next
    case busy: False
    have keep: "quiet_since p g (es @ [(q, Tick now l cur tgt)]) (Suc n)" if "quiet_since p g es n" for g n
      using quiet_since_snoc [OF that, of q "Tick now l cur tgt"] busy True by simp
    have suc: "unat (x + 1) = Suc (unat x)" if "x \<le> 3" for x :: u32
      using that by (intro unat_Suc_below [of _ 4]) (simp add: word_le_nat_alt word_less_nat_alt)
    show ?thesis using assms keep busy True suc
      by (auto simp: is_ready_for_replenish_def Let_def gate_ok_def q not_less split: option.splits)
  qed
qed

lemma gate_invariant: "gate_ok p es (mount_state (controller_run minutes es) p)"
proof (induction es rule: rev_induct)
  case Nil
  then show ?case by (simp add: gate_ok_def mount_state_default_def)
next
  case (snoc x es)
  obtain q e where x: "x = (q, e)" by fastforce
  show ?case
  proof (cases e)
    case (Tick now l cur tgt)
    then show ?thesis using gate_tick [OF snoc] by (simp add: x run_snoc)
  next
    case (ReleasedAt t)
    then show ?thesis using snoc quiet_since_snoc [of p _ es _ q e] mount_state_eq [of p q "controller_run minutes es"]
      by (cases "path_eq p q") (auto simp: x run_snoc on_released_def gate_ok_def split: option.splits)
  next
    case (ReplenishedAt t)
    then show ?thesis using snoc quiet_since_snoc [of p _ es _ q e] mount_state_eq [of p q "controller_run minutes es"]
      by (cases "path_eq p q") (auto simp: x run_snoc on_replenished_def gate_ok_def split: option.splits)
  qed
qed

text \<open>Whatever happened before, on this mount and on others, a file is put back only at
  a green tick when one is missing, at least the cooldown after a green tick since which nothing was
  released on this mount and at most three ticks were not green, and five minutes or more
  after the last file was put back.\<close>

lemma replenish_gated:
  assumes "snd (is_ready_for_replenish now p level current target (controller_run minutes es))"
  shows "level = Green \<and> current < target \<and>
    (\<exists>g. secs (unat (minutes * 60)) \<le> elapsed now g \<and>
       quiet_since p g (es @ [(p, Tick now level current target)]) 3) \<and>
    (\<forall>t. last_replenish p es = Some t \<longrightarrow> secs 300 \<le> elapsed now t)"
proof -
  let ?c = "controller_run minutes es" and ?h = "es @ [(p, Tick now level current target)]"
  note inv = gate_invariant [of p es minutes]
  have green: "level = Green" "current < target"
    using assms by (auto simp: is_ready_for_replenish_def Let_def split: if_splits)
  let ?g = "case green_since (mount_state ?c p) of Some t \<Rightarrow> t | None \<Rightarrow> now"
  have cool: "secs (unat (minutes * 60)) \<le> elapsed now ?g"
    using assms green by (simp add: is_ready_for_replenish_def Let_def run_keeps split: if_splits)
  have n: "unat (non_green_interruptions (mount_state ?c p)) \<le> 3"
    using inv by (simp add: gate_ok_def word_le_nat_alt)
  have "quiet_since p ?g ?h 3"
  proof (cases "green_since (mount_state ?c p)")
    case None
    then show ?thesis using quiet_since_start [of p p now es current target 3] green by simp
  next
    case (Some g)
    then have "quiet_since p g es 3" using inv n by (auto simp: gate_ok_def intro: quiet_since_mono)
    then show ?thesis using quiet_since_snoc [of p g es 3 p "Tick now level current target"] Some green by simp
  qed
  moreover have "secs 300 \<le> elapsed now t" if "last_replenish p es = Some t" for t
  proof -
    have "last_replenish_time (mount_state ?c p) = Some t" using inv that by (simp add: gate_ok_def)
    then show ?thesis
      using assms green by (auto simp: is_ready_for_replenish_def Let_def run_keeps split: if_splits)
  qed
  ultimately show ?thesis using green cool by blast
qed

text \<open>The counter of interruptions is not cleared by a release: after three unquiet ticks and a
  release, a single unquiet tick ends the next green period, although it is the first since that
  period began.\<close>

lemma interruptions_survive_release:
  "green_since (mount_state (controller_run 30 ([(''/d'', Tick 0 Green 5 5)] @
     replicate 3 (''/d'', Tick 1 Yellow 5 5) @ [(''/d'', ReleasedAt 2), (''/d'', Tick 3 Green 4 5)])) ''/d'') = Some 3 \<and>
   green_since (mount_state (controller_run 30 ([(''/d'', Tick 0 Green 5 5)] @
     replicate 3 (''/d'', Tick 1 Yellow 5 5) @ [(''/d'', ReleasedAt 2), (''/d'', Tick 3 Green 4 5),
       (''/d'', Tick 4 Yellow 4 5)])) ''/d'') = None"
proof -
  have c: "replenish_cooldown (release_controller_new 30) = 1800000000000"
    by (simp add: release_controller_new_def secs_def)
  have r: "replicate 3 x = [x, x, x]" for x :: "path \<times> mount_event" by (simp add: eval_nat_numeral)
  show ?thesis unfolding r controller_run_def
    by (simp add: is_ready_for_replenish_def on_released_def Let_def mount_state_default_def c elapsed_def)
qed

end
