(* ===== verification/Pipeline.thy ===== *)
theory Pipeline
  imports Score_Range Policy_Modes Ballast_Release
begin

section \<open>From pressure to deletion\<close>

text \<open>
  Properties that span components: the scorer feeds the policy engine, and the pressure controller's
  response feeds the ballast release controller. Nothing is modelled here; the theory composes
  the definitions of the other theories the way the daemon's loop does.
\<close>

subsection \<open>What reaches the deletion executor\<close>

lemma score_batch_set: "c \<in> set (score_batch fexp fln e inputs u) \<Longrightarrow> \<exists>i \<in> set inputs. c = score_inner fexp fln e i u []"
proof -
  have "set (score_batch fexp fln e inputs u) = (\<lambda>i. score_candidate fexp fln e i u) ` set inputs"
    unfolding score_batch_def using rank_sort_mset by (metis list.set_map set_mset_mset)
  then show "c \<in> set (score_batch fexp fln e inputs u) \<Longrightarrow> ?thesis" by (auto simp: score_candidate_def)
qed

text \<open>When the scored batch goes through the policy engine, every candidate
  it approves is the score of an input that nothing protects, and whose posterior and losses
  carry the deletion; the engine then is in Canary or Enforce with the kill switch off.\<close>

lemma approved_deletions_justified:
  assumes "evaluate now clk stamp (score_batch fexp fln e inputs u) guard p = (q, d)"
    and "c \<in> set (approved_for_deletion d)"
  shows "pe_mode q \<in> {Canary, Enforce} \<and> \<not> kill_switch (pe_config p) \<and>
    (\<exists>i \<in> set inputs. c = score_candidate fexp fln e i u \<and>
      \<not> has_git_component (in_path i) \<and> \<not> has_git (signals i) \<and> \<not> is_system_path (in_path i) \<and>
      \<not> excluded i \<and> min_file_age e \<le> in_age i \<and> references_is_empty (active_refs i) \<and> \<not> is_open i \<and>
      \<not> total_score c < min_score e \<and> lit (60/100) \<le> posterior_abandoned (decision c) \<and>
      expected_loss_delete (decision c) < expected_loss_keep (decision c))"
proof -
  note eff = evaluate_effects [OF assms(1)]
  have c: "c \<in> set (score_batch fexp fln e inputs u)" "out_action (decision c) = Delete" using eff assms(2) by blast+
  obtain i where i: "i \<in> set inputs" "c = score_inner fexp fln e i u []" using score_batch_set [OF c(1)] by blast
  have "approved_for_deletion d \<noteq> []" using assms(2) by auto
  with eff have "pe_mode q \<in> {Canary, Enforce} \<and> \<not> kill_switch (pe_config p)" by blast
  with delete_needs [OF c(2) i(2)] i show ?thesis unfolding score_candidate_def by blast
qed

lemma enforce_single:
  assumes "pe_mode p = Enforce" "\<not> kill_switch (pe_config p)" "0 < max_candidates_per_loop (pe_config p)"
    "out_action (decision c) = Delete"
  shows "approved_for_deletion (snd (evaluate now clk stamp [c] None p)) = [c]"
proof -
  have e: "eval_entry now None p = p" using assms(2) by (simp add: eval_entry_def)
  have enf: "enforce_policy (clk 0) c None p = (p, Delete)"
    using assms by (simp add: enforce_policy_def allows_deletion_def guard_rejects_def)
  have "approved_for_deletion (snd (eval_candidate (clk 0) (stamp 0) pm None c (p, empty_decision))) = [c]" for pm
    using assms(4) by (simp add: eval_candidate_def enf Let_def count_action_def empty_decision_def split: prod.splits)
  moreover have "0 < min (unat (max_candidates_per_loop (pe_config p))) (Suc 0)"
    using assms(3) by (simp add: word_less_nat_alt)
  ultimately show ?thesis by (simp add: evaluate_def e Let_def split_def)
qed

end
