(* ===== verification/Voi.thy ===== *)
theory Voi
  imports F64 Paths Ranking "HOL-Library.List_Lexorder"
begin

section \<open>The value-of-information scan scheduler (src/src/monitor/voi_scheduler.rs)\<close>

text \<open>
  The scheduler divides a scan budget between the paths with the highest expected yield and the
  least scanned ones, and falls back to a round robin when its forecasts are bad. Paths are compared
  component by component, as \<open>PathBuf\<close> does, so a key is a list of components. The statistics
  are a map; the order in which the hash map yields its keys is an argument of the scheduling
  operation, and every theorem holds for each such order. Clock readings are arguments.
\<close>

type_synonym path_key = "component list"

subsection \<open>Configuration (src/src/core/config.rs)\<close>

record voi_config =
  voi_enabled :: bool
  scan_budget_per_interval :: usize
  exploration_quota_fraction :: f64
  io_cost_weight :: f64
  fp_risk_weight :: f64
  exploration_weight :: f64
  forecast_error_threshold :: f64
  fallback_trigger_windows :: u32
  recovery_trigger_windows :: u32
  min_observations_for_forecast :: u32
  ewma_alpha :: f64

definition voi_config_default :: voi_config where
  "voi_config_default = \<lparr>voi_enabled = True, scan_budget_per_interval = 5,
     exploration_quota_fraction = lit (20/100), io_cost_weight = lit (1/10), fp_risk_weight = lit (15/100),
     exploration_weight = lit (25/100), forecast_error_threshold = lit (5/10),
     fallback_trigger_windows = 3, recovery_trigger_windows = 5, min_observations_for_forecast = 3,
     ewma_alpha = lit (3/10)\<rparr>"

subsection \<open>Statistics of a path\<close>

record path_stats =
  total_reclaimed_bytes :: u64
  scan_count :: u32
  total_items_deleted :: u32
  false_positive_count :: u32
  last_scanned :: "instant option"
  ewma_reclaim_per_scan :: f64
  ewma_io_cost_per_scan :: f64
  forecast_reclaim :: f64
  last_pre_scan_forecast :: f64
  last_actual_reclaim :: u64

definition path_stats_new :: path_stats where
  "path_stats_new = \<lparr>total_reclaimed_bytes = 0, scan_count = 0, total_items_deleted = 0,
     false_positive_count = 0, last_scanned = None, ewma_reclaim_per_scan = 0,
     ewma_io_cost_per_scan = lit 1000, forecast_reclaim = 0, last_pre_scan_forecast = 0,
     last_actual_reclaim = 0\<rparr>"

definition voi_ewma :: "f64 \<Rightarrow> f64 \<Rightarrow> f64 \<Rightarrow> f64" where
  "voi_ewma alpha prev current = f_mul_add (current - prev) alpha prev"

definition record_scan :: "u64 \<Rightarrow> u32 \<Rightarrow> u32 \<Rightarrow> f64 \<Rightarrow> instant \<Rightarrow> f64 \<Rightarrow> path_stats \<Rightarrow> path_stats" where
  "record_scan reclaimed items fps io_cost now alpha s =
     (let reclaim = voi_ewma alpha (ewma_reclaim_per_scan s) (f_of_word reclaimed) in
      s\<lparr>total_reclaimed_bytes := sat_add (total_reclaimed_bytes s) reclaimed,
        total_items_deleted := sat_add (total_items_deleted s) items,
        false_positive_count := sat_add (false_positive_count s) fps,
        scan_count := sat_add (scan_count s) 1,
        last_scanned := Some now,
        last_actual_reclaim := reclaimed,
        last_pre_scan_forecast := forecast_reclaim s,
        ewma_reclaim_per_scan := reclaim,
        ewma_io_cost_per_scan := voi_ewma alpha (ewma_io_cost_per_scan s) io_cost,
        forecast_reclaim := reclaim\<rparr>)"

definition forecast_error :: "path_stats \<Rightarrow> f64 option" where
  "forecast_error s =
     (if scan_count s < 2 then None
      else let actual = f_of_word (last_actual_reclaim s); forecast = last_pre_scan_forecast s in
        if \<not> f_is_finite actual \<or> \<not> f_is_finite forecast then None
        else if f_abs actual < lit 1 \<and> f_abs forecast < lit 1 then Some 0
        else let denominator = f_max (f_max (f_abs actual) (f_abs forecast)) (lit 1)
             in Some (f_abs (actual - forecast) / denominator))"

definition staleness :: "instant \<Rightarrow> path_stats \<Rightarrow> f64" where
  "staleness now s = (case last_scanned s of None \<Rightarrow> FInf False | Some t \<Rightarrow> as_secs_f64 (elapsed now t))"

definition fp_rate :: "path_stats \<Rightarrow> f64" where
  "fp_rate s = (if scan_count s = 0 then 0 else f_of_word (false_positive_count s) / f_of_word (scan_count s))"

subsection \<open>The scan plan\<close>

record scan_plan_entry =
  entry_path :: path_key
  entry_utility :: f64
  is_exploration :: bool
  forecast_reclaim_bytes :: f64

record scan_plan =
  plan_paths :: "scan_plan_entry list"
  plan_fallback_active :: bool
  budget_used :: nat
  budget_total :: usize

subsection \<open>Calibration\<close>

record calibration_state =
  consecutive_bad_windows :: u32
  consecutive_good_windows :: u32
  cal_fallback_active :: bool
  window_mapes :: "f64 list"

definition calibration_new :: calibration_state where
  "calibration_new = \<lparr>consecutive_bad_windows = 0, consecutive_good_windows = 0,
     cal_fallback_active = False, window_mapes = []\<rparr>"

definition record_window :: "voi_config \<Rightarrow> f64 \<Rightarrow> calibration_state \<Rightarrow> calibration_state" where
  "record_window cfg mape c0 =
     (let c = c0\<lparr>window_mapes := window_push 50 mape (window_mapes c0)\<rparr> in
      if forecast_error_threshold cfg < mape then
        let bad = sat_add (consecutive_bad_windows c) 1;
            c1 = c\<lparr>consecutive_bad_windows := bad, consecutive_good_windows := 0\<rparr>
        in if fallback_trigger_windows cfg \<le> bad then c1\<lparr>cal_fallback_active := True\<rparr> else c1
      else
        let good = sat_add (consecutive_good_windows c) 1;
            c1 = c\<lparr>consecutive_good_windows := good, consecutive_bad_windows := 0\<rparr>
        in if cal_fallback_active c1 \<and> recovery_trigger_windows cfg \<le> good
           then c1\<lparr>cal_fallback_active := False\<rparr> else c1)"

subsection \<open>The scheduler\<close>

record voi_scheduler =
  voi_conf :: voi_config
  voi_stats :: "path_key \<Rightarrow> path_stats option"
  voi_calibration :: calibration_state
  pending_errors :: "f64 list"
  rr_cursor :: usize

definition voi_new :: "voi_config \<Rightarrow> voi_scheduler" where
  "voi_new cfg = \<lparr>voi_conf = cfg, voi_stats = Map.empty, voi_calibration = calibration_new,
     pending_errors = [], rr_cursor = 0\<rparr>"

definition register_path :: "path_key \<Rightarrow> voi_scheduler \<Rightarrow> voi_scheduler" where
  "register_path p s = (case voi_stats s p of
     Some _ \<Rightarrow> s | None \<Rightarrow> s\<lparr>voi_stats := (voi_stats s)(p \<mapsto> path_stats_new)\<rparr>)"

definition voi_update_config :: "voi_config \<Rightarrow> voi_scheduler \<Rightarrow> voi_scheduler" where
  "voi_update_config cfg s = s\<lparr>voi_conf := cfg\<rparr>"

definition record_scan_result ::
  "path_key \<Rightarrow> u64 \<Rightarrow> u32 \<Rightarrow> u32 \<Rightarrow> f64 \<Rightarrow> instant \<Rightarrow> voi_scheduler \<Rightarrow> voi_scheduler" where
  "record_scan_result p reclaimed items fps io_cost now s =
     (case voi_stats s p of None \<Rightarrow> s
      | Some st0 \<Rightarrow>
        let st = record_scan reclaimed items fps io_cost now (ewma_alpha (voi_conf s)) st0;
            s1 = s\<lparr>voi_stats := (voi_stats s)(p \<mapsto> st)\<rparr>
        in if min_observations_for_forecast (voi_conf s) \<le> scan_count st
           then (case forecast_error st of None \<Rightarrow> s1
                 | Some e \<Rightarrow> s1\<lparr>pending_errors := pending_errors s1 @ [e]\<rparr>)
           else s1)"

definition end_window :: "voi_scheduler \<Rightarrow> voi_scheduler" where
  "end_window s =
     (if pending_errors s = [] then s
      else let mape = foldl (+) 0 (pending_errors s) / f_of_nat (length (pending_errors s)) in
        s\<lparr>voi_calibration := record_window (voi_conf s) mape (voi_calibration s), pending_errors := []\<rparr>)"

definition is_fallback_active :: "voi_scheduler \<Rightarrow> bool" where
  "is_fallback_active s = (\<not> voi_enabled (voi_conf s) \<or> cal_fallback_active (voi_calibration s))"

definition compute_utility :: "voi_scheduler \<Rightarrow> instant \<Rightarrow> path_key \<Rightarrow> f64" where
  "compute_utility s now p = (case voi_stats s p of None \<Rightarrow> 0
   | Some st \<Rightarrow>
     let cfg = voi_conf s;
         expected_reclaim = ewma_reclaim_per_scan st;
         observation_ratio = f_min (f_of_word (scan_count st) / f_of_word (min_observations_for_forecast cfg)) (lit 1);
         uncertainty_discount = f_mul_add (lit (5/10)) observation_ratio (lit (5/10));
         io_penalty = ewma_io_cost_per_scan st * io_cost_weight cfg;
         fp_penalty = fp_rate st * expected_reclaim * fp_risk_weight cfg;
         staleness_hours = staleness now st / lit 3600;
         exploration_bonus = exploration_weight cfg * f_min staleness_hours (lit 24) *
           (lit 1 / (f_of_word (scan_count st) + lit 1));
         utility = f_mul_add expected_reclaim uncertainty_discount (- io_penalty) - fp_penalty + exploration_bonus
     in f_max utility 0)"

definition path_forecast :: "voi_scheduler \<Rightarrow> path_key \<Rightarrow> f64" where
  "path_forecast s p = (case voi_stats s p of None \<Rightarrow> 0 | Some st \<Rightarrow> forecast_reclaim st)"

definition plan_entry :: "voi_scheduler \<Rightarrow> f64 \<Rightarrow> bool \<Rightarrow> path_key \<Rightarrow> scan_plan_entry" where
  "plan_entry s u e p = \<lparr>entry_path = p, entry_utility = u, is_exploration = e,
     forecast_reclaim_bytes = path_forecast s p\<rparr>"

text \<open>The loop's index is \<open>rr_cursor + i\<close>, which wraps at the width of \<open>usize\<close>.\<close>

definition schedule_round_robin :: "path_key list \<Rightarrow> usize \<Rightarrow> voi_scheduler \<Rightarrow> voi_scheduler \<times> scan_plan" where
  "schedule_round_robin paths budget s =
     (let sorted_paths = sort paths;
          n = length sorted_paths;
          count = min (unat budget) n;
          entries = map (\<lambda>i. plan_entry s 0 False (sorted_paths ! (unat (rr_cursor s + of_nat i) mod n))) [0..<count]
      in (s\<lparr>rr_cursor := of_nat (unat (rr_cursor s + of_nat count) mod max n 1)\<rparr>,
          \<lparr>plan_paths = entries, plan_fallback_active = True, budget_used = count, budget_total = budget\<rparr>))"

definition exploration_budget :: "voi_config \<Rightarrow> usize \<Rightarrow> usize" where
  "exploration_budget cfg budget =
     min (f_to_usize (f_ceil (f_of_word budget * exploration_quota_fraction cfg))) (sat_sub budget 1)"

definition utility_before :: "path_key \<times> f64 \<Rightarrow> path_key \<times> f64 \<Rightarrow> bool" where
  "utility_before a b =
     (if snd b < snd a then True else if snd a < snd b then False else fst a < fst b)"

definition explore_before :: "path_key \<times> u32 \<times> f64 \<Rightarrow> path_key \<times> u32 \<times> f64 \<Rightarrow> bool" where
  "explore_before a b = (case (a, b) of ((_, n, t), (_, m, u)) \<Rightarrow> n < m \<or> (n = m \<and> u < t))"

definition exploration_candidate :: "voi_scheduler \<Rightarrow> instant \<Rightarrow> path_key \<Rightarrow> path_key \<times> u32 \<times> f64" where
  "exploration_candidate s now p = (p, case voi_stats s p of None \<Rightarrow> (0, FInf False)
     | Some st \<Rightarrow> (scan_count st, staleness now st))"

definition schedule_voi :: "path_key list \<Rightarrow> usize \<Rightarrow> instant \<Rightarrow> voi_scheduler \<Rightarrow> scan_plan" where
  "schedule_voi paths budget now s =
     (let explore = exploration_budget (voi_conf s) budget;
          exploit = sat_sub budget explore;
          scored = sort_by utility_before (map (\<lambda>p. (p, compute_utility s now p)) paths);
          top = take (unat exploit) scored;
          candidates = map (exploration_candidate s now) (filter (\<lambda>p. p \<notin> fst ` set top) paths);
          picks = take (unat explore) (sort_by explore_before candidates);
          selected = map (\<lambda>(p, u). plan_entry s u False p) top @
                     map (\<lambda>(p, _). plan_entry s (compute_utility s now p) True p) picks
      in \<lparr>plan_paths = selected, plan_fallback_active = False, budget_used = length selected,
          budget_total = budget\<rparr>)"

definition schedule :: "path_key list \<Rightarrow> instant \<Rightarrow> voi_scheduler \<Rightarrow> voi_scheduler \<times> scan_plan" where
  "schedule ks now s =
     (let budget = scan_budget_per_interval (voi_conf s) in
      if ks = [] \<or> budget = 0
      then (s, \<lparr>plan_paths = [], plan_fallback_active = is_fallback_active s, budget_used = 0, budget_total = budget\<rparr>)
      else if is_fallback_active s then schedule_round_robin ks budget s
      else (s, schedule_voi ks budget now s))"

record calibration_summary =
  sum_fallback_active :: bool
  sum_bad_windows :: u32
  sum_good_windows :: u32
  recent_mapes :: "f64 list"
  total_paths_tracked :: nat

definition calibration_summary_of :: "voi_scheduler \<Rightarrow> calibration_summary" where
  "calibration_summary_of s = (let c = voi_calibration s in
     \<lparr>sum_fallback_active = cal_fallback_active c, sum_bad_windows = consecutive_bad_windows c,
      sum_good_windows = consecutive_good_windows c, recent_mapes = window_mapes c,
      total_paths_tracked = card (dom (voi_stats s))\<rparr>)"

end
