(* ===== verification/Voi_Run.thy ===== *)
theory Voi_Run
  imports Voi "HOL-Library.Sublist"
begin

section \<open>What the scan scheduler guarantees\<close>

text \<open>
  The plan fits the budget and names distinct tracked paths; outside the fallback it holds the
  paths of the highest utility and the least scanned of the others; in the fallback the round robin
  reaches every path; and the fallback is a function of the history of forecast errors.
\<close>

subsection \<open>The rankings\<close>

lemma utility_number [simp]: "compute_utility s now p \<noteq> FNaN"
  by (simp add: compute_utility_def f_max_not_nan Let_def split: option.split)

lemma as_secs_f64_number [simp]: "as_secs_f64 d \<noteq> FNaN"
proof -
  have n: "Fin 0 \<le> f_of_nat (d div 1000000000)" by (rule f_of_nat_nonneg)
  have "f_of_nat (d mod 1000000000) = Fin (of_nat (d mod 1000000000))" by (rule f_of_nat_small) simp
  then have "f_of_nat (d mod 1000000000) / lit 1000000000 = rnd (of_nat (d mod 1000000000) / 1000000000)"
    by (simp add: fin_ops)
  then obtain x where x: "f_of_nat (d mod 1000000000) / lit 1000000000 = rnd x" "0 \<le> x"
    by (metis divide_nonneg_nonneg of_nat_0_le_iff zero_le_numeral)
  then have x0: "rnd x \<noteq> FInf True" using rnd_nonneg [of x] by auto
  show ?thesis
  proof (cases "f_of_nat (d div 1000000000)")
    case FNaN then show ?thesis using n by simp
  next
    case (FInf b)
    then show ?thesis using n x x0 by (cases "rnd x") (auto simp: as_secs_f64_def f_defs)
  next
    case (Fin q)
    then show ?thesis using x by (cases "rnd x") (auto simp: as_secs_f64_def f_defs)
  qed
qed

lemma staleness_number [simp]: "staleness now st \<noteq> FNaN"
  by (simp add: staleness_def split: option.split)

interpretation ub: ranking utility_before "\<lambda>x. snd x \<noteq> FNaN"
proof
  fix a b c :: "path_key \<times> f64"
  show "utility_before a b \<Longrightarrow> \<not> utility_before b a"
    by (auto simp: utility_before_def dest: f_less_asym split: if_splits)
  assume n: "snd a \<noteq> FNaN" "snd b \<noteq> FNaN" "snd c \<noteq> FNaN"
  assume "\<not> utility_before b a" "\<not> utility_before c b"
  then have le: "snd b \<le> snd a" "snd c \<le> snd b" and p: "snd a = snd b \<Longrightarrow> fst a \<le> fst b" "snd b = snd c \<Longrightarrow> fst b \<le> fst c"
    using n by (auto simp: utility_before_def f_not_less not_less split: if_splits)
  have "snd c \<le> snd a" using le f_le_trans by blast
  moreover have "fst a \<le> fst c" if "snd a \<le> snd c"
  proof -
    have "snd a = snd b" "snd b = snd c" using le that f_le_trans f_antisym by blast+
    then show ?thesis using p order.trans by blast
  qed
  ultimately show "\<not> utility_before c a"
    using n by (auto simp: utility_before_def f_not_less not_less)
qed

interpretation eb: ranking explore_before "\<lambda>x. snd (snd x) \<noteq> FNaN"
proof
  fix a b c :: "path_key \<times> u32 \<times> f64"
  show "explore_before a b \<Longrightarrow> \<not> explore_before b a"
    by (auto simp: explore_before_def dest: f_less_asym split: prod.splits)
  assume "snd (snd a) \<noteq> FNaN" "snd (snd b) \<noteq> FNaN" "snd (snd c) \<noteq> FNaN"
    "\<not> explore_before b a" "\<not> explore_before c b"
  then show "\<not> explore_before c a"
    by (auto simp: explore_before_def f_not_less split: prod.splits dest: f_le_trans)
qed

subsection \<open>The invariant\<close>

definition voi_inv :: "voi_scheduler \<Rightarrow> bool" where
  "voi_inv s = (unat (rr_cursor s) < 2 ^ 63 \<and>
     length (window_mapes (voi_calibration s)) \<le> 50 \<and>
     (consecutive_bad_windows (voi_calibration s) = 0 \<or> consecutive_good_windows (voi_calibration s) = 0))"

text \<open>The keys as the hash map yields them: each tracked path once, and no more than fit in memory.\<close>

definition enumerates :: "path_key list \<Rightarrow> voi_scheduler \<Rightarrow> bool" where
  "enumerates ks s = (distinct ks \<and> set ks = dom (voi_stats s) \<and> length ks < 2 ^ 63)"

inductive voi_step :: "voi_scheduler \<Rightarrow> voi_scheduler \<Rightarrow> bool" where
  voi_register: "voi_step s (register_path p s)"
| voi_config: "voi_step s (voi_update_config cfg s)"
| voi_record: "voi_step s (record_scan_result p b i f c now s)"
| voi_window: "voi_step s (end_window s)"
| voi_schedule: "enumerates ks s \<Longrightarrow> voi_step s (fst (schedule ks now s))"

inductive voi_reachable :: "voi_scheduler \<Rightarrow> bool" where
  voi_init: "voi_reachable (voi_new cfg)"
| voi_next: "voi_reachable s \<Longrightarrow> voi_step s t \<Longrightarrow> voi_reachable t"

lemma record_window_inv:
  "length (window_mapes c) \<le> 50 \<Longrightarrow> length (window_mapes (record_window cfg m c)) \<le> 50 \<and>
   (consecutive_bad_windows (record_window cfg m c) = 0 \<or> consecutive_good_windows (record_window cfg m c) = 0)"
  by (simp add: record_window_def Let_def)

lemma schedule_cursor:
  assumes "unat (rr_cursor s) < 2 ^ 63" "length ks < 2 ^ 63"
  shows "unat (rr_cursor (fst (schedule ks now s))) < 2 ^ 63"
proof -
  have "unat (of_nat (n mod max (length ks) 1) :: usize) < 2 ^ 63" for n
  proof -
    have "n mod max (length ks) 1 < max (length ks) 1" by simp
    also have "\<dots> < 2 ^ 63" using assms(2) by simp
    finally show ?thesis by (simp add: unat_of_nat_small)
  qed
  then show ?thesis using assms(1) by (simp add: schedule_def schedule_round_robin_def Let_def)
qed

lemma voi_step_inv: "voi_step s t \<Longrightarrow> voi_inv s \<Longrightarrow> voi_inv t"
proof (induction rule: voi_step.induct)
  case (voi_register s p)
  then show ?case by (simp add: voi_inv_def register_path_def split: option.split)
next
  case (voi_config s cfg)
  then show ?case by (simp add: voi_inv_def voi_update_config_def)
next
  case (voi_record s p b i f c now)
  then show ?case by (simp add: voi_inv_def record_scan_result_def Let_def split: option.split)
next
  case (voi_window s)
  then show ?case using record_window_inv by (simp add: voi_inv_def end_window_def Let_def)
next
  case (voi_schedule ks s now)
  have "voi_calibration (fst (schedule ks now s)) = voi_calibration s"
    by (simp add: schedule_def schedule_round_robin_def Let_def)
  then show ?case using voi_schedule schedule_cursor by (simp add: voi_inv_def enumerates_def)
qed

lemma voi_reachable_inv: "voi_reachable s \<Longrightarrow> voi_inv s"
  by (induction rule: voi_reachable.induct)
     (auto simp: voi_inv_def voi_new_def calibration_new_def dest: voi_step_inv [unfolded voi_inv_def])

subsection \<open>The round robin\<close>

lemma sort_enumerated: "distinct ks \<Longrightarrow> sort ks = sorted_list_of_set (set ks)"
  using sorted_list_of_set_sort_remdups [of ks] by (simp add: distinct_remdups_id)

abbreviation tracked_list :: "voi_scheduler \<Rightarrow> path_key list" where
  "tracked_list s \<equiv> sorted_list_of_set (dom (voi_stats s))"

lemma round_robin_unfold:
  assumes "enumerates ks s" "unat (rr_cursor s) < 2 ^ 63" "ks \<noteq> []"
  defines "n \<equiv> length ks"
  shows "map entry_path (plan_paths (snd (schedule_round_robin ks b s))) =
      map (\<lambda>i. tracked_list s ! ((unat (rr_cursor s) + i) mod n)) [0..<min (unat b) n]"
    and "unat (rr_cursor (fst (schedule_round_robin ks b s))) = (unat (rr_cursor s) + min (unat b) n) mod n"
proof -
  have s: "sort ks = tracked_list s" using assms(1) sort_enumerated by (metis enumerates_def)
  have n: "n < 2 ^ 63" "0 < n" using assms by (auto simp: enumerates_def)
  have u: "unat (rr_cursor s + of_nat i) = unat (rr_cursor s) + i" if "i \<le> n" for i
    using that n assms(2) by (simp add: unat_word_ariths unat_of_nat_small)
  have l: "card (dom (voi_stats s)) = n" using assms(1) unfolding n_def enumerates_def by (metis distinct_card)
  show "map entry_path (plan_paths (snd (schedule_round_robin ks b s))) =
      map (\<lambda>i. tracked_list s ! ((unat (rr_cursor s) + i) mod n)) [0..<min (unat b) n]"
    using u by (auto simp: schedule_round_robin_def Let_def plan_entry_def s l)
  have "unat (of_nat ((unat (rr_cursor s) + min (unat b) n) mod n) :: usize) = (unat (rr_cursor s) + min (unat b) n) mod n"
    using n by (intro unat_of_nat_small) (simp add: less_trans [OF mod_less_divisor])
  moreover have "unat (rr_cursor s + of_nat (min (unat b) n)) = unat (rr_cursor s) + min (unat b) n" by (rule u) simp
  ultimately show "unat (rr_cursor (fst (schedule_round_robin ks b s))) = (unat (rr_cursor s) + min (unat b) n) mod n"
    using n by (simp add: schedule_round_robin_def Let_def s l)
qed

lemma tracked_facts:
  assumes "enumerates ks s"
  shows "distinct (tracked_list s)" "set (tracked_list s) = dom (voi_stats s)" "length (tracked_list s) = length ks"
    "card (dom (voi_stats s)) = length ks" "finite (dom (voi_stats s))"
proof -
  show f: "finite (dom (voi_stats s))" using assms unfolding enumerates_def by (metis List.finite_set)
  show c: "card (dom (voi_stats s)) = length ks" using assms unfolding enumerates_def by (metis distinct_card)
  show "distinct (tracked_list s)" by simp
  show "set (tracked_list s) = dom (voi_stats s)" using f by simp
  show "length (tracked_list s) = length ks" using c by simp
qed

lemma mod_window_inj:
  fixes c i j n :: nat
  assumes "i < n" "j < n" "(c + i) mod n = (c + j) mod n"
  shows "i = j"
proof -
  have "i = j" if "i \<le> j" "i < n" "j < n" "(c + i) mod n = (c + j) mod n" for i j :: nat
  proof -
    have "n dvd (c + j) - (c + i)" using that mod_eq_dvd_iff_nat [of "c + i" "c + j" n] by simp
    then have "n dvd j - i" by simp
    then show ?thesis using that nat_dvd_not_less [of "j - i" n] by linarith
  qed
  then show ?thesis using assms nat_le_linear [of i j] by metis
qed

lemma round_robin_fits:
  fixes b :: usize
  assumes "enumerates ks s" "unat (rr_cursor s) < 2 ^ 63" "ks \<noteq> []"
  defines "ps \<equiv> map entry_path (plan_paths (snd (schedule_round_robin ks b s)))"
  shows "distinct ps" "set ps \<subseteq> dom (voi_stats s)" "length ps = min (unat b) (length ks)"
proof -
  note ps = round_robin_unfold(1) [OF assms(1-3), of b, folded ps_def]
  note k = tracked_facts [OF assms(1)]
  have n: "0 < length ks" using assms(3) by simp
  have lt: "(unat (rr_cursor s) + i) mod length ks < length ks" for i using n by simp
  have "inj_on (\<lambda>i. tracked_list s ! ((unat (rr_cursor s) + i) mod length ks)) (set [0..<min (unat b) (length ks)])"
  proof (rule inj_onI)
    fix i j assume "i \<in> set [0..<min (unat b) (length ks)]" "j \<in> set [0..<min (unat b) (length ks)]"
      "tracked_list s ! ((unat (rr_cursor s) + i) mod length ks) = tracked_list s ! ((unat (rr_cursor s) + j) mod length ks)"
    then show "i = j" using lt nth_eq_iff_index_eq [OF k(1)] mod_window_inj [of i "length ks" j] k(3) by simp
  qed
  then show "distinct ps" unfolding ps distinct_map by simp
  have "tracked_list s ! ((unat (rr_cursor s) + i) mod length ks) \<in> dom (voi_stats s)" for i
    using nth_mem lt k(2,3) by metis
  then show "set ps \<subseteq> dom (voi_stats s)" unfolding ps by auto
  show "length ps = min (unat b) (length ks)" unfolding ps by simp
qed

subsection \<open>The choice by utility\<close>

definition voi_top :: "path_key list \<Rightarrow> usize \<Rightarrow> instant \<Rightarrow> voi_scheduler \<Rightarrow> (path_key \<times> f64) list" where
  "voi_top ks b now s = take (unat (sat_sub b (exploration_budget (voi_conf s) b)))
     (sort_by utility_before (map (\<lambda>p. (p, compute_utility s now p)) ks))"

definition voi_left :: "path_key list \<Rightarrow> usize \<Rightarrow> instant \<Rightarrow> voi_scheduler \<Rightarrow> path_key list" where
  "voi_left ks b now s = filter (\<lambda>p. p \<notin> fst ` set (voi_top ks b now s)) ks"

definition voi_picks :: "path_key list \<Rightarrow> usize \<Rightarrow> instant \<Rightarrow> voi_scheduler \<Rightarrow> (path_key \<times> u32 \<times> f64) list" where
  "voi_picks ks b now s = take (unat (exploration_budget (voi_conf s) b))
     (sort_by explore_before (map (exploration_candidate s now) (voi_left ks b now s)))"

lemma schedule_voi_paths:
  "plan_paths (schedule_voi ks b now s) = map (\<lambda>(p, u). plan_entry s u False p) (voi_top ks b now s) @
     map (\<lambda>(p, _). plan_entry s (compute_utility s now p) True p) (voi_picks ks b now s)"
  by (simp add: schedule_voi_def voi_top_def voi_left_def voi_picks_def Let_def)

lemma split_budget:
  assumes "b \<noteq> 0"
  shows "unat (exploration_budget cfg b) < unat b"
    and "unat (sat_sub b (exploration_budget cfg b)) + unat (exploration_budget cfg b) = unat b"
proof -
  have "exploration_budget cfg b \<le> sat_sub b 1" by (simp add: exploration_budget_def)
  then have "unat (exploration_budget cfg b) \<le> unat b - 1" by (simp add: word_le_nat_alt)
  moreover have "0 < unat b" using assms by (simp add: unat_gt_0)
  ultimately show "unat (exploration_budget cfg b) < unat b"
    "unat (sat_sub b (exploration_budget cfg b)) + unat (exploration_budget cfg b) = unat b" by simp_all
qed

lemma sorted_keys:
  "mset (map fst (sort_by before (map (\<lambda>p. (p, f p)) ks))) = mset ks"
  by (simp add: mset_map multiset.map_comp comp_def)

lemma voi_top_facts:
  assumes "distinct ks"
  shows "distinct (map fst (voi_top ks b now s))" "fst ` set (voi_top ks b now s) \<subseteq> set ks"
    "length (voi_top ks b now s) = min (unat (sat_sub b (exploration_budget (voi_conf s) b))) (length ks)"
    "(p, u) \<in> set (voi_top ks b now s) \<Longrightarrow> u = compute_utility s now p"
proof -
  let ?l = "sort_by utility_before (map (\<lambda>p. (p, compute_utility s now p)) ks)"
  have d: "distinct (map fst ?l)" using assms mset_eq_imp_distinct_iff [OF sorted_keys] by blast
  show "distinct (map fst (voi_top ks b now s))" using d by (simp add: voi_top_def take_map [symmetric])
  show "fst ` set (voi_top ks b now s) \<subseteq> set ks" by (auto simp: voi_top_def dest!: in_set_takeD)
  show "length (voi_top ks b now s) = min (unat (sat_sub b (exploration_budget (voi_conf s) b))) (length ks)"
    by (simp add: voi_top_def)
  show "(p, u) \<in> set (voi_top ks b now s) \<Longrightarrow> u = compute_utility s now p"
    by (auto simp: voi_top_def dest!: in_set_takeD)
qed

lemma voi_left_length:
  assumes "distinct ks"
  shows "length (voi_left ks b now s) = length ks - length (voi_top ks b now s)"
proof -
  have "set (voi_left ks b now s) = set ks - fst ` set (voi_top ks b now s)" by (auto simp: voi_left_def)
  moreover have "card (fst ` set (voi_top ks b now s)) = length (voi_top ks b now s)"
    using distinct_card [OF voi_top_facts(1) [OF assms]] by simp
  ultimately have "card (set (voi_left ks b now s)) = length ks - length (voi_top ks b now s)"
    using voi_top_facts(2) [OF assms] assms by (simp add: card_Diff_subset distinct_card)
  moreover have "distinct (voi_left ks b now s)" using assms by (simp add: voi_left_def)
  ultimately show ?thesis by (simp add: distinct_card)
qed

lemma fst_candidate [simp]: "fst (exploration_candidate s now p) = p"
  by (simp add: exploration_candidate_def)

lemma voi_picks_facts:
  assumes "distinct ks"
  shows "distinct (map fst (voi_picks ks b now s))" "fst ` set (voi_picks ks b now s) \<subseteq> set (voi_left ks b now s)"
    "length (voi_picks ks b now s) = min (unat (exploration_budget (voi_conf s) b)) (length (voi_left ks b now s))"
proof -
  let ?l = "sort_by explore_before (map (exploration_candidate s now) (voi_left ks b now s))"
  have "mset (map fst ?l) = mset (voi_left ks b now s)" by (simp add: mset_map multiset.map_comp comp_def)
  moreover have "distinct (voi_left ks b now s)" using assms by (simp add: voi_left_def)
  ultimately have d: "distinct (map fst ?l)" using mset_eq_imp_distinct_iff by blast
  show "distinct (map fst (voi_picks ks b now s))" using d by (simp add: voi_picks_def take_map [symmetric])
  show "fst ` set (voi_picks ks b now s) \<subseteq> set (voi_left ks b now s)"
  proof
    fix p assume "p \<in> fst ` set (voi_picks ks b now s)"
    then obtain x where "x \<in> set ?l" "p = fst x" by (auto simp only: voi_picks_def dest!: in_set_takeD)
    then show "p \<in> set (voi_left ks b now s)" by auto
  qed
  show "length (voi_picks ks b now s) = min (unat (exploration_budget (voi_conf s) b)) (length (voi_left ks b now s))"
    by (simp add: voi_picks_def)
qed

lemma voi_paths: "map entry_path (plan_paths (schedule_voi ks b now s)) =
    map fst (voi_top ks b now s) @ map fst (voi_picks ks b now s)"
  by (simp add: schedule_voi_paths plan_entry_def split_def comp_def)

lemma schedule_voi_fits:
  fixes now :: instant and s :: voi_scheduler
  assumes "distinct ks" "b \<noteq> 0"
  defines "ps \<equiv> map entry_path (plan_paths (schedule_voi ks b now s))"
  shows "distinct ps" "set ps \<subseteq> set ks" "length ps = min (unat b) (length ks)"
proof -
  note t = voi_top_facts(1-3) [OF assms(1), of b now s] and l = voi_left_length [OF assms(1), of b now s]
    and p = voi_picks_facts [OF assms(1), of b now s]
  have "set (voi_left ks b now s) \<inter> fst ` set (voi_top ks b now s) = {}" "set (voi_left ks b now s) \<subseteq> set ks"
    by (auto simp: voi_left_def)
  then have "fst ` set (voi_top ks b now s) \<inter> fst ` set (voi_picks ks b now s) = {}" using p(2) by blast
  then show "distinct ps" "set ps \<subseteq> set ks" using t(1,2) p(1,2) \<open>set (voi_left ks b now s) \<subseteq> set ks\<close>
    unfolding ps_def voi_paths by simp_all
  show "length ps = min (unat b) (length ks)"
    unfolding ps_def voi_paths length_append length_map
    using t(3) l p(3) split_budget(2) [OF assms(2), of "voi_conf s"] by linarith
qed

subsection \<open>The plan fits the budget\<close>

text \<open>Whatever the mode, a plan names distinct tracked paths, exactly as many as the budget and
  the number of tracked paths allow, and reports that count.\<close>

lemma schedule_fits:
  assumes "voi_reachable s" and "enumerates ks s"
  shows "distinct (map entry_path (plan_paths (snd (schedule ks now s)))) \<and>
    entry_path ` set (plan_paths (snd (schedule ks now s))) \<subseteq> dom (voi_stats s) \<and>
    length (plan_paths (snd (schedule ks now s))) = min (unat (scan_budget_per_interval (voi_conf s))) (card (dom (voi_stats s))) \<and>
    budget_used (snd (schedule ks now s)) = length (plan_paths (snd (schedule ks now s)))"
proof -
  let ?b = "scan_budget_per_interval (voi_conf s)"
  note k = tracked_facts [OF assms(2)]
  have c: "unat (rr_cursor s) < 2 ^ 63" using voi_reachable_inv [OF assms(1)] by (simp add: voi_inv_def)
  have set: "set ks = dom (voi_stats s)" "distinct ks" using assms(2) by (auto simp: enumerates_def)
  consider "ks = [] \<or> ?b = 0" | "ks \<noteq> []" "?b \<noteq> 0" "is_fallback_active s" | "ks \<noteq> []" "?b \<noteq> 0" "\<not> is_fallback_active s"
    by blast
  then show ?thesis
  proof cases
    case 1
    then show ?thesis using k(4) by (auto simp: schedule_def Let_def)
  next
    case 2
    then have e: "schedule ks now s = schedule_round_robin ks ?b s" by (simp add: schedule_def Let_def)
    have "budget_used (snd (schedule_round_robin ks ?b s)) = length (plan_paths (snd (schedule_round_robin ks ?b s)))"
      by (simp add: schedule_round_robin_def Let_def)
    then show ?thesis unfolding e using round_robin_fits [OF assms(2) c 2(1), of ?b] k(4) by simp
  next
    case 3
    then have e: "snd (schedule ks now s) = schedule_voi ks ?b now s" by (simp add: schedule_def Let_def)
    have "budget_used (schedule_voi ks ?b now s) = length (plan_paths (schedule_voi ks ?b now s))"
      by (simp add: schedule_voi_def Let_def)
    then show ?thesis unfolding e using schedule_voi_fits [OF set(2) 3(2), of now s] set(1) k(4) by simp
  qed
qed

definition demo_voi :: voi_scheduler where
  "demo_voi = register_path [RootDir, Normal ''b''] (register_path [RootDir, Normal ''a''] (voi_new voi_config_default))"

lemma demo_voi_facts:
  "voi_reachable demo_voi" "dom (voi_stats demo_voi) = {[RootDir, Normal ''a''], [RootDir, Normal ''b'']}"
  "voi_conf demo_voi = voi_config_default" "enumerates [[RootDir, Normal ''b''], [RootDir, Normal ''a'']] demo_voi"
proof -
  show "voi_reachable demo_voi" unfolding demo_voi_def by (intro voi_next [OF voi_next [OF voi_init voi_register] voi_register])
  show d: "dom (voi_stats demo_voi) = {[RootDir, Normal ''a''], [RootDir, Normal ''b'']}"
    "voi_conf demo_voi = voi_config_default"
    by (auto simp: demo_voi_def register_path_def voi_new_def split: if_splits)
  show "enumerates [[RootDir, Normal ''b''], [RootDir, Normal ''a'']] demo_voi"
    using d by (auto simp: enumerates_def)
qed

subsection \<open>The best paths are chosen\<close>

lemma top_best:
  assumes "(p, u) \<in> set (voi_top ks b now s)" "q \<in> set ks" "q \<notin> fst ` set (voi_top ks b now s)"
  shows "compute_utility s now q \<le> u"
proof -
  let ?xs = "map (\<lambda>p. (p, compute_utility s now p)) ks"
  let ?n = "unat (sat_sub b (exploration_budget (voi_conf s) b))"
  have "(q, compute_utility s now q) \<in> set (drop ?n (sort_by utility_before ?xs))"
  proof (rule sort_by_left_behind)
    show "(q, compute_utility s now q) \<in> set ?xs" using assms(2) by simp
    show "(q, compute_utility s now q) \<notin> set (take ?n (sort_by utility_before ?xs))"
      using assms(3) unfolding voi_top_def by (metis fst_conv image_eqI)
  qed
  then have "\<not> utility_before (q, compute_utility s now q) (p, u)"
    using assms(1) unfolding voi_top_def by (intro ub.take_first [of ?xs _ ?n]) auto
  moreover have "u = compute_utility s now p" using assms(1) by (auto simp: voi_top_def dest!: in_set_takeD)
  ultimately show ?thesis by (auto simp: utility_before_def f_not_less split: if_splits)
qed

lemma picks_least:
  assumes "x \<in> set (voi_picks ks b now s)" "q \<in> set (voi_left ks b now s)" "q \<notin> fst ` set (voi_picks ks b now s)"
  shows "\<not> explore_before (exploration_candidate s now q) x"
proof -
  let ?xs = "map (exploration_candidate s now) (voi_left ks b now s)"
  let ?n = "unat (exploration_budget (voi_conf s) b)"
  have "exploration_candidate s now q \<in> set ?xs" using assms(2) by simp
  moreover have "exploration_candidate s now q \<notin> set (take ?n (sort_by explore_before ?xs))"
    using assms(3) fst_candidate unfolding voi_picks_def by (metis image_eqI)
  ultimately have "exploration_candidate s now q \<in> set (drop ?n (sort_by explore_before ?xs))"
    by (rule sort_by_left_behind)
  then show ?thesis using assms(1) unfolding voi_picks_def
    by (intro eb.take_first [of ?xs _ ?n]) (auto simp: exploration_candidate_def split: option.split)
qed

definition scans_of :: "voi_scheduler \<Rightarrow> path_key \<Rightarrow> u32" where
  "scans_of s p = (case voi_stats s p of None \<Rightarrow> 0 | Some st \<Rightarrow> scan_count st)"

text \<open>C35: outside the fallback with a budget, at least one entry is chosen by yield and no
  more than the quota for exploration; a path left out of the plan has no higher utility than any
  path chosen by yield, and was not scanned less often than any path chosen for exploration.\<close>

theorem schedule_picks_best:
  assumes "\<not> is_fallback_active s" and "ks \<noteq> []" and "scan_budget_per_interval (voi_conf s) \<noteq> 0"
    and "q \<in> set ks" and "q \<notin> entry_path ` set (plan_paths (snd (schedule ks now s)))"
    and "e \<in> set (plan_paths (snd (schedule ks now s)))"
  shows "entry_utility e = compute_utility s now (entry_path e) \<and>
    (if is_exploration e then scans_of s (entry_path e) \<le> scans_of s q
     else compute_utility s now q \<le> entry_utility e) \<and>
    (\<exists>x \<in> set (plan_paths (snd (schedule ks now s))). \<not> is_exploration x) \<and>
    length (filter is_exploration (plan_paths (snd (schedule ks now s))))
      \<le> unat (exploration_budget (voi_conf s) (scan_budget_per_interval (voi_conf s)))"
proof -
  let ?b = "scan_budget_per_interval (voi_conf s)"
  let ?t = "voi_top ks ?b now s" and ?k = "voi_picks ks ?b now s"
  have p: "plan_paths (snd (schedule ks now s)) = map (\<lambda>(p, u). plan_entry s u False p) ?t @
     map (\<lambda>(p, _). plan_entry s (compute_utility s now p) True p) ?k"
    using assms(1-3) by (simp add: schedule_def Let_def schedule_voi_paths)
  have q: "q \<notin> fst ` set ?t" "q \<notin> fst ` set ?k"
    using assms(5) unfolding p by (force simp: plan_entry_def)+
  have left: "q \<in> set (voi_left ks ?b now s)" using assms(4) q(1) by (simp add: voi_left_def)
  have "0 < unat (sat_sub ?b (exploration_budget (voi_conf s) ?b))" using split_budget [OF assms(3), of "voi_conf s"] by linarith
  then have "?t \<noteq> []" using assms(2) by (simp add: voi_top_def flip: length_greater_0_conv)
  then obtain p0 u0 where "(p0, u0) \<in> set ?t" by (metis list.set_intros(1) neq_Nil_conv prod.exhaust)
  then have ex: "\<exists>x \<in> set (plan_paths (snd (schedule ks now s))). \<not> is_exploration x"
    unfolding p by (intro bexI [of _ "plan_entry s u0 False p0"]) (force simp: plan_entry_def)+
  have quota: "length (filter is_exploration (plan_paths (snd (schedule ks now s)))) \<le> unat (exploration_budget (voi_conf s) ?b)"
  proof -
    have "filter is_exploration (map (\<lambda>(p, u). plan_entry s u False p) ?t) = []"
      by (auto simp: filter_empty_conv plan_entry_def)
    then have "length (filter is_exploration (plan_paths (snd (schedule ks now s)))) \<le> length ?k"
      unfolding p by (simp add: le_trans [OF length_filter_le])
    also have "\<dots> \<le> unat (exploration_budget (voi_conf s) ?b)" by (simp add: voi_picks_def)
    finally show ?thesis .
  qed
  have e: "(\<exists>x \<in> set ?t. e = plan_entry s (snd x) False (fst x)) \<or>
      (\<exists>x \<in> set ?k. e = plan_entry s (compute_utility s now (fst x)) True (fst x))"
    using assms(6) unfolding p by (force simp: split_def)
  have "entry_utility e = compute_utility s now (entry_path e) \<and>
    (if is_exploration e then scans_of s (entry_path e) \<le> scans_of s q else compute_utility s now q \<le> entry_utility e)"
  proof (use e in \<open>elim disjE bexE\<close>)
    fix x assume x: "x \<in> set ?t" "e = plan_entry s (snd x) False (fst x)"
    have "snd x = compute_utility s now (fst x)" using x(1) by (auto simp: voi_top_def dest!: in_set_takeD)
    moreover have "compute_utility s now q \<le> snd x" using top_best [of "fst x" "snd x"] x(1) assms(4) q(1) by simp
    ultimately show ?thesis using x(2) by (simp add: plan_entry_def)
  next
    fix x assume x: "x \<in> set ?k" "e = plan_entry s (compute_utility s now (fst x)) True (fst x)"
    have "\<not> explore_before (exploration_candidate s now q) x" by (rule picks_least [OF x(1) left q(2)])
    moreover have "x = exploration_candidate s now (fst x)"
      using x(1) fst_candidate unfolding voi_picks_def by (auto simp del: prod.collapse dest!: in_set_takeD)
    ultimately have "scans_of s (fst x) \<le> scans_of s q"
      by (auto simp: explore_before_def exploration_candidate_def scans_of_def not_less split: prod.splits option.splits)
    then show ?thesis using x(2) by (simp add: plan_entry_def)
  qed
  then show ?thesis using ex quota by blast
qed

definition demo_tight :: voi_scheduler where
  "demo_tight = voi_update_config (voi_config_default\<lparr>scan_budget_per_interval := 1\<rparr>) demo_voi"

lemma demo_tight_plan:
  "snd (schedule [[RootDir, Normal ''b''], [RootDir, Normal ''a'']] 0 demo_tight) =
   \<lparr>plan_paths = [plan_entry demo_tight (compute_utility demo_tight 0 [RootDir, Normal ''a'']) False [RootDir, Normal ''a'']],
    plan_fallback_active = False, budget_used = 1, budget_total = 1\<rparr>"
proof -
  have u: "compute_utility demo_tight 0 [RootDir, Normal ''b''] = compute_utility demo_tight 0 [RootDir, Normal ''a'']"
    by (simp add: demo_tight_def demo_voi_def voi_update_config_def register_path_def voi_new_def compute_utility_def)
  have c: "voi_conf demo_tight = voi_config_default\<lparr>scan_budget_per_interval := 1\<rparr>" "\<not> is_fallback_active demo_tight"
    by (simp_all add: demo_tight_def demo_voi_def voi_update_config_def register_path_def voi_new_def
        is_fallback_active_def calibration_new_def voi_config_default_def)
  have lt: "[RootDir, Normal ''a''] < [RootDir, Normal ''b'']"
    by (simp add: less_component_def)
  have x: "exploration_budget (voi_conf demo_tight) 1 = 0"
    by (simp add: exploration_budget_def sat_sub_def)
  show ?thesis using u c lt x
    by (simp add: schedule_def schedule_voi_def Let_def utility_before_def sat_sub_def)
qed

theorem schedule_picks_best_witness:
  "compute_utility demo_tight 0 [RootDir, Normal ''b''] \<le> compute_utility demo_tight 0 [RootDir, Normal ''a'']"
proof -
  let ?ks = "[[RootDir, Normal ''b''], [RootDir, Normal ''a'']]"
  let ?e = "plan_entry demo_tight (compute_utility demo_tight 0 [RootDir, Normal ''a'']) False [RootDir, Normal ''a'']"
  have c: "scan_budget_per_interval (voi_conf demo_tight) \<noteq> 0" "\<not> is_fallback_active demo_tight"
    by (simp_all add: demo_tight_def demo_voi_def voi_update_config_def register_path_def voi_new_def
        is_fallback_active_def calibration_new_def voi_config_default_def)
  show ?thesis
    using schedule_picks_best [OF c(2) _ c(1), of ?ks "[RootDir, Normal ''b'']" 0 ?e]
    by (simp add: demo_tight_plan plan_entry_def)
qed

subsection \<open>The round robin reaches every path\<close>

fun schedules :: "(path_key list \<times> instant) list \<Rightarrow> voi_scheduler \<Rightarrow> scan_plan list" where
  "schedules [] s = []"
| "schedules (c # cs) s = (case schedule (fst c) (snd c) s of (t, plan) \<Rightarrow> plan # schedules cs t)"

definition planned_paths :: "scan_plan list \<Rightarrow> path_key set" where
  "planned_paths ps = (\<Union>p \<in> set ps. entry_path ` set (plan_paths p))"

lemma round_robin_covers:
  assumes "\<forall>c \<in> set cs. enumerates (fst c) s" "unat (rr_cursor s) < 2 ^ 63" "is_fallback_active s"
    and "scan_budget_per_interval (voi_conf s) \<noteq> 0" "i < length cs * min (unat (scan_budget_per_interval (voi_conf s))) n"
    and "n = length (tracked_list s)" "0 < n"
  shows "tracked_list s ! ((unat (rr_cursor s) + i) mod n) \<in> planned_paths (schedules cs s)"
  using assms
proof (induction cs arbitrary: s i)
  case (Cons c cs)
  let ?b = "scan_budget_per_interval (voi_conf s)"
  let ?m = "min (unat ?b) n"
  let ?t = "fst (schedule_round_robin (fst c) ?b s)"
  have en: "enumerates (fst c) s" using Cons.prems(1) by simp
  note k = tracked_facts [OF en]
  have n: "length (fst c) = n" "fst c \<noteq> []" using k(3) Cons.prems(6,7) by auto
  have sch: "schedule (fst c) (snd c) s = schedule_round_robin (fst c) ?b s"
    using n(2) Cons.prems(3,4) by (simp add: schedule_def Let_def)
  have t: "voi_stats ?t = voi_stats s" "voi_conf ?t = voi_conf s" "is_fallback_active ?t = is_fallback_active s"
    by (simp_all add: schedule_round_robin_def Let_def is_fallback_active_def)
  note rr = round_robin_unfold [OF en Cons.prems(2) n(2), of ?b, unfolded n(1)]
  have split: "planned_paths (schedules (c # cs) s) =
      entry_path ` set (plan_paths (snd (schedule_round_robin (fst c) ?b s))) \<union> planned_paths (schedules cs ?t)"
    by (simp add: planned_paths_def sch split_def)
  show ?case
  proof (cases "i < ?m")
    case True
    then have "tracked_list s ! ((unat (rr_cursor s) + i) mod n) \<in>
        set (map entry_path (plan_paths (snd (schedule_round_robin (fst c) ?b s))))"
      unfolding rr(1) by simp
    then show ?thesis unfolding split by simp
  next
    case False
    define j where "j = i - ?m"
    have j: "i = ?m + j" "j < length cs * ?m" using False Cons.prems(5) by (auto simp: j_def)
    have cur: "unat (rr_cursor ?t) < 2 ^ 63"
      using schedule_cursor [OF Cons.prems(2), of "fst c" "snd c"] en sch by (simp add: enumerates_def)
    have "tracked_list ?t ! ((unat (rr_cursor ?t) + j) mod n) \<in> planned_paths (schedules cs ?t)"
      using Cons.prems cur j(2) t by (intro Cons.IH) (auto simp: enumerates_def)
    moreover have "(unat (rr_cursor ?t) + j) mod n = (unat (rr_cursor s) + i) mod n"
      unfolding rr(2) j(1) by (simp add: mod_simps add.assoc)
    ultimately show ?thesis unfolding split using t(1) by simp
  qed
qed simp

text \<open>C36: in the fallback, as soon as the budgets of consecutive plans add up to the number of
  tracked paths, every tracked path has been planned, in whatever order the hash map yielded them each time.\<close>

theorem round_robin_fair:
  assumes "voi_reachable s" and "is_fallback_active s" and "\<forall>c \<in> set calls. enumerates (fst c) s"
    and "card (dom (voi_stats s)) \<le> length calls * min (unat (scan_budget_per_interval (voi_conf s))) (card (dom (voi_stats s)))"
    and "scan_budget_per_interval (voi_conf s) \<noteq> 0" and "p \<in> dom (voi_stats s)" and "calls \<noteq> []"
  shows "p \<in> planned_paths (schedules calls s)"
proof -
  define n where "n = length (tracked_list s)"
  have "enumerates (fst (hd calls)) s" using assms(3,7) by simp
  note k = tracked_facts [OF this]
  have n: "n = card (dom (voi_stats s))" "0 < n" using k(4,5) assms(6) by (auto simp: n_def card_gt_0_iff)
  obtain m where m: "m < n" "p = tracked_list s ! m" using k(2) assms(6) unfolding n_def by (metis in_set_conv_nth)
  let ?c = "unat (rr_cursor s)"
  let ?i = "(m + (n - ?c mod n)) mod n"
  have "(?c + ?i) mod n = (?c mod n + (m + (n - ?c mod n))) mod n" by (simp add: mod_simps)
  also have "?c mod n + (m + (n - ?c mod n)) = m + n" using n(2) mod_less_divisor [of n ?c] by linarith
  finally have i: "(?c + ?i) mod n = m" using m(1) by simp
  have "?i < n" using n(2) by simp
  then have "?i < length calls * min (unat (scan_budget_per_interval (voi_conf s))) n"
    using assms(4) unfolding n(1) by (rule less_le_trans)
  then have "tracked_list s ! ((?c + ?i) mod n) \<in> planned_paths (schedules calls s)"
    using voi_reachable_inv [OF assms(1)] assms n
    by (intro round_robin_covers) (auto simp: voi_inv_def n_def)
  then show ?thesis unfolding i m(2) .
qed

theorem round_robin_fair_witness:
  "[RootDir, Normal ''b''] \<in> planned_paths (schedules
     [([[RootDir, Normal ''b''], [RootDir, Normal ''a'']], 0), ([[RootDir, Normal ''a''], [RootDir, Normal ''b'']], 7)]
     (voi_update_config (voi_config_default\<lparr>voi_enabled := False, scan_budget_per_interval := 1\<rparr>) demo_voi))"
proof -
  let ?s = "voi_update_config (voi_config_default\<lparr>voi_enabled := False, scan_budget_per_interval := 1\<rparr>) demo_voi"
  have d: "dom (voi_stats ?s) = {[RootDir, Normal ''a''], [RootDir, Normal ''b'']}"
    using demo_voi_facts(2) by (simp add: voi_update_config_def)
  have "voi_reachable ?s" by (intro voi_next [OF demo_voi_facts(1) voi_config])
  from round_robin_fair [OF this, of "[([[RootDir, Normal ''b''], [RootDir, Normal ''a'']], 0),
      ([[RootDir, Normal ''a''], [RootDir, Normal ''b'']], 7)]" "[RootDir, Normal ''b'']"]
  show ?thesis using d by (auto simp: enumerates_def voi_update_config_def is_fallback_active_def voi_config_default_def)
qed

subsection \<open>The fallback as a function of the history\<close>

definition bad_window :: "voi_config \<Rightarrow> f64 \<Rightarrow> bool" where
  "bad_window cfg m = (forecast_error_threshold cfg < m)"

definition calibration_run :: "voi_config \<Rightarrow> f64 list \<Rightarrow> calibration_state" where
  "calibration_run cfg ms = fold (record_window cfg) ms calibration_new"

text \<open>Runs of bad and of good windows, the latest window first. A trigger of 0 acts like 1.\<close>

definition trigger_run :: "voi_config \<Rightarrow> nat" where
  "trigger_run cfg = max 1 (unat (fallback_trigger_windows cfg))"

definition recovery_run :: "voi_config \<Rightarrow> nat" where
  "recovery_run cfg = max 1 (unat (recovery_trigger_windows cfg))"

definition run_length :: "('a \<Rightarrow> bool) \<Rightarrow> 'a list \<Rightarrow> nat" where
  "run_length P rs = length (takeWhile P rs)"

lemma run_length_simps [simp]:
  "run_length P [] = 0" "run_length P (m # rs) = (if P m then Suc (run_length P rs) else 0)"
  by (simp_all add: run_length_def)

lemma run_length_append: "run_length P (xs @ ys) = (if list_all P xs then length xs + run_length P ys else run_length P xs)"
  by (induction xs) auto

lemma run_length_all: "list_all P xs \<Longrightarrow> run_length P xs = length xs"
  by (induction xs) simp_all

lemma run_length_take: "n \<le> run_length P xs \<longleftrightarrow> n \<le> length xs \<and> list_all P (take n xs)"
  by (induction xs arbitrary: n) (auto simp: take_Cons split: nat.split)

lemma calibration_run_snoc: "calibration_run cfg (ms @ [m]) = record_window cfg m (calibration_run cfg ms)"
  by (simp add: calibration_run_def)

lemma u32_below: "unat (w :: u32) < 4294967296"
  by (rule less_le_trans [OF unsigned_less]) simp

lemma calibration_counters:
  "unat (consecutive_bad_windows (calibration_run cfg ms)) = min (run_length (bad_window cfg) (rev ms)) (2 ^ 32 - 1) \<and>
   unat (consecutive_good_windows (calibration_run cfg ms)) = min (run_length (Not \<circ> bad_window cfg) (rev ms)) (2 ^ 32 - 1)"
proof (induction ms rule: rev_induct)
  case Nil
  then show ?case by (simp add: calibration_run_def calibration_new_def)
next
  case (snoc m ms)
  then show ?case unfolding calibration_run_snoc
    by (auto simp: record_window_def Let_def bad_window_def)
qed

lemma calibration_flag_snoc:
  "cal_fallback_active (calibration_run cfg (ms @ [m])) =
     (if bad_window cfg m then cal_fallback_active (calibration_run cfg ms) \<or>
        trigger_run cfg \<le> run_length (bad_window cfg) (m # rev ms)
      else cal_fallback_active (calibration_run cfg ms) \<and>
        \<not> recovery_run cfg \<le> run_length (Not \<circ> bad_window cfg) (m # rev ms))"
proof -
  let ?c = "calibration_run cfg ms"
  have t: "fallback_trigger_windows cfg \<le> sat_add (consecutive_bad_windows ?c) 1 \<longleftrightarrow>
      trigger_run cfg \<le> Suc (run_length (bad_window cfg) (rev ms))"
    using calibration_counters [of cfg ms] u32_below [of "fallback_trigger_windows cfg"]
    by (auto simp: word_le_nat_alt trigger_run_def min_def)
  have r: "recovery_trigger_windows cfg \<le> sat_add (consecutive_good_windows ?c) 1 \<longleftrightarrow>
      recovery_run cfg \<le> Suc (run_length (Not \<circ> bad_window cfg) (rev ms))"
    using calibration_counters [of cfg ms] u32_below [of "recovery_trigger_windows cfg"]
    by (auto simp: word_le_nat_alt recovery_run_def min_def)
  show ?thesis unfolding calibration_run_snoc using t r
    by (auto simp: record_window_def Let_def bad_window_def)
qed

text \<open>The abstract reading: some run of bad windows was long enough, and no run of good windows
  after it was.\<close>

definition good_run_in :: "voi_config \<Rightarrow> f64 list \<Rightarrow> bool" where
  "good_run_in cfg ms = (\<exists>a gs b. ms = a @ gs @ b \<and> length gs = recovery_run cfg \<and> list_all (Not \<circ> bad_window cfg) gs)"

definition fallback_history :: "voi_config \<Rightarrow> f64 list \<Rightarrow> bool" where
  "fallback_history cfg ms = (\<exists>older bads newer. ms = older @ bads @ newer \<and>
     length bads = trigger_run cfg \<and> list_all (bad_window cfg) bads \<and> \<not> good_run_in cfg newer)"

lemma run_positive: "0 < trigger_run cfg" "0 < recovery_run cfg"
  by (simp_all add: trigger_run_def recovery_run_def)

lemma good_run_Nil: "\<not> good_run_in cfg []"
  using run_positive(2) [of cfg] by (auto simp: good_run_in_def)

lemma run_length_rev: "n \<le> run_length P (rev ms) \<longleftrightarrow> (\<exists>a b. ms = a @ b \<and> length b = n \<and> list_all P b)"
proof
  assume "n \<le> run_length P (rev ms)"
  then have n: "n \<le> length ms" "list_all P (rev (drop (length ms - n) ms))"
    by (simp_all add: run_length_take take_rev)
  then show "\<exists>a b. ms = a @ b \<and> length b = n \<and> list_all P b"
    by (intro exI [of _ "take (length ms - n) ms"] exI [of _ "drop (length ms - n) ms"]) (simp add: list_all_iff)
next
  assume "\<exists>a b. ms = a @ b \<and> length b = n \<and> list_all P b"
  then obtain a b where "ms = a @ b" "length b = n" "list_all P b" by blast
  then show "n \<le> run_length P (rev ms)" by (simp add: run_length_append list_all_iff)
qed

lemma good_run_snoc:
  "good_run_in cfg (ms @ [m]) \<longleftrightarrow> good_run_in cfg ms \<or> recovery_run cfg \<le> run_length (Not \<circ> bad_window cfg) (rev (ms @ [m]))"
proof
  assume "good_run_in cfg (ms @ [m])"
  then obtain a gs b where g: "ms @ [m] = a @ gs @ b" "length gs = recovery_run cfg" "list_all (Not \<circ> bad_window cfg) gs"
    by (auto simp: good_run_in_def)
  show "good_run_in cfg ms \<or> recovery_run cfg \<le> run_length (Not \<circ> bad_window cfg) (rev (ms @ [m]))"
  proof (cases b rule: rev_cases)
    case Nil
    then show ?thesis using g unfolding run_length_rev by auto
  next
    case (snoc b' x)
    then show ?thesis using g unfolding good_run_in_def by auto
  qed
next
  assume "good_run_in cfg ms \<or> recovery_run cfg \<le> run_length (Not \<circ> bad_window cfg) (rev (ms @ [m]))"
  then show "good_run_in cfg (ms @ [m])"
  proof
    assume "good_run_in cfg ms"
    then obtain a gs b where "ms @ [m] = a @ gs @ (b @ [m])" "length gs = recovery_run cfg" "list_all (Not \<circ> bad_window cfg) gs"
      by (auto simp: good_run_in_def)
    then show ?thesis unfolding good_run_in_def by blast
  next
    assume "recovery_run cfg \<le> run_length (Not \<circ> bad_window cfg) (rev (ms @ [m]))"
    then obtain a b where "ms @ [m] = a @ b @ []" "length b = recovery_run cfg" "list_all (Not \<circ> bad_window cfg) b"
      unfolding run_length_rev by auto
    then show ?thesis unfolding good_run_in_def by blast
  qed
qed

text \<open>After a run of bad windows the good ones at the end all belong to the newer part.\<close>

lemma good_end_newer:
  assumes "list_all (bad_window cfg) bads" "bads \<noteq> []"
  shows "run_length (Not \<circ> bad_window cfg) (rev (older @ bads @ newer)) = run_length (Not \<circ> bad_window cfg) (rev newer)"
proof -
  obtain bs x where b: "bads = bs @ [x]" using assms(2) by (cases bads rule: rev_cases) auto
  then have "bad_window cfg x" using assms(1) by simp
  then show ?thesis unfolding b
    using run_length_all [of "Not \<circ> bad_window cfg" "rev newer"] by (simp add: run_length_append)
qed

lemma fallback_history_snoc:
  "fallback_history cfg (ms @ [m]) \<longleftrightarrow>
     (if bad_window cfg m then fallback_history cfg ms \<or> trigger_run cfg \<le> run_length (bad_window cfg) (m # rev ms)
      else fallback_history cfg ms \<and> \<not> recovery_run cfg \<le> run_length (Not \<circ> bad_window cfg) (m # rev ms))"
    (is "?L \<longleftrightarrow> ?R")
proof
  assume ?L
  then obtain older bads newer where h: "ms @ [m] = older @ bads @ newer" "length bads = trigger_run cfg"
      "list_all (bad_window cfg) bads" "\<not> good_run_in cfg newer"
    by (auto simp: fallback_history_def)
  have ne: "bads \<noteq> []" using h(2) run_positive(1) [of cfg] by auto
  show ?R
  proof (cases newer rule: rev_cases)
    case Nil
    then have "trigger_run cfg \<le> run_length (bad_window cfg) (rev (ms @ [m]))"
      unfolding run_length_rev using h by auto
    moreover have "bad_window cfg m" using h(1,3) ne Nil by (cases bads rule: rev_cases) auto
    ultimately show ?thesis by simp
  next
    case (snoc newer' x)
    then have e: "ms = older @ bads @ newer'" "x = m" using h(1) by auto
    have g: "\<not> good_run_in cfg newer'" "\<not> recovery_run cfg \<le> run_length (Not \<circ> bad_window cfg) (rev newer)"
      using h(4) good_run_snoc [of cfg newer' x] unfolding snoc by simp_all
    have f: "fallback_history cfg ms" unfolding fallback_history_def using e(1) h(2,3) g(1) by blast
    have "run_length (Not \<circ> bad_window cfg) (rev (ms @ [m])) = run_length (Not \<circ> bad_window cfg) (rev newer)"
      unfolding h(1) by (rule good_end_newer [OF h(3) ne])
    then show ?thesis using f g(2) by (auto split: if_splits)
  qed
next
  assume R: ?R
  show ?L
  proof (cases "bad_window cfg m \<and> trigger_run cfg \<le> run_length (bad_window cfg) (rev (ms @ [m]))")
    case True
    then obtain a b where "ms @ [m] = a @ b @ []" "length b = trigger_run cfg" "list_all (bad_window cfg) b"
      unfolding run_length_rev by auto
    then show ?thesis unfolding fallback_history_def using good_run_Nil by blast
  next
    case False
    then have "fallback_history cfg ms" using R by (auto split: if_splits)
    then obtain older bads newer where h: "ms = older @ bads @ newer" "length bads = trigger_run cfg"
        "list_all (bad_window cfg) bads" "\<not> good_run_in cfg newer"
      by (auto simp: fallback_history_def)
    have ne: "bads \<noteq> []" using h(2) run_positive(1) [of cfg] by auto
    have "\<not> recovery_run cfg \<le> run_length (Not \<circ> bad_window cfg) (rev (newer @ [m]))"
    proof (cases "bad_window cfg m")
      case True
      then show ?thesis using run_positive(2) [of cfg] by simp
    next
      case False
      then have "\<not> recovery_run cfg \<le> run_length (Not \<circ> bad_window cfg) (rev (older @ bads @ (newer @ [m])))"
        using R by (simp add: h(1))
      then show ?thesis unfolding good_end_newer [OF h(3) ne] .
    qed
    then have "\<not> good_run_in cfg (newer @ [m])" using h(4) good_run_snoc by blast
    moreover have "ms @ [m] = older @ bads @ (newer @ [m])" using h(1) by simp
    ultimately show ?thesis unfolding fallback_history_def using h(2,3) by blast
  qed
qed

text \<open>The counters compute the history: after any windows the scheduler is in the fallback
  exactly when as many bad windows in a row as configured occurred and since then never as many good
  ones in a row as recovery asks for.\<close>

lemma calibration_history:
  "cal_fallback_active (calibration_run cfg ms) = fallback_history cfg ms"
proof (induction ms rule: rev_induct)
  case Nil
  have "\<not> fallback_history cfg []" using run_positive(1) [of cfg] by (auto simp: fallback_history_def)
  then show ?case by (simp add: calibration_run_def calibration_new_def)
next
  case (snoc m ms)
  then show ?case unfolding calibration_flag_snoc fallback_history_snoc by simp
qed

end
