(* ===== verification/File_Tree.thy ===== *)
theory File_Tree
  imports Scan_Types Errors
begin

section \<open>The file system the scanner and the executor see\<close>

text \<open>
  A snapshot of the file system: an association list from paths, component by component, to the
  kind and identity of the entry there, with what \<open>lstat\<close> and a directory listing read from it.
  Paths stand for themselves: a symbolic link is an entry of its own kind, never followed.
\<close>

type_synonym path_key = "component list"
type_synonym tree = "(path_key \<times> fs_identity) list"

definition symlink_metadata :: "tree \<Rightarrow> path_key \<Rightarrow> fs_identity option" where
  "symlink_metadata w k = map_of w k"

definition children :: "tree \<Rightarrow> path_key \<Rightarrow> (string \<times> fs_entry_kind) list" where
  "children w k = List.map_filter (\<lambda>(q, n). if q \<noteq> [] \<and> butlast q = k
     then (case last q of Normal name \<Rightarrow> Some (name, id_kind n) | _ \<Rightarrow> None) else None) w"

text \<open>What \<open>symlink_metadata\<close> reports for a missing path.\<close>

definition not_found :: io_error where
  "not_found = \<lparr>io_kind = NotFound, raw_os_error = Some 2, io_text = ''No such file or directory (os error 2)''\<rparr>"

text \<open>\<open>Path::parent\<close>, \<open>Path::ancestors\<close> and the text of a path built from components.\<close>

definition parent_key :: "path_key \<Rightarrow> path_key option" where
  "parent_key k = (if k = [] \<or> last k = RootDir then None else Some (butlast k))"

definition key_ancestors :: "path_key \<Rightarrow> path_key list" where
  "key_ancestors k = map (\<lambda>n. take n k) (rev [(if k \<noteq> [] \<and> hd k = RootDir then 1 else 0)..<Suc (length k)])"

fun comp_text :: "component \<Rightarrow> string" where
  "comp_text RootDir = []"
| "comp_text CurDir = ''.''"
| "comp_text ParentDir = ''..''"
| "comp_text (Normal s) = s"

definition path_text :: "path_key \<Rightarrow> path" where
  "path_text k = (if k = [RootDir] then ''/'' else join ''/'' (map comp_text k))"

text \<open>An absolute tree: every entry below the root stands in a directory of the tree, and no path occurs
  twice.\<close>

definition wf_tree :: "tree \<Rightarrow> bool" where
  "wf_tree w = (distinct (map fst w) \<and>
     (\<forall>(q, n) \<in> set w. \<exists>ns. q = RootDir # map Normal ns) \<and>
     (\<forall>(q, n) \<in> set w. length q \<le> 1 \<or> (\<exists>m. (butlast q, m) \<in> set w \<and> id_kind m = KDirectory)))"

lemma ancestors_key: "ancestors p = key_ancestors (components p)"
  by (simp add: ancestors_def key_ancestors_def Let_def)

lemma key_ancestors_prefix: "a \<in> set (key_ancestors k) \<Longrightarrow> prefix a k"
  by (auto simp: key_ancestors_def take_is_prefix)

lemma key_ancestors_absolute:
  "a \<in> set (key_ancestors (RootDir # k)) \<longleftrightarrow> prefix a (RootDir # k) \<and> a \<noteq> []"
proof -
  have s: "set (key_ancestors (RootDir # k)) = (\<lambda>n. take n (RootDir # k)) ` {1..<Suc (Suc (length k))}"
    by (simp add: key_ancestors_def del: upt_Suc)
  show ?thesis
  proof
    assume "a \<in> set (key_ancestors (RootDir # k))"
    then show "prefix a (RootDir # k) \<and> a \<noteq> []"
      unfolding s by (auto simp only: image_iff atLeastLessThan_iff take_is_prefix) simp
  next
    assume a: "prefix a (RootDir # k) \<and> a \<noteq> []"
    then have "a = take (length a) (RootDir # k)" "1 \<le> length a" by (auto simp: prefix_def Suc_le_eq)
    moreover have "length a < Suc (Suc (length k))" using a prefix_length_le by fastforce
    ultimately show "a \<in> set (key_ancestors (RootDir # k))" unfolding s by (intro image_eqI [of _ _ "length a"]) simp_all
  qed
qed

lemma set_map_filter_iff: "set (List.map_filter f xs) = {y. \<exists>x \<in> set xs. f x = Some y}"
  by (induction xs) (auto simp: List.map_filter_simps split: option.splits)

lemma children_iff:
  "(name, kind) \<in> set (children w k) \<longleftrightarrow> (\<exists>n. (k @ [Normal name], n) \<in> set w \<and> id_kind n = kind)"
proof -
  have e: "(if q \<noteq> [] \<and> butlast q = k then (case last q of Normal name \<Rightarrow> Some (name, id_kind n) | _ \<Rightarrow> None) else None) =
      Some (name, kind) \<longleftrightarrow> q = k @ [Normal name] \<and> id_kind n = kind" for q n
    by (cases q rule: rev_cases) (auto split: component.splits)
  show ?thesis
    unfolding children_def set_map_filter_iff mem_Collect_eq by (auto simp only: case_prod_conv e split: prod.split)
qed

lemma wf_tree_distinct: "wf_tree w \<Longrightarrow> (k, n) \<in> set w \<Longrightarrow> symlink_metadata w k = Some n"
  by (simp add: wf_tree_def symlink_metadata_def)

lemma children_mem: "(q @ [Normal name], n) \<in> set w \<Longrightarrow> (name, id_kind n) \<in> set (children w q)"
  by (auto simp: children_iff)

lemma directory_above:
  "wf_tree w \<Longrightarrow> (k @ ys, m) \<in> set w \<Longrightarrow> ys \<noteq> [] \<Longrightarrow> k \<noteq> [] \<Longrightarrow> \<exists>m. (k, m) \<in> set w \<and> id_kind m = KDirectory"
proof (induction ys arbitrary: m rule: rev_induct)
  case (snoc y ys)
  have "\<not> length ((k @ ys) @ [y]) \<le> 1" using snoc.prems(4) by (cases k) auto
  then obtain m' where m': "(butlast ((k @ ys) @ [y]), m') \<in> set w" "id_kind m' = KDirectory"
    using snoc.prems(1,2) unfolding wf_tree_def by fastforce
  then show ?case
  proof (cases "ys = []")
    case True
    then show ?thesis using m' by auto
  next
    case False
    then show ?thesis using snoc.IH snoc.prems m'(1) unfolding butlast_snoc by blast
  qed
qed simp

end
