(* ===== verification/Protection.thy ===== *)
theory Protection
  imports File_Tree
begin

section \<open>Protected paths (src/src/scanner/protection.rs, src/src/core/paths.rs)\<close>

text \<open>
  Marker files, protected path patterns and sacred paths: the registry, the discovery of markers,
  the overlaps of a candidate with the catalog and the bounded search for sacred entries inside it.
  Parameters are what the code asks of the system and of its libraries: the home and current
  directory, \<open>canonicalize\<close>, failing system calls, the text of marker files and their codec, and
  the regular-expression engine, which receives the expression built from a glob. The memo table of
  directory resolutions is left out: every resolution is computed anew.
\<close>

record protection_metadata =
  pm_reason :: "string option"
  protected_by :: "string option"
  protected_at :: "string option"

record protect_env =
  home :: "string option"
  current_dir :: "path_key option"
  canonical :: "tree \<Rightarrow> path_key \<Rightarrow> path_key option"
  metadata_error :: "path_key \<Rightarrow> io_error option"
  listing_error :: "path_key \<Rightarrow> io_error option"
  entry_lost :: "path_key \<Rightarrow> bool"
  file_text :: "tree \<Rightarrow> path_key \<Rightarrow> string option"
  regex :: "string \<Rightarrow> string + (string \<Rightarrow> bool)"
  parse_metadata :: "string \<Rightarrow> protection_metadata option"
  metadata_toml :: "protection_metadata \<Rightarrow> string + string"
  write_file :: "path_key \<Rightarrow> string \<Rightarrow> tree \<Rightarrow> io_error + tree"
  unlink :: "path_key \<Rightarrow> tree \<Rightarrow> io_error + tree"

definition lstat :: "protect_env \<Rightarrow> tree \<Rightarrow> path_key \<Rightarrow> io_error + fs_identity" where
  "lstat env w k = (case metadata_error env k of Some e \<Rightarrow> Inl e
     | None \<Rightarrow> (case symlink_metadata w k of None \<Rightarrow> Inl not_found | Some n \<Rightarrow> Inr n))"

definition list_dir :: "protect_env \<Rightarrow> tree \<Rightarrow> path_key \<Rightarrow> io_error + (string \<times> fs_entry_kind) list" where
  "list_dir env w k = (case listing_error env k of Some e \<Rightarrow> Inl e
     | None \<Rightarrow> Inr (filter (\<lambda>(name, _). \<not> entry_lost env (k @ [Normal name])) (children w k)))"

definition unseen :: "io_error \<Rightarrow> bool" where
  "unseen e = (io_kind e = NotFound \<or> io_kind e = PermissionDeniedKind)"

subsection \<open>Absolute paths\<close>

definition normalize_step :: "path_key \<Rightarrow> component \<Rightarrow> path_key" where
  "normalize_step acc c = (case c of CurDir \<Rightarrow> acc
     | ParentDir \<Rightarrow> (if acc = [] then acc else case last acc of Normal _ \<Rightarrow> butlast acc | _ \<Rightarrow> acc)
     | _ \<Rightarrow> acc @ [c])"

definition normalize_syntactic :: "path_key \<Rightarrow> path_key" where
  "normalize_syntactic k = foldl normalize_step [] k"

definition name_component :: "path_key \<Rightarrow> bool" where
  "name_component k = (comps_file_name k \<noteq> None)"

lemma name_component_nonempty: "name_component k \<Longrightarrow> length k - Suc 0 < length k"
  by (cases k) (simp_all add: name_component_def comps_file_name_def)

function probe_ancestors :: "protect_env \<Rightarrow> tree \<Rightarrow> path_key \<Rightarrow> path_key \<Rightarrow> path_key option" where
  "probe_ancestors env w missing probe = (case canonical env w probe of
     Some c \<Rightarrow> Some (normalize_syntactic (c @ missing))
   | None \<Rightarrow> (if name_component probe then probe_ancestors env w (last probe # missing) (butlast probe) else None))"
  by auto
termination
  by (relation "measure (\<lambda>(_, _, _, probe). length probe)") (auto dest: name_component_nonempty)

definition resolve_existing_ancestor :: "protect_env \<Rightarrow> tree \<Rightarrow> path_key \<Rightarrow> path_key option" where
  "resolve_existing_ancestor env w k = probe_ancestors env w [] (normalize_syntactic k)"

definition resolve_uncached :: "protect_env \<Rightarrow> tree \<Rightarrow> path_key \<Rightarrow> path_key" where
  "resolve_uncached env w k = (case canonical env w k of Some c \<Rightarrow> c
     | None \<Rightarrow> (case resolve_existing_ancestor env w k of Some r \<Rightarrow> r | None \<Rightarrow> normalize_syntactic k))"

text \<open>\<open>resolve_via_parent\<close> and \<open>resolve_ancestor_cached\<close> in one recursion over the parents.\<close>

function resolve_ancestor :: "protect_env \<Rightarrow> tree \<Rightarrow> path_key \<Rightarrow> path_key" where
  "resolve_ancestor env w k =
     (if CurDir \<in> set k \<or> ParentDir \<in> set k \<or> \<not> name_component k then resolve_uncached env w k
      else let cand = resolve_ancestor env w (butlast k) @ [last k] in
        (case lstat env w cand of
           Inr n \<Rightarrow> if id_kind n = KSymlink then resolve_uncached env w k else cand
         | Inl _ \<Rightarrow> cand))"
  by auto
termination
  by (relation "measure (\<lambda>(_, _, k). length k)") (auto dest: name_component_nonempty)

declare probe_ancestors.simps [simp del] resolve_ancestor.simps [simp del]

definition resolve_absolute_path :: "protect_env \<Rightarrow> tree \<Rightarrow> path_key \<Rightarrow> path_key" where
  "resolve_absolute_path env w k =
     (let absolute = (if k \<noteq> [] \<and> hd k = RootDir then k else case current_dir env of None \<Rightarrow> k
        | Some cwd \<Rightarrow> cwd @ filter (\<lambda>c. c \<noteq> CurDir) k)
      in resolve_ancestor env w absolute)"

subsection \<open>Globs\<close>

definition forward :: "string \<Rightarrow> string" where
  "forward s = map (\<lambda>c. if c = CHR 0x5C then CHR ''/'' else c) s"

datatype glob_piece = DirsPrefix | AnyText | NameText | NameChar | Literal char

fun glob_pieces :: "string \<Rightarrow> glob_piece list" where
  "glob_pieces [] = []"
| "glob_pieces (c # s) =
     (if c = CHR ''*'' \<and> s \<noteq> [] \<and> hd s = CHR ''*''
      then (if tl s \<noteq> [] \<and> hd (tl s) = CHR ''/'' then DirsPrefix # glob_pieces (tl (tl s))
            else AnyText # glob_pieces (tl s))
      else if c = CHR ''*'' then NameText # glob_pieces s
      else if c = CHR ''?'' then NameChar # glob_pieces s
      else Literal c # glob_pieces s)"

definition regex_special :: "string" where
  "regex_special = ''.+(){}[]^$|'' @ [CHR 0x5C]"

fun piece_regex :: "glob_piece \<Rightarrow> string" where
  "piece_regex DirsPrefix = ''(?:.*/)?''"
| "piece_regex AnyText = ''.*''"
| "piece_regex NameText = ''[^/]*''"
| "piece_regex NameChar = ''[^/]''"
| "piece_regex (Literal c) = (if c \<in> set regex_special then [CHR 0x5C, c] else [c])"

definition regex_text :: "glob_piece list \<Rightarrow> string" where
  "regex_text ps = ''^'' @ concat (map piece_regex ps) @ ''$''"

definition str_debug :: "string \<Rightarrow> string" where
  "str_debug s = [CHR 0x22] @ concat (map (\<lambda>c. if c = CHR 0x22 \<or> c = CHR 0x5C then [CHR 0x5C, c] else [c]) s) @ [CHR 0x22]"

definition glob_to_regex :: "protect_env \<Rightarrow> string \<Rightarrow> sbh_error + (string \<Rightarrow> bool)" where
  "glob_to_regex env pattern = (case regex env (regex_text (glob_pieces (forward pattern))) of
     Inl err \<Rightarrow> Inl (InvalidConfig (''invalid glob pattern '' @ str_debug pattern @ '': '' @ err))
   | Inr f \<Rightarrow> Inr f)"

definition validate_glob_pattern :: "protect_env \<Rightarrow> string \<Rightarrow> sbh_error option" where
  "validate_glob_pattern env pattern = (case glob_to_regex env pattern of Inl e \<Rightarrow> Some e | Inr _ \<Rightarrow> None)"

definition contains_glob_metachar :: "string \<Rightarrow> bool" where
  "contains_glob_metachar s = (CHR ''*'' \<in> set s \<or> CHR ''?'' \<in> set s)"

definition literal_glob_prefix_path :: "string \<Rightarrow> path option" where
  "literal_glob_prefix_path s =
     (if contains_glob_metachar s
      then (case rsplit_once (CHR ''/'') (takeWhile (\<lambda>c. c \<noteq> CHR ''*'' \<and> c \<noteq> CHR ''?'') s) of
        None \<Rightarrow> None | Some (before, _) \<Rightarrow> if before = [] then None else Some before)
      else None)"

definition expand_home_pattern :: "protect_env \<Rightarrow> string \<Rightarrow> string" where
  "expand_home_pattern env pattern = (case home env of None \<Rightarrow> pattern
     | Some h \<Rightarrow> (if pattern = ''~'' then forward h
         else case strip_prefix pattern ''~/'' of Some rest \<Rightarrow> forward h @ ''/'' @ rest | None \<Rightarrow> pattern))"

definition match_text :: "path_key \<Rightarrow> string" where
  "match_text k = forward (path_text k)"

definition normalize_protected_pattern_for_matching :: "protect_env \<Rightarrow> tree \<Rightarrow> string \<Rightarrow> string" where
  "normalize_protected_pattern_for_matching env w pattern =
     (let normalized = forward (expand_home_pattern env pattern) in
      if \<not> starts_with normalized ''/'' then normalized
      else if \<not> contains_glob_metachar normalized
      then match_text (resolve_absolute_path env w (components normalized))
      else (case literal_glob_prefix_path normalized of None \<Rightarrow> normalized
        | Some before \<Rightarrow> (case strip_prefix normalized (forward before) of None \<Rightarrow> normalized
            | Some rest \<Rightarrow> match_text (resolve_absolute_path env w (components before)) @ rest)))"

text \<open>The texts of a path and of its ancestors, from the path as given and as resolved.\<close>

definition push_new :: "'a \<Rightarrow> 'a list \<Rightarrow> 'a list" where
  "push_new x xs = (if x \<in> set xs then xs else xs @ [x])"

lemma rsplit_once_shorter: "rsplit_once d s = Some (a, b) \<Longrightarrow> length a < length s"
proof -
  have "split_once d t = Some (x, y) \<Longrightarrow> length y < length t" for t x y
    by (induction t arbitrary: x y) (auto split: if_splits)
  then show "rsplit_once d s = Some (a, b) \<Longrightarrow> length a < length s"
    by (fastforce simp: rsplit_once_def)
qed

function push_text_and_ancestors :: "string list \<Rightarrow> string \<Rightarrow> string list" where
  "push_text_and_ancestors texts txt =
     (let texts1 = (if txt = [] then texts else push_new txt texts) in
      case rsplit_once (CHR ''/'') txt of None \<Rightarrow> texts1
      | Some (before, _) \<Rightarrow> if before = [] then push_new ''/'' texts1 else push_text_and_ancestors texts1 before)"
  by auto
termination
  by (relation "measure (\<lambda>(_, txt). length txt)") (auto dest: rsplit_once_shorter)

declare push_text_and_ancestors.simps [simp del]

definition path_match_texts :: "protect_env \<Rightarrow> tree \<Rightarrow> path \<Rightarrow> string list" where
  "path_match_texts env w p = push_text_and_ancestors (push_text_and_ancestors [] (forward p))
     (match_text (resolve_absolute_path env w (components p)))"

subsection \<open>The registry\<close>

definition marker_filename :: string where
  "marker_filename = ''.sbh-protect''"

datatype protection_source = MarkerFile | ConfigPattern string

record protection_entry =
  pe_path :: path
  pe_source :: protection_source
  pe_metadata :: "protection_metadata option"

record glob_pattern =
  original :: string
  compiled :: "string \<Rightarrow> bool"

record protection_registry =
  marker_paths :: "path_key set"
  config_patterns :: "glob_pattern list"

text \<open>\<open>collect::<Result<Vec<_>>>\<close>: the first error, or all values.\<close>

fun collect_results :: "('e + 'a) list \<Rightarrow> 'e + 'a list" where
  "collect_results [] = Inr []"
| "collect_results (Inl e # rs) = Inl e"
| "collect_results (Inr x # rs) = (case collect_results rs of Inl e \<Rightarrow> Inl e | Inr xs \<Rightarrow> Inr (x # xs))"

definition compile_pattern :: "protect_env \<Rightarrow> tree \<Rightarrow> string \<Rightarrow> sbh_error + glob_pattern" where
  "compile_pattern env w pat =
     (case glob_to_regex env (normalize_protected_pattern_for_matching env w pat) of
        Inl e \<Rightarrow> Inl e | Inr f \<Rightarrow> Inr \<lparr>original = pat, compiled = f\<rparr>)"

definition registry_new :: "protect_env \<Rightarrow> tree \<Rightarrow> string list option \<Rightarrow> sbh_error + protection_registry" where
  "registry_new env w patterns =
     (case (case patterns of None \<Rightarrow> Inr [] | Some ps \<Rightarrow> collect_results (map (compile_pattern env w) ps)) of
        Inl e \<Rightarrow> Inl e | Inr cs \<Rightarrow> Inr \<lparr>marker_paths = {}, config_patterns = cs\<rparr>)"

definition marker_only :: protection_registry where
  "marker_only = \<lparr>marker_paths = {}, config_patterns = []\<rparr>"

definition find_marker_ancestor :: "protect_env \<Rightarrow> tree \<Rightarrow> protection_registry \<Rightarrow> path \<Rightarrow> path_key option" where
  "find_marker_ancestor env w r p =
     List.find (\<lambda>a. a \<in> marker_paths r) (key_ancestors (resolve_absolute_path env w (components p)))"

definition matches_marker :: "protect_env \<Rightarrow> tree \<Rightarrow> protection_registry \<Rightarrow> path \<Rightarrow> bool" where
  "matches_marker env w r p = (find_marker_ancestor env w r p \<noteq> None)"

definition matches_config_pattern :: "protect_env \<Rightarrow> tree \<Rightarrow> protection_registry \<Rightarrow> path \<Rightarrow> bool" where
  "matches_config_pattern env w r p =
     list_ex (\<lambda>t. list_ex (\<lambda>pat. compiled pat t) (config_patterns r)) (path_match_texts env w p)"

definition is_protected :: "protect_env \<Rightarrow> tree \<Rightarrow> protection_registry \<Rightarrow> path \<Rightarrow> bool" where
  "is_protected env w r p = (matches_marker env w r p \<or> matches_config_pattern env w r p)"

definition ascii_space :: "char \<Rightarrow> bool" where
  "ascii_space c = (let n = (of_char c :: nat) in n = 32 \<or> (9 \<le> n \<and> n \<le> 13))"

definition trim :: "string \<Rightarrow> string" where
  "trim s = rev (dropWhile ascii_space (rev (dropWhile ascii_space s)))"

definition read_marker_metadata :: "protect_env \<Rightarrow> tree \<Rightarrow> path_key \<Rightarrow> protection_metadata option" where
  "read_marker_metadata env w k = (case file_text env w k of None \<Rightarrow> None
     | Some content \<Rightarrow> (if trim content = [] then None else parse_metadata env (trim content)))"

definition marker_key :: "path_key \<Rightarrow> path_key" where
  "marker_key k = k @ [Normal marker_filename]"

definition protection_reason :: "protect_env \<Rightarrow> tree \<Rightarrow> protection_registry \<Rightarrow> path \<Rightarrow> string option" where
  "protection_reason env w r p = (case find_marker_ancestor env w r p of
     Some dir \<Rightarrow> Some (case Option.bind (read_marker_metadata env w (marker_key dir)) pm_reason of
         Some reason \<Rightarrow> ''protected by '' @ marker_filename @ '' marker: '' @ reason
       | None \<Rightarrow> ''protected by '' @ marker_filename @ '' in '' @ path_text dir)
   | None \<Rightarrow> map_option (\<lambda>(_, pat). ''protected by config pattern: '' @ original pat)
       (List.find (\<lambda>(t, pat). compiled pat t)
         (List.product (path_match_texts env w p) (config_patterns r))))"

definition register_key :: "path_key \<Rightarrow> protection_registry \<Rightarrow> protection_registry \<times> bool" where
  "register_key k r = (r\<lparr>marker_paths := insert k (marker_paths r)\<rparr>, k \<notin> marker_paths r)"

definition register_marker :: "protect_env \<Rightarrow> tree \<Rightarrow> path \<Rightarrow> protection_registry \<Rightarrow> protection_registry \<times> bool" where
  "register_marker env w dir r = register_key (resolve_absolute_path env w (components dir)) r"

definition marker_count :: "protection_registry \<Rightarrow> nat" where
  "marker_count r = card (marker_paths r)"

definition pattern_count :: "protection_registry \<Rightarrow> nat" where
  "pattern_count r = length (config_patterns r)"

definition list_protections :: "protect_env \<Rightarrow> tree \<Rightarrow> protection_registry \<Rightarrow> protection_entry list" where
  "list_protections env w r = sort_key (\<lambda>e. components (pe_path e))
     (map (\<lambda>k. \<lparr>pe_path = path_text k, pe_source = MarkerFile,
         pe_metadata = read_marker_metadata env w (marker_key k)\<rparr>) (sorted_list_of_set (marker_paths r)) @
      map (\<lambda>pat. \<lparr>pe_path = original pat, pe_source = ConfigPattern (original pat), pe_metadata = None\<rparr>)
        (config_patterns r))"

subsection \<open>Discovery of markers\<close>

text \<open>A depth-first walk with a stack; an entry of the stack is a directory and its depth.\<close>

definition subdirs :: "path_key \<Rightarrow> nat \<Rightarrow> (string \<times> fs_entry_kind) list \<Rightarrow> (path_key \<times> nat) list" where
  "subdirs dir depth es = map (\<lambda>(name, _). (dir @ [Normal name], depth + 1)) (filter (\<lambda>(_, kind). kind = KDirectory) es)"

definition walk_weight :: "tree \<Rightarrow> nat \<Rightarrow> (path_key \<times> nat) list \<Rightarrow> nat" where
  "walk_weight w m q = sum_list (map (\<lambda>(_, d). (length w + 2) ^ (m - d)) q)"

lemma list_dir_length: "list_dir env w k = Inr es \<Longrightarrow> length es \<le> length w"
proof -
  assume "list_dir env w k = Inr es"
  then have "length es \<le> length (children w k)" by (auto simp: list_dir_def split: option.splits)
  also have "\<dots> \<le> length w" by (simp add: children_def map_filter_def)
  finally show ?thesis .
qed

lemma walk_weight_children:
  assumes "length es \<le> length w" "d < m"
  shows "walk_weight w m (map (\<lambda>x. (f x, d + 1)) es) < (length w + 2) ^ (m - d)"
proof -
  have "walk_weight w m (map (\<lambda>x. (f x, d + 1)) es) = length es * (length w + 2) ^ (m - (d + 1))"
    by (induction es) (simp_all add: walk_weight_def)
  also have "\<dots> < (length w + 2) * (length w + 2) ^ (m - (d + 1))"
    using assms(1) by (intro mult_less_mono1) simp_all
  also have "\<dots> = (length w + 2) ^ (m - d)" using assms(2) by (metis Suc_diff_Suc Suc_eq_plus1 power_Suc)
  finally show ?thesis .
qed

lemma walk_weight_append: "walk_weight w m (xs @ ys) = walk_weight w m xs + walk_weight w m ys"
  by (simp add: walk_weight_def)

lemma walk_weight_Cons: "walk_weight w m ((k, d) # q) = (length w + 2) ^ (m - d) + walk_weight w m q"
  by (simp add: walk_weight_def)

lemma walk_weight_subdirs:
  assumes "list_dir env w k = Inr es" "d < m"
  shows "walk_weight w m (subdirs k d es) < (length w + 2) ^ (m - d)"
proof -
  have "length (filter (\<lambda>(_, kind). kind = KDirectory) es) \<le> length w"
    using list_dir_length [OF assms(1)] length_filter_le le_trans by blast
  then show ?thesis
    using walk_weight_children [OF _ assms(2), of "filter (\<lambda>(_, kind). kind = KDirectory) es" w "\<lambda>(name, _). k @ [Normal name]"]
    by (simp add: subdirs_def case_prod_unfold)
qed

function discover_loop ::
  "protect_env \<Rightarrow> tree \<Rightarrow> nat \<Rightarrow> (path_key \<times> nat) list \<Rightarrow> nat \<Rightarrow> protection_registry \<Rightarrow> protection_registry \<times> (sbh_error + nat)" where
  "discover_loop env w max_depth [] found r = (r, Inr found)"
| "discover_loop env w max_depth ((dir, depth) # stack) found r =
     (case lstat env w (marker_key dir) of
        Inr _ \<Rightarrow> (case register_key (resolve_absolute_path env w dir) r of (r1, fresh) \<Rightarrow>
          discover_loop env w max_depth stack (if fresh then found + 1 else found) r1)
      | Inl _ \<Rightarrow>
        if max_depth \<le> depth then discover_loop env w max_depth stack found r
        else (case list_dir env w dir of
            Inl e \<Rightarrow> if unseen e then discover_loop env w max_depth stack found r else (r, Inl (Io (path_text dir) e))
          | Inr es \<Rightarrow> discover_loop env w max_depth (rev (subdirs dir depth es) @ stack) found r))"
  by pat_completeness auto

lemma walk_weight_rev: "walk_weight w m (rev q) = walk_weight w m q"
  by (induction q) (auto simp: walk_weight_append walk_weight_Cons walk_weight_def)

lemma walk_weight_pop: "walk_weight w m q < walk_weight w m ((k, d) # q)"
  by (simp add: walk_weight_Cons)

lemma walk_weight_push:
  "list_dir env w k = Inr es \<Longrightarrow> \<not> m \<le> d \<Longrightarrow> walk_weight w m (rev (subdirs k d es) @ q) < walk_weight w m ((k, d) # q)"
  using walk_weight_subdirs [of env w k es d m] by (simp add: walk_weight_append walk_weight_Cons walk_weight_rev)

termination discover_loop
  by (relation "measure (\<lambda>(env, w, m, q, _, _). walk_weight w m q)")
    (simp_all only: wf_measure in_measure case_prod_conv walk_weight_pop, rule walk_weight_push)

declare discover_loop.simps [simp del]

definition discover_markers ::
  "protect_env \<Rightarrow> tree \<Rightarrow> path \<Rightarrow> nat \<Rightarrow> protection_registry \<Rightarrow> protection_registry \<times> (sbh_error + nat)" where
  "discover_markers env w base max_depth r =
     discover_loop env w max_depth [(resolve_absolute_path env w (components base), 0)] 0 r"

fun check_ancestors ::
  "protect_env \<Rightarrow> tree \<Rightarrow> path_key list \<Rightarrow> nat \<Rightarrow> protection_registry \<Rightarrow> protection_registry \<times> (sbh_error + nat)" where
  "check_ancestors env w [] found r = (r, Inr found)"
| "check_ancestors env w (a # as) found r = (case lstat env w (marker_key a) of
     Inr _ \<Rightarrow> (case register_key (resolve_absolute_path env w a) r of (r1, fresh) \<Rightarrow>
       check_ancestors env w as (if fresh then found + 1 else found) r1)
   | Inl e \<Rightarrow> (case io_kind e of NotFound \<Rightarrow> check_ancestors env w as found r
      | PermissionDeniedKind \<Rightarrow> (r, Inl (PermissionDenied (path_text (marker_key a))))
      | _ \<Rightarrow> (r, Inl (Io (path_text (marker_key a)) e))))"

definition discover_ancestor_markers ::
  "protect_env \<Rightarrow> tree \<Rightarrow> path \<Rightarrow> protection_registry \<Rightarrow> protection_registry \<times> (sbh_error + nat)" where
  "discover_ancestor_markers env w p r =
     check_ancestors env w (key_ancestors (resolve_absolute_path env w (components p))) 0 r"

definition create_marker ::
  "protect_env \<Rightarrow> path \<Rightarrow> protection_metadata option \<Rightarrow> tree \<Rightarrow> sbh_error + tree" where
  "create_marker env dir meta w =
     (let k = marker_key (resolve_absolute_path env w (components dir)) in
      case (case meta of None \<Rightarrow> Inr [] | Some m \<Rightarrow> metadata_toml env m) of
        Inl details \<Rightarrow> Inl (Serialization ''toml'' details)
      | Inr content \<Rightarrow> (case write_file env k content w of Inl e \<Rightarrow> Inl (Io (path_text k) e) | Inr v \<Rightarrow> Inr v))"

definition remove_marker :: "protect_env \<Rightarrow> path \<Rightarrow> tree \<Rightarrow> sbh_error + tree \<times> bool" where
  "remove_marker env dir w =
     (let k = marker_key (resolve_absolute_path env w (components dir)) in
      case unlink env k w of Inr v \<Rightarrow> Inr (v, True)
      | Inl e \<Rightarrow> if io_kind e = NotFound then Inr (w, False) else Inl (Io (path_text k) e))"

subsection \<open>Sacred paths\<close>

datatype sacred_path_kind = SacredExact | SacredGlob | ContainsAny | StowawayMarker

record sacred_path =
  sp_pattern :: string
  sp_kind :: sacred_path_kind
  sp_reason :: string
  sp_source :: sacred_path_source

fun fresh_patterns :: "string list \<Rightarrow> string list \<Rightarrow> string list" where
  "fresh_patterns seen [] = []"
| "fresh_patterns seen (p # ps) = (let t = trim p in
     if t = [] \<or> t \<in> set seen then fresh_patterns seen ps else t # fresh_patterns (t # seen) ps)"

definition sacred_paths_from_protected_patterns :: "string list \<Rightarrow> sacred_path list" where
  "sacred_paths_from_protected_patterns patterns =
     map (\<lambda>p. \<lparr>sp_pattern = p, sp_kind = (if contains_glob_metachar p then SacredGlob else SacredExact),
       sp_reason = ''User-configured protected path must never be reclaimed.'', sp_source = UserConfig\<rparr>)
       (fresh_patterns [] patterns)"

definition path_overlap_kind :: "path_key \<Rightarrow> path_key \<Rightarrow> sacred_overlap_kind option" where
  "path_overlap_kind candidate sacred =
     (if candidate = sacred then Some ExactMatch
      else if prefix sacred candidate then Some ChildOfSacred
      else if prefix candidate sacred then Some ParentOfSacred else None)"

definition overlap :: "path_key \<Rightarrow> path_key \<Rightarrow> sacred_overlap_kind \<Rightarrow> sacred_path \<Rightarrow> sacred_overlap" where
  "overlap candidate matched kind entry = \<lparr>so_candidate_path = path_text candidate,
     so_matched_path = path_text matched, so_pattern = sp_pattern entry, so_kind = kind,
     so_source = sp_source entry, so_reason = sp_reason entry\<rparr>"

definition exact_sacred_overlaps :: "protect_env \<Rightarrow> tree \<Rightarrow> path_key \<Rightarrow> sacred_path \<Rightarrow> sacred_overlap list" where
  "exact_sacred_overlaps env w candidate entry =
     (let sacred = resolve_absolute_path env w (components (expand_home_pattern env (sp_pattern entry)))
      in case path_overlap_kind candidate sacred of None \<Rightarrow> [] | Some kind \<Rightarrow> [overlap candidate sacred kind entry])"

definition glob_sacred_overlaps ::
  "protect_env \<Rightarrow> tree \<Rightarrow> path_key \<Rightarrow> sacred_path \<Rightarrow> sbh_error + sacred_overlap list" where
  "glob_sacred_overlaps env w candidate entry =
     (let normalized = normalize_protected_pattern_for_matching env w (sp_pattern entry) in
      case glob_to_regex env normalized of Inl e \<Rightarrow> Inl e
      | Inr f \<Rightarrow> Inr (
         (if f (match_text candidate) then [overlap candidate candidate GlobMatch entry] else []) @
         (case List.find (\<lambda>a. f (match_text a)) (tl (key_ancestors candidate)) of None \<Rightarrow> []
          | Some a \<Rightarrow> [overlap candidate a ChildOfSacred entry]) @
         (case literal_glob_prefix_path normalized of None \<Rightarrow> []
          | Some before \<Rightarrow> (let sacred_parent = resolve_absolute_path env w (components before) in
              if prefix candidate sacred_parent then [overlap candidate sacred_parent ParentOfSacred entry] else []))))"

definition direct_sacred_overlaps ::
  "protect_env \<Rightarrow> tree \<Rightarrow> path_key \<Rightarrow> sacred_path \<Rightarrow> sbh_error + sacred_overlap list" where
  "direct_sacred_overlaps env w candidate entry = (case sp_kind entry of
     SacredExact \<Rightarrow> Inr (exact_sacred_overlaps env w candidate entry)
   | SacredGlob \<Rightarrow> glob_sacred_overlaps env w candidate entry
   | _ \<Rightarrow> Inr [])"

subsection \<open>Sacred entries inside a candidate\<close>

record stowaway_config =
  max_depth :: nat
  stop_after_first :: bool
  max_entries :: nat
  max_dirs :: nat

definition stowaway_config_default :: stowaway_config where
  "stowaway_config_default = \<lparr>max_depth = 3, stop_after_first = True, max_entries = 2000000, max_dirs = 50000\<rparr>"

datatype stowaway_matcher = ContainsDirName string | ContainsRelativePath string | ExactName string
  | GlobPath "string \<Rightarrow> bool"

record stowaway_rule =
  sr_pattern :: string
  sr_kind :: sacred_path_kind
  sr_source :: sacred_path_source
  sr_reason :: string
  sr_matcher :: stowaway_matcher

record stowaway_match =
  sm_path :: path_key
  sm_depth :: nat
  sm_pattern :: string
  sm_kind :: sacred_path_kind
  sm_source :: sacred_path_source
  sm_reason :: string

definition path_suffix_matches :: "string \<Rightarrow> string \<Rightarrow> bool" where
  "path_suffix_matches p suf = (p = suf \<or> ends_with p (''/'' @ suf))"

fun rule_matches :: "stowaway_matcher \<Rightarrow> string \<Rightarrow> string \<Rightarrow> bool \<Rightarrow> bool" where
  "rule_matches (ContainsDirName name) fname rel is_dir = (is_dir \<and> fname = name)"
| "rule_matches (ContainsRelativePath p) fname rel is_dir = (is_dir \<and> path_suffix_matches rel p)"
| "rule_matches (ExactName name) fname rel is_dir = (fname = name \<or> path_suffix_matches rel name)"
| "rule_matches (GlobPath f) fname rel is_dir = (f fname \<or> f rel)"

definition normalized_sacred_pattern :: "string \<Rightarrow> string" where
  "normalized_sacred_pattern p = rev (dropWhile (\<lambda>c. c = CHR ''/'') (rev (forward p)))"

definition stowaway_rule_from_sacred_path :: "protect_env \<Rightarrow> sacred_path \<Rightarrow> (sbh_error + stowaway_rule) option" where
  "stowaway_rule_from_sacred_path env entry =
     (let pattern = normalized_sacred_pattern (sp_pattern entry);
          rule = (\<lambda>m. Some (Inr \<lparr>sr_pattern = sp_pattern entry, sr_kind = sp_kind entry,
            sr_source = sp_source entry, sr_reason = sp_reason entry, sr_matcher = m\<rparr>))
      in case sp_kind entry of
        ContainsAny \<Rightarrow> rule (if CHR ''/'' \<in> set pattern then ContainsRelativePath pattern else ContainsDirName pattern)
      | StowawayMarker \<Rightarrow> (if contains_glob_metachar pattern
          then (case glob_to_regex env pattern of Inl e \<Rightarrow> Some (Inl e) | Inr f \<Rightarrow> rule (GlobPath f))
          else rule (ExactName pattern))
      | _ \<Rightarrow> None)"

definition marker_rule :: stowaway_rule where
  "marker_rule = \<lparr>sr_pattern = marker_filename, sr_kind = StowawayMarker, sr_source = Marker,
     sr_reason = ''Protection marker present inside cleanup candidate.'', sr_matcher = ExactName marker_filename\<rparr>"

definition build_stowaway_rules :: "protect_env \<Rightarrow> sacred_path list \<Rightarrow> sbh_error + stowaway_rule list" where
  "build_stowaway_rules env catalog =
     (case collect_results (List.map_filter (stowaway_rule_from_sacred_path env) catalog) of
        Inl e \<Rightarrow> Inl e | Inr rules \<Rightarrow> Inr (rules @ [marker_rule]))"

definition matching_rule :: "stowaway_rule list \<Rightarrow> path_key \<Rightarrow> path_key \<Rightarrow> bool \<Rightarrow> stowaway_rule option" where
  "matching_rule rules base k is_dir =
     (let fname = (case comps_file_name k of None \<Rightarrow> [] | Some s \<Rightarrow> s);
          rel = (if prefix base k then match_text (drop (length base) k) else [])
      in List.find (\<lambda>r. rule_matches (sr_matcher r) fname rel is_dir) rules)"

definition rule_match :: "stowaway_rule \<Rightarrow> path_key \<Rightarrow> nat \<Rightarrow> stowaway_match" where
  "rule_match r k depth = \<lparr>sm_path = k, sm_depth = depth, sm_pattern = sr_pattern r, sm_kind = sr_kind r,
     sm_source = sr_source r, sm_reason = sr_reason r\<rparr>"

record walk_state =
  examined :: nat
  opened :: nat
  found :: "stowaway_match list"
  queue :: "(path_key \<times> nat) list"

text \<open>\<open>Some truncated\<close>: the walk is over.\<close>

definition examine ::
  "stowaway_config \<Rightarrow> stowaway_rule list \<Rightarrow> path_key \<Rightarrow> path_key \<Rightarrow> nat \<Rightarrow> bool \<Rightarrow> walk_state \<Rightarrow> walk_state \<times> bool" where
  "examine cfg rules base k depth is_dir st = (case matching_rule rules base k is_dir of
     None \<Rightarrow> (st, False)
   | Some r \<Rightarrow> (st\<lparr>found := found st @ [rule_match r k depth]\<rparr>, stop_after_first cfg))"

fun walk_entries ::
  "stowaway_config \<Rightarrow> stowaway_rule list \<Rightarrow> path_key \<Rightarrow> path_key \<Rightarrow> nat \<Rightarrow> (string \<times> fs_entry_kind) list \<Rightarrow>
   walk_state \<Rightarrow> walk_state \<times> bool option" where
  "walk_entries cfg rules base dir depth [] st = (st, None)"
| "walk_entries cfg rules base dir depth ((name, kind) # es) st =
     (if max_entries cfg \<noteq> 0 \<and> max_entries cfg \<le> examined st then (st, Some True)
      else let k = dir @ [Normal name] in
        (case examine cfg rules base k depth (kind = KDirectory) (st\<lparr>examined := examined st + 1\<rparr>) of
           (st1, True) \<Rightarrow> (st1, Some False)
         | (st1, False) \<Rightarrow> walk_entries cfg rules base dir depth es
             (if kind = KDirectory \<and> depth < max_depth cfg then st1\<lparr>queue := queue st1 @ [(k, depth)]\<rparr> else st1)))"

lemma walk_entries_queue:
  "\<exists>q. queue (fst (walk_entries cfg rules base dir d es st)) = queue st @ map (\<lambda>k. (k, d)) q \<and>
     length q \<le> length es \<and> (q \<noteq> [] \<longrightarrow> d < max_depth cfg)"
proof (induction es arbitrary: st)
  case (Cons e es)
  obtain name kind where e: "e = (name, kind)" by fastforce
  have ex: "queue (fst (examine cfg rules base k d b s)) = queue s" for k b s
    by (simp add: examine_def split: option.split)
  show ?case
  proof (cases "max_entries cfg \<noteq> 0 \<and> max_entries cfg \<le> examined st")
    case True
    then show ?thesis by (intro exI [of _ "[]"]) (simp add: e)
  next
    case False
    obtain st1 stop where st1: "examine cfg rules base (dir @ [Normal name]) d (kind = KDirectory)
        (st\<lparr>examined := Suc (examined st)\<rparr>) = (st1, stop)" by fastforce
    have q1: "queue st1 = queue st" using ex [of "dir @ [Normal name]" "kind = KDirectory" "st\<lparr>examined := Suc (examined st)\<rparr>"]
      unfolding st1 by simp
    show ?thesis
    proof (cases stop)
      case True
      then show ?thesis using False by (intro exI [of _ "[]"]) (simp add: e st1 Let_def q1)
    next
      case go: False
      let ?st = "if kind = KDirectory \<and> d < max_depth cfg then st1\<lparr>queue := queue st1 @ [(dir @ [Normal name], d)]\<rparr> else st1"
      obtain q where q: "queue (fst (walk_entries cfg rules base dir d es ?st)) = queue ?st @ map (\<lambda>k. (k, d)) q"
          "length q \<le> length es" "q \<noteq> [] \<longrightarrow> d < max_depth cfg"
        using Cons.IH by blast
      let ?new = "if kind = KDirectory \<and> d < max_depth cfg then [dir @ [Normal name]] else []"
      have "walk_entries cfg rules base dir d (e # es) st = walk_entries cfg rules base dir d es ?st"
        using st1 go unfolding e walk_entries.simps Let_def if_not_P [OF False] by simp
      moreover have "queue ?st = queue st @ map (\<lambda>k. (k, d)) ?new" by (simp add: q1)
      moreover have "length (?new @ q) \<le> length (e # es)" using q(2) by simp
      moreover have "?new @ q \<noteq> [] \<longrightarrow> d < max_depth cfg" using q(3) by (cases "d < max_depth cfg") simp_all
      moreover have "queue (fst (walk_entries cfg rules base dir d es ?st)) = queue st @ map (\<lambda>k. (k, d)) (?new @ q)"
        unfolding q(1) calculation(2) by (simp only: map_append append_assoc)
      ultimately show ?thesis by (intro exI [of _ "?new @ q"]) (simp only:)
    qed
  qed
qed (auto intro: exI [of _ "[]"])

function walk_queue ::
  "protect_env \<Rightarrow> tree \<Rightarrow> stowaway_config \<Rightarrow> stowaway_rule list \<Rightarrow> path_key \<Rightarrow> walk_state \<Rightarrow> sbh_error + walk_state \<times> bool" where
  "walk_queue env w cfg rules base st = (case queue st of
     [] \<Rightarrow> Inr (st, False)
   | (dir, depth) # rest \<Rightarrow>
     if (max_dirs cfg \<noteq> 0 \<and> max_dirs cfg \<le> opened st) \<or> (max_entries cfg \<noteq> 0 \<and> max_entries cfg \<le> examined st)
     then Inr (st, True)
     else (case list_dir env w dir of
         Inl e \<Rightarrow> if unseen e then walk_queue env w cfg rules base (st\<lparr>queue := rest\<rparr>) else Inl (Io (path_text dir) e)
       | Inr es \<Rightarrow>
         (case walk_entries cfg rules base dir (depth + 1) es (st\<lparr>queue := rest, opened := opened st + 1\<rparr>) of
            (st1, Some truncated) \<Rightarrow> Inr (st1, truncated)
          | (st1, None) \<Rightarrow> walk_queue env w cfg rules base st1)))"
  by pat_completeness auto

lemma walk_weight_entries:
  assumes "list_dir env w dir = Inr es"
    and "(st1, r) = walk_entries cfg rules base dir (depth + 1) es (st\<lparr>queue := rest, opened := n\<rparr>)"
    and "(dir, depth) = e"
  shows "walk_weight w (max_depth cfg) (queue st1) < walk_weight w (max_depth cfg) (e # rest)"
proof -
  obtain q where q: "queue st1 = rest @ map (\<lambda>k. (k, depth + 1)) q" "length q \<le> length es"
      "q \<noteq> [] \<longrightarrow> depth + 1 < max_depth cfg"
    using walk_entries_queue [of cfg rules base dir "depth + 1" es "st\<lparr>queue := rest, opened := n\<rparr>"]
    unfolding assms(2) [symmetric] by auto
  have "walk_weight w (max_depth cfg) (map (\<lambda>k. (k, depth + 1)) q) < (length w + 2) ^ (max_depth cfg - depth)"
  proof (cases "q = []")
    case False
    then show ?thesis
      using walk_weight_children [of q w depth "max_depth cfg" "\<lambda>k. k"] q(2,3) list_dir_length [OF assms(1)] by simp
  qed (simp add: walk_weight_def)
  then show ?thesis by (simp add: q(1) assms(3) [symmetric] walk_weight_append walk_weight_Cons)
qed

termination walk_queue
proof (relation "measure (\<lambda>(env, w, cfg, _, _, st). walk_weight w (max_depth cfg) (queue st))", goal_cases)
  case 2
  then show ?case by (auto simp: walk_weight_pop)
next
  case 3
  then show ?case by (simp only: in_measure case_prod_conv) (rule walk_weight_entries)
qed simp

declare walk_queue.simps [simp del]

definition scan_stowaways_bounded ::
  "protect_env \<Rightarrow> tree \<Rightarrow> path_key \<Rightarrow> sacred_path list \<Rightarrow> stowaway_config \<Rightarrow> sbh_error + stowaway_match list \<times> bool" where
  "scan_stowaways_bounded env w k catalog cfg = (case build_stowaway_rules env catalog of Inl e \<Rightarrow> Inl e
   | Inr rules \<Rightarrow>
     (let base = resolve_absolute_path env w k in
      case lstat env w base of
        Inl e \<Rightarrow> if unseen e then Inr ([], False) else Inl (Io (path_text base) e)
      | Inr n \<Rightarrow>
        (case examine cfg rules base base 0 (id_kind n = KDirectory)
            \<lparr>examined = 1, opened = 0, found = [], queue = []\<rparr> of
           (st, True) \<Rightarrow> Inr (found st, False)
         | (st, False) \<Rightarrow>
           (case walk_queue env w cfg rules base
              (st\<lparr>queue := (if id_kind n = KDirectory \<and> 0 < max_depth cfg then [(base, 0)] else [])\<rparr>) of
              Inl e \<Rightarrow> Inl e | Inr (st1, truncated) \<Rightarrow> Inr (found st1, truncated)))))"

definition scan_stowaways_with_config ::
  "protect_env \<Rightarrow> tree \<Rightarrow> path_key \<Rightarrow> sacred_path list \<Rightarrow> stowaway_config \<Rightarrow> sbh_error + stowaway_match list" where
  "scan_stowaways_with_config env w k catalog cfg = (case scan_stowaways_bounded env w k catalog cfg of
     Inl e \<Rightarrow> Inl e | Inr (ms, _) \<Rightarrow> Inr ms)"

definition scan_stowaways ::
  "protect_env \<Rightarrow> tree \<Rightarrow> path_key \<Rightarrow> sacred_path list \<Rightarrow> sbh_error + stowaway_match list" where
  "scan_stowaways env w k catalog = scan_stowaways_with_config env w k catalog stowaway_config_default"

subsection \<open>All overlaps of a candidate\<close>

definition same_overlap :: "sacred_overlap \<Rightarrow> sacred_overlap \<Rightarrow> bool" where
  "same_overlap a b = (path_eq (so_matched_path a) (so_matched_path b) \<and> so_pattern a = so_pattern b \<and>
     so_kind a = so_kind b \<and> so_source a = so_source b)"

text \<open>\<open>Vec::dedup_by\<close>: drops an element that repeats the last one kept.\<close>

fun dedup_by :: "('a \<Rightarrow> 'a \<Rightarrow> bool) \<Rightarrow> 'a list \<Rightarrow> 'a list" where
  "dedup_by same (x # y # ys) = (if same y x then dedup_by same (x # ys) else x # dedup_by same (y # ys))"
| "dedup_by same xs = xs"

definition truncation_overlap :: "path_key \<Rightarrow> stowaway_config \<Rightarrow> sacred_overlap" where
  "truncation_overlap candidate cfg = \<lparr>so_candidate_path = path_text candidate,
     so_matched_path = path_text candidate, so_pattern = ''<containment-scan-truncated>'',
     so_kind = ContainsSacred, so_source = Builtin,
     so_reason = ''sacred-marker containment scan truncated after '' @ show_nat (max_entries cfg) @
       '' entries (depth '' @ show_nat (max_depth cfg) @ ''); treating subtree as protected (fail-closed)''\<rparr>"

definition find_sacred_overlaps_with_config ::
  "protect_env \<Rightarrow> tree \<Rightarrow> path \<Rightarrow> sacred_path list \<Rightarrow> stowaway_config \<Rightarrow> sbh_error + sacred_overlap list" where
  "find_sacred_overlaps_with_config env w p catalog cfg =
     (let candidate = resolve_absolute_path env w (components p) in
      case collect_results (map (direct_sacred_overlaps env w candidate) catalog) of Inl e \<Rightarrow> Inl e
      | Inr direct \<Rightarrow>
        (case scan_stowaways_bounded env w candidate catalog cfg of Inl e \<Rightarrow> Inl e
         | Inr (ms, truncated) \<Rightarrow>
           Inr (dedup_by same_overlap
             (sort_key (\<lambda>ov. (components (so_matched_path ov), so_pattern ov, sacred_overlap_kind_label (so_kind ov)))
               (concat direct @
                map (\<lambda>m. \<lparr>so_candidate_path = path_text candidate, so_matched_path = path_text (sm_path m),
                  so_pattern = sm_pattern m, so_kind = ContainsSacred, so_source = sm_source m,
                  so_reason = sm_reason m\<rparr>) ms @
                (if truncated then [truncation_overlap candidate cfg] else []))))))"

definition find_sacred_overlaps ::
  "protect_env \<Rightarrow> tree \<Rightarrow> path \<Rightarrow> sacred_path list \<Rightarrow> sbh_error + sacred_overlap list" where
  "find_sacred_overlaps env w p catalog = find_sacred_overlaps_with_config env w p catalog stowaway_config_default"

end
