(* ===== verification/Protection_Run.thy ===== *)
theory Protection_Run
  imports Protection
begin

section \<open>What the protection checks find\<close>

text \<open>
  The bounded search for sacred entries is compared with its specification: the entries of the
  subtree within the depth limit that a rule matches. A search that ran out of its budget says so,
  and the overlaps of the candidate are then never empty. Markers and protected paths above and
  below a candidate are found, and paths without symbolic links resolve to themselves.
\<close>

subsection \<open>Resolution of plain paths\<close>

definition plain :: "protect_env \<Rightarrow> tree \<Rightarrow> path_key \<Rightarrow> bool" where
  "plain env w k = (canonical env w [RootDir] = Some [RootDir] \<and>
     (\<forall>a n. prefix a k \<longrightarrow> symlink_metadata w a = Some n \<longrightarrow> id_kind n \<noteq> KSymlink))"

lemma plain_prefix: "plain env w k \<Longrightarrow> prefix a k \<Longrightarrow> plain env w a"
  unfolding plain_def using prefix_order.trans by blast

lemma resolve_ancestor_plain: "plain env w (RootDir # map Normal ns) \<Longrightarrow> resolve_ancestor env w (RootDir # map Normal ns) = RootDir # map Normal ns"
proof (induction ns rule: rev_induct)
  case Nil
  then show ?case by (simp add: resolve_ancestor.simps [of env w "[RootDir]"] name_component_def comps_file_name_def resolve_uncached_def plain_def)
next
  case (snoc a ns)
  let ?k = "RootDir # map Normal (ns @ [a])"
  have "plain env w (RootDir # map Normal ns)" using snoc.prems by (rule plain_prefix) simp
  then have "resolve_ancestor env w (butlast ?k) = butlast ?k" using snoc.IH by (simp add: butlast_append)
  moreover have "CurDir \<notin> set ?k" "ParentDir \<notin> set ?k" "name_component ?k" by (auto simp: name_component_def comps_file_name_def)
  moreover have "id_kind n \<noteq> KSymlink" if "lstat env w ?k = Inr n" for n
  proof -
    have "symlink_metadata w ?k = Some n" using that by (auto simp: lstat_def split: option.splits)
    then show ?thesis using snoc.prems by (auto simp: plain_def)
  qed
  moreover have "butlast ?k @ [last ?k] = ?k" by simp
  ultimately show ?case
    by (subst resolve_ancestor.simps) (auto simp del: list.map map_append simp: Let_def split: sum.split)
qed

lemma resolve_plain: "plain env w (RootDir # map Normal ns) \<Longrightarrow> resolve_absolute_path env w (RootDir # map Normal ns) = RootDir # map Normal ns"
  by (simp add: resolve_absolute_path_def resolve_ancestor_plain)

text \<open>In a well-formed tree the directories above an entry are no links.\<close>

lemma plain_entry:
  assumes "wf_tree w" "canonical env w [RootDir] = Some [RootDir]" "(k, n) \<in> set w" "id_kind n \<noteq> KSymlink"
  shows "plain env w k"
  unfolding plain_def
proof (intro conjI allI impI)
  fix a m assume a: "prefix a k" "symlink_metadata w a = Some m"
  have k: "symlink_metadata w k = Some n" using wf_tree_distinct [OF assms(1,3)] .
  obtain ys where ys: "k = a @ ys" using a(1) by (auto simp: prefix_def)
  have "(a, m) \<in> set w" using a(2) by (simp add: symlink_metadata_def map_of_SomeD)
  then have "a \<noteq> []" using assms(1) by (auto simp: wf_tree_def)
  show "id_kind m \<noteq> KSymlink"
  proof (cases "ys = []")
    case True
    then show ?thesis using a(2) k ys assms(4) by simp
  next
    case False
    then obtain m' where "(a, m') \<in> set w" "id_kind m' = KDirectory"
      using directory_above [OF assms(1), of a ys n] assms(3) ys \<open>a \<noteq> []\<close> by auto
    then show ?thesis using wf_tree_distinct [OF assms(1)] a(2) by fastforce
  qed
qed (rule assms(2))

lemma resolve_entry:
  assumes "wf_tree w" "canonical env w [RootDir] = Some [RootDir]" "(k, n) \<in> set w" "id_kind n \<noteq> KSymlink"
  shows "resolve_absolute_path env w k = k"
proof -
  obtain ns where k: "k = RootDir # map Normal ns" using assms(1,3) by (auto simp: wf_tree_def)
  show ?thesis unfolding k by (rule resolve_plain) (use plain_entry [OF assms] k in simp)
qed

subsection \<open>The search inside a candidate\<close>

text \<open>The specification: an entry below the base that a rule matches.\<close>

definition sacred_inside :: "tree \<Rightarrow> stowaway_rule list \<Rightarrow> path_key \<Rightarrow> nat \<Rightarrow> path_key \<Rightarrow> bool" where
  "sacred_inside w rules base d k = (prefix base k \<and> length k \<le> length base + d \<and>
     (\<exists>n. symlink_metadata w k = Some n \<and> matching_rule rules base k (id_kind n = KDirectory) \<noteq> None))"

definition sound_match :: "tree \<Rightarrow> stowaway_rule list \<Rightarrow> path_key \<Rightarrow> nat \<Rightarrow> stowaway_match \<Rightarrow> bool" where
  "sound_match w rules base d m = (sacred_inside w rules base d (sm_path m) \<and>
     sm_depth m = length (sm_path m) - length base \<and>
     (\<exists>r \<in> set rules. m = rule_match r (sm_path m) (sm_depth m)))"

lemma examine_eq:
  "examine cfg rules base k d b st =
     (st\<lparr>found := found st @ (case matching_rule rules base k b of None \<Rightarrow> [] | Some r \<Rightarrow> [rule_match r k d])\<rparr>,
      matching_rule rules base k b \<noteq> None \<and> stop_after_first cfg)"
  by (simp add: examine_def split: option.split)

definition enqueue :: "stowaway_config \<Rightarrow> path_key \<Rightarrow> nat \<Rightarrow> bool \<Rightarrow> walk_state \<Rightarrow> walk_state" where
  "enqueue cfg k d b st = (if b \<and> d < max_depth cfg then st\<lparr>queue := queue st @ [(k, d)]\<rparr> else st)"

lemma enqueue_simps [simp]: "found (enqueue cfg k d b st) = found st" "examined (enqueue cfg k d b st) = examined st"
  "opened (enqueue cfg k d b st) = opened st"
  "set (queue (enqueue cfg k d b st)) = set (queue st) \<union> (if b \<and> d < max_depth cfg then {(k, d)} else {})"
  by (simp_all add: enqueue_def)

text \<open>One entry: the budget, the rules, the queue.\<close>

lemma walk_entries_Cons:
  "walk_entries cfg rules base dir d ((name, kind) # es) st =
    (let k = dir @ [Normal name]; st1 = fst (examine cfg rules base k d (kind = KDirectory) (st\<lparr>examined := examined st + 1\<rparr>)) in
     if max_entries cfg \<noteq> 0 \<and> max_entries cfg \<le> examined st then (st, Some True)
     else if matching_rule rules base k (kind = KDirectory) \<noteq> None \<and> stop_after_first cfg then (st1, Some False)
     else walk_entries cfg rules base dir d es (enqueue cfg k d (kind = KDirectory) st1))"
  by (simp add: examine_eq enqueue_def Let_def)

declare walk_entries.simps(2) [simp del]

lemma walk_entries_sound:
  assumes "\<And>name kind. (name, kind) \<in> set es \<Longrightarrow> \<exists>n. symlink_metadata w (dir @ [Normal name]) = Some n \<and> id_kind n = kind"
    and "prefix base dir" and "length dir + 1 = length base + d" and "d \<le> md" and "\<forall>m \<in> set (found st). sound_match w rules base md m"
  shows "\<forall>m \<in> set (found (fst (walk_entries cfg rules base dir d es st))). sound_match w rules base md m"
  using assms(1,5)
proof (induction es arbitrary: st)
  case (Cons e es)
  obtain name kind where e: "e = (name, kind)" by fastforce
  let ?k = "dir @ [Normal name]"
  let ?st1 = "fst (examine cfg rules base ?k d (kind = KDirectory) (st\<lparr>examined := examined st + 1\<rparr>))"
  have "sound_match w rules base md (rule_match r ?k d)" if "matching_rule rules base ?k (kind = KDirectory) = Some r" for r
  proof -
    have "r \<in> set rules" using that by (auto simp: matching_rule_def Let_def find_Some_iff)
    moreover have "sacred_inside w rules base md ?k"
      using Cons.prems(1) [of name kind] that assms(2-4) by (auto simp: sacred_inside_def e prefix_order.trans [OF assms(2)])
    ultimately show ?thesis using assms(3) by (auto simp: sound_match_def rule_match_def)
  qed
  then have st1: "\<forall>m \<in> set (found ?st1). sound_match w rules base md m"
    using Cons.prems(2) by (auto simp: examine_eq split: option.splits)
  have IH: "\<forall>m \<in> set (found (fst (walk_entries cfg rules base dir d es (enqueue cfg ?k d (kind = KDirectory) ?st1)))). sound_match w rules base md m"
    using Cons.prems(1) st1 by (intro Cons.IH) (simp_all add: e)
  show ?case unfolding e walk_entries_Cons Let_def
    using IH st1 Cons.prems(2) by (auto simp only: fst_conv split: if_split)
qed simp

lemma walk_entries_queue_mono: "set (queue st) \<subseteq> set (queue (fst (walk_entries cfg rules base dir d es st)))"
  using walk_entries_queue [of cfg rules base dir d es st] by auto

lemma walk_entries_found_mono: "\<exists>ms. found (fst (walk_entries cfg rules base dir d es st)) = found st @ ms"
proof (induction es arbitrary: st)
  case (Cons e es)
  obtain name kind where e: "e = (name, kind)" by fastforce
  let ?st1 = "fst (examine cfg rules base (dir @ [Normal name]) d (kind = KDirectory) (st\<lparr>examined := examined st + 1\<rparr>))"
  let ?st2 = "enqueue cfg (dir @ [Normal name]) d (kind = KDirectory) ?st1"
  obtain ms where ms: "found (fst (walk_entries cfg rules base dir d es ?st2)) = found ?st2 @ ms" using Cons.IH by blast
  obtain ms1 where ms1: "found ?st1 = found st @ ms1" by (simp add: examine_eq)
  show ?case unfolding e walk_entries_Cons Let_def using ms ms1
    by (auto simp only: fst_conv enqueue_simps append_assoc split: if_split)
qed simp

lemma walk_entries_done: "walk_entries cfg rules base dir d es st = (st1, Some False) \<Longrightarrow> stop_after_first cfg \<and> found st1 \<noteq> []"
proof (induction es arbitrary: st)
  case (Cons e es)
  obtain name kind where e: "e = (name, kind)" by fastforce
  show ?case using Cons.prems Cons.IH unfolding e walk_entries_Cons Let_def
    by (auto simp: examine_eq split: if_splits option.splits)
qed simp

text \<open>A directory listed to its end: every entry was tried, and its directories wait in the queue.\<close>

lemma walk_entries_all:
  assumes "walk_entries cfg rules base dir d es st = (st1, None)" "(name, kind) \<in> set es"
  shows "(matching_rule rules base (dir @ [Normal name]) (kind = KDirectory) \<noteq> None \<longrightarrow>
      \<not> stop_after_first cfg \<and> dir @ [Normal name] \<in> sm_path ` set (found st1)) \<and>
    (kind = KDirectory \<and> d < max_depth cfg \<longrightarrow> (dir @ [Normal name], d) \<in> set (queue st1))"
  using assms
proof (induction es arbitrary: st)
  case (Cons e es)
  obtain name' kind' where e: "e = (name', kind')" by fastforce
  let ?k = "dir @ [Normal name']"
  let ?st1 = "fst (examine cfg rules base ?k d (kind' = KDirectory) (st\<lparr>examined := examined st + 1\<rparr>))"
  let ?st2 = "enqueue cfg ?k d (kind' = KDirectory) ?st1"
  have go: "\<not> (matching_rule rules base ?k (kind' = KDirectory) \<noteq> None \<and> stop_after_first cfg)"
      "walk_entries cfg rules base dir d es ?st2 = (st1, None)"
    using Cons.prems(1) unfolding e walk_entries_Cons Let_def by (auto split: if_splits)
  show ?case
  proof (cases "(name, kind) \<in> set es")
    case True
    then show ?thesis using Cons.IH [OF go(2)] by blast
  next
    case False
    then have n: "name = name'" "kind = kind'" using Cons.prems(2) e by auto
    obtain ms where f: "found st1 = found ?st2 @ ms"
      using walk_entries_found_mono [of cfg rules base dir d es ?st2] go(2) by auto
    have q: "set (queue ?st2) \<subseteq> set (queue st1)" using walk_entries_queue_mono [of ?st2 cfg rules base dir d es] go(2) by simp
    have "?k \<in> sm_path ` set (found ?st2)" if "matching_rule rules base ?k (kind' = KDirectory) \<noteq> None"
      using that by (auto simp: examine_eq rule_match_def image_iff)
    then show ?thesis using go(1) q f n by auto
  qed
qed simp

text \<open>Nothing on the way to an entry is hidden from the search.\<close>

definition reachable_entry :: "protect_env \<Rightarrow> path_key \<Rightarrow> path_key \<Rightarrow> bool" where
  "reachable_entry env base k = (\<forall>a. prefix base a \<longrightarrow> prefix a k \<longrightarrow> listing_error env a = None \<and> \<not> entry_lost env a)"

definition recorded :: "stowaway_config \<Rightarrow> path_key \<Rightarrow> walk_state \<Rightarrow> bool" where
  "recorded cfg k st = (if stop_after_first cfg then found st \<noteq> [] else k \<in> sm_path ` set (found st))"

definition waiting :: "path_key \<Rightarrow> path_key \<Rightarrow> walk_state \<Rightarrow> bool" where
  "waiting base k st = (\<exists>dir d. (dir, d) \<in> set (queue st) \<and> prefix base dir \<and> strict_prefix dir k \<and> length base + d = length dir)"

lemma recorded_mono: "recorded cfg k st \<Longrightarrow> found st1 = found st @ ms \<Longrightarrow> recorded cfg k st1"
  by (auto simp: recorded_def split: if_splits)

lemma walk_entries_progress:
  assumes "wf_tree w" "symlink_metadata w k = Some n" "matching_rule rules base k (id_kind n = KDirectory) \<noteq> None"
    and "reachable_entry env base k" "length k \<le> length base + max_depth cfg" "base \<noteq> []"
    and "list_dir env w dir = Inr es" "walk_entries cfg rules base dir (d + 1) es st = (st1, None)"
    and "prefix base dir" "strict_prefix dir k" "length base + d = length dir"
  shows "recorded cfg k st1 \<or> waiting base k st1"
proof -
  have kw: "(k, n) \<in> set w" using assms(2) by (simp add: symlink_metadata_def map_of_SomeD)
  then obtain ns where k: "k = RootDir # map Normal ns" using assms(1) by (auto simp: wf_tree_def)
  obtain y ys where ys: "k = dir @ y # ys" using assms(10) by (elim strict_prefixE')
  have "dir \<noteq> []" using assms(6,9) by auto
  then obtain dir' where "dir = RootDir # dir'" using k ys by (cases dir) auto
  then have "map Normal ns = dir' @ y # ys" using k ys by simp
  then have "y \<in> set (map Normal ns)" by simp
  then obtain name where y: "y = Normal name" by auto
  have mem: "(name, kind) \<in> set es" if "(dir @ [Normal name], m) \<in> set w" "id_kind m = kind" for m kind
  proof -
    have "prefix base (dir @ [Normal name])" "prefix (dir @ [Normal name]) k" using assms(9) ys y by auto
    then have "\<not> entry_lost env (dir @ [Normal name])" using assms(4) by (auto simp: reachable_entry_def)
    then show ?thesis using assms(7) that children_iff [of name kind w dir] by (auto simp: list_dir_def split: option.splits)
  qed
  show ?thesis
  proof (cases "ys = []")
    case True
    then have "(name, id_kind n) \<in> set es" using mem kw ys y by simp
    note all = walk_entries_all [OF assms(8) this]
    have "dir @ [Normal name] = k" using True ys y by simp
    then show ?thesis using all assms(3) by (simp add: recorded_def)
  next
    case False
    then obtain m where m: "(dir @ [Normal name], m) \<in> set w" "id_kind m = KDirectory"
      using directory_above [OF assms(1), of "dir @ [Normal name]" ys n] kw ys y by auto
    note all = walk_entries_all [OF assms(8) mem [OF m]]
    have "length dir + 2 \<le> length k" using ys False by (cases ys) auto
    then have "d + 1 < max_depth cfg" using assms(5,11) by simp
    then have "(dir @ [Normal name], d + 1) \<in> set (queue st1)" using all by simp
    moreover have "strict_prefix (dir @ [Normal name]) k" using ys y False by (auto simp: strict_prefix_def)
    ultimately show ?thesis using assms(9,11) unfolding waiting_def
      by (intro disjI2 exI [of _ "dir @ [Normal name]"] exI [of _ "d + 1"]) simp
  qed
qed

lemma walk_queue_step:
  assumes "queue st = (dir, d) # rest"
    and "\<not> ((max_dirs cfg \<noteq> 0 \<and> max_dirs cfg \<le> opened st) \<or> (max_entries cfg \<noteq> 0 \<and> max_entries cfg \<le> examined st))"
    and "list_dir env w dir = Inr es"
    and "walk_entries cfg rules base dir (d + 1) es (st\<lparr>queue := rest, opened := opened st + 1\<rparr>) = (st', r)"
  shows "walk_queue env w cfg rules base st = (case r of Some b \<Rightarrow> Inr (st', b) | None \<Rightarrow> walk_queue env w cfg rules base st')"
  unfolding walk_queue.simps [of env w cfg rules base st] assms(1) list.case prod.case if_not_P [OF assms(2)] assms(3) sum.case assms(4)
  by (cases r) simp_all

lemma walk_queue_complete:
  assumes "wf_tree w" "symlink_metadata w k = Some n" "matching_rule rules base k (id_kind n = KDirectory) \<noteq> None"
    and "reachable_entry env base k" "length k \<le> length base + max_depth cfg" "base \<noteq> []"
  shows "walk_queue env w cfg rules base st = Inr (st1, t) \<Longrightarrow> recorded cfg k st \<or> waiting base k st \<Longrightarrow> t \<or> recorded cfg k st1"
  using assms
proof (induction env w cfg rules base st rule: walk_queue.induct)
  case (1 env w cfg rules base st)
  note run = "1.prems"(1) and hyps = "1.prems"(3-8)
  show ?case
  proof (cases "queue st")
    case Nil
    then show ?thesis using run "1.prems"(2) by (simp add: walk_queue.simps [of env w cfg rules base st] waiting_def)
  next
    case (Cons e rest)
    obtain dir d where e: "e = (dir, d)" by fastforce
    show ?thesis
    proof (cases "(max_dirs cfg \<noteq> 0 \<and> max_dirs cfg \<le> opened st) \<or> (max_entries cfg \<noteq> 0 \<and> max_entries cfg \<le> examined st)")
      case True
      then show ?thesis using run by (simp add: walk_queue.simps [of env w cfg rules base st] Cons e)
    next
      case False
      show ?thesis
      proof (cases "list_dir env w dir")
        case (Inl err)
        then have err: "listing_error env dir \<noteq> None" by (auto simp: list_dir_def split: option.splits)
        have r: "unseen err" "walk_queue env w cfg rules base (st\<lparr>queue := rest\<rparr>) = Inr (st1, t)"
          using run False Inl by (auto simp: walk_queue.simps [of env w cfg rules base st] Cons e split: if_splits)
        have "recorded cfg k (st\<lparr>queue := rest\<rparr>) \<or> waiting base k (st\<lparr>queue := rest\<rparr>)"
          using "1.prems"(2) hyps(4) err by (auto simp: recorded_def waiting_def Cons e reachable_entry_def strict_prefix_def)
        then show ?thesis using "1.IH"(1) [OF Cons e [symmetric] False Inl r(1) r(2) _ hyps] by blast
      next
        case (Inr es)
        let ?st = "st\<lparr>queue := rest, opened := opened st + 1\<rparr>"
        obtain st' r where w: "walk_entries cfg rules base dir (d + 1) es ?st = (st', r)" by fastforce
        obtain ms where ms: "found st' = found st @ ms"
          using walk_entries_found_mono [of cfg rules base dir "d + 1" es ?st] w by auto
        have q: "set rest \<subseteq> set (queue st')" using walk_entries_queue_mono [of ?st cfg rules base dir "d + 1" es] w by simp
        show ?thesis
        proof (cases r)
          case (Some b)
          then have "st1 = st'" "t = b" using run walk_queue_step [OF _ False Inr w] by (simp_all add: Cons e)
          then show ?thesis using walk_entries_done [of cfg rules base dir "d + 1" es ?st st'] w Some by (cases b) (auto simp: recorded_def)
        next
          case None
          have r: "walk_queue env w cfg rules base st' = Inr (st1, t)"
            using run walk_queue_step [OF _ False Inr w] None by (simp add: Cons e)
          have "recorded cfg k st' \<or> waiting base k st'"
          proof (cases "recorded cfg k st")
            case True
            then show ?thesis using recorded_mono ms by blast
          next
            case False
            then obtain dir' d' where x: "(dir', d') \<in> set (queue st)" "prefix base dir'" "strict_prefix dir' k" "length base + d' = length dir'"
              using "1.prems"(2) by (auto simp: waiting_def)
            show ?thesis
            proof (cases "(dir', d') = (dir, d)")
              case True
              then show ?thesis using walk_entries_progress [OF hyps Inr w [unfolded None]] x by simp
            next
              case False
              then have "(dir', d') \<in> set (queue st')" using x(1) q by (auto simp: Cons e)
              then show ?thesis using x by (auto simp: waiting_def)
            qed
          qed
          then show ?thesis using "1.IH"(2) [OF Cons e [symmetric] False Inr w [symmetric, unfolded None] refl r _ hyps] by blast
        qed
      qed
    qed
  qed
qed

definition queue_below :: "path_key \<Rightarrow> stowaway_config \<Rightarrow> walk_state \<Rightarrow> bool" where
  "queue_below base cfg st = (\<forall>(dir, d) \<in> set (queue st). prefix base dir \<and> length dir = length base + d \<and> d < max_depth cfg)"

lemma walk_entries_new:
  "x \<in> set (queue (fst (walk_entries cfg rules base dir d es st))) \<Longrightarrow>
    x \<in> set (queue st) \<or> (d < max_depth cfg \<and> (\<exists>name. x = (dir @ [Normal name], d)))"
proof (induction es arbitrary: st)
  case (Cons e es)
  obtain name kind where e: "e = (name, kind)" by fastforce
  have "queue (fst (examine cfg rules base (dir @ [Normal name]) d b s)) = queue s" for b s by (simp add: examine_eq)
  then show ?case using Cons.prems Cons.IH unfolding e walk_entries_Cons Let_def
    by (fastforce split: if_splits)
qed simp

lemma list_dir_entry:
  "wf_tree w \<Longrightarrow> list_dir env w dir = Inr es \<Longrightarrow> (name, kind) \<in> set es \<Longrightarrow>
    \<exists>n. symlink_metadata w (dir @ [Normal name]) = Some n \<and> id_kind n = kind"
  using wf_tree_distinct by (auto simp: list_dir_def children_iff split: option.splits)

lemma walk_queue_sound:
  assumes "wf_tree w"
  shows "walk_queue env w cfg rules base st = Inr (st1, t) \<Longrightarrow> queue_below base cfg st \<Longrightarrow>
    \<forall>m \<in> set (found st). sound_match w rules base (max_depth cfg) m \<Longrightarrow>
    \<forall>m \<in> set (found st1). sound_match w rules base (max_depth cfg) m"
  using assms
proof (induction env w cfg rules base st rule: walk_queue.induct)
  case (1 env w cfg rules base st)
  note run = "1.prems"(1) and below = "1.prems"(2) and ok = "1.prems"(3) and wf = "1.prems"(4)
  show ?case
  proof (cases "queue st")
    case Nil
    then show ?thesis using run ok by (simp add: walk_queue.simps [of env w cfg rules base st])
  next
    case (Cons e rest)
    obtain dir d where e: "e = (dir, d)" by fastforce
    have d: "prefix base dir" "length dir = length base + d" "d < max_depth cfg" "queue_below base cfg (st\<lparr>queue := rest\<rparr>)"
      using below by (auto simp: queue_below_def Cons e)
    show ?thesis
    proof (cases "(max_dirs cfg \<noteq> 0 \<and> max_dirs cfg \<le> opened st) \<or> (max_entries cfg \<noteq> 0 \<and> max_entries cfg \<le> examined st)")
      case True
      then show ?thesis using run ok by (simp add: walk_queue.simps [of env w cfg rules base st] Cons e)
    next
      case False
      show ?thesis
      proof (cases "list_dir env w dir")
        case (Inl err)
        have r: "unseen err" "walk_queue env w cfg rules base (st\<lparr>queue := rest\<rparr>) = Inr (st1, t)"
          using run False Inl by (auto simp: walk_queue.simps [of env w cfg rules base st] Cons e split: if_splits)
        show ?thesis using "1.IH"(1) [OF Cons e [symmetric] False Inl r(1) r(2) d(4) _ wf] ok by simp
      next
        case (Inr es)
        let ?st = "st\<lparr>queue := rest, opened := opened st + 1\<rparr>"
        obtain st' r where w: "walk_entries cfg rules base dir (d + 1) es ?st = (st', r)" by fastforce
        have ok': "\<forall>m \<in> set (found st'). sound_match w rules base (max_depth cfg) m"
          using walk_entries_sound [of es w dir base "d + 1" "max_depth cfg" ?st rules cfg] list_dir_entry [OF wf Inr] d ok w by simp
        have "x \<in> set rest \<or> (d + 1 < max_depth cfg \<and> (\<exists>name. x = (dir @ [Normal name], d + 1)))" if "x \<in> set (queue st')" for x
          using walk_entries_new [of x cfg rules base dir "d + 1" es ?st] that w by simp
        then have "queue_below base cfg st'" using d unfolding queue_below_def by fastforce
        then show ?thesis
          using run walk_queue_step [OF _ False Inr w] ok' "1.IH"(2) [OF Cons e [symmetric] False Inr w [symmetric] _ _ _ ok' wf]
          by (cases r) (simp_all add: Cons e)
      qed
    qed
  qed
qed

text \<open>The work of a search stays within its budgets.\<close>

lemma walk_entries_examined:
  "max_entries cfg \<noteq> 0 \<Longrightarrow> examined st \<le> max_entries cfg \<Longrightarrow>
    examined (fst (walk_entries cfg rules base dir d es st)) \<le> max_entries cfg \<and>
    opened (fst (walk_entries cfg rules base dir d es st)) = opened st"
proof (induction es arbitrary: st)
  case (Cons e es)
  obtain name kind where e: "e = (name, kind)" by fastforce
  have "examined (fst (examine cfg rules base (dir @ [Normal name]) d b s)) = examined s"
    "opened (fst (examine cfg rules base (dir @ [Normal name]) d b s)) = opened s" for b s by (simp_all add: examine_eq)
  then show ?case using Cons.prems Cons.IH unfolding e walk_entries_Cons Let_def by auto
qed simp

lemma walk_queue_budget:
  "walk_queue env w cfg rules base st = Inr (st1, t) \<Longrightarrow> max_entries cfg \<noteq> 0 \<Longrightarrow> max_dirs cfg \<noteq> 0 \<Longrightarrow>
    examined st \<le> max_entries cfg \<Longrightarrow> opened st \<le> max_dirs cfg \<Longrightarrow>
    examined st1 \<le> max_entries cfg \<and> opened st1 \<le> max_dirs cfg"
proof (induction env w cfg rules base st rule: walk_queue.induct)
  case (1 env w cfg rules base st)
  note run = "1.prems"(1) and pos = "1.prems"(2,3) and low = "1.prems"(4,5)
  show ?case
  proof (cases "queue st")
    case Nil
    then show ?thesis using run low by (simp add: walk_queue.simps [of env w cfg rules base st])
  next
    case (Cons e rest)
    obtain dir d where e: "e = (dir, d)" by fastforce
    show ?thesis
    proof (cases "(max_dirs cfg \<noteq> 0 \<and> max_dirs cfg \<le> opened st) \<or> (max_entries cfg \<noteq> 0 \<and> max_entries cfg \<le> examined st)")
      case True
      then show ?thesis using run low by (simp add: walk_queue.simps [of env w cfg rules base st] Cons e)
    next
      case False
      show ?thesis
      proof (cases "list_dir env w dir")
        case (Inl err)
        have r: "unseen err" "walk_queue env w cfg rules base (st\<lparr>queue := rest\<rparr>) = Inr (st1, t)"
          using run False Inl by (auto simp: walk_queue.simps [of env w cfg rules base st] Cons e split: if_splits)
        show ?thesis using "1.IH"(1) [OF Cons e [symmetric] False Inl r(1) r(2) pos] low by simp
      next
        case (Inr es)
        let ?st = "st\<lparr>queue := rest, opened := opened st + 1\<rparr>"
        obtain st' r where w: "walk_entries cfg rules base dir (d + 1) es ?st = (st', r)" by fastforce
        have b: "examined st' \<le> max_entries cfg" "opened st' \<le> max_dirs cfg"
          using walk_entries_examined [of cfg ?st rules base dir "d + 1" es] w low pos False by auto
        then show ?thesis
          using run walk_queue_step [OF _ False Inr w] "1.IH"(2) [OF Cons e [symmetric] False Inr w [symmetric] _ _ pos b]
          by (cases r) (simp_all add: Cons e)
      qed
    qed
  qed
qed

subsection \<open>The search meets its specification\<close>

lemma scan_exact:
  assumes "wf_tree w" and "build_stowaway_rules env catalog = Inr rules"
    and "scan_stowaways_bounded env w p catalog cfg = Inr (ms, truncated)"
    and "resolve_absolute_path env w p = base" and "base \<noteq> []" and "metadata_error env base = None"
  shows "(\<forall>m \<in> set ms. sound_match w rules base (max_depth cfg) m) \<and>
    (truncated \<or> (\<forall>k. sacred_inside w rules base (max_depth cfg) k \<longrightarrow> reachable_entry env base k \<longrightarrow>
       (if stop_after_first cfg then ms \<noteq> [] else k \<in> sm_path ` set ms)))"
proof (cases "symlink_metadata w base")
  case None
  have "k \<noteq> base @ x" if "symlink_metadata w k = Some n" for k n x
  proof (rule notI)
    assume k: "k = base @ x"
    then have kw: "(base @ x, n) \<in> set w" using that by (simp add: symlink_metadata_def map_of_SomeD)
    show False
    proof (cases "x = []")
      case True
      then show ?thesis using that k None by simp
    next
      case False
      then show ?thesis using directory_above [OF assms(1) kw _ assms(5)] wf_tree_distinct [OF assms(1)] None by fastforce
    qed
  qed
  then have "\<not> sacred_inside w rules base (max_depth cfg) k" for k by (auto simp: sacred_inside_def prefix_def)
  moreover have "ms = []" using assms(2-4,6) None
    by (simp add: scan_stowaways_bounded_def Let_def lstat_def unseen_def not_found_def)
  ultimately show ?thesis by simp
next
  case (Some n)
  let ?st0 = "\<lparr>examined = 1, opened = 0, found = [], queue = []\<rparr>"
  obtain st stop where ex: "examine cfg rules base base 0 (id_kind n = KDirectory) ?st0 = (st, stop)" by fastforce
  let ?st = "st\<lparr>queue := (if id_kind n = KDirectory \<and> 0 < max_depth cfg then [(base, 0)] else [])\<rparr>"
  have st: "found st = (case matching_rule rules base base (id_kind n = KDirectory) of None \<Rightarrow> [] | Some r \<Rightarrow> [rule_match r base 0])"
    and stop: "stop \<longleftrightarrow> matching_rule rules base base (id_kind n = KDirectory) \<noteq> None \<and> stop_after_first cfg"
    using ex by (auto simp: examine_eq)
  have "sound_match w rules base (max_depth cfg) (rule_match r base 0)" if "matching_rule rules base base (id_kind n = KDirectory) = Some r" for r
  proof -
    have "r \<in> set rules" using that by (auto simp: matching_rule_def Let_def find_Some_iff)
    then show ?thesis using that Some by (auto simp: sound_match_def rule_match_def sacred_inside_def)
  qed
  then have ok: "\<forall>m \<in> set (found st). sound_match w rules base (max_depth cfg) m" using st by (auto split: option.splits)
  have scan: "scan_stowaways_bounded env w p catalog cfg = (if stop then Inr (found st, False)
      else case walk_queue env w cfg rules base ?st of Inl e \<Rightarrow> Inl e | Inr (st1, t) \<Rightarrow> Inr (found st1, t))"
    using assms(2,4,6) Some ex by (simp add: scan_stowaways_bounded_def Let_def lstat_def split: bool.split)
  show ?thesis
  proof (cases stop)
    case True
    then show ?thesis using ok scan assms(3) stop st by (auto split: option.splits)
  next
    case False
    then obtain st1 where r: "walk_queue env w cfg rules base ?st = Inr (st1, truncated)" "ms = found st1"
      using scan assms(3) by (auto split: sum.splits prod.splits)
    have below: "queue_below base cfg ?st" by (simp add: queue_below_def)
    have s: "\<forall>m \<in> set (found st1). sound_match w rules base (max_depth cfg) m"
      using walk_queue_sound [OF assms(1) r(1) below] ok by simp
    have c: "truncated \<or> recorded cfg k st1" if k: "sacred_inside w rules base (max_depth cfg) k" "reachable_entry env base k" for k
    proof -
      obtain nk where nk: "symlink_metadata w k = Some nk" "matching_rule rules base k (id_kind nk = KDirectory) \<noteq> None"
          "length k \<le> length base + max_depth cfg" "prefix base k"
        using k(1) by (auto simp: sacred_inside_def)
      have "recorded cfg k ?st \<or> waiting base k ?st"
      proof (cases "k = base")
        case True
        then show ?thesis using nk Some st stop False by (auto simp: recorded_def rule_match_def split: option.splits)
      next
        case ne: False
        then obtain x where x: "k = base @ x" "x \<noteq> []" using nk(4) by (auto simp: prefix_def)
        have kw: "(base @ x, nk) \<in> set w" using nk(1) x(1) by (simp add: symlink_metadata_def map_of_SomeD)
        then have "id_kind n = KDirectory" using directory_above [OF assms(1) kw x(2) assms(5)] wf_tree_distinct [OF assms(1)] Some by fastforce
        moreover have "0 < max_depth cfg" using nk(3) x by (cases x) auto
        ultimately show ?thesis using nk(4) ne by (auto simp: waiting_def strict_prefix_def)
      qed
      then show ?thesis using walk_queue_complete [OF assms(1) nk(1,2) k(2) nk(3) assms(5) r(1)] by blast
    qed
    show ?thesis using s c r(2) by (auto simp: recorded_def)
  qed
qed

text \<open>C17: the bounded search agrees with its specification: whatever it reports lies in the
  subtree within the depth limit and matches a rule, and unless it says that it was cut short, it reports
  every such entry that can be listed, or, when one is enough, at least one.\<close>

theorem stowaway_scan_exact:
  assumes "wf_tree w" and "build_stowaway_rules env catalog = Inr rules"
    and "scan_stowaways_bounded env w p catalog cfg = Inr (ms, truncated)"
    and "resolve_absolute_path env w p = base" and "base \<noteq> []" and "metadata_error env base = None"
  shows "(\<forall>m \<in> set ms. sound_match w rules base (max_depth cfg) m) \<and>
    (truncated \<or> (\<forall>k. sacred_inside w rules base (max_depth cfg) k \<longrightarrow> reachable_entry env base k \<longrightarrow>
       (if stop_after_first cfg then ms \<noteq> [] else k \<in> sm_path ` set ms)))"
  by (rule scan_exact [OF assms])

subsection \<open>What an empty list of overlaps rules out\<close>

lemma dedup_by_Nil [simp]: "dedup_by same xs = [] \<longleftrightarrow> xs = []"
  by (induction same xs rule: dedup_by.induct) auto

lemma sort_key_Nil [simp]: "sort_key f xs = [] \<longleftrightarrow> xs = []"
  by (metis length_sort length_0_conv)

lemma collect_results_Inr: "collect_results rs = Inr ys \<Longrightarrow> rs = map Inr ys"
  by (induction rs arbitrary: ys rule: collect_results.induct) (auto split: sum.splits)

lemma no_overlaps:
  assumes "find_sacred_overlaps_with_config env w p catalog cfg = Inr []" "resolve_absolute_path env w (components p) = base"
  shows "(\<forall>entry \<in> set catalog. direct_sacred_overlaps env w base entry = Inr []) \<and>
    scan_stowaways_bounded env w base catalog cfg = Inr ([], False)"
proof -
  obtain direct where d: "collect_results (map (direct_sacred_overlaps env w base) catalog) = Inr direct"
    using assms by (auto simp: find_sacred_overlaps_with_config_def Let_def split: sum.splits)
  obtain ms t where s: "scan_stowaways_bounded env w base catalog cfg = Inr (ms, t)"
    using assms d by (auto simp: find_sacred_overlaps_with_config_def Let_def split: sum.splits)
  have e: "concat direct = []" "ms = []" "\<not> t"
    using assms(1) unfolding find_sacred_overlaps_with_config_def assms(2) Let_def d s
    by (cases t; simp)+
  have "direct_sacred_overlaps env w base entry = Inr []" if "entry \<in> set catalog" for entry
  proof -
    have "direct_sacred_overlaps env w base entry \<in> set (map Inr direct)"
      using that collect_results_Inr [OF d] by (metis image_eqI list.set_map)
    then show ?thesis using e(1) by auto
  qed
  then show ?thesis using s e by simp
qed

lemma exact_clear:
  assumes "direct_sacred_overlaps env w base entry = Inr []" "sp_kind entry = SacredExact"
  shows "\<not> prefix (resolve_absolute_path env w (components (expand_home_pattern env (sp_pattern entry)))) base \<and>
    \<not> prefix base (resolve_absolute_path env w (components (expand_home_pattern env (sp_pattern entry))))"
  using assms by (auto simp: direct_sacred_overlaps_def exact_sacred_overlaps_def path_overlap_kind_def Let_def split: if_splits)

lemma glob_clear:
  assumes "direct_sacred_overlaps env w base entry = Inr []" "sp_kind entry = SacredGlob" "a \<in> set (key_ancestors base)"
    "glob_to_regex env (normalize_protected_pattern_for_matching env w (sp_pattern entry)) = Inr f"
  shows "\<not> f (match_text a)"
proof -
  have f: "\<not> f (match_text base)" "List.find (\<lambda>a. f (match_text a)) (tl (key_ancestors base)) = None"
    using assms by (auto simp: direct_sacred_overlaps_def glob_sacred_overlaps_def Let_def split: if_splits option.splits)
  have k: "key_ancestors base = base # tl (key_ancestors base)"
  proof -
    have "key_ancestors base = map (\<lambda>n. take n base) (length base # rev [(if base \<noteq> [] \<and> hd base = RootDir then 1 else 0)..<length base])"
      unfolding key_ancestors_def by (cases base) (simp_all add: upt_Suc_append)
    then show ?thesis by simp
  qed
  show ?thesis using f assms(3) k by (metis find_None_iff set_ConsD)
qed

subsection \<open>Markers above a candidate\<close>

lemma check_ancestors_found:
  "check_ancestors env w as n r = (r1, Inr m) \<Longrightarrow>
    marker_paths r \<subseteq> marker_paths r1 \<and> config_patterns r1 = config_patterns r \<and>
    (\<forall>a \<in> set as. (\<exists>e. lstat env w (marker_key a) = Inl e \<and> io_kind e = NotFound) \<or> resolve_absolute_path env w a \<in> marker_paths r1)"
proof (induction as arbitrary: n r)
  case (Cons a as)
  then show ?case by (force simp: register_key_def split: sum.splits io_kind.splits)
qed simp

lemma check_ancestors_registry:
  "marker_paths r \<subseteq> marker_paths (fst (check_ancestors env w as n r)) \<and> config_patterns (fst (check_ancestors env w as n r)) = config_patterns r"
proof (induction as arbitrary: n r)
  case (Cons a as)
  show ?case
  proof (cases "lstat env w (marker_key a)")
    case (Inl e)
    then show ?thesis using Cons.IH [of r n] by (cases "io_kind e") simp_all
  next
    case (Inr m)
    then show ?thesis using Cons.IH by (fastforce simp: register_key_def)
  qed
qed simp

end
