(* ===== verification/Deletion.thy ===== *)
theory Deletion
  imports Scoring File_Tree
begin

section \<open>The deletion executor (src/src/scanner/deletion.rs)\<close>

text \<open>
  The last step of the pipeline: plan, pre-flight checks, removal, circuit breaker and report. The
  file system is an association list from paths (component by component) to the kind and identity
  of the entry there; everything the executor cannot control is in the environment: what other
  processes change between its own steps, which directories it may read or write, whether and how
  far a removal fails, and which paths are open. Paths stand for themselves: parent directories
  that are symbolic links are resolved before they reach the model. The executor's clock readings
  and console lines are left out; the activity events are kept.
\<close>

subsection \<open>Configuration, plan and report\<close>

record deletion_config =
  max_batch_size :: nat
  dry_run :: bool
  del_min_score :: f64
  circuit_breaker_threshold :: u32
  circuit_breaker_cooldown :: duration
  check_open_files :: bool
  require_identity :: bool

definition deletion_config_default :: deletion_config where
  "deletion_config_default = \<lparr>max_batch_size = 10, dry_run = False, del_min_score = lit (5/10),
     circuit_breaker_threshold = 5, circuit_breaker_cooldown = secs 30, check_open_files = True,
     require_identity = False\<rparr>"

record deletion_plan =
  plan_candidates :: "candidacy_score list"
  total_reclaimable_bytes :: u64
  estimated_items :: nat

record deletion_error =
  de_path :: path
  de_error :: string
  de_code :: string
  de_recoverable :: bool

record deletion_report =
  items_deleted :: nat
  items_failed :: nat
  items_skipped :: nat
  items_would_delete :: nat
  del_bytes_freed :: u64
  bytes_would_free :: u64
  del_errors :: "deletion_error list"
  report_dry_run :: bool
  circuit_breaker_tripped :: bool
  deleted_paths :: "path list"
  not_writable_paths :: "path list"
  backoff_candidates :: "candidacy_score list"
  skipped_by_reason :: "string \<Rightarrow> nat option"

datatype skip_reason = TargetFreeReached | PathGone | FileOpen | ContainsGit | NotWritable | Vetoed
  | BelowThreshold | SymlinkFound | IdentityUnavailable | IdentityMismatch | ContainsCargoManifest
  | HardcodedSourceTree | LooksLikeSourceCode | UserDeclined

definition all_reasons :: "skip_reason list" where
  "all_reasons = [TargetFreeReached, PathGone, FileOpen, ContainsGit, NotWritable, Vetoed,
     BelowThreshold, SymlinkFound, IdentityUnavailable, IdentityMismatch, ContainsCargoManifest,
     HardcodedSourceTree, LooksLikeSourceCode, UserDeclined]"

fun reason_key :: "skip_reason \<Rightarrow> string" where
  "reason_key TargetFreeReached = ''target_free_reached''"
| "reason_key PathGone = ''path_gone''"
| "reason_key FileOpen = ''file_open''"
| "reason_key ContainsGit = ''contains_git''"
| "reason_key NotWritable = ''not_writable''"
| "reason_key Vetoed = ''vetoed''"
| "reason_key BelowThreshold = ''below_threshold''"
| "reason_key SymlinkFound = ''symlink''"
| "reason_key IdentityUnavailable = ''identity_unavailable''"
| "reason_key IdentityMismatch = ''identity_mismatch''"
| "reason_key ContainsCargoManifest = ''contains_cargo_manifest''"
| "reason_key HardcodedSourceTree = ''hardcoded_source_tree''"
| "reason_key LooksLikeSourceCode = ''looks_like_source_code''"
| "reason_key UserDeclined = ''user_declined''"

definition reason_from_key :: "string \<Rightarrow> skip_reason option" where
  "reason_from_key k = List.find (\<lambda>r. reason_key r = k) all_reasons"

fun reason_debug :: "skip_reason \<Rightarrow> string" where
  "reason_debug TargetFreeReached = ''TargetFreeReached''"
| "reason_debug PathGone = ''PathGone''"
| "reason_debug FileOpen = ''FileOpen''"
| "reason_debug ContainsGit = ''ContainsGit''"
| "reason_debug NotWritable = ''NotWritable''"
| "reason_debug Vetoed = ''Vetoed''"
| "reason_debug BelowThreshold = ''BelowThreshold''"
| "reason_debug SymlinkFound = ''Symlink''"
| "reason_debug IdentityUnavailable = ''IdentityUnavailable''"
| "reason_debug IdentityMismatch = ''IdentityMismatch''"
| "reason_debug ContainsCargoManifest = ''ContainsCargoManifest''"
| "reason_debug HardcodedSourceTree = ''HardcodedSourceTree''"
| "reason_debug LooksLikeSourceCode = ''LooksLikeSourceCode''"
| "reason_debug UserDeclined = ''UserDeclined''"

definition should_backoff_skip :: "skip_reason \<Rightarrow> bool" where
  "should_backoff_skip r = (r \<notin> {PathGone, BelowThreshold, UserDeclined})"

definition record_skip :: "skip_reason \<Rightarrow> deletion_report \<Rightarrow> deletion_report" where
  "record_skip r rep = rep\<lparr>items_skipped := items_skipped rep + 1,
     skipped_by_reason := (skipped_by_reason rep)(reason_key r \<mapsto>
       (case skipped_by_reason rep (reason_key r) of None \<Rightarrow> 0 | Some n \<Rightarrow> n) + 1)\<rparr>"

definition stalled :: "deletion_report \<Rightarrow> bool" where
  "stalled rep = (\<not> report_dry_run rep \<and> items_deleted rep = 0 \<and> del_bytes_freed rep = 0 \<and>
     (0 < items_skipped rep \<or> 0 < items_failed rep))"

text \<open>\<open>max_by_key\<close> over the ordered map: the last of the largest.\<close>

definition dominant_skip_reason :: "deletion_report \<Rightarrow> (string \<times> nat) option" where
  "dominant_skip_reason rep =
     fold (\<lambda>k best. case skipped_by_reason rep k of None \<Rightarrow> best
       | Some n \<Rightarrow> (case best of None \<Rightarrow> Some (k, n) | Some b \<Rightarrow> if snd b \<le> n then Some (k, n) else best))
     (sort (map reason_key all_reasons)) None"

definition deletion_before :: "candidacy_score \<Rightarrow> candidacy_score \<Rightarrow> bool" where
  "deletion_before a b = (total_score b < total_score a)"

definition plan :: "deletion_config \<Rightarrow> candidacy_score list \<Rightarrow> deletion_plan" where
  "plan cfg cands =
     (let cs = sort_by deletion_before (filter (\<lambda>c. out_action (decision c) = Delete \<and> \<not> vetoed c \<and>
          del_min_score cfg \<le> total_score c) cands)
      in \<lparr>plan_candidates = cs, total_reclaimable_bytes = sum_list (map cs_size_bytes cs),
          estimated_items = length cs\<rparr>)"

subsection \<open>The file system and the environment\<close>

datatype moment = BeforeCheck | BeforeRemoval | BeforeVerify

record deletion_env =
  outside :: "nat \<Rightarrow> moment \<Rightarrow> tree \<Rightarrow> tree"
  readable :: "path_key \<Rightarrow> bool"
  writable :: "nat \<Rightarrow> path_key \<Rightarrow> bool"
  removal :: "nat \<Rightarrow> bool \<Rightarrow> (io_error \<times> (path_key \<Rightarrow> bool)) option"
  open_scan :: "path_key list \<Rightarrow> path_key list \<times> bool"

definition read_dir :: "deletion_env \<Rightarrow> tree \<Rightarrow> path_key \<Rightarrow> (string \<times> fs_entry_kind) list option" where
  "read_dir env w k = (if readable env k then Some (children w k) else None)"

definition remove_subtree :: "path_key \<Rightarrow> tree \<Rightarrow> tree" where
  "remove_subtree k w = filter (\<lambda>(q, _). \<not> prefix k q) w"

text \<open>A removal of a directory that fails leaves the entries of the subtree that the predicate
  names; the Boolean says whether permissions were widened before.\<close>

definition remove_dir_all :: "deletion_env \<Rightarrow> nat \<Rightarrow> bool \<Rightarrow> path_key \<Rightarrow> tree \<Rightarrow> tree \<times> io_error option" where
  "remove_dir_all env i widened k w = (case removal env i widened of
     None \<Rightarrow> (remove_subtree k w, None)
   | Some (e, kept) \<Rightarrow> (filter (\<lambda>(q, _). prefix k q \<longrightarrow> kept q) w, Some e))"

definition remove_file :: "deletion_env \<Rightarrow> nat \<Rightarrow> path_key \<Rightarrow> tree \<Rightarrow> tree \<times> io_error option" where
  "remove_file env i k w = (case removal env i False of
     None \<Rightarrow> (filter (\<lambda>(q, _). q \<noteq> k) w, None)
   | Some (e, _) \<Rightarrow> (w, Some e))"

definition remove_dir_all_force :: "deletion_env \<Rightarrow> nat \<Rightarrow> path_key \<Rightarrow> tree \<Rightarrow> tree \<times> io_error option" where
  "remove_dir_all_force env i k w = (case remove_dir_all env i False k w of
     (w1, None) \<Rightarrow> (w1, None)
   | (w1, Some e) \<Rightarrow> (if io_kind e = PermissionDeniedKind then remove_dir_all env i True k w1 else (w1, Some e)))"

subsection \<open>What protects a directory\<close>

fun contains_nested_git :: "deletion_env \<Rightarrow> tree \<Rightarrow> nat \<Rightarrow> path_key \<Rightarrow> bool" where
  "contains_nested_git env w 0 k = False"
| "contains_nested_git env w (Suc d) k = (case read_dir env w k of None \<Rightarrow> False
   | Some es \<Rightarrow> list_ex (\<lambda>(name, kind). name = ''.git'' \<or>
       (kind = KDirectory \<and> contains_nested_git env w d (k @ [Normal name]))) es)"

definition is_under_user_projects :: "path \<Rightarrow> string \<Rightarrow> bool" where
  "is_under_user_projects s base = (case strip_prefix s base of None \<Rightarrow> False
   | Some rest \<Rightarrow> (case split_once (CHR ''/'') rest of None \<Rightarrow> False
     | Some (_, after_user) \<Rightarrow> after_user = ''projects'' \<or> starts_with after_user ''projects/''))"

definition is_hardcoded_source_tree :: "path \<Rightarrow> bool" where
  "is_hardcoded_source_tree p =
     (let in_protected_root = (p = ''/data/projects'' \<or> starts_with p ''/data/projects/'' \<or>
            is_under_user_projects p ''/home/'' \<or> is_under_user_projects p ''/Users/'')
      in if in_protected_root \<and> \<not> is_obvious_build_artifact_basename p then True
         else list_ex (\<lambda>a. comps_file_name a = Some ''.git'') (ancestors p))"

definition manifest_files :: "string list" where
  "manifest_files = [''Cargo.toml'', ''package.json'', ''pyproject.toml'', ''setup.py'', ''setup.cfg'',
     ''go.mod'', ''pom.xml'', ''build.gradle'', ''build.gradle.kts'', ''Gemfile'', ''Pipfile'',
     ''requirements.txt'', ''tsconfig.json'', ''deno.json'', ''mix.exs'', ''Project.toml'']"

definition source_exts :: "string list" where
  "source_exts = [''rs'', ''py'', ''ts'', ''tsx'', ''js'', ''jsx'', ''go'', ''java'', ''kt'', ''rb'', ''ex'',
     ''exs'', ''ml'', ''hs'', ''cpp'', ''cc'', ''c'', ''h'', ''hpp'', ''swift'', ''scala'', ''clj'', ''cljs'',
     ''lua'', ''jl'']"

definition looks_like_source_code :: "deletion_env \<Rightarrow> tree \<Rightarrow> path_key \<Rightarrow> bool" where
  "looks_like_source_code env w k = (case read_dir env w k of None \<Rightarrow> False
   | Some es \<Rightarrow> list_ex (\<lambda>(name, kind). list_ex (\<lambda>m. eq_ignore_ascii_case name m) manifest_files \<or>
       (kind = KFile \<and> (case name_extension name of None \<Rightarrow> False
          | Some ext \<Rightarrow> list_ex (\<lambda>s. eq_ignore_ascii_case ext s) source_exts))) es)"

definition no_signals :: structural_signals where
  "no_signals = \<lparr>has_incremental = False, has_deps = False, has_build = False, has_fingerprint = False,
     has_git = False, has_cargo_toml = False, mostly_object_files = False\<rparr>"

definition note_entry :: "string \<Rightarrow> structural_signals \<Rightarrow> structural_signals" where
  "note_entry name s = (if eq_ignore_ascii_case name ''cargo.toml'' then s\<lparr>has_cargo_toml := True\<rparr>
     else if name = ''incremental'' then s\<lparr>has_incremental := True\<rparr>
     else if name = ''deps'' then s\<lparr>has_deps := True\<rparr>
     else if name = ''build'' then s\<lparr>has_build := True\<rparr>
     else if name = ''.fingerprint'' then s\<lparr>has_fingerprint := True\<rparr> else s)"

definition contains_cargo_manifest_without_artifact_markers :: "deletion_env \<Rightarrow> tree \<Rightarrow> path_key \<Rightarrow> bool" where
  "contains_cargo_manifest_without_artifact_markers env w k = (case read_dir env w k of None \<Rightarrow> False
   | Some es \<Rightarrow> (let s = fold (\<lambda>(name, _). note_entry name) es no_signals
       in has_cargo_toml s \<and> \<not> (has_fingerprint s \<or> (has_incremental s \<and> has_deps s) \<or> (has_build s \<and> has_deps s))))"

definition classification_allows_force_remove :: "artifact_classification \<Rightarrow> bool" where
  "classification_allows_force_remove c = (category c = GoCache \<or>
     pattern_name c \<in> {''opaque-cargo-cache'', ''cargo-home-prefix'', ''rch-cargo-home'',
       ''tmp-cargo-home'', ''dot-cargo-prefix''})"

subsection \<open>Checks and removal of a candidate\<close>

definition candidate_key :: "candidacy_score \<Rightarrow> path_key" where
  "candidate_key c = components (cs_path c)"

definition verify_candidate_identity :: "deletion_config \<Rightarrow> tree \<Rightarrow> candidacy_score \<Rightarrow> skip_reason option" where
  "verify_candidate_identity cfg w c = (case cs_identity c of
     None \<Rightarrow> (if require_identity cfg then Some IdentityUnavailable else None)
   | Some expected \<Rightarrow> (case symlink_metadata w (candidate_key c) of
       None \<Rightarrow> Some PathGone
     | Some current \<Rightarrow> (if current \<noteq> expected then Some IdentityMismatch else None)))"

definition preflight_check ::
  "deletion_config \<Rightarrow> deletion_env \<Rightarrow> nat \<Rightarrow> path_key list option \<Rightarrow> tree \<Rightarrow> candidacy_score \<Rightarrow> skip_reason option" where
  "preflight_check cfg env i open_paths w c =
     (if is_hardcoded_source_tree (cs_path c) then Some HardcodedSourceTree
      else (let k = candidate_key c in case symlink_metadata w k of
        None \<Rightarrow> Some PathGone
      | Some meta \<Rightarrow>
        if id_kind meta = KSymlink then Some SymlinkFound
        else (case verify_candidate_identity cfg w c of Some r \<Rightarrow> Some r
        | None \<Rightarrow>
          if (case parent_key k of None \<Rightarrow> False | Some p \<Rightarrow> \<not> writable env i p) then Some NotWritable
          else if id_kind meta = KDirectory \<and> contains_nested_git env w 3 k then Some ContainsGit
          else if id_kind meta = KDirectory \<and> contains_cargo_manifest_without_artifact_markers env w k
            then Some ContainsCargoManifest
          else if id_kind meta = KDirectory \<and> category (cs_classification c) \<noteq> GoCache \<and>
            looks_like_source_code env w k then Some LooksLikeSourceCode
          else if (case open_paths of None \<Rightarrow> False | Some ps \<Rightarrow> k \<in> set ps) then Some FileOpen
          else None)))"

definition delete_path :: "deletion_config \<Rightarrow> deletion_env \<Rightarrow> nat \<Rightarrow> tree \<Rightarrow> candidacy_score \<Rightarrow> tree \<times> sbh_error option" where
  "delete_path cfg env i w c =
     (let k = candidate_key c; p = cs_path c in case symlink_metadata w k of
        None \<Rightarrow> (w, Some (Io p not_found))
      | Some meta \<Rightarrow>
        if id_kind meta = KSymlink
        then (w, Some (RuntimeError (''path became a symlink before deletion: '' @ p)))
        else (case verify_candidate_identity cfg w c of
          Some skip \<Rightarrow> (w, Some (RuntimeError (''path identity changed before deletion: '' @ p @ '' ('' @
            reason_debug skip @ '')'')))
        | None \<Rightarrow>
          (case (if id_kind meta = KDirectory
                 then (if classification_allows_force_remove (cs_classification c)
                       then remove_dir_all_force env i k w else remove_dir_all env i False k w)
                 else remove_file env i k w) of
             (w1, Some e) \<Rightarrow> (w1, Some (Io p e))
           | (w1, None) \<Rightarrow>
             (let w2 = outside env i BeforeVerify w1
              in if symlink_metadata w2 k \<noteq> None
                 then (w2, Some (RuntimeError (''path still exists after deletion: '' @ p)))
                 else (w2, None)))))"

subsection \<open>The batch\<close>

datatype deletion_event =
    EvError string string
  | EvDeletionFailed path string string
  | EvDeleted path u64 f64 score_factors

text \<open>The caller's test for skipping a candidate is a closure with a state of its own, here the
  state with the function that answers for the candidate and moves the state on.\<close>

type_synonym 's skip_test = "('s \<times> (nat \<Rightarrow> 's \<Rightarrow> tree \<Rightarrow> path \<Rightarrow> bool \<times> 's)) option"

definition ask :: "'s skip_test \<Rightarrow> nat \<Rightarrow> tree \<Rightarrow> path \<Rightarrow> bool \<times> 's skip_test" where
  "ask sk i w p = (case sk of None \<Rightarrow> (False, None)
     | Some (s, f) \<Rightarrow> (case f i s w p of (b, s') \<Rightarrow> (b, Some (s', f))))"

lemma ask_None [simp]: "ask None i w p = (False, None)"
  by (simp add: ask_def)

record exec_state =
  ex_tree :: tree
  ex_report :: deletion_report
  ex_failures :: u32
  ex_events :: "deletion_event list"

definition empty_report :: "deletion_config \<Rightarrow> deletion_report" where
  "empty_report cfg = \<lparr>items_deleted = 0, items_failed = 0, items_skipped = 0, items_would_delete = 0,
     del_bytes_freed = 0, bytes_would_free = 0, del_errors = [], report_dry_run = dry_run cfg,
     circuit_breaker_tripped = False, deleted_paths = [], not_writable_paths = [],
     backoff_candidates = [], skipped_by_reason = Map.empty\<rparr>"

definition back_off :: "candidacy_score \<Rightarrow> deletion_report \<Rightarrow> deletion_report" where
  "back_off c rep = rep\<lparr>backoff_candidates := backoff_candidates rep @ [c]\<rparr>"

definition quiet_skip :: "skip_reason \<Rightarrow> bool" where
  "quiet_skip r = (r \<in> {PathGone, ContainsGit, ContainsCargoManifest, HardcodedSourceTree,
     LooksLikeSourceCode, UserDeclined})"

definition skip_candidate :: "skip_reason \<Rightarrow> candidacy_score \<Rightarrow> exec_state \<Rightarrow> exec_state" where
  "skip_candidate r c st =
     (let rep1 = record_skip r (ex_report st);
          rep2 = (if r = NotWritable then rep1\<lparr>not_writable_paths := not_writable_paths rep1 @ [cs_path c]\<rparr> else rep1);
          rep3 = (if should_backoff_skip r then back_off c rep2 else rep2)
      in st\<lparr>ex_report := rep3, ex_failures := 0,
            ex_events := ex_events st @ (if quiet_skip r then []
              else [EvDeletionFailed (cs_path c) ''SBH-2003'' (''skipped: '' @ reason_debug r)])\<rparr>)"

definition note_deleted :: "candidacy_score \<Rightarrow> exec_state \<Rightarrow> exec_state" where
  "note_deleted c st = (let rep = ex_report st in
     st\<lparr>ex_report := rep\<lparr>items_deleted := items_deleted rep + 1,
          del_bytes_freed := del_bytes_freed rep + cs_size_bytes c,
          deleted_paths := deleted_paths rep @ [cs_path c]\<rparr>,
        ex_failures := 0,
        ex_events := ex_events st @ [EvDeleted (cs_path c) (cs_size_bytes c) (total_score c) (factors c)]\<rparr>)"

definition note_failed :: "sbh_error \<Rightarrow> candidacy_score \<Rightarrow> exec_state \<Rightarrow> exec_state" where
  "note_failed e c st =
     (let rep = ex_report st;
          err = \<lparr>de_path = cs_path c, de_error = show_error e, de_code = error_code e, de_recoverable = is_retryable e\<rparr>
      in st\<lparr>ex_report := back_off c (rep\<lparr>items_failed := items_failed rep + 1, del_errors := del_errors rep @ [err]\<rparr>),
            ex_failures := ex_failures st + 1,
            ex_events := ex_events st @ [EvDeletionFailed (cs_path c) (de_code err) (de_error err)]\<rparr>)"

definition exec_candidate ::
  "deletion_config \<Rightarrow> deletion_env \<Rightarrow> path_key list option \<Rightarrow> 's skip_test \<Rightarrow> nat \<Rightarrow>
   candidacy_score \<Rightarrow> exec_state \<Rightarrow> exec_state" where
  "exec_candidate cfg env open_paths should_skip i c st0 =
     (let st = st0\<lparr>ex_tree := outside env i BeforeCheck (ex_tree st0)\<rparr> in
      if fst (ask should_skip i (ex_tree st) (cs_path c))
      then st\<lparr>ex_report := back_off c (record_skip TargetFreeReached (ex_report st))\<rparr>
      else (case preflight_check cfg env i open_paths (ex_tree st) c of
        Some r \<Rightarrow> skip_candidate r c st
      | None \<Rightarrow>
        if dry_run cfg
        then (let rep = ex_report st in st\<lparr>ex_report := rep\<lparr>items_would_delete := items_would_delete rep + 1,
               bytes_would_free := bytes_would_free rep + cs_size_bytes c\<rparr>\<rparr>)
        else (case delete_path cfg env i (outside env i BeforeRemoval (ex_tree st)) c of
               (w, None) \<Rightarrow> note_deleted c (st\<lparr>ex_tree := w\<rparr>)
             | (w, Some e) \<Rightarrow> note_failed e c (st\<lparr>ex_tree := w\<rparr>))))"

definition trip :: "exec_state \<Rightarrow> exec_state" where
  "trip st = st\<lparr>ex_report := (ex_report st)\<lparr>circuit_breaker_tripped := True\<rparr>,
     ex_events := ex_events st @ [EvError ''SBH-2003'' (''circuit breaker tripped after '' @
       show_nat (unat (ex_failures st)) @ '' consecutive failures, halting batch'')]\<rparr>"

fun exec_loop ::
  "deletion_config \<Rightarrow> deletion_env \<Rightarrow> path_key list option \<Rightarrow> 's skip_test \<Rightarrow> nat \<Rightarrow>
   candidacy_score list \<Rightarrow> exec_state \<Rightarrow> exec_state" where
  "exec_loop cfg env open_paths should_skip i [] st = st"
| "exec_loop cfg env open_paths should_skip i (c # cs) st =
     (if circuit_breaker_threshold cfg \<le> ex_failures st then trip st
      else exec_loop cfg env open_paths
        (snd (ask should_skip i (outside env i BeforeCheck (ex_tree st)) (cs_path c))) (Suc i) cs
        (exec_candidate cfg env open_paths should_skip i c st))"

definition abort_incomplete :: "candidacy_score list \<Rightarrow> exec_state \<Rightarrow> exec_state" where
  "abort_incomplete cs st = st\<lparr>ex_report := (ex_report st)\<lparr>items_failed := length cs,
       del_errors := map (\<lambda>c. \<lparr>de_path = cs_path c, de_error = ''safety check incomplete'',
         de_code = ''SBH-3003'', de_recoverable = True\<rparr>) cs,
       backoff_candidates := cs\<rparr>,
     ex_events := ex_events st @ [EvError ''SBH-3003''
       ''open file scan incomplete due to system load - aborting batch for safety'']\<rparr>"

definition execute ::
  "deletion_config \<Rightarrow> deletion_env \<Rightarrow> deletion_plan \<Rightarrow> 's skip_test \<Rightarrow> tree \<Rightarrow> exec_state" where
  "execute cfg env pl should_skip w =
     (let cs = take (min (length (plan_candidates pl)) (max_batch_size cfg)) (plan_candidates pl);
          st = \<lparr>ex_tree = w, ex_report = empty_report cfg, ex_failures = 0, ex_events = []\<rparr>
      in if check_open_files cfg \<and> \<not> dry_run cfg
         then (case open_scan env (map candidate_key cs) of
             (paths, whole) \<Rightarrow> if whole then exec_loop cfg env (Some paths) should_skip 0 cs st
                                  else abort_incomplete cs st)
         else exec_loop cfg env None should_skip 0 cs st)"

end
