(* ===== verification/Deletion_Run.thy ===== *)
theory Deletion_Run
  imports Deletion
begin

section \<open>What a deletion batch does\<close>

text \<open>
  A batch is replayed as the list of its candidates with the outcome of each. The report is a
  function of that list, the circuit breaker is a statement about it, and every change of the file
  system belongs to an entry of it that passed the checks.
\<close>

datatype outcome = Sufficed | Skipped skip_reason | WouldDelete | Removed | Failed sbh_error

definition step_outcome ::
  "deletion_config \<Rightarrow> deletion_env \<Rightarrow> path_key list option \<Rightarrow> 's skip_test \<Rightarrow> nat \<Rightarrow>
   candidacy_score \<Rightarrow> tree \<Rightarrow> tree \<times> outcome" where
  "step_outcome cfg env open_paths should_skip i c w0 =
     (let w = outside env i BeforeCheck w0 in
      if fst (ask should_skip i w (cs_path c)) then (w, Sufficed)
      else (case preflight_check cfg env i open_paths w c of
        Some r \<Rightarrow> (w, Skipped r)
      | None \<Rightarrow> if dry_run cfg then (w, WouldDelete)
        else (case delete_path cfg env i (outside env i BeforeRemoval w) c of
               (v, None) \<Rightarrow> (v, Removed) | (v, Some e) \<Rightarrow> (v, Failed e))))"

fun apply_outcome :: "candidacy_score \<Rightarrow> outcome \<Rightarrow> exec_state \<Rightarrow> exec_state" where
  "apply_outcome c Sufficed st = st\<lparr>ex_report := back_off c (record_skip TargetFreeReached (ex_report st))\<rparr>"
| "apply_outcome c (Skipped r) st = skip_candidate r c st"
| "apply_outcome c WouldDelete st = (let rep = ex_report st in
     st\<lparr>ex_report := rep\<lparr>items_would_delete := items_would_delete rep + 1,
        bytes_would_free := bytes_would_free rep + cs_size_bytes c\<rparr>\<rparr>)"
| "apply_outcome c Removed st = note_deleted c st"
| "apply_outcome c (Failed e) st = note_failed e c st"

lemma exec_candidate_outcome:
  "exec_candidate cfg env op sk i c st =
     apply_outcome c (snd (step_outcome cfg env op sk i c (ex_tree st)))
       (st\<lparr>ex_tree := fst (step_outcome cfg env op sk i c (ex_tree st))\<rparr>)"
  by (simp add: exec_candidate_def step_outcome_def Let_def split: option.split prod.split)

lemma apply_tree [simp]: "ex_tree (apply_outcome c out st) = ex_tree st"
  by (cases out) (simp_all add: skip_candidate_def note_deleted_def note_failed_def Let_def)

definition next_failures :: "outcome \<Rightarrow> u32 \<Rightarrow> u32" where
  "next_failures out f = (case out of Failed _ \<Rightarrow> f + 1 | Removed \<Rightarrow> 0 | Skipped _ \<Rightarrow> 0 | _ \<Rightarrow> f)"

lemma apply_failures [simp]: "ex_failures (apply_outcome c out st) = next_failures out (ex_failures st)"
  by (cases out) (simp_all add: skip_candidate_def note_deleted_def note_failed_def Let_def next_failures_def)

text \<open>The replay: candidate, file system it was checked on, outcome.\<close>

type_synonym trace = "(nat \<times> candidacy_score \<times> tree \<times> outcome) list"

fun exec_trace ::
  "deletion_config \<Rightarrow> deletion_env \<Rightarrow> path_key list option \<Rightarrow> 's skip_test \<Rightarrow> nat \<Rightarrow> u32 \<Rightarrow>
   candidacy_score list \<Rightarrow> tree \<Rightarrow> trace" where
  "exec_trace cfg env op sk i f [] w = []"
| "exec_trace cfg env op sk i f (c # cs) w =
     (if circuit_breaker_threshold cfg \<le> f then []
      else case step_outcome cfg env op sk i c w of (v, out) \<Rightarrow>
        (i, c, outside env i BeforeCheck w, out) # exec_trace cfg env op
          (snd (ask sk i (outside env i BeforeCheck w) (cs_path c))) (Suc i) (next_failures out f) cs v)"

definition trace_report :: "deletion_config \<Rightarrow> trace \<Rightarrow> deletion_report" where
  "trace_report cfg tr = ex_report (fold (\<lambda>(_, c, _, out). apply_outcome c out) tr
     \<lparr>ex_tree = [], ex_report = empty_report cfg, ex_failures = 0, ex_events = []\<rparr>)"

definition outcomes :: "trace \<Rightarrow> outcome list" where
  "outcomes tr = map (\<lambda>(_, _, _, out). out) tr"

subsection \<open>The report counts the outcomes\<close>

definition is_removed :: "outcome \<Rightarrow> bool" where "is_removed out = (out = Removed)"
definition is_failed :: "outcome \<Rightarrow> bool" where "is_failed out = (case out of Failed _ \<Rightarrow> True | _ \<Rightarrow> False)"
definition skip_of :: "outcome \<Rightarrow> skip_reason option" where
  "skip_of out = (case out of Sufficed \<Rightarrow> Some TargetFreeReached | Skipped r \<Rightarrow> Some r | _ \<Rightarrow> None)"

definition traced :: "trace \<Rightarrow> outcome \<Rightarrow> (nat \<times> candidacy_score \<times> tree \<times> outcome) \<Rightarrow> bool" where
  "traced tr out x = (x \<in> set tr \<and> snd (snd (snd x)) = out)"

text \<open>What the loop adds to a report, as a relation between the report before and after.\<close>

definition count_of :: "(string \<Rightarrow> nat option) \<Rightarrow> string \<Rightarrow> nat" where
  "count_of m k = (case m k of None \<Rightarrow> 0 | Some n \<Rightarrow> n)"

definition counts :: "trace \<Rightarrow> deletion_report \<Rightarrow> deletion_report \<Rightarrow> bool" where
  "counts tr a b = (
     items_deleted b = items_deleted a + length (filter is_removed (outcomes tr)) \<and>
     items_failed b = items_failed a + length (filter is_failed (outcomes tr)) \<and>
     items_skipped b = items_skipped a + length (filter (\<lambda>x. skip_of x \<noteq> None) (outcomes tr)) \<and>
     items_would_delete b = items_would_delete a + length (filter (\<lambda>x. x = WouldDelete) (outcomes tr)) \<and>
     deleted_paths b = deleted_paths a @ map (\<lambda>(_, c, _, _). cs_path c) (filter (\<lambda>(_, _, _, x). is_removed x) tr) \<and>
     del_bytes_freed b = del_bytes_freed a + sum_list (map (\<lambda>(_, c, _, _). cs_size_bytes c) (filter (\<lambda>(_, _, _, x). is_removed x) tr)) \<and>
     map de_path (del_errors b) = map de_path (del_errors a) @ map (\<lambda>(_, c, _, _). cs_path c) (filter (\<lambda>(_, _, _, x). is_failed x) tr) \<and>
     backoff_candidates b = backoff_candidates a @ map (\<lambda>(_, c, _, _). c)
       (filter (\<lambda>(_, _, _, x). is_failed x \<or> (\<exists>r. skip_of x = Some r \<and> should_backoff_skip r)) tr) \<and>
     (\<forall>r. count_of (skipped_by_reason b) (reason_key r) = count_of (skipped_by_reason a) (reason_key r) +
        length (filter (\<lambda>x. skip_of x = Some r) (outcomes tr))))"

lemma reason_key_inj [simp]: "reason_key a = reason_key b \<longleftrightarrow> a = b"
  by (cases a; cases b) simp_all

lemma counts_refl: "counts [] a a"
  by (simp add: counts_def outcomes_def)

lemmas outcome_defs = is_removed_def is_failed_def skip_of_def outcomes_def

lemma counts_step: "counts [(i, c, w, out)] (ex_report st) (ex_report (apply_outcome c out st))"
  by (cases out) (auto simp: counts_def outcome_defs record_skip_def back_off_def skip_candidate_def note_deleted_def
      note_failed_def count_of_def should_backoff_skip_def Let_def simp del: reason_key.simps split: option.split)

lemma counts_trans:
  assumes "counts xs a b" "counts ys b c"
  shows "counts (xs @ ys) a c"
  using assms unfolding counts_def outcomes_def by (auto simp: add.assoc)

lemma exec_loop_trace:
  defines "T \<equiv> \<lambda>cfg env op sk i cs st. exec_trace cfg env op sk i (ex_failures st) cs (ex_tree st)"
  shows "\<exists>st'. counts (T cfg env op sk i cs st) (ex_report st) (ex_report st') \<and>
    exec_loop cfg env op sk i cs st = (if length (T cfg env op sk i cs st) < length cs then trip st' else st') \<and>
    ex_failures st' = fold next_failures (outcomes (T cfg env op sk i cs st)) (ex_failures st)"
  unfolding T_def
proof (induction cs arbitrary: i st sk)
  case Nil
  then show ?case by (auto simp: counts_refl outcomes_def)
next
  case (Cons c cs)
  show ?case
  proof (cases "circuit_breaker_threshold cfg \<le> ex_failures st")
    case True
    then show ?thesis by (intro exI [of _ st]) (simp add: counts_refl outcomes_def)
  next
    case False
    obtain v out where so: "step_outcome cfg env op sk i c (ex_tree st) = (v, out)" by fastforce
    let ?t = "apply_outcome c out (st\<lparr>ex_tree := v\<rparr>)"
    have t: "exec_candidate cfg env op sk i c st = ?t" by (simp add: exec_candidate_outcome so)
    let ?sk = "snd (ask sk i (outside env i BeforeCheck (ex_tree st)) (cs_path c))"
    let ?tr = "exec_trace cfg env op ?sk (Suc i) (ex_failures ?t) cs (ex_tree ?t)"
    have tr: "exec_trace cfg env op sk i (ex_failures st) (c # cs) (ex_tree st) =
        [(i, c, outside env i BeforeCheck (ex_tree st), out)] @ ?tr"
      using False by (simp add: so)
    obtain st' where st': "counts ?tr (ex_report ?t) (ex_report st')"
        "exec_loop cfg env op ?sk (Suc i) cs ?t = (if length ?tr < length cs then trip st' else st')"
        "ex_failures st' = fold next_failures (outcomes ?tr) (ex_failures ?t)"
      using Cons.IH [of ?sk "Suc i" ?t] by blast
    have "counts [(i, c, outside env i BeforeCheck (ex_tree st), out)] (ex_report st) (ex_report ?t)"
      using counts_step [of i c _ out "st\<lparr>ex_tree := v\<rparr>"] by simp
    then have "counts ([(i, c, outside env i BeforeCheck (ex_tree st), out)] @ ?tr) (ex_report st) (ex_report st')"
      using st'(1) by (rule counts_trans)
    then show ?thesis using st'(2,3) False t unfolding tr
      by (intro exI [of _ st']) (simp add: outcomes_def)
  qed
qed

subsection \<open>The whole batch\<close>

definition batch :: "deletion_config \<Rightarrow> deletion_plan \<Rightarrow> candidacy_score list" where
  "batch cfg pl = take (min (length (plan_candidates pl)) (max_batch_size cfg)) (plan_candidates pl)"

text \<open>The open paths the checks use; \<open>None\<close> when the scan was cut short and the batch is given up.\<close>

definition batch_open :: "deletion_config \<Rightarrow> deletion_env \<Rightarrow> deletion_plan \<Rightarrow> path_key list option option" where
  "batch_open cfg env pl = (if check_open_files cfg \<and> \<not> dry_run cfg
     then (case open_scan env (map candidate_key (batch cfg pl)) of (ps, whole) \<Rightarrow> if whole then Some (Some ps) else None)
     else Some None)"

definition batch_trace ::
  "deletion_config \<Rightarrow> deletion_env \<Rightarrow> deletion_plan \<Rightarrow> 's skip_test \<Rightarrow> tree \<Rightarrow> trace" where
  "batch_trace cfg env pl sk w = (case batch_open cfg env pl of None \<Rightarrow> []
     | Some op \<Rightarrow> exec_trace cfg env op sk 0 0 (batch cfg pl) w)"

definition start_state :: "deletion_config \<Rightarrow> tree \<Rightarrow> exec_state" where
  "start_state cfg w = \<lparr>ex_tree = w, ex_report = empty_report cfg, ex_failures = 0, ex_events = []\<rparr>"

lemma start_state_simps [simp]:
  "ex_tree (start_state cfg w) = w" "ex_report (start_state cfg w) = empty_report cfg" "ex_failures (start_state cfg w) = 0"
  by (simp_all add: start_state_def)

lemma execute_loop:
  "execute cfg env pl sk w = (case batch_open cfg env pl of
     None \<Rightarrow> abort_incomplete (batch cfg pl) (start_state cfg w)
   | Some op \<Rightarrow> exec_loop cfg env op sk 0 (batch cfg pl) (start_state cfg w))"
  by (simp add: execute_def batch_open_def batch_def start_state_def Let_def split: prod.split)

lemma exec_trace_length: "length (exec_trace cfg env op sk i f cs w) \<le> length cs"
  by (induction cs arbitrary: i f w sk) (simp_all split: prod.split)

lemma trip_report [simp]: "circuit_breaker_tripped (ex_report (trip st))" "counts tr a (ex_report (trip st)) = counts tr a (ex_report st)"
  by (simp_all add: trip_def counts_def)

lemma apply_tripped [simp]: "circuit_breaker_tripped (ex_report (apply_outcome c out st)) = circuit_breaker_tripped (ex_report st)"
  by (cases out) (simp_all add: skip_candidate_def note_deleted_def note_failed_def record_skip_def back_off_def Let_def)

lemma exec_loop_tripped:
  "circuit_breaker_tripped (ex_report (exec_loop cfg env op sk i cs st)) \<longleftrightarrow> circuit_breaker_tripped (ex_report st) \<or>
     length (exec_trace cfg env op sk i (ex_failures st) cs (ex_tree st)) < length cs"
proof (induction cs arbitrary: i st sk)
  case (Cons c cs)
  obtain v out where so: "step_outcome cfg env op sk i c (ex_tree st) = (v, out)" by fastforce
  then have "exec_candidate cfg env op sk i c st = apply_outcome c out (st\<lparr>ex_tree := v\<rparr>)"
    by (simp add: exec_candidate_outcome)
  then show ?case using Cons by (simp add: so)
qed simp

lemma outcome_partition:
  "length (filter is_removed os) + length (filter is_failed os) + length (filter (\<lambda>x. skip_of x \<noteq> None) os) +
     length (filter (\<lambda>x. x = WouldDelete) os) = length os"
proof (induction os)
  case (Cons a os)
  then show ?case by (cases a) (simp_all add: outcome_defs)
qed simp

lemma skip_partition: "sum_list (map (\<lambda>r. length (filter (\<lambda>x. skip_of x = Some r) os)) all_reasons) = length (filter (\<lambda>x. skip_of x \<noteq> None) os)"
proof (induction os)
  case (Cons a os)
  show ?case
  proof (cases "skip_of a")
    case None
    then show ?thesis using Cons by (simp add: all_reasons_def)
  next
    case (Some r)
    then show ?thesis using Cons by (cases r) (simp_all add: all_reasons_def)
  qed
qed (simp add: all_reasons_def)

text \<open>Whatever fails or changes meanwhile, the report of a batch that was not given up agrees
  with what happened to its candidates: every candidate reached is counted once as deleted, failed, skipped
  or would-delete, the histogram of skip reasons adds up to the skips, the deleted paths and freed
  bytes are those of the removed candidates, and the breaker flag tells whether candidates were left.\<close>

lemma report_accounts:
  assumes "batch_open cfg env pl \<noteq> None"
  shows "counts (batch_trace cfg env pl sk w) (empty_report cfg) (ex_report (execute cfg env pl sk w)) \<and>
    items_deleted (ex_report (execute cfg env pl sk w)) + items_failed (ex_report (execute cfg env pl sk w)) +
      items_skipped (ex_report (execute cfg env pl sk w)) + items_would_delete (ex_report (execute cfg env pl sk w)) =
      length (batch_trace cfg env pl sk w) \<and>
    sum_list (map (\<lambda>r. count_of (skipped_by_reason (ex_report (execute cfg env pl sk w))) (reason_key r)) all_reasons) =
      items_skipped (ex_report (execute cfg env pl sk w)) \<and>
    circuit_breaker_tripped (ex_report (execute cfg env pl sk w)) =
      (length (batch_trace cfg env pl sk w) < length (batch cfg pl))"
proof -
  obtain op where op: "batch_open cfg env pl = Some op" using assms by blast
  let ?st = "start_state cfg w" and ?tr = "batch_trace cfg env pl sk w" and ?rep = "ex_report (execute cfg env pl sk w)"
  have tr: "?tr = exec_trace cfg env op sk 0 (ex_failures ?st) (batch cfg pl) (ex_tree ?st)" by (simp add: batch_trace_def op)
  have ex: "execute cfg env pl sk w = exec_loop cfg env op sk 0 (batch cfg pl) ?st" by (simp add: execute_loop op)
  have c: "counts ?tr (empty_report cfg) ?rep"
    using exec_loop_trace [where i = 0 and cs = "batch cfg pl" and st = ?st and cfg = cfg and env = env and op = op and sk = sk] unfolding tr ex by (auto split: if_splits)
  have n: "items_deleted ?rep = length (filter is_removed (outcomes ?tr))" "items_failed ?rep = length (filter is_failed (outcomes ?tr))"
    "items_skipped ?rep = length (filter (\<lambda>x. skip_of x \<noteq> None) (outcomes ?tr))"
    "items_would_delete ?rep = length (filter (\<lambda>x. x = WouldDelete) (outcomes ?tr))"
    and h: "\<And>r. count_of (skipped_by_reason ?rep) (reason_key r) = length (filter (\<lambda>x. skip_of x = Some r) (outcomes ?tr))"
    using c by (simp_all add: counts_def empty_report_def count_of_def)
  have "length (outcomes ?tr) = length ?tr" by (simp add: outcomes_def)
  then have sum: "items_deleted ?rep + items_failed ?rep + items_skipped ?rep + items_would_delete ?rep = length ?tr"
    using outcome_partition [of "outcomes ?tr"] unfolding n by simp
  have "circuit_breaker_tripped ?rep = (length ?tr < length (batch cfg pl))"
    using exec_loop_tripped [where i = 0 and cs = "batch cfg pl" and st = ?st and cfg = cfg and env = env and op = op and sk = sk] unfolding tr ex by (simp add: empty_report_def)
  then show ?thesis using c sum skip_partition [of "outcomes ?tr"] unfolding h n(3) by blast
qed

subsection \<open>The circuit breaker\<close>

text \<open>Failures in a row; candidates not needed any more and dry runs neither count nor interrupt.\<close>

fun failure_run :: "outcome list \<Rightarrow> nat \<Rightarrow> nat" where
  "failure_run [] n = n"
| "failure_run (Failed e # os) n = failure_run os (Suc n)"
| "failure_run (Removed # os) n = failure_run os 0"
| "failure_run (Skipped r # os) n = failure_run os 0"
| "failure_run (Sufficed # os) n = failure_run os n"
| "failure_run (WouldDelete # os) n = failure_run os n"

lemma failure_run_cons: "n < unat T \<Longrightarrow> unat f = n \<Longrightarrow> failure_run (out # os) n = failure_run os (unat (next_failures out f))"
  for T f :: u32
  using unsigned_less [of T] by (cases out) (auto simp: next_failures_def unat_Suc_below word_less_nat_alt)

lemma next_failures_bound: "f < T \<Longrightarrow> next_failures out f \<le> T" for f T :: u32
  by (cases out) (auto simp: next_failures_def word_Suc_le_below)

lemma breaker_lemma:
  fixes env :: deletion_env and w :: tree and cs :: "candidacy_score list" and i :: nat
    and sk :: "'s skip_test" and op :: "path_key list option"
  assumes "f \<le> circuit_breaker_threshold cfg"
  defines "os \<equiv> outcomes (exec_trace cfg env op sk i f cs w)"
  shows "(\<forall>n < length os. failure_run (take n os) (unat f) < unat (circuit_breaker_threshold cfg)) \<and>
    (length os < length cs \<longrightarrow> failure_run os (unat f) = unat (circuit_breaker_threshold cfg))"
  unfolding os_def using assms(1)
proof (induction cs arbitrary: i f w sk)
  case Nil
  then show ?case by (simp add: outcomes_def)
next
  case (Cons c cs)
  let ?T = "circuit_breaker_threshold cfg"
  show ?case
  proof (cases "?T \<le> f")
    case True
    then show ?thesis using Cons.prems by (simp add: outcomes_def)
  next
    case False
    obtain v out where so: "step_outcome cfg env op sk i c w = (v, out)" by fastforce
    let ?g = "next_failures out f"
    let ?sk = "snd (ask sk i (outside env i BeforeCheck w) (cs_path c))"
    let ?os = "outcomes (exec_trace cfg env op ?sk (Suc i) ?g cs v)"
    have os: "outcomes (exec_trace cfg env op sk i f (c # cs) w) = out # ?os" using False by (simp add: so outcomes_def)
    have f: "unat f < unat ?T" using False by (simp add: word_le_nat_alt)
    have IH: "(\<forall>n < length ?os. failure_run (take n ?os) (unat ?g) < unat ?T) \<and>
        (length ?os < length cs \<longrightarrow> failure_run ?os (unat ?g) = unat ?T)"
      using False next_failures_bound [of f ?T] by (intro Cons.IH) simp
    have step: "failure_run (out # xs) (unat f) = failure_run xs (unat ?g)" for xs
      using failure_run_cons [OF f] by simp
    show ?thesis unfolding os
    proof (intro conjI allI impI)
      fix n assume n: "n < length (out # ?os)"
      show "failure_run (take n (out # ?os)) (unat f) < unat ?T"
      proof (cases n)
        case 0 then show ?thesis using f by simp
      next
        case (Suc m)
        then show ?thesis using IH n step by simp
      qed
    next
      assume "length (out # ?os) < length (c # cs)"
      then show "failure_run (out # ?os) (unat f) = unat ?T" using IH step by simp
    qed
  qed
qed

text \<open>The batch stops exactly at the configured number of failures in a row: at no point before
  the last candidate reached had that many failures accumulated, and when candidates are left over the
  run of failures has just reached the number and the report says so.\<close>

lemma breaker_halts:
  assumes "batch_open cfg env pl \<noteq> None"
    and "n < length (batch_trace cfg env pl sk w)"
  shows "failure_run (take n (outcomes (batch_trace cfg env pl sk w))) 0 < unat (circuit_breaker_threshold cfg) \<and>
    (circuit_breaker_tripped (ex_report (execute cfg env pl sk w)) \<longrightarrow>
       failure_run (outcomes (batch_trace cfg env pl sk w)) 0 = unat (circuit_breaker_threshold cfg))"
proof -
  obtain op where op: "batch_open cfg env pl = Some op" using assms by blast
  let ?os = "outcomes (batch_trace cfg env pl sk w)"
  have b: "(\<forall>n < length ?os. failure_run (take n ?os) 0 < unat (circuit_breaker_threshold cfg)) \<and>
      (length ?os < length (batch cfg pl) \<longrightarrow> failure_run ?os 0 = unat (circuit_breaker_threshold cfg))"
    using breaker_lemma [where f = 0 and cfg = cfg and env = env and op = op and sk = sk and i = 0 and cs = "batch cfg pl" and w = w]
    by (simp add: batch_trace_def op)
  have "circuit_breaker_tripped (ex_report (execute cfg env pl sk w)) = (length ?os < length (batch cfg pl))"
    using exec_loop_tripped [where i = 0 and cs = "batch cfg pl" and st = "start_state cfg w" and cfg = cfg and env = env and op = op and sk = sk]
    by (simp add: execute_loop batch_trace_def op empty_report_def outcomes_def)
  then show ?thesis using b assms(2) by (simp add: outcomes_def)
qed

subsection \<open>What a removal touches\<close>

definition quiet :: "deletion_env \<Rightarrow> bool" where
  "quiet env = (outside env = (\<lambda>_ _ w. w))"

text \<open>A removal takes away part of the subtree of its path.\<close>

definition prunes :: "path_key \<Rightarrow> tree \<Rightarrow> tree \<Rightarrow> bool" where
  "prunes k w v = (\<exists>P. v = filter P w \<and> (\<forall>x. \<not> prefix k (fst x) \<longrightarrow> P x))"

lemma prunes_refl [simp]: "prunes k w w"
  by (auto simp: prunes_def intro!: exI [of _ "\<lambda>_. True"])

lemma prunesI: "(\<And>x. \<not> prefix k (fst x) \<Longrightarrow> P x) \<Longrightarrow> prunes k w (filter P w)"
  unfolding prunes_def by blast

lemma prunes_trans:
  assumes "prunes k u v" "prunes k v w"
  shows "prunes k u w"
proof -
  obtain P Q where "v = filter P u" "\<forall>x. \<not> prefix k (fst x) \<longrightarrow> P x" "w = filter Q v" "\<forall>x. \<not> prefix k (fst x) \<longrightarrow> Q x"
    using assms unfolding prunes_def by blast
  then have "w = filter (\<lambda>x. P x \<and> Q x) u" "\<And>x. \<not> prefix k (fst x) \<Longrightarrow> P x \<and> Q x" by auto
  then show ?thesis using prunesI [of k "\<lambda>x. P x \<and> Q x" u] by blast
qed

lemma prunes_set:
  assumes "prunes k w v"
  shows "set v \<subseteq> set w" "x \<in> set w \<Longrightarrow> x \<notin> set v \<Longrightarrow> prefix k (fst x)"
proof -
  obtain P where P: "v = filter P w" "\<forall>x. \<not> prefix k (fst x) \<longrightarrow> P x" using assms unfolding prunes_def by blast
  show "set v \<subseteq> set w" using P(1) by simp
  show "x \<in> set w \<Longrightarrow> x \<notin> set v \<Longrightarrow> prefix k (fst x)" using P by (metis (mono_tags) mem_Collect_eq set_filter)
qed

lemma remove_dir_prunes: "remove_dir_all env i b k w = (v, r) \<Longrightarrow> prunes k w v"
  by (auto simp: remove_dir_all_def remove_subtree_def split: option.splits prod.splits intro!: prunesI)

lemma remove_file_prunes: "remove_file env i k w = (v, r) \<Longrightarrow> prunes k w v"
  by (auto simp: remove_file_def split: option.splits prod.splits intro!: prunesI)

lemma remove_force_prunes: "remove_dir_all_force env i k w = (v, r) \<Longrightarrow> prunes k w v"
  by (auto simp: remove_dir_all_force_def split: prod.splits option.splits if_splits
      intro: prunes_trans dest!: remove_dir_prunes)

lemma delete_prunes:
  assumes "quiet env" "delete_path cfg env i w c = (v, r)"
  shows "prunes (candidate_key c) w v"
proof -
  have q: "outside env = (\<lambda>_ _ w. w)" using assms(1) by (simp add: quiet_def)
  show ?thesis using assms(2)
    by (auto simp: delete_path_def Let_def q split: option.splits if_splits prod.splits
        dest!: remove_force_prunes remove_dir_prunes remove_file_prunes)
qed

lemma step_prunes:
  assumes "quiet env" "step_outcome cfg env op sk i c w = (v, out)"
  shows "prunes (candidate_key c) w v"
    and "v \<noteq> w \<Longrightarrow> preflight_check cfg env i op w c = None \<and> \<not> dry_run cfg \<and> (out = Removed \<or> is_failed out)"
proof -
  have q: "outside env = (\<lambda>_ _ w. w)" using assms(1) by (simp add: quiet_def)
  show "prunes (candidate_key c) w v" using assms(2)
    by (auto simp: step_outcome_def Let_def q split: option.splits if_splits prod.splits dest!: delete_prunes [OF assms(1)])
  show "preflight_check cfg env i op w c = None \<and> \<not> dry_run cfg \<and> (out = Removed \<or> is_failed out)" if "v \<noteq> w"
    using assms(2) that
    by (auto simp: step_outcome_def Let_def q is_failed_def split: option.splits if_splits prod.splits)
qed

text \<open>Whatever is missing after a quiet batch was taken by one step that passed the checks.\<close>

lemma loop_removed:
  assumes "quiet env" "x \<in> set (ex_tree st)" "x \<notin> set (ex_tree (exec_loop cfg env op sk i cs st))"
  shows "\<exists>j c u out. (j, c, u, out) \<in> set (exec_trace cfg env op sk i (ex_failures st) cs (ex_tree st)) \<and>
    x \<in> set u \<and> prefix (candidate_key c) (fst x) \<and> preflight_check cfg env j op u c = None \<and>
    \<not> dry_run cfg \<and> (out = Removed \<or> is_failed out)"
  using assms(2,3)
proof (induction cs arbitrary: i st sk)
  case Nil
  then show ?case by simp
next
  case (Cons c cs)
  show ?case
  proof (cases "circuit_breaker_threshold cfg \<le> ex_failures st")
    case True
    then show ?thesis using Cons.prems by (simp add: trip_def)
  next
    case False
    obtain v out where so: "step_outcome cfg env op sk i c (ex_tree st) = (v, out)" by fastforce
    define a where "a = apply_outcome c out (st\<lparr>ex_tree := v\<rparr>)"
    have a: "exec_candidate cfg env op sk i c st = a" "ex_tree a = v" "ex_failures a = next_failures out (ex_failures st)"
      by (simp_all add: exec_candidate_outcome so a_def)
    have q: "outside env i BeforeCheck (ex_tree st) = ex_tree st" using assms(1) by (simp add: quiet_def)
    let ?sk = "snd (ask sk i (ex_tree st) (cs_path c))"
    have tr: "exec_trace cfg env op sk i (ex_failures st) (c # cs) (ex_tree st) =
        (i, c, ex_tree st, out) # exec_trace cfg env op ?sk (Suc i) (ex_failures a) cs (ex_tree a)"
      using False by (simp add: so q a)
    show ?thesis
    proof (cases "x \<in> set v")
      case True
      have "x \<notin> set (ex_tree (exec_loop cfg env op ?sk (Suc i) cs a))" using Cons.prems False by (simp add: a q)
      then show ?thesis using Cons.IH [of a ?sk "Suc i"] True unfolding tr a(2) by (meson list.set_intros(2))
    next
      case False
      note p = step_prunes [OF assms(1) so]
      have "v \<noteq> ex_tree st" using Cons.prems(1) False by auto
      then have "preflight_check cfg env i op (ex_tree st) c = None \<and> \<not> dry_run cfg \<and> (out = Removed \<or> is_failed out)"
        by (rule p(2))
      moreover have "prefix (candidate_key c) (fst x)" using prunes_set(2) [OF p(1) Cons.prems(1) False] .
      ultimately show ?thesis unfolding tr using Cons.prems(1)
        by (intro exI [of _ i] exI [of _ c] exI [of _ "ex_tree st"] exI [of _ out]) simp
    qed
  qed
qed

lemma trace_candidate: "(j, c, u, out) \<in> set (exec_trace cfg env op sk i f cs w) \<Longrightarrow> c \<in> set cs"
  by (induction cs arbitrary: i f w sk) (auto split: prod.splits if_splits)

lemma execute_removed:
  assumes "quiet env" "x \<in> set w" "x \<notin> set (ex_tree (execute cfg env pl sk w))"
  shows "\<exists>op j c u out. batch_open cfg env pl = Some op \<and> (j, c, u, out) \<in> set (batch_trace cfg env pl sk w) \<and>
    c \<in> set (batch cfg pl) \<and> x \<in> set u \<and> prefix (candidate_key c) (fst x) \<and>
    preflight_check cfg env j op u c = None \<and> \<not> dry_run cfg \<and> (out = Removed \<or> is_failed out)"
proof (cases "batch_open cfg env pl")
  case None
  then show ?thesis using assms by (simp add: execute_loop abort_incomplete_def)
next
  case (Some op)
  have "x \<notin> set (ex_tree (exec_loop cfg env op sk 0 (batch cfg pl) (start_state cfg w)))"
    using assms(3) Some by (simp add: execute_loop)
  then obtain j c u out where t: "(j, c, u, out) \<in> set (exec_trace cfg env op sk 0 0 (batch cfg pl) w)" "x \<in> set u"
      "prefix (candidate_key c) (fst x)" "preflight_check cfg env j op u c = None" "\<not> dry_run cfg" "out = Removed \<or> is_failed out"
    using loop_removed [OF assms(1), where st = "start_state cfg w"] assms(2) by (metis start_state_simps(1,3))
  have "c \<in> set (batch cfg pl)" using trace_candidate [OF t(1)] .
  then show ?thesis using t Some unfolding batch_trace_def by (metis option.simps(5))
qed

text \<open>Every entry of a trace is a step, taken with a state of the skip test that its own steps reach.\<close>

lemma trace_step_invariant:
  assumes "\<And>sk i w p. P sk \<Longrightarrow> P (snd (ask sk i w p))"
  shows "P sk \<Longrightarrow> (i, c, u, out) \<in> set (exec_trace cfg env op sk j f cs v) \<Longrightarrow>
    \<exists>sk' v0 v1. P sk' \<and> u = outside env i BeforeCheck v0 \<and> step_outcome cfg env op sk' i c v0 = (v1, out)"
proof (induction cs arbitrary: j f v sk)
  case (Cons d cs)
  obtain v' o' where so: "step_outcome cfg env op sk j d v = (v', o')" by fastforce
  show ?case
  proof (cases "(i, c, u, out) = (j, d, outside env j BeforeCheck v, o')")
    case True
    then show ?thesis using so Cons.prems(1) by blast
  next
    case False
    then have "(i, c, u, out) \<in> set (exec_trace cfg env op (snd (ask sk j (outside env j BeforeCheck v) (cs_path d)))
        (Suc j) (next_failures o' f) cs v')" using Cons.prems(2) by (auto simp: so split: if_splits)
    then show ?thesis by (rule Cons.IH [OF assms [OF Cons.prems(1)]])
  qed
qed simp

lemma trace_step:
  fixes sk :: "'s skip_test"
  shows "(i, c, u, out) \<in> set (exec_trace cfg env op sk j f cs v) \<Longrightarrow>
    \<exists>(sk' :: 's skip_test) v0 v1. u = outside env i BeforeCheck v0 \<and> step_outcome cfg env op sk' i c v0 = (v1, out)"
  using trace_step_invariant [of "\<lambda>_. True" sk i c u out cfg env op j f cs v] by simp

text \<open>What a passed check says, whatever the file system.\<close>

lemma preflight_passed:
  assumes "preflight_check cfg env i op w c = None"
  obtains meta where "\<not> is_hardcoded_source_tree (cs_path c)" "symlink_metadata w (candidate_key c) = Some meta"
    "id_kind meta \<noteq> KSymlink" "verify_candidate_identity cfg w c = None"
    "\<forall>p. parent_key (candidate_key c) = Some p \<longrightarrow> writable env i p"
    "id_kind meta = KDirectory \<Longrightarrow> \<not> contains_nested_git env w 3 (candidate_key c)"
    "id_kind meta = KDirectory \<Longrightarrow> \<not> contains_cargo_manifest_without_artifact_markers env w (candidate_key c)"
    "id_kind meta = KDirectory \<Longrightarrow> category (cs_classification c) \<noteq> GoCache \<Longrightarrow> \<not> looks_like_source_code env w (candidate_key c)"
    "\<forall>ps. op = Some ps \<longrightarrow> candidate_key c \<notin> set ps"
  using assms that by (auto simp: preflight_check_def Let_def split: if_splits option.splits)

lemma preflight_git:
  assumes "preflight_check cfg env i op w c = None"
  shows "\<exists>meta. \<not> is_hardcoded_source_tree (cs_path c) \<and> symlink_metadata w (candidate_key c) = Some meta \<and>
    (id_kind meta = KDirectory \<longrightarrow> \<not> contains_nested_git env w 3 (candidate_key c))"
  by (rule preflight_passed [OF assms], intro exI conjI impI) assumption+

text \<open>C8: when nobody else changes the file system, whatever is gone after a batch lay at or below
  the path of a planned candidate that, on the file system at its turn, passed every check: not in a
  protected source tree, not a symbolic link, not open, its identity the scanned one, its parent
  writable, and, if a directory, without a repository, a Cargo manifest or source files.
  A dry run, and a batch whose open-file scan was cut short, remove nothing.\<close>

theorem removals_checked:
  assumes "quiet env" and "x \<in> set w" and "x \<notin> set (ex_tree (execute cfg env pl sk w))"
  shows "\<not> dry_run cfg \<and> (\<exists>op j c u out meta. batch_open cfg env pl = Some op \<and>
    (j, c, u, out) \<in> set (batch_trace cfg env pl sk w) \<and> c \<in> set (batch cfg pl) \<and>
    x \<in> set u \<and> prefix (candidate_key c) (fst x) \<and> \<not> is_hardcoded_source_tree (cs_path c) \<and>
    symlink_metadata u (candidate_key c) = Some meta \<and> id_kind meta \<noteq> KSymlink \<and>
    (\<forall>ident. cs_identity c = Some ident \<longrightarrow> meta = ident) \<and> (require_identity cfg \<longrightarrow> cs_identity c \<noteq> None) \<and>
    (\<forall>p. parent_key (candidate_key c) = Some p \<longrightarrow> writable env j p) \<and>
    (\<forall>ps. op = Some ps \<longrightarrow> candidate_key c \<notin> set ps) \<and>
    (id_kind meta = KDirectory \<longrightarrow> \<not> contains_nested_git env u 3 (candidate_key c) \<and>
       \<not> contains_cargo_manifest_without_artifact_markers env u (candidate_key c) \<and>
       (category (cs_classification c) = GoCache \<or> \<not> looks_like_source_code env u (candidate_key c))))"
proof -
  obtain op j c u out where t: "batch_open cfg env pl = Some op" "(j, c, u, out) \<in> set (batch_trace cfg env pl sk w)"
      "c \<in> set (batch cfg pl)" "x \<in> set u" "prefix (candidate_key c) (fst x)"
      "preflight_check cfg env j op u c = None" "\<not> dry_run cfg"
    using execute_removed [OF assms] by blast
  obtain meta where m: "\<not> is_hardcoded_source_tree (cs_path c)" "symlink_metadata u (candidate_key c) = Some meta"
      "id_kind meta \<noteq> KSymlink" "verify_candidate_identity cfg u c = None"
      "\<forall>p. parent_key (candidate_key c) = Some p \<longrightarrow> writable env j p"
      "id_kind meta = KDirectory \<Longrightarrow> \<not> contains_nested_git env u 3 (candidate_key c)"
      "id_kind meta = KDirectory \<Longrightarrow> \<not> contains_cargo_manifest_without_artifact_markers env u (candidate_key c)"
      "id_kind meta = KDirectory \<Longrightarrow> category (cs_classification c) \<noteq> GoCache \<Longrightarrow> \<not> looks_like_source_code env u (candidate_key c)"
      "\<forall>ps. op = Some ps \<longrightarrow> candidate_key c \<notin> set ps"
    using preflight_passed [OF t(6)] by blast
  have id: "\<forall>ident. cs_identity c = Some ident \<longrightarrow> meta = ident" "require_identity cfg \<longrightarrow> cs_identity c \<noteq> None"
    using m(2,4) by (auto simp: verify_candidate_identity_def split: option.splits if_splits)
  show ?thesis
    by (intro conjI exI [of _ op] exI [of _ j] exI [of _ c] exI [of _ u] exI [of _ out] exI [of _ meta])
       (use t m id in blast)+
qed


subsection \<open>Repositories survive\<close>

text \<open>Removals leave no entry without its directory: what a failed removal keeps, it keeps with
  the directories above it.\<close>

definition removals_closed :: "deletion_env \<Rightarrow> bool" where
  "removals_closed env = (\<forall>i b e kept q. removal env i b = Some (e, kept) \<longrightarrow> kept q \<longrightarrow> (\<forall>p. prefix p q \<longrightarrow> kept p))"

lemma wf_filter:
  assumes "wf_tree w" "\<And>q n m. (q, n) \<in> set w \<Longrightarrow> (butlast q, m) \<in> set w \<Longrightarrow> id_kind m = KDirectory \<Longrightarrow> P (q, n) \<Longrightarrow> P (butlast q, m)"
  shows "wf_tree (filter P w)"
  unfolding wf_tree_def
proof (intro conjI)
  show "distinct (map fst (filter P w))" using assms(1) by (simp add: wf_tree_def distinct_map_filter)
  show "\<forall>(q, n) \<in> set (filter P w). \<exists>ns. q = RootDir # map Normal ns" using assms(1) by (auto simp: wf_tree_def)
  show "\<forall>(q, n) \<in> set (filter P w). length q \<le> 1 \<or> (\<exists>m. (butlast q, m) \<in> set (filter P w) \<and> id_kind m = KDirectory)"
    using assms unfolding wf_tree_def by fastforce
qed

lemma remove_dir_wf:
  assumes "wf_tree w" "removals_closed env" "remove_dir_all env i b k w = (v, r)"
  shows "wf_tree v"
proof (cases "removal env i b")
  case None
  have "wf_tree (remove_subtree k w)" unfolding remove_subtree_def
    by (rule wf_filter [OF assms(1)]) (auto dest: prefix_order.trans [OF _ prefixeq_butlast])
  then show ?thesis using assms(3) None by (simp add: remove_dir_all_def)
next
  case (Some x)
  obtain e kept where x: "x = (e, kept)" by fastforce
  have up: "kept q \<Longrightarrow> kept (butlast q)" for q
    using assms(2) Some x prefixeq_butlast unfolding removals_closed_def by blast
  have "wf_tree (filter (\<lambda>(q, _). prefix k q \<longrightarrow> kept q) w)"
    by (rule wf_filter [OF assms(1)]) (auto dest: up prefix_order.trans [OF _ prefixeq_butlast])
  then show ?thesis using assms(3) Some x by (simp add: remove_dir_all_def)
qed

lemma remove_force_wf:
  assumes "wf_tree w" "removals_closed env" "remove_dir_all_force env i k w = (v, r)"
  shows "wf_tree v"
  using assms by (auto simp: remove_dir_all_force_def split: prod.splits option.splits if_splits dest: remove_dir_wf)

lemma remove_file_wf:
  assumes "wf_tree w" "symlink_metadata w k = Some meta" "id_kind meta \<noteq> KDirectory" "remove_file env i k w = (v, r)"
  shows "wf_tree v"
proof -
  have "m = meta" if "(k, m) \<in> set w" for m
    using that assms(1,2) by (simp add: symlink_metadata_def wf_tree_def)
  then have "wf_tree (filter (\<lambda>(q, _). q \<noteq> k) w)" using assms(3) by (intro wf_filter [OF assms(1)]) auto
  then show ?thesis using assms(1,4) by (auto simp: remove_file_def split: option.splits prod.splits)
qed

lemma removal_step_wf:
  assumes "quiet env" "removals_closed env" "wf_tree w" "step_outcome cfg env op sk i c w = (v, out)"
  shows "wf_tree v"
proof -
  have q: "outside env = (\<lambda>_ _ w. w)" using assms(1) by (simp add: quiet_def)
  have "wf_tree u" if "delete_path cfg env i w c = (u, r)" for u r
    using that assms(3) remove_force_wf [OF assms(3,2)] remove_dir_wf [OF assms(3,2)] remove_file_wf [OF assms(3)]
    by (auto simp: delete_path_def Let_def q split: option.splits if_splits prod.splits)
  then show ?thesis using assms(3,4)
    by (auto simp: step_outcome_def Let_def q split: option.splits if_splits prod.splits)
qed

lemma trace_wf:
  assumes "quiet env" "removals_closed env"
  shows "wf_tree w \<Longrightarrow> (j, c, u, out) \<in> set (exec_trace cfg env op sk i f cs w) \<Longrightarrow> wf_tree u"
proof (induction cs arbitrary: i f w sk)
  case (Cons d cs)
  obtain v o' where so: "step_outcome cfg env op sk i d w = (v, o')" by fastforce
  have "wf_tree v" using removal_step_wf [OF assms Cons.prems(1) so] .
  moreover have "outside env i BeforeCheck w = w" using assms(1) by (simp add: quiet_def)
  ultimately show ?case using Cons by (auto simp: so split: if_splits)
qed simp

text \<open>A repository less than the depth of the search below a directory is found.\<close>

lemma nested_git_found:
  assumes "wf_tree w" "\<forall>k. readable env k" "(k @ map Normal ns @ [Normal ''.git''], n) \<in> set w" "length ns < d" "k \<noteq> []"
  shows "contains_nested_git env w d k"
  using assms(3-5)
proof (induction ns arbitrary: k d)
  case Nil
  then obtain d' where "d = Suc d'" by (cases d) auto
  moreover have "(''.git'', id_kind n) \<in> set (children w k)" using Nil by (intro children_mem) simp
  ultimately show ?case using assms(2) by (auto simp: read_dir_def list_ex_iff intro!: bexI)
next
  case (Cons a ns)
  obtain d' where d: "d = Suc d'" using Cons.prems(2) by (cases d) auto
  have "contains_nested_git env w d' (k @ [Normal a])" using Cons.prems d by (intro Cons.IH) auto
  moreover have "\<exists>m. (k @ [Normal a], m) \<in> set w \<and> id_kind m = KDirectory"
    using directory_above [OF assms(1), of "k @ [Normal a]" "map Normal ns @ [Normal ''.git'']"] Cons.prems(1) by simp
  then obtain m where "(a, KDirectory) \<in> set (children w k)" using children_mem by (metis append_Cons append_Nil)
  ultimately show ?case using assms(2) d by (auto simp: read_dir_def list_ex_iff intro!: bexI [of _ "(a, KDirectory)"])
qed

lemma git_itself_hardcoded:
  assumes "components p = d @ [Normal ''.git'']"
  shows "is_hardcoded_source_tree p"
proof -
  let ?cs = "components p"
  have "length ?cs \<in> {(if ?cs \<noteq> [] \<and> hd ?cs = RootDir then 1 else 0)..<Suc (length ?cs)}" using assms by simp
  then have "take (length ?cs) ?cs \<in> set (ancestors p)"
    unfolding ancestors_def Let_def set_map set_rev set_upt by (rule imageI)
  then have "?cs \<in> set (ancestors p)" by simp
  moreover have "comps_file_name ?cs = Some ''.git''" using assms by (simp add: comps_file_name_def)
  ultimately show ?thesis by (auto simp: is_hardcoded_source_tree_def Let_def list_ex_iff)
qed

text \<open>C9: on a readable file system that nobody else changes, a batch takes a repository away
  only with a planned candidate that lies at least three levels above the directory that holds the
  \<open>.git\<close> entry, beyond the depth the last check looks; candidates at, inside or closer above are refused.\<close>

theorem repository_survives:
  assumes "quiet env" and "removals_closed env" and "\<forall>k. readable env k" and "wf_tree w"
    and "(d @ [Normal ''.git''], n) \<in> set w"
    and "(d @ [Normal ''.git''], n) \<notin> set (ex_tree (execute cfg env pl sk w))"
  shows "\<exists>c \<in> set (batch cfg pl). prefix (candidate_key c) d \<and> length (candidate_key c) + 3 \<le> length d"
proof -
  obtain op j c u out where t: "batch_open cfg env pl = Some op" "(j, c, u, out) \<in> set (batch_trace cfg env pl sk w)"
      "c \<in> set (batch cfg pl)" "(d @ [Normal ''.git''], n) \<in> set u" "prefix (candidate_key c) (d @ [Normal ''.git''])"
      "preflight_check cfg env j op u c = None"
    using execute_removed [OF assms(1,5,6)] unfolding fst_conv by blast
  obtain meta where m: "\<not> is_hardcoded_source_tree (cs_path c)" "symlink_metadata u (candidate_key c) = Some meta"
      "id_kind meta = KDirectory \<Longrightarrow> \<not> contains_nested_git env u 3 (candidate_key c)"
    using preflight_git [OF t(6)] by (elim exE conjE) simp
  have wf: "wf_tree u" using trace_wf [OF assms(1,2,4)] t(1,2) by (simp add: batch_trace_def)
  have "candidate_key c \<noteq> d @ [Normal ''.git'']" using git_itself_hardcoded m(1) by (auto simp: candidate_key_def)
  then have pre: "prefix (candidate_key c) d" using t(5) by (simp add: prefix_snoc)
  then obtain ms where ms: "d = candidate_key c @ ms" by (auto simp: prefix_def)
  have kin: "(candidate_key c, meta) \<in> set u" using m(2) by (auto simp: symlink_metadata_def dest: map_of_SomeD)
  then obtain ks where ks: "candidate_key c = RootDir # map Normal ks" using wf by (auto simp: wf_tree_def)
  obtain ns where "d @ [Normal ''.git''] = RootDir # map Normal ns" using t(4) wf by (auto simp: wf_tree_def)
  then have "map Normal ks @ ms @ [Normal ''.git''] = map Normal ns" using ks ms by simp
  then obtain rs where rs: "ms = map Normal rs" by (metis append_eq_map_conv)
  have "\<not> length rs < 3"
  proof
    assume "length rs < 3"
    then have "contains_nested_git env u 3 (candidate_key c)"
      using t(4) ks unfolding ms rs by (intro nested_git_found [OF wf assms(3), of _ rs n]) simp_all
    moreover obtain m' where "(candidate_key c, m') \<in> set u" "id_kind m' = KDirectory"
      using directory_above [OF wf, of "candidate_key c" "ms @ [Normal ''.git'']" n] t(4) ks unfolding ms by auto
    moreover have "m' = meta" using calculation(2) kin wf unfolding wf_tree_def by (metis eq_key_imp_eq_value)
    ultimately show False using m(3) by simp
  qed
  then show ?thesis using pre ms rs t(3) by (intro bexI [of _ c]) auto
qed

subsection \<open>A small batch\<close>

abbreviation never :: "unit skip_test" where
  "never \<equiv> None"

definition demo_node :: "fs_entry_kind \<Rightarrow> u64 \<Rightarrow> fs_identity" where
  "demo_node kind ino = \<lparr>device_id = 1, inode = ino, id_kind = kind\<rparr>"

definition demo_tree :: tree where
  "demo_tree = [([RootDir], demo_node KDirectory 2), ([RootDir, Normal ''tmp''], demo_node KDirectory 3),
     ([RootDir, Normal ''tmp'', Normal ''a''], demo_node KDirectory 4),
     ([RootDir, Normal ''tmp'', Normal ''a'', Normal ''f''], demo_node KFile 5)]"

definition demo_scored :: candidacy_score where
  "demo_scored = \<lparr>cs_path = ''/tmp/a'', cs_identity = Some (demo_node KDirectory 4), total_score = Fin 1,
     factors = \<lparr>f_location = 0, f_name = 0, f_age = 0, f_size = 0, f_structure = 0, f_pressure = 0\<rparr>,
     vetoed = False, veto_text = None, cs_classification = classification_unknown, cs_size_bytes = 8, cs_age = 0,
     decision = \<lparr>out_action = Delete, posterior_abandoned = 1, expected_loss_keep = 1, expected_loss_delete = 0,
       out_calibration = 1, fallback_active = False\<rparr>,
     ledger = \<lparr>ledger_terms = [], ledger_summary = []\<rparr>\<rparr>"

definition demo_deletion :: deletion_config where
  "demo_deletion = \<lparr>max_batch_size = 10, dry_run = False, del_min_score = Fin 0, circuit_breaker_threshold = 1,
     circuit_breaker_cooldown = 0, check_open_files = False, require_identity = False\<rparr>"

text \<open>A quiet file system that removes, or that refuses every removal.\<close>

definition demo_env :: "bool \<Rightarrow> deletion_env" where
  "demo_env works = \<lparr>outside = (\<lambda>_ _ w. w), readable = (\<lambda>_. True), writable = (\<lambda>_ _. True),
     removal = (\<lambda>_ _. if works then None
       else Some (\<lparr>io_kind = OtherKind, raw_os_error = None, io_text = ''busy''\<rparr>, \<lambda>_. True)),
     open_scan = (\<lambda>_. ([], True))\<rparr>"

lemma demo_env_simps [simp]: "quiet (demo_env b)" "readable (demo_env b) k" "writable (demo_env b) i k"
  "outside (demo_env b) i m w = w" "removals_closed (demo_env b)" "removal (demo_env True) i f = None"
  "removal (demo_env False) i f = Some (\<lparr>io_kind = OtherKind, raw_os_error = None, io_text = ''busy''\<rparr>, \<lambda>_. True)"
  by (simp_all add: demo_env_def quiet_def removals_closed_def)

lemma tmp_a_allowed: "\<not> is_hardcoded_source_tree ''/tmp/a''"
  by (simp add: is_hardcoded_source_tree_def is_under_user_projects_def Let_def ancestors_def demo_components
      comps_file_name_def starts_with_def strip_prefix_def list_ex_iff upt_rec)

lemma demo_preflight:
  assumes "cs_path c = ''/tmp/a''" "cs_identity c = None \<or> cs_identity c = Some (demo_node KDirectory 4)"
  shows "preflight_check demo_deletion (demo_env b) i None demo_tree c = None"
proof -
  have k: "candidate_key c = [RootDir, Normal ''tmp'', Normal ''a'']" using assms(1) by (simp add: candidate_key_def demo_components)
  have ch: "children demo_tree [RootDir, Normal ''tmp'', Normal ''a''] = [(''f'', KFile)]"
    by (simp add: children_def demo_tree_def demo_node_def List.map_filter_def)
  have m: "symlink_metadata demo_tree [RootDir, Normal ''tmp'', Normal ''a''] = Some (demo_node KDirectory 4)"
    by (simp add: symlink_metadata_def demo_tree_def)
  have g: "\<not> contains_nested_git (demo_env b) demo_tree 3 [RootDir, Normal ''tmp'', Normal ''a'']"
    by (simp add: eval_nat_numeral read_dir_def ch)
  have l: "\<not> looks_like_source_code (demo_env b) demo_tree [RootDir, Normal ''tmp'', Normal ''a'']"
    by (simp add: looks_like_source_code_def read_dir_def ch name_extension_def rsplit_once_def manifest_files_def
        eq_ignore_ascii_case_def to_lower_def)
  have t: "\<not> contains_cargo_manifest_without_artifact_markers (demo_env b) demo_tree [RootDir, Normal ''tmp'', Normal ''a'']"
    by (simp add: contains_cargo_manifest_without_artifact_markers_def read_dir_def ch note_entry_def no_signals_def
        eq_ignore_ascii_case_def to_lower_def)
  have v: "verify_candidate_identity demo_deletion demo_tree c = None"
    using assms(2) by (auto simp: verify_candidate_identity_def k m demo_deletion_def)
  show ?thesis using assms(1) tmp_a_allowed g l t v
    by (simp add: preflight_check_def Let_def k m demo_node_def parent_key_def)
qed

definition demo_plan :: "candidacy_score list \<Rightarrow> deletion_plan" where
  "demo_plan cs = \<lparr>plan_candidates = cs, total_reclaimable_bytes = 0, estimated_items = length cs\<rparr>"

lemma demo_batch: "length cs \<le> 10 \<Longrightarrow> batch demo_deletion (demo_plan cs) = cs"
  "batch_open demo_deletion env pl = Some None" "circuit_breaker_threshold demo_deletion = 1" "\<not> dry_run demo_deletion"
  by (simp_all add: batch_def batch_open_def demo_plan_def demo_deletion_def)

lemma demo_removed:
  assumes "cs_path c = ''/tmp/a''" "cs_identity c = None \<or> cs_identity c = Some (demo_node KDirectory 4)"
    "\<not> classification_allows_force_remove (cs_classification c)"
  shows "step_outcome demo_deletion (demo_env True) None never i c demo_tree = (take 2 demo_tree, Removed)"
    and "\<exists>e. step_outcome demo_deletion (demo_env False) None never i c demo_tree = (demo_tree, Failed e)"
proof -
  have k: "candidate_key c = [RootDir, Normal ''tmp'', Normal ''a'']" using assms(1) by (simp add: candidate_key_def demo_components)
  have m: "symlink_metadata demo_tree [RootDir, Normal ''tmp'', Normal ''a''] = Some (demo_node KDirectory 4)"
    "symlink_metadata (take 2 demo_tree) [RootDir, Normal ''tmp'', Normal ''a''] = None"
    by (simp_all add: symlink_metadata_def demo_tree_def)
  have v: "verify_candidate_identity demo_deletion demo_tree c = None"
    using assms(2) by (auto simp: verify_candidate_identity_def k m demo_deletion_def)
  have r: "remove_subtree [RootDir, Normal ''tmp'', Normal ''a''] demo_tree = take 2 demo_tree"
    by (simp add: remove_subtree_def demo_tree_def)
  have f: "filter (\<lambda>(q, _). prefix [RootDir, Normal ''tmp'', Normal ''a''] q \<longrightarrow> True) demo_tree = demo_tree"
    by (simp add: demo_tree_def)
  show "step_outcome demo_deletion (demo_env True) None never i c demo_tree = (take 2 demo_tree, Removed)"
    using v assms(3) by (simp add: step_outcome_def demo_preflight [OF assms(1,2)] demo_batch delete_path_def k m Let_def
        demo_node_def remove_dir_all_def r)
  show "\<exists>e. step_outcome demo_deletion (demo_env False) None never i c demo_tree = (demo_tree, Failed e)"
    using v assms(3) f by (simp add: step_outcome_def demo_preflight [OF assms(1,2)] demo_batch delete_path_def k m Let_def
        demo_node_def remove_dir_all_def)
qed

lemma demo_scored_simps [simp]: "cs_path demo_scored = ''/tmp/a''" "cs_identity demo_scored = Some (demo_node KDirectory 4)"
  "\<not> classification_allows_force_remove (cs_classification demo_scored)"
  "candidate_key demo_scored = [RootDir, Normal ''tmp'', Normal ''a'']"
  by (simp_all add: demo_scored_def classification_allows_force_remove_def classification_unknown_def candidate_key_def demo_components)

lemma demo_trace:
  assumes "cs_path c = ''/tmp/a''" "cs_identity c = None \<or> cs_identity c = Some (demo_node KDirectory 4)"
    "\<not> classification_allows_force_remove (cs_classification c)"
  shows "batch_trace demo_deletion (demo_env True) (demo_plan [c]) never demo_tree = [(0, c, demo_tree, Removed)]"
    "ex_tree (execute demo_deletion (demo_env True) (demo_plan [c]) never demo_tree) = take 2 demo_tree"
  by (simp_all add: demo_removed(1) [OF assms] batch_trace_def demo_batch execute_loop exec_candidate_outcome note_deleted_def Let_def)

theorem removals_checked_witness:
  "\<exists>c \<in> {demo_scored}. prefix (candidate_key c) [RootDir, Normal ''tmp'', Normal ''a'', Normal ''f''] \<and>
     \<not> is_hardcoded_source_tree (cs_path c)"
proof -
  let ?x = "([RootDir, Normal ''tmp'', Normal ''a'', Normal ''f''], demo_node KFile 5)"
  have "?x \<in> set demo_tree" "?x \<notin> set (ex_tree (execute demo_deletion (demo_env True) (demo_plan [demo_scored]) never demo_tree))"
    using demo_trace(2) [of demo_scored] by (simp_all add: demo_tree_def)
  from removals_checked [OF demo_env_simps(1) this] show ?thesis by (elim exE conjE) (auto simp: demo_batch)
qed


text \<open>A repository three levels down, beyond the depth of the check.\<close>

definition demo_deep :: tree where
  "demo_deep = demo_tree @ [([RootDir, Normal ''tmp'', Normal ''a'', Normal ''1''], demo_node KDirectory 6),
     ([RootDir, Normal ''tmp'', Normal ''a'', Normal ''1'', Normal ''2''], demo_node KDirectory 7),
     ([RootDir, Normal ''tmp'', Normal ''a'', Normal ''1'', Normal ''2'', Normal ''3''], demo_node KDirectory 8),
     ([RootDir, Normal ''tmp'', Normal ''a'', Normal ''1'', Normal ''2'', Normal ''3'', Normal ''.git''], demo_node KDirectory 9)]"

lemma absolute_iff: "(\<exists>ns. q = RootDir # map Normal ns) \<longleftrightarrow>
    (case q of [] \<Rightarrow> False | c # cs \<Rightarrow> c = RootDir \<and> list_all (\<lambda>x. case x of Normal _ \<Rightarrow> True | _ \<Rightarrow> False) cs)"
proof -
  have "(\<exists>s. x = Normal s) = (case x of Normal _ \<Rightarrow> True | _ \<Rightarrow> False)" for x by (cases x) simp_all
  then have "(\<exists>ns. cs = map Normal ns) \<longleftrightarrow> list_all (\<lambda>x. case x of Normal _ \<Rightarrow> True | _ \<Rightarrow> False) cs" for cs
    unfolding ex_map_conv list_all_iff by simp
  then show ?thesis by (cases q) auto
qed

lemma demo_deep_wf: "wf_tree demo_deep"
proof -
  have "distinct (map fst demo_deep)" by (simp add: demo_deep_def demo_tree_def)
  moreover have "\<forall>(q, n) \<in> set demo_deep. \<exists>ns. q = RootDir # map Normal ns"
    unfolding absolute_iff by (simp add: demo_deep_def demo_tree_def)
  moreover have "\<forall>(q, n) \<in> set demo_deep. length q \<le> 1 \<or> (butlast q, the (map_of demo_deep (butlast q))) \<in> set demo_deep \<and>
      id_kind (the (map_of demo_deep (butlast q))) = KDirectory"
    by (simp add: demo_deep_def demo_tree_def demo_node_def)
  ultimately show ?thesis unfolding wf_tree_def by blast
qed

lemma demo_deep_removed:
  "ex_tree (execute demo_deletion (demo_env True) (demo_plan [demo_scored]) never demo_deep) = take 2 demo_deep"
proof -
  let ?k = "[RootDir, Normal ''tmp'', Normal ''a'']"
  have ch: "children demo_deep ?k = [(''f'', KFile), (''1'', KDirectory)]"
    "children demo_deep (?k @ [Normal ''1'']) = [(''2'', KDirectory)]"
    "children demo_deep (?k @ [Normal ''1'', Normal ''2'']) = [(''3'', KDirectory)]"
    by (simp_all add: children_def demo_deep_def demo_tree_def demo_node_def List.map_filter_def)
  have m: "symlink_metadata demo_deep ?k = Some (demo_node KDirectory 4)"
    "symlink_metadata (take 2 demo_deep) ?k = None"
    by (simp_all add: symlink_metadata_def demo_deep_def demo_tree_def)
  have g: "\<not> contains_nested_git (demo_env True) demo_deep 3 ?k"
    using ch by (simp add: eval_nat_numeral read_dir_def)
  have l: "\<not> looks_like_source_code (demo_env True) demo_deep ?k"
    by (simp add: looks_like_source_code_def read_dir_def ch name_extension_def rsplit_once_def manifest_files_def
        eq_ignore_ascii_case_def to_lower_def)
  have t: "\<not> contains_cargo_manifest_without_artifact_markers (demo_env True) demo_deep ?k"
    by (simp add: contains_cargo_manifest_without_artifact_markers_def read_dir_def ch note_entry_def no_signals_def
        eq_ignore_ascii_case_def to_lower_def)
  have v: "verify_candidate_identity demo_deletion demo_deep demo_scored = None"
    by (simp add: verify_candidate_identity_def m)
  have p: "preflight_check demo_deletion (demo_env True) 0 None demo_deep demo_scored = None"
    using tmp_a_allowed g l t v by (simp add: preflight_check_def Let_def m demo_node_def parent_key_def)
  have r: "remove_subtree ?k demo_deep = take 2 demo_deep"
    by (simp add: remove_subtree_def demo_deep_def demo_tree_def)
  have "step_outcome demo_deletion (demo_env True) None never 0 demo_scored demo_deep = (take 2 demo_deep, Removed)"
    using v by (simp add: step_outcome_def p demo_batch delete_path_def m Let_def demo_node_def remove_dir_all_def r)
  then show ?thesis by (simp add: execute_loop demo_batch exec_candidate_outcome note_deleted_def Let_def)
qed

theorem repository_survives_witness:
  "\<exists>c \<in> {demo_scored}. length (candidate_key c) + 3 \<le>
     length [RootDir, Normal ''tmp'', Normal ''a'', Normal ''1'', Normal ''2'', Normal ''3'']"
proof -
  let ?d = "[RootDir, Normal ''tmp'', Normal ''a'', Normal ''1'', Normal ''2'', Normal ''3'']"
  have i: "(?d @ [Normal ''.git''], demo_node KDirectory 9) \<in> set demo_deep"
    and "(?d @ [Normal ''.git''], demo_node KDirectory 9) \<notin> set (take 2 demo_deep)"
    by (simp_all add: demo_deep_def demo_tree_def)
  then have o: "(?d @ [Normal ''.git''], demo_node KDirectory 9) \<notin>
      set (ex_tree (execute demo_deletion (demo_env True) (demo_plan [demo_scored]) never demo_deep))"
    by (simp only: demo_deep_removed not_False_eq_True)
  have "\<exists>c \<in> set (batch demo_deletion (demo_plan [demo_scored])). prefix (candidate_key c) ?d \<and> length (candidate_key c) + 3 \<le> length ?d"
    using repository_survives [OF demo_env_simps(1) demo_env_simps(5) _ demo_deep_wf i o] by simp
  then show ?thesis by (simp add: demo_batch)
qed

end
