(* ===== verification/Executor.thy ===== *)
theory Executor
  imports Protection_Run Deletion_Run Pipeline
begin

section \<open>The executor thread (src/src/daemon/loop_main.rs)\<close>

text \<open>
  One batch of the executor thread: the circuit-breaker cool-down, the policy engine, the dampening
  of repeated deletions, the plan, the protection check as the skip test of the batch, the batch
  itself and what is remembered for the next one. Shutdown is an environment answer; console lines
  and their rate limits are left out, the activity events are kept.
\<close>

subsection \<open>Repeated deletions\<close>

record past_deletion =
  last_deleted :: instant
  cycle_count :: u32

record repeat_tracker =
  history :: "path_key \<Rightarrow> past_deletion option"
  base_cooldown :: duration
  max_cooldown :: duration

definition tracker_new :: "duration \<Rightarrow> duration \<Rightarrow> repeat_tracker" where
  "tracker_new b m = \<lparr>history = Map.empty, base_cooldown = b, max_cooldown = m\<rparr>"

definition update_cooldowns :: "duration \<Rightarrow> duration \<Rightarrow> repeat_tracker \<Rightarrow> repeat_tracker" where
  "update_cooldowns b m t = t\<lparr>base_cooldown := b, max_cooldown := m\<rparr>"

text \<open>\<open>Duration::MAX\<close>; the factor is a shift of a 64-bit one, cut to 32 bits when it does not fit.\<close>

definition duration_max :: duration where
  "duration_max = (2 ^ 64 - 1) * 1000000000 + 999999999"

definition cooldown_multiplier :: "u32 \<Rightarrow> nat" where
  "cooldown_multiplier cycles =
     (let shift = unat (sat_sub cycles 1);
          multiplier = (if shift < 64 then 2 ^ shift else 2 ^ 64 - 1)
      in if multiplier \<le> 2 ^ 32 - 1 then multiplier else 2 ^ 32 - 1)"

definition cooldown_for :: "instant \<Rightarrow> repeat_tracker \<Rightarrow> path \<Rightarrow> duration option" where
  "cooldown_for now t p = (case history t (components p) of None \<Rightarrow> None
     | Some r \<Rightarrow> if cycle_count r = 0 then None
       else let cooldown = min (min (base_cooldown t * cooldown_multiplier (cycle_count r)) duration_max) (max_cooldown t);
                passed = elapsed now (last_deleted r)
            in if cooldown \<le> passed then None else Some (cooldown - passed))"

definition record_deletion :: "instant \<Rightarrow> path \<Rightarrow> repeat_tracker \<Rightarrow> repeat_tracker" where
  "record_deletion now p t =
     t\<lparr>history := (history t)(components p \<mapsto> \<lparr>last_deleted = now,
       cycle_count = sat_add (case history t (components p) of None \<Rightarrow> 0 | Some r \<Rightarrow> cycle_count r) 1\<rparr>)\<rparr>"

definition record_deletions :: "instant \<Rightarrow> path list \<Rightarrow> repeat_tracker \<Rightarrow> repeat_tracker" where
  "record_deletions now ps t = fold (record_deletion now) ps t"

definition bypasses_dampening :: "pressure_level \<Rightarrow> f64 \<Rightarrow> bool" where
  "bypasses_dampening level u = (rank Red \<le> rank level \<or> lit (85/100) \<le> u)"

definition filter_candidates ::
  "instant \<Rightarrow> repeat_tracker \<Rightarrow> candidacy_score list \<Rightarrow> pressure_level \<Rightarrow> f64 \<Rightarrow>
   candidacy_score list \<times> candidacy_score list" where
  "filter_candidates now t cs level u =
     (if bypasses_dampening level u then (cs, [])
      else (filter (\<lambda>c. cooldown_for now t (cs_path c) = None) cs,
            filter (\<lambda>c. cooldown_for now t (cs_path c) \<noteq> None) cs))"

definition prune_expired :: "instant \<Rightarrow> repeat_tracker \<Rightarrow> repeat_tracker" where
  "prune_expired now t = t\<lparr>history := (\<lambda>k. case history t k of None \<Rightarrow> None
     | Some r \<Rightarrow> if elapsed now (last_deleted r) < max_cooldown t then Some r else None)\<rparr>"

subsection \<open>The protection check of the daemon\<close>

definition daemon_protection_reason ::
  "protect_env \<Rightarrow> tree \<Rightarrow> sacred_path list \<Rightarrow> path \<Rightarrow> protection_registry \<Rightarrow>
   protection_registry \<times> (sbh_error + string option)" where
  "daemon_protection_reason env w catalog p r =
     (case discover_ancestor_markers env w p r of
        (r1, Inl e) \<Rightarrow> (r1, Inl e)
      | (r1, Inr _) \<Rightarrow>
        (case protection_reason env w r1 p of
           Some reason \<Rightarrow> (r1, Inr (Some reason))
         | None \<Rightarrow> (case find_sacred_overlaps env w p catalog of
             Inl e \<Rightarrow> (r1, Inl e)
           | Inr [] \<Rightarrow> (r1, Inr None)
           | Inr (ov # _) \<Rightarrow> (r1, Inr (Some (''sacred path overlap: '' @ sacred_summary ov))))))"

text \<open>The answer, the registry with the markers found on the way, and the event of a failed check.\<close>

definition should_skip_protected_daemon_candidate ::
  "protect_env \<Rightarrow> tree \<Rightarrow> sacred_path list \<Rightarrow> string \<Rightarrow> path \<Rightarrow> protection_registry \<Rightarrow>
   bool \<times> protection_registry \<times> deletion_event option" where
  "should_skip_protected_daemon_candidate env w catalog ctx p r =
     (case daemon_protection_reason env w catalog p r of
        (r1, Inr (Some _)) \<Rightarrow> (True, r1, None)
      | (r1, Inr None) \<Rightarrow> (False, r1, None)
      | (r1, Inl e) \<Rightarrow> (True, r1, Some (EvError (error_code e)
          (ctx @ '': protection check failed for '' @ p @ ''; skipped candidate: '' @ show_error e))))"

subsection \<open>The state of the thread\<close>

record shared_executor_config =
  sx_dry_run :: bool
  sx_max_batch_size :: nat
  sx_min_score :: f64
  repeat_base_cooldown_secs :: u64
  repeat_max_cooldown_secs :: u64

record deletion_batch =
  candidates :: "candidacy_score list"
  pressure_level :: pressure_level
  urgency :: f64

record executor_state =
  tracker :: repeat_tracker
  batch_count :: u64
  last_circuit_breaker_trip :: "instant option"
  breaker_cooldown :: duration
  last_not_writable_warning :: "instant option"

definition max_circuit_breaker_cooldown :: duration where
  "max_circuit_breaker_cooldown = secs 300"

definition executor_new :: "shared_executor_config \<Rightarrow> executor_state" where
  "executor_new sx = \<lparr>tracker = tracker_new (secs (unat (repeat_base_cooldown_secs sx))) (secs (unat (repeat_max_cooldown_secs sx))),
     batch_count = 0, last_circuit_breaker_trip = None,
     breaker_cooldown = deletion_config.circuit_breaker_cooldown deletion_config_default,
     last_not_writable_warning = None\<rparr>"

text \<open>What surrounds a batch: the clock readings in the order the code takes them, the shutdown flag
  before the plan and before each candidate, the shared configuration as read at the batch, the
  scanner configuration and the environments of the other components.\<close>

record batch_env =
  t_check :: instant
  t_policy :: "instant \<times> (nat \<Rightarrow> instant) \<times> (nat \<Rightarrow> string)"
  t_dampen :: instant
  t_warn :: instant
  t_record :: instant
  t_trip :: instant
  t_prune :: instant
  shutting_down :: bool
  shutdown_at :: "nat \<Rightarrow> bool"
  shared :: shared_executor_config
  protected_paths :: "string list"
  engine_v2 :: bool
  guard_snapshot :: "guard_diagnostics option"
  penv :: protect_env
  denv :: deletion_env

datatype batch_end = CoolingDown | NothingApproved | AllDampened | ShutDown | PlanEmpty | RegistryFailed
  | Executed exec_state

record batch_result =
  br_end :: batch_end
  br_state :: executor_state
  br_policy :: policy_engine
  br_tree :: tree
  br_events :: "deletion_event list"
  br_feedback :: "(fs_identity \<times> path) list"
  br_completed :: "(u64 \<times> u64 \<times> u64) option"

definition policy_step :: "batch_env \<Rightarrow> deletion_batch \<Rightarrow> policy_engine \<Rightarrow> policy_engine \<times> policy_decision" where
  "policy_step e b p = (case t_policy e of (now, clk, stamp) \<Rightarrow> evaluate now clk stamp (candidates b)
     (case guard_snapshot e of Some d \<Rightarrow> (if diag_status d = Unknown then None else Some d) | None \<Rightarrow> None) p)"

definition batch_config :: "batch_env \<Rightarrow> deletion_config" where
  "batch_config e = deletion_config_default\<lparr>max_batch_size := sx_max_batch_size (shared e), dry_run := sx_dry_run (shared e),
     del_min_score := sx_min_score (shared e), check_open_files := True, require_identity := engine_v2 e\<rparr>"

definition preflight_protected :: "batch_env \<Rightarrow> nat \<Rightarrow> protection_registry \<Rightarrow> tree \<Rightarrow> path \<Rightarrow> bool \<times> protection_registry" where
  "preflight_protected e i r w p = (if shutdown_at e i then (True, r)
     else (case should_skip_protected_daemon_candidate (penv e) w
       (sacred_paths_from_protected_patterns (protected_paths e)) ''executor preflight'' p r of (b, r1, _) \<Rightarrow> (b, r1)))"

definition skip_protected :: "batch_env \<Rightarrow> protection_registry \<Rightarrow> protection_registry skip_test" where
  "skip_protected e r = Some (r, preflight_protected e)"

definition not_writable_warning :: "deletion_report \<Rightarrow> deletion_event" where
  "not_writable_warning rep = EvError ''SBH-CONFIG-NOTWRITABLE''
     (show_nat (length (not_writable_paths rep)) @ '' skip(s) due to ReadWritePaths sandbox; first='' @
      (case not_writable_paths rep of [] \<Rightarrow> [] | p # _ \<Rightarrow> p))"

text \<open>After the batch: warning, dampening history, circuit breaker, pruning.\<close>

definition warning_due :: "batch_env \<Rightarrow> deletion_report \<Rightarrow> executor_state \<Rightarrow> bool" where
  "warning_due e rep s = (not_writable_paths rep \<noteq> [] \<and>
     (case last_not_writable_warning s of None \<Rightarrow> True | Some t \<Rightarrow> secs 3600 \<le> elapsed (t_warn e) t))"

definition breaker_step :: "batch_env \<Rightarrow> deletion_report \<Rightarrow> executor_state \<Rightarrow> executor_state" where
  "breaker_step e rep s = (if circuit_breaker_tripped rep
     then s\<lparr>last_circuit_breaker_trip := Some (t_trip e),
            breaker_cooldown := min (breaker_cooldown s * 2) max_circuit_breaker_cooldown\<rparr>
     else if 0 < items_deleted rep
     then s\<lparr>breaker_cooldown := deletion_config.circuit_breaker_cooldown deletion_config_default\<rparr> else s)"

definition after_batch :: "batch_env \<Rightarrow> deletion_report \<Rightarrow> executor_state \<Rightarrow> executor_state" where
  "after_batch e rep s =
     (let s1 = (if warning_due e rep s then s\<lparr>last_not_writable_warning := Some (t_warn e)\<rparr> else s);
          s2 = s1\<lparr>tracker := record_deletions (t_record e) (deleted_paths rep) (tracker s1)\<rparr>;
          s3 = breaker_step e rep s2
      in if unat (batch_count s3) mod 10 = 0 then s3\<lparr>tracker := prune_expired (t_prune e) (tracker s3)\<rparr> else s3)"

definition after_events :: "batch_env \<Rightarrow> deletion_report \<Rightarrow> executor_state \<Rightarrow> deletion_event list" where
  "after_events e rep s =
     (if warning_due e rep s then [not_writable_warning rep] else []) @
     (if circuit_breaker_tripped rep then [EvError ''SBH-2003'' (''executor circuit breaker tripped, cooldown '' @
        show_nat (as_secs (breaker_cooldown (breaker_step e rep s))) @ ''s (exponential backoff)'')] else [])"

definition cooling_down :: "batch_env \<Rightarrow> executor_state \<Rightarrow> bool" where
  "cooling_down e s = (case last_circuit_breaker_trip s of None \<Rightarrow> False
     | Some t \<Rightarrow> elapsed (t_check e) t < breaker_cooldown s)"

definition begin_batch :: "batch_env \<Rightarrow> executor_state \<Rightarrow> executor_state" where
  "begin_batch e s = s\<lparr>last_circuit_breaker_trip := None,
     tracker := update_cooldowns (secs (unat (repeat_base_cooldown_secs (shared e))))
       (secs (unat (repeat_max_cooldown_secs (shared e)))) (tracker s)\<rparr>"

text \<open>The identities of the candidates to back off, offered to the index of the second scanner.\<close>

definition index_feedback :: "batch_env \<Rightarrow> deletion_report \<Rightarrow> (fs_identity \<times> path) list" where
  "index_feedback e rep = (if engine_v2 e
     then List.map_filter (\<lambda>c. map_option (\<lambda>ident. (ident, cs_path c)) (cs_identity c)) (backoff_candidates rep) else [])"

definition stopped :: "batch_end \<Rightarrow> executor_state \<Rightarrow> policy_engine \<Rightarrow> tree \<Rightarrow> deletion_event list \<Rightarrow> batch_result" where
  "stopped why s p w evs = \<lparr>br_end = why, br_state = s, br_policy = p, br_tree = w, br_events = evs,
     br_feedback = [], br_completed = None\<rparr>"

definition run_plan ::
  "batch_env \<Rightarrow> deletion_plan \<Rightarrow> protection_registry \<Rightarrow> executor_state \<Rightarrow> policy_engine \<Rightarrow> tree \<Rightarrow> batch_result" where
  "run_plan e pl r s p w =
     (let x = execute (batch_config e) (denv e) pl (skip_protected e r) w; rep = ex_report x
      in \<lparr>br_end = Executed x, br_state = after_batch e rep s, br_policy = p, br_tree = ex_tree x,
          br_events = ex_events x @ after_events e rep s, br_feedback = index_feedback e rep,
          br_completed = Some (of_nat (items_deleted rep), del_bytes_freed rep, of_nat (items_failed rep))\<rparr>)"

definition executor_step ::
  "batch_env \<Rightarrow> deletion_batch \<Rightarrow> tree \<Rightarrow> policy_engine \<Rightarrow> executor_state \<Rightarrow> batch_result" where
  "executor_step e b w p s0 =
     (let s = s0\<lparr>batch_count := batch_count s0 + 1\<rparr> in
      if cooling_down e s then stopped CoolingDown s p w []
      else let s1 = begin_batch e s; (p1, d) = policy_step e b p; approved = approved_for_deletion d in
        if approved = [] then stopped NothingApproved s1 p1 w []
        else let (due, dampened) = filter_candidates (t_dampen e) (tracker s1) approved (pressure_level b) (urgency b) in
          if due = [] then stopped AllDampened s1 p1 w []
          else if shutting_down e then stopped ShutDown s1 p1 w []
          else let pl = plan (batch_config e) due in
            if plan_candidates pl = [] then stopped PlanEmpty s1 p1 w []
            else (case registry_new (penv e) w (Some (protected_paths e)) of
                Inl err \<Rightarrow> stopped RegistryFailed s1 p1 w [EvError ''SBH-1001''
                  (''executor: protection registry init failed; skipped deletion batch: '' @ show_error err)]
              | Inr r \<Rightarrow> run_plan e pl r s1 p1 w))"

end
