(* ===== verification/Executor_Run.thy ===== *)
theory Executor_Run
  imports Executor
begin

section \<open>What the executor thread guarantees\<close>

text \<open>
  A batch that removes something is traced back through the skip test, the plan, the dampening and
  the policy engine to the candidates it was given; what the protection check of the daemon rules
  out is then carried to the file system: protected paths, and directories with a marker, survive.
  The circuit breaker and the dampening of repeated deletions are stated over runs of batches.
\<close>

subsection \<open>A passed protection check\<close>

text \<open>A system on which every directory can be listed and every entry examined.\<close>

definition healthy :: "protect_env \<Rightarrow> bool" where
  "healthy env = ((\<forall>k. metadata_error env k = None \<and> listing_error env k = None \<and> \<not> entry_lost env k) \<and>
     (\<forall>w. canonical env w [RootDir] = Some [RootDir]))"

lemma protection_check_passed:
  assumes "daemon_protection_reason env w catalog p r = (r1, Inr None)"
  shows "\<exists>n. discover_ancestor_markers env w p r = (r1, Inr n) \<and> protection_reason env w r1 p = None \<and>
    find_sacred_overlaps env w p catalog = Inr []"
  using assms by (auto simp: daemon_protection_reason_def split: prod.splits sum.splits option.splits list.splits)

lemma marker_above:
  assumes "wf_tree w" "healthy env" "(components p, n) \<in> set w" "id_kind n \<noteq> KSymlink"
    and "daemon_protection_reason env w catalog p r = (r1, Inr None)"
    and "(marker_key a, m) \<in> set w" "prefix a (components p)"
  shows False
proof -
  let ?k = "components p"
  have c: "canonical env w [RootDir] = Some [RootDir]" using assms(2) by (simp add: healthy_def)
  have k: "resolve_absolute_path env w ?k = ?k" using resolve_entry [OF assms(1) c assms(3,4)] .
  obtain i where d: "check_ancestors env w (key_ancestors ?k) 0 r = (r1, Inr i)" "protection_reason env w r1 p = None"
    using protection_check_passed [OF assms(5)] k by (auto simp: discover_ancestor_markers_def)
  obtain ns where ns: "?k = RootDir # map Normal ns" using assms(1,3) by (auto simp: wf_tree_def)
  have "a \<noteq> []" using assms(1,6) by (force simp: wf_tree_def marker_key_def)
  then have a: "a \<in> set (key_ancestors ?k)" using key_ancestors_absolute assms(7) ns by simp
  have "\<exists>n'. (a, n') \<in> set w \<and> id_kind n' \<noteq> KSymlink"
  proof (cases "a = ?k")
    case True
    then show ?thesis using assms(3,4) by auto
  next
    case False
    then obtain x where "?k = a @ x" "x \<noteq> []" using assms(7) by (auto simp: prefix_def)
    then show ?thesis using directory_above [OF assms(1), of a x n] assms(3) \<open>a \<noteq> []\<close> by fastforce
  qed
  then have ra: "resolve_absolute_path env w a = a" using resolve_entry [OF assms(1) c] by blast
  have "lstat env w (marker_key a) = Inr m"
    using assms(2) wf_tree_distinct [OF assms(1,6)] by (simp add: lstat_def healthy_def)
  then have "a \<in> marker_paths r1" using check_ancestors_found [OF d(1)] a ra by fastforce
  then have "find_marker_ancestor env w r1 p \<noteq> None" using a by (auto simp: find_marker_ancestor_def k find_None_iff)
  then show False using d(2) by (auto simp: protection_reason_def)
qed

lemma marker_below:
  assumes "wf_tree w" "healthy env" "(components p, n) \<in> set w" "id_kind n \<noteq> KSymlink"
    and "daemon_protection_reason env w catalog p r = (r1, Inr None)"
    and "(marker_key a, m) \<in> set w" "prefix (components p) a"
  shows "length (components p) + 3 \<le> length a"
proof (rule ccontr)
  assume close: "\<not> length (components p) + 3 \<le> length a"
  let ?k = "components p"
  have c: "canonical env w [RootDir] = Some [RootDir]" using assms(2) by (simp add: healthy_def)
  have k: "resolve_absolute_path env w ?k = ?k" using resolve_entry [OF assms(1) c assms(3,4)] .
  have "find_sacred_overlaps_with_config env w p catalog stowaway_config_default = Inr []"
    using protection_check_passed [OF assms(5)] by (auto simp: find_sacred_overlaps_def)
  then have s: "scan_stowaways_bounded env w ?k catalog stowaway_config_default = Inr ([], False)"
    using no_overlaps [OF _ k] by blast
  then obtain rules where rules: "build_stowaway_rules env catalog = Inr rules"
    by (cases "build_stowaway_rules env catalog") (simp_all add: scan_stowaways_bounded_def)
  have "marker_rule \<in> set rules" using rules by (auto simp: build_stowaway_rules_def split: sum.splits)
  moreover have "rule_matches (sr_matcher marker_rule) marker_filename rel b" for rel b by (simp add: marker_rule_def)
  ultimately have "matching_rule rules ?k (marker_key a) b \<noteq> None" for b
    by (auto simp: matching_rule_def Let_def marker_key_def comps_file_name_def find_None_iff)
  then have "sacred_inside w rules ?k (max_depth stowaway_config_default) (marker_key a)"
    using assms(7) close wf_tree_distinct [OF assms(1,6)]
    by (auto simp: sacred_inside_def marker_key_def stowaway_config_default_def)
  moreover have "?k \<noteq> []" using assms(1,3) by (auto simp: wf_tree_def)
  moreover have "reachable_entry env ?k (marker_key a)" "metadata_error env ?k = None"
    using assms(2) by (simp_all add: reachable_entry_def healthy_def)
  ultimately show False using scan_exact [OF assms(1) rules s k]
    by (auto simp: stowaway_config_default_def split: if_splits)
qed

lemma sacred_path_clear:
  assumes "wf_tree w" "healthy env" "(components p, n) \<in> set w" "id_kind n \<noteq> KSymlink"
    and "daemon_protection_reason env w catalog p r = (r1, Inr None)"
    and "entry \<in> set catalog" "sp_kind entry = SacredExact"
    and "resolve_absolute_path env w (components (expand_home_pattern env (sp_pattern entry))) = s"
  shows "\<not> prefix s (components p) \<and> \<not> prefix (components p) s"
proof -
  have k: "resolve_absolute_path env w (components p) = components p"
    using resolve_entry [OF assms(1) _ assms(3,4)] assms(2) by (simp add: healthy_def)
  have "find_sacred_overlaps_with_config env w p catalog stowaway_config_default = Inr []"
    using protection_check_passed [OF assms(5)] by (auto simp: find_sacred_overlaps_def)
  then have "direct_sacred_overlaps env w (components p) entry = Inr []" using no_overlaps [OF _ k] assms(6) by blast
  then show ?thesis using exact_clear assms(7,8) by blast
qed

subsection \<open>One batch\<close>

text \<open>A batch that was executed went through every gate.\<close>

lemma executed_gates:
  assumes "br_end (executor_step e b w p s) = Executed x"
  shows "\<exists>p1 d due r. policy_step e b p = (p1, d) \<and> \<not> cooling_down e s \<and> \<not> shutting_down e \<and>
    due = fst (filter_candidates (t_dampen e) (tracker (begin_batch e s)) (approved_for_deletion d) (pressure_level b) (urgency b)) \<and>
    registry_new (penv e) w (Some (protected_paths e)) = Inr r \<and>
    x = execute (batch_config e) (denv e) (plan (batch_config e) due) (skip_protected e r) w \<and>
    br_tree (executor_step e b w p s) = ex_tree x \<and> br_policy (executor_step e b w p s) = p1 \<and>
    br_state (executor_step e b w p s) = after_batch e (ex_report x) (begin_batch e (s\<lparr>batch_count := batch_count s + 1\<rparr>))"
proof -
  let ?s = "s\<lparr>batch_count := batch_count s + 1\<rparr>"
  obtain p1 d where p: "policy_step e b p = (p1, d)" by fastforce
  obtain due dampened where f: "filter_candidates (t_dampen e) (tracker (begin_batch e ?s)) (approved_for_deletion d)
      (pressure_level b) (urgency b) = (due, dampened)" by fastforce
  have t: "tracker (begin_batch e ?s) = tracker (begin_batch e s)" by (simp add: begin_batch_def)
  have cool: "\<not> cooling_down e ?s" using assms by (auto simp: executor_step_def stopped_def Let_def)
  then have "\<not> cooling_down e s" by (simp add: cooling_down_def split: option.splits)
  moreover have run: "executor_step e b w p s = (if approved_for_deletion d = [] then stopped NothingApproved (begin_batch e ?s) p1 w []
      else if due = [] then stopped AllDampened (begin_batch e ?s) p1 w []
      else if shutting_down e then stopped ShutDown (begin_batch e ?s) p1 w []
      else if plan_candidates (plan (batch_config e) due) = [] then stopped PlanEmpty (begin_batch e ?s) p1 w []
      else (case registry_new (penv e) w (Some (protected_paths e)) of
          Inl err \<Rightarrow> stopped RegistryFailed (begin_batch e ?s) p1 w [EvError ''SBH-1001''
            (''executor: protection registry init failed; skipped deletion batch: '' @ show_error err)]
        | Inr r \<Rightarrow> run_plan e (plan (batch_config e) due) r (begin_batch e ?s) p1 w))"
    using cool p f by (simp add: executor_step_def Let_def)
  moreover obtain r where r: "registry_new (penv e) w (Some (protected_paths e)) = Inr r"
    using assms unfolding run by (auto simp: stopped_def split: if_splits sum.splits)
  ultimately have "\<not> shutting_down e" "executor_step e b w p s = run_plan e (plan (batch_config e) due) r (begin_batch e ?s) p1 w"
    using assms unfolding run by (auto simp: stopped_def split: if_splits)
  then show ?thesis using assms p f r t \<open>\<not> cooling_down e s\<close>
    by (intro exI [of _ p1] exI [of _ d] exI [of _ due] exI [of _ r]) (simp add: run_plan_def Let_def)
qed

lemma batch_candidate:
  assumes "c \<in> set (batch cfg (plan cfg cs))"
  shows "c \<in> set cs \<and> out_action (decision c) = Delete \<and> \<not> vetoed c \<and> del_min_score cfg \<le> total_score c"
proof -
  have "c \<in> set (sort_by deletion_before (filter (\<lambda>c. out_action (decision c) = Delete \<and> \<not> vetoed c \<and>
      del_min_score cfg \<le> total_score c) cs))"
    using assms by (auto simp: batch_def plan_def Let_def dest: in_set_takeD)
  then show ?thesis by simp
qed

lemma filter_candidates_sub: "c \<in> set (fst (filter_candidates now t cs level u)) \<Longrightarrow>
    c \<in> set cs \<and> (bypasses_dampening level u \<or> cooldown_for now t (cs_path c) = None)"
  by (auto simp: filter_candidates_def split: if_splits)

text \<open>A candidate that was removed had passed the protection check.\<close>

lemma trace_not_protected:
  assumes "(j, c, u, out) \<in> set (batch_trace cfg env pl (skip_protected e r) w)" "out \<noteq> Sufficed"
  shows "\<exists>r0 r1. daemon_protection_reason (penv e) u (sacred_paths_from_protected_patterns (protected_paths e)) (cs_path c) r0 = (r1, Inr None)"
proof -
  let ?P = "\<lambda>sk. \<exists>r. sk = Some (r, preflight_protected e)"
  obtain op where "(j, c, u, out) \<in> set (exec_trace cfg env op (skip_protected e r) 0 0 (batch cfg pl) w)"
    using assms(1) by (auto simp: batch_trace_def split: option.splits)
  then have "\<exists>(sk' :: protection_registry skip_test) v0 v1. ?P sk' \<and> u = outside env j BeforeCheck v0 \<and> step_outcome cfg env op sk' j c v0 = (v1, out)"
    by (intro trace_step_invariant [of ?P]) (auto simp: ask_def skip_protected_def split: prod.splits)
  then obtain sk' :: "protection_registry skip_test" and v0 v1 where x: "?P sk'" "u = outside env j BeforeCheck v0" "step_outcome cfg env op sk' j c v0 = (v1, out)"
    by blast
  then obtain r0 where r0: "sk' = Some (r0, preflight_protected e)" by blast
  have "\<not> fst (ask sk' j u (cs_path c))" using x(2,3) assms(2) by (auto simp: step_outcome_def Let_def split: if_splits)
  then have "\<not> fst (preflight_protected e j r0 u (cs_path c))" by (simp add: r0 ask_def split: prod.splits)
  then show ?thesis
    by (auto simp: preflight_protected_def should_skip_protected_daemon_candidate_def split: if_splits prod.splits sum.splits option.splits)
qed

lemma not_executed_tree:
  "(\<exists>x. br_end (executor_step e b w p s) = Executed x \<and> br_tree (executor_step e b w p s) = ex_tree x) \<or>
    br_tree (executor_step e b w p s) = w"
proof (cases "br_end (executor_step e b w p s)")
  case (Executed x)
  then show ?thesis using executed_gates by blast
qed (auto simp: executor_step_def stopped_def run_plan_def Let_def split: prod.splits if_splits sum.splits)

lemma executor_removed:
  assumes "quiet (denv e)" "y \<in> set w" "y \<notin> set (br_tree (executor_step e b w p s))"
  shows "\<exists>p1 d due r op j c u out r0 r1. policy_step e b p = (p1, d) \<and> br_policy (executor_step e b w p s) = p1 \<and>
    \<not> cooling_down e s \<and> c \<in> set (approved_for_deletion d) \<and>
    (bypasses_dampening (pressure_level b) (urgency b) \<or> cooldown_for (t_dampen e) (tracker (begin_batch e s)) (cs_path c) = None) \<and>
    (j, c, u, out) \<in> set (exec_trace (batch_config e) (denv e) op (skip_protected e r) 0 0 (batch (batch_config e) (plan (batch_config e) due)) w) \<and>
    ex_tree (exec_loop (batch_config e) (denv e) op (skip_protected e r) 0 (batch (batch_config e) (plan (batch_config e) due))
      (start_state (batch_config e) w)) = br_tree (executor_step e b w p s) \<and>
    y \<in> set u \<and> prefix (candidate_key c) (fst y) \<and> preflight_check (batch_config e) (denv e) j op u c = None \<and>
    \<not> sx_dry_run (shared e) \<and> out_action (decision c) = Delete \<and> \<not> vetoed c \<and> sx_min_score (shared e) \<le> total_score c \<and>
    daemon_protection_reason (penv e) u (sacred_paths_from_protected_patterns (protected_paths e)) (cs_path c) r0 = (r1, Inr None)"
proof -
  obtain x where x: "br_end (executor_step e b w p s) = Executed x" "br_tree (executor_step e b w p s) = ex_tree x"
    using not_executed_tree [of e b w p s] assms(2,3) by auto
  obtain p1 d due r where g: "policy_step e b p = (p1, d)" "\<not> cooling_down e s"
      "due = fst (filter_candidates (t_dampen e) (tracker (begin_batch e s)) (approved_for_deletion d) (pressure_level b) (urgency b))"
      "x = execute (batch_config e) (denv e) (plan (batch_config e) due) (skip_protected e r) w"
      "br_policy (executor_step e b w p s) = p1"
    using executed_gates [OF x(1)] by (elim exE conjE)
  have gone: "y \<notin> set (ex_tree (execute (batch_config e) (denv e) (plan (batch_config e) due) (skip_protected e r) w))"
    using assms(3) x(2) g(4) by simp
  obtain op j c u out where t: "batch_open (batch_config e) (denv e) (plan (batch_config e) due) = Some op"
      "(j, c, u, out) \<in> set (batch_trace (batch_config e) (denv e) (plan (batch_config e) due) (skip_protected e r) w)"
      "c \<in> set (batch (batch_config e) (plan (batch_config e) due))" "y \<in> set u" "prefix (candidate_key c) (fst y)"
      "preflight_check (batch_config e) (denv e) j op u c = None" "\<not> dry_run (batch_config e)" "out = Removed \<or> is_failed out"
    using execute_removed [OF assms(1,2) gone] by (elim exE conjE)
  have "out \<noteq> Sufficed" using t(8) by (auto simp: is_failed_def)
  then obtain r0 r1 where pr: "daemon_protection_reason (penv e) u (sacred_paths_from_protected_patterns (protected_paths e)) (cs_path c) r0 = (r1, Inr None)"
    using trace_not_protected [OF t(2)] by blast
  have c: "c \<in> set due" "out_action (decision c) = Delete" "\<not> vetoed c" "sx_min_score (shared e) \<le> total_score c"
    using batch_candidate [OF t(3)] by (simp_all add: batch_config_def)
  have "\<not> sx_dry_run (shared e)" using t(7) by (simp add: batch_config_def)
  moreover have "c \<in> set (approved_for_deletion d)" "bypasses_dampening (pressure_level b) (urgency b) \<or>
      cooldown_for (t_dampen e) (tracker (begin_batch e s)) (cs_path c) = None"
    using filter_candidates_sub [OF c(1) [unfolded g(3)]] by simp_all
  moreover have "(j, c, u, out) \<in> set (exec_trace (batch_config e) (denv e) op (skip_protected e r) 0 0 (batch (batch_config e) (plan (batch_config e) due)) w)"
    using t(1,2) by (simp add: batch_trace_def)
  moreover have "ex_tree (exec_loop (batch_config e) (denv e) op (skip_protected e r) 0 (batch (batch_config e) (plan (batch_config e) due))
      (start_state (batch_config e) w)) = br_tree (executor_step e b w p s)"
    using x(2) g(4) t(1) by (simp add: execute_loop)
  ultimately show ?thesis using g(1,2,5) t(4-6) c(2-4) pr
    by (intro exI conjI) assumption+
qed

text \<open>While nobody interferes, the trees of a batch only shrink.\<close>

lemma loop_shrinks:
  assumes "quiet env"
  shows "set (ex_tree (exec_loop cfg env op sk i cs st)) \<subseteq> set (ex_tree st)"
proof (induction cs arbitrary: i st sk)
  case (Cons c cs)
  obtain v out where so: "step_outcome cfg env op sk i c (ex_tree st) = (v, out)" by fastforce
  have "ex_tree (exec_candidate cfg env op sk i c st) = v" by (simp add: exec_candidate_outcome so)
  moreover have "set v \<subseteq> set (ex_tree st)" using prunes_set(1) [OF step_prunes(1) [OF assms so]] .
  ultimately show ?case
    using Cons.IH [of "snd (ask sk i (outside env i BeforeCheck (ex_tree st)) (cs_path c))" "Suc i" "exec_candidate cfg env op sk i c st"]
    by (auto simp: trip_def)
qed simp

lemma trace_between:
  assumes "quiet env"
  shows "(j, c, u, out) \<in> set (exec_trace cfg env op sk i (ex_failures st) cs (ex_tree st)) \<Longrightarrow>
    set u \<subseteq> set (ex_tree st) \<and> set (ex_tree (exec_loop cfg env op sk i cs st)) \<subseteq> set u"
proof (induction cs arbitrary: i st sk)
  case (Cons d cs)
  obtain v o' where so: "step_outcome cfg env op sk i d (ex_tree st) = (v, o')" by fastforce
  let ?a = "exec_candidate cfg env op sk i d st"
  let ?sk = "snd (ask sk i (outside env i BeforeCheck (ex_tree st)) (cs_path d))"
  have a: "ex_tree ?a = v" "ex_failures ?a = next_failures o' (ex_failures st)" by (simp_all add: exec_candidate_outcome so)
  have q: "outside env i BeforeCheck (ex_tree st) = ex_tree st" using assms by (simp add: quiet_def)
  have v: "set v \<subseteq> set (ex_tree st)" using prunes_set(1) [OF step_prunes(1) [OF assms so]] .
  have go: "\<not> circuit_breaker_threshold cfg \<le> ex_failures st" using Cons.prems by (auto split: if_splits)
  then consider "u = ex_tree st" | "(j, c, u, out) \<in> set (exec_trace cfg env op ?sk (Suc i) (ex_failures ?a) cs (ex_tree ?a))"
    using Cons.prems by (auto simp: so q a)
  then show ?case
  proof cases
    case 1
    then show ?thesis using go v loop_shrinks [OF assms, of cfg op ?sk "Suc i" cs ?a] a by simp
  next
    case 2
    then show ?thesis using Cons.IH [OF 2] go v a by auto
  qed
qed simp

lemma removal_context:
  assumes "quiet (denv e)" "removals_closed (denv e)" "wf_tree w" "y \<in> set w" "y \<notin> set (br_tree (executor_step e b w p s))"
  obtains c u n r0 r1 where "c \<in> set (candidates b)" "wf_tree u" "set u \<subseteq> set w" "set (br_tree (executor_step e b w p s)) \<subseteq> set u"
    "y \<in> set u" "prefix (candidate_key c) (fst y)" "(candidate_key c, n) \<in> set u" "id_kind n \<noteq> KSymlink"
    "daemon_protection_reason (penv e) u (sacred_paths_from_protected_patterns (protected_paths e)) (cs_path c) r0 = (r1, Inr None)"
proof -
  obtain p1 d due r op j c u out r0 r1 where x: "policy_step e b p = (p1, d)" "c \<in> set (approved_for_deletion d)"
      "(j, c, u, out) \<in> set (exec_trace (batch_config e) (denv e) op (skip_protected e r) 0 0 (batch (batch_config e) (plan (batch_config e) due)) w)"
      "ex_tree (exec_loop (batch_config e) (denv e) op (skip_protected e r) 0 (batch (batch_config e) (plan (batch_config e) due))
        (start_state (batch_config e) w)) = br_tree (executor_step e b w p s)"
      "y \<in> set u" "prefix (candidate_key c) (fst y)" "preflight_check (batch_config e) (denv e) j op u c = None"
      "daemon_protection_reason (penv e) u (sacred_paths_from_protected_patterns (protected_paths e)) (cs_path c) r0 = (r1, Inr None)"
    using executor_removed [OF assms(1,4,5)] by (elim exE conjE)
  have "c \<in> set (candidates b)" using x(1,2) by (auto simp: policy_step_def split: prod.splits dest: evaluate_effects)
  moreover have "wf_tree u" using trace_wf [OF assms(1-3) x(3)] .
  moreover have "set u \<subseteq> set w \<and> set (br_tree (executor_step e b w p s)) \<subseteq> set u"
    using trace_between [OF assms(1), of j c u out "batch_config e" op "skip_protected e r" 0 "start_state (batch_config e) w"
      "batch (batch_config e) (plan (batch_config e) due)"] x(3,4) by simp
  moreover obtain meta where "symlink_metadata u (candidate_key c) = Some meta" "id_kind meta \<noteq> KSymlink"
    using preflight_passed [OF x(7)] by metis
  moreover have "(candidate_key c, meta) \<in> set u" if "symlink_metadata u (candidate_key c) = Some meta" for meta
    using that by (simp add: symlink_metadata_def map_of_SomeD)
  ultimately show ?thesis using that x(5,6,8) by blast
qed

subsection \<open>What a batch can remove\<close>

lemma score_inner_path: "cs_path (score_inner fexp fln eng i v ovs) = in_path i"
  "cs_classification (score_inner fexp fln eng i v ovs) = in_classification i"
  by (simp_all add: score_inner_def vetoed_score_def Let_def split: option.split)


lemma fresh_patterns_mem: "pat \<in> set ps \<Longrightarrow> trim pat \<noteq> [] \<Longrightarrow> trim pat \<notin> set seen \<Longrightarrow> trim pat \<in> set (fresh_patterns seen ps)"
  by (induction seen ps rule: fresh_patterns.induct) (auto simp: Let_def)

lemma sacred_of_pattern:
  assumes "pat \<in> set ps" "trim pat \<noteq> []" "\<not> contains_glob_metachar (trim pat)"
  shows "\<exists>entry \<in> set (sacred_paths_from_protected_patterns ps). sp_pattern entry = trim pat \<and> sp_kind entry = SacredExact"
  using fresh_patterns_mem [OF assms(1,2), of "[]"] assms(3) by (auto simp: sacred_paths_from_protected_patterns_def)

text \<open>C3: nothing at or below a literal path of \<open>scanner.protected_paths\<close> ever disappears
  in a batch of the daemon, whatever was scored and approved; the path is taken after trimming and
  home expansion and holds no symbolic link.\<close>

theorem protected_paths_survive:
  assumes "quiet (denv e)" and "removals_closed (denv e)" and "wf_tree w" and "healthy (penv e)"
    and "pat \<in> set (protected_paths e)" and "trim pat \<noteq> []" and "\<not> contains_glob_metachar (trim pat)"
    and "components (expand_home_pattern (penv e) (trim pat)) = RootDir # map Normal qs"
    and "plain (penv e) w (RootDir # map Normal qs)"
    and "y \<in> set w" and "prefix (RootDir # map Normal qs) (fst y)"
  shows "y \<in> set (br_tree (executor_step e b w p s))"
proof (rule ccontr)
  assume gone: "y \<notin> set (br_tree (executor_step e b w p s))"
  let ?q = "RootDir # map Normal qs"
  obtain c u n r0 r1 where x: "wf_tree u" "set u \<subseteq> set w" "prefix (candidate_key c) (fst y)" "(candidate_key c, n) \<in> set u"
      "id_kind n \<noteq> KSymlink"
      "daemon_protection_reason (penv e) u (sacred_paths_from_protected_patterns (protected_paths e)) (cs_path c) r0 = (r1, Inr None)"
    using removal_context [OF assms(1-3,10) gone] by metis
  have "plain (penv e) u ?q"
    unfolding plain_def
  proof (intro conjI allI impI)
    fix a m assume a: "prefix a ?q" "symlink_metadata u a = Some m"
    then have "(a, m) \<in> set w" using x(2) by (auto simp: symlink_metadata_def dest: map_of_SomeD)
    then show "id_kind m \<noteq> KSymlink" using assms(9) a(1) wf_tree_distinct [OF assms(3)] by (auto simp: plain_def)
  qed (use assms(4) in \<open>simp add: healthy_def\<close>)
  then have r: "resolve_absolute_path (penv e) u (components (expand_home_pattern (penv e) (trim pat))) = ?q"
    unfolding assms(8) by (rule resolve_plain)
  obtain entry where en: "entry \<in> set (sacred_paths_from_protected_patterns (protected_paths e))"
      "sp_pattern entry = trim pat" "sp_kind entry = SacredExact"
    using sacred_of_pattern [OF assms(5-7)] by blast
  have "\<not> prefix ?q (candidate_key c) \<and> \<not> prefix (candidate_key c) ?q"
    using sacred_path_clear [OF x(1) assms(4) x(4,5) [unfolded candidate_key_def] x(6) en(1,3)] r en(2) by (simp add: candidate_key_def)
  then show False using prefix_same_cases [OF assms(11) x(3)] by blast
qed

text \<open>C4: a batch of the daemon takes something out of a directory with a marker file
  only with a candidate at least three levels above that directory, beyond the depth of the search
  for markers; a candidate at the directory, inside it or closer above is skipped.\<close>

theorem marked_directories_survive:
  assumes "quiet (denv e)" and "removals_closed (denv e)" and "wf_tree w" and "healthy (penv e)"
    and "(marker_key a, m) \<in> set w" and "y \<in> set w" and "prefix a (fst y)"
    and "y \<notin> set (br_tree (executor_step e b w p s))"
  shows "\<exists>c \<in> set (candidates b). prefix (candidate_key c) a \<and> length (candidate_key c) + 3 \<le> length a"
proof -
  have marked: "\<exists>c \<in> set (candidates b). prefix (candidate_key c) a \<and> length (candidate_key c) + 3 \<le> length a"
    if z: "z \<in> set w" "prefix a (fst z)" "z \<notin> set (br_tree (executor_step e b w p s))"
      and still: "\<And>u. set (br_tree (executor_step e b w p s)) \<subseteq> set u \<Longrightarrow> z \<in> set u \<Longrightarrow> (marker_key a, m) \<in> set u" for z
  proof -
    obtain c u n r0 r1 where x: "c \<in> set (candidates b)" "wf_tree u" "set (br_tree (executor_step e b w p s)) \<subseteq> set u" "z \<in> set u"
        "prefix (candidate_key c) (fst z)" "(candidate_key c, n) \<in> set u" "id_kind n \<noteq> KSymlink"
        "daemon_protection_reason (penv e) u (sacred_paths_from_protected_patterns (protected_paths e)) (cs_path c) r0 = (r1, Inr None)"
      using removal_context [OF assms(1-3) z(1,3)] by metis
    have mu: "(marker_key a, m) \<in> set u" using still [OF x(3,4)] .
    note ctx = x(2) assms(4) x(6,7) [unfolded candidate_key_def] x(8) mu
    have "\<not> prefix a (candidate_key c)" using marker_above [OF ctx] by (auto simp: candidate_key_def)
    then have "prefix (candidate_key c) a" using prefix_same_cases [OF z(2) x(5)] by blast
    then show ?thesis using marker_below [OF ctx] x(1) by (auto simp: candidate_key_def)
  qed
  show ?thesis
  proof (cases "(marker_key a, m) \<in> set (br_tree (executor_step e b w p s))")
    case True
    then show ?thesis using marked [of y] assms(6-8) by blast
  next
    case False
    then show ?thesis using marked [of "(marker_key a, m)"] assms(5) by (simp add: marker_key_def)
  qed
qed

subsection \<open>The circuit breaker over a run of batches\<close>

text \<open>The receive loop: each batch comes with its surroundings, the file system and the engine it finds.\<close>

fun executor_run ::
  "(batch_env \<times> deletion_batch \<times> tree \<times> policy_engine) list \<Rightarrow> executor_state \<Rightarrow> batch_result list" where
  "executor_run [] s = []"
| "executor_run ((e, b, w, p) # xs) s =
     (let r = executor_step e b w p s in r # executor_run xs (br_state r))"

definition check_time :: "batch_env \<times> deletion_batch \<times> tree \<times> policy_engine \<Rightarrow> instant" where
  "check_time x = t_check (fst x)"

definition trip_time :: "batch_env \<times> deletion_batch \<times> tree \<times> policy_engine \<Rightarrow> instant" where
  "trip_time x = t_trip (fst x)"

definition batch_times :: "(batch_env \<times> deletion_batch \<times> tree \<times> policy_engine) list \<Rightarrow> instant list" where
  "batch_times xs = concat (map (\<lambda>x. [check_time x, trip_time x]) xs)"

definition breaker_ok :: "executor_state \<Rightarrow> bool" where
  "breaker_ok s = (secs 30 \<le> breaker_cooldown s \<and> breaker_cooldown s \<le> secs 300)"

lemma batch_times_Cons: "batch_times (x # xs) = check_time x # trip_time x # batch_times xs"
  by (simp add: batch_times_def)

lemma executor_run_length [simp]: "length (executor_run xs s) = length xs"
  by (induction xs s rule: executor_run.induct) (simp_all add: Let_def)

lemma after_batch_breaker: "breaker_cooldown (after_batch e rep s) = breaker_cooldown (breaker_step e rep s)"
  "last_circuit_breaker_trip (after_batch e rep s) = last_circuit_breaker_trip (breaker_step e rep s)"
  by (simp_all add: after_batch_def breaker_step_def Let_def)

lemma begin_batch_breaker [simp]: "breaker_cooldown (begin_batch e s) = breaker_cooldown s"
  "last_circuit_breaker_trip (begin_batch e s) = None"
  by (simp_all add: begin_batch_def)

text \<open>How a step changes the breaker.\<close>

lemma step_breaker:
  "(cooling_down e s \<and> br_end (executor_step e b w p s) = CoolingDown \<and>
      breaker_cooldown (br_state (executor_step e b w p s)) = breaker_cooldown s \<and>
      last_circuit_breaker_trip (br_state (executor_step e b w p s)) = last_circuit_breaker_trip s) \<or>
   (\<not> cooling_down e s \<and> (\<forall>x. br_end (executor_step e b w p s) \<noteq> Executed x) \<and>
      breaker_cooldown (br_state (executor_step e b w p s)) = breaker_cooldown s \<and>
      last_circuit_breaker_trip (br_state (executor_step e b w p s)) = None) \<or>
   (\<not> cooling_down e s \<and> (\<exists>x s1. br_end (executor_step e b w p s) = Executed x \<and>
      breaker_cooldown s1 = breaker_cooldown s \<and> last_circuit_breaker_trip s1 = None \<and>
      breaker_cooldown (br_state (executor_step e b w p s)) = breaker_cooldown (breaker_step e (ex_report x) s1) \<and>
      last_circuit_breaker_trip (br_state (executor_step e b w p s)) = last_circuit_breaker_trip (breaker_step e (ex_report x) s1)))"
proof (cases "cooling_down e s")
  case True
  then have "cooling_down e (s\<lparr>batch_count := batch_count s + 1\<rparr>)" by (simp add: cooling_down_def split: option.splits)
  then show ?thesis using True by (simp add: executor_step_def stopped_def Let_def)
next
  case False
  then have cool: "\<not> cooling_down e (s\<lparr>batch_count := batch_count s + 1\<rparr>)" by (simp add: cooling_down_def split: option.splits)
  show ?thesis
  proof (cases "\<exists>x. br_end (executor_step e b w p s) = Executed x")
    case True
    then obtain x where x: "br_end (executor_step e b w p s) = Executed x" by blast
    have "br_state (executor_step e b w p s) = after_batch e (ex_report x) (begin_batch e (s\<lparr>batch_count := batch_count s + 1\<rparr>))"
      using executed_gates [OF x] by blast
    then show ?thesis using False x
      by (intro disjI2 conjI exI [of _ x] exI [of _ "begin_batch e (s\<lparr>batch_count := batch_count s + 1\<rparr>)"])
        (simp_all add: after_batch_breaker)
  next
    case no: False
    have "br_state (executor_step e b w p s) = begin_batch e (s\<lparr>batch_count := batch_count s + 1\<rparr>)"
      using no cool by (auto simp: executor_step_def stopped_def run_plan_def Let_def split: prod.splits if_splits sum.splits)
    then show ?thesis using False no by simp
  qed
qed

lemma step_breaker_ok: "breaker_ok s \<Longrightarrow> breaker_ok (br_state (executor_step e b w p s))"
  using step_breaker [of e s b w p]
  by (auto simp: breaker_ok_def breaker_step_def max_circuit_breaker_cooldown_def deletion_config_default_def secs_def split: if_splits)

lemma step_tripped:
  assumes "breaker_ok s" "br_end (executor_step e b w p s) = Executed x" "circuit_breaker_tripped (ex_report x)"
  shows "last_circuit_breaker_trip (br_state (executor_step e b w p s)) = Some (t_trip e) \<and>
    secs 60 \<le> breaker_cooldown (br_state (executor_step e b w p s))"
  using step_breaker [of e s b w p] assms
  by (auto simp: breaker_ok_def breaker_step_def max_circuit_breaker_cooldown_def secs_def)

lemma pause_after_trip:
  assumes "last_circuit_breaker_trip s = Some t" "secs 60 \<le> breaker_cooldown s" "sorted (batch_times xs)"
    and "j < length xs" "br_end (executor_run xs s ! j) = Executed x"
  shows "t + secs 60 \<le> check_time (xs ! j)"
  using assms
proof (induction xs arbitrary: s j)
  case (Cons y xs)
  obtain e b w p where y: "y = (e, b, w, p)" by (cases y)
  have late: "check_time y \<le> check_time z" if "z \<in> set (y # xs)" for z
    using that Cons.prems(3) by (auto simp: batch_times_def)
  show ?case
  proof (cases "cooling_down e s")
    case True
    then have st: "last_circuit_breaker_trip (br_state (executor_step e b w p s)) = Some t"
        "secs 60 \<le> breaker_cooldown (br_state (executor_step e b w p s))" "br_end (executor_step e b w p s) = CoolingDown"
      using step_breaker [of e s b w p] Cons.prems(1,2) by auto
    then obtain i where j: "j = Suc i" using Cons.prems(5) by (cases j) (auto simp: y Let_def)
    have "sorted (batch_times xs)" using Cons.prems(3) by (simp add: batch_times_Cons)
    then show ?thesis using Cons.IH [OF st(1,2), of i] Cons.prems(4,5) by (simp add: j y Let_def)
  next
    case False
    then have "breaker_cooldown s \<le> t_check e - t" using Cons.prems(1) by (simp add: cooling_down_def elapsed_def)
    then have "t + secs 60 \<le> check_time y" using Cons.prems(2) by (simp add: check_time_def y secs_def)
    also have "\<dots> \<le> check_time ((y # xs) ! j)" using late Cons.prems(4) nth_mem by blast
    finally show ?thesis .
  qed
qed simp

text \<open>C22: in a run of batches with readings in order, a batch that tripped the circuit breaker is
  followed by no executed batch for at least a minute, and the pause asked for always stays between
  half a minute and five minutes.\<close>

theorem breaker_pauses:
  assumes "breaker_ok s" and "sorted (batch_times xs)" and "i < j" and "j < length xs"
    and "br_end (executor_run xs s ! i) = Executed x" and "circuit_breaker_tripped (ex_report x)"
  shows "breaker_ok (br_state (executor_run xs s ! j)) \<and>
    (\<forall>y. br_end (executor_run xs s ! j) = Executed y \<longrightarrow> trip_time (xs ! i) + secs 60 \<le> check_time (xs ! j))"
proof -
  have ok: "k < length xs \<Longrightarrow> breaker_ok s \<Longrightarrow> breaker_ok (br_state (executor_run xs s ! k))" for k and xs :: "(batch_env \<times> deletion_batch \<times> tree \<times> policy_engine) list" and s
  proof (induction xs arbitrary: s k)
    case (Cons y xs)
    obtain e b w p where y: "y = (e, b, w, p)" by (cases y)
    show ?case using Cons.IH [OF _ step_breaker_ok [OF Cons.prems(2)]] Cons.prems step_breaker_ok by (cases k) (auto simp: y Let_def)
  qed simp
  have "br_end (executor_run xs s ! j) = Executed z \<Longrightarrow> trip_time (xs ! i) + secs 60 \<le> check_time (xs ! j)" for z
    using assms
  proof (induction xs arbitrary: s i j)
    case (Cons y xs)
    obtain e b w p where y: "y = (e, b, w, p)" by (cases y)
    have srt: "sorted (batch_times xs)" using Cons.prems(3) by (simp add: batch_times_Cons)
    obtain j' where j: "j = Suc j'" using Cons.prems(4) by (cases j) auto
    show ?case
    proof (cases i)
      case 0
      then have t: "last_circuit_breaker_trip (br_state (executor_step e b w p s)) = Some (t_trip e)"
          "secs 60 \<le> breaker_cooldown (br_state (executor_step e b w p s))"
        using step_tripped [OF Cons.prems(2), of e b w p x] Cons.prems(6,7) by (simp_all add: y Let_def)
      show ?thesis using pause_after_trip [OF t srt, of j' z] Cons.prems(1,5) 0 by (simp add: j y Let_def trip_time_def)
    next
      case (Suc i')
      then show ?thesis
        using Cons.IH [where i = i' and j = j', OF _ step_breaker_ok [OF Cons.prems(2)] srt] Cons.prems(1,4-7) by (simp add: j y Let_def)
    qed
  qed simp
  then show ?thesis using ok [OF assms(4,1)] by blast
qed

subsection \<open>Repeated deletions\<close>

lemma record_deletion_params [simp]: "base_cooldown (record_deletion now p t) = base_cooldown t"
  "max_cooldown (record_deletion now p t) = max_cooldown t"
  by (simp_all add: record_deletion_def)

lemma deletions_history:
  assumes "history t (components p) = None" "ts \<noteq> []" "length ts < 2 ^ 32"
  shows "history (fold (\<lambda>now. record_deletion now p) ts t) (components p) =
      Some \<lparr>last_deleted = last ts, cycle_count = of_nat (length ts)\<rparr> \<and>
    base_cooldown (fold (\<lambda>now. record_deletion now p) ts t) = base_cooldown t \<and>
    max_cooldown (fold (\<lambda>now. record_deletion now p) ts t) = max_cooldown t"
  using assms(2,3)
proof (induction ts rule: rev_induct)
  case (snoc a ts)
  have c: "sat_add (of_nat n) 1 = (of_nat (Suc n) :: u32)" if "Suc n < 2 ^ 32" for n
  proof -
    have "unat (sat_add (of_nat n) 1 :: u32) = Suc n" using that by (simp add: unat_of_nat_small)
    moreover have "unat (of_nat (Suc n) :: u32) = Suc n" using that by (intro unat_of_nat_small) simp
    ultimately show ?thesis by (simp only: word_unat_eq_iff)
  qed
  show ?case
  proof (cases "ts = []")
    case True
    then show ?thesis using assms(1) c [of 0] by (simp add: record_deletion_def)
  next
    case False
    then show ?thesis using snoc c [of "length ts"] by (simp add: record_deletion_def)
  qed
qed simp

text \<open>C23: a path deleted n times, at most 32 and without an earlier history, comes through the dampening exactly
  when pressure or urgency bypasses it or the last deletion is at least the base cool-down times two to the
  power n - 1 ago, capped by the configured maximum; held back candidates and those let through
  are a partition in the order of the batch.\<close>

theorem dampening_backoff:
  assumes "history t (components p) = None" and "ts \<noteq> []" and "length ts \<le> 32"
    and "t' = fold (\<lambda>now. record_deletion now p) ts t" and "c \<in> set cs" and "components (cs_path c) = components p"
  shows "(c \<in> set (fst (filter_candidates now t' cs level u)) \<longleftrightarrow> bypasses_dampening level u \<or>
      min (min (base_cooldown t * 2 ^ (length ts - 1)) duration_max) (max_cooldown t) \<le> elapsed now (last ts)) \<and>
    mset (fst (filter_candidates now t' cs level u)) + mset (snd (filter_candidates now t' cs level u)) = mset cs \<and>
    subseq (fst (filter_candidates now t' cs level u)) cs"
proof -
  have h: "history t' (components p) = Some \<lparr>last_deleted = last ts, cycle_count = of_nat (length ts)\<rparr>"
      "base_cooldown t' = base_cooldown t" "max_cooldown t' = max_cooldown t"
    using deletions_history [OF assms(1,2)] assms(3) unfolding assms(4) by simp_all
  have n: "0 < length ts" using assms(2) by simp
  have u: "unat (of_nat (length ts) :: u32) = length ts" using assms(3) by (intro unat_of_nat_small) simp
  have p: "(2::nat) ^ (length ts - 1) \<le> 2 ^ 31" using assms(3) by (intro power_increasing) simp_all
  have shift: "unat (sat_sub (of_nat (length ts) :: u32) 1) = length ts - 1" by (simp add: u)
  have m: "cooldown_multiplier (of_nat (length ts)) = 2 ^ (length ts - 1)"
    unfolding cooldown_multiplier_def Let_def shift using p assms(3) by simp
  have "(of_nat (length ts) :: u32) \<noteq> 0" using u n by (metis unat_0 less_irrefl)
  then have "cooldown_for now t' (cs_path c) = None \<longleftrightarrow>
      min (min (base_cooldown t * 2 ^ (length ts - 1)) duration_max) (max_cooldown t) \<le> elapsed now (last ts)"
    by (simp add: cooldown_for_def assms(6) h m Let_def)
  moreover have "mset (filter Q cs) + mset (filter (\<lambda>x. \<not> Q x) cs) = mset cs" for Q by (simp flip: multiset_partition)
  ultimately show ?thesis using assms(5) by (auto simp: filter_candidates_def)
qed

end
