(* ===== verification/Executor_Demo.thy ===== *)
theory Executor_Demo
  imports Executor_Run
begin

section \<open>Batches of the executor on small file systems\<close>

text \<open>The witnesses of the executor's properties: one scored directory, approved, checked and removed.\<close>

definition demo_penv :: protect_env where
  "demo_penv = \<lparr>home = None, current_dir = None, canonical = (\<lambda>_ k. Some k), metadata_error = (\<lambda>_. None),
     listing_error = (\<lambda>_. None), entry_lost = (\<lambda>_. False), file_text = (\<lambda>_ _. None), regex = (\<lambda>_. Inl []),
     parse_metadata = (\<lambda>_. None), metadata_toml = (\<lambda>_. Inr []), write_file = (\<lambda>_ _ w. Inr w), unlink = (\<lambda>_ w. Inr w)\<rparr>"

definition demo_batch_env :: "string list \<Rightarrow> batch_env" where
  "demo_batch_env ps = \<lparr>t_check = 0, t_policy = (0, (\<lambda>_. 0), (\<lambda>_. [])), t_dampen = 0, t_warn = 0, t_record = 0,
     t_trip = 0, t_prune = 0, shutting_down = False, shutdown_at = (\<lambda>_. False),
     shared = \<lparr>sx_dry_run = False, sx_max_batch_size = 10, sx_min_score = Fin 0, repeat_base_cooldown_secs = 300,
       repeat_max_cooldown_secs = 3600\<rparr>,
     protected_paths = ps, engine_v2 = False, guard_snapshot = None, penv = demo_penv, denv = demo_env True\<rparr>"

definition demo_candidate :: candidacy_score where
  "demo_candidate = (score_inner (\<lambda>x. 0) (\<lambda>x. 0) demo_engine demo_target 0 [])\<lparr>cs_identity := Some (demo_node KDirectory 4)\<rparr>"

definition demo_request :: deletion_batch where
  "demo_request = \<lparr>candidates = [demo_candidate], pressure_level = Yellow, urgency = Fin 0\<rparr>"

definition demo_policy :: policy_engine where
  "demo_policy = policy_new 0 policy_config_default"

definition demo_state :: executor_state where
  "demo_state = executor_new (shared (demo_batch_env []))"

abbreviation demo_run :: "tree \<Rightarrow> batch_result" where
  "demo_run w \<equiv> executor_step (demo_batch_env []) demo_request w demo_policy demo_state"

lemma demo_penv_healthy [simp]: "healthy demo_penv" "metadata_error demo_penv k = None" "listing_error demo_penv k = None"
    "\<not> entry_lost demo_penv k" "canonical demo_penv w k = Some k" "home demo_penv = None"
  by (simp_all add: demo_penv_def healthy_def)

lemma demo_env_fields [simp]: "penv (demo_batch_env ps) = demo_penv" "denv (demo_batch_env ps) = demo_env True"
    "protected_paths (demo_batch_env ps) = ps" "shutdown_at (demo_batch_env ps) i = False" "\<not> shutting_down (demo_batch_env ps)"
  by (simp_all add: demo_batch_env_def)

lemma demo_candidate_simps [simp]: "cs_path demo_candidate = ''/tmp/a''" "cs_identity demo_candidate = Some (demo_node KDirectory 4)"
    "out_action (decision demo_candidate) = Delete" "\<not> vetoed demo_candidate" "Fin 0 \<le> total_score demo_candidate"
    "\<not> classification_allows_force_remove (cs_classification demo_candidate)"
    "candidate_key demo_candidate = [RootDir, Normal ''tmp'', Normal ''a'']"
proof -
  show "cs_path demo_candidate = ''/tmp/a''" by (simp add: demo_candidate_def score_inner_path demo_target_def)
  then show "candidate_key demo_candidate = [RootDir, Normal ''tmp'', Normal ''a'']" by (simp add: candidate_key_def demo_components)
  show "cs_identity demo_candidate = Some (demo_node KDirectory 4)" by (simp add: demo_candidate_def)
  show "out_action (decision demo_candidate) = Delete" using demo_deletes by (simp add: demo_candidate_def)
  show "\<not> vetoed demo_candidate" by (simp add: demo_candidate_def score_inner_def demo_no_veto Let_def split: prod.split)
  show "Fin 0 \<le> total_score demo_candidate"
    using score_range_lemma [of demo_engine demo_target 0 0 "\<lambda>x. 0" "\<lambda>x. 0" "[]"]
    by (simp add: demo_candidate_def demo_engine_def demo_target_def weights_ok_def weight_ok_def)
  show "\<not> classification_allows_force_remove (cs_classification demo_candidate)"
    by (simp add: demo_candidate_def score_inner_path classification_allows_force_remove_def) (simp add: demo_target_def)
qed

lemma remove_subtree_gone: "symlink_metadata (remove_subtree k w) k = None"
  by (auto simp: symlink_metadata_def remove_subtree_def map_of_eq_None_iff)

subsection \<open>The gates of the demonstration batch\<close>

lemma demo_policy_step: "\<exists>p1 d. policy_step (demo_batch_env []) demo_request demo_policy = (p1, d) \<and> approved_for_deletion d = [demo_candidate]"
proof -
  have "approved_for_deletion (snd (evaluate 0 (\<lambda>_. 0) (\<lambda>_. []) [demo_candidate] None demo_policy)) = [demo_candidate]"
    by (rule enforce_single) (simp_all add: demo_policy_def policy_new_def policy_config_default_def)
  then show ?thesis
    by (simp add: policy_step_def demo_batch_env_def demo_request_def prod.split_sel) (metis surjective_pairing)
qed

lemma demo_due: "fst (filter_candidates now (tracker (begin_batch (demo_batch_env []) (demo_state\<lparr>batch_count := n\<rparr>))) [demo_candidate] level u) = [demo_candidate]"
  by (simp add: filter_candidates_def cooldown_for_def begin_batch_def demo_state_def executor_new_def tracker_new_def update_cooldowns_def)

lemma demo_config: "batch_config (demo_batch_env []) = \<lparr>max_batch_size = 10, dry_run = False, del_min_score = Fin 0,
    circuit_breaker_threshold = 5, circuit_breaker_cooldown = secs 30, check_open_files = True, require_identity = False\<rparr>"
  by (simp add: batch_config_def demo_batch_env_def deletion_config_default_def)

lemma demo_planned: "plan (batch_config (demo_batch_env [])) [demo_candidate] =
    \<lparr>plan_candidates = [demo_candidate], total_reclaimable_bytes = cs_size_bytes demo_candidate, estimated_items = 1\<rparr>"
  by (simp add: plan_def demo_config)

definition empty_registry :: protection_registry where
  "empty_registry = \<lparr>marker_paths = {}, config_patterns = []\<rparr>"

lemma demo_run_tree:
  assumes "daemon_protection_reason demo_penv w [] ''/tmp/a'' empty_registry = (r1, Inr None)"
    and "preflight_check (batch_config (demo_batch_env [])) (demo_env True) 0 (Some []) w demo_candidate = None"
    and "symlink_metadata w [RootDir, Normal ''tmp'', Normal ''a''] = Some (demo_node KDirectory 4)"
  shows "br_tree (demo_run w) = remove_subtree [RootDir, Normal ''tmp'', Normal ''a''] w"
proof -
  let ?e = "demo_batch_env []" and ?k = "[RootDir, Normal ''tmp'', Normal ''a'']"
  let ?s = "demo_state\<lparr>batch_count := batch_count demo_state + 1\<rparr>"
  obtain p1 d where d: "policy_step ?e demo_request demo_policy = (p1, d)" "approved_for_deletion d = [demo_candidate]"
    using demo_policy_step by blast
  obtain damp where f: "filter_candidates (t_dampen ?e) (tracker (begin_batch ?e ?s)) [demo_candidate] (pressure_level demo_request)
      (urgency demo_request) = ([demo_candidate], damp)"
    using demo_due by (metis prod.collapse)
  have cool: "\<not> cooling_down ?e ?s" by (simp add: cooling_down_def demo_state_def executor_new_def)
  have reg: "registry_new demo_penv w (Some []) = Inr empty_registry" by (simp add: registry_new_def empty_registry_def)
  let ?pl = "plan (batch_config ?e) [demo_candidate]"
  have run: "executor_step ?e demo_request w demo_policy demo_state = run_plan ?e ?pl empty_registry (begin_batch ?e ?s) p1 w"
    using cool d f reg by (simp add: executor_step_def Let_def demo_planned)
  have skip: "\<not> fst (ask (skip_protected ?e empty_registry) 0 w ''/tmp/a'')"
    using assms(1) by (simp add: ask_def skip_protected_def preflight_protected_def should_skip_protected_daemon_candidate_def
        sacred_paths_from_protected_patterns_def)
  have v: "verify_candidate_identity (batch_config ?e) w demo_candidate = None"
    using assms(3) by (simp add: verify_candidate_identity_def)
  have del: "delete_path (batch_config ?e) (demo_env True) 0 w demo_candidate = (remove_subtree ?k w, None)"
    using v assms(3) by (simp add: delete_path_def Let_def demo_node_def remove_dir_all_def remove_subtree_gone)
  have out: "step_outcome (batch_config ?e) (demo_env True) (Some []) (skip_protected ?e empty_registry) 0 demo_candidate w =
      (remove_subtree ?k w, Removed)"
    using skip assms(2) del by (simp add: step_outcome_def Let_def demo_config)
  have th: "circuit_breaker_threshold (batch_config ?e) = 5" by (simp add: demo_config)
  have "batch_open (batch_config ?e) (demo_env True) ?pl = Some (Some [])" by (simp add: batch_open_def demo_config demo_env_def)
  moreover have "batch (batch_config ?e) ?pl = [demo_candidate]"
    unfolding batch_def demo_planned by (simp add: demo_config)
  ultimately have "ex_tree (execute (batch_config ?e) (demo_env True) ?pl (skip_protected ?e empty_registry) w) = remove_subtree ?k w"
    using th by (simp add: execute_loop exec_candidate_outcome out note_deleted_def Let_def)
  then show ?thesis by (simp add: run run_plan_def Let_def)
qed

subsection \<open>The checks of the demonstration batch\<close>

lemma demo_ancestors: "key_ancestors [RootDir, Normal ''tmp'', Normal ''a''] =
    [[RootDir, Normal ''tmp'', Normal ''a''], [RootDir, Normal ''tmp''], [RootDir]]"
  by (simp add: key_ancestors_def upt_rec)

lemma product_Nil2 [simp]: "List.product xs [] = []"
  by (induction xs) simp_all

lemma find_False [simp]: "List.find (\<lambda>_. False) xs = None"
  by (induction xs) simp_all

lemma demo_check:
  assumes "resolve_absolute_path demo_penv w [RootDir, Normal ''tmp'', Normal ''a''] = [RootDir, Normal ''tmp'', Normal ''a'']"
    and "\<forall>a \<in> {[RootDir, Normal ''tmp'', Normal ''a''], [RootDir, Normal ''tmp''], [RootDir]}. symlink_metadata w (marker_key a) = None"
    and "scan_stowaways_bounded demo_penv w [RootDir, Normal ''tmp'', Normal ''a''] [] stowaway_config_default = Inr ([], False)"
  shows "daemon_protection_reason demo_penv w [] ''/tmp/a'' empty_registry = (empty_registry, Inr None)"
proof -
  have d: "discover_ancestor_markers demo_penv w ''/tmp/a'' empty_registry = (empty_registry, Inr 0)"
    using assms(1,2) by (simp add: discover_ancestor_markers_def demo_components demo_ancestors lstat_def File_Tree.not_found_def)
  have r: "protection_reason demo_penv w empty_registry ''/tmp/a'' = None"
    by (simp add: protection_reason_def find_marker_ancestor_def empty_registry_def find_None_iff)
  have "find_sacred_overlaps demo_penv w ''/tmp/a'' [] = Inr []"
    using assms(1,3) by (simp add: find_sacred_overlaps_def find_sacred_overlaps_with_config_def demo_components Let_def)
  then show ?thesis using d r by (simp add: daemon_protection_reason_def)
qed

text \<open>A directory with a marker at its third level, which the search does not reach.\<close>

definition demo_marked :: tree where
  "demo_marked = take 3 demo_tree @ [([RootDir, Normal ''tmp'', Normal ''a'', Normal ''1''], demo_node KDirectory 6),
     ([RootDir, Normal ''tmp'', Normal ''a'', Normal ''1'', Normal ''2''], demo_node KDirectory 7),
     ([RootDir, Normal ''tmp'', Normal ''a'', Normal ''1'', Normal ''2'', Normal ''3''], demo_node KDirectory 8),
     ([RootDir, Normal ''tmp'', Normal ''a'', Normal ''1'', Normal ''2'', Normal ''3'', Normal ''.sbh-protect''], demo_node KFile 9)]"

lemma marker_find_rule: "matching_rule [marker_rule] base (dir @ [Normal name]) b = None \<longleftrightarrow>
    \<not> (name = marker_filename \<or> path_suffix_matches (if prefix base (dir @ [Normal name]) then match_text (drop (length base) (dir @ [Normal name])) else []) marker_filename)"
  by (simp add: matching_rule_def marker_rule_def comps_file_name_def Let_def)

lemma demo_children:
  "children demo_tree [RootDir, Normal ''tmp'', Normal ''a''] = [(''f'', KFile)]"
  "children demo_marked [RootDir, Normal ''tmp'', Normal ''a''] = [(''1'', KDirectory)]"
  "children demo_marked [RootDir, Normal ''tmp'', Normal ''a'', Normal ''1''] = [(''2'', KDirectory)]"
  "children demo_marked [RootDir, Normal ''tmp'', Normal ''a'', Normal ''1'', Normal ''2''] = [(''3'', KDirectory)]"
  by (simp_all add: children_def demo_marked_def demo_tree_def demo_node_def List.map_filter_def)

lemma demo_lookup:
  "symlink_metadata demo_tree [RootDir, Normal ''tmp'', Normal ''a''] = Some (demo_node KDirectory 4)"
  "symlink_metadata demo_marked [RootDir, Normal ''tmp'', Normal ''a''] = Some (demo_node KDirectory 4)"
  by (simp_all add: symlink_metadata_def demo_marked_def demo_tree_def)

lemma demo_wf: "wf_tree demo_tree" "wf_tree demo_marked"
  by (simp_all add: wf_tree_def demo_tree_def demo_marked_def demo_node_def absolute_iff)

lemma demo_resolve: "resolve_absolute_path demo_penv demo_tree [RootDir, Normal ''tmp'', Normal ''a''] = [RootDir, Normal ''tmp'', Normal ''a'']"
  "resolve_absolute_path demo_penv demo_marked [RootDir, Normal ''tmp'', Normal ''a''] = [RootDir, Normal ''tmp'', Normal ''a'']"
  by (rule resolve_entry [OF demo_wf(1), of _ _ "demo_node KDirectory 4"], simp_all add: demo_tree_def demo_node_def)
    (rule resolve_entry [OF demo_wf(2), of _ _ "demo_node KDirectory 4"], simp_all add: demo_marked_def demo_tree_def demo_node_def)

lemma demo_scan:
  "scan_stowaways_bounded demo_penv demo_tree [RootDir, Normal ''tmp'', Normal ''a''] [] stowaway_config_default = Inr ([], False)"
  "scan_stowaways_bounded demo_penv demo_marked [RootDir, Normal ''tmp'', Normal ''a''] [] stowaway_config_default = Inr ([], False)"
  by (simp_all add: scan_stowaways_bounded_def build_stowaway_rules_def List.map_filter_simps demo_resolve lstat_def demo_lookup
      examine_eq walk_queue.simps list_dir_def demo_children walk_entries_Cons enqueue_def matching_rule_def
      comps_file_name_def marker_rule_def marker_filename_def path_suffix_matches_def match_text_def path_text_def forward_def
      ends_with_def stowaway_config_default_def demo_node_def Let_def)

lemma demo_no_markers:
  "\<forall>a \<in> {[RootDir, Normal ''tmp'', Normal ''a''], [RootDir, Normal ''tmp''], [RootDir]}. symlink_metadata demo_tree (marker_key a) = None"
  "\<forall>a \<in> {[RootDir, Normal ''tmp'', Normal ''a''], [RootDir, Normal ''tmp''], [RootDir]}. symlink_metadata demo_marked (marker_key a) = None"
  by (simp_all add: symlink_metadata_def demo_marked_def demo_tree_def marker_key_def marker_filename_def)

lemma demo_batch_preflight:
  assumes "w = demo_tree \<or> w = demo_marked"
  shows "preflight_check (batch_config (demo_batch_env [])) (demo_env True) 0 (Some []) w demo_candidate = None"
proof -
  let ?k = "[RootDir, Normal ''tmp'', Normal ''a'']"
  have m: "symlink_metadata w ?k = Some (demo_node KDirectory 4)" using assms demo_lookup by auto
  have v: "verify_candidate_identity (batch_config (demo_batch_env [])) w demo_candidate = None"
    using m by (simp add: verify_candidate_identity_def)
  have g: "\<not> contains_nested_git (demo_env True) w 3 ?k"
    using assms by (auto simp: eval_nat_numeral read_dir_def demo_children)
  have l: "\<not> looks_like_source_code (demo_env True) w ?k"
    using assms by (auto simp: looks_like_source_code_def read_dir_def demo_children name_extension_def rsplit_once_def manifest_files_def
        eq_ignore_ascii_case_def to_lower_def)
  have t: "\<not> contains_cargo_manifest_without_artifact_markers (demo_env True) w ?k"
    using assms by (auto simp: contains_cargo_manifest_without_artifact_markers_def read_dir_def demo_children note_entry_def no_signals_def
        eq_ignore_ascii_case_def to_lower_def)
  show ?thesis using tmp_a_allowed v g l t m by (simp add: preflight_check_def Let_def demo_node_def parent_key_def)
qed

lemma demo_runs:
  "br_tree (demo_run demo_tree) = remove_subtree [RootDir, Normal ''tmp'', Normal ''a''] demo_tree"
  "br_tree (demo_run demo_marked) = remove_subtree [RootDir, Normal ''tmp'', Normal ''a''] demo_marked"
  using demo_run_tree [OF demo_check [OF demo_resolve(1) demo_no_markers(1) demo_scan(1)] demo_batch_preflight demo_lookup(1)]
    demo_run_tree [OF demo_check [OF demo_resolve(2) demo_no_markers(2) demo_scan(2)] demo_batch_preflight demo_lookup(2)] by simp_all

subsection \<open>Witnesses\<close>


theorem protected_paths_survive_witness:
  "([RootDir, Normal ''tmp'', Normal ''a'', Normal ''f''], demo_node KFile 5) \<in>
     set (br_tree (executor_step (demo_batch_env [''/tmp/a'']) demo_request demo_tree demo_policy demo_state))"
proof (rule protected_paths_survive [where pat = "''/tmp/a''" and qs = "[''tmp'', ''a'']"])
  have t: "trim ''/tmp/a'' = ''/tmp/a''" by (simp add: trim_def ascii_space_def)
  show "trim ''/tmp/a'' \<noteq> []" "\<not> contains_glob_metachar (trim ''/tmp/a'')" by (simp_all add: t contains_glob_metachar_def)
  show "components (expand_home_pattern (penv (demo_batch_env [''/tmp/a''])) (trim ''/tmp/a'')) = RootDir # map Normal [''tmp'', ''a'']"
    by (simp add: t expand_home_pattern_def demo_components)
  show "plain (penv (demo_batch_env [''/tmp/a''])) demo_tree (RootDir # map Normal [''tmp'', ''a''])"
    using plain_entry [OF demo_wf(1), of demo_penv "[RootDir, Normal ''tmp'', Normal ''a'']" "demo_node KDirectory 4"]
    by (simp add: demo_tree_def demo_node_def)
qed (insert demo_wf, simp_all add: demo_tree_def)

theorem marked_directories_survive_witness:
  "\<exists>c \<in> {demo_candidate}. length (candidate_key c) + 3 \<le>
     length [RootDir, Normal ''tmp'', Normal ''a'', Normal ''1'', Normal ''2'', Normal ''3'']"
proof -
  let ?a = "[RootDir, Normal ''tmp'', Normal ''a'', Normal ''1'', Normal ''2'', Normal ''3'']"
  have m: "(marker_key ?a, demo_node KFile 9) \<in> set demo_marked"
    by (simp add: demo_marked_def marker_key_def marker_filename_def)
  have "(marker_key ?a, demo_node KFile 9) \<notin> set (br_tree (demo_run demo_marked))"
    unfolding demo_runs by (simp add: demo_marked_def demo_tree_def marker_key_def marker_filename_def remove_subtree_def)
  from marked_directories_survive [OF _ _ _ _ m m _ this]
  have "\<exists>c \<in> set (candidates demo_request). prefix (candidate_key c) ?a \<and> length (candidate_key c) + 3 \<le> length ?a"
    by (simp add: demo_wf marker_key_def)
  then show ?thesis by (simp add: demo_request_def)
qed

text \<open>Six candidates that cannot be removed trip the breaker of the batch.\<close>

lemma enforce_all:
  assumes "pe_mode p = Enforce" "i + length cs \<le> b" "\<forall>c \<in> set cs. out_action (decision c) = Delete"
  shows "\<exists>q d'. eval_loop clk stamp b pm None i cs (p, d) = (q, d') \<and> approved_for_deletion d' = approved_for_deletion d @ cs"
  using assms
proof (induction cs arbitrary: i p d)
  case (Cons c cs)
  have enf: "enforce_policy (clk i) c None p = (p, Delete)"
    using Cons.prems(1,3) by (simp add: enforce_policy_def allows_deletion_def guard_rejects_def)
  obtain q d1 where q: "eval_candidate (clk i) (stamp i) pm None c (p, d) = (q, d1)" by fastforce
  then have "pe_mode q = Enforce" "approved_for_deletion d1 = approved_for_deletion d @ [c]"
    using enf Cons.prems(1,3) by (auto simp: eval_candidate_def Let_def count_action_def split: prod.splits)
  then show ?case using Cons.IH [of q "Suc i" d1] Cons.prems(2,3) q by simp
qed simp

definition demo_stuck_env :: batch_env where
  "demo_stuck_env = (demo_batch_env [])\<lparr>denv := demo_env False\<rparr>"

definition demo_burst :: deletion_batch where
  "demo_burst = \<lparr>candidates = replicate 6 demo_candidate, pressure_level = Yellow, urgency = Fin 0\<rparr>"

lemma demo_stuck_fields [simp]: "penv demo_stuck_env = demo_penv" "denv demo_stuck_env = demo_env False" "protected_paths demo_stuck_env = []"
    "shutdown_at demo_stuck_env i = False" "\<not> shutting_down demo_stuck_env" "batch_config demo_stuck_env = batch_config (demo_batch_env [])"
    "t_policy demo_stuck_env = t_policy (demo_batch_env [])" "guard_snapshot demo_stuck_env = None"
  by (simp_all add: demo_stuck_env_def batch_config_def) (simp add: demo_batch_env_def)

lemma demo_protection: "daemon_protection_reason demo_penv demo_tree [] ''/tmp/a'' empty_registry = (empty_registry, Inr None)"
  by (rule demo_check [OF demo_resolve(1) demo_no_markers(1) demo_scan(1)])

lemma demo_stuck_ask: "ask (skip_protected demo_stuck_env empty_registry) i demo_tree ''/tmp/a'' = (False, skip_protected demo_stuck_env empty_registry)"
  by (simp add: ask_def skip_protected_def preflight_protected_def should_skip_protected_daemon_candidate_def
      sacred_paths_from_protected_patterns_def demo_protection)

lemma demo_stuck_checks: "read_dir (demo_env False) w k = read_dir (demo_env True) w k"
  "contains_nested_git (demo_env False) w d k = contains_nested_git (demo_env True) w d k"
  "looks_like_source_code (demo_env False) w k = looks_like_source_code (demo_env True) w k"
  "contains_cargo_manifest_without_artifact_markers (demo_env False) w k = contains_cargo_manifest_without_artifact_markers (demo_env True) w k"
proof -
  show r: "read_dir (demo_env False) w k = read_dir (demo_env True) w k" for k by (simp add: read_dir_def)
  show "contains_nested_git (demo_env False) w d k = contains_nested_git (demo_env True) w d k"
    by (induction d arbitrary: k) (simp_all add: r cong: option.case_cong)
  show "looks_like_source_code (demo_env False) w k = looks_like_source_code (demo_env True) w k"
    by (simp add: looks_like_source_code_def r)
  show "contains_cargo_manifest_without_artifact_markers (demo_env False) w k = contains_cargo_manifest_without_artifact_markers (demo_env True) w k"
    by (simp add: contains_cargo_manifest_without_artifact_markers_def r)
qed

lemma demo_preflight_any: "preflight_check cfg (demo_env False) i op w c = preflight_check cfg (demo_env True) 0 op w c"
  by (simp add: preflight_check_def demo_stuck_checks Let_def cong: option.case_cong if_cong)

lemma demo_stuck_step:
  "\<exists>err. step_outcome (batch_config demo_stuck_env) (demo_env False) (Some []) (skip_protected demo_stuck_env empty_registry) i demo_candidate demo_tree =
      (demo_tree, Failed err)"
proof -
  have v: "verify_candidate_identity (batch_config (demo_batch_env [])) demo_tree demo_candidate = None"
    using demo_lookup(1) by (simp add: verify_candidate_identity_def)
  have f: "filter (\<lambda>(q, _). prefix [RootDir, Normal ''tmp'', Normal ''a''] q \<longrightarrow> True) demo_tree = demo_tree" by (simp add: demo_tree_def)
  have "\<exists>err. delete_path (batch_config (demo_batch_env [])) (demo_env False) i demo_tree demo_candidate = (demo_tree, Some err)"
    using v f demo_lookup(1) by (simp add: delete_path_def Let_def demo_node_def remove_dir_all_def)
  then show ?thesis using demo_batch_preflight [of demo_tree] demo_stuck_ask
    by (auto simp: step_outcome_def Let_def demo_config demo_preflight_any)
qed

lemma deletion_before_irrefl: "\<not> deletion_before c c"
  by (cases "total_score c") (simp_all add: deletion_before_def)

lemma demo_burst_planned: "plan_candidates (plan (batch_config (demo_batch_env [])) (replicate 6 demo_candidate)) = replicate 6 demo_candidate"
proof -
  have "sort_by deletion_before (replicate n c) = replicate n c" for n and c :: candidacy_score
  proof (induction n)
    case (Suc n)
    then show ?case by (cases n) (simp_all add: sort_by_def deletion_before_irrefl)
  qed (simp add: sort_by_def)
  then show ?thesis by (simp add: plan_def demo_config)
qed

lemma demo_stuck_trips: "\<exists>x. br_end (executor_step demo_stuck_env demo_burst demo_tree demo_policy demo_state) = Executed x \<and>
    circuit_breaker_tripped (ex_report x)"
proof -
  let ?e = demo_stuck_env and ?cs = "replicate 6 demo_candidate" and ?cfg = "batch_config (demo_batch_env [])"
  let ?s = "demo_state\<lparr>batch_count := batch_count demo_state + 1\<rparr>" and ?sk = "skip_protected demo_stuck_env empty_registry"
  obtain q d where d: "eval_loop (\<lambda>_. 0) (\<lambda>_. []) 6 (to_policy_mode Enforce) None 0 ?cs (demo_policy, empty_decision) = (q, d)"
      "approved_for_deletion d = ?cs"
    using enforce_all [of demo_policy 0 ?cs 6 "\<lambda>_. 0" "\<lambda>_. []" "to_policy_mode Enforce" empty_decision]
    by (auto simp: demo_policy_def policy_new_def policy_config_default_def empty_decision_def)
  have m: "eval_entry 0 None demo_policy = demo_policy" "pe_mode demo_policy = Enforce"
      "min (unat (max_candidates_per_loop (pe_config demo_policy))) 6 = 6"
    by (simp_all add: demo_policy_def policy_new_def policy_config_default_def eval_entry_def)
  have p: "policy_step ?e demo_burst demo_policy = (q, d\<lparr>pd_mode := pe_mode q\<rparr>)"
    using d(1) m by (simp add: policy_step_def demo_batch_env_def demo_burst_def evaluate_def Let_def)
  have cool: "\<not> cooling_down ?e ?s" by (simp add: cooling_down_def demo_state_def executor_new_def)
  have "fst (filter_candidates now (tracker (begin_batch ?e ?s)) ?cs level u) = ?cs" for now level u
    by (simp add: filter_candidates_def cooldown_for_def begin_batch_def demo_state_def executor_new_def tracker_new_def update_cooldowns_def)
  then obtain damp where f: "filter_candidates (t_dampen ?e) (tracker (begin_batch ?e ?s)) ?cs (pressure_level demo_burst)
      (urgency demo_burst) = (?cs, damp)" by (metis prod.collapse)
  have reg: "registry_new demo_penv demo_tree (Some []) = Inr empty_registry" by (simp add: registry_new_def empty_registry_def)
  let ?pl = "plan ?cfg ?cs"
  have ne: "?cs \<noteq> []" "plan_candidates ?pl \<noteq> []" by (simp_all add: demo_burst_planned)
  have run: "executor_step ?e demo_burst demo_tree demo_policy demo_state = run_plan ?e ?pl empty_registry (begin_batch ?e ?s) q demo_tree"
    using cool p d(2) f reg ne by (simp add: executor_step_def Let_def)
  let ?tr = "exec_trace ?cfg (demo_env False) (Some []) ?sk"
  have th: "circuit_breaker_threshold ?cfg = 5" by (simp add: demo_config)
  have step: "?tr i f (demo_candidate # cs) demo_tree = (if 5 \<le> f then []
      else (i, demo_candidate, demo_tree, snd (step_outcome ?cfg (demo_env False) (Some []) ?sk i demo_candidate demo_tree)) # ?tr (Suc i) (f + 1) cs demo_tree)"
    for i f cs
    using demo_stuck_step [of i] by (auto simp: th demo_stuck_ask next_failures_def)
  have six: "?cs = [demo_candidate, demo_candidate, demo_candidate, demo_candidate, demo_candidate, demo_candidate]"
    by (simp add: eval_nat_numeral)
  have "length (?tr 0 0 ?cs demo_tree) = 5"
    unfolding six by (simp add: step word_le_nat_alt del: exec_trace.simps(2))
  moreover have "batch_open ?cfg (demo_env False) ?pl = Some (Some [])" by (simp add: batch_open_def demo_config demo_env_def)
  moreover have "batch ?cfg ?pl = ?cs" unfolding batch_def demo_burst_planned by (simp add: demo_config)
  ultimately have "circuit_breaker_tripped (ex_report (execute ?cfg (demo_env False) ?pl ?sk demo_tree))"
    by (simp add: execute_loop exec_loop_tripped)
  then show ?thesis by (simp add: run run_plan_def Let_def)
qed

theorem breaker_pauses_witness:
  "\<forall>y. br_end (executor_run [(demo_stuck_env, demo_burst, demo_tree, demo_policy), (demo_batch_env [], demo_request, demo_tree, demo_policy)]
     demo_state ! 1) \<noteq> Executed y"
proof -
  let ?xs = "[(demo_stuck_env, demo_burst, demo_tree, demo_policy), (demo_batch_env [], demo_request, demo_tree, demo_policy)]"
  obtain x where x: "br_end (executor_run ?xs demo_state ! 0) = Executed x" "circuit_breaker_tripped (ex_report x)"
    using demo_stuck_trips by (auto simp: Let_def)
  have "breaker_ok demo_state" by (simp add: breaker_ok_def demo_state_def executor_new_def deletion_config_default_def)
  moreover have "sorted (batch_times ?xs)"
    by (simp add: batch_times_def check_time_def trip_time_def demo_stuck_env_def demo_batch_env_def)
  ultimately have "\<forall>y. br_end (executor_run ?xs demo_state ! 1) = Executed y \<longrightarrow> trip_time (?xs ! 0) + secs 60 \<le> check_time (?xs ! 1)"
    using breaker_pauses [of demo_state ?xs 0 1 x] x by simp
  then show ?thesis by (simp add: trip_time_def check_time_def demo_stuck_env_def demo_batch_env_def secs_def)
qed

theorem dampening_backoff_witness:
  "demo_candidate \<notin> set (fst (filter_candidates (secs 400) (fold (\<lambda>now. record_deletion now ''/tmp/a'') [0, secs 310]
     (tracker_new (secs 300) (secs 3600))) [demo_candidate] Yellow (Fin (- 1))))"
proof -
  have "\<not> bypasses_dampening Yellow (Fin (- 1))"
    using lit_unit [of "85/100"] by (auto simp: bypasses_dampening_def)
  then show ?thesis
    using dampening_backoff [where t = "tracker_new (secs 300) (secs 3600)" and p = "''/tmp/a''" and ts = "[0, secs 310]" and
        c = demo_candidate and cs = "[demo_candidate]" and level = Yellow and u = "Fin (- 1)" and now = "secs 400", OF _ _ _ refl]
    by (simp add: tracker_new_def elapsed_def secs_def duration_max_def)
qed

definition demo_flagged :: tree where
  "demo_flagged = take 3 demo_tree @ [([RootDir, Normal ''tmp'', Normal ''a'', Normal ''.sbh-protect''], demo_node KFile 9)]"

theorem stowaway_scan_exact_witness:
  "sound_match demo_flagged [marker_rule] [RootDir, Normal ''tmp'', Normal ''a''] 3
     (rule_match marker_rule [RootDir, Normal ''tmp'', Normal ''a'', Normal ''.sbh-protect''] 1)"
proof -
  let ?k = "[RootDir, Normal ''tmp'', Normal ''a'']"
  have w: "wf_tree demo_flagged" by (simp add: wf_tree_def demo_tree_def demo_flagged_def demo_node_def absolute_iff)
  have r: "resolve_absolute_path demo_penv demo_flagged ?k = ?k"
    by (rule resolve_entry [OF w, of _ _ "demo_node KDirectory 4"]) (simp_all add: demo_flagged_def demo_tree_def demo_node_def)
  have c: "children demo_flagged ?k = [(''.sbh-protect'', KFile)]" "symlink_metadata demo_flagged ?k = Some (demo_node KDirectory 4)"
    by (simp_all add: children_def symlink_metadata_def demo_flagged_def demo_tree_def demo_node_def List.map_filter_def)
  have b: "build_stowaway_rules demo_penv [] = Inr [marker_rule]" by (simp add: build_stowaway_rules_def List.map_filter_simps)
  have "scan_stowaways_bounded demo_penv demo_flagged ?k [] stowaway_config_default =
      Inr ([rule_match marker_rule (?k @ [Normal ''.sbh-protect'']) 1], False)"
    by (simp add: scan_stowaways_bounded_def b r lstat_def c examine_eq walk_queue.simps list_dir_def walk_entries_Cons enqueue_def
      matching_rule_def comps_file_name_def marker_rule_def marker_filename_def path_suffix_matches_def match_text_def path_text_def
      forward_def ends_with_def stowaway_config_default_def demo_node_def Let_def)
  from stowaway_scan_exact [OF w b this r] show ?thesis by (simp add: stowaway_config_default_def)
qed

end
