(* ===== verification/Behavior.thy ===== *)
theory Behavior
  imports Policy_Run
begin

section \<open>Behavior modes of the daemon (src/src/daemon/loop_main.rs)\<close>

text \<open>
  The state that holds the behavior mode of the dispatch table, with the hysteresis between two
  transitions in the same direction, and what the modes allow. The bookkeeping of worker panics and
  of the self-throttle of the daemon's tick follow. Clock readings are arguments.
\<close>

datatype direction = Escalating | RecoveringTo

record behavior_transition =
  from_memory :: memory_pressure_level
  to_memory :: memory_pressure_level
  from_disk :: pressure_level
  to_disk :: pressure_level
  from_mode :: behavior_mode
  to_mode :: behavior_mode

record pending_target =
  pending_memory :: memory_pressure_level
  pending_disk :: pressure_level
  pending_mode :: behavior_mode

datatype behavior_update =
    Unchanged
  | Applied behavior_transition
  | Deferred direction duration

record behavior_state =
  behavior_table :: "behavior_mode list list"
  memory_level :: memory_pressure_level
  disk_level :: pressure_level
  current_mode :: behavior_mode
  last_escalation_at :: "instant option"
  last_recovery_at :: "instant option"
  pending_target :: "pending_target option"

definition behavior_new :: "memory_pressure_level \<Rightarrow> pressure_level \<Rightarrow> behavior_state" where
  "behavior_new mem disk = \<lparr>behavior_table = default_behavior_cells, memory_level = mem, disk_level = disk,
     current_mode = mode_for default_behavior_cells mem disk, last_escalation_at = None,
     last_recovery_at = None, pending_target = None\<rparr>"

subsection \<open>Directions\<close>

fun behavior_pressure_rank :: "behavior_pressure_level \<Rightarrow> nat" where
  "behavior_pressure_rank BNormal = 0"
| "behavior_pressure_rank BWarn = 1"
| "behavior_pressure_rank BCritical = 2"

definition transition_direction ::
  "memory_pressure_level \<Rightarrow> memory_pressure_level \<Rightarrow> pressure_level \<Rightarrow> pressure_level \<Rightarrow> direction option" where
  "transition_direction mem mem' disk disk' =
     (let m = behavior_pressure_rank (from_memory_pressure mem);
          m' = behavior_pressure_rank (from_memory_pressure mem');
          d = behavior_pressure_rank (from_disk_pressure disk);
          d' = behavior_pressure_rank (from_disk_pressure disk')
      in if m' = m \<and> d' = d then None
         else if m \<le> m' \<and> d \<le> d' then Some Escalating
         else if m' \<le> m \<and> d' \<le> d then Some RecoveringTo
         else None)"

subsection \<open>Updates\<close>

definition apply_behavior_transition ::
  "memory_pressure_level \<Rightarrow> pressure_level \<Rightarrow> behavior_mode \<Rightarrow> behavior_state \<Rightarrow> behavior_state \<times> behavior_transition" where
  "apply_behavior_transition mem disk next_mode s =
     (s\<lparr>memory_level := mem, disk_level := disk, current_mode := next_mode\<rparr>,
      \<lparr>from_memory = memory_level s, to_memory = mem, from_disk = disk_level s, to_disk = disk,
       from_mode = current_mode s, to_mode = next_mode\<rparr>)"

fun last_transition :: "direction \<Rightarrow> behavior_state \<Rightarrow> instant option" where
  "last_transition Escalating s = last_escalation_at s"
| "last_transition RecoveringTo s = last_recovery_at s"

definition hysteresis_remaining :: "direction \<Rightarrow> instant \<Rightarrow> duration \<Rightarrow> behavior_state \<Rightarrow> duration option" where
  "hysteresis_remaining dir now min_interval s =
     (if min_interval = 0 then None
      else case last_transition dir s of None \<Rightarrow> None
        | Some prev \<Rightarrow> let e = elapsed now prev in
            if min_interval \<le> e then None else Some (min_interval - e))"

fun record_transition_direction :: "direction \<Rightarrow> instant \<Rightarrow> behavior_state \<Rightarrow> behavior_state" where
  "record_transition_direction Escalating now s = s\<lparr>last_escalation_at := Some now\<rparr>"
| "record_transition_direction RecoveringTo now s = s\<lparr>last_recovery_at := Some now\<rparr>"

definition update_with_hysteresis ::
  "memory_pressure_level \<Rightarrow> pressure_level \<Rightarrow> instant \<Rightarrow> duration \<Rightarrow> behavior_state \<Rightarrow>
     behavior_state \<times> behavior_update" where
  "update_with_hysteresis mem disk now min_interval s =
     (let next_mode = mode_for (behavior_table s) mem disk;
          target = \<lparr>pending_memory = mem, pending_disk = disk, pending_mode = next_mode\<rparr> in
      if memory_level s = mem \<and> disk_level s = disk \<and> current_mode s = next_mode
      then (s\<lparr>pending_target := None\<rparr>, Unchanged)
      else let s1 = (case pending_target s of
                 Some p \<Rightarrow> if p \<noteq> target then s\<lparr>pending_target := None\<rparr> else s
               | None \<Rightarrow> s)
        in case transition_direction (memory_level s1) mem (disk_level s1) disk of
             None \<Rightarrow> let (s2, t) = apply_behavior_transition mem disk next_mode s1
               in (s2\<lparr>pending_target := None\<rparr>, Applied t)
           | Some dir \<Rightarrow>
             (case hysteresis_remaining dir now min_interval s1 of
                Some remaining \<Rightarrow> (s1\<lparr>pending_target := Some target\<rparr>, Deferred dir remaining)
              | None \<Rightarrow> let (s2, t) = apply_behavior_transition mem disk next_mode s1
                  in ((record_transition_direction dir now s2)\<lparr>pending_target := None\<rparr>, Applied t)))"

subsection \<open>What a mode allows\<close>

definition behavior_allows_scan :: "behavior_mode \<Rightarrow> bool" where
  "behavior_allows_scan m = (scan_aggressiveness m \<noteq> ScanSkip)"

definition behavior_allows_delete_dispatch :: "behavior_mode \<Rightarrow> bool" where
  "behavior_allows_delete_dispatch m = (cleanup_action m \<notin> {CleanNone, IdentifyOnly})"

definition behavior_delete_batch_limit :: "behavior_mode \<Rightarrow> usize \<Rightarrow> usize" where
  "behavior_delete_batch_limit m configured = (if behavior_allows_delete_dispatch m then configured else 0)"

definition behavior_should_release_ballast :: "behavior_mode \<Rightarrow> bool" where
  "behavior_should_release_ballast m = (ballast_action m \<in> {BallastRelease, BallastReleaseFirst})"

definition behavior_emergency :: "behavior_transition \<Rightarrow> bool" where
  "behavior_emergency t = (\<not> (to_memory t \<noteq> MemCritical \<or> to_disk t \<noteq> Critical
     \<or> notification_priority (to_mode t) \<noteq> NotifyEmergency))"

subsection \<open>The mode follows the levels\<close>

definition behavior_wf :: "behavior_state \<Rightarrow> bool" where
  "behavior_wf s = (behavior_table s = default_behavior_cells
     \<and> current_mode s = mode_for default_behavior_cells (memory_level s) (disk_level s))"

lemma behavior_wf_new: "behavior_wf (behavior_new mem disk)"
  by (simp add: behavior_wf_def behavior_new_def)

lemma behavior_wf_update:
  "behavior_wf s \<Longrightarrow> behavior_wf (fst (update_with_hysteresis mem disk now h s))"
  by (cases "the (transition_direction (memory_level s) mem (disk_level s) disk)")
    (auto simp: behavior_wf_def update_with_hysteresis_def apply_behavior_transition_def Let_def
      split: option.split)

text \<open>Deletion is dispatched only when the disk is under pressure, and below its red level only when
  memory is too.\<close>

lemma allows_delete_iff:
  "behavior_allows_delete_dispatch (mode_for default_behavior_cells mem disk) \<longleftrightarrow>
     rank Red \<le> rank disk \<or> rank Yellow \<le> rank disk \<and> mem \<noteq> MemNormal"
  by (cases mem; cases disk) (simp_all add: behavior_allows_delete_dispatch_def mode_for_def
      mode_for_levels_def default_behavior_cells_def bmode_def)

lemma releases_ballast_iff:
  "behavior_should_release_ballast (mode_for default_behavior_cells mem disk) \<longleftrightarrow>
     rank Red \<le> rank disk \<or> rank Yellow \<le> rank disk \<and> mem \<noteq> MemNormal"
  by (cases mem; cases disk) (simp_all add: behavior_should_release_ballast_def mode_for_def
      mode_for_levels_def default_behavior_cells_def bmode_def)

lemma allows_scan_iff:
  "behavior_allows_scan (mode_for default_behavior_cells mem disk) \<longleftrightarrow> \<not> (mem = MemCritical \<and> disk = Green)"
  by (cases mem; cases disk) (simp_all add: behavior_allows_scan_def mode_for_def
      mode_for_levels_def default_behavior_cells_def bmode_def)

subsection \<open>The daemon's updates\<close>

text \<open>\<open>update_behavior_mode\<close> returns the state, what became of the update and whether an emergency is
  notified. Every tick feeds the level of the disk with the memory level of the state, every memory
  event feeds its own level with the disk level of the tick.\<close>

definition update_behavior_mode ::
  "u64 \<Rightarrow> memory_pressure_level \<Rightarrow> pressure_level \<Rightarrow> string \<Rightarrow> instant \<Rightarrow> behavior_state \<Rightarrow>
     behavior_state \<times> behavior_update \<times> bool" where
  "update_behavior_mode hysteresis_secs mem disk source now s =
     (let h = (if source = ''startup'' then 0 else secs (unat hysteresis_secs));
          (s1, u) = update_with_hysteresis mem disk now h s
      in (s1, u, case u of Applied t \<Rightarrow> behavior_emergency t | _ \<Rightarrow> False))"

definition disk_tick :: "u64 \<Rightarrow> pressure_level \<Rightarrow> instant \<Rightarrow> behavior_state \<Rightarrow> behavior_state" where
  "disk_tick hs disk now s = fst (update_behavior_mode hs (memory_level s) disk ''disk_pressure'' now s)"

definition drain_memory_pressure_events ::
  "u64 \<Rightarrow> pressure_level \<Rightarrow> (memory_pressure_level \<times> instant) list \<Rightarrow> behavior_state \<Rightarrow> behavior_state" where
  "drain_memory_pressure_events hs disk events s =
     foldl (\<lambda>s (mem, now). fst (update_behavior_mode hs mem disk ''memory_pressure'' now s)) s events"

subsection \<open>Hysteresis over a run\<close>

fun behavior_run ::
  "duration \<Rightarrow> (memory_pressure_level \<times> pressure_level \<times> instant) list \<Rightarrow> behavior_state \<Rightarrow>
     (instant \<times> behavior_update) list" where
  "behavior_run h [] s = []"
| "behavior_run h ((mem, disk, now) # xs) s =
     (let (s1, u) = update_with_hysteresis mem disk now h s in (now, u) # behavior_run h xs s1)"

definition applied_in :: "direction \<Rightarrow> behavior_update \<Rightarrow> bool" where
  "applied_in dir u = (case u of Applied t \<Rightarrow>
     transition_direction (from_memory t) (to_memory t) (from_disk t) (to_disk t) = Some dir | _ \<Rightarrow> False)"

lemma last_transition_record [simp]:
  "last_transition d (record_transition_direction e now s) = (if d = e then Some now else last_transition d s)"
  by (cases d; cases e) simp_all

lemma last_transition_fields [simp]:
  "last_transition d (s\<lparr>pending_target := x\<rparr>) = last_transition d s"
  "last_transition d (s\<lparr>memory_level := m, disk_level := k, current_mode := n\<rparr>) = last_transition d s"
  "memory_level (record_transition_direction e now s) = memory_level s"
  by (cases d; cases e; simp)+

lemma update_last_transition:
  assumes "update_with_hysteresis mem disk now h s = (s1, u)"
  shows "last_transition d s1 = (if applied_in d u then Some now else last_transition d s)"
    and "applied_in d u \<Longrightarrow> last_transition d s = Some prev \<Longrightarrow> prev + h \<le> now \<or> h = 0"
  using assms
  by (auto simp: update_with_hysteresis_def apply_behavior_transition_def applied_in_def Let_def
      hysteresis_remaining_def elapsed_def split: if_splits option.splits)

lemma behavior_run_after:
  assumes "last_transition d s = Some prev" "0 < h" "(t, u) \<in> set (behavior_run h xs s)" "applied_in d u"
  shows "prev + h \<le> t"
  using assms
proof (induction xs arbitrary: s prev)
  case (Cons x xs)
  obtain mem disk now where x: "x = (mem, disk, now)" by (cases x)
  obtain s1 u1 where u: "update_with_hysteresis mem disk now h s = (s1, u1)" by fastforce
  note last = update_last_transition [OF u, of d]
  from Cons.prems(3) consider "(t, u) = (now, u1)" | "(t, u) \<in> set (behavior_run h xs s1)"
    by (auto simp: x u)
  then show ?case
  proof cases
    case 1
    then show ?thesis using last(2) Cons.prems by auto
  next
    case 2
    show ?thesis
    proof (cases "applied_in d u1")
      case True
      then have "prev + h \<le> now" using last(2) Cons.prems by auto
      then show ?thesis using Cons.IH [of s1 now] 2 True last(1) Cons.prems by auto
    next
      case False
      then show ?thesis using Cons.IH [of s1 prev] 2 last(1) Cons.prems by auto
    qed
  qed
qed simp

text \<open>In every sequence of updates of the behavior mode, from any state and whatever the clock
  does, two applied transitions in the same direction are at least the configured interval apart:
  the mode cannot be escalated, or relaxed, twice within it.\<close>

lemma transitions_spaced:
  assumes "0 < h"
  shows "sorted_wrt (\<lambda>x y. \<not> (applied_in d (snd x) \<and> applied_in d (snd y)) \<or> fst x + h \<le> fst y) (behavior_run h xs s)"
proof (induction xs arbitrary: s)
  case (Cons x xs)
  obtain mem disk now where x: "x = (mem, disk, now)" by (cases x)
  obtain s1 u1 where u: "update_with_hysteresis mem disk now h s = (s1, u1)" by fastforce
  have "applied_in d u1 \<Longrightarrow> last_transition d s1 = Some now"
    using update_last_transition(1) [OF u, of d] by simp
  then show ?case
    using Cons.IH [of s1] behavior_run_after [OF _ assms] by (fastforce simp: x u)
qed simp

lemma transitions_example:
  "sorted_wrt (\<lambda>x y. \<not> (applied_in Escalating (snd x) \<and> applied_in Escalating (snd y)) \<or> fst x + 5 \<le> fst y)
     (behavior_run 5 [(MemNormal, Yellow, 1), (MemNormal, Red, 3), (MemNormal, Red, 6)] (behavior_new MemNormal Green))
   \<and> map (\<lambda>x. applied_in Escalating (snd x))
      (behavior_run 5 [(MemNormal, Yellow, 1), (MemNormal, Red, 3), (MemNormal, Red, 6)] (behavior_new MemNormal Green))
     = [True, False, True]"
proof -
  have "map (\<lambda>x. applied_in Escalating (snd x))
      (behavior_run 5 [(MemNormal, Yellow, 1), (MemNormal, Red, 3), (MemNormal, Red, 6)] (behavior_new MemNormal Green))
     = [True, False, True]" by code_simp
  moreover have "0 < (5::nat)" by simp
  ultimately show ?thesis by (intro conjI transitions_spaced)
qed

subsection \<open>A deferred memory event is lost\<close>

text \<open>C40: when hysteresis defers a memory pressure event, the next disk tick at an
  unchanged disk level finds nothing to do: it drops the pending target and keeps the old mode, however
  long after the interval it comes, until the system reports a new event.\<close>

theorem deferred_memory_event_lost:
  assumes "behavior_wf s" "memory_level s \<noteq> mem"
    and "update_behavior_mode hs mem (disk_level s) ''memory_pressure'' now s = (s1, Deferred dir remaining, e)"
  shows "memory_level s1 = memory_level s \<and> current_mode s1 = current_mode s
    \<and> disk_tick hs (disk_level s) later s1 = s1\<lparr>pending_target := None\<rparr>
    \<and> snd (update_behavior_mode hs (memory_level s1) (disk_level s) ''disk_pressure'' later s1) = (Unchanged, False)"
proof -
  have "memory_level s1 = memory_level s \<and> disk_level s1 = disk_level s \<and> current_mode s1 = current_mode s
      \<and> behavior_table s1 = behavior_table s"
    using assms(3) by (auto simp: update_behavior_mode_def update_with_hysteresis_def apply_behavior_transition_def
        Let_def split: if_splits option.splits prod.splits)
  then show ?thesis using assms(1)
    by (simp add: disk_tick_def update_behavior_mode_def update_with_hysteresis_def behavior_wf_def)
qed

definition demo_behavior :: behavior_state where
  "demo_behavior = (behavior_new MemNormal Yellow)\<lparr>last_escalation_at := Some (secs 100)\<rparr>"

lemma deferred_memory_event_lost_witness:
  "disk_tick 5 Yellow (secs 200) (fst (update_behavior_mode 5 MemCritical Yellow ''memory_pressure'' (secs 101) demo_behavior))
     = demo_behavior"
proof -
  have e: "update_behavior_mode 5 MemCritical Yellow ''memory_pressure'' (secs 101) demo_behavior
      = (demo_behavior\<lparr>pending_target := Some \<lparr>pending_memory = MemCritical, pending_disk = Yellow,
           pending_mode = mode_for default_behavior_cells MemCritical Yellow\<rparr>\<rparr>, Deferred Escalating (secs 4), False)"
    by (simp add: update_behavior_mode_def update_with_hysteresis_def transition_direction_def demo_behavior_def
        behavior_new_def hysteresis_remaining_def elapsed_def secs_def Let_def)
  note e
  moreover have "behavior_wf demo_behavior" "memory_level demo_behavior \<noteq> MemCritical" "disk_level demo_behavior = Yellow"
    by (simp_all add: demo_behavior_def behavior_wf_def behavior_new_def)
  ultimately have "disk_tick 5 Yellow (secs 200) (fst (update_behavior_mode 5 MemCritical Yellow ''memory_pressure'' (secs 101) demo_behavior))
      = (fst (update_behavior_mode 5 MemCritical Yellow ''memory_pressure'' (secs 101) demo_behavior))\<lparr>pending_target := None\<rparr>"
    using deferred_memory_event_lost [of demo_behavior MemCritical 5 "secs 101" _ Escalating "secs 4" False "secs 200"]
    by (metis fst_conv)
  then show ?thesis using e by (simp add: demo_behavior_def behavior_new_def)
qed

end
