(* ===== verification/Ewma.thy ===== *)
theory Ewma
  imports F64 Ranking
begin

section \<open>The rate estimator (src/src/monitor/ewma.rs)\<close>

text \<open>
  Velocity and acceleration of the disk usage as exponentially weighted averages in double
  precision, the burst detector over the last rates, the projection of the time to exhaustion and
  the confidence in it. An update returns \<open>None\<close> where \<open>f64::clamp\<close> panics. Clock readings are
  arguments.
\<close>

datatype trend = Stable | Accelerating | Decelerating | Recovering

record burst_state =
  burst_probability :: f64
  median_rate :: f64
  bs_duration_samples :: u32
  calibrated :: bool
  mad_rate :: f64
  robust_upper_bound :: f64

definition burst_state_default :: burst_state where
  "burst_state_default = \<lparr>burst_probability = 0, median_rate = 0, bs_duration_samples = 0,
     calibrated = False, mad_rate = 0, robust_upper_bound = FInf False\<rparr>"

definition is_burst_outlier :: "burst_state \<Rightarrow> f64 \<Rightarrow> bool" where
  "is_burst_outlier b rate = (calibrated b \<and> robust_upper_bound b < f_abs rate)"

record rate_estimate =
  bytes_per_second :: f64
  acceleration :: f64
  seconds_to_exhaustion :: f64
  seconds_to_threshold :: f64
  sample_count :: u64
  estimate_confidence :: f64
  estimate_trend :: trend
  alpha_used :: f64
  estimate_fallback :: bool
  estimate_burst :: burst_state

record sample_state =
  sample_free_bytes :: u64
  sample_at :: instant
  sample_inst_rate :: f64

definition default_rate_history_cap :: nat where
  "default_rate_history_cap = 200"

definition burst_calibration_min :: nat where
  "burst_calibration_min = 30"

record rate_estimator =
  base_alpha :: f64
  min_alpha :: f64
  max_alpha :: f64
  ewma_rate :: f64
  ewma_accel :: f64
  residual_ewma :: f64
  prediction_jitter_ewma :: f64
  last_predicted_secs :: "f64 option"
  min_samples :: u64
  samples :: u64
  last_sample :: "sample_state option"
  rate_history :: "f64 list"
  rate_history_cap :: nat
  burst_duration_samples :: u32

definition with_history_cap :: "f64 \<Rightarrow> f64 \<Rightarrow> f64 \<Rightarrow> u64 \<Rightarrow> nat \<Rightarrow> rate_estimator" where
  "with_history_cap base mn mx minsamp cap =
     \<lparr>base_alpha = base, min_alpha = mn, max_alpha = mx, ewma_rate = 0, ewma_accel = 0,
      residual_ewma = 0, prediction_jitter_ewma = 0, last_predicted_secs = None, min_samples = minsamp,
      samples = 0, last_sample = None, rate_history = [], rate_history_cap = max cap 1,
      burst_duration_samples = 0\<rparr>"

definition estimator_new :: "f64 \<Rightarrow> f64 \<Rightarrow> f64 \<Rightarrow> u64 \<Rightarrow> rate_estimator" where
  "estimator_new base mn mx minsamp = with_history_cap base mn mx minsamp default_rate_history_cap"

definition update_params :: "f64 \<Rightarrow> f64 \<Rightarrow> f64 \<Rightarrow> u64 \<Rightarrow> rate_estimator \<Rightarrow> rate_estimator" where
  "update_params base mn mx minsamp e =
     e\<lparr>base_alpha := base, min_alpha := mn, max_alpha := mx, min_samples := minsamp\<rparr>"

definition ewma :: "f64 \<Rightarrow> f64 \<Rightarrow> f64 \<Rightarrow> f64" where
  "ewma alpha prev current = f_mul_add alpha current ((lit 1 - alpha) * prev)"

definition classify_trend :: "f64 \<Rightarrow> f64 \<Rightarrow> trend" where
  "classify_trend rate accel =
     (if rate < - lit 1 then Recovering
      else if lit 64 < accel then Accelerating
      else if accel < - lit 64 then Decelerating else Stable)"

definition project_time :: "f64 \<Rightarrow> f64 \<Rightarrow> f64 \<Rightarrow> f64" where
  "project_time rate accel distance =
     (if distance \<le> 0 then 0
      else if rate \<le> 0 then FInf False
      else if f_abs accel < lit (1 / 10 ^ 9) then distance / rate
      else let discriminant = f_mul_add rate rate (lit 2 * accel * distance) in
        if discriminant < 0 then FInf False
        else let root = f_sqrt discriminant;
                 settle = (\<lambda>t. if accel < 0 \<and> (- rate) / accel < t then FInf False
                    else if f_is_finite t \<and> 0 < t then t else distance / rate)
             in if accel < 0
                then let denom = rate + root in
                  if f_abs denom < f64_epsilon then FInf False else settle (lit 2 * distance / denom)
                else settle ((- rate + root) / accel))"

definition compute_confidence :: "rate_estimator \<Rightarrow> f64" where
  "compute_confidence e =
     (if samples e = 0 then 0
      else let sample_term = f_min (f_of_word (samples e) / f_of_word (max (min_samples e) 1)) (lit 1);
               residual_term = lit 1 / (lit 1 + residual_ewma e / (f_abs (ewma_rate e) + lit 1));
               stability_term = lit 1 / f_mul_add (lit 3) (prediction_jitter_ewma e) (lit 1)
           in f_clamp (f_mul_add (lit (3/10)) stability_term
                (f_mul_add (lit (2/10)) residual_term (lit (5/10) * sample_term))) 0 (lit 1))"

definition fallback_estimate :: "rate_estimator \<Rightarrow> u64 \<Rightarrow> u64 \<Rightarrow> rate_estimate" where
  "fallback_estimate e free threshold =
     (let distance = sat_sub free threshold in
      \<lparr>bytes_per_second = ewma_rate e, acceleration = ewma_accel e,
       seconds_to_exhaustion = (if 0 < ewma_rate e then f_of_word free / ewma_rate e else FInf False),
       seconds_to_threshold = (if 0 < ewma_rate e then f_of_word distance / ewma_rate e else FInf False),
       sample_count = samples e, estimate_confidence = compute_confidence e,
       estimate_trend = classify_trend (ewma_rate e) (ewma_accel e), alpha_used = base_alpha e,
       estimate_fallback = True, estimate_burst = burst_state_default\<rparr>)"

definition sorted_median :: "f64 list \<Rightarrow> f64" where
  "sorted_median xs = (if even (length xs)
     then let mid = length xs div 2 in f_midpoint (xs ! (mid - 1)) (xs ! mid)
     else xs ! (length xs div 2))"

definition compute_burst_state :: "f64 \<Rightarrow> rate_estimator \<Rightarrow> rate_estimator \<times> burst_state" where
  "compute_burst_state latest e =
     (if length (rate_history e) < burst_calibration_min \<or> rate_history e = []
      then (e\<lparr>burst_duration_samples := 0\<rparr>, burst_state_default)
      else let rates = sort_by (<) (map f_abs (rate_history e));
               median = sorted_median rates;
               deviations = sort_by (<) (map (\<lambda>r. f_abs (r - median)) rates);
               mad = sorted_median deviations * lit (14826 / 10000);
               bound = f_mul_add (lit 3) mad median;
               threshold = median * lit 3;
               burst = (if lit 1 < threshold \<and> threshold < f_abs latest
                 then sat_add (burst_duration_samples e) 1 else 0);
               deviation_factor = (if lit 1 < median then f_max (f_abs latest / median - lit 1) 0 else 0);
               magnitude_weight = f_clamp (deviation_factor / lit 10) 0 (lit 1);
               duration_weight = f_min (f_of_word burst / lit 5) (lit 1);
               combined_weight = f_max magnitude_weight duration_weight;
               probability = f_clamp (deviation_factor * combined_weight / (deviation_factor + lit 1)) 0 (lit 1)
           in (e\<lparr>burst_duration_samples := burst\<rparr>,
               \<lparr>burst_probability = probability, median_rate = median, bs_duration_samples = burst,
                calibrated = True, mad_rate = mad, robust_upper_bound = bound\<rparr>))"

text \<open>The part of an update after the guards on the time step: \<open>dt\<close> is the step in seconds.\<close>

definition update_step :: "f64 \<Rightarrow> f64 \<Rightarrow> u64 \<Rightarrow> u64 \<Rightarrow> instant \<Rightarrow> f64 \<Rightarrow> rate_estimator \<Rightarrow> rate_estimator \<times> rate_estimate" where
  "update_step inst_rate dt free threshold now alpha e =
     (let rate = ewma alpha (ewma_rate e) inst_rate;
          accel = ewma alpha (ewma_accel e) ((rate - ewma_rate e) / dt);
          (e1, bs) = compute_burst_state inst_rate
            (e\<lparr>residual_ewma := ewma alpha (residual_ewma e) (f_abs (inst_rate - ewma_rate e)),
               ewma_rate := rate, ewma_accel := accel, samples := sat_add (samples e) 1,
               last_sample := Some \<lparr>sample_free_bytes = free, sample_at = now, sample_inst_rate = inst_rate\<rparr>,
               rate_history := window_push (rate_history_cap e) inst_rate (rate_history e)\<rparr>);
          exhaustion = project_time rate accel (f_of_word free);
          to_threshold = project_time rate accel (f_of_word (sat_sub free threshold));
          e2 = (if f_is_finite to_threshold
            then (case last_predicted_secs e1 of None \<Rightarrow> e1
                  | Some prev \<Rightarrow>
                    let change = f_abs (to_threshold - prev);
                        scale = f_max (f_max (f_abs to_threshold) (f_abs prev)) (lit 60)
                    in e1\<lparr>prediction_jitter_ewma := ewma alpha (prediction_jitter_ewma e1) (change / scale)\<rparr>)
                 \<lparr>last_predicted_secs := Some to_threshold\<rparr>
            else e1);
          conf = compute_confidence e2
      in (e2, \<lparr>bytes_per_second = ewma_rate e2, acceleration = ewma_accel e2,
            seconds_to_exhaustion = exhaustion, seconds_to_threshold = to_threshold,
            sample_count = samples e2, estimate_confidence = conf,
            estimate_trend = classify_trend rate accel, alpha_used = alpha,
            estimate_fallback = (samples e2 < min_samples e2 \<or> conf < lit (2/10)),
            estimate_burst = bs\<rparr>))"

definition estimator_update ::
  "u64 \<Rightarrow> instant \<Rightarrow> u64 \<Rightarrow> rate_estimator \<Rightarrow> (rate_estimator \<times> rate_estimate) option" where
  "estimator_update free now threshold e =
     (case last_sample e of
        None \<Rightarrow> Some (e\<lparr>last_sample := Some \<lparr>sample_free_bytes = free, sample_at = now, sample_inst_rate = 0\<rparr>\<rparr>,
                      fallback_estimate e free threshold)
      | Some previous \<Rightarrow>
        if now < sample_at previous then Some (e, fallback_estimate e free threshold)
        else let dt = as_secs_f64 (elapsed now (sample_at previous)) in
          if dt \<le> lit (1 / 10 ^ 6) then Some (e, fallback_estimate e free threshold)
          else let inst_rate = (f_of_word (sample_free_bytes previous) - f_of_word free) / dt;
                   burstiness = f_abs (inst_rate - ewma_rate e) / (f_abs (ewma_rate e) + lit 1);
                   damping = lit 1 / f_mul_add (lit 2) burstiness (lit 1)
               in (case clamp_checked (base_alpha e * damping) (min_alpha e) (max_alpha e) of
                     None \<Rightarrow> None
                   | Some alpha \<Rightarrow> Some (update_step inst_rate dt free threshold now alpha e)))"

end
