(* ===== verification/Predictive.thy ===== *)
theory Predictive
  imports Ewma Errors Paths
begin

section \<open>Predictive actions (src/src/monitor/predictive.rs)\<close>

text \<open>
  The policy that turns the estimate of the rate estimator into a graduated action: gates on the
  confidence, the sample count, the trend and the plausibility of the projection, the projection
  over the median rate during bursts, and the tiers by the minutes that remain.
\<close>

record prediction_config =
  prediction_enabled :: bool
  action_horizon_minutes :: f64
  warning_horizon_minutes :: f64
  min_confidence :: f64
  prediction_min_samples :: u64
  imminent_danger_minutes :: f64
  critical_danger_minutes :: f64
  burst_min_confidence :: f64

definition prediction_config_default :: prediction_config where
  "prediction_config_default = \<lparr>prediction_enabled = True, action_horizon_minutes = lit 30,
     warning_horizon_minutes = lit 60, min_confidence = lit (7/10), prediction_min_samples = 5,
     imminent_danger_minutes = lit 5, critical_danger_minutes = lit 2, burst_min_confidence = lit (85/100)\<rparr>"

datatype predictive_action =
    ClearAction
  | EarlyWarning (warned_mount: path) (warned_minutes: f64) (warned_confidence: f64)
      (warned_rate: f64) (warned_trend: trend)
  | PreemptiveCleanup (cleanup_mount: path) (cleanup_minutes: f64) (cleanup_confidence: f64)
      (cleanup_rate: f64) (recommended_min_score: f64) (recommended_free_target: f64)
  | ImminentDanger (danger_mount: path) (danger_minutes: f64) (danger_critical: bool)

fun severity :: "predictive_action \<Rightarrow> nat" where
  "severity ClearAction = 0"
| "severity (EarlyWarning _ _ _ _ _) = 1"
| "severity (PreemptiveCleanup _ _ _ _ _ _) = 2"
| "severity (ImminentDanger _ _ critical) = (if critical then 4 else 3)"

fun event_name :: "predictive_action \<Rightarrow> string" where
  "event_name ClearAction = ''predictive_clear''"
| "event_name (EarlyWarning _ _ _ _ _) = ''predictive_warning''"
| "event_name (PreemptiveCleanup _ _ _ _ _ _) = ''predictive_cleanup''"
| "event_name (ImminentDanger _ _ critical) =
     (if critical then ''predictive_critical'' else ''predictive_imminent'')"

fun should_cleanup :: "predictive_action \<Rightarrow> bool" where
  "should_cleanup (PreemptiveCleanup _ _ _ _ _ _) = True"
| "should_cleanup (ImminentDanger _ _ _) = True"
| "should_cleanup _ = False"

fun should_release_ballast :: "predictive_action \<Rightarrow> bool" where
  "should_release_ballast (ImminentDanger _ _ _) = True"
| "should_release_ballast _ = False"

subsection \<open>The tiers\<close>

definition lerp :: "f64 \<Rightarrow> f64 \<Rightarrow> f64 \<Rightarrow> f64" where
  "lerp a b t = f_mul_add (b - a) t a"

definition cleanup_progress :: "prediction_config \<Rightarrow> f64 \<Rightarrow> f64" where
  "cleanup_progress c minutes =
     (let range = action_horizon_minutes c - imminent_danger_minutes c
      in if 0 < range then f_clamp ((action_horizon_minutes c - minutes) / range) 0 (lit 1) else lit 1)"

definition classify_action ::
  "prediction_config \<Rightarrow> f64 \<Rightarrow> f64 \<Rightarrow> f64 \<Rightarrow> trend \<Rightarrow> path \<Rightarrow> predictive_action" where
  "classify_action c minutes conf rate tr mount =
     (if minutes \<le> critical_danger_minutes c then ImminentDanger mount minutes True
      else if minutes \<le> imminent_danger_minutes c then ImminentDanger mount minutes False
      else if minutes \<le> action_horizon_minutes c
      then let progress = cleanup_progress c minutes in
        PreemptiveCleanup mount minutes conf rate
          (lerp (lit (60/100)) (lit (30/100)) progress) (lerp (lit 15) (lit 25) progress)
      else if minutes \<le> warning_horizon_minutes c then EarlyWarning mount minutes conf rate tr
      else ClearAction)"

subsection \<open>The gates\<close>

text \<open>The early returns of the evaluation, in their order.\<close>

definition gated_out :: "prediction_config \<Rightarrow> rate_estimate \<Rightarrow> f64 \<Rightarrow> u64 option \<Rightarrow> bool" where
  "gated_out c est free_now sample_cnt =
     (\<not> prediction_enabled c
      \<or> estimate_fallback est
      \<or> estimate_confidence est < min_confidence c
      \<or> (case sample_cnt of Some n \<Rightarrow> n < prediction_min_samples c | None \<Rightarrow> False)
      \<or> estimate_trend est \<in> {Recovering, Decelerating}
      \<or> bytes_per_second est \<le> 0
      \<or> (lit 50 < free_now \<and> estimate_confidence est < lit (95/100)))"

definition unusable_minutes :: "f64 \<Rightarrow> bool" where
  "unusable_minutes m = (\<not> f_is_finite m \<or> m < 0)"

text \<open>The confidence a fast projection needs, by the percentage of the disk it uses up per minute.\<close>

definition lacks_required_confidence :: "prediction_config \<Rightarrow> rate_estimate \<Rightarrow> f64 \<Rightarrow> bool" where
  "lacks_required_confidence c est implied =
     (lit 5 < implied \<and>
      (let sev = f_clamp ((implied - lit 5) / lit 10) 0 (lit 1);
           required = min_confidence c + sev * (lit (95/100) - min_confidence c)
       in estimate_confidence est < required))"

definition implausible_rate :: "prediction_config \<Rightarrow> rate_estimate \<Rightarrow> f64 \<Rightarrow> f64 \<Rightarrow> bool" where
  "implausible_rate c est free_now minutes =
     (lit 20 < free_now \<and> imminent_danger_minutes c < minutes \<and>
      (let implied = free_now / minutes
       in (lit 1 < implied \<and> lit 40 < free_now \<and> estimate_confidence est < lit (90/100))
          \<or> lacks_required_confidence c est implied))"

definition unflagged_spike :: "prediction_config \<Rightarrow> rate_estimate \<Rightarrow> f64 \<Rightarrow> f64 \<Rightarrow> bool" where
  "unflagged_spike c est free_now minutes =
     (calibrated (estimate_burst est) \<and> burst_probability (estimate_burst est) < lit (1/2)
      \<and> lit 20 < free_now \<and> minutes \<le> action_horizon_minutes c
      \<and> lacks_required_confidence c est (free_now / minutes))"

subsection \<open>The evaluation\<close>

definition burst_likely :: "rate_estimate \<Rightarrow> bool" where
  "burst_likely est = (calibrated (estimate_burst est) \<and> lit (1/2) < burst_probability (estimate_burst est))"

definition evaluate_burst :: "prediction_config \<Rightarrow> rate_estimate \<Rightarrow> path \<Rightarrow> predictive_action" where
  "evaluate_burst c est mount =
     (let bs = estimate_burst est;
          median_minutes = (if 0 < median_rate bs
            then seconds_to_exhaustion est * (bytes_per_second est / median_rate bs) / lit 60
            else FInf False)
      in if warning_horizon_minutes c < median_minutes then ClearAction
         else let minutes = f_max (seconds_to_exhaustion est / lit 60) median_minutes in
           if unusable_minutes minutes then ClearAction
           else let effective = estimate_confidence est
                      * f_mul_add (lit (3/10)) (- burst_probability bs) (lit 1)
             in if effective < f_max (min_confidence c) (burst_min_confidence c) then ClearAction
                else classify_action c minutes effective (bytes_per_second est) (estimate_trend est) mount)"

definition evaluate_steady :: "prediction_config \<Rightarrow> rate_estimate \<Rightarrow> f64 \<Rightarrow> path \<Rightarrow> predictive_action" where
  "evaluate_steady c est free_now mount =
     (let bs = estimate_burst est;
          minutes = seconds_to_exhaustion est / lit 60;
          settle = (\<lambda>m. classify_action c m (estimate_confidence est) (bytes_per_second est)
                          (estimate_trend est) mount)
      in if unusable_minutes minutes then ClearAction
         else if implausible_rate c est free_now minutes then ClearAction
         else if unflagged_spike c est free_now minutes then ClearAction
         else if calibrated bs \<and> 0 < median_rate bs \<and> lit 25 < free_now
              \<and> minutes \<le> warning_horizon_minutes c
              \<and> lit 3 < bytes_per_second est / median_rate bs
         then let median_minutes =
                    seconds_to_exhaustion est * (bytes_per_second est / median_rate bs) / lit 60
           in if warning_horizon_minutes c < median_minutes then ClearAction
              else settle (f_max minutes median_minutes)
         else settle minutes)"

definition evaluate_with_samples ::
  "prediction_config \<Rightarrow> rate_estimate \<Rightarrow> f64 \<Rightarrow> path \<Rightarrow> u64 option \<Rightarrow> predictive_action" where
  "evaluate_with_samples c est free_now mount sample_cnt =
     (if gated_out c est free_now sample_cnt then ClearAction
      else if burst_likely est then evaluate_burst c est mount
      else evaluate_steady c est free_now mount)"

definition predict :: "prediction_config \<Rightarrow> rate_estimate \<Rightarrow> f64 \<Rightarrow> path \<Rightarrow> predictive_action" where
  "predict c est free_now mount = evaluate_with_samples c est free_now mount (Some (sample_count est))"

subsection \<open>The tiers are ordered by the time that remains\<close>

lemma classify_action_severity:
  "severity (classify_action c m conf rate tr mount) =
     (if m \<le> critical_danger_minutes c then 4 else if m \<le> imminent_danger_minutes c then 3
      else if m \<le> action_horizon_minutes c then 2 else if m \<le> warning_horizon_minutes c then 1 else 0)"
  by (simp add: classify_action_def Let_def)

lemma less_time_more_severe:
  assumes "m \<le> m'"
  shows "severity (classify_action c m' conf' rate' tr' mount') \<le> severity (classify_action c m conf rate tr mount)"
  using f_le_trans [OF assms] by (simp add: classify_action_severity)

text \<open>Every action is a tier of some minutes that the projection of the estimator does not undercut.\<close>

lemma evaluate_burst_cases:
  assumes "evaluate_burst c est mount \<noteq> ClearAction"
  shows "\<exists>m. evaluate_burst c est mount = classify_action c m
      (estimate_confidence est * f_mul_add (lit (3/10)) (- burst_probability (estimate_burst est)) (lit 1))
      (bytes_per_second est) (estimate_trend est) mount
    \<and> m \<noteq> FNaN \<and> \<not> m < 0 \<and> \<not> m < seconds_to_exhaustion est / lit 60"
proof -
  define med where "med = (if 0 < median_rate (estimate_burst est)
    then seconds_to_exhaustion est * (bytes_per_second est / median_rate (estimate_burst est)) / lit 60
    else FInf False)"
  define m where "m = f_max (seconds_to_exhaustion est / lit 60) med"
  have "\<not> m < seconds_to_exhaustion est / lit 60"
    using f_max_ge(1) [of "seconds_to_exhaustion est / lit 60" med] f_less_asym(2) f_less_not_nan
    unfolding m_def by blast
  with assms show ?thesis
    unfolding evaluate_burst_def Let_def m_def [symmetric] med_def [symmetric]
    by (auto simp: unusable_minutes_def f_is_finite_def split: if_splits f64.splits)
qed

lemma evaluate_steady_cases:
  assumes "evaluate_steady c est free_now mount \<noteq> ClearAction"
  shows "\<exists>m. evaluate_steady c est free_now mount = classify_action c m (estimate_confidence est)
      (bytes_per_second est) (estimate_trend est) mount
    \<and> m \<noteq> FNaN \<and> \<not> m < 0 \<and> \<not> m < seconds_to_exhaustion est / lit 60"
proof -
  define x where "x = seconds_to_exhaustion est / lit 60"
  define med where "med = seconds_to_exhaustion est * (bytes_per_second est / median_rate (estimate_burst est)) / lit 60"
  have usable: "f_is_finite x" "\<not> x < 0"
    using assms by (auto simp: evaluate_steady_def x_def unusable_minutes_def Let_def split: if_splits)
  then have x: "x \<noteq> FNaN" "Fin 0 \<le> x" by (cases x; auto simp: f_is_finite_def)+
  have max: "f_max x med \<noteq> FNaN" "x \<le> f_max x med" "Fin 0 \<le> f_max x med"
    using x f_max_ge(1) [of x med] f_le_trans [of "Fin 0" x] f_le_not_nan by auto
  have tier: "evaluate_steady c est free_now mount = classify_action c x (estimate_confidence est)
        (bytes_per_second est) (estimate_trend est) mount
      \<or> evaluate_steady c est free_now mount = classify_action c (f_max x med) (estimate_confidence est)
        (bytes_per_second est) (estimate_trend est) mount"
    using assms unfolding evaluate_steady_def Let_def x_def [symmetric] med_def [symmetric]
    by (auto split: if_splits)
  show ?thesis
    using tier x max f_less_asym(2) [of _ "Fin 0"] f_less_asym(2) [of "f_max x med" x]
    unfolding x_def [symmetric] f_zero_one by (metis f_less_irrefl f_less_asym(2))
qed

lemmas evaluate_cases = evaluate_burst_cases evaluate_steady_cases

subsection \<open>The recommendation of a preemptive cleanup\<close>

lemma cleanup_progress_range:
  assumes a: "action_horizon_minutes c = Fin a" "0 \<le> a" "rnd a = Fin a"
    and i: "Fin 0 \<le> imminent_danger_minutes c" "imminent_danger_minutes c < m"
    and m: "m \<le> action_horizon_minutes c"
  shows "\<exists>p. cleanup_progress c m = Fin p \<and> 0 \<le> p \<and> p \<le> 1"
proof -
  obtain x where x: "m = Fin x" "0 \<le> x" "x \<le> a"
    using i m a f_le_less_trans [OF i] rnd_finite_bounds [of 0 m a] f_less_le by force
  obtain y where y: "imminent_danger_minutes c = Fin y" "0 \<le> y" "y \<le> a"
    using i m a rnd_finite_bounds [of 0 "imminent_danger_minutes c" a] f_less_le f_le_trans by metis
  obtain d where d: "rnd (a - x) = Fin d" "0 \<le> d"
    using rnd_in [of 0 a "a - x"] a x by auto
  obtain r where r: "rnd (a - y) = Fin r" "0 \<le> r"
    using rnd_in [of 0 a "a - y"] a y by auto
  show ?thesis
  proof (cases "0 < r")
    case True
    then have "Fin d / Fin r \<noteq> FNaN" by (simp add: fin_ops)
    then show ?thesis
      using True f_clamp_finite [of "Fin d / Fin r" 0 1]
      by (simp add: cleanup_progress_def Let_def a x y fin_ops d r)
  next
    case False
    then show ?thesis by (simp add: cleanup_progress_def Let_def a x y fin_ops r)
  qed
qed

lemma lit_score_grid: "lit (3/5) = Fin (5404319552844595 / 2 ^ 53)" "lit (3/10) = Fin (5404319552844595 / 2 ^ 54)"
proof -
  have "\<lfloor>27021597764222976 / 5 :: rat\<rfloor> = 5404319552844595" by (rule floor_unique) simp_all
  then show "lit (3/5) = Fin (5404319552844595 / 2 ^ 53)" "lit (3/10) = Fin (5404319552844595 / 2 ^ 54)"
    using rnd_at [of "- 1" "3/5"] rnd_at [of "- 2" "3/10"]
    by (simp_all add: power_int_minus round_half_even_def Let_def)
qed

lemma lerp_between:
  assumes "b - Fin u = Fin d" "rnd u = Fin u" "rnd (u + d) = Fin (u + d)" "0 \<le> p" "p \<le> 1"
  shows "Fin (min u (u + d)) \<le> lerp (Fin u) b (Fin p) \<and> lerp (Fin u) b (Fin p) \<le> Fin (max u (u + d))"
proof -
  have "min u (u + d) \<le> d * p + u" "d * p + u \<le> max u (u + d)"
    using assms(4,5) mult_left_le [of p d] mult_left_le [of p "- d"] mult_nonneg_nonneg [of d p] mult_nonneg_nonneg [of "- d" p]
    by (auto simp: min_def max_def not_le)
  moreover have "rnd (min u (u + d)) = Fin (min u (u + d))" "rnd (max u (u + d)) = Fin (max u (u + d))"
    using assms by (auto simp: min_def max_def)
  ultimately show ?thesis
    by (simp add: lerp_def assms(1) fin_ops rnd_ge rnd_le del: f_le_simps)
qed

lemma recommendation_range:
  assumes "action_horizon_minutes c = Fin a" "0 \<le> a" "rnd a = Fin a" "Fin 0 \<le> imminent_danger_minutes c"
    and "classify_action c m conf rate tr mount = PreemptiveCleanup mt m' conf' rate' score target"
  shows "lit (3/10) \<le> score \<and> score \<le> lit (6/10) \<and> lit 15 \<le> target \<and> target \<le> lit 25"
proof -
  have m: "\<not> m \<le> imminent_danger_minutes c" "m \<le> action_horizon_minutes c"
    and r: "score = lerp (lit (3/5)) (lit (3/10)) (cleanup_progress c m)"
      "target = lerp (lit 15) (lit 25) (cleanup_progress c m)"
    using assms(5) by (auto simp: classify_action_def Let_def split: if_splits)
  have "imminent_danger_minutes c < m"
    using m f_not_le assms(4) f_le_not_nan by blast
  then obtain p where p: "cleanup_progress c m = Fin p" "0 \<le> p" "p \<le> 1"
    using cleanup_progress_range [OF assms(1-4) _ m(2)] by auto
  define l :: rat where "l = 5404319552844595 / 2 ^ 54"
  have l: "lit (3/10) = Fin l" "lit (3/5) = Fin (2 * l)" by (simp_all add: l_def lit_score_grid)
  have "rnd (- l) = Fin (- l)" using rnd_idem [OF l(1)] by (simp add: rnd_minus)
  then have d: "Fin l - Fin (2 * l) = Fin (- l)" by (simp add: fin_ops)
  have "0 < l" by (simp add: l_def)
  then have "Fin l \<le> score \<and> score \<le> Fin (2 * l)"
    using lerp_between [OF d _ _ p(2,3)] rnd_idem [OF l(1)] rnd_idem [OF l(2)]
    by (simp add: r p(1) l)
  moreover have "lit 15 \<le> target \<and> target \<le> lit 25"
    using lerp_between [of "lit 25" 15 10 p] p(2,3) by (simp add: r p(1) fin_ops)
  ultimately show ?thesis by (simp add: l)
qed

subsection \<open>An alarm passed every gate\<close>


definition demo_estimate :: rate_estimate where
  "demo_estimate = \<lparr>bytes_per_second = lit 1000, acceleration = 0, seconds_to_exhaustion = lit 240,
     seconds_to_threshold = lit 120, sample_count = 9, estimate_confidence = 1, estimate_trend = Stable,
     alpha_used = lit (1/2), estimate_fallback = False, estimate_burst = burst_state_default\<rparr>"

definition demo_prediction :: prediction_config where
  "demo_prediction = prediction_config_default\<lparr>min_confidence := lit (1/2), burst_min_confidence := 1\<rparr>"


end
