(* ===== verification/Config.thy ===== *)
theory Config
  imports Predictive Voi Ballast Policy Protection "HOL-Library.AList"
begin

section \<open>Configuration (src/src/core/config.rs)\<close>

text \<open>
  The sections of the configuration that the model reads, their defaults, and the validation that
  every loaded configuration has passed. Reading the TOML file is serde's; the defaults that depend on
  the host (its parallelism, the XDG directories) and the text of a float in an error message
  are arguments.
\<close>

subsection \<open>Scanner selectors\<close>

datatype scanner_engine_mode = V1 | V2

fun show_engine_mode :: "scanner_engine_mode \<Rightarrow> string" where
  "show_engine_mode V1 = ''v1''"
| "show_engine_mode V2 = ''v2''"

definition parse_engine_mode :: "string \<Rightarrow> string + scanner_engine_mode" where
  "parse_engine_mode s =
     (let t = map ascii_lower (trim s) in
      if t = ''v1'' then Inr V1 else if t = ''v2'' then Inr V2
      else Inl (''invalid scanner engine '' @ str_debug t @ '': expected \"v1\" or \"v2\"''))"

datatype event_source_mode = AutoSource | ReconciliationOnly

fun show_event_source :: "event_source_mode \<Rightarrow> string" where
  "show_event_source AutoSource = ''auto''"
| "show_event_source ReconciliationOnly = ''reconciliation-only''"

definition parse_event_source :: "string \<Rightarrow> string + event_source_mode" where
  "parse_event_source s =
     (let t = map ascii_lower (trim s) in
      if t = ''auto'' then Inr AutoSource
      else if t = ''reconciliation-only'' \<or> t = ''reconciliation_only'' then Inr ReconciliationOnly
      else Inl (''invalid scanner event source '' @ str_debug t @ '': expected \"auto\" or \"reconciliation-only\"''))"

datatype dashboard_mode = LegacyDashboard | NewDashboard

fun show_dashboard_mode :: "dashboard_mode \<Rightarrow> string" where
  "show_dashboard_mode LegacyDashboard = ''legacy''"
| "show_dashboard_mode NewDashboard = ''new''"

definition parse_dashboard_mode :: "string \<Rightarrow> string + dashboard_mode" where
  "parse_dashboard_mode s =
     (let t = map ascii_lower (trim s) in
      if t = ''legacy'' then Inr LegacyDashboard else if t = ''new'' then Inr NewDashboard
      else Inl (''invalid dashboard mode '' @ str_debug t @ '': expected \"legacy\" or \"new\"''))"

text \<open>Every selector reads back from its own text.\<close>

lemma selectors_roundtrip:
  "parse_engine_mode (show_engine_mode e) = Inr e"
  "parse_event_source (show_event_source v) = Inr v"
  "parse_dashboard_mode (show_dashboard_mode d) = Inr d"
  by (cases e, simp_all add: parse_engine_mode_def trim_def ascii_space_def ascii_lower_def)
    (cases v, simp_all add: parse_event_source_def trim_def ascii_space_def ascii_lower_def,
     cases d, simp_all add: parse_dashboard_mode_def trim_def ascii_space_def ascii_lower_def)

subsection \<open>Sections\<close>

record pressure_config =
  cfg_green_min :: f64
  cfg_yellow_min :: f64
  cfg_orange_min :: f64
  cfg_red_min :: f64
  poll_interval_ms :: u64
  behavior_hysteresis_secs :: u64
  prediction :: prediction_config

definition pressure_config_default :: pressure_config where
  "pressure_config_default = \<lparr>cfg_green_min = lit 20, cfg_yellow_min = lit 14, cfg_orange_min = lit 10,
     cfg_red_min = lit 6, poll_interval_ms = 5000, behavior_hysteresis_secs = 5,
     prediction = prediction_config_default\<rparr>"

record log_truncation_config =
  truncation_enabled :: bool
  truncation_paths :: "string list"
  truncation_min_size :: u64
  pressure_free_pct_ceiling :: u8
  truncation_min_age_minutes :: u64

definition log_truncation_default :: log_truncation_config where
  "log_truncation_default = \<lparr>truncation_enabled = False,
     truncation_paths = [''/home/*/.codex/log/codex-tui.log'', ''/root/.codex/log/codex-tui.log'',
       ''/home/*/.codex/log/*.log''],
     truncation_min_size = 1073741824, pressure_free_pct_ceiling = 15, truncation_min_age_minutes = 60\<rparr>"

record scanner_config =
  engine_mode :: scanner_engine_mode
  event_source :: event_source_mode
  event_watch_budget :: usize
  root_paths :: "path list"
  excluded_paths :: "path list"
  cfg_protected_paths :: "string list"
  min_file_age_minutes :: u64
  max_depth :: usize
  parallelism :: usize
  follow_symlinks :: bool
  cross_devices :: bool
  cfg_dry_run :: bool
  cfg_max_delete_batch :: usize
  repeat_base_cooldown_secs :: u64
  repeat_max_cooldown_secs :: u64
  min_rescan_interval_secs :: u64
  scan_time_budget_secs :: u64
  active_reference_cache_ttl_secs :: u64
  active_reference_min_size_bytes :: u64
  log_truncation :: log_truncation_config

text \<open>The parallelism is half of what the host offers, at least one; two where the host does not say.\<close>

definition default_parallelism :: "usize option \<Rightarrow> usize" where
  "default_parallelism available = (case available of Some n \<Rightarrow> max (n div 2) 1 | None \<Rightarrow> 2)"

definition scanner_config_default :: "usize option \<Rightarrow> scanner_config" where
  "scanner_config_default available = \<lparr>engine_mode = V2, event_source = AutoSource, event_watch_budget = 8192,
     root_paths = [''/tmp'', ''/data/tmp'', ''/var/tmp''],
     excluded_paths = [''/'', ''/boot'', ''/etc'', ''/usr'', ''/bin'', ''/sbin'', ''/proc'', ''/sys'', ''/var/log''],
     cfg_protected_paths = [], min_file_age_minutes = 5, max_depth = 10,
     parallelism = default_parallelism available, follow_symlinks = False, cross_devices = False,
     cfg_dry_run = False, cfg_max_delete_batch = 20, repeat_base_cooldown_secs = 300,
     repeat_max_cooldown_secs = 3600, min_rescan_interval_secs = 90, scan_time_budget_secs = 900,
     active_reference_cache_ttl_secs = 30, active_reference_min_size_bytes = 100 * 1024 * 1024,
     log_truncation = log_truncation_default\<rparr>"

record telemetry_config =
  fs_cache_ttl_ms :: u64
  ewma_base_alpha :: f64
  ewma_min_alpha :: f64
  ewma_max_alpha :: f64
  ewma_min_samples :: u64
  ewma_rate_history_size :: usize
  guardrail_window_size :: usize
  guardrail_min_observations :: usize
  daemon_rss_warning_bytes :: u64
  daemon_rss_hard_limit_bytes :: u64

definition telemetry_config_default :: telemetry_config where
  "telemetry_config_default = \<lparr>fs_cache_ttl_ms = 1000, ewma_base_alpha = lit (30/100),
     ewma_min_alpha = lit (10/100), ewma_max_alpha = lit (75/100), ewma_min_samples = 3,
     ewma_rate_history_size = 200, guardrail_window_size = 500, guardrail_min_observations = 60,
     daemon_rss_warning_bytes = 256 * 1024 * 1024, daemon_rss_hard_limit_bytes = 500 * 1024 * 1024\<rparr>"

record update_check_config =
  update_enabled :: bool
  metadata_cache_ttl_seconds :: u64
  metadata_cache_file :: path
  background_refresh :: bool
  notices_enabled :: bool

record system_tuning_config =
  writeback_enabled :: bool
  writeback_auto_apply :: bool
  writeback_target_drain_secs :: f64
  writeback_hard_ratio :: u64
  writeback_min_background_bytes :: u64
  writeback_max_background_bytes :: u64
  writeback_benchmark_enabled :: bool
  writeback_benchmark_bytes :: u64
  writeback_pool_warn_bytes :: u64
  writeback_sysctl_path :: path

definition system_tuning_default :: system_tuning_config where
  "system_tuning_default = \<lparr>writeback_enabled = True, writeback_auto_apply = True,
     writeback_target_drain_secs = lit 1, writeback_hard_ratio = 4,
     writeback_min_background_bytes = 256 * 1024 * 1024,
     writeback_max_background_bytes = 2 * 1024 * 1024 * 1024, writeback_benchmark_enabled = True,
     writeback_benchmark_bytes = 96 * 1024 * 1024, writeback_pool_warn_bytes = 4 * 1024 * 1024 * 1024,
     writeback_sysctl_path = ''/etc/sysctl.d/99-sbh-writeback.conf''\<rparr>"

text \<open>The paths, notifications and dashboard sections are not validated and are left out.\<close>

record config =
  pressure :: pressure_config
  scanner :: scanner_config
  scoring :: scoring_config
  ballast :: ballast_config
  scheduler :: voi_config
  update_section :: update_check_config
  telemetry :: telemetry_config
  policy_section :: policy_config
  system_tuning :: system_tuning_config

subsection \<open>Validation\<close>

text \<open>\<open>validate\<close> is a sequence of tests, each of which returns the error of its own; the first one
  that rejects decides. \<open>fmt\<close> is the text of a float.\<close>

fun first_error :: "sbh_error option list \<Rightarrow> sbh_error option" where
  "first_error [] = None"
| "first_error (None # xs) = first_error xs"
| "first_error (Some e # xs) = Some e"

definition reject :: "bool \<Rightarrow> string \<Rightarrow> sbh_error option" where
  "reject bad msg = (if bad then Some (InvalidConfig msg) else None)"

lemma first_error_none: "first_error xs = None \<longleftrightarrow> (\<forall>x \<in> set xs. x = None)"
  by (induction xs rule: first_error.induct) auto

lemma first_error_mem: "first_error xs = Some e \<Longrightarrow> Some e \<in> set xs"
  by (induction xs rule: first_error.induct) auto

lemma reject_none [simp]: "reject b d = None \<longleftrightarrow> \<not> b"
  by (simp add: reject_def)

definition validate_prob :: "(f64 \<Rightarrow> string) \<Rightarrow> string \<Rightarrow> f64 \<Rightarrow> sbh_error option" where
  "validate_prob fmt name v = reject (\<not> (0 \<le> v \<and> v \<le> 1)) (name @ '' must be in [0,1], got '' @ fmt v)"

definition validate_pressure :: "(f64 \<Rightarrow> string) \<Rightarrow> pressure_config \<Rightarrow> sbh_error option" where
  "validate_pressure fmt p = first_error (map (\<lambda>(name, v). reject (\<not> (0 \<le> v \<and> v \<le> lit 100))
        (''pressure.'' @ name @ '' must be in [0, 100], got '' @ fmt v))
      [(''green_min_free_pct'', cfg_green_min p), (''yellow_min_free_pct'', cfg_yellow_min p),
       (''orange_min_free_pct'', cfg_orange_min p), (''red_min_free_pct'', cfg_red_min p)]
    @ [reject (\<not> (cfg_green_min p > cfg_yellow_min p \<and> cfg_yellow_min p > cfg_orange_min p
         \<and> cfg_orange_min p > cfg_red_min p)) ''pressure thresholds must strictly descend: green > yellow > orange > red'',
       reject (poll_interval_ms p < 100)
         (''pressure.poll_interval_ms must be >= 100, got '' @ show_nat (unat (poll_interval_ms p)))])"

definition validate_prediction :: "(f64 \<Rightarrow> string) \<Rightarrow> prediction_config \<Rightarrow> sbh_error option" where
  "validate_prediction fmt p = (if \<not> prediction_enabled p then None else
     first_error (map (\<lambda>(name, v). reject (v \<le> 0) (''prediction.'' @ name @ '' must be > 0, got '' @ fmt v))
        [(''action_horizon_minutes'', action_horizon_minutes p),
         (''warning_horizon_minutes'', warning_horizon_minutes p),
         (''imminent_danger_minutes'', imminent_danger_minutes p)]
      @ [reject (warning_horizon_minutes p \<le> action_horizon_minutes p)
           ''prediction.warning_horizon_minutes must be > action_horizon_minutes'',
         reject (action_horizon_minutes p \<le> imminent_danger_minutes p)
           ''prediction.action_horizon_minutes must be > imminent_danger_minutes'',
         reject (imminent_danger_minutes p \<le> critical_danger_minutes p)
           ''prediction.imminent_danger_minutes must be > critical_danger_minutes'',
         reject (critical_danger_minutes p < 0) ''prediction.critical_danger_minutes must be >= 0'',
         validate_prob fmt ''prediction.min_confidence'' (min_confidence p)]))"

definition validate_scanner :: "scanner_config \<Rightarrow> sbh_error option" where
  "validate_scanner c = first_error
     [reject (parallelism c = 0) ''scanner.parallelism must be >= 1'',
      reject (max_depth c = 0) ''scanner.max_depth must be >= 1'',
      reject (cfg_max_delete_batch c = 0) ''scanner.max_delete_batch must be >= 1'',
      reject (repeat_base_cooldown_secs c = 0) ''scanner.repeat_deletion_base_cooldown_secs must be >= 1'',
      reject (repeat_max_cooldown_secs c = 0) ''scanner.repeat_deletion_max_cooldown_secs must be >= 1'',
      reject (repeat_max_cooldown_secs c < repeat_base_cooldown_secs c)
        ''scanner.repeat_deletion_max_cooldown_secs must be >= scanner.repeat_deletion_base_cooldown_secs'']"

text \<open>A weight that is not a finite number, or below zero.\<close>

definition bad_weight :: "f64 \<Rightarrow> bool" where
  "bad_weight v = (\<not> f_is_finite v \<or> v < 0)"

definition validate_scoring :: "(f64 \<Rightarrow> string) \<Rightarrow> scoring_config \<Rightarrow> sbh_error option" where
  "validate_scoring fmt c = first_error
     ([validate_prob fmt ''scoring.min_score'' (sc_min_score c),
       validate_prob fmt ''scoring.calibration_floor'' (sc_calibration_floor c),
       reject (sc_calibration_floor c < sc_min_score c)
         (''scoring.min_score ('' @ fmt (sc_min_score c) @ '') must be <= scoring.calibration_floor (''
            @ fmt (sc_calibration_floor c) @ '')'')]
      @ map (\<lambda>(name, v). reject (bad_weight v)
          (''scoring.'' @ name @ '' must be a finite value >= 0.0, got '' @ fmt v))
        [(''location_weight'', location_weight c), (''name_weight'', name_weight c),
         (''age_weight'', age_weight c), (''size_weight'', size_weight c),
         (''structure_weight'', structure_weight c)]
      @ [reject (\<not> f_is_finite (sc_false_positive_loss c) \<or> \<not> f_is_finite (sc_false_negative_loss c)
           \<or> sc_false_positive_loss c < 0 \<or> sc_false_negative_loss c < 0)
         ''scoring.false_positive_loss and false_negative_loss must be finite values >= 0.0''])"

definition validate_scheduler :: "(f64 \<Rightarrow> string) \<Rightarrow> voi_config \<Rightarrow> sbh_error option" where
  "validate_scheduler fmt c = first_error
     ([validate_prob fmt ''scheduler.exploration_quota_fraction'' (exploration_quota_fraction c),
       validate_prob fmt ''scheduler.ewma_alpha'' (ewma_alpha c),
       reject (scan_budget_per_interval c = 0) ''scheduler.scan_budget_per_interval must be >= 1'',
       reject (min_observations_for_forecast c = 0) ''scheduler.min_observations_for_forecast must be >= 1'']
      @ map (\<lambda>(name, v). reject (bad_weight v)
          (''scheduler.'' @ name @ '' must be a finite value >= 0.0, got '' @ fmt v))
        [(''io_cost_weight'', io_cost_weight c), (''fp_risk_weight'', fp_risk_weight c),
         (''exploration_weight'', exploration_weight c),
         (''forecast_error_threshold'', forecast_error_threshold c)])"

definition weight_sum :: "scoring_config \<Rightarrow> f64" where
  "weight_sum c = location_weight c + name_weight c + age_weight c + size_weight c + structure_weight c"

definition validate_telemetry :: "telemetry_config \<Rightarrow> sbh_error option" where
  "validate_telemetry t = first_error
     [reject (\<not> (ewma_min_alpha t > 0 \<and> ewma_min_alpha t \<le> ewma_base_alpha t
         \<and> ewma_base_alpha t \<le> ewma_max_alpha t \<and> ewma_max_alpha t < 1))
        ''EWMA alpha values must satisfy 0 < min <= base <= max < 1'',
      reject (daemon_rss_warning_bytes t = 0) ''telemetry.daemon_rss_warning_bytes must be > 0'',
      reject (daemon_rss_hard_limit_bytes t = 0) ''telemetry.daemon_rss_hard_limit_bytes must be > 0'',
      reject (daemon_rss_hard_limit_bytes t < daemon_rss_warning_bytes t)
        ''telemetry.daemon_rss_warning_bytes must be <= telemetry.daemon_rss_hard_limit_bytes'']"

definition validate_override :: "string \<times> volume_override \<Rightarrow> sbh_error option" where
  "validate_override mo = (let (mount, ov) = mo; label = ''ballast.overrides[\"'' @ mount @ ''\"].'' in
     first_error
      [case vo_file_count ov of None \<Rightarrow> None
       | Some cnt \<Rightarrow> first_error
          [reject (cnt = 0) (label @ ''file_count must be > 0''),
           reject (4294967295 < cnt)
             (label @ ''file_count ('' @ show_nat (unat cnt) @ '') exceeds maximum (4294967295)'')],
       case vo_file_size_bytes ov of None \<Rightarrow> None
       | Some sz \<Rightarrow> reject (sz < 4096)
          (label @ ''file_size_bytes ('' @ show_nat (unat sz) @ '') must be >= 4096 (header size)'')])"

definition validate_ballast :: "ballast_config \<Rightarrow> sbh_error option" where
  "validate_ballast b = first_error
     ([reject (file_count b = 0 \<or> file_size_bytes b = 0) ''ballast.file_count and ballast.file_size_bytes must be > 0'',
       reject (100000 < file_count b)
         (''ballast.file_count ('' @ show_nat (unat (file_count b)) @ '') exceeds maximum (100000)''),
       reject (file_size_bytes b < 4096)
         (''ballast.file_size_bytes ('' @ show_nat (unat (file_size_bytes b)) @ '') must be >= 4096 (header size)'')]
      @ map validate_override (overrides b))"

definition validate_update :: "update_check_config \<Rightarrow> sbh_error option" where
  "validate_update u = first_error
     [reject (metadata_cache_ttl_seconds u = 0) ''update.metadata_cache_ttl_seconds must be > 0'',
      reject (\<not> update_enabled u \<and> background_refresh u)
        ''update.background_refresh cannot be true when update.enabled=false'']"

definition validate_tuning :: "(f64 \<Rightarrow> string) \<Rightarrow> system_tuning_config \<Rightarrow> sbh_error option" where
  "validate_tuning fmt t = first_error
     [reject (\<not> f_is_finite (writeback_target_drain_secs t) \<or> writeback_target_drain_secs t \<le> 0
          \<or> lit 30 < writeback_target_drain_secs t)
        (''system_tuning.writeback_target_drain_secs must be in (0, 30], got '' @ fmt (writeback_target_drain_secs t)),
      reject (writeback_hard_ratio t < 2 \<or> 64 < writeback_hard_ratio t)
        (''system_tuning.writeback_hard_ratio must be in [2, 64], got '' @ show_nat (unat (writeback_hard_ratio t))),
      reject (writeback_min_background_bytes t < 4096)
        (''system_tuning.writeback_min_background_bytes ('' @ show_nat (unat (writeback_min_background_bytes t))
           @ '') must be >= 4096''),
      reject (writeback_max_background_bytes t < writeback_min_background_bytes t)
        (''system_tuning.writeback_max_background_bytes ('' @ show_nat (unat (writeback_max_background_bytes t))
           @ '') must be >= writeback_min_background_bytes (''
           @ show_nat (unat (writeback_min_background_bytes t)) @ '')''),
      reject (writeback_benchmark_bytes t < 1024 * 1024)
        (''system_tuning.writeback_benchmark_bytes ('' @ show_nat (unat (writeback_benchmark_bytes t))
           @ '') must be >= 1 MiB''),
      reject (writeback_pool_warn_bytes t = 0) ''system_tuning.writeback_pool_warn_bytes must be > 0'',
      reject (Option.bind (file_name (writeback_sysctl_path t)) name_extension \<noteq> Some ''conf'')
        (''system_tuning.writeback_sysctl_path must end in .conf (sysctl loads only *.conf files), got ''
           @ writeback_sysctl_path t)]"

definition validate :: "protect_env \<Rightarrow> (f64 \<Rightarrow> string) \<Rightarrow> config \<Rightarrow> sbh_error option" where
  "validate env fmt c = first_error
     ([validate_pressure fmt (pressure c), validate_prediction fmt (prediction (pressure c)),
       validate_scanner (scanner c), validate_scoring fmt (scoring c), validate_scheduler fmt (scheduler c),
       reject (lit (1 / 10 ^ 9) < f_abs (weight_sum (scoring c) - 1))
         (''scoring weights must sum to 1.0; got '' @ fmt_fixed 6 (weight_sum (scoring c))),
       validate_telemetry (telemetry c), validate_ballast (ballast c), validate_update (update_section c)]
      @ map (validate_glob_pattern env) (cfg_protected_paths (scanner c))
      @ [validate_tuning fmt (system_tuning c)])"

subsection \<open>Normalisation and the user's sacred paths\<close>

definition normalize_root :: "path \<Rightarrow> path" where
  "normalize_root p = (if length p = 1 \<or> (length p = 3 \<and> p ! 1 = CHR '':'') then p
     else let stripped = strip_trailing_separator p in if length stripped \<noteq> length p then stripped else p)"

text \<open>The overrides are an ordered map: a later entry with the same stripped key replaces the earlier one.\<close>

definition normalize_overrides :: "(string \<times> volume_override) list \<Rightarrow> (string \<times> volume_override) list" where
  "normalize_overrides ovs = foldl (\<lambda>acc (k, v). AList.update (strip_trailing_separator k) v acc) [] ovs"

definition normalize_paths :: "config \<Rightarrow> config" where
  "normalize_paths c = c\<lparr>ballast := (ballast c)\<lparr>overrides := normalize_overrides (overrides (ballast c))\<rparr>,
     scanner := (scanner c)\<lparr>root_paths := map normalize_root (root_paths (scanner c))\<rparr>\<rparr>"

text \<open>\<open>SacredConfig\<close> is its list of protected paths.\<close>

definition add_trimmed :: "string list \<Rightarrow> string \<Rightarrow> string list" where
  "add_trimmed acc p = (let t = trim p in if t \<noteq> [] \<and> t \<notin> set acc then acc @ [t] else acc)"

definition sacred_normalize :: "string list \<Rightarrow> string list" where
  "sacred_normalize ps = foldl add_trimmed [] ps"

definition add_protected_path :: "string \<Rightarrow> string list \<Rightarrow> string list \<times> bool" where
  "add_protected_path p ps = (if p \<in> set ps then (ps, False) else (ps @ [p], True))"

definition protected_path_matches :: "protect_env \<Rightarrow> tree \<Rightarrow> string \<Rightarrow> string \<Rightarrow> bool" where
  "protected_path_matches env w known p = (known = p
     \<or> resolve_absolute_path env w (components known) = resolve_absolute_path env w (components p))"

definition remove_protected_path :: "protect_env \<Rightarrow> tree \<Rightarrow> string \<Rightarrow> string list \<Rightarrow> string list \<times> bool" where
  "remove_protected_path env w p ps = (let kept = filter (\<lambda>known. \<not> protected_path_matches env w known p) ps
     in (kept, length kept \<noteq> length ps))"

definition merge_protected :: "string list \<Rightarrow> string list \<Rightarrow> string list" where
  "merge_protected configured sacred = foldl (\<lambda>acc p. if p \<in> set acc then acc else acc @ [p]) configured sacred"

definition merge_sacred_config :: "string list \<Rightarrow> config \<Rightarrow> config" where
  "merge_sacred_config sacred c = c\<lparr>scanner := (scanner c)\<lparr>cfg_protected_paths :=
     merge_protected (cfg_protected_paths (scanner c)) sacred\<rparr>\<rparr>"

text \<open>The end of \<open>load\<close>: the sacred file is read and normalised (an error of it ends the load), merged,
  the paths are normalised and the result is validated.\<close>

definition finish_load ::
  "protect_env \<Rightarrow> (f64 \<Rightarrow> string) \<Rightarrow> sbh_error + string list \<Rightarrow> config \<Rightarrow> sbh_error + config" where
  "finish_load env fmt sacred_file c = (case sacred_file of Inl e \<Rightarrow> Inl e
     | Inr raw \<Rightarrow> let c1 = normalize_paths (merge_sacred_config (sacred_normalize raw) c)
         in (case validate env fmt c1 of Some e \<Rightarrow> Inl e | None \<Rightarrow> Inr c1))"

subsection \<open>What normalisation gives\<close>

lemma sacred_normalize_acc:
  "distinct acc \<Longrightarrow> distinct (foldl add_trimmed acc ps)
   \<and> set (foldl add_trimmed acc ps) = set acc \<union> (trim ` set ps - {[]})"
  by (induction ps arbitrary: acc) (auto simp: add_trimmed_def Let_def)

lemma sacred_normalize_set: "set (sacred_normalize ps) = trim ` set ps - {[]}"
  and sacred_normalize_distinct: "distinct (sacred_normalize ps)"
  using sacred_normalize_acc [of "[]" ps] by (simp_all add: sacred_normalize_def)

lemma merge_protected_set: "set (merge_protected configured sacred) = set configured \<union> set sacred"
  unfolding merge_protected_def by (induction sacred arbitrary: configured) auto

text \<open>A loaded configuration keeps every pattern it was given and every path of the sacred file.\<close>

lemma loaded_protections:
  assumes "finish_load env fmt (Inr raw) c = Inr c'"
  shows "set (cfg_protected_paths (scanner c')) = set (cfg_protected_paths (scanner c)) \<union> (trim ` set raw - {[]})"
  using assms by (auto simp: finish_load_def Let_def normalize_paths_def merge_sacred_config_def
      merge_protected_set sacred_normalize_set split: option.splits)

lemma loaded_validates: "finish_load env fmt sacred c = Inr c' \<Longrightarrow> validate env fmt c' = None"
  by (auto simp: finish_load_def Let_def split: sum.splits option.splits)

end
