(* ===== verification/Scan_Pacing.thy ===== *)
theory Scan_Pacing
  imports Behavior Config Executor
begin

section \<open>Scan requests, their queue and their pacing (src/src/daemon/loop_main.rs)\<close>

text \<open>
  The request the monitor sends to the scanner, the bounded channels between the threads, the dispatch
  of scored candidates to the executor, and the cooldown after passes that dispatched nothing. What the
  other side of a channel does in between is an argument.
\<close>

subsection \<open>Bounded channels\<close>

record 'a channel =
  queue :: "'a list"
  channel_cap :: nat
  peer_alive :: bool

datatype send_result = Sent | ChannelFull | SendDisconnected
datatype 'a recv_result = Received 'a | ChannelEmpty | RecvDisconnected

definition try_send :: "'a \<Rightarrow> 'a channel \<Rightarrow> 'a channel \<times> send_result" where
  "try_send x ch = (if \<not> peer_alive ch then (ch, SendDisconnected)
     else if length (queue ch) < channel_cap ch then (ch\<lparr>queue := queue ch @ [x]\<rparr>, Sent)
     else (ch, ChannelFull))"

definition try_recv :: "'a channel \<Rightarrow> 'a channel \<times> 'a recv_result" where
  "try_recv ch = (case queue ch of x # xs \<Rightarrow> (ch\<lparr>queue := xs\<rparr>, Received x)
     | [] \<Rightarrow> (ch, if peer_alive ch then ChannelEmpty else RecvDisconnected))"

definition taken :: "nat \<Rightarrow> 'a channel \<Rightarrow> 'a channel" where
  "taken n ch = ch\<lparr>queue := drop n (queue ch)\<rparr>"

definition scanner_channel_cap :: nat where "scanner_channel_cap = 2"
definition executor_channel_cap :: nat where "executor_channel_cap = 64"

subsection \<open>Requests\<close>

record scan_request =
  req_paths :: "path list"
  req_urgency :: f64
  req_level :: pressure_level
  req_free_pct :: "f64 option"
  req_max_delete_batch :: usize
  force_full_scan :: bool
  config_update :: "(scoring_config \<times> scanner_config) option"

definition should_skip_for_device_affinity :: "bool \<Rightarrow> bool \<Rightarrow> bool \<Rightarrow> bool" where
  "should_skip_for_device_affinity elevated none_on_device cross = (elevated \<and> none_on_device \<and> \<not> cross)"

definition scan_reason_for_request :: "scan_request \<Rightarrow> string" where
  "scan_reason_for_request r =
     (if force_full_scan r then ''forced''
      else if config_update r \<noteq> None then ''config_reload''
      else if req_free_pct r = None then ''synthetic''
      else case req_level r of
        Green \<Rightarrow> if 0 < req_urgency r then ''green_scheduled'' else ''green_idle''
      | Yellow \<Rightarrow> ''yellow_pressure''
      | Orange \<Rightarrow> ''orange_pressure''
      | Red \<Rightarrow> ''red_pressure''
      | Critical \<Rightarrow> ''critical_pressure'')"

datatype scan_enqueue_status = Queued | ReplacedStale | DeferredFull | EnqueueDisconnected

text \<open>\<open>n\<close> requests are taken by the scanner after the first attempt.\<close>

definition enqueue_scan_request ::
  "nat \<Rightarrow> scan_request \<Rightarrow> bool \<Rightarrow> scan_request channel \<Rightarrow> scan_request channel \<times> scan_enqueue_status" where
  "enqueue_scan_request n request replace_on_full ch =
     (case try_send request ch of
        (ch1, Sent) \<Rightarrow> (ch1, Queued)
      | (ch1, SendDisconnected) \<Rightarrow> (ch1, EnqueueDisconnected)
      | (ch1, ChannelFull) \<Rightarrow>
          if \<not> replace_on_full then (ch1, DeferredFull)
          else (case try_recv (taken n ch1) of
              (ch2, Received _) \<Rightarrow> (case try_send request ch2 of
                  (ch3, Sent) \<Rightarrow> (ch3, ReplacedStale)
                | (ch3, ChannelFull) \<Rightarrow> (ch3, DeferredFull)
                | (ch3, SendDisconnected) \<Rightarrow> (ch3, EnqueueDisconnected))
            | (ch2, ChannelEmpty) \<Rightarrow> (ch2, DeferredFull)
            | (ch2, RecvDisconnected) \<Rightarrow> (ch2, EnqueueDisconnected)))"

definition effective_scan_budget :: "scanner_config \<Rightarrow> pressure_level \<Rightarrow> duration" where
  "effective_scan_budget c lvl =
     (let base = (if 0 < scan_time_budget_secs c then scan_time_budget_secs c else 300);
          budget = (case lvl of Red \<Rightarrow> min (sat_mul base 2) 600 | Critical \<Rightarrow> min (sat_mul base 2) 600
            | Orange \<Rightarrow> min (sat_mul base 2) 600 | _ \<Rightarrow> base)
      in secs (unat budget))"

definition v2_reclaim_bytes_per_candidate :: u64 where
  "v2_reclaim_bytes_per_candidate = 256 * 1048576"

definition v2_pressure_candidate_byte_target :: "scan_request \<Rightarrow> u64 option" where
  "v2_pressure_candidate_byte_target r =
     (if req_level r < Orange \<or> req_max_delete_batch r = 0 then None
      else Some (sat_mul v2_reclaim_bytes_per_candidate (max (req_max_delete_batch r) 1)))"

text \<open>The dirty roots are an ordered set; the model takes them in their order.\<close>

definition v2_active_scan_paths :: "scan_request \<Rightarrow> path list \<Rightarrow> path list option" where
  "v2_active_scan_paths r dirty_roots =
     (if force_full_scan r then None
      else if req_level r \<in> {Green, Yellow} then Some dirty_roots else None)"

definition v2_effective_parallelism :: "scanner_config \<Rightarrow> pressure_level \<Rightarrow> usize" where
  "v2_effective_parallelism c lvl =
     (let configured = max (parallelism c) 1 in
      case lvl of Orange \<Rightarrow> min configured 2 | Red \<Rightarrow> min configured 4 | Critical \<Rightarrow> min configured 4 | _ \<Rightarrow> 1)"

definition fallback_log_truncation_free_pct :: "pressure_level \<Rightarrow> f64" where
  "fallback_log_truncation_free_pct lvl =
     (case lvl of Orange \<Rightarrow> lit 10 | Red \<Rightarrow> 0 | Critical \<Rightarrow> 0 | _ \<Rightarrow> lit 100)"

definition log_truncation_free_pct_for_request :: "scan_request \<Rightarrow> f64" where
  "log_truncation_free_pct_for_request r =
     (case req_free_pct r of Some pct \<Rightarrow> if f_is_finite pct then pct else fallback_log_truncation_free_pct (req_level r)
      | None \<Rightarrow> fallback_log_truncation_free_pct (req_level r))"

subsection \<open>The cooldown after empty passes\<close>

definition terminal_idle_empty_passes :: u32 where "terminal_idle_empty_passes = 3"
definition terminal_idle_pressured_rescan_cap :: duration where "terminal_idle_pressured_rescan_cap = secs 300"

definition empty_pass_cooldown_active ::
  "instant option \<Rightarrow> instant \<Rightarrow> duration \<Rightarrow> scan_request \<Rightarrow> u32 \<Rightarrow> bool" where
  "empty_pass_cooldown_active last_empty now cooldown r passes =
     (if cooldown = 0 then False
      else if force_full_scan r \<or> config_update r \<noteq> None \<or> req_free_pct r = None then False
      else if Red \<le> req_level r \<and> passes < terminal_idle_empty_passes then False
      else let limit = (if Red \<le> req_level r then min cooldown terminal_idle_pressured_rescan_cap else cooldown)
        in (case last_empty of None \<Rightarrow> False | Some t \<Rightarrow> elapsed now t < limit))"

definition effective_empty_pass_cooldown :: "u64 \<Rightarrow> u32 \<Rightarrow> duration" where
  "effective_empty_pass_cooldown base_secs passes =
     (if base_secs = 0 then 0
      else let shift = min (unat (sat_sub passes 1)) 5 in secs (unat (sat_mul base_secs (push_bit shift 1))))"

text \<open>What the scanner thread keeps between passes.\<close>

record pacing =
  last_empty_pass_at :: "instant option"
  consecutive_empty_passes :: u32

definition pacing_new :: pacing where
  "pacing_new = \<lparr>last_empty_pass_at = None, consecutive_empty_passes = 0\<rparr>"

definition pass_skipped :: "scanner_config \<Rightarrow> instant \<Rightarrow> scan_request \<Rightarrow> pacing \<Rightarrow> bool" where
  "pass_skipped c now r p = empty_pass_cooldown_active (last_empty_pass_at p) now
     (effective_empty_pass_cooldown (min_rescan_interval_secs c) (consecutive_empty_passes p)) r
     (consecutive_empty_passes p)"

definition pass_done :: "nat \<Rightarrow> bool \<Rightarrow> instant \<Rightarrow> pacing \<Rightarrow> pacing" where
  "pass_done dispatched timed_out now p =
     (if dispatched = 0
      then \<lparr>last_empty_pass_at = Some now, consecutive_empty_passes =
          (if timed_out then consecutive_empty_passes p else sat_add (consecutive_empty_passes p) 1)\<rparr>
      else pacing_new)"

subsection \<open>Dispatch to the executor\<close>

definition dispatch_before :: "candidacy_score \<Rightarrow> candidacy_score \<Rightarrow> bool" where
  "dispatch_before a b = (total_score b < total_score a)"

text \<open>The candidates that remain, the channel, the count of dispatched candidates, and whether the
  executor is still there.\<close>

definition dispatch_top_candidates ::
  "scan_request \<Rightarrow> candidacy_score list \<times> deletion_batch channel \<times> nat \<Rightarrow>
     (candidacy_score list \<times> deletion_batch channel \<times> nat) \<times> bool" where
  "dispatch_top_candidates r st =
     (let (scored_cs, ch, dispatched) = st in
      if scored_cs = [] then (st, True)
      else if req_max_delete_batch r = 0 then (([], ch, dispatched), True)
      else let ranked = sort_by dispatch_before scored_cs;
               limit = unat (max (req_max_delete_batch r) 1);
               batch = take limit ranked;
               overflow = drop limit ranked
        in (case try_send \<lparr>deletion_batch.candidates = batch, deletion_batch.pressure_level = req_level r, deletion_batch.urgency = req_urgency r\<rparr> ch of
              (ch1, Sent) \<Rightarrow> ((overflow, ch1, dispatched + length batch), True)
            | (ch1, ChannelFull) \<Rightarrow> ((overflow @ batch, ch1, dispatched), True)
            | (ch1, SendDisconnected) \<Rightarrow> ((overflow, ch1, dispatched), False)))"

text \<open>The flush at the end of a pass: before attempt \<open>k\<close> the shutdown flag or the deadline may end it
  (\<open>stop k\<close>), and the executor has taken \<open>taken_by k\<close> batches. The boolean says whether the scanner
  thread goes on.\<close>

function flush_scored ::
  "(nat \<Rightarrow> bool) \<Rightarrow> (nat \<Rightarrow> nat) \<Rightarrow> nat \<Rightarrow> scan_request \<Rightarrow> candidacy_score list \<times> deletion_batch channel \<times> nat \<Rightarrow>
     (candidacy_score list \<times> deletion_batch channel \<times> nat) \<times> bool" where
  "flush_scored stop taken_by k r (scored_cs, ch, dispatched) =
     (if scored_cs = [] \<or> stop k then ((scored_cs, ch, dispatched), True)
      else let ((rest, ch1, d1), alive) =
             dispatch_top_candidates r (scored_cs, taken (taken_by k) ch, dispatched)
        in if \<not> alive then ((rest, ch1, d1), False)
           else if length scored_cs \<le> length rest then ((rest, ch1, d1), True)
           else flush_scored stop taken_by (Suc k) r (rest, ch1, d1))"
  by pat_completeness auto
termination
  by (relation "measure (\<lambda>(_, _, _, _, scored_cs, _, _). length scored_cs)") auto

declare flush_scored.simps [simp del]

text \<open>A pass: the groups are what the walk scored up to each of its dispatch points.\<close>

fun walk_dispatch ::
  "scan_request \<Rightarrow> candidacy_score list list \<Rightarrow> candidacy_score list \<times> deletion_batch channel \<times> nat \<Rightarrow>
     (candidacy_score list \<times> deletion_batch channel \<times> nat) \<times> bool" where
  "walk_dispatch r [] st = (st, True)"
| "walk_dispatch r (g # gs) (cs, ch, d) =
     (let (st1, alive) = dispatch_top_candidates r (cs @ g, ch, d)
      in if alive then walk_dispatch r gs st1 else (st1, False))"

definition pass_dispatched ::
  "(nat \<Rightarrow> bool) \<Rightarrow> (nat \<Rightarrow> nat) \<Rightarrow> scan_request \<Rightarrow> candidacy_score list list \<Rightarrow> deletion_batch channel \<Rightarrow>
     deletion_batch channel \<times> nat" where
  "pass_dispatched stop taken_by r groups ch =
     (let (st, _) = walk_dispatch r groups ([], ch, 0); ((_, ch1, d), _) = flush_scored stop taken_by 0 r st
      in (ch1, d))"

subsection \<open>An urgent request gets into the queue\<close>

text \<open>A request that may replace a stale one is queued last unless the
  scanner is gone or has emptied a full queue in the meantime; the queue stays within its bound, keeps its
  order, and gives up only requests from its front, none when there was room.\<close>

lemma urgent_request_enqueued:
  assumes "peer_alive ch" "length (queue ch) \<le> channel_cap ch" "n < channel_cap ch"
  shows "\<exists>k. queue (fst (enqueue_scan_request n r True ch)) = drop k (queue ch) @ [r]
    \<and> length (queue (fst (enqueue_scan_request n r True ch))) \<le> channel_cap ch
    \<and> (k = 0 \<longleftrightarrow> length (queue ch) < channel_cap ch) \<and> k \<le> n + 1
    \<and> snd (enqueue_scan_request n r True ch) = (if k = 0 then Queued else ReplacedStale)"
proof (cases "length (queue ch) < channel_cap ch")
  case True
  then show ?thesis using assms(1) by (intro exI [of _ 0]) (simp add: enqueue_scan_request_def try_send_def)
next
  case False
  then have "length (queue ch) = channel_cap ch" using assms(2) by simp
  then obtain x xs where q: "drop n (queue ch) = x # xs" "length xs < channel_cap ch" "xs = drop (Suc n) (queue ch)"
    using assms(3) by (metis Cons_nth_drop_Suc length_Cons length_drop diff_le_self less_le_trans lessI)
  then show ?thesis using False assms(1)
    by (intro exI [of _ "Suc n"]) (simp add: enqueue_scan_request_def try_send_def try_recv_def taken_def)
qed

subsection \<open>A dispatch takes the best candidates\<close>

interpretation dr: ranking dispatch_before scored
proof
  fix x y z :: candidacy_score
  show "dispatch_before x y \<Longrightarrow> \<not> dispatch_before y x"
    using f_less_asym by (auto simp: dispatch_before_def)
  show "scored x \<Longrightarrow> scored y \<Longrightarrow> scored z \<Longrightarrow> \<not> dispatch_before y x \<Longrightarrow> \<not> dispatch_before z y \<Longrightarrow> \<not> dispatch_before z x"
    using f_not_less f_le_trans unfolding dispatch_before_def scored_def by metis
qed

text \<open>With a positive limit and a live executor a dispatch loses no candidate and
  duplicates none: either the channel is full and nothing but the order changes, or one batch of at
  most the limit is queued, every candidate of it scores at least as high as any that stays behind,
  and the pass counts exactly its length.\<close>

lemma dispatch_takes_best:
  assumes "dispatch_top_candidates r (cs, ch, d) = ((rest, ch', d'), alive)"
    and "peer_alive ch" "req_max_delete_batch r \<noteq> 0" "cs \<noteq> []" "\<forall>c \<in> set cs. total_score c \<noteq> FNaN"
  shows "alive \<and> (mset rest = mset cs \<and> ch' = ch \<and> d' = d
    \<or> (\<exists>b. queue ch' = queue ch @ [b] \<and> mset (deletion_batch.candidates b) + mset rest = mset cs
        \<and> length (deletion_batch.candidates b) \<le> unat (req_max_delete_batch r)
        \<and> deletion_batch.candidates b \<noteq> []
        \<and> d' = d + length (deletion_batch.candidates b)
        \<and> (\<forall>a \<in> set (deletion_batch.candidates b). \<forall>x \<in> set rest. \<not> total_score a < total_score x)))"
proof -
  define ranked where "ranked = sort_by dispatch_before cs"
  define n where "n = unat (max (req_max_delete_batch r) 1)"
  have n: "n = unat (req_max_delete_batch r)" "0 < n"
    using assms(3) unat_gt_0 [of "req_max_delete_batch r"] by (auto simp: n_def max_def word_le_nat_alt split: if_splits)
  have m: "mset (take n ranked) + mset (drop n ranked) = mset cs"
    unfolding ranked_def by (metis append_take_drop_id mset_append sort_by_mset)
  have ne: "take n ranked \<noteq> []"
    using assms(4) n(2) by (metis ranked_def sort_by_length length_0_conv less_numeral_extra(3) take_eq_Nil)
  have best: "\<forall>a \<in> set (take n ranked). \<forall>x \<in> set (drop n ranked). \<not> total_score a < total_score x"
    using dr.take_first [of cs] assms(5) unfolding ranked_def by (auto simp: scored_def dispatch_before_def)
  have len: "length (take n ranked) \<le> n" by simp
  show ?thesis
  proof (cases "length (queue ch) < channel_cap ch")
    case True
    then have e: "alive" "rest = drop n ranked" "d' = d + length (take n ranked)"
      and q: "queue ch' = queue ch @ [\<lparr>deletion_batch.candidates = take n ranked,
        deletion_batch.pressure_level = req_level r, deletion_batch.urgency = req_urgency r\<rparr>]"
      using assms by (auto simp: dispatch_top_candidates_def try_send_def Let_def ranked_def [symmetric] n_def [symmetric])
    show ?thesis using m ne best len e q n(1) by (intro conjI disjI2 exI [of _ "\<lparr>deletion_batch.candidates = take n ranked,
        deletion_batch.pressure_level = req_level r, deletion_batch.urgency = req_urgency r\<rparr>"]) auto
  next
    case False
    then have "alive" "rest = drop n ranked @ take n ranked" "ch' = ch" "d' = d"
      using assms by (auto simp: dispatch_top_candidates_def try_send_def Let_def ranked_def [symmetric] n_def [symmetric])
    then show ?thesis using m by (simp add: add.commute)
  qed
qed

subsection \<open>Pacing\<close>

lemma unat_shift_one: "k \<le> 5 \<Longrightarrow> unat (2 ^ k :: u64) = 2 ^ k"
proof -
  assume "k \<le> 5"
  then have "(2::nat) ^ k \<le> 2 ^ 5" by (rule power_increasing) simp
  then have "unat (of_nat (2 ^ k) :: u64) = 2 ^ k" by (subst unat_of_nat) simp
  then show ?thesis by simp
qed

lemma effective_cooldown_bounds:
  assumes "base \<noteq> 0"
  shows "secs (unat base) \<le> effective_empty_pass_cooldown base passes"
    and "effective_empty_pass_cooldown base passes \<le> secs (32 * unat base)"
proof -
  define k where "k = min (unat passes - Suc 0) 5"
  have k: "k \<le> 5" by (simp add: k_def)
  then have u: "unat (2 ^ k :: u64) = 2 ^ k" by (rule unat_shift_one)
  have p: "(1::nat) \<le> 2 ^ k" "(2::nat) ^ k \<le> 32"
    using power_increasing [OF k, of "2::nat"] by simp_all
  have lo: "unat base \<le> unat base * 2 ^ k" and hi: "unat base * 2 ^ k \<le> 32 * unat base"
    using p mult_le_mono2 [OF p(1), of "unat base"] mult_le_mono2 [OF p(2), of "unat base"] by simp_all
  moreover have "unat base < 2 ^ LENGTH(64)" by (rule unsigned_less)
  ultimately show "secs (unat base) \<le> effective_empty_pass_cooldown base passes"
    "effective_empty_pass_cooldown base passes \<le> secs (32 * unat base)"
    using assms min.coboundedI1 [OF hi]
    by (simp_all add: effective_empty_pass_cooldown_def Let_def k_def [symmetric] u)
qed


subsection \<open>Passes that may not delete count as empty\<close>

lemma dispatch_zero_limit:
  assumes "req_max_delete_batch r = 0"
  shows "dispatch_top_candidates r (cs, ch, d) = (([], ch, d), True)"
  using assms by (simp add: dispatch_top_candidates_def)

lemma pass_zero_limit:
  assumes "req_max_delete_batch r = 0"
  shows "pass_dispatched stop taken_by r groups ch = (ch, 0)"
proof -
  have w: "walk_dispatch r groups ([], ch, 0) = (([], ch, 0), True)"
    by (induction groups) (simp_all add: dispatch_zero_limit [OF assms])
  show ?thesis by (simp add: pass_dispatched_def w flush_scored.simps)
qed

text \<open>Completed passes: the request, what the walk scored, the executor's behaviour and the time of the end.\<close>

type_synonym pass = "scan_request \<times> candidacy_score list list \<times> (nat \<Rightarrow> bool) \<times> (nat \<Rightarrow> nat) \<times> instant"

fun pass_run :: "pass list \<Rightarrow> pacing \<times> deletion_batch channel \<Rightarrow> pacing \<times> deletion_batch channel" where
  "pass_run [] st = st"
| "pass_run ((r, groups, stop, taken_by, t) # ps) (p, ch) =
     (let (ch1, d) = pass_dispatched stop taken_by r groups ch in pass_run ps (pass_done d False t p, ch1))"

lemma pass_run_append: "pass_run (xs @ ys) st = pass_run ys (pass_run xs st)"
  by (induction xs st rule: pass_run.induct) (simp_all add: split_def Let_def)

lemma zero_limit_run:
  assumes "\<forall>x \<in> set ps. req_max_delete_batch (fst x) = 0" "length ps < 2 ^ 32"
  shows "unat (consecutive_empty_passes (fst (pass_run ps (pacing_new, ch)))) = length ps
    \<and> (ps \<noteq> [] \<longrightarrow> last_empty_pass_at (fst (pass_run ps (pacing_new, ch))) = Some (snd (snd (snd (snd (last ps))))))"
  using assms
proof (induction ps rule: rev_induct)
  case (snoc x ps)
  obtain r gs st tk t where x: "x = (r, gs, st, tk, t)" by (cases x)
  obtain p ch1 where p: "pass_run ps (pacing_new, ch) = (p, ch1)" by fastforce
  have "unat (consecutive_empty_passes p) = length ps" using snoc p by auto
  then show ?case using snoc.prems
    by (simp add: pass_run_append p x pass_zero_limit pass_done_def)
qed (simp add: pacing_new_def)

text \<open>C37: passes whose behavior mode forbids deletion (their limit is zero) count as
  passes without progress, whatever they found: after three of them, with an interval of at least 75
  seconds, even a critical request is skipped until five minutes after the last.\<close>

theorem identify_only_delays_red:
  assumes "\<forall>x \<in> set ps. req_max_delete_batch (fst x) = 0" "3 \<le> length ps" "length ps < 2 ^ 32"
    and "75 \<le> unat (min_rescan_interval_secs c)"
    and "\<not> force_full_scan r" "config_update r = None" "req_free_pct r \<noteq> None" "Red \<le> req_level r"
    and "elapsed now (snd (snd (snd (snd (last ps))))) < secs 300"
  shows "pass_skipped c now r (fst (pass_run ps (pacing_new, ch)))"
proof -
  define p where "p = fst (pass_run ps (pacing_new, ch))"
  define n where "n = length ps"
  have p: "unat (consecutive_empty_passes p) = n" "last_empty_pass_at p = Some (snd (snd (snd (snd (last ps)))))"
    using zero_limit_run [OF assms(1,3), of ch] assms(2) by (auto simp: p_def n_def)
  have n3: "3 \<le> n" using assms(2) by (simp add: n_def)
  define base where "base = min_rescan_interval_secs c"
  define k where "k = min (unat (consecutive_empty_passes p) - Suc 0) 5"
  have k: "2 \<le> k" "k \<le> 5" using n3 by (auto simp: k_def p(1))
  have u: "unat (2 ^ k :: u64) = 2 ^ k" using k(2) by (rule unat_shift_one)
  have "(4::nat) \<le> 2 ^ k" using power_increasing [OF k(1), of "2::nat"] by simp
  then have "75 * 4 \<le> unat base * 2 ^ k" using assms(4) by (intro mult_le_mono) (simp_all add: base_def)
  then have "secs 300 \<le> effective_empty_pass_cooldown base (consecutive_empty_passes p)"
    using assms(4) by (auto simp: effective_empty_pass_cooldown_def Let_def k_def [symmetric] u base_def)
  then show ?thesis
    using assms(5-9) n3 p unfolding p_def [symmetric] base_def
    by (auto simp: pass_skipped_def empty_pass_cooldown_active_def terminal_idle_empty_passes_def
        terminal_idle_pressured_rescan_cap_def Let_def word_less_nat_alt secs_def)
qed

subsection \<open>Concrete instances\<close>

text \<open>A critical request whose limit is the one of a mode that only identifies candidates.\<close>

definition demo_request :: "usize \<Rightarrow> scan_request" where
  "demo_request k = \<lparr>req_paths = [''/data''], req_urgency = 1, req_level = Critical, req_free_pct = Some (lit 3),
     req_max_delete_batch = k, force_full_scan = False, config_update = None\<rparr>"

lemma orange_identifies_only:
  "behavior_delete_batch_limit (mode_for default_behavior_cells MemNormal Orange) k = 0"
  by (simp add: behavior_delete_batch_limit_def allows_delete_iff)

definition demo_pass :: "nat \<Rightarrow> pass" where
  "demo_pass t = ((demo_request 0)\<lparr>req_level := Orange, req_max_delete_batch :=
     behavior_delete_batch_limit (mode_for default_behavior_cells MemNormal Orange) 10\<rparr>,
     [], \<lambda>_. False, \<lambda>_. 0, secs t)"

lemma identify_only_delays_red_witness:
  "pass_skipped (scanner_config_default None) (secs 600) (demo_request 20)
     (fst (pass_run [demo_pass 100, demo_pass 200, demo_pass 400] (pacing_new, \<lparr>queue = [], channel_cap = 64, peer_alive = True\<rparr>)))"
proof (rule identify_only_delays_red)
  show "\<forall>x \<in> set [demo_pass 100, demo_pass 200, demo_pass 400]. req_max_delete_batch (fst x) = 0"
    by (simp add: demo_pass_def orange_identifies_only)
qed (simp_all add: demo_pass_def demo_request_def scanner_config_default_def elapsed_def secs_def level_order)


definition demo_scan_channel :: "scan_request channel" where
  "demo_scan_channel = \<lparr>queue = [demo_request 1, demo_request 2], channel_cap = scanner_channel_cap, peer_alive = True\<rparr>"

lemma urgent_request_enqueued_witness:
  "queue (fst (enqueue_scan_request 0 (demo_request 3) True demo_scan_channel)) = [demo_request 2, demo_request 3]"
proof -
  have "peer_alive demo_scan_channel" "length (queue demo_scan_channel) \<le> channel_cap demo_scan_channel"
    "0 < channel_cap demo_scan_channel" by (simp_all add: demo_scan_channel_def scanner_channel_cap_def)
  from urgent_request_enqueued [OF this, of "demo_request 3"] obtain k
    where k: "queue (fst (enqueue_scan_request 0 (demo_request 3) True demo_scan_channel))
        = drop k (queue demo_scan_channel) @ [demo_request 3]"
      "(k = 0) = (length (queue demo_scan_channel) < channel_cap demo_scan_channel)" "k \<le> 0 + 1" by blast
  then have "k = 1" by (simp add: demo_scan_channel_def scanner_channel_cap_def)
  with k(1) show ?thesis by (simp add: demo_scan_channel_def)
qed

lemma dispatch_takes_best_witness:
  "snd (dispatch_top_candidates (demo_request 1)
      ([demo_scored\<lparr>total_score := 0\<rparr>, demo_scored], \<lparr>queue = [], channel_cap = executor_channel_cap, peer_alive = True\<rparr>, 0))"
proof -
  obtain rest ch' d' alive where d: "dispatch_top_candidates (demo_request 1)
      ([demo_scored\<lparr>total_score := 0\<rparr>, demo_scored], \<lparr>queue = [], channel_cap = executor_channel_cap, peer_alive = True\<rparr>, 0)
      = ((rest, ch', d'), alive)" by (metis prod.collapse)
  have "req_max_delete_batch (demo_request 1) \<noteq> 0" by (simp add: demo_request_def)
  moreover have "total_score demo_scored \<noteq> FNaN" by (simp add: demo_scored_def)
  ultimately have alive using dispatch_takes_best [OF d] by simp
  then show ?thesis by (simp only: d snd_conv)
qed

end
