(* ===== verification/Supervision.thy ===== *)
theory Supervision
  imports Prelude
begin

section \<open>Worker respawns and the self-throttle of the tick (src/src/daemon/loop_main.rs)\<close>

text \<open>
  The window over worker panics that limits respawns, and the backoff of the daemon's own tick while
  its memory or its tick time is over budget. Clock readings are arguments.
\<close>

subsection \<open>Panics of a worker\<close>

definition max_respawns :: nat where "max_respawns = 3"
definition respawn_window :: duration where "respawn_window = secs 300"

type_synonym thread_health = "instant list"

definition record_panic :: "instant \<Rightarrow> thread_health \<Rightarrow> thread_health \<times> bool" where
  "record_panic now panic_times =
     (let kept = filter (\<lambda>t. elapsed now t < respawn_window) panic_times @ [now]
      in (kept, length kept \<le> max_respawns))"

fun panic_run :: "instant list \<Rightarrow> thread_health \<Rightarrow> thread_health \<times> bool list" where
  "panic_run [] h = (h, [])"
| "panic_run (now # ts) h = (let (h1, ok) = record_panic now h; (h2, oks) = panic_run ts h1 in (h2, ok # oks))"

lemma panic_run_snoc:
  "panic_run (ts @ [now]) h = (let (h1, oks) = panic_run ts h; (h2, ok) = record_panic now h1 in (h2, oks @ [ok]))"
  by (induction ts arbitrary: h) (simp_all add: split_def Let_def)

text \<open>With a clock that does not run backwards the retained times are the panics of the last window.\<close>

definition recent_panics :: "instant \<Rightarrow> instant list \<Rightarrow> instant list" where
  "recent_panics now ts = filter (\<lambda>t. elapsed now t < respawn_window) ts"

lemma recent_recent:
  "t \<le> now \<Longrightarrow> recent_panics now (recent_panics t ts) = recent_panics now ts" if "\<forall>x \<in> set ts. x \<le> t"
  using that by (auto simp: recent_panics_def elapsed_def intro!: filter_cong)

lemma sorted_snoc_facts:
  fixes ts :: "instant list"
  assumes "sorted (ts @ [now])" "ts \<noteq> []"
  shows "sorted ts" "\<forall>x \<in> set ts. x \<le> last ts" "last ts \<le> now"
  using assms by (induction ts rule: rev_induct) (auto simp: sorted_append)

lemma panic_run_times:
  "sorted ts \<Longrightarrow> ts \<noteq> [] \<Longrightarrow> fst (panic_run ts []) = recent_panics (last ts) ts"
proof (induction ts rule: rev_induct)
  case (snoc now ts)
  have r: "recent_panics now [now] = [now]" by (simp add: recent_panics_def elapsed_def respawn_window_def secs_def)
  show ?case
  proof (cases "ts = []")
    case True
    then show ?thesis using r by (simp add: record_panic_def Let_def)
  next
    case False
    note s = sorted_snoc_facts [OF snoc.prems(1) False]
    have "recent_panics now (recent_panics (last ts) ts) = recent_panics now ts"
      using recent_recent [OF s(2,3)] .
    then show ?thesis
      using snoc.IH [OF s(1) False] r
      by (simp add: panic_run_snoc record_panic_def Let_def split_def recent_panics_def)
  qed
qed simp

text \<open>After any history of panics of a worker, the daemon respawns it again exactly if at
  most two of the earlier panics lie within the last five minutes: three respawns in a window, and the
  fourth panic ends the daemon.\<close>

lemma respawn_limit:
  assumes "sorted (ts @ [now])"
  shows "last (snd (panic_run (ts @ [now]) [])) \<longleftrightarrow> length (filter (\<lambda>t. now - t < secs 300) ts) < 3"
proof -
  have "recent_panics now (fst (panic_run ts [])) = recent_panics now ts"
  proof (cases "ts = []")
    case False
    note s = sorted_snoc_facts [OF assms False]
    show ?thesis using recent_recent [OF s(2,3)] panic_run_times [OF s(1) False] by simp
  qed simp
  then have "snd (record_panic now (fst (panic_run ts []))) \<longleftrightarrow> Suc (length (recent_panics now ts)) \<le> 3"
    by (simp add: record_panic_def Let_def recent_panics_def max_respawns_def)
  then show ?thesis
    by (simp add: panic_run_snoc split_def Let_def recent_panics_def elapsed_def respawn_window_def less_Suc_eq_le Suc_le_eq)
qed

lemma respawn_limit_witness:
  "last (snd (panic_run ([secs 1, secs 2, secs 400] @ [secs 401]) []))
   \<and> \<not> last (snd (panic_run ([secs 400, secs 400, secs 401] @ [secs 402]) []))"
  using respawn_limit [of "[secs 1, secs 2, secs 400]" "secs 401"] respawn_limit [of "[secs 400, secs 400, secs 401]" "secs 402"]
  by (simp add: secs_def)

subsection \<open>The self-throttle\<close>

datatype throttle_reason = RssWarning | SlowTick

datatype throttle_stage = NormalStage | Backoff30s | Backoff60s

fun stage_interval :: "throttle_stage \<Rightarrow> duration option" where
  "stage_interval NormalStage = None"
| "stage_interval Backoff30s = Some (secs 30)"
| "stage_interval Backoff60s = Some (secs 60)"

record self_monitor_tick =
  rss_bytes :: u64
  rss_warning_bytes :: u64
  rss_hard_limit_bytes :: u64

record throttle_decision =
  td_interval :: duration
  td_stage :: throttle_stage
  td_reason :: "throttle_reason option"
  td_stage_changed :: bool

record tick_throttle =
  consecutive_pressure_ticks :: u8
  throttle_stage :: throttle_stage

definition throttle_default :: tick_throttle where
  "throttle_default = \<lparr>consecutive_pressure_ticks = 0, throttle_stage = NormalStage\<rparr>"

definition slow_tick_threshold :: duration where "slow_tick_threshold = millis 200"
definition throttle_sustained_ticks :: u8 where "throttle_sustained_ticks = 3"
definition throttle_escalate_ticks :: u8 where "throttle_escalate_ticks = throttle_sustained_ticks * 2"

definition throttle_reason_for :: "self_monitor_tick \<Rightarrow> duration \<Rightarrow> throttle_reason option" where
  "throttle_reason_for tick took =
     (if rss_warning_bytes tick < rss_bytes tick then Some RssWarning
      else if slow_tick_threshold < took then Some SlowTick else None)"

definition throttle_observe ::
  "duration \<Rightarrow> self_monitor_tick \<Rightarrow> duration \<Rightarrow> tick_throttle \<Rightarrow> tick_throttle \<times> throttle_decision" where
  "throttle_observe requested tick took t =
     (let reason = throttle_reason_for tick took;
          t1 = (if reason \<noteq> None then
              let n = sat_add (consecutive_pressure_ticks t) 1
              in \<lparr>consecutive_pressure_ticks = n,
                  throttle_stage = (if throttle_escalate_ticks \<le> n then Backoff60s
                    else if throttle_sustained_ticks \<le> n then Backoff30s else NormalStage)\<rparr>
            else \<lparr>consecutive_pressure_ticks = 0, throttle_stage = NormalStage\<rparr>)
      in (t1, \<lparr>td_interval = (case stage_interval (throttle_stage t1) of None \<Rightarrow> requested
                 | Some minimum \<Rightarrow> max requested minimum),
               td_stage = throttle_stage t1, td_reason = reason,
               td_stage_changed = (throttle_stage t1 \<noteq> throttle_stage t)\<rparr>))"

text \<open>A run of ticks: what the monitor read and how long the tick took, the latest last.\<close>

definition throttle_run :: "(duration \<times> self_monitor_tick \<times> duration) list \<Rightarrow> tick_throttle" where
  "throttle_run ticks = foldl (\<lambda>t (req, m, took). fst (throttle_observe req m took t)) throttle_default ticks"

definition over_budget :: "duration \<times> self_monitor_tick \<times> duration \<Rightarrow> bool" where
  "over_budget x = (throttle_reason_for (fst (snd x)) (snd (snd x)) \<noteq> None)"

definition pressured_streak :: "(duration \<times> self_monitor_tick \<times> duration) list \<Rightarrow> nat" where
  "pressured_streak ticks = length (takeWhile over_budget (rev ticks))"

lemma throttle_run_streak:
  "unat (consecutive_pressure_ticks (throttle_run ticks)) = min (pressured_streak ticks) 255
   \<and> throttle_stage (throttle_run ticks) = (if 6 \<le> pressured_streak ticks then Backoff60s
       else if 3 \<le> pressured_streak ticks then Backoff30s else NormalStage)"
proof (induction ticks rule: rev_induct)
  case Nil
  then show ?case by (simp add: throttle_run_def pressured_streak_def throttle_default_def)
next
  case (snoc x ticks)
  obtain req m took where x: "x = (req, m, took)" by (cases x)
  have le: "k \<le> sat_add n 1 \<longleftrightarrow> unat k \<le> min (unat n + 1) 255" for k n :: u8
    by (simp add: word_le_nat_alt)
  show ?case
    using snoc.IH by (auto simp: x throttle_run_def pressured_streak_def over_budget_def throttle_observe_def
        Let_def le throttle_escalate_ticks_def throttle_sustained_ticks_def)
qed

text \<open>The tick after any run of ticks is stretched exactly by the streak of ticks over
  budget that ends it: at least 30 seconds from the third on, at least 60 from the sixth, the requested
  interval otherwise and never less than it; a single tick within budget ends the backoff.\<close>

lemma throttle_ladder:
  "td_interval (snd (throttle_observe req m took (throttle_run ticks))) =
     (let n = pressured_streak (ticks @ [(req, m, took)])
      in if 6 \<le> n then max req (secs 60) else if 3 \<le> n then max req (secs 30) else req)"
proof -
  have "throttle_run (ticks @ [(req, m, took)]) = fst (throttle_observe req m took (throttle_run ticks))"
    by (simp add: throttle_run_def)
  moreover have "td_interval (snd (throttle_observe req m took t)) =
      (case stage_interval (throttle_stage (fst (throttle_observe req m took t))) of None \<Rightarrow> req | Some k \<Rightarrow> max req k)" for t
    by (simp add: throttle_observe_def Let_def)
  ultimately show ?thesis
    using throttle_run_streak [of "ticks @ [(req, m, took)]"] by (simp add: Let_def)
qed

end
