(* ===== verification/Config_Default.thy ===== *)
theory Config_Default
  imports Config
begin

section \<open>The default configuration (src/src/core/config.rs)\<close>

text \<open>
  The sections a fresh installation runs with, and the proof that they pass the validation every loaded
  configuration passes. The file of the update cache and the parallelism of the host are arguments.
\<close>

definition ballast_config_default :: ballast_config where
  "ballast_config_default = \<lparr>file_count = 10, file_size_bytes = 1073741824, replenish_cooldown_minutes = 10,
     auto_provision = True, overrides = []\<rparr>"

definition update_config_default :: "path \<Rightarrow> update_check_config" where
  "update_config_default cache = \<lparr>update_enabled = True, metadata_cache_ttl_seconds = 30 * 60,
     metadata_cache_file = cache, background_refresh = True, notices_enabled = True\<rparr>"

definition config_default :: "usize option \<Rightarrow> path \<Rightarrow> config" where
  "config_default available cache = \<lparr>pressure = pressure_config_default,
     scanner = scanner_config_default available, scoring = scoring_config_default,
     ballast = ballast_config_default, scheduler = voi_config_default,
     update_section = update_config_default cache, telemetry = telemetry_config_default,
     policy_section = policy_config_default, system_tuning = system_tuning_default\<rparr>"

text \<open>Literals in order: rounding keeps the order of rationals that a small dyadic number separates.\<close>

lemma lit_between:
  assumes "p \<le> m" "m \<le> q" "rnd m = Fin m"
  shows "rnd p \<le> Fin m" "Fin m \<le> rnd q"
  using assms by (simp_all add: rnd_le rnd_ge del: f_le_simps)

lemma pressure_default_ok: "validate_pressure fmt pressure_config_default = None"
  by (simp add: validate_pressure_def pressure_config_default_def first_error_none)

lemma prediction_default_ok: "validate_prediction fmt prediction_config_default = None"
  using lit_below_one [of "7/10"]
  by (simp add: validate_prediction_def prediction_config_default_def first_error_none validate_prob_def)

lemma default_parallelism_pos: "default_parallelism available \<noteq> 0"
  by (cases available) (auto simp: default_parallelism_def max_def word_le_nat_alt)

lemma scanner_default_ok: "validate_scanner (scanner_config_default available) = None"
  by (simp add: validate_scanner_def scanner_config_default_def first_error_none default_parallelism_pos)

lemma sysctl_file: "Option.bind (file_name ''/etc/sysctl.d/99-sbh-writeback.conf'') name_extension = Some ''conf''"
  by code_simp

lemma tuning_default_ok: "validate_tuning fmt system_tuning_default = None"
  by (simp add: validate_tuning_def system_tuning_default_def first_error_none f_is_finite_def sysctl_file)

lemma ballast_default_ok: "validate_ballast ballast_config_default = None"
  by (simp add: validate_ballast_def ballast_config_default_def first_error_none)

lemma update_default_ok: "validate_update (update_config_default cache) = None"
  by (simp add: validate_update_def update_config_default_def first_error_none)

lemma telemetry_default_ok: "validate_telemetry telemetry_config_default = None"
proof -
  have "rnd (1/8) = Fin (1/8)" "rnd (3/4) = Fin (3/4)"
    using rnd_at [of "- 3" "1/8"] rnd_at [of "- 1" "3/4"] by (simp_all add: power_int_minus round_half_even_def Let_def)
  then have "rnd (1/10) \<le> Fin (1/8)" "Fin (1/8) \<le> rnd (3/10)" "rnd (3/10) \<le> Fin (1/2)" "rnd (3/4) = Fin (3/4)"
    using lit_between(1) [of "1/10" "1/8" 1] lit_between(2) [of 0 "1/8" "3/10"]
      lit_between(1) [of "3/10" "1/2" 1] by (simp_all del: f_le_simps)
  moreover obtain l where "lit (1/10) = Fin l" "0 < l" using lit_pos [of "1/10"] by auto
  moreover obtain r where "lit (3/10) = Fin r" using lit_pos [of "3/10"] by auto
  ultimately show ?thesis
    by (auto simp: validate_telemetry_def telemetry_config_default_def first_error_none)
qed

lemma scheduler_default_ok: "validate_scheduler fmt voi_config_default = None"
proof -
  have "\<exists>a. rnd (1/5) = Fin a \<and> 0 \<le> a \<and> a \<le> 1" "\<exists>a. rnd (3/10) = Fin a \<and> 0 \<le> a \<and> a \<le> 1"
    "\<exists>a. rnd (1/10) = Fin a \<and> 0 \<le> a \<and> a \<le> 1" "\<exists>a. rnd (3/20) = Fin a \<and> 0 \<le> a \<and> a \<le> 1"
    "\<exists>a. rnd (1/4) = Fin a \<and> 0 \<le> a \<and> a \<le> 1" "\<exists>a. rnd (1/2) = Fin a \<and> 0 \<le> a \<and> a \<le> 1"
    by (rule lit_unit; simp)+
  then show ?thesis
    by (auto simp: validate_scheduler_def voi_config_default_def first_error_none validate_prob_def bad_weight_def
      f_is_finite_def)
qed

text \<open>The default weights sum to one, although neither one fifth nor three twentieths is a float.\<close>

lemma default_weights:
  "lit (1/5) = Fin (7205759403792794 / 2 ^ 55)" "lit (3/20) = Fin (5404319552844595 / 2 ^ 55)"
  "rnd (1/2 + 7205759403792794 / 2 ^ 55) = Fin (6305039478318694 / 2 ^ 53)"
  "rnd (6305039478318694 / 2 ^ 53 + 5404319552844595 / 2 ^ 55) = Fin (7656119366529843 / 2 ^ 53)"
  "rnd (7656119366529843 / 2 ^ 53 + 5404319552844595 / 2 ^ 55) = Fin 1"
proof -
  have "\<lfloor>36028797018963968 / 5 :: rat\<rfloor> = 7205759403792793" "\<lfloor>27021597764222976 / 5 :: rat\<rfloor> = 5404319552844595"
    "\<lfloor>12610078956637389 / 2 :: rat\<rfloor> = 6305039478318694" "\<lfloor>30624477466119371 / 4 :: rat\<rfloor> = 7656119366529842"
    "\<lfloor>36028797018963967 / 4 :: rat\<rfloor> = 9007199254740991"
    by (rule floor_unique; simp)+
  then show "lit (1/5) = Fin (7205759403792794 / 2 ^ 55)" "lit (3/20) = Fin (5404319552844595 / 2 ^ 55)"
    "rnd (1/2 + 7205759403792794 / 2 ^ 55) = Fin (6305039478318694 / 2 ^ 53)"
    "rnd (6305039478318694 / 2 ^ 53 + 5404319552844595 / 2 ^ 55) = Fin (7656119366529843 / 2 ^ 53)"
    "rnd (7656119366529843 / 2 ^ 53 + 5404319552844595 / 2 ^ 55) = Fin 1"
    using rnd_at [of "- 3" "1/5"] rnd_at [of "- 3" "3/20"] rnd_at [of "- 1" "1/2 + 7205759403792794 / 2 ^ 55"]
      rnd_at [of "- 1" "6305039478318694 / 2 ^ 53 + 5404319552844595 / 2 ^ 55"]
      rnd_at [of "- 1" "7656119366529843 / 2 ^ 53 + 5404319552844595 / 2 ^ 55"]
    by (simp_all add: power_int_minus round_half_even_def Let_def)
qed

lemma scoring_default_ok: "validate_scoring fmt scoring_config_default = None"
proof -
  have q: "rnd (1/4) = Fin (1/4)" "rnd (3/8) = Fin (3/8)"
    using rnd_at [of "- 2" "1/4"] rnd_at [of "- 2" "3/8"] by (simp_all add: power_int_minus round_half_even_def Let_def)
  have "\<exists>a. rnd (7/20) = Fin a \<and> 0 \<le> a \<and> a \<le> 1" "\<exists>a. rnd (2/5) = Fin a \<and> 0 \<le> a \<and> a \<le> 1"
    by (rule lit_unit; simp)+
  moreover have "rnd (7/20) \<le> Fin (3/8)" "Fin (3/8) \<le> rnd (2/5)"
    using lit_between [of "7/20" "3/8" "2/5"] q(2) by (simp_all del: f_le_simps)
  ultimately show ?thesis using default_weights(1,2) q
    by (auto simp: validate_scoring_def scoring_config_default_def first_error_none validate_prob_def bad_weight_def
      f_is_finite_def)
qed

lemma default_weight_sum: "weight_sum scoring_config_default = Fin 1"
proof -
  have "rnd (1/4) = Fin (1/4)" using rnd_at [of "- 2" "1/4"] by (simp add: power_int_minus round_half_even_def Let_def)
  moreover have "rnd (1/2) = Fin (1/2)" using rnd_at [of "- 1" "1/2"] by (simp add: power_int_minus round_half_even_def Let_def)
  ultimately show ?thesis using default_weights
    by (simp add: weight_sum_def scoring_config_default_def fin_ops)
qed

text \<open>A fresh installation starts: its configuration is one that \<open>load\<close> accepts.\<close>

lemma default_config_validates: "validate env fmt (config_default available cache) = None"
proof -
  obtain l where "lit (1 / 1000000000) = Fin l" "0 < l" using lit_pos [of "1 / 1000000000"] by auto
  then show ?thesis
    by (simp add: validate_def config_default_def first_error_none pressure_default_ok prediction_default_ok
      scanner_default_ok scoring_default_ok scheduler_default_ok default_weight_sum telemetry_default_ok
      ballast_default_ok update_default_ok tuning_default_ok pressure_config_default_def [THEN arg_cong, of prediction]
      scanner_config_default_def [THEN arg_cong, of cfg_protected_paths] fin_ops)
qed

end
