(* ===== verification/Monitor.thy ===== *)
theory Monitor
  imports Config_Default Guardrails Platform
begin

section \<open>The monitor of a mount (src/src/daemon/loop_main.rs)\<close>

text \<open>
  Per mount the daemon keeps a rate estimator, a pressure controller, a calibration guard and the last
  sample the guard saw. A tick feeds one reading of the file system through all of them; \<open>None\<close> is a
  panic of one of the clamps. The exponential and the logarithm of the platform are arguments.
\<close>

record guard_sample =
  gs_at :: instant
  gs_available_bytes :: u64
  gs_predicted_rate :: f64
  gs_predicted_tte :: f64

record mount_monitor =
  mm_estimator :: rate_estimator
  mm_pid :: pid
  mm_guard :: adaptive_guard
  mm_guard_sample :: "guard_sample option"

definition monitor_guard_config :: "telemetry_config \<Rightarrow> guardrail_config" where
  "monitor_guard_config t = guardrail_config_default\<lparr>min_observations := guardrail_min_observations t,
     window_size := guardrail_window_size t\<rparr>"

definition monitor_new :: "config \<Rightarrow> mount_monitor" where
  "monitor_new c =
     (let p = pressure c; t = telemetry c;
          ctl = pid_new (lit (25/100)) (lit (8/100)) (lit (2/100)) (lit 100) (cfg_green_min p) (lit 1)
            (cfg_green_min p) (cfg_yellow_min p) (cfg_orange_min p) (cfg_red_min p)
            (millis (unat (poll_interval_ms p)))
      in \<lparr>mm_estimator = with_history_cap (ewma_base_alpha t) (ewma_min_alpha t) (ewma_max_alpha t)
            (ewma_min_samples t) (unat (ewma_rate_history_size t)),
          mm_pid = (if prediction_enabled (prediction p)
            then set_action_horizon_minutes (action_horizon_minutes (prediction p)) ctl else ctl),
          mm_guard = guard_new (monitor_guard_config t),
          mm_guard_sample = None\<rparr>)"

definition monitor_update_config :: "config \<Rightarrow> mount_monitor \<Rightarrow> mount_monitor" where
  "monitor_update_config c m =
     (let p = pressure c; t = telemetry c;
          ctl = set_base_poll_interval (millis (unat (poll_interval_ms p)))
            (set_pressure_thresholds (cfg_green_min p) (cfg_yellow_min p) (cfg_orange_min p) (cfg_red_min p)
              (set_target_free_pct (cfg_green_min p) (mm_pid m)))
      in m\<lparr>mm_estimator := update_params (ewma_base_alpha t) (ewma_min_alpha t) (ewma_max_alpha t)
             (ewma_min_samples t) (mm_estimator m),
           mm_pid := (if prediction_enabled (prediction p)
             then set_action_horizon_minutes (action_horizon_minutes (prediction p)) ctl
             else disable_urgency_boost ctl)\<rparr>)"

text \<open>What the guard learns from a reading: the rate and the time that came true since the last sample.\<close>

definition guard_step ::
  "(f64 \<Rightarrow> f64) \<Rightarrow> (f64 \<Rightarrow> f64) \<Rightarrow> instant \<Rightarrow> u64 \<Rightarrow> u64 \<Rightarrow> rate_estimate \<Rightarrow> mount_monitor \<Rightarrow> mount_monitor" where
  "guard_step fexp fln now available threshold est m =
     (case mm_guard_sample m of None \<Rightarrow> m
      | Some previous \<Rightarrow>
          if now < gs_at previous then m
          else let dt = as_secs_f64 (now - gs_at previous) in
            if lit (1 / 10 ^ 6) < dt
            then let rate = (f_of_word (gs_available_bytes previous) - f_of_word available) / dt in
              m\<lparr>mm_guard := guard_observe fexp fln
                \<lparr>predicted_rate = gs_predicted_rate previous, actual_rate = rate,
                 predicted_tte = gs_predicted_tte previous,
                 actual_tte = (if available \<le> threshold then dt else FInf False),
                 burst_outlier = is_burst_outlier (estimate_burst est) rate\<rparr> (mm_guard m)\<rparr>
            else m)"

definition observe_guard ::
  "(f64 \<Rightarrow> f64) \<Rightarrow> (f64 \<Rightarrow> f64) \<Rightarrow> instant \<Rightarrow> u64 \<Rightarrow> u64 \<Rightarrow> rate_estimate \<Rightarrow> mount_monitor \<Rightarrow>
     mount_monitor \<times> guard_diagnostics" where
  "observe_guard fexp fln now available threshold est m =
     (let m1 = (guard_step fexp fln now available threshold est m)
          \<lparr>mm_guard_sample := Some \<lparr>gs_at = now, gs_available_bytes = available,
             gs_predicted_rate = (if f_is_finite (bytes_per_second est) then bytes_per_second est else 0),
             gs_predicted_tte = (if f_is_finite (seconds_to_threshold est) \<and> 0 \<le> seconds_to_threshold est
               then seconds_to_threshold est else FInf False)\<rparr>\<rparr>
      in (m1, guard_diagnose fexp (mm_guard m1)))"

definition red_threshold_bytes :: "config \<Rightarrow> fs_stats \<Rightarrow> u64" where
  "red_threshold_bytes c s = f_to_usize (f_of_word (total_bytes_of s) * cfg_red_min (pressure c) / lit 100)"

definition usable_seconds :: "f64 \<Rightarrow> f64 option" where
  "usable_seconds x = (if f_is_finite x \<and> 0 < x then Some x else None)"

definition monitor_tick ::
  "(f64 \<Rightarrow> f64) \<Rightarrow> (f64 \<Rightarrow> f64) \<Rightarrow> config \<Rightarrow> instant \<Rightarrow> fs_stats \<Rightarrow> mount_monitor \<Rightarrow>
     (mount_monitor \<times> pressure_response \<times> rate_estimate \<times> guard_diagnostics) option" where
  "monitor_tick fexp fln c now s m =
     (let threshold = red_threshold_bytes c s in
      case estimator_update (available_bytes s) now threshold (mm_estimator m) of
        None \<Rightarrow> None
      | Some (e, est) \<Rightarrow>
          let (m1, diag) = observe_guard fexp fln now (available_bytes s) threshold est (m\<lparr>mm_estimator := e\<rparr>)
          in (case pid_update fexp (mm_pid m1)
                \<lparr>pressure_reading.free_bytes = available_bytes s, pressure_reading.total_bytes = total_bytes_of s,
                 reading_mount = fs_mount_point s\<rparr>
                (usable_seconds (seconds_to_threshold est)) now of
                None \<Rightarrow> None
              | Some (ctl, resp) \<Rightarrow> Some (m1\<lparr>mm_pid := ctl\<rparr>, resp, est, diag)))"

subsection \<open>Reachable monitors\<close>

text \<open>The life of a monitor: it starts from a validated configuration, may be given other validated ones,
  and ticks at clock readings of the next \<open>2 ^ 94\<close> nanoseconds, half a million million years.\<close>

inductive monitor_reach ::
  "protect_env \<Rightarrow> (f64 \<Rightarrow> string) \<Rightarrow> (f64 \<Rightarrow> f64) \<Rightarrow> (f64 \<Rightarrow> f64) \<Rightarrow> mount_monitor \<Rightarrow> bool"
  for env fmt fexp fln where
  fresh: "validate env fmt c = None \<Longrightarrow> monitor_reach env fmt fexp fln (monitor_new c)"
| reload: "monitor_reach env fmt fexp fln m \<Longrightarrow> validate env fmt c = None \<Longrightarrow>
    monitor_reach env fmt fexp fln (monitor_update_config c m)"
| tick: "monitor_reach env fmt fexp fln m \<Longrightarrow> now < 2 ^ 94 \<Longrightarrow>
    monitor_tick fexp fln c now s m = Some (m', resp, est, diag) \<Longrightarrow> monitor_reach env fmt fexp fln m'"

definition monitor_wf :: "mount_monitor \<Rightarrow> bool" where
  "monitor_wf m = (min_alpha (mm_estimator m) \<le> max_alpha (mm_estimator m) \<and> pid_wf (mm_pid m)
     \<and> base_poll_interval (mm_pid m) < 2 ^ 94)"

text \<open>What the validation gives the monitor.\<close>

lemma validated_sections:
  assumes "validate env fmt c = None"
  shows "validate_pressure fmt (pressure c) = None" "validate_telemetry (telemetry c) = None"
    "validate_prediction fmt (prediction (pressure c)) = None"
  using assms by (simp_all add: validate_def first_error_none)

lemma validated_alphas:
  assumes "validate env fmt c = None"
  shows "ewma_min_alpha (telemetry c) \<le> ewma_max_alpha (telemetry c)"
  using validated_sections(2) [OF assms] f_le_trans by (auto simp: validate_telemetry_def first_error_none)

lemma validated_green:
  assumes "validate env fmt c = None"
  shows "\<exists>g. cfg_green_min (pressure c) = Fin g"
proof -
  have "0 \<le> cfg_green_min (pressure c) \<and> cfg_green_min (pressure c) \<le> lit 100"
    using validated_sections(1) [OF assms] by (simp add: validate_pressure_def first_error_none)
  then show ?thesis by (cases "cfg_green_min (pressure c)") auto
qed

lemma poll_small: "millis (unat (n :: u64)) < 2 ^ 94"
proof -
  have "unat n < 2 ^ LENGTH(64)" by (rule unsigned_less)
  then show ?thesis by (simp add: millis_def)
qed

text \<open>Setting the horizon or switching the boost off touches neither the integral nor the target.\<close>

lemma pid_setters:
  "pid_wf (set_action_horizon_minutes x p) = pid_wf p" "pid_wf (disable_urgency_boost p) = pid_wf p"
  "pid_wf (set_base_poll_interval d p) = pid_wf p" "pid_wf (set_pressure_thresholds a b e f p) = pid_wf p"
  "base_poll_interval (set_action_horizon_minutes x p) = base_poll_interval p"
  "base_poll_interval (disable_urgency_boost p) = base_poll_interval p"
  "base_poll_interval (set_base_poll_interval d p) = d"
  by (simp_all add: pid_wf_def set_action_horizon_minutes_def disable_urgency_boost_def
      set_base_poll_interval_def set_pressure_thresholds_def Let_def)

lemma pid_wf_target: "pid_wf p \<Longrightarrow> pid_wf (set_target_free_pct (Fin g) p)"
  by (auto simp: pid_wf_iff set_target_free_pct_def Let_def)

lemma monitor_wf_new:
  assumes "validate env fmt c = None"
  shows "monitor_wf (monitor_new c)"
proof -
  obtain g where "cfg_green_min (pressure c) = Fin g" using validated_green [OF assms] by blast
  then show ?thesis using validated_alphas [OF assms] poll_small
    by (auto simp: monitor_wf_def monitor_new_def with_history_cap_def pid_new_def pid_wf_iff
        set_action_horizon_minutes_def Let_def)
qed

lemma monitor_wf_reload:
  assumes "monitor_wf m" "validate env fmt c = None"
  shows "monitor_wf (monitor_update_config c m)"
proof -
  obtain g where "cfg_green_min (pressure c) = Fin g" using validated_green [OF assms(2)] by blast
  then show ?thesis using assms(1) validated_alphas [OF assms(2)] poll_small
    by (simp add: monitor_wf_def monitor_update_config_def update_params_def pid_setters pid_wf_target Let_def)
qed

lemma burst_alphas:
  assumes "compute_burst_state x e = (e1, bs)"
  shows "min_alpha e1 = min_alpha e" "max_alpha e1 = max_alpha e"
proof -
  have "min_alpha (fst (compute_burst_state x e)) = min_alpha e \<and>
      max_alpha (fst (compute_burst_state x e)) = max_alpha e"
    by (simp add: compute_burst_state_def Let_def)
  then show "min_alpha e1 = min_alpha e" "max_alpha e1 = max_alpha e" by (simp_all add: assms)
qed

lemma update_step_alphas:
  "min_alpha (fst (update_step r dt free t now a e)) = min_alpha e"
  "max_alpha (fst (update_step r dt free t now a e)) = max_alpha e"
  by (auto simp: update_step_def Let_def dest: burst_alphas split: prod.split option.split)

lemma estimator_total:
  assumes "min_alpha e \<le> max_alpha e"
  shows "\<exists>e' est. estimator_update free now threshold e = Some (e', est)
    \<and> min_alpha e' = min_alpha e \<and> max_alpha e' = max_alpha e"
proof -
  have pair: "\<exists>e' est. update_step r dt free threshold now a e = (e', est)
    \<and> min_alpha e' = min_alpha e \<and> max_alpha e' = max_alpha e" for r dt a
    using update_step_alphas by (metis prod.collapse)
  show ?thesis
    using assms pair by (auto simp: estimator_update_def clamp_checked_def Let_def split: option.split)
qed

lemma guard_step_fields [simp]:
  "mm_estimator (guard_step fexp fln now a t est m) = mm_estimator m"
  "mm_pid (guard_step fexp fln now a t est m) = mm_pid m"
  by (simp_all add: guard_step_def Let_def split: option.split)

lemma observe_guard_fields:
  assumes "observe_guard fexp fln now a t est m = (m1, diag)"
  shows "mm_estimator m1 = mm_estimator m" "mm_pid m1 = mm_pid m"
  using assms by (auto simp: observe_guard_def Let_def)

lemma monitor_tick_total:
  assumes wf: "monitor_wf m" and now: "now < 2 ^ 94"
  shows "\<exists>m' resp est diag. monitor_tick fexp fln c now s m = Some (m', resp, est, diag) \<and> monitor_wf m'"
proof -
  obtain e est where e: "estimator_update (available_bytes s) now (red_threshold_bytes c s) (mm_estimator m)
      = Some (e, est)" and alphas: "min_alpha e \<le> max_alpha e"
    using wf estimator_total by (metis monitor_wf_def)
  obtain m1 diag where m1: "observe_guard fexp fln now (available_bytes s) (red_threshold_bytes c s) est
      (m\<lparr>mm_estimator := e\<rparr>) = (m1, diag)" by fastforce
  note fields = observe_guard_fields [OF m1]
  obtain p resp where "pid_update fexp (mm_pid m1) \<lparr>pressure_reading.free_bytes = available_bytes s,
        pressure_reading.total_bytes = total_bytes_of s, reading_mount = fs_mount_point s\<rparr>
        (usable_seconds (seconds_to_threshold est)) now = Some (p, resp)"
      "pid_wf p" "base_poll_interval p = base_poll_interval (mm_pid m1)"
    using pid_update_total [of "mm_pid m1" now] wf now fields by (metis monitor_wf_def mount_monitor.select_convs(2)
        mount_monitor.surjective mount_monitor.update_convs(1))
  then show ?thesis using e m1 alphas wf fields by (simp add: monitor_tick_def monitor_wf_def)
qed

lemma reachable_monitor_wf: "monitor_reach env fmt fexp fln m \<Longrightarrow> monitor_wf m"
proof (induction rule: monitor_reach.induct)
  case (tick m now c s m' resp est diag)
  then show ?case using monitor_tick_total [of m now fexp fln c s] by auto
qed (simp_all add: monitor_wf_new monitor_wf_reload)

text \<open>Progress and preservation for the monitor of a mount. Whatever validated
  configurations it was created and reloaded with and whatever readings it has seen, its next tick
  returns - none of the clamps of the estimator and of the controller panics - and the next state is
  reachable again. The validation of the configuration is what makes it so.\<close>

lemma validated_monitor_runs:
  assumes "monitor_reach env fmt fexp fln m" and "now < 2 ^ 94"
  shows "\<exists>m' resp est diag. monitor_tick fexp fln c now s m = Some (m', resp, est, diag)
    \<and> monitor_reach env fmt fexp fln m'"
proof -
  obtain m' resp est diag where "monitor_tick fexp fln c now s m = Some (m', resp, est, diag)"
    using monitor_tick_total [OF reachable_monitor_wf [OF assms(1)] assms(2)] by blast
  then show ?thesis using monitor_reach.tick assms by blast
qed

text \<open>The monitor of a fresh installation, on a file system without extended behaviour.\<close>

definition demo_monitor_env :: protect_env where
  "demo_monitor_env = \<lparr>home = None, current_dir = None, canonical = (\<lambda>_ k. Some k), metadata_error = (\<lambda>_. None),
     listing_error = (\<lambda>_. None), entry_lost = (\<lambda>_. False), file_text = (\<lambda>_ _. None), regex = (\<lambda>_. Inl []),
     parse_metadata = (\<lambda>_. None), metadata_toml = (\<lambda>_. Inr []), write_file = (\<lambda>_ _ w. Inr w), unlink = (\<lambda>_ w. Inr w)\<rparr>"

definition demo_fs_stats :: fs_stats where
  "demo_fs_stats = \<lparr>total_bytes_of = 1000, free_bytes = 50, available_bytes = 40, fs_stat_type = ''ext4'',
     fs_mount_point = ''/data'', is_readonly = False\<rparr>"

lemma fresh_monitor_runs:
  "\<exists>m' resp est diag. monitor_tick (\<lambda>_. Fin (1/2)) (\<lambda>_. 0) (config_default None ''/c'') 7 demo_fs_stats
      (monitor_new (config_default None ''/c'')) = Some (m', resp, est, diag)
    \<and> monitor_reach demo_monitor_env (\<lambda>_. []) (\<lambda>_. Fin (1/2)) (\<lambda>_. 0) m'"
  by (rule validated_monitor_runs [OF monitor_reach.fresh [OF default_config_validates]]) simp

end
