(* ===== verification/Fs_Collector.thy ===== *)
theory Fs_Collector
  imports Protection Platform
begin

section \<open>The statistics collector (src/src/monitor/fs_stats.rs)\<close>

text \<open>
  A cache of the mount table and of the statistics of every mount, each entry with the clock reading it
  was stored at. What the platform answers at a moment and the resolution of paths are arguments; the
  hash map of the source is a map from paths up to equality of components. The readings of the clock are
  numbered in the order the code takes them.
\<close>

record cached_stats =
  cst_stats :: fs_stats
  collected_at :: instant

record collector =
  cache_ttl :: duration
  stats_cache :: "component list \<Rightarrow> cached_stats option"
  mount_cache :: "(mount_point list \<times> instant) option"

record os_view =
  os_mounts :: "instant \<Rightarrow> sbh_error + mount_point list"
  os_stats :: "instant \<Rightarrow> path \<Rightarrow> sbh_error + fs_stats"
  os_penv :: protect_env
  os_tree :: tree

definition collector_new :: "duration \<Rightarrow> collector" where
  "collector_new ttl = \<lparr>cache_ttl = ttl, stats_cache = (\<lambda>_. None), mount_cache = None\<rparr>"

definition set_ttl :: "duration \<Rightarrow> collector \<Rightarrow> collector" where
  "set_ttl ttl c = c\<lparr>cache_ttl := ttl\<rparr>"

definition cached_mounts :: "os_view \<Rightarrow> (nat \<Rightarrow> instant) \<Rightarrow> collector \<Rightarrow> (sbh_error + mount_point list) \<times> collector" where
  "cached_mounts os clk c =
     (let fetch = (case os_mounts os (clk 1) of Inl e \<Rightarrow> (Inl e, c)
            | Inr fresh \<Rightarrow> (Inr fresh, c\<lparr>mount_cache := Some (fresh, clk 2)\<rparr>))
      in case mount_cache c of None \<Rightarrow> fetch
         | Some (mounts, stamp) \<Rightarrow> if elapsed (clk 0) stamp \<le> cache_ttl c then (Inr mounts, c) else fetch)"

definition cache_hit :: "instant \<Rightarrow> path \<Rightarrow> collector \<Rightarrow> fs_stats option" where
  "cache_hit now p c = (case stats_cache c (components p) of None \<Rightarrow> None
     | Some e \<Rightarrow> if cache_ttl c < elapsed now (collected_at e) then None else Some (cst_stats e))"

definition collect_for_mount :: "os_view \<Rightarrow> (nat \<Rightarrow> instant) \<Rightarrow> path \<Rightarrow> collector \<Rightarrow> (sbh_error + fs_stats) \<times> collector" where
  "collect_for_mount os clk p c = (case cache_hit (clk 3) p c of Some s \<Rightarrow> (Inr s, c)
     | None \<Rightarrow> (case os_stats os (clk 4) p of Inl e \<Rightarrow> (Inl e, c)
        | Inr s \<Rightarrow> (Inr s, c\<lparr>stats_cache := (stats_cache c)(components p \<mapsto> \<lparr>cst_stats = s, collected_at = clk 5\<rparr>)\<rparr>)))"

subsection \<open>The mount of a path\<close>

text \<open>A mount also matches through the resolved form of its own path.\<close>

definition path_matches_mount :: "os_view \<Rightarrow> path_key \<Rightarrow> path \<Rightarrow> bool" where
  "path_matches_mount os k mount = (prefix (components mount) k
     \<or> (let r = resolve_absolute_path (os_penv os) (os_tree os) (components mount)
        in r \<noteq> components mount \<and> prefix r k))"

definition collector_find_mount :: "os_view \<Rightarrow> path_key \<Rightarrow> mount_point list \<Rightarrow> mount_point option" where
  "collector_find_mount os k mounts =
     foldl longer_mount None (filter (\<lambda>m. path_matches_mount os k (mp_path m)) mounts)"

definition resolved :: "os_view \<Rightarrow> path \<Rightarrow> path_key" where
  "resolved os p = resolve_absolute_path (os_penv os) (os_tree os) (components p)"

definition no_mount_error :: "path \<Rightarrow> sbh_error" where
  "no_mount_error p = FsStatsError p ''path does not belong to known mount''"

definition collect :: "os_view \<Rightarrow> (nat \<Rightarrow> instant) \<Rightarrow> path \<Rightarrow> collector \<Rightarrow> (sbh_error + fs_stats) \<times> collector" where
  "collect os clk p c = (case cached_mounts os clk c of (Inl e, c1) \<Rightarrow> (Inl e, c1)
     | (Inr mounts, c1) \<Rightarrow>
        (case collector_find_mount os (resolved os p) mounts of
           None \<Rightarrow> (Inl (no_mount_error p), c1)
         | Some m \<Rightarrow> collect_for_mount os clk (mp_path m) c1))"

text \<open>Several paths at once: every mount is read once, in the order of the hash set of the source (\<open>visit\<close>);
  the first path without a mount, or the first reading that fails, ends the collection.\<close>

fun mounts_needed :: "os_view \<Rightarrow> mount_point list \<Rightarrow> path list \<Rightarrow> sbh_error + path list" where
  "mounts_needed os mounts [] = Inr []"
| "mounts_needed os mounts (p # ps) = (case collector_find_mount os (resolved os p) mounts of
     None \<Rightarrow> Inl (no_mount_error p)
   | Some m \<Rightarrow> (case mounts_needed os mounts ps of Inl e \<Rightarrow> Inl e
      | Inr ms \<Rightarrow> Inr (if list_ex (path_eq (mp_path m)) ms then ms else mp_path m # ms)))"

fun collect_mounts ::
  "os_view \<Rightarrow> (nat \<Rightarrow> nat \<Rightarrow> instant) \<Rightarrow> path list \<Rightarrow> collector \<Rightarrow> (sbh_error + (path \<times> fs_stats) list) \<times> collector" where
  "collect_mounts os clks [] c = (Inr [], c)"
| "collect_mounts os clks (m # ms) c = (case collect_for_mount os (clks 0) m c of (Inl e, c1) \<Rightarrow> (Inl e, c1)
     | (Inr s, c1) \<Rightarrow> (case collect_mounts os (\<lambda>i. clks (Suc i)) ms c1 of (Inl e, c2) \<Rightarrow> (Inl e, c2)
        | (Inr kvs, c2) \<Rightarrow> (Inr ((m, s) # kvs), c2)))"

fun assign_stats ::
  "os_view \<Rightarrow> mount_point list \<Rightarrow> (path \<times> fs_stats) list \<Rightarrow> path list \<Rightarrow> sbh_error + (path \<times> fs_stats) list" where
  "assign_stats os mounts per_mount [] = Inr []"
| "assign_stats os mounts per_mount (p # ps) = (case collector_find_mount os (resolved os p) mounts of
     None \<Rightarrow> Inl (no_mount_error p)
   | Some m \<Rightarrow> (case List.find (\<lambda>kv. path_eq (mp_path m) (fst kv)) per_mount of
        None \<Rightarrow> Inl (FsStatsError (mp_path m) ''mount stats missing after collection'')
      | Some kv \<Rightarrow> (case assign_stats os mounts per_mount ps of Inl e \<Rightarrow> Inl e
          | Inr kvs \<Rightarrow> Inr ((p, snd kv) # kvs))))"

definition collect_many ::
  "os_view \<Rightarrow> (nat \<Rightarrow> instant) \<Rightarrow> (nat \<Rightarrow> nat \<Rightarrow> instant) \<Rightarrow> (path list \<Rightarrow> path list) \<Rightarrow> path list \<Rightarrow> collector \<Rightarrow>
     (sbh_error + (path \<times> fs_stats) list) \<times> collector" where
  "collect_many os clk clks visit ps c =
     (if ps = [] then (Inr [], c)
      else case cached_mounts os clk c of (Inl e, c1) \<Rightarrow> (Inl e, c1)
        | (Inr mounts, c1) \<Rightarrow> (case mounts_needed os mounts ps of Inl e \<Rightarrow> (Inl e, c1)
           | Inr ms \<Rightarrow> (case collect_mounts os clks (visit ms) c1 of (Inl e, c2) \<Rightarrow> (Inl e, c2)
              | (Inr kvs, c2) \<Rightarrow> (assign_stats os mounts kvs ps, c2))))"

definition prune_expired_cache :: "instant \<Rightarrow> collector \<Rightarrow> collector" where
  "prune_expired_cache now c =
     c\<lparr>stats_cache := (\<lambda>k. case stats_cache c k of None \<Rightarrow> None
         | Some e \<Rightarrow> if elapsed now (collected_at e) \<le> cache_ttl c then Some e else None),
       mount_cache := (case mount_cache c of None \<Rightarrow> None
         | Some (ms, stamp) \<Rightarrow> if cache_ttl c < elapsed now stamp then None else Some (ms, stamp))\<rparr>"

subsection \<open>Reachable collectors\<close>

text \<open>The index of the relation is a moment no later than which every step so far was taken.\<close>

inductive collector_reach :: "os_view \<Rightarrow> instant \<Rightarrow> collector \<Rightarrow> bool" for os where
  new: "collector_reach os now (collector_new ttl)"
| ttl: "collector_reach os now c \<Longrightarrow> collector_reach os now (set_ttl ttl c)"
| prune: "collector_reach os now c \<Longrightarrow> collector_reach os later (prune_expired_cache later c)" if "now \<le> later"
| collect: "collector_reach os now c \<Longrightarrow> now \<le> clk 0 \<Longrightarrow> mono clk \<Longrightarrow>
    collector_reach os (clk 5) (snd (collect os clk p c))"

text \<open>What a reading is worth: the platform gave it at \<open>read\<close>, and it was stored at \<open>stamp\<close>.\<close>

definition stats_read :: "os_view \<Rightarrow> path_key \<Rightarrow> fs_stats \<Rightarrow> instant \<Rightarrow> bool" where
  "stats_read os k s stamp = (\<exists>read p. read \<le> stamp \<and> components p = k \<and> os_stats os read p = Inr s)"

definition mounts_read :: "os_view \<Rightarrow> mount_point list \<Rightarrow> instant \<Rightarrow> bool" where
  "mounts_read os ms stamp = (\<exists>read \<le> stamp. os_mounts os read = Inr ms)"

definition collector_ok :: "os_view \<Rightarrow> instant \<Rightarrow> collector \<Rightarrow> bool" where
  "collector_ok os now c =
     ((\<forall>k e. stats_cache c k = Some e \<longrightarrow> collected_at e \<le> now \<and> stats_read os k (cst_stats e) (collected_at e))
      \<and> (\<forall>ms stamp. mount_cache c = Some (ms, stamp) \<longrightarrow> stamp \<le> now \<and> mounts_read os ms stamp))"

lemma collector_ok_later: "collector_ok os now c \<Longrightarrow> now \<le> later \<Longrightarrow> collector_ok os later c"
  unfolding collector_ok_def by (meson order_trans)

lemma cached_mounts_ok:
  assumes "collector_ok os now c" "now \<le> clk 0" "mono clk" "cached_mounts os clk c = (r, c1)"
  shows "collector_ok os (clk 2) c1" "cache_ttl c1 = cache_ttl c"
    "r = Inr ms \<Longrightarrow> \<exists>stamp \<le> clk 2. mounts_read os ms stamp \<and> elapsed (clk 0) stamp \<le> cache_ttl c"
proof -
  have le: "clk 0 \<le> clk 2" "clk 1 \<le> clk 2" using assms(3) by (simp_all add: mono_def)
  note ok = collector_ok_later [OF assms(1) order_trans [OF assms(2) le(1)]]
  consider (hit) ms0 stamp where "mount_cache c = Some (ms0, stamp)" "r = Inr ms0" "c1 = c"
      "elapsed (clk 0) stamp \<le> cache_ttl c"
    | (failed) e where "r = Inl e" "c1 = c"
    | (fetched) fresh where "os_mounts os (clk 1) = Inr fresh" "r = Inr fresh"
      "c1 = c\<lparr>mount_cache := Some (fresh, clk 2)\<rparr>"
    using assms(4) by (auto simp: cached_mounts_def Let_def split: option.splits sum.splits if_splits) metis+
  then have "collector_ok os (clk 2) c1 \<and> cache_ttl c1 = cache_ttl c \<and>
    (r = Inr ms \<longrightarrow> (\<exists>stamp \<le> clk 2. mounts_read os ms stamp \<and> elapsed (clk 0) stamp \<le> cache_ttl c))"
  proof cases
    case hit
    then have "stamp \<le> clk 2" "mounts_read os ms0 stamp" using ok by (auto simp: collector_ok_def)
    then show ?thesis using ok hit by auto
  next
    case failed
    then show ?thesis using ok by simp
  next
    case fetched
    then have "mounts_read os fresh (clk 2)" using le(2) by (auto simp: mounts_read_def)
    moreover have "elapsed (clk 0) (clk 2) \<le> cache_ttl c" using le(1) by (simp add: elapsed_def)
    ultimately show ?thesis using ok fetched by (auto simp: collector_ok_def)
  qed
  then show "collector_ok os (clk 2) c1" "cache_ttl c1 = cache_ttl c"
    "r = Inr ms \<Longrightarrow> \<exists>stamp \<le> clk 2. mounts_read os ms stamp \<and> elapsed (clk 0) stamp \<le> cache_ttl c" by blast+
qed

lemma collect_for_mount_ok:
  assumes "collector_ok os (clk 2) c" "mono clk" "collect_for_mount os clk p c = (r, c1)"
  shows "collector_ok os (clk 5) c1"
    "r = Inr s \<Longrightarrow> \<exists>stamp. stats_read os (components p) s stamp \<and> elapsed (clk 3) stamp \<le> cache_ttl c"
proof -
  have le: "clk 2 \<le> clk 5" "clk 4 \<le> clk 5" "clk 3 \<le> clk 5" using assms(2) by (simp_all add: mono_def)
  note ok = collector_ok_later [OF assms(1) le(1)]
  consider (hit) s0 where "cache_hit (clk 3) p c = Some s0" "r = Inr s0" "c1 = c"
    | (failed) e where "r = Inl e" "c1 = c"
    | (fetched) s0 where "os_stats os (clk 4) p = Inr s0" "r = Inr s0"
      "c1 = c\<lparr>stats_cache := (stats_cache c)(components p \<mapsto> \<lparr>cst_stats = s0, collected_at = clk 5\<rparr>)\<rparr>"
    using assms(3) by (auto simp: collect_for_mount_def split: option.splits sum.splits) metis+
  then have "collector_ok os (clk 5) c1 \<and> (r = Inr s \<longrightarrow>
    (\<exists>stamp. stats_read os (components p) s stamp \<and> elapsed (clk 3) stamp \<le> cache_ttl c))"
  proof cases
    case hit
    then obtain stamp where "stats_read os (components p) s0 stamp" "elapsed (clk 3) stamp \<le> cache_ttl c"
      using assms(1) by (auto simp: cache_hit_def collector_ok_def not_less split: option.splits if_splits)
    then show ?thesis using ok hit by auto
  next
    case failed
    then show ?thesis using ok by simp
  next
    case fetched
    then have "stats_read os (components p) s0 (clk 5)" using le(2) unfolding stats_read_def by blast
    moreover have "elapsed (clk 3) (clk 5) \<le> cache_ttl c" using le(3) by (simp add: elapsed_def)
    ultimately show ?thesis using ok fetched by (auto simp: collector_ok_def)
  qed
  then show "collector_ok os (clk 5) c1"
    "r = Inr s \<Longrightarrow> \<exists>stamp. stats_read os (components p) s stamp \<and> elapsed (clk 3) stamp \<le> cache_ttl c" by blast+
qed

lemma collector_ok_prune: "collector_ok os now c \<Longrightarrow> collector_ok os now (prune_expired_cache later c)"
  by (auto simp: collector_ok_def prune_expired_cache_def split: option.splits if_splits prod.splits)

lemma collect_ok:
  assumes "collector_ok os now c" "now \<le> clk 0" "mono clk"
  shows "collector_ok os (clk 5) (snd (collect os clk p c))"
proof (cases "cached_mounts os clk c")
  case (Pair r c1)
  note mounts = cached_mounts_ok [OF assms Pair]
  have "collector_ok os (clk 5) c1" using mounts(1) assms(3) collector_ok_later by (auto simp: mono_def)
  moreover have "collector_ok os (clk 5) (snd (collect_for_mount os clk q c1))" for q
    using collect_for_mount_ok(1) [OF mounts(1) assms(3)] by (metis prod.collapse)
  ultimately show ?thesis by (simp add: collect_def Pair split: sum.split option.split)
qed

lemma reachable_collector_ok: "collector_reach os now c \<Longrightarrow> collector_ok os now c"
proof (induction rule: collector_reach.induct)
  case (new now t)
  then show ?case by (simp add: collector_ok_def collector_new_def)
next
  case (ttl now c t)
  then show ?case by (simp add: collector_ok_def set_ttl_def)
next
  case (prune now later c)
  then show ?case using collector_ok_later collector_ok_prune by blast
next
  case (collect now c clk p)
  then show ?case using collect_ok by blast
qed


text \<open>The second look-up of \<open>collect_many\<close> cannot fail: every mount it asks for has been read.\<close>

lemma collect_mounts_all: "collect_mounts os clks ms c = (Inr kvs, c') \<Longrightarrow> map fst kvs = ms"
  by (induction ms arbitrary: clks c kvs) (auto split: prod.splits sum.splits)

lemma assign_stats_total:
  assumes "mounts_needed os mounts ps = Inr ms" "\<forall>x \<in> set ms. \<exists>kv \<in> set kvs. fst kv = x"
  shows "\<exists>out. assign_stats os mounts kvs ps = Inr out \<and> map fst out = ps"
  using assms
proof (induction ps arbitrary: ms)
  case (Cons p ps)
  then obtain m ms0 where m: "collector_find_mount os (resolved os p) mounts = Some m"
      "mounts_needed os mounts ps = Inr ms0" "ms = (if list_ex (path_eq (mp_path m)) ms0 then ms0 else mp_path m # ms0)"
    by (auto split: option.splits sum.splits)
  then have sub: "set ms0 \<subseteq> set ms" by auto
  have "\<exists>x \<in> set ms. path_eq (mp_path m) x" using m(3) by (auto simp: list_ex_iff path_eq_def)
  then obtain x where "x \<in> set ms" "path_eq (mp_path m) x" by blast
  moreover from this obtain kv where "kv \<in> set kvs" "fst kv = x" using Cons.prems(2) by auto
  ultimately have "\<exists>kv. kv \<in> set kvs \<and> path_eq (mp_path m) (fst kv)" by metis
  then obtain kv1 where "List.find (\<lambda>kv. path_eq (mp_path m) (fst kv)) kvs = Some kv1"
    by (metis (no_types, lifting) find_None_iff not_None_eq)
  moreover obtain out where "assign_stats os mounts kvs ps = Inr out" "map fst out = ps"
    using Cons.IH [OF m(2)] Cons.prems(2) sub by blast
  ultimately show ?case using m(1) by simp
qed simp

lemma collect_many_total:
  assumes "collect_many os clk clks visit ps c = (r, c')" "\<And>xs. set (visit xs) = set xs"
    "cached_mounts os clk c = (Inr mounts, c1)" "mounts_needed os mounts ps = Inr ms"
    "collect_mounts os clks (visit ms) c1 = (Inr kvs, c2)"
  shows "\<exists>out. r = Inr out \<and> map fst out = ps"
proof (cases "ps = []")
  case False
  have "\<forall>x \<in> set ms. \<exists>kv \<in> set kvs. fst kv = x"
    using collect_mounts_all [OF assms(5)] assms(2) by (metis (no_types) image_iff set_map)
  then show ?thesis using assms assign_stats_total [OF assms(4)] False by (auto simp: collect_many_def)
qed (use assms in \<open>auto simp: collect_many_def\<close>)

definition demo_os :: os_view where
  "demo_os = \<lparr>os_mounts = (\<lambda>_. Inr [\<lparr>mp_path = ''/'', mp_device = ''sda'', mp_fs_type = ''ext4'', is_ram_backed = False\<rparr>]),
     os_stats = (\<lambda>t _. Inr \<lparr>total_bytes_of = 100, free_bytes = of_nat t, available_bytes = of_nat t,
       fs_stat_type = ''ext4'', fs_mount_point = ''/'', is_readonly = False\<rparr>),
     os_penv = \<lparr>home = None, current_dir = None, canonical = (\<lambda>_ k. Some k), metadata_error = (\<lambda>_. None),
       listing_error = (\<lambda>_. None), entry_lost = (\<lambda>_. False), file_text = (\<lambda>_ _. None), regex = (\<lambda>_. Inl []),
       parse_metadata = (\<lambda>_. None), metadata_toml = (\<lambda>_. Inr []), write_file = (\<lambda>_ _ w. Inr w), unlink = (\<lambda>_ w. Inr w)\<rparr>,
     os_tree = []\<rparr>"

definition demo_collector :: collector where
  "demo_collector = snd (collect demo_os (\<lambda>i. 100 + i) ''/a'' (collector_new 1000))"

definition demo_stats_at :: "nat \<Rightarrow> fs_stats" where
  "demo_stats_at t = \<lparr>total_bytes_of = 100, free_bytes = of_nat t, available_bytes = of_nat t,
     fs_stat_type = ''ext4'', fs_mount_point = ''/'', is_readonly = False\<rparr>"


end
