(* ===== verification/Special_Locations.thy ===== *)
theory Special_Locations
  imports Ranking Platform Fs_Collector
begin

section \<open>Special locations (src/src/monitor/special_locations.rs)\<close>

text \<open>
  The registry of scratch locations the daemon watches besides its roots: RAM-backed mounts, the paths of
  the operator and the two temporary directories. The mount table is an argument.
\<close>

datatype special_kind = TmpfsKind | DevShm | RamfsKind | UserTmp | CustomKind string

record special_location =
  sl_path :: path
  sl_kind :: special_kind
  buffer_pct :: u8
  sl_scan_interval :: duration
  sl_priority :: u8

definition needs_attention :: "fs_stats \<Rightarrow> special_location \<Rightarrow> bool" where
  "needs_attention s l = (stats_free_pct s < f_of_word (buffer_pct l))"

definition scan_due :: "instant option \<Rightarrow> instant \<Rightarrow> special_location \<Rightarrow> bool" where
  "scan_due last_scan now l = (case last_scan of None \<Rightarrow> True | Some t \<Rightarrow> sl_scan_interval l \<le> elapsed now t)"

subsection \<open>The registry\<close>

text \<open>A later location replaces an earlier one at the same path; the order is by falling priority, then
  by path.\<close>

definition put_location :: "special_location list \<Rightarrow> special_location \<Rightarrow> special_location list" where
  "put_location acc l = filter (\<lambda>x. \<not> path_eq (sl_path x) (sl_path l)) acc @ [l]"

definition location_before :: "special_location \<Rightarrow> special_location \<Rightarrow> bool" where
  "location_before a b = (sl_priority b < sl_priority a
     \<or> (sl_priority a = sl_priority b \<and> components (sl_path a) < components (sl_path b)))"

definition locations_new :: "special_location list \<Rightarrow> special_location list" where
  "locations_new ls = sort_by location_before (foldl put_location [] ls)"

subsection \<open>Discovery\<close>

definition is_actionable_special_mount :: "mount_point \<Rightarrow> bool" where
  "is_actionable_special_mount m =
     (if \<not> is_ram_backed m then False
      else if path_eq (mp_path m) ''/dev/shm'' then True
      else if map ascii_lower (mp_fs_type m) \<in> {''devfs'', ''devtmpfs''} then False
      else if path_starts_with (mp_path m) ''/dev'' then False
      else \<not> (starts_with (mp_path m) ''/run/credentials/'' \<or> starts_with (mp_path m) ''/run/user/''
        \<or> mp_path m = ''/run/lock'' \<or> mp_path m = ''/run''))"

definition kind_of_mount :: "mount_point \<Rightarrow> special_kind" where
  "kind_of_mount m = (if path_eq (mp_path m) ''/dev/shm'' then DevShm
     else if path_eq (mp_path m) ''/tmp'' then TmpfsKind
     else if mp_fs_type m = ''ramfs'' then RamfsKind else TmpfsKind)"

fun kind_settings :: "special_kind \<Rightarrow> u8 \<times> duration \<times> u8" where
  "kind_settings DevShm = (20, secs 3, 255)"
| "kind_settings RamfsKind = (18, secs 4, 220)"
| "kind_settings TmpfsKind = (15, secs 5, 200)"
| "kind_settings UserTmp = (15, secs 5, 150)"
| "kind_settings (CustomKind _) = (15, secs 5, 150)"

definition location_of_mount :: "mount_point \<Rightarrow> special_location" where
  "location_of_mount m = (let k = kind_of_mount m; (buf, interval, prio) = kind_settings k
     in \<lparr>sl_path = mp_path m, sl_kind = k, buffer_pct = buf, sl_scan_interval = interval, sl_priority = prio\<rparr>)"

definition custom_location :: "path \<Rightarrow> special_location" where
  "custom_location p = \<lparr>sl_path = p, sl_kind = CustomKind p, buffer_pct = 15, sl_scan_interval = secs 5, sl_priority = 140\<rparr>"

definition add_tmp :: "path \<Rightarrow> u8 \<Rightarrow> special_location list \<Rightarrow> special_location list" where
  "add_tmp p prio ls = (if list_all (\<lambda>l. \<not> path_eq (sl_path l) p) ls
     then ls @ [\<lparr>sl_path = p, sl_kind = UserTmp, buffer_pct = 15, sl_scan_interval = secs 5, sl_priority = prio\<rparr>]
     else ls)"

definition discover_special :: "sbh_error + mount_point list \<Rightarrow> path list \<Rightarrow> sbh_error + special_location list" where
  "discover_special mount_table custom = (case mount_table of Inl e \<Rightarrow> Inl e
     | Inr mounts \<Rightarrow> Inr (locations_new (add_tmp ''/data/tmp'' 155 (add_tmp ''/tmp'' 160
         (map location_of_mount (filter is_actionable_special_mount mounts) @ map custom_location custom)))))"

subsection \<open>What the registry holds\<close>

lemma put_location_set: "set (put_location acc l) = {x \<in> set acc. \<not> path_eq (sl_path x) (sl_path l)} \<union> {l}"
  by (auto simp: put_location_def)

definition distinct_paths :: "special_location list \<Rightarrow> bool" where
  "distinct_paths ls = distinct (map (components \<circ> sl_path) ls)"

lemma put_location_distinct: "distinct_paths acc \<Longrightarrow> distinct_paths (put_location acc l)"
  by (auto simp: distinct_paths_def put_location_def path_eq_def distinct_map inj_on_def)

text \<open>The path of every location survives, at the last location given for it.\<close>

lemma put_location_paths:
  "(\<lambda>l. components (sl_path l)) ` set (put_location acc l) = insert (components (sl_path l)) ((\<lambda>l. components (sl_path l)) ` set acc)"
  by (auto simp: put_location_set path_eq_def)

lemma put_locations_paths:
  "(\<lambda>l. components (sl_path l)) ` set (foldl put_location acc ls)
     = (\<lambda>l. components (sl_path l)) ` set acc \<union> (\<lambda>l. components (sl_path l)) ` set ls"
  by (induction ls arbitrary: acc) (simp_all add: put_location_paths)

lemma put_locations_distinct: "distinct_paths acc \<Longrightarrow> distinct_paths (foldl put_location acc ls)"
  by (induction ls arbitrary: acc) (simp_all add: put_location_distinct)

interpretation location_order: ranking location_before "\<lambda>_. True"
  by unfold_locales (auto simp: location_before_def)

lemma locations_new_sound:
  "distinct_paths (locations_new ls)" "sorted_wrt (\<lambda>a b. \<not> location_before b a) (locations_new ls)"
  "(\<lambda>l. components (sl_path l)) ` set (locations_new ls) = (\<lambda>l. components (sl_path l)) ` set ls"
proof -
  have "distinct_paths (foldl put_location [] ls)" by (rule put_locations_distinct) (simp add: distinct_paths_def)
  then show "distinct_paths (locations_new ls)"
    by (simp add: distinct_paths_def locations_new_def distinct_map)
  show "sorted_wrt (\<lambda>a b. \<not> location_before b a) (locations_new ls)"
    unfolding locations_new_def by (rule location_order.sort_sorted) simp
  show "(\<lambda>l. components (sl_path l)) ` set (locations_new ls) = (\<lambda>l. components (sl_path l)) ` set ls"
    by (simp add: locations_new_def put_locations_paths)
qed

lemma add_tmp_paths: "(\<lambda>l. components (sl_path l)) ` set (add_tmp p prio ls)
  = insert (components p) ((\<lambda>l. components (sl_path l)) ` set ls)"
  by (auto simp: add_tmp_def list_all_iff path_eq_def image_iff) metis+

text \<open>What is watched: the actionable mounts, the paths of the operator and the two temporary directories,
  each once, in the order of their priorities.\<close>

lemma discovered_locations:
  assumes "discover_special (Inr mounts) custom = Inr ls"
  shows "(\<lambda>l. components (sl_path l)) ` set ls = components ` (mp_path ` {m \<in> set mounts. is_actionable_special_mount m}
      \<union> set custom \<union> {''/tmp'', ''/data/tmp''})"
    and "distinct_paths ls" and "sorted_wrt (\<lambda>a b. \<not> location_before b a) ls"
proof -
  have paths: "sl_path (location_of_mount m) = mp_path m" "sl_path (custom_location p) = p" for m p
    by (simp_all add: location_of_mount_def custom_location_def Let_def split: prod.split)
  show "distinct_paths ls" "sorted_wrt (\<lambda>a b. \<not> location_before b a) ls"
    using assms locations_new_sound(1,2) by (auto simp: discover_special_def)
  show "(\<lambda>l. components (sl_path l)) ` set ls = components ` (mp_path ` {m \<in> set mounts. is_actionable_special_mount m}
      \<union> set custom \<union> {''/tmp'', ''/data/tmp''})"
    using assms by (simp add: discover_special_def) (drule sym,
      auto simp: locations_new_sound(3) add_tmp_paths image_Un image_image paths)
qed

end
