(* ===== verification/Daemon.thy ===== *)
theory Daemon
  imports Monitor Scan_Pacing Special_Locations Ballast_Coordinator Ballast_Release Voi
begin

section \<open>The daemon's state and its pressure check (src/src/daemon/loop_main.rs)\<close>

text \<open>
  The state of the monitoring thread and the first half of its tick: the statistics of every watched path
  are collected, each mount's monitor takes its reading, the predictive action is chosen and the worst
  response decides the level of the tick. The clock is read at named sites; the order in which a hash map
  is visited is an argument; \<open>None\<close> is a panic.
\<close>

datatype notification_level = LevelInfo | LevelWarning | LevelOrange | LevelRed | LevelCritical

fun notification_rank :: "notification_level \<Rightarrow> nat" where
  "notification_rank LevelInfo = 0"
| "notification_rank LevelWarning = 1"
| "notification_rank LevelOrange = 2"
| "notification_rank LevelRed = 3"
| "notification_rank LevelCritical = 4"

text \<open>What the daemon tells its log and its notification manager.\<close>

datatype daemon_event =
    BallastReplenished path usize
  | BallastReleased path usize u64
  | PredictiveWarning path f64 f64
  | BackingOff path pressure_level
  | EmergencyEntry f64
  | SpecialPressure path pressure_level f64
  | SpecialNotified path pressure_level f64
  | SwapThrash
  | CheckFailed sbh_error
  | ReloadFailed sbh_error
  | ConfigReloaded
  | CleanupNotified u64 u64
  | PressureNotified pressure_level pressure_level path f64

record daemon =
  dm_config :: config
  dm_collector :: collector
  dm_monitors :: "component list \<Rightarrow> mount_monitor option"
  dm_prediction :: prediction_config
  dm_last_action :: predictive_action
  dm_scorecard :: prediction_scorecard
  dm_cleanup_ran :: bool
  dm_ewma_confidence :: f64
  dm_policy :: policy_engine
  dm_guard :: "guard_diagnostics option"
  dm_behavior :: behavior_state
  dm_release :: release_controller
  dm_pools :: "coordinator \<times> disk"
  dm_shared :: shared_executor_config
  dm_shared_scoring :: scoring_config
  dm_shared_scanner :: scanner_config
  dm_scoring :: scoring_engine
  dm_voi :: voi_scheduler
  dm_channel :: "scan_request channel"
  dm_affinity_warn :: "instant option"
  dm_channel_warn :: "instant option"
  dm_channel_suppressed :: u64
  dm_warning_at :: "instant option"
  dm_warning_level :: "notification_level option"
  dm_special :: "special_location list"
  dm_special_scan :: "component list \<Rightarrow> instant option"
  dm_special_notify :: "component list \<Rightarrow> (pressure_level \<times> instant) option"
  dm_swap_warning :: "instant option"
  dm_swap_active :: bool
  dm_last_level :: pressure_level
  dm_notified_level :: pressure_level
  dm_notified_at :: "instant option"
  dm_events :: "daemon_event list"

text \<open>The places the monitoring thread reads the clock at.\<close>

datatype site =
    AtCheck nat
  | AtMonitors
  | AtObserve
  | AtEscalate
  | AtNotify
  | AtChange
  | AtNotified
  | AtWarning
  | AtScope nat
  | AtAffinity
  | AtReady nat
  | AtReplenished nat
  | AtRelease
  | AtChannel
  | AtPrimary
  | AtSpecial
  | AtSpecialStats nat
  | AtSpecialRelease nat
  | AtSwap

record daemon_env =
  de_os :: os_view
  de_exp :: "f64 \<Rightarrow> f64"
  de_ln :: "f64 \<Rightarrow> f64"
  de_storage :: "path \<Rightarrow> storage"
  de_codec :: codec
  de_clock :: "site \<Rightarrow> nat \<Rightarrow> instant"
  de_visit :: "(path \<times> fs_stats) list \<Rightarrow> (path \<times> fs_stats) list"
  de_free_check :: "path \<Rightarrow> nat \<Rightarrow> f64"
  de_canonical :: "path \<Rightarrow> path_key option"
  de_taken :: nat

abbreviation clock_at :: "daemon_env \<Rightarrow> site \<Rightarrow> instant" where
  "clock_at env s \<equiv> de_clock env s 0"

definition note_event :: "daemon_event \<Rightarrow> daemon \<Rightarrow> daemon" where
  "note_event e d = d\<lparr>dm_events := dm_events d @ [e]\<rparr>"

subsection \<open>Readings\<close>

definition watched_paths :: "config \<Rightarrow> path list" where
  "watched_paths c = (let ps = root_paths (scanner c) in
     if list_ex (\<lambda>p. path_eq p ''/'') ps then ps else ps @ [''/''])"

definition first_reading :: "fs_stats \<Rightarrow> (path \<times> fs_stats) list \<Rightarrow> (path \<times> fs_stats) list" where
  "first_reading s acc = (if list_ex (\<lambda>kv. path_eq (fst kv) (fs_mount_point s)) acc then acc
     else acc @ [(fs_mount_point s, s)])"

fun collect_readings ::
  "daemon_env \<Rightarrow> nat \<Rightarrow> path list \<Rightarrow> collector \<times> (path \<times> fs_stats) list \<Rightarrow> collector \<times> (path \<times> fs_stats) list" where
  "collect_readings env i [] st = st"
| "collect_readings env i (p # ps) (c, acc) =
     (case collect (de_os env) (de_clock env (AtCheck i)) p c of
        (Inl _, c1) \<Rightarrow> collect_readings env (Suc i) ps (c1, acc)
      | (Inr s, c1) \<Rightarrow> collect_readings env (Suc i) ps (c1, first_reading s acc))"

subsection \<open>One mount\<close>

text \<open>What the loop over the mounts carries: the monitors, the most severe action, and the worst response
  with its diagnostics and the confidence of its estimate.\<close>

record tick =
  tk_monitors :: "component list \<Rightarrow> mount_monitor option"
  tk_action :: predictive_action
  tk_worst :: "(pressure_response \<times> guard_diagnostics \<times> f64) option"

definition monitor_of :: "config \<Rightarrow> (component list \<Rightarrow> mount_monitor option) \<Rightarrow> path \<Rightarrow> mount_monitor" where
  "monitor_of c ms mount = (case ms (components mount) of Some m \<Rightarrow> m | None \<Rightarrow> monitor_new c)"

definition gated_prediction :: "daemon \<Rightarrow> rate_estimate \<Rightarrow> fs_stats \<Rightarrow> path \<Rightarrow> predictive_action" where
  "gated_prediction d est s mount =
     (let action = predict (dm_prediction d) est (stats_free_pct s) mount;
          floor = dynamic_min_confidence (dm_scorecard d) (min_confidence (prediction (pressure (dm_config d))))
      in if action \<noteq> ClearAction \<and> estimate_confidence est < floor then ClearAction else action)"

definition worse_response :: "pressure_response \<Rightarrow> pressure_response \<Rightarrow> bool" where
  "worse_response r worst = (resp_level worst < resp_level r
     \<or> (resp_level r = resp_level worst \<and> pressure_response.urgency worst < pressure_response.urgency r))"

definition check_mount :: "daemon_env \<Rightarrow> daemon \<Rightarrow> path \<times> fs_stats \<Rightarrow> tick \<Rightarrow> tick option" where
  "check_mount env d ms tk = (let (mount, s) = ms in
     case monitor_tick (de_exp env) (de_ln env) (dm_config d) (clock_at env AtMonitors) s
        (monitor_of (dm_config d) (tk_monitors tk) mount) of
       None \<Rightarrow> None
     | Some (m, resp, est, diag) \<Rightarrow>
         let action = gated_prediction d est s mount;
             this = Some (resp, diag, estimate_confidence est)
         in Some (tk\<lparr>tk_monitors := (tk_monitors tk)(components mount \<mapsto> m),
              tk_action := (if severity (tk_action tk) < severity action then action else tk_action tk),
              tk_worst := (case tk_worst tk of None \<Rightarrow> this
                 | Some (worst, x) \<Rightarrow> if worse_response resp worst then this else Some (worst, x))\<rparr>))"

fun check_mounts :: "daemon_env \<Rightarrow> daemon \<Rightarrow> (path \<times> fs_stats) list \<Rightarrow> tick \<Rightarrow> tick option" where
  "check_mounts env d [] tk = Some tk"
| "check_mounts env d (ms # mss) tk = (case check_mount env d ms tk of None \<Rightarrow> None
     | Some tk1 \<Rightarrow> check_mounts env d mss tk1)"

subsection \<open>The check\<close>

text \<open>The policy engine learns the level and the window, and may be escalated out of its fallback.\<close>

definition policy_tick :: "daemon_env \<Rightarrow> pressure_level \<Rightarrow> guard_diagnostics \<Rightarrow> policy_engine \<Rightarrow> policy_engine" where
  "policy_tick env lvl diag p = fst (check_emergency_escalation (clock_at env AtEscalate) (Yellow \<le> lvl)
     (observe_window (clock_at env AtObserve) diag (set_pressure_level lvl p)))"

definition no_stats_error :: "path list \<Rightarrow> sbh_error" where
  "no_stats_error ps = FsStatsError (case ps of p # _ \<Rightarrow> p | [] \<Rightarrow> ''/'')
     ''no filesystem stats available for any root path''"

definition finish_check :: "daemon_env \<Rightarrow> daemon \<Rightarrow> tick \<Rightarrow> (sbh_error + pressure_response) \<times> daemon" where
  "finish_check env d tk =
     (let d1 = d\<lparr>dm_monitors := tk_monitors tk, dm_last_action := tk_action tk\<rparr> in
      case tk_worst tk of
        None \<Rightarrow> (Inl (FsStatsError ''/'' ''internal error: stats collected but no response generated''),
           d1\<lparr>dm_cleanup_ran := False, dm_guard := None\<rparr>)
      | Some (resp, diag, conf) \<Rightarrow> (Inr resp,
          d1\<lparr>dm_ewma_confidence := conf,
            dm_scorecard := scorecard_record (2 \<le> severity (tk_action tk)) (Red \<le> resp_level resp)
              (dm_cleanup_ran d) (dm_scorecard d),
            dm_cleanup_ran := False,
            dm_policy := policy_tick env (resp_level resp) diag (dm_policy d),
            dm_guard := Some diag\<rparr>))"

definition check_pressure :: "daemon_env \<Rightarrow> daemon \<Rightarrow> ((sbh_error + pressure_response) \<times> daemon) option" where
  "check_pressure env d =
     (let paths = watched_paths (dm_config d);
          (c, readings) = collect_readings env 0 paths (dm_collector d, []);
          d1 = d\<lparr>dm_collector := c\<rparr>
      in if readings = [] then Some (Inl (no_stats_error paths), d1)
         else map_option (finish_check env d1)
           (check_mounts env d1 (de_visit env readings)
              \<lparr>tk_monitors = dm_monitors d, tk_action = ClearAction, tk_worst = None\<rparr>))"

subsection \<open>The worst mount decides\<close>

text \<open>What the monitor of a mount answers to its reading, on the state the tick starts from.\<close>

definition mount_outcome ::
  "daemon_env \<Rightarrow> daemon \<Rightarrow> path \<times> fs_stats \<Rightarrow>
     (mount_monitor \<times> pressure_response \<times> rate_estimate \<times> guard_diagnostics) option" where
  "mount_outcome env d ms = monitor_tick (de_exp env) (de_ln env) (dm_config d) (clock_at env AtMonitors) (snd ms)
     (monitor_of (dm_config d) (dm_monitors d) (fst ms))"

definition reading_keys :: "(path \<times> fs_stats) list \<Rightarrow> component list list" where
  "reading_keys mss = map (\<lambda>ms. components (fst ms)) mss"

lemma first_reading_distinct: "distinct (reading_keys acc) \<Longrightarrow> distinct (reading_keys (first_reading s acc))"
  by (auto simp: reading_keys_def first_reading_def list_ex_iff path_eq_def)

lemma collect_readings_distinct:
  "distinct (reading_keys acc) \<Longrightarrow> distinct (reading_keys (snd (collect_readings env i ps (c, acc))))"
  by (induction ps arbitrary: i c acc)
    (auto simp: first_reading_distinct split: prod.split sum.split)

text \<open>A visited mount leaves its outcome, and a worst response at least as bad as before and as its own.\<close>

definition visited :: "daemon_env \<Rightarrow> daemon \<Rightarrow> path \<times> fs_stats \<Rightarrow> tick \<Rightarrow> bool" where
  "visited env d ms tk = (\<exists>m resp est diag w x. mount_outcome env d ms = Some (m, resp, est, diag)
     \<and> tk_monitors tk (components (fst ms)) = Some m \<and> tk_worst tk = Some (w, x)
     \<and> resp_level resp \<le> resp_level w)"

lemma check_mount_step:
  assumes "check_mount env d ms tk = Some tk1" "tk_monitors tk (components (fst ms)) = dm_monitors d (components (fst ms))"
  shows "visited env d ms tk1"
    and "k \<noteq> components (fst ms) \<Longrightarrow> tk_monitors tk1 k = tk_monitors tk k"
    and "tk_worst tk = Some (w, x) \<Longrightarrow> \<exists>w1 x1. tk_worst tk1 = Some (w1, x1) \<and> resp_level w \<le> resp_level w1"
    and "tk_worst tk1 = tk_worst tk \<or>
      (\<exists>m resp est diag. mount_outcome env d ms = Some (m, resp, est, diag) \<and>
        tk_worst tk1 = Some (resp, diag, estimate_confidence est))"
proof -
  obtain mount s where ms: "ms = (mount, s)" by fastforce
  have same: "monitor_of (dm_config d) (tk_monitors tk) mount = monitor_of (dm_config d) (dm_monitors d) mount"
    using assms(2) by (simp add: ms monitor_of_def)
  then obtain m resp est diag where out: "mount_outcome env d ms = Some (m, resp, est, diag)"
    using assms(1) by (auto simp: ms check_mount_def mount_outcome_def split: option.splits)
  define mine where "mine = Some (resp, diag, estimate_confidence est)"
  have tk1: "tk_monitors tk1 = (tk_monitors tk)(components mount \<mapsto> m)"
    "tk_worst tk1 = (case tk_worst tk of None \<Rightarrow> mine
       | Some (worst, x) \<Rightarrow> if worse_response resp worst then mine else Some (worst, x))"
    using assms(1) out same unfolding mine_def by (auto simp: ms check_mount_def mount_outcome_def Let_def)
  show "visited env d ms tk1"
    using out tk1 by (auto simp: visited_def ms mine_def worse_response_def split: option.splits)
  show "k \<noteq> components (fst ms) \<Longrightarrow> tk_monitors tk1 k = tk_monitors tk k" using tk1 by (simp add: ms)
  show "tk_worst tk = Some (w, x) \<Longrightarrow> \<exists>w1 x1. tk_worst tk1 = Some (w1, x1) \<and> resp_level w \<le> resp_level w1"
    using tk1 by (auto simp: mine_def worse_response_def)
  show "tk_worst tk1 = tk_worst tk \<or>
      (\<exists>m resp est diag. mount_outcome env d ms = Some (m, resp, est, diag) \<and>
        tk_worst tk1 = Some (resp, diag, estimate_confidence est))"
    using out tk1 by (auto simp: mine_def split: option.splits)
qed

lemma check_mounts_worst:
  assumes "check_mounts env d mss tk = Some tk1" "distinct (reading_keys mss)"
    "\<forall>ms \<in> set mss. tk_monitors tk (components (fst ms)) = dm_monitors d (components (fst ms))"
  shows "(\<forall>ms \<in> set mss. visited env d ms tk1)
    \<and> (\<forall>k. k \<notin> set (reading_keys mss) \<longrightarrow> tk_monitors tk1 k = tk_monitors tk k)
    \<and> (\<forall>w x. tk_worst tk = Some (w, x) \<longrightarrow> (\<exists>w1 x1. tk_worst tk1 = Some (w1, x1) \<and> resp_level w \<le> resp_level w1))
    \<and> (tk_worst tk1 = tk_worst tk \<or> (\<exists>ms \<in> set mss. \<exists>m resp est diag.
        mount_outcome env d ms = Some (m, resp, est, diag) \<and> tk_worst tk1 = Some (resp, diag, estimate_confidence est)))"
  using assms
proof (induction mss arbitrary: tk)
  case (Cons ms mss)
  obtain tk0 where tk0: "check_mount env d ms tk = Some tk0" "check_mounts env d mss tk0 = Some tk1"
    using Cons.prems(1) by (auto split: option.splits)
  have "tk_monitors tk (components (fst ms)) = dm_monitors d (components (fst ms))" using Cons.prems(3) by simp
  note step = check_mount_step [OF tk0(1) this]
  have new: "components (fst ms) \<notin> set (reading_keys mss)" "distinct (reading_keys mss)"
    using Cons.prems(2) by (simp_all add: reading_keys_def)
  have old: "\<forall>x \<in> set mss. tk_monitors tk0 (components (fst x)) = dm_monitors d (components (fst x))"
  proof
    fix x
    assume "x \<in> set mss"
    then have "components (fst x) \<noteq> components (fst ms)" using new(1) by (metis (mono_tags, lifting) image_eqI list.set_map reading_keys_def)
    then show "tk_monitors tk0 (components (fst x)) = dm_monitors d (components (fst x))"
      using Cons.prems(3) step(2) \<open>x \<in> set mss\<close> by simp
  qed
  note IH = Cons.IH [OF tk0(2) new(2) old]
  have "visited env d ms tk0" by (rule step(1))
  then have "visited env d ms tk1"
    using IH new(1) by (auto simp: visited_def)
  moreover have "\<exists>w1 x1. tk_worst tk1 = Some (w1, x1) \<and> resp_level w \<le> resp_level w1"
    if "tk_worst tk = Some (w, x)" for w x
    using step(3) [OF that] IH order_trans by blast
  ultimately show ?case using IH step(2,4) Cons.prems(3) by (auto simp: reading_keys_def)
qed simp

definition readings :: "daemon_env \<Rightarrow> daemon \<Rightarrow> (path \<times> fs_stats) list" where
  "readings env d = snd (collect_readings env 0 (watched_paths (dm_config d)) (dm_collector d, []))"

lemma check_pressure_worst:
  assumes "check_pressure env d = Some (Inr r, d')" "\<And>xs. mset (de_visit env xs) = mset xs"
  shows "\<forall>ms \<in> set (readings env d). \<exists>m resp est diag. mount_outcome env d ms = Some (m, resp, est, diag)
      \<and> dm_monitors d' (components (fst ms)) = Some m \<and> resp_level resp \<le> resp_level r"
    and "\<exists>ms \<in> set (readings env d). \<exists>m est diag. mount_outcome env d ms = Some (m, r, est, diag)
      \<and> dm_guard d' = Some diag"
proof -
  obtain c rs where rs: "collect_readings env 0 (watched_paths (dm_config d)) (dm_collector d, []) = (c, rs)" by fastforce
  then have readings: "readings env d = rs" by (simp add: readings_def)
  define d1 where "d1 = d\<lparr>dm_collector := c\<rparr>"
  have out: "mount_outcome env d1 = mount_outcome env d" by (simp add: d1_def mount_outcome_def fun_eq_iff)
  define tk where "tk = \<lparr>tk_monitors = dm_monitors d, tk_action = ClearAction, tk_worst = None\<rparr>"
  obtain tk1 where tk1: "check_mounts env d1 (de_visit env rs) tk = Some tk1" "finish_check env d1 tk1 = (Inr r, d')"
    using assms(1) unfolding check_pressure_def tk_def d1_def by (auto simp: rs Let_def split: if_splits)
  have same: "set (de_visit env rs) = set rs" using assms(2) by (metis mset_eq_setD)
  have "distinct (reading_keys rs)"
    using collect_readings_distinct [of "[]" env 0 "watched_paths (dm_config d)" "dm_collector d"] rs
    by (simp add: reading_keys_def)
  moreover have "mset (reading_keys (de_visit env rs)) = mset (reading_keys rs)"
    by (simp add: reading_keys_def assms(2))
  ultimately have "distinct (reading_keys (de_visit env rs))" using mset_eq_imp_distinct_iff by blast
  note worst = check_mounts_worst [OF tk1(1) this, unfolded out same]
  obtain diag conf where w: "tk_worst tk1 = Some (r, diag, conf)"
      "dm_monitors d' = tk_monitors tk1" "dm_guard d' = Some diag"
    using tk1(2) by (auto simp: finish_check_def Let_def split: option.splits)
  have start: "\<forall>ms \<in> set rs. tk_monitors tk (components (fst ms)) = dm_monitors d1 (components (fst ms))" "tk_worst tk = None"
    by (simp_all add: tk_def d1_def)
  show "\<forall>ms \<in> set (readings env d). \<exists>m resp est diag. mount_outcome env d ms = Some (m, resp, est, diag)
      \<and> dm_monitors d' (components (fst ms)) = Some m \<and> resp_level resp \<le> resp_level r"
  proof
    fix ms
    assume "ms \<in> set (readings env d)"
    then have "visited env d1 ms tk1" using worst [OF start(1)] readings by blast
    then show "\<exists>m resp est diag. mount_outcome env d ms = Some (m, resp, est, diag)
      \<and> dm_monitors d' (components (fst ms)) = Some m \<and> resp_level resp \<le> resp_level r"
      unfolding visited_def out w by auto
  qed
  show "\<exists>ms \<in> set (readings env d). \<exists>m est diag. mount_outcome env d ms = Some (m, r, est, diag)
      \<and> dm_guard d' = Some diag"
  proof -
    obtain ms m resp est diag1 where "ms \<in> set rs" "mount_outcome env d ms = Some (m, resp, est, diag1)"
        "tk_worst tk1 = Some (resp, diag1, estimate_confidence est)"
      using worst [OF start(1)] w(1) start(2) by (elim conjE disjE) (simp, blast)
    then show ?thesis unfolding readings using w by auto
  qed
qed

text \<open>C28: the response of a tick is that of a mount under the highest pressure, whatever
  the order in which the mounts are visited: no watched mount is above its level, every monitor has taken
  its reading, and the diagnostics handed to the executor are those of the mount that decided.\<close>

theorem worst_mount_decides:
  assumes "check_pressure env d = Some (Inr r, d')" and "\<And>xs. mset (de_visit env xs) = mset xs"
  shows "(\<forall>ms \<in> set (readings env d). \<exists>m resp est diag. mount_outcome env d ms = Some (m, resp, est, diag)
      \<and> dm_monitors d' (components (fst ms)) = Some m \<and> resp_level resp \<le> resp_level r)
    \<and> (\<exists>ms \<in> set (readings env d). \<exists>m est diag. mount_outcome env d ms = Some (m, r, est, diag)
      \<and> dm_guard d' = Some diag)"
  using check_pressure_worst [OF assms] by blast

subsection \<open>The check does not panic\<close>

definition daemon_ok :: "protect_env \<Rightarrow> (f64 \<Rightarrow> string) \<Rightarrow> daemon \<Rightarrow> bool" where
  "daemon_ok pe fmt d = (validate pe fmt (dm_config d) = None
     \<and> (\<forall>k m. dm_monitors d k = Some m \<longrightarrow> monitor_wf m))"

lemma check_mounts_total:
  assumes "validate pe fmt (dm_config d) = None" "clock_at env AtMonitors < 2 ^ 94"
    "\<forall>k m. tk_monitors tk k = Some m \<longrightarrow> monitor_wf m"
  shows "\<exists>tk1. check_mounts env d mss tk = Some tk1 \<and> (\<forall>k m. tk_monitors tk1 k = Some m \<longrightarrow> monitor_wf m)
    \<and> (mss \<noteq> [] \<or> tk_worst tk \<noteq> None \<longrightarrow> tk_worst tk1 \<noteq> None)"
  using assms(3)
proof (induction mss arbitrary: tk)
  case (Cons ms mss)
  obtain mount s where ms: "ms = (mount, s)" by fastforce
  have "monitor_wf (monitor_of (dm_config d) (tk_monitors tk) mount)"
    using Cons.prems monitor_wf_new [OF assms(1)] by (simp add: monitor_of_def split: option.split)
  then obtain m resp est diag where "monitor_tick (de_exp env) (de_ln env) (dm_config d) (clock_at env AtMonitors) s
      (monitor_of (dm_config d) (tk_monitors tk) mount) = Some (m, resp, est, diag)" "monitor_wf m"
    using monitor_tick_total assms(2) by blast
  then obtain tk0 where tk0: "check_mount env d ms tk = Some tk0" "tk_worst tk0 \<noteq> None"
      "tk_monitors tk0 = (tk_monitors tk)(components mount \<mapsto> m)"
    by (auto simp: ms check_mount_def Let_def split: option.split)
  then have "\<forall>k m. tk_monitors tk0 k = Some m \<longrightarrow> monitor_wf m" using Cons.prems \<open>monitor_wf m\<close> by simp
  from Cons.IH [OF this] show ?case using tk0(1,2) by auto
qed simp

lemma check_pressure_total:
  assumes "daemon_ok pe fmt d" "clock_at env AtMonitors < 2 ^ 94" "\<And>xs. mset (de_visit env xs) = mset xs"
  shows "\<exists>res d'. check_pressure env d = Some (res, d') \<and> daemon_ok pe fmt d'
    \<and> (readings env d \<noteq> [] \<longrightarrow> (\<exists>r. res = Inr r))"
proof -
  obtain c rs where rs: "collect_readings env 0 (watched_paths (dm_config d)) (dm_collector d, []) = (c, rs)" by fastforce
  define d1 where "d1 = d\<lparr>dm_collector := c\<rparr>"
  have d1: "validate pe fmt (dm_config d1) = None" "dm_config d1 = dm_config d" using assms(1) by (simp_all add: d1_def daemon_ok_def)
  have start: "\<forall>k m. tk_monitors \<lparr>tk_monitors = dm_monitors d, tk_action = ClearAction, tk_worst = None\<rparr> k = Some m
      \<longrightarrow> monitor_wf m" using assms(1) by (simp add: daemon_ok_def)
  obtain tk1 where tk1: "check_mounts env d1 (de_visit env rs)
        \<lparr>tk_monitors = dm_monitors d, tk_action = ClearAction, tk_worst = None\<rparr> = Some tk1"
      "\<forall>k m. tk_monitors tk1 k = Some m \<longrightarrow> monitor_wf m" "de_visit env rs \<noteq> [] \<longrightarrow> tk_worst tk1 \<noteq> None"
    using check_mounts_total [OF d1(1) assms(2) start] by blast
  have "rs \<noteq> [] \<Longrightarrow> de_visit env rs \<noteq> []" using assms(3) [of rs] by auto
  then have res: "rs \<noteq> [] \<Longrightarrow> \<exists>r d'. finish_check env d1 tk1 = (Inr r, d') \<and> daemon_ok pe fmt d'"
    using tk1(2,3) d1 by (auto simp: finish_check_def Let_def daemon_ok_def)
  show ?thesis
  proof (cases "rs = []")
    case True
    then show ?thesis using assms(1) rs by (auto simp: check_pressure_def readings_def daemon_ok_def)
  next
    case False
    then have "check_pressure env d = Some (finish_check env d1 tk1)"
      using tk1(1) rs by (simp add: check_pressure_def d1_def)
    then show ?thesis using res False by auto
  qed
qed

end
