(* ===== verification/Daemon_Run.thy ===== *)
theory Daemon_Run
  imports Daemon
begin

section \<open>The daemon's reaction to pressure (src/src/daemon/loop_main.rs)\<close>

text \<open>
  The second half of a tick: warnings of the prediction, ballast, scan requests, the special locations, the
  swap alarm, and the reload of the configuration.
\<close>

subsection \<open>Warnings of the prediction\<close>

definition warning_level :: "prediction_config \<Rightarrow> f64 \<Rightarrow> notification_level" where
  "warning_level c minutes =
     (if minutes < critical_danger_minutes c then LevelCritical
      else if minutes < imminent_danger_minutes c then LevelRed
      else if minutes < action_horizon_minutes c then LevelOrange else LevelWarning)"

definition should_warn :: "instant \<Rightarrow> notification_level \<Rightarrow> daemon \<Rightarrow> bool" where
  "should_warn now lvl d = (case dm_warning_level d of None \<Rightarrow> True
     | Some previous \<Rightarrow> notification_rank previous < notification_rank lvl
        \<or> (case dm_warning_at d of None \<Rightarrow> True | Some t \<Rightarrow> secs 300 \<le> elapsed now t))"

definition check_predictive_warning :: "daemon_env \<Rightarrow> pressure_response \<Rightarrow> daemon \<Rightarrow> daemon" where
  "check_predictive_warning env r d =
     (let c = prediction (pressure (dm_config d)); now = clock_at env AtWarning in
      if resp_level r \<le> Yellow \<or> dm_last_action d = ClearAction then d
      else case predicted_seconds r of None \<Rightarrow> d
        | Some seconds \<Rightarrow>
          if dm_ewma_confidence d < min_confidence c then d
          else if warning_horizon_minutes c * lit 60 < seconds then d
          else let lvl = warning_level c (seconds / lit 60) in
            if \<not> should_warn now lvl d then d
            else note_event (PredictiveWarning (causing_mount r) (seconds / lit 60) (dm_ewma_confidence d))
              (d\<lparr>dm_warning_at := Some now, dm_warning_level := Some lvl\<rparr>))"

subsection \<open>Ballast\<close>

definition release_ballast :: "daemon_env \<Rightarrow> site \<Rightarrow> path \<Rightarrow> pressure_response \<Rightarrow> daemon \<Rightarrow> daemon" where
  "release_ballast env site mount r d =
     (case path_lookup mount (pools (fst (dm_pools d))) of None \<Rightarrow> d
      | Some pool \<Rightarrow>
         let (ctl, n) = files_to_release mount r (available_count (bp_manager pool))
               (file_count (bm_config (bp_manager pool))) (dm_release d);
             d1 = d\<lparr>dm_release := ctl\<rparr>
         in if n = 0 then d1
            else let (res, st) = release_for_mount (de_storage env) (de_codec env) mount n (dm_pools d);
                     d2 = d1\<lparr>dm_pools := st\<rparr>
              in (case res of Inr (Some rep) \<Rightarrow>
                    note_event (BallastReleased mount (files_released rep) (bytes_freed rep))
                      (d2\<lparr>dm_release := on_released (clock_at env site) mount ctl\<rparr>)
                  | _ \<Rightarrow> d2))"

fun replenish_first :: "daemon_env \<Rightarrow> nat \<Rightarrow> pressure_level \<Rightarrow> pool_inventory list \<Rightarrow> daemon \<Rightarrow> daemon" where
  "replenish_first env i lvl [] d = d"
| "replenish_first env i lvl (info # infos) d =
     (let mount = pi_mount_point info;
          (ctl, ready) = is_ready_for_replenish (clock_at env (AtReady i)) mount lvl
            (files_available info) (files_total info) (dm_release d);
          d1 = d\<lparr>dm_release := ctl\<rparr>
      in if \<not> ready then replenish_first env (Suc i) lvl infos d1
         else let (res, st) = replenish_for_mount (de_storage env) (de_codec env) mount
                    (Some (de_free_check env mount)) (dm_pools d1);
                  d2 = d1\<lparr>dm_pools := st\<rparr>
           in (case res of Inr (Some rep) \<Rightarrow>
                 if 0 < files_created rep
                 then note_event (BallastReplenished mount (files_created rep))
                   (d2\<lparr>dm_release := on_replenished (clock_at env (AtReplenished i)) mount ctl\<rparr>)
                 else replenish_first env (Suc i) lvl infos d2
               | _ \<Rightarrow> replenish_first env (Suc i) lvl infos d2))"

subsection \<open>Scan requests\<close>

definition note_saturated :: "instant \<Rightarrow> daemon \<Rightarrow> daemon" where
  "note_saturated now d =
     (if (case dm_channel_warn d of None \<Rightarrow> True | Some t \<Rightarrow> secs 3600 \<le> elapsed now t)
      then d\<lparr>dm_channel_suppressed := 0, dm_channel_warn := Some now\<rparr>
      else d\<lparr>dm_channel_suppressed := dm_channel_suppressed d + 1\<rparr>)"

definition pressure_request :: "pressure_response \<Rightarrow> path list \<Rightarrow> behavior_mode \<Rightarrow> scan_request" where
  "pressure_request r paths m = \<lparr>req_paths = paths, req_urgency = pressure_response.urgency r, req_level = resp_level r,
     req_free_pct = Some (resp_free_pct r), req_max_delete_batch = behavior_delete_batch_limit m (max_delete_batch r),
     force_full_scan = False, config_update = None\<rparr>"

definition send_scan_request :: "daemon_env \<Rightarrow> pressure_response \<Rightarrow> path list \<Rightarrow> daemon \<Rightarrow> daemon" where
  "send_scan_request env r paths d =
     (if resp_level r < Orange \<and> channel_cap (dm_channel d) \<le> length (queue (dm_channel d)) then d
      else let (ch, status) = enqueue_scan_request (de_taken env) (pressure_request r paths (current_mode (dm_behavior d)))
                 (Red \<le> resp_level r \<or> lit (90/100) \<le> pressure_response.urgency r) (dm_channel d);
               d1 = d\<lparr>dm_channel := ch\<rparr>
        in if status \<in> {ReplacedStale, DeferredFull} then note_saturated (clock_at env AtChannel) d1 else d1)"

text \<open>A forced scan waits for room in the channel; the scanner takes \<open>n\<close> requests in the meantime.\<close>

definition trigger_forced_scan :: "nat \<Rightarrow> pressure_response \<Rightarrow> daemon \<Rightarrow> daemon" where
  "trigger_forced_scan n r d = d\<lparr>dm_channel := fst (try_send
     \<lparr>req_paths = root_paths (scanner (dm_config d)), req_urgency = f_max (pressure_response.urgency r) (lit (1/2)),
       req_level = resp_level r, req_free_pct = Some (resp_free_pct r), req_max_delete_batch = max_delete_batch r,
       force_full_scan = True, config_update = None\<rparr> (taken n (dm_channel d)))\<rparr>"

subsection \<open>The reaction to a response\<close>

definition set_min_score :: "f64 \<Rightarrow> daemon \<Rightarrow> daemon" where
  "set_min_score x d = d\<lparr>dm_shared := (dm_shared d)\<lparr>sx_min_score := x\<rparr>\<rparr>"

fun roots_on_mount :: "daemon_env \<Rightarrow> nat \<Rightarrow> path \<Rightarrow> path list \<Rightarrow> collector \<Rightarrow> collector \<times> path list" where
  "roots_on_mount env i target [] c = (c, [])"
| "roots_on_mount env i target (p # ps) c =
     (let (res, c1) = collect (de_os env) (de_clock env (AtScope i)) p c;
          (c2, rest) = roots_on_mount env (Suc i) target ps c1
      in (c2, case res of Inr s \<Rightarrow> if path_eq (fs_mount_point s) target then p # rest else rest | Inl _ \<Rightarrow> rest))"

definition scan_scope :: "daemon_env \<Rightarrow> pressure_response \<Rightarrow> daemon \<Rightarrow> daemon \<times> path list" where
  "scan_scope env r d =
     (let roots = root_paths (scanner (dm_config d)) in
      if resp_level r = Green then (d, roots)
      else let (c, on_mount) = roots_on_mount env 0 (causing_mount r) roots (dm_collector d)
        in (d\<lparr>dm_collector := c\<rparr>, on_mount))"

definition affinity_warn_interval :: duration where "affinity_warn_interval = secs 900"

definition gate_back_off :: "daemon_env \<Rightarrow> pressure_response \<Rightarrow> daemon \<Rightarrow> daemon" where
  "gate_back_off env r d = (let now = clock_at env AtAffinity in
     if (case dm_affinity_warn d of None \<Rightarrow> True | Some t \<Rightarrow> affinity_warn_interval \<le> elapsed now t)
     then note_event (BackingOff (causing_mount r) (resp_level r)) (d\<lparr>dm_affinity_warn := Some now\<rparr>)
     else d)"

definition cleanup_scan :: "daemon_env \<Rightarrow> pressure_response \<Rightarrow> path list \<Rightarrow> daemon \<Rightarrow> daemon" where
  "cleanup_scan env r paths d =
     (if behavior_allows_scan (current_mode (dm_behavior d))
      then (send_scan_request env r paths d)\<lparr>dm_cleanup_ran := True\<rparr> else d)"

definition mode_release :: "daemon_env \<Rightarrow> pressure_response \<Rightarrow> daemon \<Rightarrow> daemon" where
  "mode_release env r d =
     (if behavior_should_release_ballast (current_mode (dm_behavior d))
      then release_ballast env AtRelease (causing_mount r) r d else d)"

definition green_tick :: "daemon_env \<Rightarrow> pressure_response \<Rightarrow> path list \<Rightarrow> daemon \<Rightarrow> daemon" where
  "green_tick env r paths d =
     (let d1 = replenish_first env 0 (resp_level r) (coordinator_inventory (fst (dm_pools d))) d;
          needs_scan = (dm_last_action d1 \<noteq> ClearAction);
          d2 = (case dm_last_action d1 of
              PreemptiveCleanup _ _ _ _ score _ \<Rightarrow> set_min_score score d1
            | ImminentDanger mount _ _ \<Rightarrow> (release_ballast env AtRelease mount r d1)\<lparr>dm_cleanup_ran := True\<rparr>
            | _ \<Rightarrow> d1)
      in if behavior_allows_scan (current_mode (dm_behavior d2)) \<and>
           (needs_scan \<or> pe_mode (dm_policy d2) = FallbackSafe)
         then let d3 = send_scan_request env r paths d2 in if needs_scan then d3\<lparr>dm_cleanup_ran := True\<rparr> else d3
         else d2)"

definition log_emergency :: "daemon_env \<Rightarrow> daemon \<Rightarrow> daemon" where
  "log_emergency env d =
     (let primary = (case root_paths (scanner (dm_config d)) of p # _ \<Rightarrow> p | [] \<Rightarrow> ''/'');
          (res, c) = collect (de_os env) (de_clock env AtPrimary) primary (dm_collector d)
      in note_event (EmergencyEntry (case res of Inr s \<Rightarrow> stats_free_pct s | Inl _ \<Rightarrow> 0)) (d\<lparr>dm_collector := c\<rparr>))"

definition handle_pressure :: "daemon_env \<Rightarrow> pressure_response \<Rightarrow> daemon \<Rightarrow> daemon" where
  "handle_pressure env r d =
     (let d1 = check_predictive_warning env r (set_min_score (sc_min_score (scoring (dm_config d))) d);
          (d2, scope) = scan_scope env r d1
      in if should_skip_for_device_affinity (resp_level r \<noteq> Green) (scope = []) (cross_devices (scanner (dm_config d)))
         then gate_back_off env r d2
         else let paths = (if scope = [] then root_paths (scanner (dm_config d)) else scope)
           in (case resp_level r of
                Green \<Rightarrow> green_tick env r paths d2
              | Critical \<Rightarrow> log_emergency env (cleanup_scan env r paths (mode_release env r d2))
              | _ \<Rightarrow> cleanup_scan env r paths (mode_release env r d2)))"

subsection \<open>Special locations\<close>

definition push_unique_path :: "path list \<Rightarrow> path \<Rightarrow> path list" where
  "push_unique_path ps p = (if list_ex (\<lambda>q. path_eq q p) ps then ps else ps @ [p])"

definition path_is_same_or_descendant :: "(path \<Rightarrow> path_key option) \<Rightarrow> path \<Rightarrow> path \<Rightarrow> bool" where
  "path_is_same_or_descendant canon candidate ancestor =
     (path_starts_with candidate ancestor
      \<or> (case (canon candidate, canon ancestor) of (Some c, Some a) \<Rightarrow> prefix a c | _ \<Rightarrow> False))"

definition special_location_scan_roots :: "(path \<Rightarrow> path_key option) \<Rightarrow> path \<Rightarrow> path list \<Rightarrow> path list" where
  "special_location_scan_roots canon location configured =
     (let under = foldl push_unique_path [] (filter (\<lambda>root. path_is_same_or_descendant canon root location) configured)
      in if under = [] then [location] else under)"

definition special_level :: "f64 \<Rightarrow> pressure_level" where
  "special_level ratio = (if ratio < lit (1/4) then Red else if ratio < lit (1/2) then Orange else Yellow)"

fun special_batch :: "pressure_level \<Rightarrow> usize" where
  "special_batch Red = 100"
| "special_batch Critical = 100"
| "special_batch Orange = 60"
| "special_batch _ = 40"

definition level_at_location :: "special_location \<Rightarrow> fs_stats \<Rightarrow> pressure_level" where
  "level_at_location l s = special_level (stats_free_pct s / f_of_word (buffer_pct l))"

text \<open>The pool to draw on: the mount's own, or the pool of the inventory with the most to release.\<close>

definition richer :: "pool_inventory option \<Rightarrow> pool_inventory \<Rightarrow> pool_inventory option" where
  "richer best i = (case best of None \<Rightarrow> Some i
     | Some b \<Rightarrow> if pi_releasable_bytes b \<le> pi_releasable_bytes i then Some i else Some b)"

definition special_release_mount :: "fs_stats \<Rightarrow> daemon \<Rightarrow> path option" where
  "special_release_mount s d =
     (if path_lookup (fs_mount_point s) (pools (fst (dm_pools d))) \<noteq> None then Some (fs_mount_point s)
      else map_option pi_mount_point (foldl richer None
        (filter (\<lambda>i. \<not> skipped i \<and> 0 < files_available i) (coordinator_inventory (fst (dm_pools d))))))"

definition special_response :: "special_location \<Rightarrow> fs_stats \<Rightarrow> path \<Rightarrow> pressure_response" where
  "special_response l s mount = \<lparr>resp_level = level_at_location l s, urgency = f_of_word (sl_priority l) / lit 255,
     scan_interval = 0, release_ballast_files = 0, max_delete_batch = special_batch (level_at_location l s),
     resp_fallback_active = False, causing_mount = mount, resp_free_pct = stats_free_pct s, predicted_seconds = None\<rparr>"

definition special_request :: "daemon_env \<Rightarrow> special_location \<Rightarrow> fs_stats \<Rightarrow> path list \<Rightarrow> scan_request" where
  "special_request env l s roots = \<lparr>
     req_paths = foldl push_unique_path (special_location_scan_roots (de_canonical env) (sl_path l) roots) roots,
     req_urgency = f_of_word (sl_priority l) / lit 255, req_level = level_at_location l s,
     req_free_pct = Some (stats_free_pct s), req_max_delete_batch = special_batch (level_at_location l s),
     force_full_scan = False, config_update = None\<rparr>"

definition note_special :: "instant \<Rightarrow> special_location \<Rightarrow> fs_stats \<Rightarrow> daemon \<Rightarrow> daemon" where
  "note_special now l s d =
     (let lvl = level_at_location l s; k = components (sl_path l);
          d1 = note_event (SpecialPressure (sl_path l) lvl (stats_free_pct s)) d
      in if (case dm_special_notify d k of None \<Rightarrow> True | Some (previous, _) \<Rightarrow> lvl \<noteq> previous)
         then note_event (SpecialNotified (sl_path l) lvl (stats_free_pct s))
           (d1\<lparr>dm_special_notify := (dm_special_notify d)(k \<mapsto> (lvl, now))\<rparr>)
         else d1)"

definition special_attention :: "daemon_env \<Rightarrow> nat \<Rightarrow> special_location \<Rightarrow> fs_stats \<Rightarrow> daemon \<Rightarrow> daemon" where
  "special_attention env i l s d =
     (let d1 = note_special (clock_at env AtSpecial) l s d;
          d2 = (case special_release_mount s d1 of None \<Rightarrow> d1
             | Some mount \<Rightarrow> release_ballast env (AtSpecialRelease i) mount (special_response l s mount) d1)
      in d2\<lparr>dm_channel := fst (enqueue_scan_request (de_taken env)
            (special_request env l s (root_paths (scanner (dm_config d2)))) True (dm_channel d2))\<rparr>)"

definition special_location_step :: "daemon_env \<Rightarrow> nat \<Rightarrow> special_location \<Rightarrow> daemon \<Rightarrow> daemon" where
  "special_location_step env i l d =
     (let now = clock_at env AtSpecial; k = components (sl_path l) in
      if \<not> scan_due (dm_special_scan d k) now l then d
      else case collect (de_os env) (de_clock env (AtSpecialStats i)) (sl_path l) (dm_collector d) of
          (Inl _, c) \<Rightarrow> d\<lparr>dm_collector := c\<rparr>
        | (Inr s, c) \<Rightarrow>
            let d1 = d\<lparr>dm_collector := c, dm_special_scan := (dm_special_scan d)(k \<mapsto> now)\<rparr>
            in if needs_attention s l then special_attention env i l s d1 else d1)"

fun special_locations_from :: "daemon_env \<Rightarrow> nat \<Rightarrow> special_location list \<Rightarrow> daemon \<Rightarrow> daemon" where
  "special_locations_from env i [] d = d"
| "special_locations_from env i (l # ls) d = special_locations_from env (Suc i) ls (special_location_step env i l d)"

definition check_special_locations :: "daemon_env \<Rightarrow> daemon \<Rightarrow> daemon" where
  "check_special_locations env d = special_locations_from env 0 (dm_special d) d"

subsection \<open>The swap alarm\<close>

record memory_info =
  mem_total_bytes :: u64
  mem_available_bytes :: u64
  swap_total_bytes :: u64
  swap_free_bytes :: u64

definition bytes_to_pct :: "u64 \<Rightarrow> u64 \<Rightarrow> f64" where
  "bytes_to_pct v whole = (if whole = 0 then 0 else f_of_word v * lit 100 / f_of_word whole)"

definition swap_thrash_min_available :: u64 where "swap_thrash_min_available = 8 * 1024 * 1024 * 1024"

definition is_swap_thrash_risk :: "bool \<Rightarrow> memory_info \<Rightarrow> bool" where
  "is_swap_thrash_risk zram m =
     (if swap_total_bytes m = 0 then False
      else if bytes_to_pct (sat_sub (swap_total_bytes m) (swap_free_bytes m)) (swap_total_bytes m) < lit 70 then False
      else if zram \<and> lit 40 < f_of_word (mem_available_bytes m) * lit 100 / f_of_word (max (mem_total_bytes m) 1) then False
      else mem_available_bytes m < swap_thrash_min_available)"

definition check_swap_thrash :: "daemon_env \<Rightarrow> bool \<Rightarrow> memory_info option \<Rightarrow> daemon \<Rightarrow> daemon" where
  "check_swap_thrash env zram memory d = (case memory of None \<Rightarrow> d
     | Some m \<Rightarrow>
        let now = clock_at env AtSwap in
        if \<not> is_swap_thrash_risk zram m then d\<lparr>dm_swap_active := False\<rparr>
        else let warn = (\<not> dm_swap_active d \<or>
                (case dm_swap_warning d of None \<Rightarrow> True | Some t \<Rightarrow> secs 900 \<le> elapsed now t));
                 d1 = d\<lparr>dm_swap_active := True\<rparr>
          in if warn then note_event SwapThrash (d1\<lparr>dm_swap_warning := Some now\<rparr>) else d1)"

subsection \<open>Notifications of the level\<close>

definition log_pressure_change :: "daemon_env \<Rightarrow> pressure_response \<Rightarrow> daemon \<Rightarrow> daemon" where
  "log_pressure_change env r d =
     (let (res, c) = collect (de_os env) (de_clock env AtChange) (causing_mount r) (dm_collector d);
          (free, mount) = (case res of Inr s \<Rightarrow> (stats_free_pct s, fs_mount_point s) | Inl _ \<Rightarrow> (0, ''/''))
      in note_event (PressureNotified (dm_last_level d) (resp_level r) mount free) (d\<lparr>dm_collector := c\<rparr>))"

text \<open>Within five minutes of a notification only a level above the highest one notified is.\<close>

definition note_level :: "daemon_env \<Rightarrow> pressure_response \<Rightarrow> daemon \<Rightarrow> daemon" where
  "note_level env r d =
     (if resp_level r = dm_last_level d then d
      else let cooling = (case dm_notified_at d of None \<Rightarrow> False | Some t \<Rightarrow> elapsed (clock_at env AtNotify) t < secs 300);
               notify = (cooling \<longrightarrow> dm_notified_level d < resp_level r);
               d1 = (if cooling then d else d\<lparr>dm_notified_level := Green\<rparr>);
               d2 = (if notify then (log_pressure_change env r d1)
                   \<lparr>dm_notified_at := Some (clock_at env AtNotified),
                    dm_notified_level := max (dm_notified_level d1) (resp_level r)\<rparr>
                 else d1)
           in d2\<lparr>dm_last_level := resp_level r\<rparr>)"

end
