(* ===== verification/Daemon_Loop.thy ===== *)
theory Daemon_Loop
  imports Daemon_Run
begin

section \<open>Start, reload and the tick of the daemon (src/src/daemon/loop_main.rs)\<close>

text \<open>
  The state the daemon starts in, what a reload of the configuration changes, and one turn of the main loop
  with everything it may be told in between. A reload carries the result of reading the file and of the
  final steps of loading it, so every configuration the daemon runs with has passed the validation.
\<close>

definition shared_executor_new :: "config \<Rightarrow> shared_executor_config" where
  "shared_executor_new c = \<lparr>sx_dry_run = cfg_dry_run (scanner c),
     sx_max_batch_size = unat (cfg_max_delete_batch (scanner c)), sx_min_score = sc_min_score (scoring c),
     repeat_base_cooldown_secs = scanner_config.repeat_base_cooldown_secs (scanner c),
     repeat_max_cooldown_secs = scanner_config.repeat_max_cooldown_secs (scanner c)\<rparr>"

definition register_roots :: "config \<Rightarrow> voi_scheduler \<Rightarrow> voi_scheduler" where
  "register_roots c v = foldl (\<lambda>v root. register_path (components root) v) v (root_paths (scanner c))"

text \<open>The ballast is discovered around the roots, the special locations and the two directories of the daemon.\<close>

definition ballast_discovery_paths :: "config \<Rightarrow> special_location list \<Rightarrow> path option \<Rightarrow> path option \<Rightarrow> path list" where
  "ballast_discovery_paths c locations state_parent ballast_parent =
     foldl push_unique_path []
       (root_paths (scanner c) @ map sl_path locations
        @ (case state_parent of Some p \<Rightarrow> [p] | None \<Rightarrow> []) @ (case ballast_parent of Some p \<Rightarrow> [p] | None \<Rightarrow> []))"

definition daemon_new ::
  "config \<Rightarrow> instant \<Rightarrow> special_location list \<Rightarrow> coordinator \<times> disk \<Rightarrow> daemon" where
  "daemon_new c now locations ballast_pools =
     \<lparr>dm_config = c, dm_collector = collector_new (millis (unat (fs_cache_ttl_ms (telemetry c)))),
      dm_monitors = (\<lambda>_. None), dm_prediction = prediction (pressure c), dm_last_action = ClearAction,
      dm_scorecard = scorecard_new 200, dm_cleanup_ran = False, dm_ewma_confidence = 0,
      dm_policy = policy_new now (policy_section c), dm_guard = None,
      dm_behavior = behavior_new MemUnknown Green,
      dm_release = release_controller_new (replenish_cooldown_minutes (ballast c)), dm_pools = ballast_pools,
      dm_shared = shared_executor_new c, dm_shared_scoring = scoring c, dm_shared_scanner = scanner c,
      dm_scoring = engine_from_config (scoring c) (min_file_age_minutes (scanner c)),
      dm_voi = register_roots c (voi_new (scheduler c)),
      dm_channel = \<lparr>queue = [], channel_cap = scanner_channel_cap, peer_alive = True\<rparr>,
      dm_affinity_warn = None, dm_channel_warn = None, dm_channel_suppressed = 0, dm_warning_at = None,
      dm_warning_level = None, dm_special = locations, dm_special_scan = (\<lambda>_. None),
      dm_special_notify = (\<lambda>_. None), dm_swap_warning = None, dm_swap_active = False, dm_last_level = Green,
      dm_notified_level = Green, dm_notified_at = None, dm_events = []\<rparr>"

subsection \<open>Reload\<close>

text \<open>The hash of a configuration is FNV-1a over its JSON text (\<open>json\<close>).\<close>

definition fnv_step :: "u64 \<Rightarrow> char \<Rightarrow> u64" where
  "fnv_step h b = xor h (of_char b) * 0x100000001b3"

definition stable_hash :: "(config \<Rightarrow> string option) \<Rightarrow> config \<Rightarrow> u64 option" where
  "stable_hash json c = map_option (foldl fnv_step 0xcbf29ce484222325) (json c)"

record reload_input =
  rl_file :: "sbh_error + config"
  rl_sacred :: "sbh_error + string list"
  rl_json :: "config \<Rightarrow> string option"
  rl_visit :: "mount_point list \<Rightarrow> mount_point list"
  rl_mounts :: "sbh_error + mount_point list"
  rl_stats :: "path \<Rightarrow> sbh_error + fs_stats"
  rl_ballast_dir :: path
  rl_state_parent :: "path option"
  rl_ballast_parent :: "path option"
  rl_now :: instant

definition load_config :: "protect_env \<Rightarrow> (f64 \<Rightarrow> string) \<Rightarrow> reload_input \<Rightarrow> sbh_error + config" where
  "load_config pe fmt rl = (case rl_file rl of Inl e \<Rightarrow> Inl e | Inr c \<Rightarrow> finish_load pe fmt (rl_sacred rl) c)"

definition rediscover_ballast :: "daemon_env \<Rightarrow> reload_input \<Rightarrow> config \<Rightarrow> daemon \<Rightarrow> coordinator \<times> disk" where
  "rediscover_ballast env rl c d =
     (case discover_inner (de_storage env) (de_codec env) (rl_visit rl) (ballast c)
         (ballast_discovery_paths c (dm_special d) (rl_state_parent rl) (rl_ballast_parent rl))
         (rl_mounts rl) (rl_stats rl) (Some (rl_ballast_dir rl)) (snd (dm_pools d)) of
        (Inr co, w) \<Rightarrow> (co, w)
      | (Inl _, w) \<Rightarrow> coordinator_update_config (de_storage env) (de_codec env) (ballast c) (fst (dm_pools d), w))"

definition apply_config :: "daemon_env \<Rightarrow> reload_input \<Rightarrow> config \<Rightarrow> daemon \<Rightarrow> daemon" where
  "apply_config env rl c d = d\<lparr>
     dm_scoring := engine_from_config (scoring c) (min_file_age_minutes (scanner c)),
     dm_release := controller_reset (release_controller_new (replenish_cooldown_minutes (ballast c))),
     dm_pools := rediscover_ballast env rl c d,
     dm_monitors := (\<lambda>k. map_option (monitor_update_config c) (dm_monitors d k)),
     dm_shared := shared_executor_new c,
     dm_collector := set_ttl (millis (unat (fs_cache_ttl_ms (telemetry c)))) (dm_collector d),
     dm_voi := register_roots c (voi_update_config (scheduler c) (dm_voi d)),
     dm_shared_scoring := scoring c, dm_shared_scanner := scanner c,
     dm_policy := update_config (rl_now rl) (policy_section c) (dm_policy d),
     dm_prediction := prediction (pressure c),
     dm_config := c\<rparr>"

definition handle_config_reload ::
  "protect_env \<Rightarrow> (f64 \<Rightarrow> string) \<Rightarrow> daemon_env \<Rightarrow> reload_input \<Rightarrow> daemon \<Rightarrow> daemon" where
  "handle_config_reload pe fmt env rl d = (case load_config pe fmt rl of Inl e \<Rightarrow> note_event (ReloadFailed e) d
     | Inr c \<Rightarrow> if stable_hash (rl_json rl) (dm_config d) = stable_hash (rl_json rl) c then d
         else note_event ConfigReloaded (apply_config env rl c d))"

subsection \<open>Reports of the workers\<close>

record root_scan_result =
  rs_path :: path
  rs_candidates_found :: usize
  rs_potential_bytes :: u64
  rs_false_positives :: usize
  rs_duration :: duration

datatype worker_report = ScanCompleted "root_scan_result list" | DeletionCompleted u64 u64

definition note_root_scan :: "instant \<Rightarrow> voi_scheduler \<Rightarrow> root_scan_result \<Rightarrow> voi_scheduler" where
  "note_root_scan now v s = record_scan_result (components (rs_path s)) (rs_potential_bytes s)
     (ucast (rs_candidates_found s)) (ucast (rs_false_positives s)) (f_of_nat (rs_duration s div 10 ^ 6)) now v"

fun note_report :: "instant \<Rightarrow> worker_report \<Rightarrow> daemon \<Rightarrow> daemon" where
  "note_report now (ScanCompleted stats) d = d\<lparr>dm_voi := end_window (foldl (note_root_scan now) (dm_voi d) stats)\<rparr>"
| "note_report now (DeletionCompleted deleted freed) d =
     (if 0 < deleted then note_event (CleanupNotified deleted freed) d else d)"

subsection \<open>One turn of the loop\<close>

record tick_input =
  ti_shutdown :: bool
  ti_reload :: "reload_input option"
  ti_disk_at :: instant
  ti_waiting :: "(memory_pressure_level \<times> instant) list"
  ti_rss_exceeded :: bool
  ti_zram :: bool
  ti_memory :: "memory_info option"
  ti_reports :: "(worker_report \<times> instant) list"
  ti_forced :: "nat option"
  ti_sleeping :: "(memory_pressure_level \<times> instant) list"

datatype tick_end = Continues | ShutsDown | ExitsForMemory

definition drain_events :: "(memory_pressure_level \<times> instant) list \<Rightarrow> pressure_level \<Rightarrow> daemon \<Rightarrow> daemon" where
  "drain_events evs disk d = d\<lparr>dm_behavior := drain_memory_pressure_events
     (behavior_hysteresis_secs (pressure (dm_config d))) disk evs (dm_behavior d)\<rparr>"

definition settle_behavior :: "tick_input \<Rightarrow> pressure_level \<Rightarrow> daemon \<Rightarrow> daemon" where
  "settle_behavior ti lvl d = drain_events (ti_waiting ti) lvl
     (d\<lparr>dm_behavior := disk_tick (behavior_hysteresis_secs (pressure (dm_config d))) lvl (ti_disk_at ti) (dm_behavior d)\<rparr>)"

definition react :: "daemon_env \<Rightarrow> tick_input \<Rightarrow> pressure_response \<Rightarrow> daemon \<Rightarrow> daemon" where
  "react env ti r d =
     (let d1 = check_swap_thrash env (ti_zram ti) (ti_memory ti)
            (check_special_locations env (handle_pressure env r d));
          d2 = foldl (\<lambda>d (report, now). note_report now report d) d1 (ti_reports ti);
          d3 = (case ti_forced ti of None \<Rightarrow> d2 | Some n \<Rightarrow> trigger_forced_scan n r d2)
      in drain_events (ti_sleeping ti) (resp_level r) d3)"

definition daemon_tick ::
  "protect_env \<Rightarrow> (f64 \<Rightarrow> string) \<Rightarrow> daemon_env \<Rightarrow> tick_input \<Rightarrow> daemon \<Rightarrow> (tick_end \<times> daemon) option" where
  "daemon_tick pe fmt env ti d =
     (if ti_shutdown ti then Some (ShutsDown, d)
      else let d1 = (case ti_reload ti of None \<Rightarrow> d | Some rl \<Rightarrow> handle_config_reload pe fmt env rl d)
        in case check_pressure env d1 of None \<Rightarrow> None
           | Some (Inl e, d2) \<Rightarrow> Some (Continues,
               drain_events (ti_sleeping ti) (dm_last_level d2) (note_event (CheckFailed e) d2))
           | Some (Inr r, d2) \<Rightarrow>
               let d3 = settle_behavior ti (resp_level r) (note_level env r d2)
               in if ti_rss_exceeded ti then Some (ExitsForMemory, d3) else Some (Continues, react env ti r d3))"

text \<open>The start of the loop: ballast, a first check and the memory level; an error of them ends the daemon.\<close>

definition daemon_start ::
  "daemon_env \<Rightarrow> (nat \<Rightarrow> path \<Rightarrow> sbh_error + fs_stats) \<Rightarrow> memory_pressure_level \<Rightarrow> instant \<Rightarrow> sbh_error option \<Rightarrow>
     daemon \<Rightarrow> ((sbh_error + pressure_response) \<times> daemon) option" where
  "daemon_start env stats mem now memory_limit d =
     (let (rep, st) = provision_all (de_storage env) (de_codec env) stats (dm_pools d) in
      case check_pressure env (d\<lparr>dm_pools := st\<rparr>) of None \<Rightarrow> None
      | Some (Inl e, d1) \<Rightarrow> Some (Inl e, d1)
      | Some (Inr r, d1) \<Rightarrow> (case memory_limit of Some e \<Rightarrow> Some (Inl e, d1)
          | None \<Rightarrow> Some (Inr r, d1\<lparr>dm_behavior := fst (update_behavior_mode
               (behavior_hysteresis_secs (pressure (dm_config d1))) mem (resp_level r) ''startup'' now (dm_behavior d1))\<rparr>)))"

subsection \<open>What the reaction leaves alone\<close>

definition core ::
  "daemon \<Rightarrow> config \<times> (component list \<Rightarrow> mount_monitor option) \<times> behavior_state \<times> special_location list" where
  "core d = (dm_config d, dm_monitors d, dm_behavior d, dm_special d)"

lemma core_updates [simp]:
  "core (note_event e d) = core d" "core (set_min_score x d) = core d" "core (d\<lparr>dm_channel := ch\<rparr>) = core d"
  "core (d\<lparr>dm_collector := c\<rparr>) = core d" "core (d\<lparr>dm_release := rc\<rparr>) = core d" "core (d\<lparr>dm_pools := st\<rparr>) = core d"
  "core (d\<lparr>dm_cleanup_ran := b\<rparr>) = core d" "core (d\<lparr>dm_affinity_warn := t\<rparr>) = core d"
  "core (d\<lparr>dm_channel_suppressed := n\<rparr>) = core d" "core (d\<lparr>dm_channel_warn := t\<rparr>) = core d"
  "core (d\<lparr>dm_warning_at := t\<rparr>) = core d" "core (d\<lparr>dm_warning_level := l\<rparr>) = core d"
  "core (d\<lparr>dm_special_scan := f\<rparr>) = core d" "core (d\<lparr>dm_special_notify := g\<rparr>) = core d"
  "core (d\<lparr>dm_swap_active := b\<rparr>) = core d" "core (d\<lparr>dm_swap_warning := t\<rparr>) = core d"
  "core (d\<lparr>dm_voi := v\<rparr>) = core d" "core (d\<lparr>dm_notified_level := l1\<rparr>) = core d"
  "core (d\<lparr>dm_notified_at := t\<rparr>) = core d" "core (d\<lparr>dm_last_level := l1\<rparr>) = core d"
  by (simp_all add: core_def note_event_def set_min_score_def)

lemma core_release [simp]: "core (release_ballast env site mount r d) = core d"
  by (simp add: release_ballast_def Let_def split: option.split prod.split sum.split)

lemma core_replenish [simp]: "core (replenish_first env i lvl infos d) = core d"
  by (induction infos arbitrary: i d) (auto simp: Let_def split: option.split prod.split sum.split)

lemma core_request [simp]: "core (send_scan_request env r paths d) = core d"
  by (simp add: send_scan_request_def note_saturated_def Let_def split: prod.split)

lemma core_warning [simp]: "core (check_predictive_warning env r d) = core d"
  by (simp add: check_predictive_warning_def Let_def split: option.split)

lemma core_cleanup [simp]: "core (cleanup_scan env r paths d) = core d"
  by (simp add: cleanup_scan_def)

lemma core_mode_release [simp]: "core (mode_release env r d) = core d"
  by (simp add: mode_release_def)

lemma core_emergency [simp]: "core (log_emergency env d) = core d"
  by (simp add: log_emergency_def Let_def split: prod.split)

lemma core_green [simp]: "core (green_tick env r paths d) = core d"
  by (simp add: green_tick_def Let_def split: predictive_action.split)

lemma core_back_off [simp]: "core (gate_back_off env r d) = core d"
  by (simp add: gate_back_off_def Let_def)

lemma core_scope: "scan_scope env r d = (d1, ps) \<Longrightarrow> core d1 = core d"
  by (auto simp: scan_scope_def Let_def split: if_splits prod.splits)

lemma core_handle [simp]: "core (handle_pressure env r d) = core d"
  by (auto simp: handle_pressure_def Let_def dest: core_scope split: prod.split pressure_level.split)

lemma core_special [simp]: "core (special_location_step env i l d) = core d"
  by (auto simp: special_location_step_def special_attention_def note_special_def Let_def
      split: prod.split sum.split option.split)

lemma core_specials [simp]: "core (special_locations_from env i ls d) = core d"
  by (induction ls arbitrary: i d) simp_all

lemma core_swap [simp]: "core (check_swap_thrash env z m d) = core d"
  by (simp add: check_swap_thrash_def Let_def split: option.split)

lemma core_report [simp]: "core (note_report now rep d) = core d"
  by (cases rep) simp_all

lemma core_reports [simp]: "core (foldl (\<lambda>d (report, now). note_report now report d) d reps) = core d"
  by (induction reps arbitrary: d) (simp_all split: prod.split)

lemma core_forced [simp]: "core (trigger_forced_scan n r d) = core d"
  by (simp add: trigger_forced_scan_def)

lemma core_note_level [simp]: "core (note_level env r d) = core d"
  by (simp add: note_level_def log_pressure_change_def Let_def split: prod.split)

lemma react_core: "\<exists>b. core (react env ti r d) = (dm_config d, dm_monitors d, b)"
proof -
  have drain: "\<exists>b. core (drain_events evs lvl x) = (dm_config d, dm_monitors d, b)" if "core x = core d" for evs lvl x
    using that by (simp add: core_def drain_events_def)
  show ?thesis unfolding react_def Let_def by (rule drain) (simp add: check_special_locations_def split: option.split)
qed

subsection \<open>The daemon never panics\<close>

lemma daemon_ok_core:
  "fst (core d') = fst (core d) \<Longrightarrow> fst (snd (core d')) = fst (snd (core d)) \<Longrightarrow> daemon_ok pe fmt d' = daemon_ok pe fmt d"
  by (simp add: core_def daemon_ok_def)

lemma daemon_ok_new: "validate pe fmt c = None \<Longrightarrow> daemon_ok pe fmt (daemon_new c now ls st)"
  by (simp add: daemon_ok_def daemon_new_def)

lemma daemon_ok_reload:
  assumes "daemon_ok pe fmt d"
  shows "daemon_ok pe fmt (handle_config_reload pe fmt env rl d)"
proof (cases "load_config pe fmt rl")
  case (Inl e)
  then show ?thesis using assms daemon_ok_core [of "note_event (ReloadFailed e) d" d] by (simp add: handle_config_reload_def)
next
  case (Inr c)
  then have valid: "validate pe fmt c = None"
    by (auto simp: load_config_def split: sum.splits intro: loaded_validates)
  have "daemon_ok pe fmt (apply_config env rl c d)"
    using assms valid monitor_wf_reload by (auto simp: daemon_ok_def apply_config_def)
  then show ?thesis
    using assms daemon_ok_core [of "note_event ConfigReloaded (apply_config env rl c d)" "apply_config env rl c d"]
    by (simp add: handle_config_reload_def Inr)
qed

definition env_ok :: "daemon_env \<Rightarrow> bool" where
  "env_ok env = (clock_at env AtMonitors < 2 ^ 94 \<and> (\<forall>xs. mset (de_visit env xs) = mset xs))"

text \<open>The states of the loop: started with a configuration that was loaded, and any number of turns.\<close>

inductive daemon_reach :: "protect_env \<Rightarrow> (f64 \<Rightarrow> string) \<Rightarrow> daemon \<Rightarrow> bool" for pe fmt where
  started: "finish_load pe fmt sacred c0 = Inr c \<Longrightarrow> env_ok env \<Longrightarrow>
    daemon_start env stats mem now None (daemon_new c now0 ls st) = Some (Inr r, d) \<Longrightarrow> daemon_reach pe fmt d"
| ticked: "daemon_reach pe fmt d \<Longrightarrow> env_ok env \<Longrightarrow> daemon_tick pe fmt env ti d = Some (e, d') \<Longrightarrow> daemon_reach pe fmt d'"

lemma daemon_tick_total:
  assumes "daemon_ok pe fmt d" "env_ok env"
  shows "\<exists>e d'. daemon_tick pe fmt env ti d = Some (e, d') \<and> daemon_ok pe fmt d'"
proof (cases "ti_shutdown ti")
  case True
  then show ?thesis using assms(1) by (simp add: daemon_tick_def)
next
  case False
  define d1 where "d1 = (case ti_reload ti of None \<Rightarrow> d | Some rl \<Rightarrow> handle_config_reload pe fmt env rl d)"
  have "daemon_ok pe fmt d1" using assms(1) daemon_ok_reload by (simp add: d1_def split: option.split)
  then obtain res d2 where d2: "check_pressure env d1 = Some (res, d2)" "daemon_ok pe fmt d2"
    using check_pressure_total assms(2) unfolding env_ok_def by blast
  have ok: "daemon_ok pe fmt x" if "core x = (dm_config y, dm_monitors y, b)" "core y = core d2" for x y b
    using d2(2) daemon_ok_core that by (metis core_def fst_conv snd_conv)
  show ?thesis
  proof (cases res)
    case (Inl e)
    define y where "y = note_event (CheckFailed e) d2"
    have "daemon_ok pe fmt (drain_events (ti_sleeping ti) (dm_last_level d2) y)"
      by (rule ok [of _ y "(dm_behavior (drain_events (ti_sleeping ti) (dm_last_level d2) y), dm_special y)"])
        (simp_all add: y_def core_def drain_events_def note_event_def)
    then show ?thesis using False d2(1) Inl by (simp add: daemon_tick_def d1_def y_def)
  next
    case (Inr r)
    define x where "x = note_level env r d2"
    define y where "y = settle_behavior ti (resp_level r) x"
    have x: "core x = core d2" by (simp add: x_def)
    have y: "dm_config y = dm_config x" "dm_monitors y = dm_monitors x"
      by (simp_all add: y_def settle_behavior_def drain_events_def)
    have "daemon_ok pe fmt y" using ok [of y x "(dm_behavior y, dm_special y)"] x y by (simp add: core_def)
    moreover obtain b where "core (react env ti r y) = (dm_config y, dm_monitors y, b)" using react_core by blast
    then have "daemon_ok pe fmt (react env ti r y)" using ok [of "react env ti r y" x b] x y by simp
    ultimately show ?thesis using False d2(1) Inr by (simp add: daemon_tick_def d1_def x_def y_def Let_def)
  qed
qed

lemma reachable_daemon_ok: "daemon_reach pe fmt d \<Longrightarrow> daemon_ok pe fmt d"
proof (induction rule: daemon_reach.induct)
  case (started sacred c0 c env stats mem now now0 ls st r d)
  have "daemon_ok pe fmt ((daemon_new c now0 ls st)\<lparr>dm_pools := x\<rparr>)" for x
    using daemon_ok_new [OF loaded_validates [OF started(1)], of now0 ls st] by (simp add: daemon_ok_def)
  then have "\<exists>res d1. check_pressure env ((daemon_new c now0 ls st)\<lparr>dm_pools := x\<rparr>) = Some (res, d1) \<and> daemon_ok pe fmt d1" for x
    using check_pressure_total started(2) unfolding env_ok_def by blast
  then show ?case using started(3)
    by (auto simp: daemon_start_def daemon_ok_def Let_def split: prod.splits option.splits sum.splits)
      (metis option.inject prod.inject)+
next
  case (ticked d env ti e d')
  then show ?case using daemon_tick_total by (metis option.inject prod.inject)
qed

text \<open>C5: from any loaded configuration, through any sequence of readings, memory events,
  reloads (successful or not), reports and failures of the statistics, the next turn of the loop returns:
  none of the clamps between a reading and the response to it panics, and the new state is as good.\<close>

theorem daemon_never_panics:
  assumes "daemon_reach pe fmt d" and "env_ok env"
  shows "\<exists>e d'. daemon_tick pe fmt env ti d = Some (e, d') \<and> daemon_reach pe fmt d'"
proof -
  obtain e d' where "daemon_tick pe fmt env ti d = Some (e, d')"
    using daemon_tick_total [OF reachable_daemon_ok [OF assms(1)] assms(2)] by blast
  then show ?thesis using daemon_reach.ticked assms by blast
qed

subsection \<open>Where requests come from\<close>

lemma try_send_members: "q \<in> set (queue (fst (try_send x ch))) \<Longrightarrow> q \<in> set (queue ch) \<or> q = x"
  by (auto simp: try_send_def split: if_splits)

lemma try_recv_members: "q \<in> set (queue (fst (try_recv ch))) \<Longrightarrow> q \<in> set (queue ch)"
  by (auto simp: try_recv_def split: list.splits)

lemma taken_members: "q \<in> set (queue (taken n ch)) \<Longrightarrow> q \<in> set (queue ch)"
  by (auto simp: taken_def dest: in_set_dropD)

lemma enqueue_members:
  assumes "q \<in> set (queue (fst (enqueue_scan_request n req b ch)))"
  shows "q \<in> set (queue ch) \<or> q = req"
proof -
  obtain ch1 s1 ch2 s2 ch3 s3 where ch: "try_send req ch = (ch1, s1)" "try_recv (taken n ch1) = (ch2, s2)"
      "try_send req ch2 = (ch3, s3)" by fastforce
  then have "fst (enqueue_scan_request n req b ch) \<in> {ch1, ch2, ch3}"
    by (simp add: enqueue_scan_request_def split: send_result.split recv_result.split)
  then show ?thesis
    using assms ch try_send_members [of q req ch] try_recv_members [of q "taken n ch1"] taken_members [of q n ch1]
      try_send_members [of q req ch2] by auto
qed

lemma channel_updates [simp]:
  "dm_channel (note_event e d) = dm_channel d" "dm_channel (set_min_score x d) = dm_channel d"
  by (simp_all add: note_event_def set_min_score_def)

lemma channel_release [simp]: "dm_channel (release_ballast env site mount r d) = dm_channel d"
  by (simp add: release_ballast_def Let_def split: option.split prod.split sum.split)

lemma channel_replenish [simp]: "dm_channel (replenish_first env i lvl infos d) = dm_channel d"
  by (induction infos arbitrary: i d) (auto simp: Let_def split: option.split prod.split sum.split)

lemma channel_warning [simp]: "dm_channel (check_predictive_warning env r d) = dm_channel d"
  by (simp add: check_predictive_warning_def Let_def split: option.split)

lemma channel_mode_release [simp]: "dm_channel (mode_release env r d) = dm_channel d"
  by (simp add: mode_release_def)

lemma channel_emergency [simp]: "dm_channel (log_emergency env d) = dm_channel d"
  by (simp add: log_emergency_def Let_def split: prod.split)

lemma channel_back_off [simp]: "dm_channel (gate_back_off env r d) = dm_channel d"
  by (simp add: gate_back_off_def Let_def)

lemma channel_scope: "scan_scope env r d = (d1, ps) \<Longrightarrow> dm_channel d1 = dm_channel d"
  by (auto simp: scan_scope_def Let_def split: if_splits prod.splits)

lemma channel_swap [simp]: "dm_channel (check_swap_thrash env z m d) = dm_channel d"
  by (simp add: check_swap_thrash_def Let_def split: option.split)

lemma channel_reports [simp]: "dm_channel (foldl (\<lambda>d (report, now). note_report now report d) d reps) = dm_channel d"
proof (induction reps arbitrary: d)
  case (Cons x reps)
  then show ?case by (cases x; cases "fst x") simp_all
qed simp

text \<open>The three sources of requests.\<close>

definition pressure_origin :: "pressure_response \<Rightarrow> behavior_state \<Rightarrow> scan_request \<Rightarrow> bool" where
  "pressure_origin r b q = (behavior_allows_scan (current_mode b) \<and> (\<exists>paths. q = pressure_request r paths (current_mode b)))"

lemma send_members:
  "q \<in> set (queue (dm_channel (send_scan_request env r paths d))) \<Longrightarrow>
     q \<in> set (queue (dm_channel d)) \<or> q = pressure_request r paths (current_mode (dm_behavior d))"
  using enqueue_members [of q "de_taken env" "pressure_request r paths (current_mode (dm_behavior d))"
      "Red \<le> resp_level r \<or> lit (90/100) \<le> pressure_response.urgency r" "dm_channel d"]
  by (auto simp: send_scan_request_def note_saturated_def Let_def split: if_splits prod.splits)

lemma behavior_core: "core d = core d1 \<Longrightarrow> dm_behavior d = dm_behavior d1"
  by (simp add: core_def)

lemma cleanup_members:
  "q \<in> set (queue (dm_channel (cleanup_scan env r paths d))) \<Longrightarrow>
     q \<in> set (queue (dm_channel d)) \<or> pressure_origin r (dm_behavior d) q"
  using send_members [of q env r paths d] by (auto simp: cleanup_scan_def pressure_origin_def split: if_splits)

lemma green_members:
  assumes "q \<in> set (queue (dm_channel (green_tick env r paths d)))"
  shows "q \<in> set (queue (dm_channel d)) \<or> pressure_origin r (dm_behavior d) q"
proof -
  define d1 where "d1 = replenish_first env 0 (resp_level r) (coordinator_inventory (fst (dm_pools d))) d"
  define d2 where "d2 = (case dm_last_action d1 of
      PreemptiveCleanup _ _ _ _ score _ \<Rightarrow> set_min_score score d1
    | ImminentDanger mount _ _ \<Rightarrow> (release_ballast env AtRelease mount r d1)\<lparr>dm_cleanup_ran := True\<rparr>
    | _ \<Rightarrow> d1)"
  have d2: "core d2 = core d" "dm_channel d2 = dm_channel d"
    by (simp_all add: d2_def d1_def split: predictive_action.split)
  have "q \<in> set (queue (dm_channel d2)) \<or> (behavior_allows_scan (current_mode (dm_behavior d2)) \<and>
      q \<in> set (queue (dm_channel (send_scan_request env r paths d2))))"
    using assms unfolding green_tick_def Let_def d1_def [symmetric] d2_def [symmetric] by (auto split: if_splits)
  then show ?thesis
    using d2(2) behavior_core [OF d2(1)] send_members [of q env r paths d2] by (auto simp: pressure_origin_def)
qed

lemma handle_members:
  assumes "q \<in> set (queue (dm_channel (handle_pressure env r d)))"
  shows "q \<in> set (queue (dm_channel d)) \<or> pressure_origin r (dm_behavior d) q"
proof -
  define d1 where "d1 = check_predictive_warning env r (set_min_score (sc_min_score (scoring (dm_config d))) d)"
  obtain d2 scope where d2: "scan_scope env r d1 = (d2, scope)" by fastforce
  have same: "core d2 = core d" "dm_channel d2 = dm_channel d"
    using core_scope [OF d2] channel_scope [OF d2] by (simp_all add: d1_def)
  define paths where "paths = (if scope = [] then root_paths (scanner (dm_config d)) else scope)"
  have mode: "core (mode_release env r d2) = core d" "dm_channel (mode_release env r d2) = dm_channel d"
    by (simp_all add: same)
  have "dm_channel (handle_pressure env r d) \<in> {dm_channel d2, dm_channel (green_tick env r paths d2),
      dm_channel (cleanup_scan env r paths (mode_release env r d2))}"
    unfolding handle_pressure_def Let_def d1_def [symmetric] d2 paths_def
    by (simp split: pressure_level.split)
  then show ?thesis
    using assms green_members [of q env r paths d2] cleanup_members [of q env r paths "mode_release env r d2"]
      behavior_core [OF same(1)] behavior_core [OF mode(1)] same(2) mode(2) by auto
qed

definition special_origin :: "daemon_env \<Rightarrow> daemon \<Rightarrow> scan_request \<Rightarrow> bool" where
  "special_origin env d q = (\<exists>l \<in> set (dm_special d). \<exists>s. needs_attention s l
     \<and> q = special_request env l s (root_paths (scanner (dm_config d))))"

definition forced_origin :: "tick_input \<Rightarrow> pressure_response \<Rightarrow> scan_request \<Rightarrow> bool" where
  "forced_origin ti r q = (ti_forced ti \<noteq> None \<and> force_full_scan q \<and> req_level q = resp_level r)"

lemma config_core: "core d = core d1 \<Longrightarrow> dm_config d = dm_config d1"
  by (simp add: core_def)

lemma core_attention [simp]: "core (special_attention env i l s d) = core d"
  by (simp add: special_attention_def note_special_def Let_def split: option.split)

lemma attention_members:
  assumes "q \<in> set (queue (dm_channel (special_attention env i l s d)))"
  shows "q \<in> set (queue (dm_channel d)) \<or> q = special_request env l s (root_paths (scanner (dm_config d)))"
proof -
  define d1 where "d1 = note_special (clock_at env AtSpecial) l s d"
  define d2 where "d2 = (case special_release_mount s d1 of None \<Rightarrow> d1
     | Some mount \<Rightarrow> release_ballast env (AtSpecialRelease i) mount (special_response l s mount) d1)"
  have "dm_channel d2 = dm_channel d" "core d2 = core d"
    by (simp_all add: d2_def d1_def note_special_def Let_def split: option.split)
  then show ?thesis
    using assms enqueue_members [of q "de_taken env" _ True "dm_channel d2"] config_core [of d2 d]
    unfolding special_attention_def Let_def d1_def [symmetric] d2_def [symmetric] by fastforce
qed

lemma special_step_members:
  assumes "q \<in> set (queue (dm_channel (special_location_step env i l d)))"
  shows "q \<in> set (queue (dm_channel d)) \<or> (\<exists>s. needs_attention s l \<and>
    q = special_request env l s (root_paths (scanner (dm_config d))))"
  using assms attention_members [of q env i l]
  by (auto simp: special_location_step_def Let_def split: if_splits prod.splits sum.splits) fastforce+

lemma specials_members:
  assumes "q \<in> set (queue (dm_channel (special_locations_from env i ls d)))" "set ls \<subseteq> set (dm_special d)"
  shows "q \<in> set (queue (dm_channel d)) \<or> special_origin env d q"
  using assms
proof (induction ls arbitrary: i d)
  case (Cons l ls)
  have same: "core (special_location_step env i l d) = core d" by simp
  then have "special_origin env (special_location_step env i l d) q = special_origin env d q"
    "dm_special (special_location_step env i l d) = dm_special d"
    by (simp_all add: special_origin_def core_def)
  then have "q \<in> set (queue (dm_channel (special_location_step env i l d))) \<or> special_origin env d q"
    using Cons.IH [of "Suc i" "special_location_step env i l d"] Cons.prems by simp
  then show ?case using special_step_members [of q env i l d] Cons.prems(2) by (auto simp: special_origin_def)
qed simp

text \<open>C6: every request a turn puts into the scanner's queue has one of three sources: the
  pressure, and then it asks for deletions only where the behavior mode does - the disk at red or above, or
  at yellow or above with memory not normal; a special location that needs attention; or an operator's
  signal. The mode bounds the first kind only.\<close>

theorem requests_accounted:
  assumes "behavior_wf (dm_behavior d)" and "q \<in> set (queue (dm_channel (react env ti r d)))"
    and "q \<notin> set (queue (dm_channel d))"
  shows "(\<exists>paths. q = pressure_request r paths (current_mode (dm_behavior d)) \<and>
        (req_max_delete_batch q \<noteq> 0 \<longrightarrow> rank Red \<le> rank (disk_level (dm_behavior d)) \<or>
          rank Yellow \<le> rank (disk_level (dm_behavior d)) \<and> memory_level (dm_behavior d) \<noteq> MemNormal))
    \<or> special_origin env d q \<or> forced_origin ti r q"
proof -
  define d1 where "d1 = handle_pressure env r d"
  define d2 where "d2 = check_special_locations env d1"
  define d3 where "d3 = foldl (\<lambda>d (report, now). note_report now report d)
    (check_swap_thrash env (ti_zram ti) (ti_memory ti) d2) (ti_reports ti)"
  have "q \<in> set (queue (dm_channel (case ti_forced ti of None \<Rightarrow> d3 | Some n \<Rightarrow> trigger_forced_scan n r d3)))"
    using assms(2) unfolding react_def Let_def drain_events_def d1_def d2_def d3_def by simp
  then have "q \<in> set (queue (dm_channel d3)) \<or> forced_origin ti r q"
    using try_send_members taken_members
    by (fastforce simp: trigger_forced_scan_def forced_origin_def split: option.splits)
  then consider "forced_origin ti r q" | "q \<in> set (queue (dm_channel d2))" by (auto simp: d3_def)
  then show ?thesis
  proof cases
    case 2
    have same: "core d1 = core d" by (simp add: d1_def)
    then have "special_origin env d1 q = special_origin env d q" "dm_special d1 = dm_special d"
      by (simp_all add: special_origin_def core_def)
    then have "q \<in> set (queue (dm_channel d1)) \<or> special_origin env d q"
      using 2 specials_members [of q env 0 "dm_special d1" d1] by (simp add: d2_def check_special_locations_def)
    moreover have "pressure_origin r (dm_behavior d) q" if "q \<in> set (queue (dm_channel d1))"
      using handle_members [of q env r d] that assms(3) by (simp add: d1_def)
    moreover have "current_mode (dm_behavior d) = mode_for default_behavior_cells (memory_level (dm_behavior d))
        (disk_level (dm_behavior d))" using assms(1) by (simp add: behavior_wf_def)
    ultimately show ?thesis
      using allows_delete_iff [of "memory_level (dm_behavior d)" "disk_level (dm_behavior d)"]
      by (auto simp: pressure_origin_def pressure_request_def behavior_delete_batch_limit_def)
  qed simp
qed

text \<open>Every reachable daemon has a behavior mode that follows its levels, so the theorem applies to it.\<close>

lemma update_mode_wf:
  assumes "behavior_wf s"
  shows "behavior_wf (fst (update_behavior_mode hs mem disk src now s))"
proof -
  have "fst (update_behavior_mode hs mem disk src now s)
      = fst (update_with_hysteresis mem disk now (if src = ''startup'' then 0 else secs (unat hs)) s)"
    by (simp add: update_behavior_mode_def Let_def split: prod.split)
  then show ?thesis using behavior_wf_update [OF assms] by simp
qed

lemma behavior_wf_events: "behavior_wf (dm_behavior d) \<Longrightarrow> behavior_wf (dm_behavior (drain_events evs lvl d))"
proof -
  have "behavior_wf s \<Longrightarrow> behavior_wf (drain_memory_pressure_events hs lvl evs s)" for hs s
    unfolding drain_memory_pressure_events_def
    by (induction evs arbitrary: s) (simp_all add: update_mode_wf split: prod.split)
  then show "behavior_wf (dm_behavior d) \<Longrightarrow> behavior_wf (dm_behavior (drain_events evs lvl d))"
    by (simp add: drain_events_def)
qed

lemma behavior_wf_settled: "behavior_wf (dm_behavior d) \<Longrightarrow> behavior_wf (dm_behavior (settle_behavior ti lvl d))"
  unfolding settle_behavior_def by (rule behavior_wf_events) (simp add: disk_tick_def update_mode_wf)

lemma check_pressure_behavior: "check_pressure env d = Some (res, d') \<Longrightarrow> dm_behavior d' = dm_behavior d"
  by (auto simp: check_pressure_def finish_check_def Let_def split: prod.splits if_splits option.splits)

lemma reload_behavior: "dm_behavior (handle_config_reload pe fmt env rl d) = dm_behavior d"
  by (simp add: handle_config_reload_def apply_config_def note_event_def split: sum.split)

lemma daemon_tick_behavior:
  assumes "behavior_wf (dm_behavior d)" "daemon_tick pe fmt env ti d = Some (e, d')"
  shows "behavior_wf (dm_behavior d')"
proof -
  define d1 where "d1 = (case ti_reload ti of None \<Rightarrow> d | Some rl \<Rightarrow> handle_config_reload pe fmt env rl d)"
  have d1: "dm_behavior d1 = dm_behavior d" by (simp add: d1_def reload_behavior split: option.split)
  show ?thesis
  proof (cases "ti_shutdown ti")
    case False
    then obtain res d2 where d2: "check_pressure env d1 = Some (res, d2)"
      using assms(2) by (auto simp: daemon_tick_def d1_def Let_def split: option.splits)
    note wf = assms(1) [folded d1, folded check_pressure_behavior [OF d2]]
    show ?thesis
    proof (cases res)
      case (Inl x)
      then have "d' = drain_events (ti_sleeping ti) (dm_last_level d2) (note_event (CheckFailed x) d2)"
        using assms(2) False d2 by (simp add: daemon_tick_def d1_def)
      then show ?thesis using wf behavior_wf_events by (simp add: note_event_def)
    next
      case (Inr r)
      define d3 where "d3 = settle_behavior ti (resp_level r) (note_level env r d2)"
      have "dm_behavior (note_level env r d2) = dm_behavior d2" by (rule behavior_core) simp
      then have d3: "behavior_wf (dm_behavior d3)" using wf behavior_wf_settled by (simp add: d3_def)
      have "d' \<in> {d3, react env ti r d3}"
        using assms(2) False d2 Inr by (auto simp: daemon_tick_def d1_def d3_def Let_def split: if_splits)
      moreover have "behavior_wf (dm_behavior (react env ti r d3))"
        unfolding react_def Let_def
      proof (rule behavior_wf_events)
        have "core (case ti_forced ti of None \<Rightarrow> x | Some n \<Rightarrow> trigger_forced_scan n r x) = core x" for x
          by (simp split: option.split)
        then show "behavior_wf (dm_behavior (case ti_forced ti of None \<Rightarrow> foldl (\<lambda>d (report, now). note_report now report d)
              (check_swap_thrash env (ti_zram ti) (ti_memory ti) (check_special_locations env (handle_pressure env r d3)))
              (ti_reports ti) | Some n \<Rightarrow> trigger_forced_scan n r (foldl (\<lambda>d (report, now). note_report now report d)
              (check_swap_thrash env (ti_zram ti) (ti_memory ti) (check_special_locations env (handle_pressure env r d3)))
              (ti_reports ti))))"
          using d3 behavior_core [of _ d3] by (metis check_special_locations_def core_handle core_reports core_specials core_swap)
      qed
      ultimately show ?thesis using d3 by auto
    qed
  qed (use assms in \<open>simp add: daemon_tick_def\<close>)
qed

lemma reachable_behavior_wf: "daemon_reach pe fmt d \<Longrightarrow> behavior_wf (dm_behavior d)"
proof (induction rule: daemon_reach.induct)
  case (started sacred c0 c env stats mem now now0 ls st r d)
  then obtain st1 d1 where "check_pressure env ((daemon_new c now0 ls st)\<lparr>dm_pools := st1\<rparr>) = Some (Inr r, d1)"
      "d = d1\<lparr>dm_behavior := fst (update_behavior_mode (behavior_hysteresis_secs (pressure (dm_config d1))) mem
        (resp_level r) ''startup'' now (dm_behavior d1))\<rparr>"
    by (auto simp: daemon_start_def split: prod.splits option.splits sum.splits)
  then show ?case using check_pressure_behavior behavior_wf_new by (simp add: daemon_new_def update_mode_wf)
next
  case (ticked d env ti e d')
  then show ?case using daemon_tick_behavior by blast
qed

subsection \<open>Where the mode does not decide\<close>

text \<open>C29: when no configured root lies on the mount under pressure and devices are not
  crossed, the reaction leaves the ballast, the release controller and the scanner's queue as they are,
  at every level up to critical and in every behavior mode: the ballast the mount may hold stays.\<close>

theorem affinity_gate_blocks_all:
  assumes "resp_level r \<noteq> Green" and "\<not> cross_devices (scanner (dm_config d))" and "snd (scan_scope env r d) = []"
  shows "dm_pools (handle_pressure env r d) = dm_pools d \<and> dm_release (handle_pressure env r d) = dm_release d
    \<and> dm_channel (handle_pressure env r d) = dm_channel d"
proof -
  define d1 where "d1 = check_predictive_warning env r (set_min_score (sc_min_score (scoring (dm_config d))) d)"
  have d1: "dm_config d1 = dm_config d" "dm_collector d1 = dm_collector d" "dm_pools d1 = dm_pools d"
    "dm_release d1 = dm_release d" "dm_channel d1 = dm_channel d"
    by (simp_all add: d1_def check_predictive_warning_def set_min_score_def note_event_def Let_def split: option.split)
  obtain d2 scope where d2: "scan_scope env r d1 = (d2, scope)" by fastforce
  have "scope = []" "d2 = d1\<lparr>dm_collector := dm_collector d2\<rparr>"
    using assms(1,3) d1(1,2) d2 by (auto simp: scan_scope_def Let_def split: prod.splits)
  then have "handle_pressure env r d = gate_back_off env r d2"
    using assms(1,2) d1_def d2 by (simp add: handle_pressure_def should_skip_for_device_affinity_def)
  moreover have "dm_pools d2 = dm_pools d1" "dm_release d2 = dm_release d1" "dm_channel d2 = dm_channel d1"
    using \<open>d2 = _\<close> by (metis daemon.surjective daemon.update_convs daemon.select_convs)+
  ultimately show ?thesis using d1 by (simp add: gate_back_off_def note_event_def Let_def)
qed

lemma pushed_paths_keep: "list_ex (path_eq p) acc \<Longrightarrow> list_ex (path_eq p) (foldl push_unique_path acc ps)"
  by (induction ps arbitrary: acc) (simp_all add: push_unique_path_def)

lemma pushed_paths: "p \<in> set ps \<Longrightarrow> list_ex (path_eq p) (foldl push_unique_path acc ps)"
proof (induction ps arbitrary: acc)
  case (Cons x ps)
  have "list_ex (path_eq x) (push_unique_path acc x)"
    by (auto simp: push_unique_path_def list_ex_iff path_eq_def) metis
  then show ?case using Cons pushed_paths_keep by auto
qed simp



end
