(* ===== verification/Daemon_Demo.thy ===== *)
theory Daemon_Demo
  imports Daemon_Loop
begin

section \<open>The daemon of a fresh installation\<close>

text \<open>The witnesses of the daemon's properties: the default configuration on a machine with one mount.\<close>

definition demo_machine :: daemon_env where
  "demo_machine = \<lparr>de_os = demo_os, de_exp = (\<lambda>_. Fin (1/2)), de_ln = (\<lambda>_. 0), de_storage = (\<lambda>_. demo_storage),
     de_codec = demo_codec, de_clock = (\<lambda>_ i. i), de_visit = (\<lambda>xs. xs), de_free_check = (\<lambda>_ _. lit 50),
     de_canonical = (\<lambda>_. None), de_taken = 0\<rparr>"

definition demo_location :: special_location where
  "demo_location = \<lparr>sl_path = ''/tmp'', sl_kind = UserTmp, buffer_pct = 15, sl_scan_interval = secs 5, sl_priority = 160\<rparr>"

definition fresh_daemon :: daemon where
  "fresh_daemon = daemon_new (config_default None ''/c'') 0 [] (\<lparr>pools = [], skipped_pools = []\<rparr>, \<lambda>_. \<lparr>w_dir = [], w_calls = 0\<rparr>)"

lemma demo_machine_ok: "env_ok demo_machine"
  by (simp add: env_ok_def demo_machine_def)

lemma fresh_fields:
  "root_paths (scanner (dm_config fresh_daemon)) = [''/tmp'', ''/data/tmp'', ''/var/tmp'']"
  "\<not> cross_devices (scanner (dm_config fresh_daemon))" "dm_collector fresh_daemon = collector_new (millis 1000)"
  by (simp_all add: fresh_daemon_def daemon_new_def config_default_def scanner_config_default_def
      telemetry_config_default_def)

lemma demo_collects: "fst (collect demo_os (\<lambda>i. i) ''/tmp'' (collector_new (millis 1000))) = Inr (demo_stats_at 4)"
proof -
  have "fst (collect demo_os (\<lambda>i. i) ''/tmp'' (collector_new 0)) = Inr (demo_stats_at 4)" by code_simp
  moreover have "fst (collect demo_os clk p (collector_new t)) = fst (collect demo_os clk p (collector_new 0))" for clk p t
    by (simp add: collect_def cached_mounts_def collector_new_def collect_for_mount_def cache_hit_def Let_def
        split: sum.split option.split)
  ultimately show ?thesis by metis
qed

lemma readings_grow: "acc \<noteq> [] \<Longrightarrow> snd (collect_readings env i ps (c, acc)) \<noteq> []"
  by (induction ps arbitrary: i c acc) (auto simp: first_reading_def split: prod.split sum.split)

lemma demo_readings:
  assumes "root_paths (scanner (dm_config d)) = [''/tmp'', ''/data/tmp'', ''/var/tmp'']"
    "dm_collector d = collector_new (millis 1000)"
  shows "readings demo_machine d \<noteq> []"
proof -
  have "\<exists>ps. watched_paths (dm_config d) = ''/tmp'' # ps" by (simp add: watched_paths_def assms(1) Let_def split: if_split)
  then obtain ps where ps: "watched_paths (dm_config d) = ''/tmp'' # ps" by blast
  obtain c where "collect demo_os (\<lambda>i. i) ''/tmp'' (collector_new (millis 1000)) = (Inr (demo_stats_at 4), c)"
    using demo_collects by (metis prod.collapse)
  then show ?thesis
    using readings_grow [of "first_reading (demo_stats_at 4) []"]
    by (simp add: readings_def ps assms(2) demo_machine_def first_reading_def)
qed

theorem worst_mount_decides_witness:
  "\<exists>r d'. check_pressure demo_machine fresh_daemon = Some (Inr r, d') \<and>
    (\<exists>ms \<in> set (readings demo_machine fresh_daemon). \<exists>m est diag.
      mount_outcome demo_machine fresh_daemon ms = Some (m, r, est, diag) \<and> dm_guard d' = Some diag)"
proof -
  have "daemon_ok demo_monitor_env (\<lambda>_. []) fresh_daemon"
    unfolding fresh_daemon_def by (rule daemon_ok_new) (rule default_config_validates)
  then obtain r d' where "check_pressure demo_machine fresh_daemon = Some (Inr r, d')"
    using check_pressure_total demo_machine_ok demo_readings [OF fresh_fields(1,3)] unfolding env_ok_def by blast
  then show ?thesis using worst_mount_decides [of demo_machine fresh_daemon r d'] by (auto simp: demo_machine_def)
qed

lemma demo_loads: "finish_load demo_monitor_env (\<lambda>_. []) (Inr []) (config_default None ''/c'') = Inr (config_default None ''/c'')"
proof -
  have "normalize_paths (merge_sacred_config (sacred_normalize []) (config_default None ''/c'')) = config_default None ''/c''"
    by (simp add: normalize_paths_def merge_sacred_config_def sacred_normalize_def merge_protected_def config_default_def
      scanner_config_default_def normalize_root_def strip_trailing_separator_def strip_suffix_def ends_with_def Let_def
      ballast_config_default_def normalize_overrides_def)
  then show ?thesis using default_config_validates by (simp add: finish_load_def Let_def)
qed

text \<open>A forced scan on an idle machine is accounted for as the operator's.\<close>

definition idle_response :: pressure_response where
  "idle_response = \<lparr>resp_level = Green, urgency = 0, scan_interval = 0, release_ballast_files = 0, max_delete_batch = 0,
     resp_fallback_active = False, causing_mount = ''/'', resp_free_pct = lit 50, predicted_seconds = None\<rparr>"

definition signalled :: tick_input where
  "signalled = \<lparr>ti_shutdown = False, ti_reload = None, ti_disk_at = 0, ti_waiting = [], ti_rss_exceeded = False,
     ti_zram = False, ti_memory = None, ti_reports = [], ti_forced = Some 0, ti_sleeping = []\<rparr>"

theorem daemon_never_panics_witness:
  "\<exists>d e d'. daemon_reach demo_monitor_env (\<lambda>_. []) d \<and>
    daemon_tick demo_monitor_env (\<lambda>_. []) demo_machine signalled d = Some (e, d')"
proof -
  have "daemon_ok demo_monitor_env (\<lambda>_. []) fresh_daemon"
    unfolding fresh_daemon_def by (rule daemon_ok_new) (rule default_config_validates)
  then obtain r d' where "check_pressure demo_machine fresh_daemon = Some (Inr r, d')"
    using check_pressure_total demo_machine_ok demo_readings [OF fresh_fields(1,3)] unfolding env_ok_def by blast
  moreover have "provision_all os cd stats (\<lparr>pools = [], skipped_pools = []\<rparr>, w)
      = (\<lparr>per_volume = [], skipped_volumes = []\<rparr>, \<lparr>pools = [], skipped_pools = []\<rparr>, w)" for os cd stats w
    by (simp add: provision_all_def)
  ultimately have "\<exists>d. daemon_start demo_machine (\<lambda>_ _. Inr (demo_stats_at 4)) MemNormal 0 None fresh_daemon = Some (Inr r, d)"
    by (auto simp: daemon_start_def fresh_daemon_def daemon_new_def)
  then obtain d where d: "daemon_reach demo_monitor_env (\<lambda>_. []) d"
    using daemon_reach.started [OF demo_loads demo_machine_ok] unfolding fresh_daemon_def by blast
  then show ?thesis using daemon_never_panics [OF d demo_machine_ok, of signalled] by blast
qed

lemma fresh_behavior: "behavior_wf (dm_behavior fresh_daemon)"
  by (simp add: fresh_daemon_def daemon_new_def behavior_wf_new)

lemma idle_reaction: "dm_channel (handle_pressure demo_machine idle_response fresh_daemon) = dm_channel fresh_daemon"
  by (simp add: handle_pressure_def check_predictive_warning_def scan_scope_def idle_response_def green_tick_def
      should_skip_for_device_affinity_def coordinator_inventory_def fresh_daemon_def daemon_new_def set_min_score_def
      policy_new_def policy_config_default_def config_default_def Let_def)

lemma signalled_queue:
  "\<exists>q. q \<in> set (queue (dm_channel (react demo_machine signalled idle_response fresh_daemon)))"
proof -
  have none: "dm_special (handle_pressure demo_machine idle_response fresh_daemon) = []"
    using core_handle [of demo_machine idle_response fresh_daemon] by (simp add: core_def fresh_daemon_def daemon_new_def)
  then have "dm_channel (react demo_machine signalled idle_response fresh_daemon)
      = dm_channel (trigger_forced_scan 0 idle_response (handle_pressure demo_machine idle_response fresh_daemon))"
    by (simp add: react_def signalled_def drain_events_def check_special_locations_def check_swap_thrash_def Let_def)
  then show ?thesis
    by (simp add: trigger_forced_scan_def idle_reaction taken_def try_send_def)
      (simp add: fresh_daemon_def daemon_new_def scanner_channel_cap_def)
qed

theorem requests_accounted_witness:
  "\<exists>q \<in> set (queue (dm_channel (react demo_machine signalled idle_response fresh_daemon))).
    (\<exists>paths. q = pressure_request idle_response paths (current_mode (dm_behavior fresh_daemon)))
    \<or> special_origin demo_machine fresh_daemon q \<or> forced_origin signalled idle_response q"
proof -
  obtain q where "q \<in> set (queue (dm_channel (react demo_machine signalled idle_response fresh_daemon)))"
    using signalled_queue by blast
  moreover have "q \<notin> set (queue (dm_channel fresh_daemon))" by (simp add: fresh_daemon_def daemon_new_def)
  ultimately show ?thesis using requests_accounted [OF fresh_behavior] by blast
qed

definition critical_response :: pressure_response where
  "critical_response = idle_response\<lparr>resp_level := Critical, causing_mount := ''/data''\<rparr>"

definition one_root_daemon :: daemon where
  "one_root_daemon = fresh_daemon\<lparr>dm_config := (dm_config fresh_daemon)\<lparr>scanner :=
     (scanner (dm_config fresh_daemon))\<lparr>root_paths := [''/tmp'']\<rparr>\<rparr>\<rparr>"

theorem affinity_gate_blocks_all_witness:
  "dm_channel (handle_pressure demo_machine critical_response one_root_daemon) = dm_channel one_root_daemon
    \<and> dm_pools (handle_pressure demo_machine critical_response one_root_daemon) = dm_pools one_root_daemon"
proof -
  obtain c where c: "collect demo_os (\<lambda>i. i) ''/tmp'' (collector_new (millis 1000)) = (Inr (demo_stats_at 4), c)"
    using demo_collects by (metis prod.collapse)
  have other: "\<not> path_eq ''/'' ''/data''" by code_simp
  have "snd (scan_scope demo_machine critical_response one_root_daemon) = []"
    using c other
    by (simp add: scan_scope_def one_root_daemon_def critical_response_def idle_response_def fresh_fields(3) demo_machine_def
        demo_stats_at_def)
  moreover have "resp_level critical_response \<noteq> Green" "\<not> cross_devices (scanner (dm_config one_root_daemon))"
    using fresh_fields(2) by (simp_all add: critical_response_def one_root_daemon_def)
  ultimately show ?thesis using affinity_gate_blocks_all by blast
qed


text \<open>A machine whose mount table cannot be read.\<close>

definition blind_machine :: daemon_env where
  "blind_machine = demo_machine\<lparr>de_os := demo_os\<lparr>os_mounts := (\<lambda>_. Inl (MountParse ''unreadable''))\<rparr>\<rparr>"


end
