(* ===== verification/Patterns.thy ===== *)
theory Patterns
  imports Cleanup_Tables Scan_Types
begin

section \<open>What a path is taken for (src/src/scanner/patterns.rs)\<close>

text \<open>
  The classifier: the table of names, the patterns of the operator, the cleanup catalog and the
  structure found in a directory decide which kind of artifact a path is and how certain that is; a
  second classifier decides before a directory is entered whether it is one opaque candidate. What a
  directory lists is an argument, and so is Unicode lower-casing.
\<close>

subsection \<open>Directory entries\<close>

text \<open>What one entry of a listing answers: its name, its type, its allocated bytes; \<open>None\<close> where the
  call fails. A listing may hold entries that cannot be read.\<close>

record dir_entry =
  de_name :: string
  de_type :: "fs_entry_kind option"
  de_size :: "u64 option"

type_synonym listing = "dir_entry option list"

subsection \<open>Opaque trees\<close>

datatype opaque_tree_disposition = CandidateOpaque | ProtectedOpaque | SignalOnly

record opaque_tree_classification =
  disposition :: opaque_tree_disposition
  opaque_reason :: string
  opaque_class :: artifact_classification

record opaque_tree_context =
  parent_has_cargo_toml :: bool
  parent_has_node_manifest :: bool

definition opaque_candidate :: "string \<Rightarrow> string \<Rightarrow> artifact_category \<Rightarrow> f64 \<Rightarrow> opaque_tree_classification" where
  "opaque_candidate reason name cat confidence = \<lparr>disposition = CandidateOpaque, opaque_reason = reason,
     opaque_class = \<lparr>pattern_name = name, category = cat, name_confidence = confidence,
       structural_confidence = 1, combined_confidence = confidence\<rparr>\<rparr>"

definition opaque_protected :: "string \<Rightarrow> opaque_tree_classification" where
  "opaque_protected reason = \<lparr>disposition = ProtectedOpaque, opaque_reason = reason,
     opaque_class = classification_unknown\<rparr>"

definition opaque_signal_only :: "string \<Rightarrow> opaque_tree_classification" where
  "opaque_signal_only reason = \<lparr>disposition = SignalOnly, opaque_reason = reason,
     opaque_class = classification_unknown\<rparr>"

definition is_context_gated_dependency_tree_name :: "string \<Rightarrow> bool" where
  "is_context_gated_dependency_tree_name name =
     (name \<in> {''vendor'', ''site-packages'', ''.venv'', ''venv'', ''env'', ''.pnpm-store'', ''.yarn'', ''.cargo''})"

definition is_agent_build_target_name :: "string \<Rightarrow> bool" where
  "is_agent_build_target_name name = (starts_with name ''rch_target_'' \<or> starts_with name ''.rch_target_''
     \<or> starts_with name ''rch-target-'' \<or> starts_with name ''.rch-target-''
     \<or> name \<in> {''.rch-target'', ''.rch_target'', ''rch-target'', ''rch_target''})"

definition is_cargo_target_name :: "string \<Rightarrow> bool" where
  "is_cargo_target_name name = (name = ''target'' \<or> starts_with name ''.target'' \<or> starts_with name ''_target_''
     \<or> starts_with name ''target-'' \<or> starts_with name ''target_'' \<or> ends_with name ''-target''
     \<or> ends_with name ''_target'' \<or> starts_with name ''cargo-target-'' \<or> starts_with name ''rch_target_''
     \<or> starts_with name ''.rch_target_'' \<or> starts_with name ''rch-target-'' \<or> starts_with name ''.rch-target-''
     \<or> name \<in> {''.rch-target'', ''.rch_target'', ''rch-target'', ''rch_target''})"

definition is_tmp_like_path :: "path \<Rightarrow> bool" where
  "is_tmp_like_path p = list_ex (\<lambda>root. path_eq p root \<or> path_starts_with p root)
     [''/tmp'', ''/var/tmp'', ''/data/tmp'', ''/private/tmp'']"

definition is_cargo_cache_root :: "path \<Rightarrow> bool" where
  "is_cargo_cache_root p = (case file_name p of None \<Rightarrow> False
     | Some name \<Rightarrow> name \<in> {''registry'', ''git''} \<and>
         comps_file_name (butlast (components p)) = Some ''.cargo'')"

subsection \<open>Go caches\<close>

datatype go_cache_kind = GoBuild | GoModule

definition is_two_hex_char :: "string \<Rightarrow> bool" where
  "is_two_hex_char name = (length name = 2 \<and>
     list_all (\<lambda>c. let n = (of_char c :: nat) in (48 \<le> n \<and> n \<le> 57) \<or> (97 \<le> n \<and> n \<le> 102)) name)"

text \<open>The loop over the listing; \<open>download\<close> says whether \<open>cache/download\<close> is a directory, \<open>trim\<close> and
  \<open>shard\<close> are the markers seen so far.\<close>

fun go_markers :: "bool \<Rightarrow> bool \<Rightarrow> bool \<Rightarrow> listing \<Rightarrow> go_cache_kind option" where
  "go_markers download trim shard [] = None"
| "go_markers download trim shard (None # es) = go_markers download trim shard es"
| "go_markers download trim shard (Some e # es) =
     (if de_name e = ''cache'' \<and> download then Some GoModule
      else let trim1 = (trim \<or> de_name e = ''trim.txt'');
               shard1 = (shard \<or> (de_name e \<noteq> ''trim.txt'' \<and> de_name e \<noteq> ''cache''
                  \<and> is_two_hex_char (de_name e) \<and> de_type e = Some KDirectory))
           in if trim1 \<and> shard1 then Some GoBuild else go_markers download trim1 shard1 es)"

record dir_view =
  dv_read_dir :: "path \<Rightarrow> listing option"
  dv_is_dir :: "path \<Rightarrow> bool"

definition detect_go_cache :: "dir_view \<Rightarrow> path \<Rightarrow> go_cache_kind option" where
  "detect_go_cache fs p = (case dv_read_dir fs p of None \<Rightarrow> None
     | Some es \<Rightarrow> go_markers (dv_is_dir fs (path_join (path_join p ''cache'') ''download'')) False False es)"

fun go_cache_candidate :: "go_cache_kind \<Rightarrow> opaque_tree_classification" where
  "go_cache_candidate GoBuild = opaque_candidate
     ''go build cache (GOCACHE) root: regenerable, toolchain-readonly'' ''opaque-go-build-cache'' GoCache (lit (93/100))"
| "go_cache_candidate GoModule = opaque_candidate
     ''go module cache (GOMODCACHE) root: regenerable, toolchain-readonly'' ''opaque-go-mod-cache'' GoCache (lit (93/100))"

subsection \<open>The decision before a directory is entered\<close>

definition classify_opaque_name :: "path \<Rightarrow> string \<Rightarrow> opaque_tree_context \<Rightarrow> opaque_tree_classification option" where
  "classify_opaque_name p name ctx =
     (let tmp_like = is_tmp_like_path p in
      if is_context_gated_dependency_tree_name name
      then Some (opaque_signal_only ''dependency tree requires stronger context before opaque cleanup'')
      else if is_cargo_target_name name
      then (if (name = ''target'' \<and> parent_has_cargo_toml ctx) \<or> tmp_like \<or> is_agent_build_target_name name
               \<or> has_descriptive_target_suffix name
            then Some (opaque_candidate ''cargo/build target with regenerable context'' ''opaque-cargo-target''
                   RustTarget (lit (93/100)))
            else Some (opaque_signal_only ''target-like directory lacks cargo/temp context''))
      else if name = ''node_modules''
      then (if parent_has_node_manifest ctx \<or> tmp_like
            then Some (opaque_candidate ''node_modules with package manifest or temp context'' ''opaque-node-modules''
                   NodeModules (lit (94/100)))
            else Some (opaque_signal_only ''node_modules lacks package/temp context''))
      else if is_cargo_cache_root p
      then Some (opaque_candidate ''cargo registry/cache root'' ''opaque-cargo-cache'' CacheDir (lit (92/100)))
      else if name \<in> {''.next'', ''dist'', ''build''} \<and> (parent_has_node_manifest ctx \<or> tmp_like)
      then Some (opaque_candidate ''build output with project/temp context'' ''opaque-build-output''
             BuildOutput (lit (88/100)))
      else None)"

definition classify_opaque_tree :: "dir_view \<Rightarrow> path \<Rightarrow> opaque_tree_context \<Rightarrow> opaque_tree_classification option" where
  "classify_opaque_tree fs p ctx = (case file_name p of None \<Rightarrow> None
     | Some raw \<Rightarrow> (let name = to_lower raw in
         if name = ''.git'' then Some (opaque_protected ''git metadata is always protected opaque'')
         else case (if str_contains name ''go'' \<or> str_contains name ''mod'' then detect_go_cache fs p else None) of
             Some kind \<Rightarrow> Some (go_cache_candidate kind)
           | None \<Rightarrow> classify_opaque_name p name ctx))"

subsection \<open>The registry of patterns\<close>

datatype match_kind = MatchExact string | MatchPrefix string | MatchSuffix string | MatchContains string

record artifact_pattern =
  ap_name :: string
  ap_kind :: match_kind
  ap_confidence :: f64
  ap_category :: artifact_category

definition builtin :: "string \<Rightarrow> match_kind \<Rightarrow> rat \<Rightarrow> artifact_category \<Rightarrow> artifact_pattern" where
  "builtin name kind percent cat =
     \<lparr>ap_name = name, ap_kind = kind, ap_confidence = lit (percent / 100), ap_category = cat\<rparr>"

record custom_pattern =
  cu_name :: string
  cu_needle :: string
  cu_confidence :: f64
  cu_category :: artifact_category

record normalized_custom_pattern =
  nc_pattern :: custom_pattern
  lowercase_needle :: string

record artifact_pattern_registry =
  builtins :: "artifact_pattern list"
  custom :: "normalized_custom_pattern list"

fun matches_builtin :: "match_kind \<Rightarrow> string \<Rightarrow> bool" where
  "matches_builtin (MatchExact token) name = (name = token)"
| "matches_builtin (MatchPrefix token) name = starts_with name token"
| "matches_builtin (MatchSuffix token) name = ends_with name token"
| "matches_builtin (MatchContains token) name = str_contains name token"

text \<open>The table, in its order; confidences are given in percent.\<close>

definition builtin_patterns :: "artifact_pattern list" where
  "builtin_patterns = [
     builtin ''cargo-target'' (MatchExact ''target'') 70 RustTarget,
     builtin ''dot-target-prefix'' (MatchPrefix ''.target'') 92 RustTarget,
     builtin ''underscore-target-prefix'' (MatchPrefix ''_target_'') 88 RustTarget,
     builtin ''cargo-target-prefix'' (MatchPrefix ''cargo-target-'') 94 RustTarget,
     builtin ''target-prefix'' (MatchPrefix ''target-'') 82 RustTarget,
     builtin ''target-underscore-prefix'' (MatchPrefix ''target_'') 82 RustTarget,
     builtin ''target-suffix'' (MatchSuffix ''-target'') 88 RustTarget,
     builtin ''tmp-target-prefix'' (MatchPrefix ''.tmp_target'') 90 RustTarget,
     builtin ''tmp-cargo-home'' (MatchPrefix ''.tmp_cargo_home_'') 90 TempDir,
     builtin ''tmp-codex'' (MatchPrefix ''.tmp-codex-'') 86 AgentWorkspace,
     builtin ''tmp-pijs'' (MatchPrefix ''.tmp-pijs-'') 86 AgentWorkspace,
     builtin ''tmp-ext'' (MatchPrefix ''.tmp-ext-'') 82 AgentWorkspace,
     builtin ''pi-agent'' (MatchPrefix ''pi_agent_'') 85 AgentWorkspace,
     builtin ''pi-target'' (MatchPrefix ''pi_target_'') 85 RustTarget,
     builtin ''pi-opus'' (MatchPrefix ''pi_opus_'') 84 AgentWorkspace,
     builtin ''br-build'' (MatchPrefix ''br-build'') 82 RustTarget,
     builtin ''frankenterm-prefix'' (MatchPrefix ''frankenterm-'') 90 AgentWorkspace,
     builtin ''cargo-home-prefix'' (MatchPrefix ''cargo-home-'') 88 TempDir,
     builtin ''rch-cargo-home'' (MatchPrefix ''rch-cargo-home-'') 92 TempDir,
     builtin ''dot-cargo-prefix'' (MatchPrefix ''.cargo_'') 86 CacheDir,
     builtin ''agent-ft-suffix'' (MatchSuffix ''-ft'') 65 AgentWorkspace,
     builtin ''cass-target'' (MatchPrefix ''cass-target'') 94 RustTarget,
     builtin ''node-modules'' (MatchExact ''node_modules'') 97 NodeModules,
     builtin ''next-build'' (MatchExact ''.next'') 90 BuildOutput,
     builtin ''python-pycache'' (MatchExact ''__pycache__'') 96 PythonCache,
     builtin ''python-venv'' (MatchExact ''.venv'') 85 PythonCache,
     builtin ''pytest-cache'' (MatchExact ''.pytest_cache'') 84 PythonCache,
     builtin ''generic-cache-prefix-hyphen'' (MatchPrefix ''cache-'') 45 CacheDir,
     builtin ''generic-cache-prefix-underscore'' (MatchPrefix ''cache_'') 45 CacheDir,
     builtin ''generic-cache-exact'' (MatchExact ''cache'') 45 CacheDir,
     builtin ''dot-cache'' (MatchPrefix ''.cache'') 62 CacheDir,
     builtin ''generic-tmp-prefix-hyphen'' (MatchPrefix ''tmp-'') 45 TempDir,
     builtin ''generic-tmp-prefix-underscore'' (MatchPrefix ''tmp_'') 45 TempDir,
     builtin ''generic-tmp-exact'' (MatchExact ''tmp'') 45 TempDir,
     builtin ''dot-tmp'' (MatchPrefix ''.tmp'') 60 TempDir,
     builtin ''rch-target-underscore'' (MatchPrefix ''rch_target_'') 92 RustTarget,
     builtin ''rch-target-dot'' (MatchPrefix ''.rch_target_'') 92 RustTarget,
     builtin ''rch-target-hyphen'' (MatchPrefix ''rch-target-'') 92 RustTarget,
     builtin ''dot-rch-target-hyphen'' (MatchPrefix ''.rch-target-'') 92 RustTarget,
     builtin ''rch-target-bare-dot'' (MatchExact ''.rch-target'') 95 RustTarget,
     builtin ''rch-target-bare-dot-underscore'' (MatchExact ''.rch_target'') 94 RustTarget,
     builtin ''rch-target-bare-hyphen'' (MatchExact ''rch-target'') 93 RustTarget,
     builtin ''rch-target-bare-underscore'' (MatchExact ''rch_target'') 93 RustTarget,
     builtin ''target-codex'' (MatchPrefix ''target_codex'') 88 RustTarget,
     builtin ''claude-session-cache'' (MatchPrefix ''claude-'') 88 CacheDir,
     builtin ''cass-prefix-underscore'' (MatchPrefix ''cass_'') 86 AgentWorkspace,
     builtin ''cass-prefix-hyphen'' (MatchPrefix ''cass-'') 86 AgentWorkspace,
     builtin ''underscore-target-suffix'' (MatchSuffix ''_target'') 92 RustTarget,
     builtin ''frankentui-prefix-hyphen'' (MatchPrefix ''frankentui-'') 90 AgentWorkspace,
     builtin ''frankentui-prefix-underscore'' (MatchPrefix ''frankentui_'') 90 AgentWorkspace]"

definition registry_default :: artifact_pattern_registry where
  "registry_default = \<lparr>builtins = builtin_patterns, custom = []\<rparr>"

definition with_custom ::
  "(string \<Rightarrow> string) \<Rightarrow> custom_pattern list \<Rightarrow> artifact_pattern_registry \<Rightarrow> artifact_pattern_registry" where
  "with_custom lowercase ps r =
     r\<lparr>custom := map (\<lambda>p. \<lparr>nc_pattern = p, lowercase_needle = lowercase (cu_needle p)\<rparr>) ps\<rparr>"

subsection \<open>Classification\<close>

fun cleanup_rule_name_confidence :: "cleanup_confidence \<Rightarrow> f64" where
  "cleanup_rule_name_confidence Definite = lit (96/100)"
| "cleanup_rule_name_confidence Likely = lit (92/100)"
| "cleanup_rule_name_confidence Unclear = lit (56/100)"
| "cleanup_rule_name_confidence ReportOnlyConf = 0"
| "cleanup_rule_name_confidence Sacred = 0"

definition cleanup_rule_category :: "cleanup_rule \<Rightarrow> artifact_category" where
  "cleanup_rule_category r = (let name = rule_name r in
     if str_contains name ''target'' then RustTarget
     else if starts_with name ''electron'' \<or> str_contains name ''cache'' \<or> str_contains name ''logs''
       \<or> str_contains name ''ipsw'' then CacheDir
     else if str_contains name ''derived-data'' \<or> str_contains name ''buildroot'' then BuildOutput
     else if reclaim_command r = PromptBeforeRemove then TempDir
     else UnknownCategory)"

definition named_class :: "string \<Rightarrow> artifact_category \<Rightarrow> f64 \<Rightarrow> artifact_classification" where
  "named_class name cat confidence = \<lparr>pattern_name = name, category = cat, name_confidence = confidence,
     structural_confidence = 0, combined_confidence = confidence\<rparr>"

text \<open>The variable \<open>HOME\<close> is \<open>env\<close>; a synthetic home root is \<open>home\<close>.\<close>

definition visible_rule :: "string option \<Rightarrow> path \<Rightarrow> cleanup_rule list \<Rightarrow> path option \<Rightarrow> cleanup_rule option" where
  "visible_rule env p rules home = (case home of None \<Rightarrow> match_scan_visible_rule env p rules
     | Some h \<Rightarrow> match_scan_visible_rule_with_home env p rules h)"

definition cleanup_catalog_path_classification ::
  "string option \<Rightarrow> path \<Rightarrow> cleanup_rule list \<Rightarrow> path option \<Rightarrow> artifact_classification option" where
  "cleanup_catalog_path_classification env p rules home =
     map_option (\<lambda>r. named_class (scanner_label r) (cleanup_rule_category r)
       (cleanup_rule_name_confidence (rule_confidence r))) (visible_rule env p rules home)"

definition take_builtin :: "string \<Rightarrow> artifact_pattern \<Rightarrow> artifact_classification \<Rightarrow> artifact_classification" where
  "take_builtin name b best =
     (if matches_builtin (ap_kind b) name \<and> name_confidence best < ap_confidence b
      then named_class (ap_name b) (ap_category b) (ap_confidence b) else best)"

definition take_custom :: "string \<Rightarrow> normalized_custom_pattern \<Rightarrow> artifact_classification \<Rightarrow> artifact_classification" where
  "take_custom name c best =
     (if str_contains name (lowercase_needle c) \<and> name_confidence best < cu_confidence (nc_pattern c)
      then named_class (cu_name (nc_pattern c)) (cu_category (nc_pattern c)) (cu_confidence (nc_pattern c)) else best)"

definition classify_name ::
  "artifact_pattern_registry \<Rightarrow> string \<Rightarrow> artifact_classification option \<Rightarrow> artifact_classification" where
  "classify_name reg name catalog =
     (let best = (case catalog of Some c \<Rightarrow> c | None \<Rightarrow> classification_unknown);
          named = fold (take_custom name) (custom reg) (fold (take_builtin name) (builtins reg) best)
      in case catalog of Some c \<Rightarrow> c | None \<Rightarrow> named)"

definition cargo_layout :: "structural_signals \<Rightarrow> bool" where
  "cargo_layout s = (has_fingerprint s \<or> (has_incremental s \<and> has_deps s))"

definition rescue :: "structural_signals \<Rightarrow> artifact_classification \<Rightarrow> artifact_classification" where
  "rescue s best =
     (if category best = UnknownCategory \<and> cargo_layout s
      then let marker_count = of_bool (has_fingerprint s) + of_bool (has_incremental s) + of_bool (has_deps s)
                 + of_bool (has_build s) :: nat
           in named_class ''structural-rust-target'' RustTarget (if marker_count \<ge> 3 then lit (75/100) else lit (55/100))
      else best)"

fun structural_of :: "artifact_category \<Rightarrow> structural_signals \<Rightarrow> f64" where
  "structural_of RustTarget s =
     (if has_fingerprint s then lit (98/100) else if has_incremental s \<and> has_deps s then lit (92/100)
      else if has_build s \<and> has_deps s then lit (85/100) else if has_cargo_toml s then lit (5/100)
      else if mostly_object_files s then lit (90/100) else lit (40/100))"
| "structural_of NodeModules s = lit (80/100)"
| "structural_of PythonCache s = lit (75/100)"
| "structural_of BuildOutput s = (if mostly_object_files s then lit (80/100) else lit (40/100))"
| "structural_of CacheDir s = (if mostly_object_files s then lit (80/100) else lit (40/100))"
| "structural_of TempDir s = (if mostly_object_files s then lit (80/100) else lit (40/100))"
| "structural_of GoCache s = lit (90/100)"
| "structural_of AgentWorkspace s = lit (78/100)"
| "structural_of UnknownCategory s = (if cargo_layout s then lit (75/100) else 0)"

definition structural_score :: "artifact_category \<Rightarrow> structural_signals \<Rightarrow> f64" where
  "structural_score c s = (if has_git s then 0 else structural_of c s)"

definition combine_confidence :: "f64 \<Rightarrow> f64 \<Rightarrow> f64" where
  "combine_confidence name structural =
     (let combined = f_clamp (f_mul_add (lit (70/100)) name (lit (30/100) * structural)) 0 1
      in if structural < lit (1/10) then combined * lit (1/10) else combined)"

definition finish_class :: "structural_signals \<Rightarrow> artifact_classification \<Rightarrow> artifact_classification" where
  "finish_class s best = (let structural = structural_score (category best) s
     in best\<lparr>structural_confidence := structural,
          combined_confidence := combine_confidence (name_confidence best) structural\<rparr>)"

definition classify_with_cleanup_rules_inner ::
  "(string \<Rightarrow> string) \<Rightarrow> string option \<Rightarrow> artifact_pattern_registry \<Rightarrow> path \<Rightarrow> structural_signals \<Rightarrow>
   cleanup_rule list \<Rightarrow> path option \<Rightarrow> artifact_classification" where
  "classify_with_cleanup_rules_inner lowercase env reg p s rules home =
     (case file_name p of None \<Rightarrow> classification_unknown
      | Some raw \<Rightarrow> finish_class s (rescue s (classify_name reg (lowercase raw)
          (cleanup_catalog_path_classification env p rules home))))"

definition classify_with_cleanup_rules where
  "classify_with_cleanup_rules lowercase env reg p s rules =
     classify_with_cleanup_rules_inner lowercase env reg p s rules None"

definition classify_with_cleanup_rules_and_home where
  "classify_with_cleanup_rules_and_home lowercase env reg p s rules home =
     classify_with_cleanup_rules_inner lowercase env reg p s rules (Some home)"

text \<open>\<open>platform_cleanup_rules\<close> of the two platforms, and \<open>classify\<close> with the rules of the platform.\<close>

datatype target_os = Linux | MacOs | OtherOs

fun platform_cleanup_rules :: "target_os \<Rightarrow> cleanup_rule list" where
  "platform_cleanup_rules Linux = linux_cleanup_rules"
| "platform_cleanup_rules MacOs = mac_cleanup_rules"
| "platform_cleanup_rules OtherOs = []"

definition classify where
  "classify os lowercase env reg p s = classify_with_cleanup_rules lowercase env reg p s (platform_cleanup_rules os)"


subsection \<open>Labels of deleted items\<close>

text \<open>The groups in which deleted items are counted: the first test that holds names the group.\<close>

definition label_tests :: "((string \<Rightarrow> bool) \<times> string) list" where
  "label_tests = [
     (\<lambda>n. n = ''target'' \<or> starts_with n ''target-'', ''target/''),
     (\<lambda>n. n \<in> {''rch_target'', ''.rch_target'', ''rch-target'', ''.rch-target''}, ''rch_target_*''),
     (\<lambda>n. ends_with n ''-target'', ''*-target''),
     (\<lambda>n. starts_with n ''.target'' \<or> starts_with n ''_target_'', ''.target*''),
     (\<lambda>n. starts_with n ''cargo-target'' \<or> starts_with n ''cargo_target'', ''cargo-target-*''),
     (\<lambda>n. starts_with n ''pi_agent'' \<or> starts_with n ''pi_target'' \<or> starts_with n ''pi_opus'', ''pi_*''),
     (\<lambda>n. starts_with n ''cass-target'', ''cass-target*''),
     (\<lambda>n. starts_with n ''br-build'', ''br-build*''),
     (\<lambda>n. starts_with n ''rch_target_'' \<or> starts_with n ''.rch_target_'' \<or> starts_with n ''rch-target-''
        \<or> starts_with n ''.rch-target-'', ''rch_target_*''),
     (\<lambda>n. starts_with n ''rch-cargo-home-'', ''rch-cargo-home-*''),
     (\<lambda>n. starts_with n ''target_codex'', ''target_codex*''),
     (\<lambda>n. starts_with n ''target_'', ''target_*''),
     (\<lambda>n. starts_with n ''frankenterm-'', ''frankenterm-*''),
     (\<lambda>n. starts_with n ''cargo-home-'', ''cargo-home-*''),
     (\<lambda>n. starts_with n ''.cargo_'', ''.cargo_*''),
     (\<lambda>n. ends_with n ''-ft'', ''*-ft''),
     (\<lambda>n. starts_with n ''.tmp_target'', ''.tmp_target*''),
     (\<lambda>n. starts_with n ''claude-'', ''claude-*''),
     (\<lambda>n. ends_with n ''_target'', ''*_target''),
     (\<lambda>n. starts_with n ''cass_'' \<or> starts_with n ''cass-'', ''cass_*''),
     (\<lambda>n. starts_with n ''frankentui-'' \<or> starts_with n ''frankentui_'', ''frankentui-*''),
     (\<lambda>n. n = ''node_modules'', ''node_modules/'')]"

definition extract_pattern_label_with_cleanup_context ::
  "string option \<Rightarrow> path \<Rightarrow> cleanup_rule list \<Rightarrow> path option \<Rightarrow> string" where
  "extract_pattern_label_with_cleanup_context env p rules home = (case visible_rule env p rules home of
       Some r \<Rightarrow> scanner_label r
     | None \<Rightarrow> (let name = (case file_name p of Some n \<Rightarrow> n | None \<Rightarrow> ''unknown'') in
         case List.find (\<lambda>(test, _). test (to_lower name)) label_tests of Some (_, l) \<Rightarrow> l | None \<Rightarrow> name))"

definition extract_pattern_label :: "target_os \<Rightarrow> string option \<Rightarrow> path \<Rightarrow> string" where
  "extract_pattern_label os env p =
     extract_pattern_label_with_cleanup_context env p (platform_cleanup_rules os) None"

subsection \<open>The range of the confidences\<close>

lemma structural_unit: "\<exists>x. structural_score c s = Fin x \<and> 0 \<le> x \<and> x \<le> 1"
  by (cases c) (auto simp: structural_score_def intro!: lit_unit)

lemma combine_range:
  assumes "0 \<le> name" "0 \<le> x" "x \<le> 1"
  shows "\<exists>q. combine_confidence name (Fin x) = Fin q \<and> 0 \<le> q \<and> q \<le> 1"
    and "Fin x < lit (1/10) \<Longrightarrow> combine_confidence name (Fin x) \<le> lit (1/10)"
proof -
  obtain a where a: "lit (70/100) = Fin a" "0 < a" using lit_pos [of "70/100"] by auto
  obtain b where b: "lit (30/100) = Fin b" "0 \<le> b" "b \<le> 1" using lit_unit [of "30/100"] by auto
  have "Fin 0 \<le> rnd (b * x)" "rnd (b * x) \<le> Fin 1"
    using assms b by (auto intro: rnd_nonneg rnd_le mult_le_one)
  then obtain c where c: "rnd (b * x) = Fin c" using rnd_finite_bounds by blast
  have nn: "f_mul_add (Fin a) name (Fin c) \<noteq> FNaN"
    using assms(1) a by (cases name) (auto simp: f_defs)
  have e: "f_mul_add (lit (70/100)) name (lit (30/100) * Fin x) = f_mul_add (Fin a) name (Fin c)"
    by (simp only: a b c fin_ops)
  obtain q where q: "f_clamp (f_mul_add (lit (70/100)) name (lit (30/100) * Fin x)) 0 1 = Fin q" "0 \<le> q" "q \<le> 1"
    using f_clamp_finite [OF nn, of 0 1] unfolding e f_zero_one by auto
  obtain t where t: "lit (1/10) = Fin t" "0 \<le> t" "t \<le> 1" using lit_unit [of "1/10"] by auto
  have "Fin 0 \<le> rnd (q * t)" "rnd (q * t) \<le> rnd t"
    using q t by (auto intro: rnd_nonneg rnd_mono mult_left_le_one_le)
  then obtain d where d: "rnd (q * t) = Fin d" "0 \<le> d" "d \<le> t"
    using rnd_idem [OF t(1)] rnd_finite_bounds by (metis f_le_simps(1))
  have prod: "Fin q * lit (1/10) = Fin d" by (simp add: t d f_defs)
  have "combine_confidence name (Fin x) = (if Fin x < lit (1/10) then Fin d else Fin q)"
    unfolding combine_confidence_def Let_def q(1) prod ..
  then show "\<exists>q. combine_confidence name (Fin x) = Fin q \<and> 0 \<le> q \<and> q \<le> 1"
    and "Fin x < lit (1/10) \<Longrightarrow> combine_confidence name (Fin x) \<le> lit (1/10)"
    using q d t by auto
qed

lemma take_builtin_nonneg: "0 \<le> name_confidence c \<Longrightarrow> 0 \<le> name_confidence (take_builtin name b c)"
  by (cases "ap_confidence b"; cases "name_confidence c") (auto simp: take_builtin_def named_class_def)

lemma take_custom_nonneg: "0 \<le> name_confidence c \<Longrightarrow> 0 \<le> name_confidence (take_custom name b c)"
  by (cases "cu_confidence (nc_pattern b)"; cases "name_confidence c") (auto simp: take_custom_def named_class_def)

lemma fold_nonneg:
  "(\<And>b c. 0 \<le> name_confidence c \<Longrightarrow> 0 \<le> name_confidence (f b c)) \<Longrightarrow> 0 \<le> name_confidence c \<Longrightarrow>
   0 \<le> name_confidence (fold f bs c)"
  by (induction bs arbitrary: c) simp_all

lemma rule_confidence_nonneg: "0 \<le> cleanup_rule_name_confidence c"
  by (cases c) (auto intro: rnd_nonneg)

lemma catalog_nonneg:
  "cleanup_catalog_path_classification env p rules home = Some c \<Longrightarrow> 0 \<le> name_confidence c"
  using rule_confidence_nonneg by (auto simp: cleanup_catalog_path_classification_def named_class_def)

lemma classify_name_nonneg:
  assumes "catalog = None \<or> 0 \<le> name_confidence (the catalog)"
  shows "0 \<le> name_confidence (classify_name reg name catalog)"
proof (cases catalog)
  case None
  have "0 \<le> name_confidence classification_unknown" by (simp add: classification_unknown_def)
  then have "0 \<le> name_confidence (fold (take_custom name) (custom reg)
      (fold (take_builtin name) (builtins reg) classification_unknown))"
    by (intro fold_nonneg take_builtin_nonneg take_custom_nonneg)
  then show ?thesis by (simp add: classify_name_def None Let_def)
qed (use assms in \<open>simp add: classify_name_def\<close>)

lemma rescue_nonneg: "0 \<le> name_confidence c \<Longrightarrow> 0 \<le> name_confidence (rescue s c)"
  by (auto simp: rescue_def named_class_def Let_def intro: rnd_nonneg)

definition classification_ok :: "structural_signals \<Rightarrow> artifact_classification \<Rightarrow> bool" where
  "classification_ok s c = (0 \<le> structural_confidence c \<and> structural_confidence c \<le> 1
     \<and> 0 \<le> combined_confidence c \<and> combined_confidence c \<le> 1
     \<and> (structural_confidence c < lit (1/10) \<longrightarrow> combined_confidence c \<le> lit (1/10)))"

lemma finish_ok: "0 \<le> name_confidence c \<Longrightarrow> classification_ok s (finish_class s c)"
proof -
  assume n: "0 \<le> name_confidence c"
  obtain x where x: "structural_score (category c) s = Fin x" "0 \<le> x" "x \<le> 1" using structural_unit by blast
  then show ?thesis
    using combine_range [OF n x(2,3)] unfolding classification_ok_def finish_class_def Let_def by auto
qed

lemma classified_cases:
  "classify_with_cleanup_rules_inner lowercase env reg p s rules home = classification_unknown \<or>
   (\<exists>c. 0 \<le> name_confidence c \<and> category c = category (rescue s c) \<and>
     classify_with_cleanup_rules_inner lowercase env reg p s rules home = finish_class s c)"
proof (cases "file_name p")
  case (Some raw)
  define c where "c = rescue s (classify_name reg (lowercase raw) (cleanup_catalog_path_classification env p rules home))"
  have "0 \<le> name_confidence c"
    unfolding c_def using catalog_nonneg [of env p rules home]
    by (intro rescue_nonneg classify_name_nonneg) (cases "cleanup_catalog_path_classification env p rules home"; simp)
  moreover have "category c = category (rescue s c)" by (auto simp: c_def rescue_def named_class_def Let_def)
  ultimately show ?thesis using Some by (auto simp: classify_with_cleanup_rules_inner_def c_def)
qed (simp add: classify_with_cleanup_rules_inner_def)

lemma layout_signal:
  "structural_score RustTarget s < lit (1/10)"
  if "has_git s \<or> (has_cargo_toml s \<and> \<not> cargo_layout s \<and> \<not> (has_build s \<and> has_deps s))"
proof -
  obtain t where t: "lit (1/10) = Fin t" "0 < t" using lit_pos [of "1/10"] by auto
  have "lit (5/100) \<le> Fin (1/16)" using rnd_pow2_inv [of 4] by (intro rnd_le) simp_all
  moreover have p: "of_int 3 * (2::rat) powi (- 5) = 3/32" by (simp only: power_int_minus) simp
  have "rnd (of_int 3 * 2 powi (- 5)) = Fin (of_int 3 * 2 powi (- 5))" by (rule rnd_dyadic) simp_all
  then have "Fin (3/32) \<le> lit (1/10)" unfolding p by (rule rnd_ge) simp
  ultimately have "lit (5/100) < lit (1/10)" using t by (cases "lit (5/100)") auto
  then show ?thesis using that t by (auto simp: structural_score_def cargo_layout_def)
qed


definition repo_signals :: structural_signals where
  "repo_signals = \<lparr>has_incremental = False, has_deps = False, has_build = False, has_fingerprint = False,
     has_git = True, has_cargo_toml = True, mostly_object_files = False\<rparr>"


end
