(* ===== verification/Walker.thy ===== *)
theory Walker
  imports Patterns Protection "HOL-Library.Multiset"
begin

section \<open>The directory walk (src/src/scanner/walker.rs)\<close>

text \<open>
  Worker threads take directories from a shared queue, send what they find to the scanner and put the
  child directories back into the queue. A step of the model is one access of a worker to what the
  threads share: the queue, the registry of markers, the channel of results and the counter of work in
  flight. The file system is asked in every step anew, so it may change between steps. The work queue is
  unbounded, so a send into it never waits; heartbeats and waiting are left out.
\<close>

subsection \<open>Configuration and entries\<close>

record walker_config =
  root_paths :: "path list"
  max_depth :: usize
  follow_symlinks :: bool
  cross_devices :: bool
  parallelism :: usize
  excluded_paths :: "path_key set"
  opaque_pruning :: bool

text \<open>What \<open>stat\<close> answers: times are nanoseconds since the epoch, \<open>None\<close> where the file system keeps none.\<close>

record file_meta =
  fm_kind :: fs_entry_kind
  fm_dev :: u64
  fm_ino :: u64
  fm_blocks :: u64
  fm_modified :: "int option"
  fm_created :: "int option"
  fm_mode :: u32

record entry_metadata =
  size_bytes :: u64
  content_size_bytes :: u64
  em_modified :: int
  em_created :: "int option"
  em_is_dir :: bool
  em_inode :: u64
  em_device :: u64
  em_kind :: fs_entry_kind
  permissions :: u32

definition effective_age_timestamp :: "entry_metadata \<Rightarrow> int" where
  "effective_age_timestamp m = (if em_is_dir m
     then (case em_created m of Some t \<Rightarrow> t | None \<Rightarrow> em_modified m) else em_modified m)"

definition identity :: "entry_metadata \<Rightarrow> fs_identity" where
  "identity m = \<lparr>device_id = em_device m, inode = em_inode m, id_kind = em_kind m\<rparr>"

record walk_entry =
  we_path :: path
  we_metadata :: entry_metadata
  we_depth :: usize
  structural_signals :: structural_signals
  we_is_open :: bool
  we_opaque :: "opaque_tree_classification option"

record work_item =
  wi_path :: path
  wi_depth :: usize
  root_device_id :: u64
  wi_opaque :: "opaque_tree_classification option"

text \<open>What the walker asks of the system; \<open>stat\<close> follows a final symbolic link when its flag says so.\<close>

record walker_env =
  wv_dirs :: dir_view
  wv_stat :: "bool \<Rightarrow> path \<Rightarrow> io_error + file_meta"
  wv_protect :: protect_env
  wv_tree :: tree

definition metadata_for_path :: "walker_env \<Rightarrow> path \<Rightarrow> bool \<Rightarrow> io_error + file_meta" where
  "metadata_for_path env p follow = wv_stat env follow p"

definition allocated_size :: "u64 \<Rightarrow> u64" where
  "allocated_size blocks = sat_mul blocks 512"

definition entry_metadata_of :: "file_meta \<Rightarrow> entry_metadata" where
  "entry_metadata_of m = \<lparr>size_bytes = allocated_size (fm_blocks m), content_size_bytes = allocated_size (fm_blocks m),
     em_modified = (case fm_modified m of Some t \<Rightarrow> t | None \<Rightarrow> 0), em_created = fm_created m,
     em_is_dir = (fm_kind m = KDirectory), em_inode = fm_ino m, em_device = fm_dev m, em_kind = fm_kind m,
     permissions = fm_mode m\<rparr>"

definition identity_for_path :: "walker_env \<Rightarrow> path \<Rightarrow> bool \<Rightarrow> io_error + fs_identity" where
  "identity_for_path env p follow = map_sum id (identity \<circ> entry_metadata_of) (metadata_for_path env p follow)"

subsection \<open>The roots\<close>

fun seed_items :: "walker_env \<Rightarrow> walker_config \<Rightarrow> path list \<Rightarrow> sbh_error + work_item list" where
  "seed_items env cfg [] = Inr []"
| "seed_items env cfg (r # rs) = (case metadata_for_path env r (follow_symlinks cfg) of
       Inl e \<Rightarrow> if io_kind e = NotFound \<or> io_kind e = PermissionDeniedKind then seed_items env cfg rs
         else Inl (Io r e)
     | Inr m \<Rightarrow> if fm_kind m = KDirectory
         then map_sum id ((#) \<lparr>wi_path = r, wi_depth = 0, root_device_id = fm_dev m, wi_opaque = None\<rparr>)
           (seed_items env cfg rs)
         else seed_items env cfg rs)"

subsection \<open>One directory\<close>

definition enters :: "walker_config \<Rightarrow> work_item \<Rightarrow> file_meta \<Rightarrow> bool" where
  "enters cfg item m = (cross_devices cfg \<or> fm_dev m = root_device_id item)"

text \<open>The tests before the directory is read: \<open>None\<close> when it is left out, otherwise its \<open>stat\<close> below the root.\<close>

definition dir_gate ::
  "walker_env \<Rightarrow> walker_config \<Rightarrow> protection_registry \<Rightarrow> work_item \<Rightarrow> file_meta option option" where
  "dir_gate env cfg reg item =
     (if components (wi_path item) \<in> excluded_paths cfg then None
      else if is_protected (wv_protect env) (wv_tree env) reg (wi_path item) then None
      else if wi_depth item = 0 then Some None
      else case metadata_for_path env (wi_path item) (follow_symlinks cfg) of Inl _ \<Rightarrow> None
        | Inr m \<Rightarrow> if enters cfg item m then Some (Some m) else None)"

record dir_scan =
  ds_signals :: structural_signals
  object_count :: u32
  total_count :: u32
  content_size :: u64
  node_manifest :: bool
  pending_children :: "path list"

definition default_signals :: structural_signals where
  "default_signals = \<lparr>has_incremental = False, has_deps = False, has_build = False, has_fingerprint = False,
     has_git = False, has_cargo_toml = False, mostly_object_files = False\<rparr>"

definition dir_scan_new :: dir_scan where
  "dir_scan_new = \<lparr>ds_signals = default_signals, object_count = 0, total_count = 0, content_size = 0,
     node_manifest = False, pending_children = []\<rparr>"

definition max_entries_per_dir :: u32 where
  "max_entries_per_dir = 65536"

definition node_manifests :: "string list" where
  "node_manifests = [''package.json'', ''package-lock.json'', ''npm-shrinkwrap.json'', ''pnpm-lock.yaml'',
     ''yarn.lock'', ''bun.lock'', ''bun.lockb'']"

definition note_signal :: "string \<Rightarrow> structural_signals \<Rightarrow> structural_signals" where
  "note_signal name s =
     (if name = ''incremental'' then s\<lparr>has_incremental := True\<rparr>
      else if name = ''deps'' then s\<lparr>has_deps := True\<rparr>
      else if name = ''build'' then s\<lparr>has_build := True\<rparr>
      else if name = ''.fingerprint'' then s\<lparr>has_fingerprint := True\<rparr>
      else if name = ''.git'' then s\<lparr>has_git := True\<rparr>
      else if name = ''cargo.toml'' \<or> name = ''Cargo.toml'' then s\<lparr>has_cargo_toml := True\<rparr>
      else s)"

definition is_object_name :: "string \<Rightarrow> bool" where
  "is_object_name name = (case name_extension name of None \<Rightarrow> False
     | Some ext \<Rightarrow> list_ex (eq_ignore_ascii_case ext) [''o'', ''rlib'', ''rmeta'', ''d''])"

definition note_name :: "string \<Rightarrow> dir_scan \<Rightarrow> dir_scan" where
  "note_name name sc = sc\<lparr>ds_signals := note_signal name (ds_signals sc),
     node_manifest := (node_manifest sc \<or> name \<in> set node_manifests),
     object_count := object_count sc + (if is_object_name name then 1 else 0)\<rparr>"

definition child_is_dir :: "walker_env \<Rightarrow> walker_config \<Rightarrow> path \<Rightarrow> fs_entry_kind \<Rightarrow> bool" where
  "child_is_dir env cfg child kind = (if follow_symlinks cfg \<and> kind = KSymlink
     then (case metadata_for_path env child True of Inr m \<Rightarrow> fm_kind m = KDirectory | Inl _ \<Rightarrow> False)
     else kind = KDirectory)"

definition note_child :: "walker_env \<Rightarrow> walker_config \<Rightarrow> work_item \<Rightarrow> dir_entry \<Rightarrow> dir_scan \<Rightarrow> dir_scan" where
  "note_child env cfg item e sc = (case de_type e of None \<Rightarrow> sc
     | Some kind \<Rightarrow>
         if \<not> follow_symlinks cfg \<and> kind = KSymlink then sc
         else let child = path_join (wi_path item) (de_name e);
                  dir = child_is_dir env cfg child kind;
                  sc1 = (case de_size e of Some blocks \<Rightarrow> if dir then sc
                      else sc\<lparr>content_size := sat_add (content_size sc) (allocated_size blocks)\<rparr> | None \<Rightarrow> sc)
              in if wi_depth item < max_depth cfg \<and> dir \<and> components child \<notin> excluded_paths cfg
                 then sc1\<lparr>pending_children := pending_children sc1 @ [child]\<rparr> else sc1)"

text \<open>The loop over the entries; \<open>None\<close> when it meets a marker file.\<close>

fun scan_entries :: "walker_env \<Rightarrow> walker_config \<Rightarrow> work_item \<Rightarrow> listing \<Rightarrow> dir_scan \<Rightarrow> dir_scan option" where
  "scan_entries env cfg item [] sc = Some sc"
| "scan_entries env cfg item (None # es) sc = scan_entries env cfg item es sc"
| "scan_entries env cfg item (Some e # es) sc =
     (let sc1 = sc\<lparr>total_count := total_count sc + 1\<rparr> in
      if max_entries_per_dir \<le> total_count sc1 then Some sc1
      else if de_name e = marker_filename then None
      else scan_entries env cfg item es (note_child env cfg item e (note_name (de_name e) sc1)))"

text \<open>What is sent for one child: nothing, an entry of its own, or a directory to walk.\<close>

datatype sent_item = Descend work_item | Report walk_entry

definition opaque_candidate_size_floor :: u64 where
  "opaque_candidate_size_floor = 100 * 1048576"

definition child_class :: "walker_env \<Rightarrow> walker_config \<Rightarrow> dir_scan \<Rightarrow> path \<Rightarrow> opaque_tree_classification option" where
  "child_class env cfg sc child = (if opaque_pruning cfg
     then classify_opaque_tree (wv_dirs env) child \<lparr>parent_has_cargo_toml = has_cargo_toml (ds_signals sc),
       parent_has_node_manifest = node_manifest sc\<rparr> else None)"

definition opaque_entry :: "work_item \<Rightarrow> path \<Rightarrow> opaque_tree_classification \<Rightarrow> file_meta \<Rightarrow> walk_entry" where
  "opaque_entry item child op m = (let em = entry_metadata_of m in
     \<lparr>we_path = child, we_metadata = (if em_is_dir em
        then em\<lparr>content_size_bytes := max (content_size_bytes em) opaque_candidate_size_floor\<rparr> else em),
      we_depth = wi_depth item + 1, structural_signals = default_signals, we_is_open = False, we_opaque = Some op\<rparr>)"

definition child_output ::
  "walker_env \<Rightarrow> walker_config \<Rightarrow> work_item \<Rightarrow> dir_scan \<Rightarrow> path \<Rightarrow> sent_item option" where
  "child_output env cfg item sc child =
     (let op = child_class env cfg sc child;
          below = Some (Descend \<lparr>wi_path = child, wi_depth = wi_depth item + 1,
            root_device_id = root_device_id item, wi_opaque = op\<rparr>)
      in case op of None \<Rightarrow> below
       | Some o' \<Rightarrow> (case disposition o' of
            CandidateOpaque \<Rightarrow> (case metadata_for_path env child (follow_symlinks cfg) of Inl _ \<Rightarrow> None
              | Inr m \<Rightarrow> if enters cfg item m then Some (Report (opaque_entry item child o' m)) else None)
          | ProtectedOpaque \<Rightarrow> None
          | SignalOnly \<Rightarrow> below))"

definition final_signals :: "dir_scan \<Rightarrow> structural_signals" where
  "final_signals sc = (if total_count sc > 0 \<and> object_count sc > 0
     then (ds_signals sc)\<lparr>mostly_object_files := (total_count sc \<le> object_count sc * 2)\<rparr> else ds_signals sc)"

definition own_entry :: "work_item \<Rightarrow> dir_scan \<Rightarrow> file_meta \<Rightarrow> walk_entry" where
  "own_entry item sc m = (let em = entry_metadata_of m in
     \<lparr>we_path = wi_path item, we_metadata = (if em_is_dir em \<and> content_size sc > 0
        then em\<lparr>content_size_bytes := content_size sc\<rparr> else em),
      we_depth = wi_depth item, structural_signals = final_signals sc, we_is_open = False, we_opaque = wi_opaque item\<rparr>)"

subsection \<open>The workers\<close>

text \<open>A worker that has read a directory sends the children one by one (\<open>Sending\<close>), counting each before
  it is sent (\<open>Announced\<close>), then the entry of the directory itself; \<open>Finished\<close> is the moment before the
  counter is decremented.\<close>

datatype worker = Idle | Opened work_item "file_meta option"
  | Sending work_item "file_meta option" dir_scan "path list"
  | Announced work_item work_item "file_meta option" dir_scan "path list"
  | Finished | Exited

record walker_state =
  ws_registry :: protection_registry
  ws_queue :: "work_item list"
  ws_workers :: "worker list"
  ws_sent :: "walk_entry list"
  in_flight :: usize
  ws_cancelled :: bool
  ws_closed :: bool

definition set_worker :: "nat \<Rightarrow> worker \<Rightarrow> walker_state \<Rightarrow> walker_state" where
  "set_worker i w s = s\<lparr>ws_workers := (ws_workers s)[i := w]\<rparr>"

definition walk_init :: "walker_config \<Rightarrow> protection_registry \<Rightarrow> work_item list \<Rightarrow> walker_state" where
  "walk_init cfg reg items = \<lparr>ws_registry = reg, ws_queue = items,
     ws_workers = replicate (unat (max 1 (parallelism cfg))) Idle, ws_sent = [],
     in_flight = of_nat (length items), ws_cancelled = False, ws_closed = False\<rparr>"

text \<open>\<open>stream\<close>: the error of a root, or the state in which the threads start.\<close>

definition stream :: "walker_env \<Rightarrow> walker_config \<Rightarrow> protection_registry \<Rightarrow> sbh_error + walker_state" where
  "stream env cfg reg = map_sum id (walk_init cfg reg) (seed_items env cfg (root_paths cfg))"

definition open_item :: "walker_env \<Rightarrow> walker_config \<Rightarrow> protection_registry \<Rightarrow> work_item \<Rightarrow> worker" where
  "open_item env cfg reg item = (case dir_gate env cfg reg item of None \<Rightarrow> Finished | Some m \<Rightarrow> Opened item m)"

definition read_item :: "walker_env \<Rightarrow> walker_config \<Rightarrow> nat \<Rightarrow> work_item \<Rightarrow> file_meta option \<Rightarrow> walker_state \<Rightarrow> walker_state" where
  "read_item env cfg i item m s = (case dv_read_dir (wv_dirs env) (wi_path item) of
       None \<Rightarrow> set_worker i Finished s
     | Some es \<Rightarrow> (case scan_entries env cfg item es dir_scan_new of
          None \<Rightarrow> (set_worker i Finished s)\<lparr>ws_registry :=
            fst (register_marker (wv_protect env) (wv_tree env) (wi_path item) (ws_registry s))\<rparr>
        | Some sc \<Rightarrow> set_worker i (Sending item m sc (pending_children sc)) s))"

definition deliver :: "nat \<Rightarrow> worker \<Rightarrow> walk_entry \<Rightarrow> walker_state \<Rightarrow> walker_state" where
  "deliver i w e s = (if ws_closed s then set_worker i Finished s
     else (set_worker i w s)\<lparr>ws_sent := ws_sent s @ [e]\<rparr>)"

definition send_child ::
  "walker_env \<Rightarrow> walker_config \<Rightarrow> nat \<Rightarrow> work_item \<Rightarrow> file_meta option \<Rightarrow> dir_scan \<Rightarrow> path \<Rightarrow> path list \<Rightarrow> walker_state \<Rightarrow> walker_state" where
  "send_child env cfg i item m sc c cs s = (case child_output env cfg item sc c of
       None \<Rightarrow> set_worker i (Sending item m sc cs) s
     | Some (Report e) \<Rightarrow> deliver i (Sending item m sc cs) e s
     | Some (Descend it) \<Rightarrow> (set_worker i (Announced it item m sc cs) s)\<lparr>in_flight := in_flight s + 1\<rparr>)"

definition send_own :: "nat \<Rightarrow> work_item \<Rightarrow> file_meta option \<Rightarrow> dir_scan \<Rightarrow> walker_state \<Rightarrow> walker_state" where
  "send_own i item m sc s = (case m of
       Some meta \<Rightarrow> if wi_depth item > 0 then deliver i Finished (own_entry item sc meta) s else set_worker i Finished s
     | None \<Rightarrow> set_worker i Finished s)"

text \<open>The next step of a worker; \<open>None\<close> when it has to wait or has returned.\<close>

fun worker_step :: "walker_env \<Rightarrow> walker_config \<Rightarrow> nat \<Rightarrow> worker \<Rightarrow> walker_state \<Rightarrow> walker_state option" where
  "worker_step env cfg i Idle s = (case ws_queue s of [] \<Rightarrow> None
     | item # q \<Rightarrow> Some ((set_worker i (open_item env cfg (ws_registry s) item) s)\<lparr>ws_queue := q\<rparr>))"
| "worker_step env cfg i (Opened item m) s = Some (read_item env cfg i item m s)"
| "worker_step env cfg i (Sending item m sc (c # cs)) s = Some (send_child env cfg i item m sc c cs s)"
| "worker_step env cfg i (Sending item m sc []) s = Some (send_own i item m sc s)"
| "worker_step env cfg i (Announced it item m sc cs) s =
     Some ((set_worker i (Sending item m sc cs) s)\<lparr>ws_queue := ws_queue s @ [it]\<rparr>)"
| "worker_step env cfg i Finished s = Some ((set_worker i Idle s)\<lparr>in_flight := in_flight s - 1\<rparr>)"
| "worker_step env cfg i Exited s = None"

text \<open>An idle worker leaves when it sees the cancellation or no work in flight; a busy one drops what it does
  when it sees the cancellation. The scanner may cancel the walk and may stop listening.\<close>

datatype action = Work nat | Leave nat | Drop nat | Cancel | HangUp

fun walk_act :: "walker_env \<Rightarrow> walker_config \<Rightarrow> action \<Rightarrow> walker_state \<Rightarrow> walker_state option" where
  "walk_act env cfg (Work i) s =
     (if i < length (ws_workers s) then worker_step env cfg i (ws_workers s ! i) s else None)"
| "walk_act env cfg (Leave i) s =
     (if i < length (ws_workers s) \<and> ws_workers s ! i = Idle \<and> (ws_cancelled s \<or> in_flight s = 0)
      then Some (set_worker i Exited s) else None)"
| "walk_act env cfg (Drop i) s =
     (if i < length (ws_workers s) \<and> ws_cancelled s then (case ws_workers s ! i of
          Opened _ _ \<Rightarrow> Some (set_worker i Finished s)
        | Sending _ _ _ _ \<Rightarrow> Some (set_worker i Finished s)
        | _ \<Rightarrow> None) else None)"
| "walk_act env cfg Cancel s = (if ws_cancelled s then None else Some (s\<lparr>ws_cancelled := True\<rparr>))"
| "walk_act env cfg HangUp s = (if ws_closed s then None else Some (s\<lparr>ws_closed := True\<rparr>))"

definition walk_step :: "walker_env set \<Rightarrow> walker_config \<Rightarrow> walker_state \<Rightarrow> walker_state \<Rightarrow> bool" where
  "walk_step E cfg s s' = (\<exists>env \<in> E. \<exists>a. walk_act env cfg a s = Some s')"

text \<open>The items queued and worked on. A machine with 64-bit addresses cannot hold \<open>2 ^ 64\<close> of them, so runs only
  pass through states that fit.\<close>

fun weight :: "worker \<Rightarrow> nat" where
  "weight Idle = 0" | "weight (Opened _ _) = 1" | "weight (Sending _ _ _ _) = 1"
| "weight (Announced _ _ _ _ _) = 2" | "weight Finished = 1" | "weight Exited = 0"

definition load :: "walker_state \<Rightarrow> nat" where
  "load s = length (ws_queue s) + sum_list (map weight (ws_workers s))"

definition fits :: "walker_state \<Rightarrow> bool" where
  "fits s = (load s < 2 ^ 64)"

inductive walk_reach :: "walker_env set \<Rightarrow> walker_config \<Rightarrow> walker_state \<Rightarrow> walker_state \<Rightarrow> bool" for E cfg s0 where
  walk_start: "walk_reach E cfg s0 s0"
| walk_more: "walk_reach E cfg s0 s \<Longrightarrow> walk_step E cfg s s' \<Longrightarrow> fits s' \<Longrightarrow> walk_reach E cfg s0 s'"

text \<open>A run along a given schedule, for evaluation.\<close>

fun walk_run :: "walker_env \<Rightarrow> walker_config \<Rightarrow> action list \<Rightarrow> walker_state \<Rightarrow> walker_state option" where
  "walk_run env cfg [] s = Some s"
| "walk_run env cfg (a # as) s = (case walk_act env cfg a s of None \<Rightarrow> None | Some s1 \<Rightarrow>
     if fits s1 then walk_run env cfg as s1 else None)"

text \<open>\<open>signals_from_children\<close>, which gets the names lower-cased.\<close>

definition signals_from_children :: "string list \<Rightarrow> structural_signals" where
  "signals_from_children names =
     (let s = fold (\<lambda>n s. if n = ''Cargo.toml'' then s else note_signal n s) names default_signals;
          total = (of_nat (length names) :: u32);
          objects = (of_nat (length (filter (\<lambda>n. name_extension n \<in> Some ` {''o'', ''rlib'', ''rmeta'', ''d''}) names)) :: u32)
      in if total > 0 \<and> objects > 0 then s\<lparr>mostly_object_files := (total \<le> objects * 2)\<rparr> else s)"

end
