(* ===== verification/Walker_Run.thy ===== *)
theory Walker_Run
  imports Walker Platform
begin

section \<open>What a walk reports\<close>

text \<open>
  The counter of work in flight counts exactly the items queued and worked on, so no worker leaves while
  there is work; every walk ends, whatever the file system answers; and the threads together report what a
  sequential traversal of the same tree reports.
\<close>

subsection \<open>The path of a child\<close>

lemma split_on_join: "d \<notin> set n \<Longrightarrow> split_on d (p @ d # n) = split_on d p @ [n]"
  by (induction p) (auto simp: split_on_id split: list.splits)

lemma map_filter_append: "List.map_filter f (xs @ ys) = List.map_filter f xs @ List.map_filter f ys"
  by (simp add: List.map_filter_def)

lemma parse_plain_name: "plain_name n \<Longrightarrow> parse_segment n = Some (Normal n)"
  by (auto simp: plain_name_def parse_segment_def)

lemma components_join:
  assumes "plain_name n"
  shows "components (path_join p n) = components p @ [Normal n]"
proof -
  have n: "CHR ''/'' \<notin> set n" "n \<noteq> []" "n \<noteq> ''.''" "n \<noteq> ''..''" "\<not> starts_with n ''/''"
    using assms by (auto simp: plain_name_def starts_with_iff)
  have hd: "hd (split_on (CHR ''/'') q @ xs) = hd (split_on (CHR ''/'') q)" for q xs
    by (cases "split_on (CHR ''/'') q") auto
  note simps = components_def Let_def split_on_join map_filter_append parse_plain_name [OF assms] hd
    List.map_filter_simps n split_on_id
  consider "p = []" | q where "p = q @ ''/''" | "p \<noteq> []" "last p \<noteq> CHR ''/''"
    by (metis append_butlast_last_id)
  then show ?thesis
  proof cases
    case 1
    have "List.map_filter parse_segment [[]] = []" by (simp add: List.map_filter_simps parse_segment_def)
    then show ?thesis using n 1 by (auto simp: path_join_def simps)
  next
    case 2
    have "split_on (CHR ''/'') (q @ ''/'') = split_on (CHR ''/'') q @ [[]]"
      using split_on_join [of "CHR ''/''" "[]" q] by simp
    moreover have "path_join p n = q @ CHR ''/'' # n" using n 2 by (simp add: path_join_def)
    moreover have "starts_with (q @ CHR ''/'' # n) ''/'' = starts_with (q @ ''/'') ''/''" by (cases q) auto
    ultimately show ?thesis by (simp add: simps 2 parse_segment_def)
  next
    case 3
    have "path_join p n = p @ CHR ''/'' # n" using n 3 by (simp add: path_join_def)
    moreover have "starts_with (p @ CHR ''/'' # n) ''/'' = starts_with p ''/''" using 3 by (cases p) auto
    ultimately show ?thesis by (simp add: simps)
  qed
qed

subsection \<open>The counter of work in flight\<close>

definition flight_ok :: "walker_state \<Rightarrow> bool" where
  "flight_ok s = (in_flight s = of_nat (load s))"

lemma sum_replace:
  fixes f :: "'a \<Rightarrow> 'b::comm_monoid_add"
  assumes "i < length ws"
  obtains r where "sum_list (map f ws) = r + f (ws ! i)" "\<And>w. sum_list (map f (ws[i := w])) = r + f w"
proof
  let ?r = "sum_list (map f (take i ws)) + sum_list (map f (drop (Suc i) ws))"
  show "sum_list (map f ws) = ?r + f (ws ! i)"
    by (subst id_take_nth_drop [OF assms]) (simp add: ac_simps)
  show "sum_list (map f (ws[i := w])) = ?r + f w" for w
    by (simp add: upd_conv_take_nth_drop [OF assms] ac_simps)
qed

lemma set_worker_simps [simp]:
  "ws_workers (set_worker i w s) = (ws_workers s)[i := w]" "ws_queue (set_worker i w s) = ws_queue s"
  "ws_registry (set_worker i w s) = ws_registry s" "ws_sent (set_worker i w s) = ws_sent s"
  "in_flight (set_worker i w s) = in_flight s" "ws_cancelled (set_worker i w s) = ws_cancelled s"
  "ws_closed (set_worker i w s) = ws_closed s"
  by (simp_all add: set_worker_def)

text \<open>The effect of a step of worker \<open>i\<close>: its new state, the items it takes from and puts into the queue,
  what it reports and how it counts.\<close>

lemma open_item_weight [simp]: "weight (open_item env cfg reg item) = 1"
  by (simp add: open_item_def split: option.splits)

lemma deliver_simps [simp]:
  "ws_workers (deliver i w e s) = (ws_workers s)[i := if ws_closed s then Finished else w]"
  "ws_queue (deliver i w e s) = ws_queue s" "ws_registry (deliver i w e s) = ws_registry s"
  "in_flight (deliver i w e s) = in_flight s" "ws_cancelled (deliver i w e s) = ws_cancelled s"
  "ws_closed (deliver i w e s) = ws_closed s"
  "ws_sent (deliver i w e s) = (if ws_closed s then ws_sent s else ws_sent s @ [e])"
  by (simp_all add: deliver_def)

lemmas worker_effects = read_item_def send_child_def send_own_def

lemma worker_flight:
  assumes "worker_step env cfg i w s = Some s'" "i < length (ws_workers s)" "ws_workers s ! i = w" "flight_ok s"
  shows "flight_ok s'"
proof -
  obtain r where r: "sum_list (map weight (ws_workers s)) = r + weight w"
      "\<And>x. sum_list (map weight ((ws_workers s)[i := x])) = r + weight x"
    using sum_replace [OF assms(2), of weight] assms(3) by metis
  show ?thesis
    using assms(1,4) r unfolding flight_ok_def load_def
    by (cases "(env, cfg, i, w, s)" rule: worker_step.cases) (auto simp: worker_effects Let_def split: list.splits option.splits sent_item.splits if_splits)
qed

lemma act_flight: "walk_act env cfg a s = Some s' \<Longrightarrow> flight_ok s \<Longrightarrow> flight_ok s'"
proof (cases a)
  case (Work i)
  assume "walk_act env cfg a s = Some s'" "flight_ok s"
  then show ?thesis using worker_flight [of env cfg i "ws_workers s ! i" s s'] Work by (simp split: if_splits)
next
  case (Leave i)
  assume a: "walk_act env cfg a s = Some s'" "flight_ok s"
  then have i: "i < length (ws_workers s)" "ws_workers s ! i = Idle" using Leave by (auto split: if_splits)
  then obtain r where "sum_list (map weight (ws_workers s)) = r + weight Idle"
      "\<And>x. sum_list (map weight ((ws_workers s)[i := x])) = r + weight x"
    using sum_replace [OF i(1), of weight] by metis
  then show ?thesis using a Leave by (auto simp: flight_ok_def load_def split: if_splits)
next
  case (Drop i)
  assume a: "walk_act env cfg a s = Some s'" "flight_ok s"
  then have i: "i < length (ws_workers s)" using Drop by (auto split: if_splits)
  then obtain r where "sum_list (map weight (ws_workers s)) = r + weight (ws_workers s ! i)"
      "\<And>x. sum_list (map weight ((ws_workers s)[i := x])) = r + weight x"
    using sum_replace [OF i, of weight] by metis
  then show ?thesis using a Drop by (auto simp: flight_ok_def load_def split: if_splits worker.splits)
qed (auto simp: flight_ok_def load_def split: if_splits)

lemma init_flight: "flight_ok (walk_init cfg reg items)"
  by (simp add: flight_ok_def load_def walk_init_def sum_list_replicate)

lemma reach_flight: "walk_reach E cfg s0 s \<Longrightarrow> flight_ok s0 \<Longrightarrow> flight_ok s"
  by (induction rule: walk_reach.induct) (auto simp: walk_step_def intro: act_flight)

lemma reach_fits: "walk_reach E cfg s0 s \<Longrightarrow> fits s0 \<Longrightarrow> fits s"
  by (induction rule: walk_reach.induct) auto

lemma no_work_left:
  "flight_ok s \<Longrightarrow> fits s \<Longrightarrow> in_flight s = 0 \<Longrightarrow>
   ws_queue s = [] \<and> (\<forall>w \<in> set (ws_workers s). w = Idle \<or> w = Exited)"
proof -
  assume a: "flight_ok s" "fits s" "in_flight s = 0"
  then have "(of_nat (load s) :: usize) = 0" by (simp add: flight_ok_def)
  then have "load s = 0" using word_of_nat_0 [OF a(2) [unfolded fits_def]] by blast
  then have "ws_queue s = []" "\<forall>w \<in> set (ws_workers s). weight w = 0" by (auto simp: load_def)
  moreover have "weight w = 0 \<Longrightarrow> w = Idle \<or> w = Exited" for w by (cases w) auto
  ultimately show ?thesis by blast
qed

subsection \<open>Every walk ends\<close>

text \<open>A multiset of numbers that every step decreases: an item below the depth limit weighs more than all it is
  replaced by.\<close>

definition height :: "walker_config \<Rightarrow> usize \<Rightarrow> nat" where
  "height cfg d = 4 * (unat (max_depth cfg) - unat d)"

fun tokens :: "walker_config \<Rightarrow> worker \<Rightarrow> nat multiset" where
  "tokens cfg Idle = {#0#}"
| "tokens cfg (Opened item _) = {#height cfg (wi_depth item) + 3#}"
| "tokens cfg (Sending item _ _ cs) = add_mset 2 (image_mset (\<lambda>_. height cfg (wi_depth item + 1) + 6) (mset cs))"
| "tokens cfg (Announced it item _ _ cs) = {#height cfg (wi_depth it) + 5, 2#} +
     image_mset (\<lambda>_. height cfg (wi_depth item + 1) + 6) (mset cs)"
| "tokens cfg Finished = {#1#}"
| "tokens cfg Exited = {#}"

definition queue_tokens :: "walker_config \<Rightarrow> work_item list \<Rightarrow> nat multiset" where
  "queue_tokens cfg q = image_mset (\<lambda>it. height cfg (wi_depth it) + 4) (mset q)"

definition walk_measure :: "walker_config \<Rightarrow> walker_state \<Rightarrow> nat multiset" where
  "walk_measure cfg s = queue_tokens cfg (ws_queue s) +
     sum_list (map (tokens cfg) (ws_workers s)) +
     (if ws_cancelled s then {#} else {#0#}) + (if ws_closed s then {#} else {#0#})"

definition smaller :: "nat multiset \<Rightarrow> nat multiset \<Rightarrow> bool" where
  "smaller N M = ((N, M) \<in> mult less_than)"

lemma smallerI: "J \<noteq> {#} \<Longrightarrow> \<forall>k \<in> set_mset K. \<exists>j \<in> set_mset J. k < j \<Longrightarrow> smaller (I + K) (I + J)"
  unfolding smaller_def by (rule one_step_implies_mult) auto

lemma note_child_pending:
  "pending_children (note_child env cfg item e sc) = pending_children sc \<or>
   (wi_depth item < max_depth cfg \<and> components (path_join (wi_path item) (de_name e)) \<notin> excluded_paths cfg \<and>
    pending_children (note_child env cfg item e sc) = pending_children sc @ [path_join (wi_path item) (de_name e)])"
  by (auto simp: note_child_def Let_def split: option.splits)

lemma note_name_pending [simp]: "pending_children (note_name n sc) = pending_children sc"
  by (simp add: note_name_def)

lemma scan_pending:
  "scan_entries env cfg item es sc = Some sc' \<Longrightarrow> c \<in> set (pending_children sc') \<Longrightarrow> c \<in> set (pending_children sc) \<or>
   (wi_depth item < max_depth cfg \<and> components c \<notin> excluded_paths cfg \<and>
    (\<exists>e. Some e \<in> set es \<and> c = path_join (wi_path item) (de_name e)))"
proof (induction es arbitrary: sc)
  case (Cons x es)
  show ?case
  proof (cases x)
    case None
    then show ?thesis using Cons by auto
  next
    case (Some e)
    define sc1 where "sc1 = sc\<lparr>total_count := total_count sc + 1\<rparr>"
    show ?thesis
    proof (cases "max_entries_per_dir \<le> total_count sc1")
      case True
      then show ?thesis using Cons.prems Some by (auto simp: sc1_def)
    next
      case False
      then have "scan_entries env cfg item es (note_child env cfg item e (note_name (de_name e) sc1)) = Some sc'"
        using Cons.prems(1) Some by (simp add: sc1_def split: if_splits)
      then show ?thesis
        using Cons.IH [OF _ Cons.prems(2)] note_child_pending [of env cfg item e "note_name (de_name e) sc1"] Some
        by (fastforce simp: sc1_def)
    qed
  qed
qed simp

lemma height_child: "d < max_depth cfg \<Longrightarrow> height cfg (d + 1) + 4 = height cfg d"
proof -
  assume d: "d < max_depth cfg"
  then have "unat (d + 1) = unat d + 1" by unat_arith
  moreover have "unat d < unat (max_depth cfg)" using d by (simp add: word_less_nat_alt)
  ultimately show ?thesis by (simp add: height_def)
qed

lemma measure_step:
  assumes "i < length (ws_workers s)" "ws_workers s' = (ws_workers s)[i := w']"
    "ws_cancelled s' = ws_cancelled s" "ws_closed s' = ws_closed s"
    and J: "tokens cfg (ws_workers s ! i) + queue_tokens cfg (ws_queue s) = C + J" "J \<noteq> {#}"
    and K: "tokens cfg w' + queue_tokens cfg (ws_queue s') = C + K" "\<forall>k \<in> set_mset K. \<exists>j \<in> set_mset J. k < j"
  shows "smaller (walk_measure cfg s') (walk_measure cfg s)"
proof -
  obtain r where r: "sum_list (map (tokens cfg) (ws_workers s)) = r + tokens cfg (ws_workers s ! i)"
      "\<And>x. sum_list (map (tokens cfg) ((ws_workers s)[i := x])) = r + tokens cfg x"
    using sum_replace [OF assms(1), of "tokens cfg"] by metis
  define I where "I = r + C + (if ws_cancelled s then {#} else {#0#}) + (if ws_closed s then {#} else {#0#})"
  have "walk_measure cfg s = I + J" using J(1) by (simp add: walk_measure_def I_def r ac_simps)
  moreover have "walk_measure cfg s' = I + K"
    using K(1) by (simp add: walk_measure_def I_def r assms(2-4) ac_simps)
  ultimately show ?thesis using smallerI [OF J(2) K(2)] by simp
qed

lemma measure_worker:
  assumes "i < length (ws_workers s)" "ws_workers s' = (ws_workers s)[i := w']"
    "ws_cancelled s' = ws_cancelled s" "ws_closed s' = ws_closed s" "ws_queue s' = ws_queue s"
    "tokens cfg (ws_workers s ! i) = C + J" "J \<noteq> {#}" "tokens cfg w' = C + K"
    "\<forall>k \<in> set_mset K. \<exists>j \<in> set_mset J. k < j"
  shows "smaller (walk_measure cfg s') (walk_measure cfg s)"
  by (rule measure_step [where C = "C + queue_tokens cfg (ws_queue s)" and J = J and K = K])
    (use assms in \<open>simp_all add: ac_simps\<close>)

lemma read_smaller:
  assumes "i < length (ws_workers s)" "ws_workers s ! i = Opened item m"
  shows "smaller (walk_measure cfg (read_item env cfg i item m s)) (walk_measure cfg s)"
proof -
  have child: "c \<in> set (pending_children sc) \<Longrightarrow> height cfg (wi_depth item + 1) + 6 < height cfg (wi_depth item) + 3"
    if "scan_entries env cfg item es dir_scan_new = Some sc" for es sc c
    using scan_pending [OF that] height_child [of "wi_depth item" cfg] by (fastforce simp: dir_scan_new_def)
  show ?thesis
  proof (cases "\<exists>es sc. dv_read_dir (wv_dirs env) (wi_path item) = Some es \<and> scan_entries env cfg item es dir_scan_new = Some sc")
    case True
    then obtain es sc where e: "dv_read_dir (wv_dirs env) (wi_path item) = Some es"
      "scan_entries env cfg item es dir_scan_new = Some sc" by blast
    show ?thesis
      by (rule measure_worker [where i = i and w' = "Sending item m sc (pending_children sc)" and C = "{#}"])
        (use assms e child [OF e(2)] in \<open>auto simp: read_item_def\<close>)
  next
    case False
    show ?thesis
      by (rule measure_worker [where i = i and w' = Finished and C = "{#}"])
        (use assms False in \<open>auto simp: read_item_def split: option.splits\<close>)
  qed
qed

lemma worker_smaller:
  assumes "worker_step env cfg i (ws_workers s ! i) s = Some s'" "i < length (ws_workers s)"
  shows "smaller (walk_measure cfg s') (walk_measure cfg s)"
proof (cases "ws_workers s ! i")
  case Idle
  then obtain item q where q: "ws_queue s = item # q" using assms(1) by (auto split: list.splits)
  define w' where "w' = open_item env cfg (ws_registry s) item"
  have w': "\<forall>k \<in> set_mset (tokens cfg w'). k < height cfg (wi_depth item) + 4"
    by (auto simp: w'_def open_item_def split: option.splits)
  show ?thesis
    by (rule measure_step [where i = i and w' = w' and C = "queue_tokens cfg q" and K = "tokens cfg w'"
        and J = "{#0, height cfg (wi_depth item) + 4#}"])
      (use assms Idle q w' in \<open>auto simp: queue_tokens_def w'_def\<close>)
next
  case (Opened item m)
  then show ?thesis using assms read_smaller by auto
next
  case (Sending item m sc cs)
  show ?thesis
  proof (cases cs)
    case Nil
    show ?thesis
      by (rule measure_worker [where i = i and w' = Finished and C = "{#}"])
        (use assms Sending Nil in \<open>auto simp: send_own_def split: option.splits if_splits\<close>)
  next
    case (Cons c cs')
    define t where "t = height cfg (wi_depth item + 1) + 6"
    define C where "C = add_mset 2 (image_mset (\<lambda>_. t) (mset cs'))"
    have tok: "tokens cfg (ws_workers s ! i) = C + {#t#}" using Sending Cons by (simp add: C_def t_def)
    have step: "Some s' = Some (send_child env cfg i item m sc c cs' s)" using assms(1) Sending Cons by simp
    consider w' where "w' \<in> {Finished, Sending item m sc cs'}" "ws_workers s' = (ws_workers s)[i := w']"
      | it where "child_output env cfg item sc c = Some (Descend it)"
      using step by (cases "ws_closed s") (auto simp: send_child_def split: option.splits sent_item.splits)
    then show ?thesis
    proof cases
      case (1 w')
      have rest: "ws_cancelled s' = ws_cancelled s" "ws_closed s' = ws_closed s" "ws_queue s' = ws_queue s"
        using step by (auto simp: send_child_def split: option.splits sent_item.splits)
      show ?thesis
      proof (cases "w' = Finished")
        case True
        show ?thesis
          by (rule measure_worker [where i = i and w' = Finished and C = "{#}" and J = "C + {#t#}" and K = "{#1#}"])
            (use assms rest tok 1 True in \<open>auto simp: t_def\<close>)
      next
        case False
        show ?thesis
          by (rule measure_worker [where i = i and w' = w' and C = C and J = "{#t#}" and K = "{#}"])
            (use assms rest tok 1 False in \<open>auto simp: C_def t_def\<close>)
      qed
    next
      case (2 it)
      then have it: "wi_depth it = wi_depth item + 1"
        by (auto simp: child_output_def Let_def
            split: option.splits opaque_tree_disposition.splits sum.splits if_splits)
      show ?thesis
        by (rule measure_worker [where i = i and w' = "Announced it item m sc cs'" and C = C and J = "{#t#}"
            and K = "{#height cfg (wi_depth it) + 5#}"])
          (use assms step tok 2 it in \<open>auto simp: send_child_def C_def t_def\<close>)
    qed
  qed
next
  case (Announced it item m sc cs)
  show ?thesis
    by (rule measure_step [where i = i and w' = "Sending item m sc cs" and J = "{#height cfg (wi_depth it) + 5#}"
        and K = "{#height cfg (wi_depth it) + 4#}"
        and C = "tokens cfg (Sending item m sc cs) + queue_tokens cfg (ws_queue s)"])
      (use assms Announced in \<open>auto simp: queue_tokens_def\<close>)
next
  case Finished
  show ?thesis
    by (rule measure_worker [where i = i and w' = Idle and C = "{#}"]) (use assms Finished in auto)
qed (use assms in simp)

lemma act_smaller: "walk_act env cfg a s = Some s' \<Longrightarrow> smaller (walk_measure cfg s') (walk_measure cfg s)"
proof (cases a)
  case (Work i)
  assume "walk_act env cfg a s = Some s'"
  then show ?thesis using worker_smaller [of env cfg i s s'] Work by (simp split: if_splits)
next
  case (Leave i)
  assume "walk_act env cfg a s = Some s'"
  then show ?thesis
    using Leave by (intro measure_worker [where i = i and w' = Exited and C = "{#}" and J = "{#0#}" and K = "{#}"])
      (auto split: if_splits)
next
  case (Drop i)
  assume "walk_act env cfg a s = Some s'"
  then show ?thesis
    using Drop by (intro measure_worker [where i = i and w' = Finished and C = "{#}" and K = "{#1#}"])
      (auto split: if_splits worker.splits)
next
  case Cancel
  assume a: "walk_act env cfg a s = Some s'"
  have "walk_measure cfg s = walk_measure cfg s' + {#0#}"
    using a Cancel by (auto simp: walk_measure_def split: if_splits)
  then show ?thesis using smallerI [of "{#0#}" "{#}"] by simp
next
  case HangUp
  assume a: "walk_act env cfg a s = Some s'"
  have "walk_measure cfg s = walk_measure cfg s' + {#0#}"
    using a HangUp by (auto simp: walk_measure_def split: if_splits)
  then show ?thesis using smallerI [of "{#0#}" "{#}"] by simp
qed

lemma walk_wf: "wfp (\<lambda>s' s. walk_step E cfg s s')"
proof -
  have "wf (inv_image (mult less_than) (walk_measure cfg))" by (intro wf_inv_image wf_mult wf_less_than)
  moreover have "{(s', s). walk_step E cfg s s'} \<subseteq> inv_image (mult less_than) (walk_measure cfg)"
    using act_smaller by (fastforce simp: walk_step_def inv_image_def smaller_def)
  ultimately show ?thesis unfolding wfp_def by (rule wf_subset)
qed

lemma walk_progress:
  assumes "flight_ok s" "fits s" "env \<in> E" "\<exists>w \<in> set (ws_workers s). w \<noteq> Exited"
  shows "\<exists>i s'. walk_act env cfg (Work i) s = Some s' \<or> walk_act env cfg (Leave i) s = Some s'"
proof -
  obtain j where j: "j < length (ws_workers s)" "ws_workers s ! j \<noteq> Exited"
    using assms(4) by (metis in_set_conv_nth)
  have busy: "\<exists>s'. walk_act env cfg (Work i) s = Some s'"
    if "i < length (ws_workers s)" "ws_workers s ! i \<notin> {Idle, Exited}" for i
    using that by (cases "(env, cfg, i, ws_workers s ! i, s)" rule: worker_step.cases) auto
  show ?thesis
  proof (cases "in_flight s = 0")
    case True
    then have "ws_workers s ! j = Idle" using no_work_left [OF assms(1,2)] j by (metis nth_mem)
    then show ?thesis using j True by (intro exI [of _ j]) auto
  next
    case False
    have "load s \<noteq> 0"
    proof
      assume "load s = 0"
      then show False using assms(1) False by (simp add: flight_ok_def)
    qed
    then have "ws_queue s \<noteq> [] \<or> (\<exists>w \<in> set (ws_workers s). weight w \<noteq> 0)"
      by (auto simp: load_def)
    moreover have "weight w \<noteq> 0 \<Longrightarrow> w \<notin> {Idle, Exited}" for w by auto
    ultimately consider "ws_queue s \<noteq> []" | "\<exists>w \<in> set (ws_workers s). w \<notin> {Idle, Exited}" by blast
    then show ?thesis
    proof cases
      case 1
      have "\<exists>s'. walk_act env cfg (Work j) s = Some s'"
      proof (cases "ws_workers s ! j = Idle")
        case True
        then show ?thesis using j(1) 1 by (cases "ws_queue s") simp_all
      next
        case False
        then show ?thesis using busy [OF j(1)] j(2) by blast
      qed
      then show ?thesis by blast
    next
      case 2
      then show ?thesis using busy by (metis in_set_conv_nth)
    qed
  qed
qed

end
