(* ===== verification/Walker_Spec.thy ===== *)
theory Walker_Spec
  imports Walker_Run
begin

section \<open>The walk and its sequential reference\<close>

text \<open>
  The reference visits one directory after the other with a registry that never changes. What the threads
  report lies, as a multiset, between the references for the registry they end with and the one they started
  with, whatever the schedule. Where a walk may go at all is stated for a file system that changes during it.
\<close>

subsection \<open>The reference\<close>

definition own_report :: "work_item \<Rightarrow> file_meta option \<Rightarrow> dir_scan \<Rightarrow> walk_entry list" where
  "own_report item m sc = (case m of Some meta \<Rightarrow> if wi_depth item > 0 then [own_entry item sc meta] else [] | None \<Rightarrow> [])"

lemma child_depth: "child_output env cfg item sc c = Some (Descend it) \<Longrightarrow> wi_depth it = wi_depth item + 1"
  by (auto simp: child_output_def Let_def split: option.splits opaque_tree_disposition.splits sum.splits if_splits)

lemma scanned_height:
  assumes "scan_entries env cfg item es dir_scan_new = Some sc" "c \<in> set (pending_children sc)"
    "child_output env cfg item sc c = Some (Descend it)"
  shows "height cfg (wi_depth it) < height cfg (wi_depth item)"
  using scan_pending [OF assms(1,2)] height_child [of "wi_depth item" cfg] child_depth [OF assms(3)]
  by (simp add: dir_scan_new_def)

function walk_tree :: "walker_env \<Rightarrow> walker_config \<Rightarrow> protection_registry \<Rightarrow> work_item \<Rightarrow> walk_entry list" where
  "walk_tree env cfg reg item = (case dir_gate env cfg reg item of None \<Rightarrow> []
     | Some m \<Rightarrow> (case dv_read_dir (wv_dirs env) (wi_path item) of None \<Rightarrow> []
        | Some es \<Rightarrow> (case scan_entries env cfg item es dir_scan_new of None \<Rightarrow> []
           | Some sc \<Rightarrow> concat (map (\<lambda>c. case child_output env cfg item sc c of None \<Rightarrow> []
                | Some (Report e) \<Rightarrow> [e]
                | Some (Descend it) \<Rightarrow> walk_tree env cfg reg it) (pending_children sc)) @ own_report item m sc)))"
  by auto
termination
  by (relation "measure (\<lambda>(env, cfg, reg, item). height cfg (wi_depth item))") (auto dest: scanned_height)

declare walk_tree.simps [simp del]

definition walk_all :: "walker_env \<Rightarrow> walker_config \<Rightarrow> protection_registry \<Rightarrow> work_item list \<Rightarrow> walk_entry list" where
  "walk_all env cfg reg items = concat (map (walk_tree env cfg reg) items)"

subsection \<open>What a state still owes\<close>

definition child_yield ::
  "walker_env \<Rightarrow> walker_config \<Rightarrow> protection_registry \<Rightarrow> work_item \<Rightarrow> dir_scan \<Rightarrow> path \<Rightarrow> walk_entry multiset" where
  "child_yield env cfg reg item sc c = (case child_output env cfg item sc c of None \<Rightarrow> {#}
     | Some (Report e) \<Rightarrow> {#e#} | Some (Descend it) \<Rightarrow> mset (walk_tree env cfg reg it))"

definition scan_yield ::
  "walker_env \<Rightarrow> walker_config \<Rightarrow> protection_registry \<Rightarrow> work_item \<Rightarrow> file_meta option \<Rightarrow> dir_scan \<Rightarrow> path list \<Rightarrow> walk_entry multiset" where
  "scan_yield env cfg reg item m sc cs = sum_list (map (child_yield env cfg reg item sc) cs) + mset (own_report item m sc)"

definition open_yield ::
  "walker_env \<Rightarrow> walker_config \<Rightarrow> protection_registry \<Rightarrow> work_item \<Rightarrow> file_meta option \<Rightarrow> walk_entry multiset" where
  "open_yield env cfg reg item m = (case dv_read_dir (wv_dirs env) (wi_path item) of None \<Rightarrow> {#}
     | Some es \<Rightarrow> (case scan_entries env cfg item es dir_scan_new of None \<Rightarrow> {#}
        | Some sc \<Rightarrow> scan_yield env cfg reg item m sc (pending_children sc)))"

fun worker_yield :: "walker_env \<Rightarrow> walker_config \<Rightarrow> protection_registry \<Rightarrow> worker \<Rightarrow> walk_entry multiset" where
  "worker_yield env cfg reg (Opened item m) = open_yield env cfg reg item m"
| "worker_yield env cfg reg (Sending item m sc cs) = scan_yield env cfg reg item m sc cs"
| "worker_yield env cfg reg (Announced it item m sc cs) =
     mset (walk_tree env cfg reg it) + scan_yield env cfg reg item m sc cs"
| "worker_yield env cfg reg _ = {#}"

definition bag :: "walker_env \<Rightarrow> walker_config \<Rightarrow> protection_registry \<Rightarrow> walker_state \<Rightarrow> walk_entry multiset" where
  "bag env cfg reg s = mset (ws_sent s) + mset (walk_all env cfg reg (ws_queue s)) +
     sum_list (map (worker_yield env cfg reg) (ws_workers s))"

lemma mset_concat_map: "mset (concat (map f xs)) = sum_list (map (\<lambda>x. mset (f x)) xs)"
  by (induction xs) simp_all

lemma walk_tree_yield:
  "mset (walk_tree env cfg reg item) = (case dir_gate env cfg reg item of None \<Rightarrow> {#}
     | Some m \<Rightarrow> open_yield env cfg reg item m)"
proof -
  have "mset (case child_output env cfg item sc c of None \<Rightarrow> [] | Some (Report e) \<Rightarrow> [e]
      | Some (Descend it) \<Rightarrow> walk_tree env cfg reg it) = child_yield env cfg reg item sc c" for sc c
    by (simp add: child_yield_def split: option.splits sent_item.splits)
  then show ?thesis
    by (subst walk_tree.simps)
      (simp add: open_yield_def scan_yield_def mset_concat_map split: option.splits)
qed

lemma walk_all_Cons [simp]:
  "mset (walk_all env cfg reg (it # q)) = mset (walk_tree env cfg reg it) + mset (walk_all env cfg reg q)"
  "mset (walk_all env cfg reg []) = {#}"
  by (simp_all add: walk_all_def)

lemma walk_all_snoc [simp]:
  "mset (walk_all env cfg reg (q @ [it])) = mset (walk_all env cfg reg q) + mset (walk_tree env cfg reg it)"
  by (simp add: walk_all_def)

subsection \<open>The registry only protects more\<close>

definition reg_le :: "protection_registry \<Rightarrow> protection_registry \<Rightarrow> bool" where
  "reg_le r r' = (marker_paths r \<subseteq> marker_paths r' \<and> config_patterns r = config_patterns r')"

lemma reg_le_refl [simp]: "reg_le r r" by (simp add: reg_le_def)
lemma reg_le_trans: "reg_le a b \<Longrightarrow> reg_le b c \<Longrightarrow> reg_le a c" by (auto simp: reg_le_def)

lemma is_protected_mono: "reg_le r r' \<Longrightarrow> is_protected env w r p \<Longrightarrow> is_protected env w r' p"
  by (auto simp: is_protected_def matches_marker_def find_marker_ancestor_def matches_config_pattern_def reg_le_def
      find_None_iff)

lemma gate_mono: "reg_le r r' \<Longrightarrow> dir_gate env cfg r' item = Some m \<Longrightarrow> dir_gate env cfg r item = Some m"
  using is_protected_mono [of r r' "wv_protect env" "wv_tree env" "wi_path item"]
  by (auto simp: dir_gate_def split: if_splits)

lemma register_le: "reg_le r (fst (register_marker env w p r))"
  by (auto simp: reg_le_def register_marker_def register_key_def)

lemma act_registry: "walk_act env cfg a s = Some s' \<Longrightarrow> reg_le (ws_registry s) (ws_registry s')"
proof (cases a)
  case (Work i)
  assume "walk_act env cfg a s = Some s'"
  then have "worker_step env cfg i (ws_workers s ! i) s = Some s'" using Work by (simp split: if_splits)
  then show ?thesis
    by (cases "(env, cfg, i, ws_workers s ! i, s)" rule: worker_step.cases)
      (auto simp: worker_effects register_le split: list.splits option.splits sent_item.splits if_splits)
qed (auto split: if_splits worker.splits)

subsection \<open>The steps keep the balance\<close>

lemma bag_worker:
  assumes "i < length (ws_workers s)" "ws_workers s' = (ws_workers s)[i := w']"
  obtains r where "bag env cfg reg s = mset (ws_sent s) + mset (walk_all env cfg reg (ws_queue s)) +
      (r + worker_yield env cfg reg (ws_workers s ! i))"
    "bag env cfg reg s' = mset (ws_sent s') + mset (walk_all env cfg reg (ws_queue s')) + (r + worker_yield env cfg reg w')"
  using sum_replace [OF assms(1), of "worker_yield env cfg reg"] assms(2) by (auto simp: bag_def)

lemma scan_yield_Cons: "scan_yield env cfg reg item m sc (c # cs) =
    child_yield env cfg reg item sc c + scan_yield env cfg reg item m sc cs"
  by (simp add: scan_yield_def ac_simps)

lemma opened_yield:
  "worker_yield env cfg reg (open_item env cfg reg' item) = (case dir_gate env cfg reg' item of None \<Rightarrow> {#}
     | Some m \<Rightarrow> open_yield env cfg reg item m)"
  by (simp add: open_item_def split: option.splits)

lemma worker_bag:
  assumes "worker_step env cfg i (ws_workers s ! i) s = Some s'" and i: "i < length (ws_workers s)"
  shows "reg_le reg (ws_registry s) \<Longrightarrow> bag env cfg reg s' \<subseteq># bag env cfg reg s"
    and "reg_le (ws_registry s) reg \<Longrightarrow> \<not> ws_closed s \<Longrightarrow> bag env cfg reg s \<subseteq># bag env cfg reg s'"
proof -
  have "(reg_le reg (ws_registry s) \<longrightarrow> bag env cfg reg s' \<subseteq># bag env cfg reg s) \<and>
     (reg_le (ws_registry s) reg \<longrightarrow> \<not> ws_closed s \<longrightarrow> bag env cfg reg s \<subseteq># bag env cfg reg s')"
  proof (cases "ws_workers s ! i")
    case Idle
    then obtain item q where q: "ws_queue s = item # q" using assms(1) by (auto split: list.splits)
    define w' where "w' = open_item env cfg (ws_registry s) item"
    have s': "s' = (set_worker i w' s)\<lparr>ws_queue := q\<rparr>" using assms(1) Idle q by (simp add: w'_def)
    obtain r where r: "bag env cfg reg s = mset (ws_sent s) + mset (walk_all env cfg reg (ws_queue s)) + r"
        "bag env cfg reg s' = mset (ws_sent s) + mset (walk_all env cfg reg q) + (r + worker_yield env cfg reg w')"
      using bag_worker [OF i, of s' w' env cfg reg] Idle by (auto simp: s')
    have "reg_le reg (ws_registry s) \<Longrightarrow> worker_yield env cfg reg w' \<subseteq># mset (walk_tree env cfg reg item)"
      unfolding walk_tree_yield w'_def opened_yield
      using gate_mono [of reg "ws_registry s" env cfg item] by (auto split: option.splits)
    moreover have "reg_le (ws_registry s) reg \<Longrightarrow> mset (walk_tree env cfg reg item) \<subseteq># worker_yield env cfg reg w'"
      unfolding walk_tree_yield w'_def opened_yield
      using gate_mono [of "ws_registry s" reg env cfg item] by (auto split: option.splits)
    ultimately show ?thesis unfolding r q by (simp add: ac_simps)
  next
    case (Opened item m)
    define w' where "w' = (case dv_read_dir (wv_dirs env) (wi_path item) of None \<Rightarrow> Finished
      | Some es \<Rightarrow> (case scan_entries env cfg item es dir_scan_new of None \<Rightarrow> Finished
         | Some sc \<Rightarrow> Sending item m sc (pending_children sc)))"
    have s': "ws_workers s' = (ws_workers s)[i := w']" "ws_sent s' = ws_sent s" "ws_queue s' = ws_queue s"
      using assms(1) Opened by (auto simp: read_item_def w'_def split: option.splits)
    have "worker_yield env cfg reg w' = open_yield env cfg reg item m"
      by (simp add: w'_def open_yield_def split: option.splits)
    then show ?thesis using bag_worker [OF i s'(1), of env cfg reg] Opened s' by (metis subset_mset.order_refl worker_yield.simps(1))
  next
    case (Sending item m sc cs)
    show ?thesis
    proof (cases cs)
      case Nil
      obtain w' where w': "ws_workers s' = (ws_workers s)[i := w']" "ws_queue s' = ws_queue s" "w' = Finished"
          "ws_sent s' = ws_sent s @ (if ws_closed s then [] else own_report item m sc)"
        using assms(1) Sending Nil by (auto simp: send_own_def own_report_def split: option.splits)
      obtain r where "bag env cfg reg s = mset (ws_sent s) + mset (walk_all env cfg reg (ws_queue s)) +
          (r + mset (own_report item m sc))"
        "bag env cfg reg s' = mset (ws_sent s') + mset (walk_all env cfg reg (ws_queue s)) + r"
        using bag_worker [OF i w'(1), of env cfg reg] Sending Nil w'(2,3) by (auto simp: scan_yield_def)
      then show ?thesis by (simp add: w'(4) ac_simps)
    next
      case (Cons c cs')
      have step: "s' = send_child env cfg i item m sc c cs' s" using assms(1) Sending Cons by simp
      define y where "y = scan_yield env cfg reg item m sc cs'"
      have yield: "worker_yield env cfg reg (ws_workers s ! i) = child_yield env cfg reg item sc c + y"
        using Sending Cons by (simp add: scan_yield_Cons y_def)
      consider "child_output env cfg item sc c = None" | e where "child_output env cfg item sc c = Some (Report e)"
        | it where "child_output env cfg item sc c = Some (Descend it)"
        by (cases "child_output env cfg item sc c") (auto intro: sent_item.exhaust)
      then show ?thesis
      proof cases
        case 1
        have w': "ws_workers s' = (ws_workers s)[i := Sending item m sc cs']" by (simp add: step send_child_def 1)
        show ?thesis
          by (rule bag_worker [OF i w', of env cfg reg])
            (use 1 yield in \<open>simp add: child_yield_def y_def step send_child_def\<close>)
      next
        case (2 e)
        have w': "ws_workers s' = (ws_workers s)[i := if ws_closed s then Finished else Sending item m sc cs']"
          by (simp add: step send_child_def 2)
        show ?thesis
          by (rule bag_worker [OF i w', of env cfg reg])
            (use 2 yield in \<open>simp add: child_yield_def y_def step send_child_def ac_simps\<close>)
      next
        case (3 it)
        have w': "ws_workers s' = (ws_workers s)[i := Announced it item m sc cs']" by (simp add: step send_child_def 3)
        show ?thesis
          by (rule bag_worker [OF i w', of env cfg reg])
            (use 3 yield in \<open>simp add: child_yield_def y_def step send_child_def\<close>)
      qed
    qed
  next
    case (Announced it item m sc cs)
    then have s': "s' = (set_worker i (Sending item m sc cs) s)\<lparr>ws_queue := ws_queue s @ [it]\<rparr>"
      using assms(1) by simp
    have w': "ws_workers s' = (ws_workers s)[i := Sending item m sc cs]" by (simp add: s')
    show ?thesis by (rule bag_worker [OF i w', of env cfg reg]) (use Announced in \<open>simp add: s' ac_simps\<close>)
  next
    case Finished
    then have s': "s' = (set_worker i Idle s)\<lparr>in_flight := in_flight s - 1\<rparr>" using assms(1) by simp
    have w': "ws_workers s' = (ws_workers s)[i := Idle]" by (simp add: s')
    show ?thesis by (rule bag_worker [OF i w', of env cfg reg]) (use Finished in \<open>simp add: s'\<close>)
  qed (use assms in simp)
  then show "reg_le reg (ws_registry s) \<Longrightarrow> bag env cfg reg s' \<subseteq># bag env cfg reg s"
    and "reg_le (ws_registry s) reg \<Longrightarrow> \<not> ws_closed s \<Longrightarrow> bag env cfg reg s \<subseteq># bag env cfg reg s'" by blast+
qed

lemma idle_bag:
  assumes "i < length (ws_workers s)" "worker_yield env cfg reg (ws_workers s ! i) = y"
  shows "bag env cfg reg s = bag env cfg reg (set_worker i Exited s) + y"
proof -
  have "ws_workers (set_worker i Exited s) = (ws_workers s)[i := Exited]" by simp
  then show ?thesis by (rule bag_worker [OF assms(1), of _ _ env cfg reg]) (simp add: assms(2) ac_simps)
qed

lemma finished_bag: "bag env cfg reg (set_worker i Finished s) = bag env cfg reg (set_worker i Exited s)"
  by (cases "i < length (ws_workers s)") (simp_all add: bag_def set_worker_def map_update)

lemma act_bag:
  assumes "walk_act env cfg a s = Some s'"
  shows "reg_le reg (ws_registry s) \<Longrightarrow> bag env cfg reg s' \<subseteq># bag env cfg reg s"
    and "reg_le (ws_registry s) reg \<Longrightarrow> \<not> ws_closed s' \<Longrightarrow> \<not> ws_cancelled s' \<Longrightarrow>
      bag env cfg reg s \<subseteq># bag env cfg reg s'"
proof -
  have "(reg_le reg (ws_registry s) \<longrightarrow> bag env cfg reg s' \<subseteq># bag env cfg reg s) \<and>
     (reg_le (ws_registry s) reg \<longrightarrow> \<not> ws_closed s' \<longrightarrow> \<not> ws_cancelled s' \<longrightarrow> bag env cfg reg s \<subseteq># bag env cfg reg s')"
  proof (cases a)
    case (Work i)
    then have w: "worker_step env cfg i (ws_workers s ! i) s = Some s'" "i < length (ws_workers s)"
      using assms by (simp_all split: if_splits)
    have "ws_closed s' = ws_closed s"
      using w by (cases "(env, cfg, i, ws_workers s ! i, s)" rule: worker_step.cases)
        (auto simp: worker_effects split: list.splits option.splits sent_item.splits if_splits)
    then show ?thesis using worker_bag [OF w] by auto
  next
    case (Leave i)
    then have "i < length (ws_workers s)" "ws_workers s ! i = Idle" "s' = set_worker i Exited s"
      using assms by (auto split: if_splits)
    then show ?thesis using idle_bag [of i s env cfg reg "{#}"] by simp
  next
    case (Drop i)
    then have d: "i < length (ws_workers s)" "ws_cancelled s" "s' = set_worker i Finished s"
      using assms by (auto split: if_splits worker.splits)
    then show ?thesis using idle_bag [OF d(1) refl, of env cfg reg] finished_bag [of env cfg reg i s] by simp
  qed (use assms in \<open>auto simp: bag_def split: if_splits\<close>)
  then show "reg_le reg (ws_registry s) \<Longrightarrow> bag env cfg reg s' \<subseteq># bag env cfg reg s"
    and "reg_le (ws_registry s) reg \<Longrightarrow> \<not> ws_closed s' \<Longrightarrow> \<not> ws_cancelled s' \<Longrightarrow>
      bag env cfg reg s \<subseteq># bag env cfg reg s'" by blast+
qed

subsection \<open>The end of a walk\<close>

lemma worker_keeps:
  "worker_step env cfg i (ws_workers s ! i) s = Some s' \<Longrightarrow>
   \<exists>w'. ws_workers s' = (ws_workers s)[i := w'] \<and> w' \<noteq> Exited"
  by (cases "(env, cfg, i, ws_workers s ! i, s)" rule: worker_step.cases)
    (auto simp: worker_effects open_item_def deliver_def set_worker_def
      split: list.splits option.splits sent_item.splits if_splits)

definition settled :: "walker_state \<Rightarrow> bool" where
  "settled s = (ws_cancelled s \<or> Exited \<notin> set (ws_workers s) \<or> load s = 0)"

lemma idle_stuck: "load s = 0 \<Longrightarrow> i < length (ws_workers s) \<Longrightarrow> worker_step env cfg i (ws_workers s ! i) s = None"
proof -
  assume l: "load s = 0" "i < length (ws_workers s)"
  then have "weight (ws_workers s ! i) = 0" "ws_queue s = []" by (auto simp: load_def)
  then show ?thesis by (cases "ws_workers s ! i") auto
qed

lemma act_settled:
  assumes "walk_act env cfg a s = Some s'" "settled s" "flight_ok s" "fits s"
  shows "settled s'"
proof (cases a)
  case (Work i)
  then have w: "worker_step env cfg i (ws_workers s ! i) s = Some s'" "i < length (ws_workers s)"
    using assms(1) by (simp_all split: if_splits)
  then have "ws_cancelled s \<or> Exited \<notin> set (ws_workers s)" using assms(2) idle_stuck by (fastforce simp: settled_def)
  moreover have "ws_cancelled s' = ws_cancelled s"
    using w by (cases "(env, cfg, i, ws_workers s ! i, s)" rule: worker_step.cases)
      (auto simp: worker_effects split: list.splits option.splits sent_item.splits if_splits)
  moreover have "Exited \<in> set (ws_workers s') \<Longrightarrow> Exited \<in> set (ws_workers s)"
    using worker_keeps [OF w(1)] set_update_subset_insert [of "ws_workers s" i] by fastforce
  ultimately show ?thesis by (auto simp: settled_def)
next
  case (Leave i)
  then have l: "i < length (ws_workers s)" "ws_workers s ! i = Idle" "s' = set_worker i Exited s"
      "ws_cancelled s \<or> in_flight s = 0" using assms(1) by (auto split: if_splits)
  have "load s' = load s"
    using sum_replace [OF l(1), of weight] l(2,3) by (metis (no_types, lifting) load_def set_worker_simps(1,2) weight.simps(1,6))
  moreover have "in_flight s = 0 \<Longrightarrow> load s = 0"
    using assms(3,4) word_of_nat_0 [of "load s"] by (simp add: flight_ok_def fits_def)
  ultimately show ?thesis using l(3,4) by (auto simp: settled_def)
next
  case (Drop i)
  then show ?thesis using assms(1) by (auto simp: settled_def split: if_splits worker.splits)
qed (use assms in \<open>auto simp: settled_def load_def split: if_splits\<close>)

definition walk_inv :: "protection_registry \<Rightarrow> walker_state \<Rightarrow> bool" where
  "walk_inv reg s = (flight_ok s \<and> fits s \<and> settled s \<and> reg_le reg (ws_registry s) \<and> ws_workers s \<noteq> [])"

lemma act_workers: "walk_act env cfg a s = Some s' \<Longrightarrow> length (ws_workers s') = length (ws_workers s)"
proof (cases a)
  case (Work i)
  assume "walk_act env cfg a s = Some s'"
  then show ?thesis using worker_keeps [of env cfg i s s'] Work by (auto split: if_splits)
qed (auto split: if_splits worker.splits)

lemma stream_inv:
  assumes "stream env cfg reg = Inr s0" "fits s0"
  shows "walk_inv reg s0"
proof -
  obtain items where s0: "s0 = walk_init cfg reg items"
    using assms(1) by (cases "seed_items env cfg (root_paths cfg)") (auto simp: stream_def)
  have "unat (max 1 (parallelism cfg)) \<noteq> 0" by (auto simp: unat_eq_0 max_def)
  then show ?thesis
    using init_flight [of cfg reg items] assms(2)
    by (auto simp: walk_inv_def s0 settled_def) (auto simp: walk_init_def)
qed

lemma reach_inv: "walk_reach E cfg s0 s \<Longrightarrow> walk_inv reg s0 \<Longrightarrow> walk_inv reg s"
proof (induction rule: walk_reach.induct)
  case (walk_more s s')
  then obtain env a where a: "walk_act env cfg a s = Some s'" and i: "walk_inv reg s" by (auto simp: walk_step_def)
  have "length (ws_workers s') = length (ws_workers s)" using act_workers [OF a] .
  then have "ws_workers s' \<noteq> []" using i by (auto simp: walk_inv_def)
  moreover have "reg_le reg (ws_registry s')"
    using i act_registry [OF a] by (auto simp: walk_inv_def intro: reg_le_trans)
  ultimately show ?case
    using walk_more.hyps(3) act_settled [OF a] act_flight [OF a] i by (simp add: walk_inv_def)
qed

lemma done_empty: "walk_inv reg s \<Longrightarrow> \<forall>w \<in> set (ws_workers s). w = Exited \<Longrightarrow> \<not> ws_cancelled s \<Longrightarrow> ws_queue s = []"
  by (cases "ws_workers s") (auto simp: walk_inv_def settled_def load_def)

lemma sum_empty [simp]: "sum_list (replicate n {#}) = {#}"
  by (induction n) simp_all

lemma done_bag:
  "ws_queue s = [] \<Longrightarrow> \<forall>w \<in> set (ws_workers s). w = Exited \<Longrightarrow> bag env cfg reg s = mset (ws_sent s)"
proof -
  assume a: "ws_queue s = []" "\<forall>w \<in> set (ws_workers s). w = Exited"
  then have "map (worker_yield env cfg reg) (ws_workers s) = map (\<lambda>_. {#}) (ws_workers s)" by (intro map_cong) auto
  then show ?thesis using a(1) by (simp add: bag_def map_replicate_const)
qed

lemma start_bag: "stream env0 cfg reg0 = Inr s0 \<Longrightarrow> bag env cfg reg s0 = mset (walk_all env cfg reg (ws_queue s0))"
  by (cases "seed_items env0 cfg (root_paths cfg)")
    (auto simp: stream_def bag_def walk_init_def)

lemma reach_upper: "walk_reach {env} cfg s0 s \<Longrightarrow> walk_inv reg s0 \<Longrightarrow> bag env cfg reg s \<subseteq># bag env cfg reg s0"
proof (induction rule: walk_reach.induct)
  case (walk_more s s')
  then obtain a where a: "walk_act env cfg a s = Some s'" by (auto simp: walk_step_def)
  have "reg_le reg (ws_registry s)" using reach_inv [OF walk_more.hyps(1) walk_more.prems] by (simp add: walk_inv_def)
  then have "bag env cfg reg s' \<subseteq># bag env cfg reg s" by (rule act_bag(1) [OF a])
  then show ?case using walk_more.IH [OF walk_more.prems] by (rule subset_mset.order_trans)
qed simp

lemma act_flags: "walk_act env cfg a s = Some s' \<Longrightarrow> (ws_cancelled s \<longrightarrow> ws_cancelled s') \<and> (ws_closed s \<longrightarrow> ws_closed s')"
proof (cases a)
  case (Work i)
  assume "walk_act env cfg a s = Some s'"
  then have "worker_step env cfg i (ws_workers s ! i) s = Some s'" using Work by (simp split: if_splits)
  then show ?thesis
    by (cases "(env, cfg, i, ws_workers s ! i, s)" rule: worker_step.cases)
      (auto simp: worker_effects split: list.splits option.splits sent_item.splits if_splits)
qed (auto split: if_splits worker.splits)

lemma reach_lower:
  "walk_reach {env} cfg s0 s \<Longrightarrow> reg_le (ws_registry s) reg \<Longrightarrow> \<not> ws_cancelled s \<Longrightarrow> \<not> ws_closed s \<Longrightarrow>
   bag env cfg reg s0 \<subseteq># bag env cfg reg s"
proof (induction rule: walk_reach.induct)
  case (walk_more s s')
  then obtain a where a: "walk_act env cfg a s = Some s'" by (auto simp: walk_step_def)
  have le: "reg_le (ws_registry s) reg" using act_registry [OF a] walk_more.prems(1) by (rule reg_le_trans)
  have "bag env cfg reg s0 \<subseteq># bag env cfg reg s"
    using walk_more.IH [OF le] act_flags [OF a] walk_more.prems by blast
  also have "bag env cfg reg s \<subseteq># bag env cfg reg s'" using act_bag(2) [OF a le] walk_more.prems by blast
  finally show ?case .
qed simp

text \<open>C13: When the threads of an undisturbed walk have all returned, the scanner has received, with
  multiplicities, at most what the sequential traversal reports with the registry the walk started with and at
  least what it reports with the registry the walk ended with, whatever the schedule; so without new markers it
  has received exactly what the sequential traversal reports.\<close>

theorem walk_reports:
  assumes "stream env cfg reg = Inr s0" "fits s0" "walk_reach {env} cfg s0 s"
    "\<forall>w \<in> set (ws_workers s). w = Exited" "\<not> ws_cancelled s" "\<not> ws_closed s"
  shows "mset (walk_all env cfg (ws_registry s) (ws_queue s0)) \<subseteq># mset (ws_sent s) \<and>
    mset (ws_sent s) \<subseteq># mset (walk_all env cfg reg (ws_queue s0))"
proof -
  have inv: "walk_inv reg s0" by (rule stream_inv [OF assms(1,2)])
  have "ws_queue s = []" using done_empty [OF reach_inv [OF assms(3) inv] assms(4,5)] .
  then have e: "bag env cfg r s = mset (ws_sent s)" for r using done_bag assms(4) by blast
  show ?thesis
    using reach_upper [OF assms(3) inv] reach_lower [OF assms(3) reg_le_refl assms(5,6)]
    unfolding e start_bag [OF assms(1)] by blast
qed


subsection \<open>Where a walk goes\<close>

definition plain_names :: "walker_env set \<Rightarrow> bool" where
  "plain_names E = (\<forall>env \<in> E. \<forall>p es e. dv_read_dir (wv_dirs env) p = Some es \<longrightarrow> Some e \<in> set es \<longrightarrow> plain_name (de_name e))"

text \<open>A place below a root: the names on the way, none of them a repository when trees are pruned.\<close>

definition below_root ::
  "walker_config \<Rightarrow> work_item list \<Rightarrow> path \<Rightarrow> usize \<Rightarrow> u64 \<Rightarrow> string list \<Rightarrow> bool" where
  "below_root cfg items p depth dev names =
     (\<exists>r \<in> set items. components p = components (wi_path r) @ map Normal names \<and> dev = root_device_id r \<and>
        length names = unat depth \<and> depth \<le> max_depth cfg \<and>
        (\<forall>j. 0 < j \<and> j \<le> length names \<longrightarrow> components (wi_path r) @ map Normal (take j names) \<notin> excluded_paths cfg) \<and>
        (opaque_pruning cfg \<longrightarrow> (\<forall>n \<in> set names. to_lower n \<noteq> ''.git'')))"

definition item_below :: "walker_config \<Rightarrow> work_item list \<Rightarrow> work_item \<Rightarrow> bool" where
  "item_below cfg items it = (\<exists>names. below_root cfg items (wi_path it) (wi_depth it) (root_device_id it) names)"

definition unprotected :: "walker_env set \<Rightarrow> protection_registry \<Rightarrow> path \<Rightarrow> bool" where
  "unprotected E reg p = (\<exists>env \<in> E. \<not> is_protected (wv_protect env) (wv_tree env) reg p)"

definition item_open :: "walker_env set \<Rightarrow> walker_config \<Rightarrow> protection_registry \<Rightarrow> work_item list \<Rightarrow> work_item \<Rightarrow> file_meta option \<Rightarrow> bool" where
  "item_open E cfg reg items it m = (item_below cfg items it \<and> unprotected E reg (wi_path it) \<and>
     (\<forall>meta. m = Some meta \<longrightarrow> enters cfg it meta))"

definition child_below :: "walker_config \<Rightarrow> work_item list \<Rightarrow> work_item \<Rightarrow> path \<Rightarrow> bool" where
  "child_below cfg items it c = (wi_depth it < max_depth cfg \<and> components c \<notin> excluded_paths cfg \<and>
     (\<exists>n. components c = components (wi_path it) @ [Normal n]))"

definition opaque_report :: "walk_entry \<Rightarrow> bool" where
  "opaque_report e = (\<exists>op. we_opaque e = Some op \<and> disposition op = CandidateOpaque)"

definition entry_below ::
  "walker_env set \<Rightarrow> walker_config \<Rightarrow> protection_registry \<Rightarrow> work_item list \<Rightarrow> walk_entry \<Rightarrow> bool" where
  "entry_below E cfg reg items e = (\<exists>names dev. below_root cfg items (we_path e) (we_depth e) dev names \<and> names \<noteq> [] \<and>
     (cross_devices cfg \<or> em_device (we_metadata e) = dev) \<and> (opaque_report e \<or> unprotected E reg (we_path e)))"

fun worker_below ::
  "walker_env set \<Rightarrow> walker_config \<Rightarrow> protection_registry \<Rightarrow> work_item list \<Rightarrow> worker \<Rightarrow> bool" where
  "worker_below E cfg reg items (Opened it m) = item_open E cfg reg items it m"
| "worker_below E cfg reg items (Sending it m sc cs) = (item_open E cfg reg items it m \<and> (\<forall>c \<in> set cs. child_below cfg items it c))"
| "worker_below E cfg reg items (Announced new it m sc cs) = (item_below cfg items new \<and> item_open E cfg reg items it m \<and>
     (\<forall>c \<in> set cs. child_below cfg items it c))"
| "worker_below E cfg reg items _ = True"

definition all_below :: "walker_env set \<Rightarrow> walker_config \<Rightarrow> protection_registry \<Rightarrow> work_item list \<Rightarrow> walker_state \<Rightarrow> bool" where
  "all_below E cfg reg items s = ((\<forall>it \<in> set (ws_queue s). item_below cfg items it) \<and>
     (\<forall>w \<in> set (ws_workers s). worker_below E cfg reg items w) \<and>
     (\<forall>e \<in> set (ws_sent s). entry_below E cfg reg items e) \<and> reg_le reg (ws_registry s))"

lemma entry_metadata_device [simp]: "em_device (entry_metadata_of m) = fm_dev m"
  by (simp add: entry_metadata_of_def)

lemma below_child:
  assumes "item_below cfg items it" "child_below cfg items it c"
    "child_output env cfg it sc c \<noteq> None"
  shows "\<exists>names. names \<noteq> [] \<and> below_root cfg items c (wi_depth it + 1) (root_device_id it) names"
proof -
  obtain names where n: "below_root cfg items (wi_path it) (wi_depth it) (root_device_id it) names"
    using assms(1) by (auto simp: item_below_def)
  obtain m where m: "components c = components (wi_path it) @ [Normal m]"
    and d: "wi_depth it < max_depth cfg" and x: "components c \<notin> excluded_paths cfg"
    using assms(2) by (auto simp: child_below_def)
  have "to_lower m \<noteq> ''.git''" if "opaque_pruning cfg"
  proof
    assume g: "to_lower m = ''.git''"
    have "file_name c = Some m" by (simp add: file_name_def comps_file_name_def m)
    then show False
      using assms(3) g that
      by (simp add: child_output_def child_class_def classify_opaque_tree_def opaque_protected_def Let_def)
  qed
  moreover have "unat (wi_depth it + 1) = unat (wi_depth it) + 1" "wi_depth it + 1 \<le> max_depth cfg"
    using d by (unat_arith, simp add: inc_le)
  moreover obtain r where r: "r \<in> set items" "components (wi_path it) = components (wi_path r) @ map Normal names"
      "root_device_id it = root_device_id r" "length names = unat (wi_depth it)"
      "\<forall>j. 0 < j \<and> j \<le> length names \<longrightarrow> components (wi_path r) @ map Normal (take j names) \<notin> excluded_paths cfg"
      "opaque_pruning cfg \<longrightarrow> (\<forall>n \<in> set names. to_lower n \<noteq> ''.git'')"
    using n by (auto simp: below_root_def)
  moreover have "components (wi_path r) @ map Normal (take j (names @ [m])) \<notin> excluded_paths cfg"
    if "0 < j" "j \<le> length (names @ [m])" for j
    using that r(2,5) m x by (cases "j = length (names @ [m])") (auto simp: not_le less_Suc_eq_le)
  ultimately have "below_root cfg items c (wi_depth it + 1) (root_device_id it) (names @ [m])"
    using m unfolding below_root_def by (intro bexI [of _ r]) auto
  then show ?thesis by blast
qed

lemma child_item:
  "child_output env cfg it sc c = Some (Descend new) \<Longrightarrow>
   wi_path new = c \<and> wi_depth new = wi_depth it + 1 \<and> root_device_id new = root_device_id it"
  by (auto simp: child_output_def Let_def split: option.splits opaque_tree_disposition.splits sum.splits if_splits)

lemma child_report:
  "child_output env cfg it sc c = Some (Report e) \<Longrightarrow>
   we_path e = c \<and> we_depth e = wi_depth it + 1 \<and> opaque_report e \<and>
   (cross_devices cfg \<or> em_device (we_metadata e) = root_device_id it)"
  by (auto simp: child_output_def opaque_report_def opaque_entry_def enters_def Let_def
      split: option.splits opaque_tree_disposition.splits sum.splits if_splits)

lemma child_yields:
  assumes "item_open E cfg reg items it m" "child_below cfg items it c"
  shows "child_output env cfg it sc c = Some (Descend new) \<Longrightarrow> item_below cfg items new"
    and "child_output env cfg it sc c = Some (Report e) \<Longrightarrow> entry_below E cfg reg items e"
  using below_child [of cfg items it c env sc] assms child_item [of env cfg it sc c new] child_report [of env cfg it sc c e]
  by (auto simp: item_open_def item_below_def entry_below_def)

lemma own_below:
  assumes "item_open E cfg reg items it (Some meta)" "wi_depth it > 0"
  shows "entry_below E cfg reg items (own_entry it sc meta)"
proof -
  obtain names where "below_root cfg items (wi_path it) (wi_depth it) (root_device_id it) names"
    using assms(1) by (auto simp: item_open_def item_below_def)
  moreover from this have "names \<noteq> []" using assms(2) by (auto simp: below_root_def word_neq_0_conv [symmetric] unat_eq_0)
  moreover have "we_path (own_entry it sc meta) = wi_path it" "we_depth (own_entry it sc meta) = wi_depth it"
    "em_device (we_metadata (own_entry it sc meta)) = fm_dev meta"
    by (simp_all add: own_entry_def Let_def)
  ultimately show ?thesis using assms(1) unfolding entry_below_def item_open_def enters_def by metis
qed

lemma scan_below:
  assumes "plain_names E" "env \<in> E" "dv_read_dir (wv_dirs env) (wi_path it) = Some es"
    "scan_entries env cfg it es dir_scan_new = Some sc" "c \<in> set (pending_children sc)"
  shows "child_below cfg items it c"
  using scan_pending [OF assms(4,5)] assms(1-3) components_join
  unfolding child_below_def plain_names_def by (fastforce simp: dir_scan_new_def)

lemma gate_open:
  assumes "env \<in> E" "item_below cfg items it" "reg_le reg reg'" "dir_gate env cfg reg' it = Some m"
  shows "item_open E cfg reg items it m"
proof -
  have g: "dir_gate env cfg reg it = Some m" by (rule gate_mono [OF assms(3,4)])
  then have "unprotected E reg (wi_path it)" using assms(1) by (auto simp: unprotected_def dir_gate_def split: if_splits)
  then show ?thesis using g assms(2) by (auto simp: item_open_def dir_gate_def split: if_splits sum.splits)
qed

lemma all_below_update:
  assumes "all_below E cfg reg items s" "ws_workers s' = (ws_workers s)[i := w']" "worker_below E cfg reg items w'"
    "\<forall>it \<in> set (ws_queue s'). it \<in> set (ws_queue s) \<or> item_below cfg items it"
    "\<forall>e \<in> set (ws_sent s'). e \<in> set (ws_sent s) \<or> entry_below E cfg reg items e"
    "reg_le (ws_registry s) (ws_registry s')"
  shows "all_below E cfg reg items s'"
  using assms set_update_subset_insert [of "ws_workers s" i w'] reg_le_trans
  unfolding all_below_def by fastforce

lemma worker_all_below:
  assumes plain: "plain_names E" and env: "env \<in> E" and i: "i < length (ws_workers s)"
    and step: "worker_step env cfg i (ws_workers s ! i) s = Some s'" and ok: "all_below E cfg reg items s"
  shows "all_below E cfg reg items s'"
proof -
  have w: "worker_below E cfg reg items (ws_workers s ! i)" using ok i by (auto simp: all_below_def)
  have le: "reg_le (ws_registry s) (ws_registry s')"
    using act_registry [of env cfg "Work i" s s'] step i by simp
  show ?thesis
  proof (cases "ws_workers s ! i")
    case Idle
    then obtain it q where q: "ws_queue s = it # q" using step by (auto split: list.splits)
    have "item_below cfg items it" "reg_le reg (ws_registry s)" using ok q by (auto simp: all_below_def)
    then have "worker_below E cfg reg items (open_item env cfg (ws_registry s) it)"
      using gate_open [OF env] by (auto simp: open_item_def split: option.splits)
    then show ?thesis using step Idle q le by (intro all_below_update [OF ok]) auto
  next
    case (Opened it m)
    show ?thesis
    proof (cases "\<exists>es sc. dv_read_dir (wv_dirs env) (wi_path it) = Some es \<and> scan_entries env cfg it es dir_scan_new = Some sc")
      case True
      then obtain es sc where e: "dv_read_dir (wv_dirs env) (wi_path it) = Some es"
        "scan_entries env cfg it es dir_scan_new = Some sc" by blast
      have "worker_below E cfg reg items (Sending it m sc (pending_children sc))"
        using w Opened scan_below [OF plain env e] by auto
      then show ?thesis using step Opened e le by (intro all_below_update [OF ok]) (auto simp: read_item_def)
    next
      case False
      show ?thesis using step Opened False le
        by (intro all_below_update [OF ok, where i = i and w' = Finished]) (auto simp: read_item_def split: option.splits)
    qed
  next
    case (Sending it m sc cs)
    show ?thesis
    proof (cases cs)
      case Nil
      have "entry_below E cfg reg items (own_entry it sc meta)" if "m = Some meta" "wi_depth it > 0" for meta
        using own_below w Sending that by auto
      then show ?thesis using step Sending Nil le
        by (intro all_below_update [OF ok, where i = i and w' = Finished])
          (auto simp: send_own_def split: option.splits if_splits)
    next
      case (Cons c cs')
      have ok': "item_open E cfg reg items it m" "child_below cfg items it c" "\<forall>c \<in> set cs'. child_below cfg items it c"
        using w Sending Cons by auto
      note yields = child_yields [OF ok'(1,2), of env sc]
      define w' where "w' = (case child_output env cfg it sc c of Some (Descend new) \<Rightarrow> Announced new it m sc cs'
        | Some (Report e) \<Rightarrow> (if ws_closed s then Finished else Sending it m sc cs') | None \<Rightarrow> Sending it m sc cs')"
      have "worker_below E cfg reg items w'"
        using ok' yields by (auto simp: w'_def split: option.splits sent_item.splits)
      then show ?thesis using step Sending Cons le yields
        by (intro all_below_update [OF ok, where i = i and w' = w'])
          (auto simp: send_child_def w'_def split: option.splits sent_item.splits if_splits)
    qed
  next
    case (Announced new it m sc cs)
    then show ?thesis using step w le
      by (intro all_below_update [OF ok, where i = i and w' = "Sending it m sc cs"]) auto
  next
    case Finished
    then show ?thesis using step le by (intro all_below_update [OF ok, where i = i and w' = Idle]) auto
  qed (use step in simp)
qed

lemma act_all_below:
  assumes "plain_names E" "env \<in> E" "walk_act env cfg a s = Some s'" "all_below E cfg reg items s"
  shows "all_below E cfg reg items s'"
proof (cases a)
  case (Work i)
  then show ?thesis using assms worker_all_below [OF assms(1,2)] by (auto split: if_splits)
next
  case (Leave i)
  then show ?thesis using assms by (intro all_below_update [OF assms(4), where i = i and w' = Exited]) (auto split: if_splits)
next
  case (Drop i)
  then show ?thesis using assms
    by (intro all_below_update [OF assms(4), where i = i and w' = Finished]) (auto split: if_splits worker.splits)
qed (use assms in \<open>auto simp: all_below_def split: if_splits\<close>)

lemma reach_all_below:
  "walk_reach E cfg s0 s \<Longrightarrow> plain_names E \<Longrightarrow> all_below E cfg reg items s0 \<Longrightarrow> all_below E cfg reg items s"
  by (induction rule: walk_reach.induct) (auto simp: walk_step_def intro: act_all_below)

definition is_root :: "walker_env \<Rightarrow> walker_config \<Rightarrow> work_item \<Rightarrow> bool" where
  "is_root env cfg it = (wi_path it \<in> set (root_paths cfg) \<and> wi_depth it = 0 \<and>
     (\<exists>m. metadata_for_path env (wi_path it) (follow_symlinks cfg) = Inr m \<and> fm_kind m = KDirectory \<and> root_device_id it = fm_dev m))"

lemma seed_roots:
  "seed_items env cfg rs = Inr items \<Longrightarrow> set rs \<subseteq> set (root_paths cfg) \<Longrightarrow> it \<in> set items \<Longrightarrow> is_root env cfg it"
proof (induction rs arbitrary: items)
  case (Cons r rs)
  then show ?case
    by (cases "seed_items env cfg rs") (auto simp: is_root_def split: sum.splits if_splits)
qed simp

lemma stream_below:
  assumes "stream env cfg reg = Inr s0"
  shows "all_below E cfg reg (ws_queue s0) s0 \<and> (\<forall>it \<in> set (ws_queue s0). is_root env cfg it)"
proof -
  obtain items where i: "seed_items env cfg (root_paths cfg) = Inr items" "s0 = walk_init cfg reg items"
    using assms by (cases "seed_items env cfg (root_paths cfg)") (auto simp: stream_def)
  have roots: "\<forall>it \<in> set items. is_root env cfg it" using seed_roots [OF i(1)] by blast
  have "item_below cfg items it" if "it \<in> set items" for it
    using roots that by (auto simp: item_below_def below_root_def is_root_def intro!: exI [of _ "[]"])
  then show ?thesis using roots by (auto simp: i(2) walk_init_def all_below_def)
qed

text \<open>C12: Even when the file system changes during the walk, every entry the scanner receives lies
  properly below a configured root, no deeper than the limit, neither it nor a directory on the way from the root
  is an excluded path and, when links to other devices are not to be followed, it is on the device its root was on; no repository is entered when trees are
  pruned; and the entry was not protected by the registry the walk started with, unless it is an opaque tree,
  for which the registry is never asked.\<close>

theorem walk_confined:
  assumes "stream env cfg reg = Inr s0" "walk_reach E cfg s0 s" "plain_names E" "e \<in> set (ws_sent s)"
  shows "\<exists>r names m. r \<in> set (root_paths cfg) \<and> components (we_path e) = components r @ map Normal names \<and>
     names \<noteq> [] \<and> length names = unat (we_depth e) \<and> we_depth e \<le> max_depth cfg \<and>
     (\<forall>j. 0 < j \<and> j \<le> length names \<longrightarrow> components r @ map Normal (take j names) \<notin> excluded_paths cfg) \<and>
     metadata_for_path env r (follow_symlinks cfg) = Inr m \<and>
     (cross_devices cfg \<or> em_device (we_metadata e) = fm_dev m) \<and>
     (opaque_pruning cfg \<longrightarrow> (\<forall>n \<in> set names. to_lower n \<noteq> ''.git'')) \<and>
     (opaque_report e \<or> (\<exists>env \<in> E. \<not> is_protected (wv_protect env) (wv_tree env) reg (we_path e)))"
proof -
  note start = stream_below [OF assms(1)]
  have "all_below E cfg reg (ws_queue s0) s" using reach_all_below [OF assms(2,3)] start by blast
  then have "entry_below E cfg reg (ws_queue s0) e" using assms(4) by (auto simp: all_below_def)
  then show ?thesis
    using start unfolding entry_below_def below_root_def is_root_def unprotected_def by metis
qed

end
