(* ===== verification/Scan_Pass.thy ===== *)
theory Scan_Pass
  imports Scan_Pacing Walker_Spec
begin

section \<open>From an entry of the walk to a candidate (src/src/daemon/loop_main.rs)\<close>

text \<open>
  What the scanner thread does with the entries of a walk: classification, the age that counts, the search
  for processes that use a candidate, three rounds of scoring, and the cursor that leaves out directories
  after a pass that ran out of time. What the system answers for an entry is an argument, and so is the order
  in which a hash map is visited; statistics, log lines and the persistent candidate index (its answer is an
  argument) are left out.
\<close>

subsection \<open>The age of a candidate\<close>

definition temp_fast_track_min_observed_age :: duration where
  "temp_fast_track_min_observed_age = secs 120"

definition temp_root_text :: "string \<Rightarrow> bool" where
  "temp_root_text p = (p = ''/tmp'' \<or> starts_with p ''/tmp/'' \<or> p = ''/var/tmp'' \<or> starts_with p ''/var/tmp/''
     \<or> p = ''/data/tmp'' \<or> starts_with p ''/data/tmp/'' \<or> p = ''/private/tmp'' \<or> starts_with p ''/private/tmp/'')"

definition is_named_in_tree_rch_target :: "artifact_classification \<Rightarrow> bool" where
  "is_named_in_tree_rch_target c = (pattern_name c \<in> {''rch-target-bare-dot'', ''rch-target-bare-dot-underscore'',
     ''rch-target-bare-hyphen'', ''rch-target-bare-underscore''})"

definition fast_track_patterns :: "string list" where
  "fast_track_patterns = [''cargo-target-prefix'', ''target-suffix'', ''dot-target-prefix'', ''underscore-target-prefix'',
     ''frankenterm-prefix'', ''cargo-home-prefix'', ''dot-cargo-prefix'', ''agent-ft-suffix'', ''tmp-cargo-home'',
     ''rch-cargo-home'', ''tmp-codex'', ''tmp-pijs'', ''tmp-ext'', ''pi-agent'', ''pi-target'', ''pi-opus'',
     ''cass-target'', ''br-build'', ''rch-target-underscore'', ''rch-target-dot'', ''rch-target-hyphen'',
     ''rch-target-bare-dot'', ''rch-target-bare-dot-underscore'', ''rch-target-bare-hyphen'',
     ''rch-target-bare-underscore'', ''target-codex'']"

definition should_fast_track_temp_age :: "pressure_level \<Rightarrow> path \<Rightarrow> artifact_classification \<Rightarrow> bool" where
  "should_fast_track_temp_age lvl p c =
     (if lvl < Orange then False
      else if category c = UnknownCategory then False
      else if \<not> temp_root_text p \<and> \<not> is_named_in_tree_rch_target c then False
      else if category c \<in> {NodeModules, PythonCache} then False
      else if category c \<in> {RustTarget, BuildOutput, CacheDir, GoCache, AgentWorkspace, TempDir} then True
      else if lit (85/100) \<le> name_confidence c then True
      else pattern_name c \<in> set fast_track_patterns)"

definition adjusted_candidate_age ::
  "duration \<Rightarrow> u64 \<Rightarrow> pressure_level \<Rightarrow> path \<Rightarrow> artifact_classification \<Rightarrow> duration" where
  "adjusted_candidate_age observed min_minutes lvl p c =
     (if \<not> should_fast_track_temp_age lvl p c then observed
      else if observed < temp_fast_track_min_observed_age then observed
      else max observed (secs (unat (sat_mul min_minutes 60))))"

subsection \<open>The probe for processes\<close>

record active_reference_scan_config =
  cache_ttl_probe :: duration
  min_candidate_size_bytes :: u64

definition should_probe :: "active_reference_scan_config \<Rightarrow> u64 \<Rightarrow> bool" where
  "should_probe c n = (min_candidate_size_bytes c = 0 \<or> min_candidate_size_bytes c \<le> n)"

definition active_reference_scan_budget :: "target_os \<Rightarrow> duration" where
  "active_reference_scan_budget os = (if os = MacOs then secs 13 else secs 5)"

text \<open>\<open>checked_add\<close> cannot overflow for a clock reading in range.\<close>

definition has_active_reference_scan_budget :: "instant \<Rightarrow> instant \<Rightarrow> duration \<Rightarrow> bool" where
  "has_active_reference_scan_budget now deadline reserve = (now + reserve \<le> deadline)"

definition active_reference_budget_skip_reason :: string where
  "active_reference_budget_skip_reason =
     ''active-reference scan skipped because scan budget remaining was insufficient''"

definition mark_active_reference_budget_incomplete :: "candidate_input \<Rightarrow> candidate_input" where
  "mark_active_reference_budget_incomplete i =
     i\<lparr>active_refs := mark_incomplete active_reference_budget_skip_reason (active_refs i)\<rparr>"

subsection \<open>One entry\<close>

text \<open>What is fixed for a pass: the engine, the names, the catalog, the request and the platform's functions.\<close>

record scan_context =
  sp_fexp :: "f64 \<Rightarrow> f64"
  sp_fln :: "f64 \<Rightarrow> f64"
  sp_engine :: scoring_engine
  sp_registry :: artifact_pattern_registry
  sp_os :: target_os
  sp_lowercase :: "string \<Rightarrow> string"
  sp_home :: "string option"
  sp_min_minutes :: u64
  sp_level :: pressure_level
  sp_urgency :: f64
  sp_probe :: active_reference_scan_config
  sp_deadline :: instant
  sp_catalog :: "sacred_path list"

text \<open>What the system answers for an entry: the wall clock, whether it holds a repository, the clock at the probe,
  the open paths and references known to the pass, the environment of the search for sacred entries, and
  whether the candidate index holds the candidate back.\<close>

record entry_view =
  ev_now :: int
  ev_git :: bool
  ev_probe_at :: instant
  ev_open :: "path_key set"
  ev_refs :: "fs_identity \<Rightarrow> active_references"
  ev_protect :: protect_env
  ev_tree :: tree
  ev_backoff :: "candidacy_score \<Rightarrow> bool"

definition observed_age :: "entry_view \<Rightarrow> walk_entry \<Rightarrow> duration" where
  "observed_age v e = (let t = effective_age_timestamp (we_metadata e) in if t \<le> ev_now v then nat (ev_now v - t) else 0)"

definition entry_class :: "scan_context \<Rightarrow> walk_entry \<Rightarrow> artifact_classification option" where
  "entry_class ctx e = (case we_opaque e of
       Some op \<Rightarrow> if disposition op = CandidateOpaque then Some (opaque_class op) else None
     | None \<Rightarrow> Some (classify (sp_os ctx) (sp_lowercase ctx) (sp_home ctx) (sp_registry ctx) (we_path e) (structural_signals e)))"

definition entry_input :: "scan_context \<Rightarrow> entry_view \<Rightarrow> walk_entry \<Rightarrow> artifact_classification \<Rightarrow> candidate_input" where
  "entry_input ctx v e c = \<lparr>in_path = we_path e, in_size_bytes = content_size_bytes (we_metadata e),
     in_age = adjusted_candidate_age (observed_age v e) (sp_min_minutes ctx) (sp_level ctx) (we_path e) c,
     in_classification = c, signals = structural_signals e, active_refs = no_references, is_open = False, excluded = False\<rparr>"

definition probe_input :: "scan_context \<Rightarrow> entry_view \<Rightarrow> walk_entry \<Rightarrow> candidate_input \<Rightarrow> candidate_input" where
  "probe_input ctx v e i =
     (if has_active_reference_scan_budget (ev_probe_at v) (sp_deadline ctx) (active_reference_scan_budget (sp_os ctx))
      then let refs = ev_refs v (identity (we_metadata e))
        in i\<lparr>active_refs := refs, is_open := (\<not> references_is_empty refs \<or> components (we_path e) \<in> ev_open v)\<rparr>
      else mark_active_reference_budget_incomplete i)"

definition wanted :: "candidacy_score \<Rightarrow> bool" where
  "wanted s = (out_action (decision s) = Delete \<and> \<not> vetoed s)"

text \<open>The rounds of scoring; \<open>None\<close> when the search for sacred entries fails.\<close>

definition score_with :: "scan_context \<Rightarrow> candidate_input \<Rightarrow> sacred_overlap list \<Rightarrow> candidacy_score" where
  "score_with ctx i ovs =
     score_candidate_with_sacred_overlaps (sp_fexp ctx) (sp_fln ctx) (sp_engine ctx) i (sp_urgency ctx) ovs"

definition probed_input :: "scan_context \<Rightarrow> entry_view \<Rightarrow> walk_entry \<Rightarrow> candidate_input \<Rightarrow> candidate_input" where
  "probed_input ctx v e i = (if wanted (score_with ctx i []) \<and> should_probe (sp_probe ctx) (in_size_bytes i)
     then probe_input ctx v e i else i)"

definition score_entry :: "scan_context \<Rightarrow> entry_view \<Rightarrow> walk_entry \<Rightarrow> candidate_input \<Rightarrow> candidacy_score option" where
  "score_entry ctx v e i =
     (let i1 = probed_input ctx v e i; s = score_with ctx i1 [] in
      if wanted s
      then (case find_sacred_overlaps (ev_protect v) (ev_tree v) (we_path e) (sp_catalog ctx) of
          Inl _ \<Rightarrow> None
        | Inr ovs \<Rightarrow> Some ((score_with ctx i1 ovs)\<lparr>cs_identity := Some (identity (we_metadata e))\<rparr>))
      else Some (s\<lparr>cs_identity := Some (identity (we_metadata e))\<rparr>))"

text \<open>What a pass keeps: repositories seen, directories the walk reported, parents of classified entries,
  the candidates, and the bytes they hold.\<close>

record pass_state =
  known_git_dirs :: "path_key set"
  visited_dirs :: "path_key set"
  dirs_with_candidates :: "path_key set"
  pass_scored :: "candidacy_score list"
  candidate_bytes_seen :: u64

definition classified :: "path_key \<Rightarrow> pass_state \<Rightarrow> pass_state" where
  "classified k st = (case parent_key k of None \<Rightarrow> st
     | Some parent \<Rightarrow> st\<lparr>dirs_with_candidates := insert parent (dirs_with_candidates st)\<rparr>)"

definition keep_candidate :: "entry_view \<Rightarrow> candidacy_score option \<Rightarrow> pass_state \<Rightarrow> pass_state" where
  "keep_candidate v scored_s st = (case scored_s of None \<Rightarrow> st
     | Some s \<Rightarrow> if ev_backoff v s then st
         else if wanted s then st\<lparr>candidate_bytes_seen := sat_add (candidate_bytes_seen st) (cs_size_bytes s),
           pass_scored := pass_scored st @ [s]\<rparr>
         else st)"

definition process_entry :: "scan_context \<Rightarrow> entry_view \<Rightarrow> walk_entry \<Rightarrow> pass_state \<Rightarrow> pass_state" where
  "process_entry ctx v e st =
     (let k = components (we_path e); dir = em_is_dir (we_metadata e);
          st1 = (if dir then st\<lparr>visited_dirs := insert k (visited_dirs st)\<rparr> else st)
      in if dir \<and> k \<in> known_git_dirs st then st1
         else case entry_class ctx e of None \<Rightarrow> st1
           | Some c \<Rightarrow>
               if category c = UnknownCategory then st1
               else if dir \<and> ev_git v then st1\<lparr>known_git_dirs := insert k (known_git_dirs st1)\<rparr>
               else keep_candidate v (score_entry ctx v e (entry_input ctx v e c)) (classified k st1))"

text \<open>A pass over the entries it receives. \<open>late n\<close> says whether the deadline had passed when entry \<open>n\<close> arrived or,
  after the last one, while the pass waited for more; the boolean, whether the deadline or the number of
  entries ended the pass rather than the end of the walk.\<close>

definition scan_entry_budget :: nat where
  "scan_entry_budget = 500000"

fun scan_walk ::
  "scan_context \<Rightarrow> (nat \<Rightarrow> bool) \<Rightarrow> nat \<Rightarrow> (walk_entry \<times> entry_view) list \<Rightarrow> pass_state \<Rightarrow> pass_state \<times> bool" where
  "scan_walk ctx late n [] st = (st, late n)"
| "scan_walk ctx late n ((e, v) # xs) st =
     (if scan_entry_budget \<le> Suc n \<or> late n then (st, True)
      else scan_walk ctx late (Suc n) xs (process_entry ctx v e st))"

subsection \<open>The cursor\<close>

text \<open>The directories that yielded nothing in a pass that ran out of time, with the moment they were noted.\<close>

record scan_cursor =
  barren_dirs :: "(path_key \<times> instant) list"
  cursor_ttl :: duration
  max_entries :: nat

definition scan_cursor_new :: scan_cursor where
  "scan_cursor_new = \<lparr>barren_dirs = [], cursor_ttl = secs 1800, max_entries = 50000\<rparr>"

definition barren_exclusions :: "instant \<Rightarrow> scan_cursor \<Rightarrow> path_key set" where
  "barren_exclusions now c = fst ` set (filter (\<lambda>(_, t). elapsed now t < cursor_ttl c) (barren_dirs c))"

text \<open>\<open>order\<close> is the order in which the map gives its entries away when it is over its limit.\<close>

definition cursor_update ::
  "((path_key \<times> instant) list \<Rightarrow> (path_key \<times> instant) list) \<Rightarrow> instant \<Rightarrow> path_key list \<Rightarrow> path_key set \<Rightarrow> bool \<Rightarrow>
   scan_cursor \<Rightarrow> scan_cursor" where
  "cursor_update order now visited_ks with_candidates timed_out c =
     (if \<not> timed_out then c\<lparr>barren_dirs := []\<rparr>
      else let added = fold (\<lambda>k m. if k \<in> with_candidates \<or> k \<in> fst ` set m then m else m @ [(k, now)])
             visited_ks (barren_dirs c);
             kept = filter (\<lambda>(k, t). k \<notin> with_candidates \<and> elapsed now t < cursor_ttl c) added
        in c\<lparr>barren_dirs := (if max_entries c < length kept
               then take (max_entries c) (rev (sort_key snd (rev (order kept)))) else kept)\<rparr>)"

text \<open>The exclusions of the next walk: the configured paths and the barren directories.\<close>

definition walk_exclusions :: "path list \<Rightarrow> instant \<Rightarrow> scan_cursor \<Rightarrow> path_key set" where
  "walk_exclusions configured now c = components ` set configured \<union> barren_exclusions now c"

end
