(* ===== verification/Scan_Pass_Run.thy ===== *)
theory Scan_Pass_Run
  imports Scan_Pass Executor_Run
begin

section \<open>Candidates and the walk behind them\<close>

text \<open>
  A candidate is traced back to the entry of the walk it was scored from, and a removal by the executor
  through the dispatch and the scorer to that entry: the daemon removes only what a walk found strictly below
  a configured root. The cursor of the scanner is followed into the next walk.
\<close>

subsection \<open>What a kept candidate went through\<close>

definition scored_from :: "scan_context \<Rightarrow> entry_view \<Rightarrow> walk_entry \<Rightarrow> candidacy_score \<Rightarrow> bool" where
  "scored_from ctx v e s = (\<exists>c. entry_class ctx e = Some c \<and> category c \<noteq> UnknownCategory \<and>
     \<not> (em_is_dir (we_metadata e) \<and> ev_git v) \<and>
     score_entry ctx v e (entry_input ctx v e c) = Some s \<and> wanted s)"

lemma keep_candidate_scored:
  "pass_scored (keep_candidate v scored_s st) = pass_scored st @
     (case scored_s of None \<Rightarrow> [] | Some s \<Rightarrow> if \<not> ev_backoff v s \<and> wanted s then [s] else [])"
  by (simp add: keep_candidate_def split: option.splits)

lemma classified_scored [simp]: "pass_scored (classified k st) = pass_scored st"
  by (simp add: classified_def split: option.splits)

lemma process_scored:
  "s \<in> set (pass_scored (process_entry ctx v e st)) \<Longrightarrow> s \<in> set (pass_scored st) \<or> scored_from ctx v e s"
  by (auto simp: process_entry_def keep_candidate_scored scored_from_def Let_def split: option.splits if_splits)

lemma scan_scored:
  "s \<in> set (pass_scored (fst (scan_walk ctx late n xs st))) \<Longrightarrow>
   s \<in> set (pass_scored st) \<or> (\<exists>(e, v) \<in> set xs. scored_from ctx v e s)"
proof (induction ctx late n xs st rule: scan_walk.induct)
  case (2 ctx late n e v xs st)
  show ?case
  proof (cases "scan_entry_budget \<le> Suc n \<or> late n")
    case False
    then have "s \<in> set (pass_scored (process_entry ctx v e st)) \<or> (\<exists>(e, v) \<in> set xs. scored_from ctx v e s)"
      using 2 by simp
    then show ?thesis using process_scored [of s ctx v e st] by auto
  qed (use 2 in auto)
qed simp

lemma score_with_path [simp]: "cs_path (score_with ctx i ovs) = in_path i"
  by (simp add: score_with_def score_candidate_with_sacred_overlaps_def score_inner_path)

lemma wanted_unvetoed:
  assumes "wanted (score_with ctx i ovs)"
  shows "veto_reason (sp_engine ctx) i ovs = None"
proof (rule ccontr)
  assume "veto_reason (sp_engine ctx) i ovs \<noteq> None"
  then obtain reason where "veto_reason (sp_engine ctx) i ovs = Some reason" by blast
  then have "score_with ctx i ovs = vetoed_score (sp_engine ctx) i reason"
    by (simp only: score_with_def score_candidate_with_sacred_overlaps_def score_inner_def option.case)
  then show False using assms by (simp add: wanted_def vetoed_score_def)
qed

lemma probe_path [simp]: "in_path (probed_input ctx v e i) = in_path i"
  "in_size_bytes (probed_input ctx v e i) = in_size_bytes i" "signals (probed_input ctx v e i) = signals i"
  by (simp_all add: probed_input_def probe_input_def mark_active_reference_budget_incomplete_def Let_def)

lemma unvetoed:
  "veto_reason eng i ovs = None \<Longrightarrow> ovs = [] \<and> safe_reclaim_reason (active_refs i) = None \<and> \<not> is_open i"
  by (auto simp: no_veto safe_reclaim_reason_None)

lemma entry_input_path [simp]: "in_path (entry_input ctx v e c) = we_path e"
  "in_size_bytes (entry_input ctx v e c) = content_size_bytes (we_metadata e)"
  by (simp_all add: entry_input_def)

lemma scored_from_facts:
  assumes "scored_from ctx v e s"
  shows "\<exists>i. s = (score_with ctx i [])\<lparr>cs_identity := Some (identity (we_metadata e))\<rparr> \<and> in_path i = we_path e \<and>
     signals i = structural_signals e \<and> wanted s \<and>
     find_sacred_overlaps (ev_protect v) (ev_tree v) (we_path e) (sp_catalog ctx) = Inr [] \<and>
     (should_probe (sp_probe ctx) (content_size_bytes (we_metadata e)) \<longrightarrow>
        references_is_empty (ev_refs v (identity (we_metadata e))) \<and> components (we_path e) \<notin> ev_open v)"
proof -
  obtain c where c: "score_entry ctx v e (entry_input ctx v e c) = Some s" "wanted s"
    using assms by (auto simp: scored_from_def)
  define i where "i = entry_input ctx v e c"
  define i1 where "i1 = probed_input ctx v e i"
  have w: "wanted (t\<lparr>cs_identity := x\<rparr>) = wanted t" for t x by (simp add: wanted_def)
  have first: "wanted (score_with ctx i1 [])"
    using c w by (auto simp: score_entry_def i_def [symmetric] i1_def [symmetric] Let_def split: if_splits)
  then obtain ovs where o: "find_sacred_overlaps (ev_protect v) (ev_tree v) (we_path e) (sp_catalog ctx) = Inr ovs"
      "s = (score_with ctx i1 ovs)\<lparr>cs_identity := Some (identity (we_metadata e))\<rparr>"
    using c(1) by (auto simp: score_entry_def i_def [symmetric] i1_def [symmetric] Let_def split: sum.splits)
  have "veto_reason (sp_engine ctx) i1 ovs = None" using c(2) o(2) w wanted_unvetoed by auto
  note u = unvetoed [OF this]
  have "references_is_empty (ev_refs v (identity (we_metadata e))) \<and> components (we_path e) \<notin> ev_open v"
    if "should_probe (sp_probe ctx) (content_size_bytes (we_metadata e))"
  proof -
    have "wanted (score_with ctx i [])"
      using first by (cases "wanted (score_with ctx i [])") (simp_all add: i1_def probed_input_def)
    then have i1: "i1 = probe_input ctx v e i" using that by (simp add: i1_def probed_input_def i_def)
    show ?thesis
      using u unfolding i1 probe_input_def
      by (auto simp: safe_reclaim_reason_None references_is_empty_def mark_active_reference_budget_incomplete_def
          mark_incomplete_def Let_def split: if_splits)
  qed
  then show ?thesis
    using o u c(2) by (intro exI [of _ i1]) (auto simp: i1_def i_def entry_input_def)
qed

subsection \<open>From the pass to the executor\<close>

lemma batch_members:
  assumes "dispatch_top_candidates r (cs, ch, d) = ((rest, ch', d'), alive)"
  shows "set rest \<subseteq> set cs \<and> (\<forall>b \<in> set (queue ch'). b \<in> set (queue ch) \<or> set (candidates b) \<subseteq> set cs)"
proof -
  have "set (take n (sort_by dispatch_before cs)) \<subseteq> set cs" "set (drop n (sort_by dispatch_before cs)) \<subseteq> set cs" for n
    using set_take_subset set_drop_subset sort_by_mset by (metis set_mset_mset)+
  note sub = this [THEN subsetD]
  show ?thesis using assms by (auto simp: dispatch_top_candidates_def try_send_def Let_def split: if_splits dest: sub)
qed

definition from_pass :: "candidacy_score set \<Rightarrow> deletion_batch list \<Rightarrow> deletion_batch list \<Rightarrow> bool" where
  "from_pass S q q' = (\<forall>b \<in> set q'. b \<in> set q \<or> set (candidates b) \<subseteq> S)"

lemma walk_members:
  "walk_dispatch r gs (cs, ch, d) = ((rest, ch', d'), alive) \<Longrightarrow>
   set rest \<subseteq> set cs \<union> set (concat gs) \<and> from_pass (set cs \<union> set (concat gs)) (queue ch) (queue ch')"
proof (induction gs arbitrary: cs ch d)
  case (Cons g gs)
  obtain rest1 ch1 d1 alive1 where s: "dispatch_top_candidates r (cs @ g, ch, d) = ((rest1, ch1, d1), alive1)"
    by (metis surj_pair)
  note m = batch_members [OF s]
  show ?case
  proof (cases alive1)
    case True
    then have "walk_dispatch r gs (rest1, ch1, d1) = ((rest, ch', d'), alive)" using Cons.prems s by simp
    then show ?thesis using Cons.IH m by (fastforce simp: from_pass_def)
  next
    case False
    then show ?thesis using Cons.prems s m by (fastforce simp: from_pass_def)
  qed
qed (simp add: from_pass_def)

lemma taken_queue: "set (queue (taken n ch)) \<subseteq> set (queue ch)"
  by (simp add: taken_def set_drop_subset)

lemma flush_members:
  "flush_scored stop taken_by k r (cs, ch, d) = ((rest, ch', d'), alive) \<Longrightarrow> from_pass (set cs) (queue ch) (queue ch')"
proof (induction stop taken_by k r "(cs, ch, d)" arbitrary: cs ch d rule: flush_scored.induct)
  case (1 stop taken_by k r cs ch d)
  show ?case
  proof (cases "cs = [] \<or> stop k")
    case True
    then show ?thesis using "1.prems" by (auto simp: flush_scored.simps from_pass_def)
  next
    case False
    obtain rest1 ch1 d1 alive1 where s: "dispatch_top_candidates r (cs, taken (taken_by k) ch, d) = ((rest1, ch1, d1), alive1)"
      by (metis surj_pair)
    note m = batch_members [OF s] and q = taken_queue [of "taken_by k" ch]
    show ?thesis
    proof (cases "alive1 \<and> \<not> length cs \<le> length rest1")
      case True
      have "flush_scored stop taken_by (Suc k) r (rest1, ch1, d1) = ((rest, ch', d'), alive)"
        using "1.prems" False s True by (subst (asm) flush_scored.simps) simp
      then have "from_pass (set rest1) (queue ch1) (queue ch')"
        using "1.hyps" [OF False s [symmetric] refl refl refl] True by blast
      then show ?thesis using m q by (fastforce simp: from_pass_def)
    next
      case False
      then have "ch' = ch1"
        using "1.prems" \<open>\<not> (cs = [] \<or> stop k)\<close> s by (subst (asm) flush_scored.simps) (auto split: if_splits)
      then show ?thesis using m q by (fastforce simp: from_pass_def)
    qed
  qed
qed

lemma pass_members:
  assumes "b \<in> set (queue (fst (pass_dispatched stop taken_by r gs ch)))"
  shows "b \<in> set (queue ch) \<or> set (candidates b) \<subseteq> set (concat gs)"
proof -
  obtain cs ch1 d1 alive where w: "walk_dispatch r gs ([], ch, 0) = ((cs, ch1, d1), alive)" by (metis surj_pair)
  obtain rest ch2 d2 alive2 where f: "flush_scored stop taken_by 0 r (cs, ch1, d1) = ((rest, ch2, d2), alive2)"
    by (metis surj_pair)
  have "b \<in> set (queue ch2)" using assms by (simp add: pass_dispatched_def w f)
  then show ?thesis using walk_members [OF w] flush_members [OF f] by (fastforce simp: from_pass_def)
qed

subsection \<open>From the pass to what is removed\<close>

lemma scored_from_checked:
  assumes "scored_from ctx v e s"
  shows "cs_path s = we_path e \<and> cs_identity s = Some (identity (we_metadata e)) \<and>
     \<not> has_git (structural_signals e) \<and> \<not> has_git_component (we_path e) \<and> \<not> (em_is_dir (we_metadata e) \<and> ev_git v) \<and>
     find_sacred_overlaps (ev_protect v) (ev_tree v) (we_path e) (sp_catalog ctx) = Inr [] \<and>
     (should_probe (sp_probe ctx) (content_size_bytes (we_metadata e)) \<longrightarrow>
        references_is_empty (ev_refs v (identity (we_metadata e))) \<and> components (we_path e) \<notin> ev_open v)"
proof -
  obtain i where i: "s = (score_with ctx i [])\<lparr>cs_identity := Some (identity (we_metadata e))\<rparr>" "in_path i = we_path e"
    "signals i = structural_signals e" "wanted s"
    "find_sacred_overlaps (ev_protect v) (ev_tree v) (we_path e) (sp_catalog ctx) = Inr []"
    "should_probe (sp_probe ctx) (content_size_bytes (we_metadata e)) \<longrightarrow>
        references_is_empty (ev_refs v (identity (we_metadata e))) \<and> components (we_path e) \<notin> ev_open v"
    using scored_from_facts [OF assms] by blast
  have "wanted (score_with ctx i [])" using i(1,4) by (simp add: wanted_def)
  then have "\<not> has_git_component (in_path i)" "\<not> has_git (signals i)"
    using wanted_unvetoed [of ctx i "[]"] by (auto simp: no_veto)
  moreover have "cs_path s = we_path e" "cs_identity s = Some (identity (we_metadata e))" using i(1,2) by simp_all
  moreover have "\<not> (em_is_dir (we_metadata e) \<and> ev_git v)" using assms by (auto simp: scored_from_def)
  ultimately show ?thesis using i(2,3,5,6) by metis
qed

lemma sent_below:
  assumes "stream env cfg reg = Inr s0" "walk_reach E cfg s0 s" "plain_names E" "e \<in> set (ws_sent s)"
  shows "\<exists>root names. root \<in> set (root_paths cfg) \<and> components (we_path e) = components root @ map Normal names \<and>
     names \<noteq> [] \<and> length names \<le> unat (max_depth cfg) \<and>
     (\<forall>j. 0 < j \<and> j \<le> length names \<longrightarrow> components root @ map Normal (take j names) \<notin> excluded_paths cfg)"
proof -
  note start = stream_below [OF assms(1)]
  have "all_below E cfg reg (ws_queue s0) s" using reach_all_below [OF assms(2,3)] start by blast
  then have "entry_below E cfg reg (ws_queue s0) e" using assms(4) by (auto simp: all_below_def)
  then show ?thesis
    using start unfolding entry_below_def below_root_def is_root_def by (metis word_le_nat_alt)
qed

lemma dispatched_candidate:
  assumes "concat gs = pass_scored (fst (scan_walk ctx late n xs st))" "pass_scored st = []"
    and "b \<in> set (queue (fst (pass_dispatched stop taken_by r gs ch)))" "b \<notin> set (queue ch)" "c \<in> set (candidates b)"
  shows "\<exists>(we, v) \<in> set xs. scored_from ctx v we c"
proof -
  have "c \<in> set (pass_scored (fst (scan_walk ctx late n xs st)))" using pass_members [OF assms(3)] assms(1,4,5) by auto
  then show ?thesis using scan_scored [of c ctx late n xs st] assms(2) by simp
qed


subsection \<open>What the cursor hides\<close>

lemma cursor_added:
  "set (fold (\<lambda>k m. if k \<in> W \<or> k \<in> fst ` set m then m else m @ [(k, now)]) ks m) =
     set m \<union> {(k, now) |k. k \<in> set ks \<and> k \<notin> W \<and> k \<notin> fst ` set m} \<and>
   length (fold (\<lambda>k m. if k \<in> W \<or> k \<in> fst ` set m then m else m @ [(k, now)]) ks m) \<le> length m + length ks"
proof (induction ks arbitrary: m)
  case (Cons k ks)
  show ?case
  proof (cases "k \<in> W \<or> k \<in> fst ` set m")
    case False
    show ?thesis using Cons.IH [of "m @ [(k, now)]"] False by auto
  qed (use Cons.IH [of m] in auto)
qed simp

text \<open>What is left out after a pass that ran out of time, as long as the map is not over its limit.\<close>

lemma cursor_excludes:
  assumes "length (barren_dirs c) + length ks \<le> max_entries c" "now \<le> later"
  shows "k \<in> barren_exclusions later (cursor_update order now ks W True c) \<longleftrightarrow> k \<notin> W \<and>
     ((\<exists>t. (k, t) \<in> set (barren_dirs c) \<and> elapsed now t < cursor_ttl c \<and> elapsed later t < cursor_ttl c) \<or>
      (k \<in> set ks \<and> k \<notin> fst ` set (barren_dirs c) \<and> elapsed later now < cursor_ttl c))"
proof -
  note a = cursor_added [of W now ks "barren_dirs c"]
  define kept where "kept = filter (\<lambda>(k, t). k \<notin> W \<and> elapsed now t < cursor_ttl c)
    (fold (\<lambda>k m. if k \<in> W \<or> k \<in> fst ` set m then m else m @ [(k, now)]) ks (barren_dirs c))"
  have "\<not> max_entries c < length kept"
    using a assms(1) unfolding kept_def by (meson le_trans length_filter_le not_le)
  then have "cursor_update order now ks W True c = c\<lparr>barren_dirs := kept\<rparr>"
    by (simp add: cursor_update_def kept_def Let_def)
  then show ?thesis using a assms(2) unfolding kept_def by (auto simp: barren_exclusions_def elapsed_def image_iff)
qed

lemma cursor_cleared: "barren_exclusions later (cursor_update order now ks W False c) = {}"
  by (simp add: cursor_update_def barren_exclusions_def)

lemma excluded_unseen:
  assumes "stream env cfg reg = Inr s0" "walk_reach E cfg s0 s" "plain_names E" "e \<in> set (ws_sent s)"
    and "k \<in> excluded_paths cfg" "\<forall>r \<in> set (root_paths cfg). \<not> prefix k (components r)"
  shows "\<not> prefix k (components (we_path e))"
proof
  assume k: "prefix k (components (we_path e))"
  obtain root names where r: "root \<in> set (root_paths cfg)" "components (we_path e) = components root @ map Normal names"
      "\<forall>j. 0 < j \<and> j \<le> length names \<longrightarrow> components root @ map Normal (take j names) \<notin> excluded_paths cfg"
    using sent_below [OF assms(1-4)] by blast
  have "\<not> prefix k (components root)" using r(1) assms(6) by blast
  then obtain q where q: "k = components root @ q" "q \<noteq> []" "prefix q (map Normal names)"
    using k r(2) by (auto simp: prefix_append)
  then have "q = map Normal (take (length q) names)" "length q \<le> length names"
    by (metis prefix_def append_eq_conv_conj take_map) (metis prefix_length_le q(3) length_map)
  moreover have "0 < length q" using q(2) by simp
  ultimately show False using r(3) assms(5) q(1) by metis
qed


end
