(* ===== verification/Walker_Demo.thy ===== *)
theory Walker_Demo
  imports Walker_Spec
begin

section \<open>A walk on a small tree\<close>

text \<open>The witnesses of the walk's properties: a project with a build directory that carries a protection
  marker.\<close>

definition walk_penv :: protect_env where
  "walk_penv = \<lparr>home = None, current_dir = None, canonical = (\<lambda>_ k. Some k), metadata_error = (\<lambda>_. None),
     listing_error = (\<lambda>_. None), entry_lost = (\<lambda>_. False), file_text = (\<lambda>_ _. None),
     regex = (\<lambda>_. Inl ''unsupported''), parse_metadata = (\<lambda>_. None), metadata_toml = (\<lambda>_. Inl ''unsupported''),
     write_file = (\<lambda>_ _ w. Inr w), unlink = (\<lambda>_ w. Inr w)\<rparr>"

definition demo_dir :: "string \<Rightarrow> dir_entry option" where
  "demo_dir n = Some \<lparr>de_name = n, de_type = Some KDirectory, de_size = Some 8\<rparr>"

definition demo_file :: "string \<Rightarrow> dir_entry option" where
  "demo_file n = Some \<lparr>de_name = n, de_type = Some KFile, de_size = Some 8\<rparr>"

definition demo_meta :: "u64 \<Rightarrow> file_meta" where
  "demo_meta i = \<lparr>fm_kind = KDirectory, fm_dev = 1, fm_ino = i, fm_blocks = 8, fm_modified = Some 5,
     fm_created = None, fm_mode = 493\<rparr>"

definition demo_listing :: "path \<Rightarrow> listing option" where
  "demo_listing p = (if p = ''/w'' then Some [demo_file ''Cargo.toml'', demo_dir ''target'']
     else if p = ''/w/target'' then Some [demo_file ''.sbh-protect'', demo_dir ''debug''] else None)"

definition demo_walk_env :: walker_env where
  "demo_walk_env = \<lparr>wv_dirs = \<lparr>dv_read_dir = demo_listing, dv_is_dir = (\<lambda>_. False)\<rparr>,
     wv_stat = (\<lambda>_ _. Inr (demo_meta 7)), wv_protect = walk_penv, wv_tree = []\<rparr>"

definition demo_walker :: walker_config where
  "demo_walker = \<lparr>root_paths = [''/w''], max_depth = 4, follow_symlinks = False, cross_devices = False,
     parallelism = 1, excluded_paths = {}, opaque_pruning = True\<rparr>"

definition demo_root :: work_item where
  "demo_root = \<lparr>wi_path = ''/w'', wi_depth = 0, root_device_id = 1, wi_opaque = None\<rparr>"

definition demo_at :: "worker \<Rightarrow> work_item list \<Rightarrow> walk_entry list \<Rightarrow> usize \<Rightarrow> walker_state" where
  "demo_at w q sent n = \<lparr>ws_registry = marker_only, ws_queue = q, ws_workers = [w], ws_sent = sent,
     in_flight = n, ws_cancelled = False, ws_closed = False\<rparr>"

lemma demo_stream: "stream demo_walk_env demo_walker marker_only = Inr (demo_at Idle [demo_root] [] 1)"
  by (simp add: stream_def demo_walker_def demo_walk_env_def metadata_for_path_def demo_meta_def demo_root_def
      walk_init_def demo_at_def)

lemma marker_only_free: "is_protected env w marker_only p = False"
  by (simp add: is_protected_def matches_marker_def find_marker_ancestor_def matches_config_pattern_def
      marker_only_def find_None_iff list_ex_iff)

lemma run_reach: "walk_run env cfg as s = Some s' \<Longrightarrow> env \<in> E \<Longrightarrow> walk_reach E cfg s0 s \<Longrightarrow> walk_reach E cfg s0 s'"
proof (induction as arbitrary: s)
  case (Cons a as)
  then obtain s1 where s1: "walk_act env cfg a s = Some s1" "fits s1" "walk_run env cfg as s1 = Some s'"
    by (auto split: option.splits if_splits)
  have "walk_step E cfg s s1" using s1(1) Cons.prems(2) by (auto simp: walk_step_def)
  then have "walk_reach E cfg s0 s1" by (rule walk_more [OF Cons.prems(3) _ s1(2)])
  then show ?case using Cons.IH [OF s1(3) Cons.prems(2)] by blast
qed simp

lemma demo_at_fits: "n < 2 ^ 32 \<Longrightarrow> length q = n \<Longrightarrow> fits (demo_at w q sent k)"
  by (cases w) (simp_all add: fits_def load_def demo_at_def)

text \<open>What the only worker does, turn by turn.\<close>

definition demo_scan :: dir_scan where
  "demo_scan = \<lparr>ds_signals = default_signals\<lparr>has_cargo_toml := True\<rparr>, object_count = 0, total_count = 2,
     content_size = 4096, node_manifest = False, pending_children = [''/w/target'']\<rparr>"

lemma demo_no_object: "is_object_name ''Cargo.toml'' = False" "is_object_name ''target'' = False"
  by (simp_all add: is_object_name_def name_extension_def rsplit_once_def eq_ignore_ascii_case_def to_lower_def ascii_lower_def)

lemma demo_limit: "\<not> (65536::u32) \<le> 1"
  by (simp add: word_le_nat_alt)

lemma demo_read:
  "scan_entries demo_walk_env demo_walker demo_root [demo_file ''Cargo.toml'', demo_dir ''target''] dir_scan_new = Some demo_scan"
  by (simp add: demo_limit demo_file_def demo_dir_def max_entries_per_dir_def marker_filename_def note_child_def note_name_def
      demo_no_object note_signal_def node_manifests_def child_is_dir_def path_join_def demo_root_def demo_walker_def
      dir_scan_new_def demo_scan_def allocated_size_def sat_defs Let_def)

definition demo_class :: opaque_tree_classification where
  "demo_class = opaque_candidate ''cargo/build target with regenerable context'' ''opaque-cargo-target'' RustTarget (lit (93/100))"

definition demo_entry :: walk_entry where
  "demo_entry = opaque_entry demo_root ''/w/target'' demo_class (demo_meta 7)"

lemma demo_child: "child_output demo_walk_env demo_walker demo_root demo_scan ''/w/target'' = Some (Report demo_entry)"
proof -
  have "file_name ''/w/target'' = Some ''target''"
    by (simp add: file_name_def comps_file_name_def components_def Let_def parse_segment_def List.map_filter_simps)
  moreover have "to_lower ''target'' = ''target''" by (simp add: to_lower_def ascii_lower_def)
  moreover have "\<not> str_contains ''target'' ''go''" "\<not> str_contains ''target'' ''mod''" by simp_all
  ultimately have "classify_opaque_tree (wv_dirs demo_walk_env) ''/w/target''
      \<lparr>parent_has_cargo_toml = True, parent_has_node_manifest = False\<rparr> = Some demo_class"
    by (simp add: classify_opaque_tree_def classify_opaque_name_def is_context_gated_dependency_tree_name_def
        is_cargo_target_name_def demo_class_def)
  then have "child_class demo_walk_env demo_walker demo_scan ''/w/target'' = Some demo_class"
    by (simp add: child_class_def demo_walker_def demo_scan_def)
  moreover have "disposition demo_class = CandidateOpaque" by (simp add: demo_class_def opaque_candidate_def)
  ultimately show ?thesis
    by (simp add: child_output_def metadata_for_path_def demo_walk_env_def enters_def demo_root_def demo_meta_def
        demo_entry_def Let_def)
qed

lemmas demo_turn = demo_at_def set_worker_def Let_def

lemma demo_turns:
  "walk_act demo_walk_env demo_walker (Work 0) (demo_at Idle [demo_root] [] 1) = Some (demo_at (Opened demo_root None) [] [] 1)"
  "walk_act demo_walk_env demo_walker (Work 0) (demo_at (Opened demo_root None) [] [] 1) =
     Some (demo_at (Sending demo_root None demo_scan [''/w/target'']) [] [] 1)"
  "walk_act demo_walk_env demo_walker (Work 0) (demo_at (Sending demo_root None demo_scan [''/w/target'']) [] [] 1) =
     Some (demo_at (Sending demo_root None demo_scan []) [] [demo_entry] 1)"
  "walk_act demo_walk_env demo_walker (Work 0) (demo_at (Sending demo_root None demo_scan []) [] [demo_entry] 1) =
     Some (demo_at Finished [] [demo_entry] 1)"
  "walk_act demo_walk_env demo_walker (Work 0) (demo_at Finished [] [demo_entry] 1) = Some (demo_at Idle [] [demo_entry] 0)"
  "walk_act demo_walk_env demo_walker (Leave 0) (demo_at Idle [] [demo_entry] 0) = Some (demo_at Exited [] [demo_entry] 0)"
  subgoal by (simp add: demo_turn open_item_def dir_gate_def marker_only_free demo_root_def demo_walker_def)
  subgoal
  proof -
    have "dv_read_dir (wv_dirs demo_walk_env) (wi_path demo_root) = Some [demo_file ''Cargo.toml'', demo_dir ''target'']"
      by (simp add: demo_walk_env_def demo_listing_def demo_root_def)
    moreover have "pending_children demo_scan = [''/w/target'']" by (simp add: demo_scan_def)
    ultimately show ?thesis by (simp add: demo_turn read_item_def demo_read)
  qed
  subgoal by (simp add: demo_turn send_child_def demo_child deliver_def)
  subgoal by (simp add: demo_turn send_own_def)
  subgoal by (simp add: demo_turn)
  subgoal by (simp add: demo_turn)
  done

lemma demo_walk:
  "walk_reach {demo_walk_env} demo_walker (demo_at Idle [demo_root] [] 1) (demo_at Exited [] [demo_entry] 0)"
proof (rule run_reach [OF _ _ walk_start])
  show "walk_run demo_walk_env demo_walker [Work 0, Work 0, Work 0, Work 0, Work 0, Leave 0] (demo_at Idle [demo_root] [] 1) =
      Some (demo_at Exited [] [demo_entry] 0)"
    using demo_turns demo_at_fits [of 0 "[]"] by (simp del: walk_act.simps)
qed simp

lemma demo_start_fits: "fits (demo_at Idle [demo_root] [] 1)"
  by (rule demo_at_fits [of 1]) simp_all

lemma demo_done: "ws_workers (demo_at Exited [] [demo_entry] 0) = [Exited]" "ws_sent (demo_at w q es k) = es"
  "ws_queue (demo_at w q es k) = q" "ws_registry (demo_at w q es k) = marker_only"
  "\<not> ws_cancelled (demo_at w q es k)" "\<not> ws_closed (demo_at w q es k)"
  by (simp_all add: demo_at_def)

lemma walk_reports_witness: "mset (walk_all demo_walk_env demo_walker marker_only [demo_root]) = {#demo_entry#}"
proof (rule subset_mset.antisym)
  have e: "\<forall>w \<in> set (ws_workers (demo_at Exited [] [demo_entry] 0)). w = Exited" by (simp add: demo_done)
  have "mset [demo_entry] = {#demo_entry#}" by simp
  note w = walk_reports [OF demo_stream demo_start_fits demo_walk e demo_done(5,6), unfolded demo_done(2-4) this]
  show "mset (walk_all demo_walk_env demo_walker marker_only [demo_root]) \<subseteq># {#demo_entry#}"
    and "{#demo_entry#} \<subseteq># mset (walk_all demo_walk_env demo_walker marker_only [demo_root])" using w by blast+
qed

lemma demo_stuck:
  "walk_act demo_walk_env demo_walker (Work i) (demo_at Exited [] [demo_entry] 0) = None \<and>
   walk_act demo_walk_env demo_walker (Leave i) (demo_at Exited [] [demo_entry] 0) = None"
  by (simp add: demo_at_def)


lemma demo_plain: "plain_names {demo_walk_env}"
  by (auto simp: plain_names_def demo_walk_env_def demo_listing_def demo_file_def demo_dir_def plain_name_def
      split: if_splits)

lemma walk_confined_witness: "unat (we_depth demo_entry) = 1 \<and> components (we_path demo_entry) = components ''/w'' @ [Normal ''target'']"
proof -
  obtain r names where r: "r \<in> set (root_paths demo_walker)" "components (we_path demo_entry) = components r @ map Normal names"
      "length names = unat (we_depth demo_entry)"
    using walk_confined [OF demo_stream demo_walk demo_plain, of demo_entry] unfolding demo_done by auto
  moreover have "r = ''/w''" using r(1) by (simp add: demo_walker_def)
  moreover have "components (we_path demo_entry) = components ''/w'' @ [Normal ''target'']"
    by (simp add: demo_entry_def opaque_entry_def components_def Let_def parse_segment_def List.map_filter_simps)
  ultimately show ?thesis by auto
qed

text \<open>The build directory is reported although it carries a marker: an opaque tree is never looked into.\<close>

lemma opaque_marker_unseen:
  "demo_entry \<in> set (ws_sent (demo_at Exited [] [demo_entry] 0)) \<and> opaque_report demo_entry \<and>
   (\<exists>es. dv_read_dir (wv_dirs demo_walk_env) (we_path demo_entry) = Some es \<and> demo_file marker_filename \<in> set es)"
  by (simp add: demo_done opaque_report_def demo_entry_def opaque_entry_def demo_class_def opaque_candidate_def
      demo_walk_env_def demo_listing_def marker_filename_def Let_def)

end
