(* ===== verification/Scan_Demo.thy ===== *)
theory Scan_Demo
  imports Scan_Pass_Run Walker_Demo Executor_Demo
begin

section \<open>From a walk to a removal\<close>

text \<open>The witnesses of the scanner's pass: a walk of \<open>/tmp\<close> reports a build directory, the pass scores it, and the
  executor of \<open>Executor_Demo\<close> removes it.\<close>

subsection \<open>The walk\<close>

definition blank_file :: "string \<Rightarrow> dir_entry option" where
  "blank_file n = Some \<lparr>de_name = n, de_type = Some KFile, de_size = Some 0\<rparr>"

definition tmp_listing :: listing where
  "tmp_listing = [demo_dir ''a'']"

definition a_listing :: listing where
  "a_listing = [blank_file ''incremental'', blank_file ''deps'', blank_file ''build'', blank_file ''.fingerprint'']"

definition pass_meta :: file_meta where
  "pass_meta = \<lparr>fm_kind = KDirectory, fm_dev = 1, fm_ino = 4, fm_blocks = 0, fm_modified = Some 5, fm_created = None, fm_mode = 493\<rparr>"

definition pass_env :: walker_env where
  "pass_env = \<lparr>wv_dirs = \<lparr>dv_read_dir = (\<lambda>p. if p = ''/tmp'' then Some tmp_listing else if p = ''/tmp/a'' then Some a_listing else None),
     dv_is_dir = (\<lambda>_. False)\<rparr>, wv_stat = (\<lambda>_ _. Inr pass_meta), wv_protect = walk_penv, wv_tree = []\<rparr>"

definition pass_walker :: "path_key set \<Rightarrow> walker_config" where
  "pass_walker X = \<lparr>root_paths = [''/tmp''], max_depth = 4, follow_symlinks = False, cross_devices = False,
     parallelism = 1, excluded_paths = X, opaque_pruning = False\<rparr>"

definition tmp_item :: work_item where
  "tmp_item = \<lparr>wi_path = ''/tmp'', wi_depth = 0, root_device_id = 1, wi_opaque = None\<rparr>"

definition a_item :: work_item where
  "a_item = \<lparr>wi_path = ''/tmp/a'', wi_depth = 1, root_device_id = 1, wi_opaque = None\<rparr>"

definition tmp_scan :: "path list \<Rightarrow> dir_scan" where
  "tmp_scan ps = \<lparr>ds_signals = default_signals, object_count = 0, total_count = 1, content_size = 0, node_manifest = False,
     pending_children = ps\<rparr>"

definition a_scan :: dir_scan where
  "a_scan = \<lparr>ds_signals = signals demo_target, object_count = 0, total_count = 4, content_size = 0, node_manifest = False,
     pending_children = []\<rparr>"

definition a_entry :: walk_entry where
  "a_entry = \<lparr>we_path = ''/tmp/a'', we_metadata = entry_metadata_of pass_meta, we_depth = 1,
     structural_signals = signals demo_target, we_is_open = False, we_opaque = None\<rparr>"

lemma pass_stream: "stream pass_env (pass_walker X) marker_only = Inr (demo_at Idle [tmp_item] [] 1)"
  by (simp add: stream_def pass_walker_def pass_env_def metadata_for_path_def pass_meta_def tmp_item_def walk_init_def demo_at_def)

lemma pass_plain: "plain_names {pass_env}"
  by (auto simp: plain_names_def pass_env_def tmp_listing_def a_listing_def blank_file_def demo_dir_def plain_name_def
      split: if_splits)

lemma pass_no_object: "is_object_name ''incremental'' = False" "is_object_name ''deps'' = False"
  "is_object_name ''build'' = False" "is_object_name ''.fingerprint'' = False" "is_object_name ''a'' = False"
  by (simp_all add: is_object_name_def name_extension_def rsplit_once_def)

lemma pass_limit: "\<not> (65536::u32) \<le> 1" "\<not> (65536::u32) \<le> 2" "\<not> (65536::u32) \<le> 3" "\<not> (65536::u32) \<le> 4"
  by (simp_all add: word_le_nat_alt)

lemmas read_simps = pass_limit demo_dir_def blank_file_def max_entries_per_dir_def marker_filename_def note_child_def note_name_def
  pass_no_object note_signal_def node_manifests_def child_is_dir_def path_join_def pass_walker_def
  dir_scan_new_def allocated_size_def sat_defs default_signals_def Let_def

lemma tmp_read:
  "scan_entries pass_env (pass_walker {}) tmp_item tmp_listing dir_scan_new = Some (tmp_scan [''/tmp/a''])"
  "scan_entries pass_env (pass_walker {[RootDir, Normal ''tmp'', Normal ''a'']}) tmp_item tmp_listing dir_scan_new = Some (tmp_scan [])"
  by (simp_all add: read_simps tmp_listing_def tmp_item_def tmp_scan_def demo_components)

lemma a_read: "scan_entries pass_env (pass_walker {}) a_item a_listing dir_scan_new = Some a_scan"
  by (simp add: read_simps a_listing_def a_item_def a_scan_def demo_target_def)

lemma a_own: "own_entry a_item a_scan pass_meta = a_entry"
  by (simp add: own_entry_def a_item_def a_scan_def a_entry_def final_signals_def Let_def)

lemma a_descend: "child_output pass_env (pass_walker {}) tmp_item (tmp_scan [''/tmp/a'']) ''/tmp/a'' = Some (Descend a_item)"
  by (simp add: child_output_def child_class_def pass_walker_def tmp_item_def a_item_def Let_def)

lemma pass_gates:
  "X = {} \<or> X = {[RootDir, Normal ''tmp'', Normal ''a'']} \<Longrightarrow> dir_gate pass_env (pass_walker X) marker_only tmp_item = Some None"
  "dir_gate pass_env (pass_walker {}) marker_only a_item = Some (Some pass_meta)"
proof -
  have "components ''/tmp'' = [RootDir, Normal ''tmp'']" by (simp add: components_def parse_segment_def List.map_filter_def)
  then show "X = {} \<or> X = {[RootDir, Normal ''tmp'', Normal ''a'']} \<Longrightarrow> dir_gate pass_env (pass_walker X) marker_only tmp_item = Some None"
    by (auto simp: dir_gate_def marker_only_free tmp_item_def pass_walker_def)
qed (simp add: dir_gate_def marker_only_free a_item_def pass_walker_def pass_env_def metadata_for_path_def enters_def pass_meta_def)

lemma pass_reads: "dv_read_dir (wv_dirs pass_env) (wi_path tmp_item) = Some tmp_listing"
  "dv_read_dir (wv_dirs pass_env) (wi_path a_item) = Some a_listing" "pending_children (tmp_scan ps) = ps" "pending_children a_scan = []"
  "wi_depth tmp_item = 0" "wi_depth a_item = 1"
  by (simp_all add: pass_env_def tmp_item_def a_item_def tmp_scan_def a_scan_def)

lemmas pass_turn = demo_turn open_item_def pass_gates read_item_def pass_reads tmp_read a_read send_child_def a_descend send_own_def
  a_own deliver_def

lemma pass_turns:
  "walk_act pass_env (pass_walker {}) (Work 0) (demo_at Idle [tmp_item] [] 1) = Some (demo_at (Opened tmp_item None) [] [] 1)"
  "walk_act pass_env (pass_walker {}) (Work 0) (demo_at (Opened tmp_item None) [] [] 1) =
     Some (demo_at (Sending tmp_item None (tmp_scan [''/tmp/a'']) [''/tmp/a'']) [] [] 1)"
  "walk_act pass_env (pass_walker {}) (Work 0) (demo_at (Sending tmp_item None (tmp_scan [''/tmp/a'']) [''/tmp/a'']) [] [] 1) =
     Some (demo_at (Announced a_item tmp_item None (tmp_scan [''/tmp/a'']) []) [] [] 2)"
  "walk_act pass_env (pass_walker {}) (Work 0) (demo_at (Announced a_item tmp_item None (tmp_scan [''/tmp/a'']) []) [] [] 2) =
     Some (demo_at (Sending tmp_item None (tmp_scan [''/tmp/a'']) []) [a_item] [] 2)"
  "walk_act pass_env (pass_walker {}) (Work 0) (demo_at (Sending tmp_item None (tmp_scan [''/tmp/a'']) []) [a_item] [] 2) =
     Some (demo_at Finished [a_item] [] 2)"
  "walk_act pass_env (pass_walker {}) (Work 0) (demo_at Finished [a_item] [] 2) = Some (demo_at Idle [a_item] [] 1)"
  "walk_act pass_env (pass_walker {}) (Work 0) (demo_at Idle [a_item] [] 1) = Some (demo_at (Opened a_item (Some pass_meta)) [] [] 1)"
  "walk_act pass_env (pass_walker {}) (Work 0) (demo_at (Opened a_item (Some pass_meta)) [] [] 1) =
     Some (demo_at (Sending a_item (Some pass_meta) a_scan []) [] [] 1)"
  "walk_act pass_env (pass_walker {}) (Work 0) (demo_at (Sending a_item (Some pass_meta) a_scan []) [] [] 1) =
     Some (demo_at Finished [] [a_entry] 1)"
  by (simp_all add: pass_turn)

lemma fits_small: "length q \<le> 9 \<Longrightarrow> fits (demo_at w q sent k)"
  by (cases w) (simp_all add: fits_def load_def demo_at_def)

lemma pass_walk: "walk_reach {pass_env} (pass_walker {}) (demo_at Idle [tmp_item] [] 1) (demo_at Finished [] [a_entry] 1)"
proof (rule run_reach [OF _ _ walk_start])
  show "walk_run pass_env (pass_walker {}) (replicate 9 (Work 0)) (demo_at Idle [tmp_item] [] 1) =
      Some (demo_at Finished [] [a_entry] 1)"
    using pass_turns fits_small by (simp del: walk_act.simps add: eval_nat_numeral)
qed simp

subsection \<open>The pass\<close>

definition pass_registry :: artifact_pattern_registry where
  "pass_registry = \<lparr>builtins = [], custom = [\<lparr>nc_pattern = \<lparr>cu_name = ''x'', cu_needle = ''a'', cu_confidence = Fin 2, cu_category = TempDir\<rparr>,
     lowercase_needle = ''a''\<rparr>]\<rparr>"

definition pass_context :: scan_context where
  "pass_context = \<lparr>sp_fexp = (\<lambda>_. 0), sp_fln = (\<lambda>_. 0), sp_engine = demo_engine, sp_registry = pass_registry, sp_os = OtherOs,
     sp_lowercase = to_lower, sp_home = None, sp_min_minutes = 30, sp_level = Yellow, sp_urgency = 0,
     sp_probe = \<lparr>cache_ttl_probe = 0, min_candidate_size_bytes = 0\<rparr>, sp_deadline = secs 300, sp_catalog = []\<rparr>"

definition pass_view :: entry_view where
  "pass_view = \<lparr>ev_now = 5, ev_git = False, ev_probe_at = 0, ev_open = {}, ev_refs = (\<lambda>_. no_references), ev_protect = demo_penv,
     ev_tree = demo_tree, ev_backoff = (\<lambda>_. False)\<rparr>"

definition fresh_pass :: pass_state where
  "fresh_pass = \<lparr>known_git_dirs = {}, visited_dirs = {}, dirs_with_candidates = {}, pass_scored = [], candidate_bytes_seen = 0\<rparr>"

lemma a_class: "entry_class pass_context a_entry = Some (in_classification demo_target)"
proof -
  obtain a where a: "lit (7/10) = Fin a" "1/2 \<le> a" "a \<le> 1"
    using rnd_in [of "1/2" 1 "7/10"] rnd_dyadic [of 1 "- 1"] by (auto simp: power_int_minus)
  obtain b where b: "lit (3/10) = Fin b" "0 \<le> b" "b \<le> 1" using lit_unit [of "3/10"] by auto
  obtain c where c: "lit (2/5) = Fin c" "1/4 \<le> c" "c \<le> 1"
    using rnd_in [of "1/4" 1 "2/5"] rnd_dyadic [of 1 "- 2"] by (auto simp: power_int_minus)
  obtain g where g: "lit (1/10) = Fin g" "g \<le> 1/4"
    using rnd_in [of 0 "1/4" "1/10"] rnd_dyadic [of 1 "- 2"] by (auto simp: power_int_minus)
  have "b * c \<le> 1 * 1" using b c by (intro mult_mono) auto
  then obtain d where d: "rnd (b * c) = Fin d" "0 \<le> d" "d \<le> 1" using rnd_in [OF rnd_0 rnd_1(1), of "b * c"] b c by auto
  obtain f where f: "rnd (a * 2 + d) = Fin f" "1 \<le> f"
    using rnd_in [of 1 3 "a * 2 + d"] a(2,3) d(2,3) rnd_1(1) rnd_numeral [of "Num.Bit1 Num.One"] by auto
  have "combine_confidence (Fin 2) (lit (2/5)) = 1"
    using c(2) g(2) f by (simp add: combine_confidence_def Let_def a(1) b(1) c(1) d(1) g(1) fin_ops f_clamp_def)
  then show ?thesis
    by (simp add: entry_class_def a_entry_def classify_def classify_with_cleanup_rules_def classify_with_cleanup_rules_inner_def
        file_name_def demo_components comps_file_name_def pass_context_def pass_registry_def classify_name_def take_custom_def
        cleanup_catalog_path_classification_def visible_rule_def match_scan_visible_rule_def rescue_def finish_class_def
        structural_score_def named_class_def classification_unknown_def to_lower_def ascii_lower_def demo_target_def Let_def)
qed

lemma a_input: "entry_input pass_context pass_view a_entry (in_classification demo_target) = demo_target"
  by (simp add: entry_input_def a_entry_def entry_metadata_of_def pass_meta_def allocated_size_def sat_defs adjusted_candidate_age_def
      should_fast_track_temp_age_def less_pressure_level_def pass_context_def observed_age_def effective_age_timestamp_def pass_view_def demo_target_def)

lemma a_identity: "identity (we_metadata a_entry) = demo_node KDirectory 4"
  by (simp add: identity_def a_entry_def entry_metadata_of_def pass_meta_def demo_node_def)

lemma pass_score: "score_with pass_context demo_target [] = score_inner (\<lambda>_. 0) (\<lambda>_. 0) demo_engine demo_target 0 []"
  by (simp add: score_with_def score_candidate_with_sacred_overlaps_def pass_context_def)

lemma a_wanted: "wanted (score_with pass_context demo_target [])"
  using demo_deletes by (simp add: wanted_def pass_score score_inner_def demo_no_veto Let_def)

lemma a_probed: "probed_input pass_context pass_view a_entry demo_target = demo_target"
  by (simp add: probed_input_def probe_input_def has_active_reference_scan_budget_def active_reference_scan_budget_def pass_context_def
      pass_view_def no_references_def references_is_empty_def demo_target_def secs_def)

lemma a_scored: "score_entry pass_context pass_view a_entry demo_target = Some demo_candidate"
proof -
  have "find_sacred_overlaps demo_penv demo_tree ''/tmp/a'' [] = Inr []"
    using demo_resolve(1) demo_scan(1)
    by (simp add: find_sacred_overlaps_def find_sacred_overlaps_with_config_def demo_components Let_def)
  then have "find_sacred_overlaps (ev_protect pass_view) (ev_tree pass_view) (we_path a_entry) (sp_catalog pass_context) = Inr []"
    by (simp add: pass_view_def a_entry_def pass_context_def)
  then show ?thesis
    using a_wanted by (simp add: score_entry_def a_probed Let_def pass_score demo_candidate_def a_identity)
qed

text \<open>The pass over the walk, once in full and once with the deadline passing after its only entry.\<close>

definition done_pass :: pass_state where
  "done_pass = \<lparr>known_git_dirs = {}, visited_dirs = {[RootDir, Normal ''tmp'', Normal ''a'']},
     dirs_with_candidates = {[RootDir, Normal ''tmp'']}, pass_scored = [demo_candidate],
     candidate_bytes_seen = sat_add 0 (cs_size_bytes demo_candidate)\<rparr>"

lemma a_processed: "process_entry pass_context pass_view a_entry fresh_pass = done_pass"
proof -
  have k: "components (we_path a_entry) = [RootDir, Normal ''tmp'', Normal ''a'']" by (simp add: a_entry_def demo_components)
  have d: "em_is_dir (we_metadata a_entry)" by (simp add: a_entry_def entry_metadata_of_def pass_meta_def)
  have c: "category (in_classification demo_target) = TempDir" by (simp add: demo_target_def)
  have w: "wanted demo_candidate" by (simp add: wanted_def)
  have v: "\<not> ev_git pass_view" "\<not> ev_backoff pass_view s" for s by (simp_all add: pass_view_def)
  show ?thesis
    by (simp add: process_entry_def k d c v w a_class a_input a_scored keep_candidate_def classified_def parent_key_def
        fresh_pass_def done_pass_def Let_def)
qed

lemma pass_full: "scan_walk pass_context (\<lambda>_. False) 0 [(a_entry, pass_view)] fresh_pass = (done_pass, False)"
  by (simp add: a_processed scan_entry_budget_def)

lemma pass_cut: "scan_walk pass_context (\<lambda>n. 0 < n) 0 [(a_entry, pass_view)] fresh_pass = (done_pass, True)"
  by (simp add: a_processed scan_entry_budget_def)

definition pass_request :: scan_request where
  "pass_request = \<lparr>req_paths = [''/tmp''], req_urgency = 0, req_level = Yellow, req_free_pct = None,
     req_max_delete_batch = 10, force_full_scan = False, config_update = None\<rparr>"

definition empty_channel :: "deletion_batch channel" where
  "empty_channel = \<lparr>queue = [], channel_cap = executor_channel_cap, peer_alive = True\<rparr>"

lemma pass_dispatch:
  "queue (fst (pass_dispatched (\<lambda>_. False) (\<lambda>_. 0) pass_request [[demo_candidate]] empty_channel)) = [Executor_Demo.demo_request]"
proof -
  have "sort_by dispatch_before [demo_candidate] = [demo_candidate]" by (simp add: sort_by_def)
  then show ?thesis
    by (simp add: pass_dispatched_def dispatch_top_candidates_def flush_scored.simps try_send_def empty_channel_def
        executor_channel_cap_def pass_request_def Executor_Demo.demo_request_def Let_def)
qed

subsection \<open>Witnesses\<close>


lemma hidden_turns:
  assumes "X = {[RootDir, Normal ''tmp'', Normal ''a'']}"
  shows "walk_act pass_env (pass_walker X) (Work 0) (demo_at Idle [tmp_item] [] 1) = Some (demo_at (Opened tmp_item None) [] [] 1)"
  "walk_act pass_env (pass_walker X) (Work 0) (demo_at (Opened tmp_item None) [] [] 1) =
     Some (demo_at (Sending tmp_item None (tmp_scan []) []) [] [] 1)"
  "walk_act pass_env (pass_walker X) (Work 0) (demo_at (Sending tmp_item None (tmp_scan []) []) [] [] 1) =
     Some (demo_at Finished [] [] 1)"
  "walk_act pass_env (pass_walker X) (Work 0) (demo_at Finished [] [] 1) = Some (demo_at Idle [] [] 0)"
  "walk_act pass_env (pass_walker X) (Leave 0) (demo_at Idle [] [] 0) = Some (demo_at Exited [] [] 0)"
  by (simp_all add: assms pass_turn)

lemma hidden_walk:
  assumes "X = {[RootDir, Normal ''tmp'', Normal ''a'']}"
  shows "walk_reach {pass_env} (pass_walker X) (demo_at Idle [tmp_item] [] 1) (demo_at Exited [] [] 0)"
proof (rule run_reach [OF _ _ walk_start])
  show "walk_run pass_env (pass_walker X) [Work 0, Work 0, Work 0, Work 0, Leave 0] (demo_at Idle [tmp_item] [] 1) =
      Some (demo_at Exited [] [] 0)"
    using hidden_turns [OF assms] fits_small by (simp del: walk_act.simps)
qed simp


end
