(* ===== verification/Spec2Isabelle.thy ===== *)
theory Spec2Isabelle
  imports Guardrails Ballast_Coordinator Pipeline Voi_Run Executor_Demo Scan_Pacing Supervision Daemon_Demo Scan_Demo
begin

text \<open>
  Storage Ballast Helper (sbh) is a daemon that watches the free space of a machine's volumes, predicts when
  they fill up, and gives space back: it releases ballast files that it had put aside, and it scans for build
  artifacts and deletes those that a chain of checks lets through. This library models the core of it, from the
  Rust sources under \<open>src/src\<close>, and proves what makes that core safe and live. Times are nanoseconds as natural
  numbers; \<open>u64\<close>, \<open>usize\<close> and \<open>u32\<close> are words of their width; \<open>f64\<close> is modelled with rounding, NaN and
  infinities; strings are lists of ASCII or UTF-8 bytes; a path is its text, compared component by component.

  How the parts interact. The monitoring thread (\<open>daemon/loop_main.rs\<close>) turns once a second: it collects the
  statistics of every watched mount, feeds them through the mount's rate estimator, pressure controller and
  calibration guard, takes the response of the worst mount, and reacts: it releases or replenishes ballast and
  sends scan requests. The scanner thread walks the roots with worker threads, classifies and scores what the
  walk reports, and sends batches of candidates to the executor thread, which asks the policy engine, dampens
  repeated deletions, checks protection and deletes.

  Foundations. Prelude: machine types, saturating arithmetic, a locale for logs of bounded length
  (\<open>capped_log\<close>). F64: the floats. Ranking: \<open>sort_by\<close> with a locale for comparators (\<open>ranking\<close>), interpreted
  for the scorer, the scheduler, the dispatch and the special locations. Paths: the string and path operations
  of the standard library. Errors: \<open>core/errors.rs\<close>. Platform: records of \<open>platform/pal.rs\<close> and the mount of a
  path. File_Tree: a snapshot of the file system.

  Pressure. Pid: \<open>monitor/pid.rs\<close> (levels with hysteresis, controller, responses; locale
  \<open>hysteresis_classifier\<close>). Ewma: \<open>monitor/ewma.rs\<close>. Predictive: \<open>monitor/predictive.rs\<close>. Guardrails:
  \<open>monitor/guardrails.rs\<close>. Monitor: what the loop keeps per mount and one tick of it. Fs_Collector and
  Special_Locations: \<open>monitor/fs_stats.rs\<close> and \<open>monitor/special_locations.rs\<close>. Voi, Voi_Run:
  \<open>monitor/voi_scheduler.rs\<close> as a state machine, its plans, the round robin of its fallback. Config,
  Config_Default: the sections of \<open>core/config.rs\<close>, their validation, and the default configuration.

  Ballast. Ballast, Ballast_Run: \<open>ballast/manager.rs\<close> over a directory whose every system call may fail; the
  pool refines a set of slots (locale \<open>ballast_pool\<close>). Ballast_Coordinator: \<open>ballast/coordinator.rs\<close>, a pool per
  volume. Ballast_Release: \<open>ballast/release.rs\<close>, when to give up files and when to put one back.

  From the walk to a candidate. Cleanup_Catalog, Cleanup_Tables: the rules of \<open>platform/cleanup_catalog.rs\<close>, their
  glob matcher and both tables. Scan_Types, Patterns: \<open>scanner/patterns.rs\<close>, the classifier and opaque trees.
  Walker: \<open>scanner/walker.rs\<close>; a step is one access of a worker thread to the queue, the registry of markers, the
  channel of results or the counter of work in flight. Walker_Run: the counter is exact, every walk ends.
  Walker_Spec: the threads report what a sequential traversal reports, and stay where the configuration confines
  them, while the file system may change in every step. Walker_Demo: witnesses. Scoring, Score_Range:
  \<open>scanner/scoring.rs\<close>. Decision_Record: \<open>scanner/decision_record.rs\<close>. Protection, Protection_Run:
  \<open>scanner/protection.rs\<close> and \<open>core/paths.rs\<close>; the bounded search for sacred entries against its specification.

  Deciding and deleting. Policy, Policy_Run, Policy_Modes: \<open>daemon/policy.rs\<close> as a state machine, its reachable
  states, the ways out of the fallback. Deletion, Deletion_Run: \<open>scanner/deletion.rs\<close>; a batch is replayed as the
  list of its candidates with their outcomes, while other processes change the tree between its steps. Executor,
  Executor_Run, Executor_Demo: the executor thread of \<open>daemon/loop_main.rs\<close>; whatever disappears is traced back
  through every check. Scan_Pass: what the scanner thread does with the entries of a walk (\<open>daemon/loop_main.rs\<close>:
  classification, the age that counts, the probe for processes, three rounds of scoring) and its cursor, which
  leaves out directories after a pass that ran out of time. Scan_Pass_Run, Scan_Demo: a removal is traced back
  through dispatch and scoring to an entry of the walk; what the cursor hides. Pipeline: scorer with policy, controller with ballast release.

  The daemon. Behavior: behavior modes with hysteresis. Supervision: respawns and self-throttle. Scan_Pacing: scan
  requests, the bounded channels, dispatch, the pause after empty passes. Daemon, Daemon_Run, Daemon_Loop,
  Daemon_Demo: the state of the monitoring thread, the pressure check, the reaction, reload, worker reports and
  one turn of the loop; its reachable states satisfy an invariant from which no turn panics.

  What the lemmas show, by group: invariants of every reachable state (policy engine, daemon, pools, scheduler,
  statistics, workers of a walk); what an operation changes and what it leaves alone on every branch, errors
  included; optimised routines against references (bounded search, walk, cached statistics); refinement of the
  pool; bounds of every float and counter that matters; and what survives: protected paths, marked directories,
  repositories, files outside the pools.

  Bounds and termination. Every recursion of the model ends by a measure; no fuel is used. Where the code may
  panic (\<open>clamp\<close> with unordered bounds) the operation returns \<open>None\<close>, and \<open>daemon_never_panics\<close> excludes it.
  A walk needs no bound on the tree: the depth limit makes every step smaller in a multiset order. The counter of
  work in flight is a word; a run passes only through states with fewer than \<open>2 ^ 64\<close> items, which is all that
  fits into the memory of the machine.

  Environment parameters. Readings of a clock are arguments, one per place where the code takes them; \<open>exp\<close> and
  \<open>ln\<close> are the platform's; system calls (storage, statistics, mount tables, listings, \<open>canonicalize\<close>, open
  files) are fields of environment records and may fail at every call; the regular-expression engine, the codecs
  of marker files, ballast headers and JSON are functions in them; the order in which a hash map is visited is an
  argument; what another thread takes from a channel in between is an argument. The question whether a volume has
  room for replenishment is answered by an argument whose effect on the cache of statistics is not followed.

  Not modelled. The terminal interface and the command line (presentation, installation, downloads); the loggers
  and the statistics over them; the detection of open files over \<open>/proc\<close>, the reads of \<open>/proc\<close> and the system
  interfaces of the two platforms; the persistent candidate index, its events and digests, and
  the pass it drives; the priority pre-scan and the per-root statistics of a pass; self monitoring,
  notifications and service units, which write files and call other programs; kernel tunables; reading TOML files
  and environment variables; the status dump, summary lines and joins at shutdown. Console lines and metrics
  counters without influence on decisions are left out throughout.
\<close>

end
